(* ===== verification/Prelude.thy ===== *)
theory Prelude
  imports Complex_Main "HOL-Library.Char_ord" "HOL-Library.List_Lexorder"
    "HOL-Library.Product_Lexorder"
begin

text \<open>
  What the component theories share: results of fallible operations as sums, transactions with
  rollback, tables as lists of rows with SQL's UPDATE and SELECT, and the JavaScript number
  operations the code uses. Strings are lists of characters ordered lexicographically, which is
  the order of the sorts the code performs on the (ASCII) keys it handles.

  Instants of a database clock are integers in microseconds; what a JavaScript \<open>Date\<close> holds
  is such an instant cut down to the millisecond.
\<close>

named_theorems table_simps \<open>facts about tables that simplify reads after writes\<close>
named_theorems txn_simps \<open>unfolding of the transaction combinators\<close>

subsection \<open>Results and transactions\<close>

type_synonym ('e, 'a) outcome = "'e + 'a"
type_synonym ('e, 'a, 's) txn = "'s \<Rightarrow> ('e, 'a) outcome \<times> 's"

definition txn_return :: "'a \<Rightarrow> ('e, 'a, 's) txn" where
  "txn_return a s = (Inr a, s)"

definition txn_fail :: "'e \<Rightarrow> ('e, 'a, 's) txn" where
  "txn_fail e s = (Inl e, s)"

definition txn_bind :: "('e, 'a, 's) txn \<Rightarrow> ('a \<Rightarrow> ('e, 'b, 's) txn) \<Rightarrow> ('e, 'b, 's) txn" where
  "txn_bind m f s = (case m s of (Inl e, s') \<Rightarrow> (Inl e, s') | (Inr a, s') \<Rightarrow> f a s')"

definition with_transaction :: "('e, 'a, 's) txn \<Rightarrow> ('e, 'a, 's) txn" where
  "with_transaction m s = (case m s of (Inl e, _) \<Rightarrow> (Inl e, s) | (Inr a, s') \<Rightarrow> (Inr a, s'))"

lemma txn_return_simp [txn_simps]: "txn_return a s = (Inr a, s)"
  by (simp add: txn_return_def)

lemma txn_fail_simp [txn_simps]: "txn_fail e s = (Inl e, s)"
  by (simp add: txn_fail_def)

lemma with_transaction_error: "with_transaction m s = (Inl e, s') \<Longrightarrow> s' = s"
  by (auto simp: with_transaction_def split: prod.splits sum.splits)

lemma with_transaction_ok: "with_transaction m s = (Inr a, s') \<longleftrightarrow> m s = (Inr a, s')"
  by (auto simp: with_transaction_def split: prod.splits sum.splits)

lemma with_transaction_fails:
  "with_transaction m s = (Inl e, s') \<longleftrightarrow> s' = s \<and> (\<exists>t. m s = (Inl e, t))"
  by (auto simp: with_transaction_def split: prod.splits sum.splits)

lemma txn_bind_ok:
  "txn_bind m f s = (Inr b, t) \<longleftrightarrow> (\<exists>a s'. m s = (Inr a, s') \<and> f a s' = (Inr b, t))"
  by (auto simp: txn_bind_def split: prod.splits sum.splits)

lemma txn_bind_step [simp]: "m s = (Inr a, s') \<Longrightarrow> txn_bind m f s = f a s'"
  by (simp add: txn_bind_def)

lemma txn_bind_stop [simp]: "m s = (Inl e, s') \<Longrightarrow> txn_bind m f s = (Inl e, s')"
  by (simp add: txn_bind_def)

subsection \<open>Tables\<close>

definition update_where :: "('r \<Rightarrow> bool) \<Rightarrow> ('r \<Rightarrow> 'r) \<Rightarrow> 'r list \<Rightarrow> 'r list" where
  "update_where p f rows = map (\<lambda>r. if p r then f r else r) rows"

definition lookup_by :: "('r \<Rightarrow> 'k) \<Rightarrow> 'k \<Rightarrow> 'r list \<Rightarrow> 'r option" where
  "lookup_by key k rows = List.find (\<lambda>r. key r = k) rows"

definition unique_by :: "('r \<Rightarrow> 'k) \<Rightarrow> 'r list \<Rightarrow> bool" where
  "unique_by key rows \<longleftrightarrow> distinct (map key rows)"

lemma update_where_Nil [table_simps]: "update_where p f [] = []"
  by (simp add: update_where_def)

lemma set_update_where [table_simps]:
  "set (update_where p f rows) = (\<lambda>r. if p r then f r else r) ` set rows"
  by (simp add: update_where_def)

lemma length_update_where [simp]: "length (update_where p f rows) = length rows"
  by (simp add: update_where_def)

lemma map_update_where:
  assumes "\<And>r. p r \<Longrightarrow> key (f r) = key r"
  shows "map key (update_where p f rows) = map key rows"
  using assms by (simp add: update_where_def)

lemma image_update_where [table_simps]:
  assumes "\<And>r. p r \<Longrightarrow> key (f r) = key r"
  shows "key ` set (update_where p f rows) = key ` set rows"
  using map_update_where [of p key f rows] assms by (metis list.set_map)

lemma ball_update_where:
  assumes "\<forall>r \<in> set rows. P r" and "\<And>r. r \<in> set rows \<Longrightarrow> p r \<Longrightarrow> P r \<Longrightarrow> P (f r)"
  shows "\<forall>r \<in> set (update_where p f rows). P r"
  using assms by (auto simp: set_update_where)

lemma unique_by_update_where [table_simps]:
  assumes "\<And>r. p r \<Longrightarrow> key (f r) = key r"
  shows "unique_by key (update_where p f rows) = unique_by key rows"
  using map_update_where [of p key f rows] assms by (simp add: unique_by_def)

lemma unique_by_Nil [simp]: "unique_by key []"
  by (simp add: unique_by_def)

lemma unique_by_append [table_simps]:
  "unique_by key (rows @ [r]) \<longleftrightarrow> unique_by key rows \<and> (\<forall>x \<in> set rows. key x \<noteq> key r)"
  by (auto simp: unique_by_def image_iff)

lemma unique_byD:
  "unique_by key rows \<Longrightarrow> r \<in> set rows \<Longrightarrow> r' \<in> set rows \<Longrightarrow> key r = key r' \<Longrightarrow> r = r'"
  by (auto simp: unique_by_def distinct_map dest: inj_onD)

lemma lookup_by_SomeD: "lookup_by key k rows = Some r \<Longrightarrow> r \<in> set rows \<and> key r = k"
  by (auto simp: lookup_by_def find_Some_iff)

lemma lookup_by_None: "lookup_by key k rows = None \<longleftrightarrow> (\<forall>r \<in> set rows. key r \<noteq> k)"
  by (auto simp: lookup_by_def find_None_iff)

lemma lookup_by_unique:
  assumes "unique_by key rows" and "r \<in> set rows"
  shows "lookup_by key (key r) rows = Some r"
proof -
  have "lookup_by key (key r) rows \<noteq> None"
    using assms(2) by (auto simp: lookup_by_None)
  then obtain r' where r': "lookup_by key (key r) rows = Some r'"
    by blast
  then have "r' \<in> set rows" and "key r' = key r"
    by (auto dest: lookup_by_SomeD)
  with assms have "r' = r"
    by (metis unique_byD)
  with r' show ?thesis by simp
qed

lemma lookup_by_exists: "k \<in> key ` set rows \<Longrightarrow> \<exists>r. lookup_by key k rows = Some r \<and> r \<in> set rows"
  by (cases "lookup_by key k rows") (auto simp: lookup_by_None dest: lookup_by_SomeD)

lemma filter_lookup_by:
  "unique_by key rows \<Longrightarrow> lookup_by key k rows = Some r \<Longrightarrow> filter (\<lambda>x. key x = k) rows = [r]"
proof (induction rows)
  case (Cons a rows)
  then show ?case
    by (cases "key a = k") (auto simp: unique_by_def lookup_by_def image_iff filter_empty_conv)
qed (simp add: lookup_by_def)

lemma lookup_by_append [table_simps]:
  "lookup_by key k (rows @ [r]) =
     (case lookup_by key k rows of Some x \<Rightarrow> Some x | None \<Rightarrow> if key r = k then Some r else None)"
  by (induction rows) (auto simp: lookup_by_def)

lemma lookup_by_update_where [table_simps]:
  assumes "\<And>r. p r \<Longrightarrow> key (f r) = key r"
  shows "lookup_by key k (update_where p f rows) =
           map_option (\<lambda>r. if p r then f r else r) (lookup_by key k rows)"
  using assms by (induction rows) (auto simp: lookup_by_def update_where_def)

lemma filter_update_where:
  "(\<And>r. r \<in> set rows \<Longrightarrow> p r \<Longrightarrow> q (f r) \<longleftrightarrow> q r) \<Longrightarrow>
     filter q (update_where p f rows) = update_where p f (filter q rows)"
  by (induction rows) (auto simp: update_where_def)

text \<open>What \<open>ORDER BY key LIMIT n\<close> leaves out comes after everything it returns.\<close>

lemma take_sort_key_least:
  assumes "x \<in> set xs" and "x \<notin> set (take n (sort_key f xs))"
  shows "length (take n (sort_key f xs)) = n" and "\<And>y. y \<in> set (take n (sort_key f xs)) \<Longrightarrow> f y \<le> f x"
proof -
  let ?s = "sort_key f xs"
  have "x \<in> set (take n ?s @ drop n ?s)"
    using assms(1) by simp
  then have x: "x \<in> set (drop n ?s)"
    using assms(2) by (metis Un_iff set_append)
  then show "length (take n ?s) = n"
    by (cases "n \<le> length ?s") auto
  have "sorted (map f (take n ?s) @ map f (drop n ?s))"
    by (metis append_take_drop_id map_append sorted_sort_key)
  then show "f y \<le> f x" if "y \<in> set (take n ?s)" for y
    using that x by (auto simp: sorted_append)
qed

lemma concat_map_single: "(\<And>x. x \<in> set xs \<Longrightarrow> f x = [g x]) \<Longrightarrow> concat (map f xs) = map g xs"
  by (induction xs) auto

subsection \<open>Sets made from lists\<close>

text \<open>A JavaScript set keeps the first of equal elements.\<close>

definition js_set :: "'a list \<Rightarrow> 'a list" where
  "js_set xs = rev (remdups (rev xs))"

lemma js_set_snoc: "js_set (xs @ [x]) = (if x \<in> set xs then js_set xs else js_set xs @ [x])"
  by (simp add: js_set_def)

lemma set_js_set [simp]: "set (js_set xs) = set xs"
  by (simp add: js_set_def)

lemma find_append: "List.find P (xs @ ys) = (case List.find P xs of Some x \<Rightarrow> Some x | None \<Rightarrow> List.find P ys)"
  by (induction xs) auto

lemma distinct_js_set [simp]: "distinct (js_set xs)"
  by (simp add: js_set_def)

subsection \<open>Decimal text of integers\<close>

definition digit_char :: "nat \<Rightarrow> char" where
  "digit_char n = ''0123456789'' ! (n mod 10)"

fun nat_text :: "nat \<Rightarrow> string" where
  "nat_text n = (if n < 10 then [digit_char n] else nat_text (n div 10) @ [digit_char (n mod 10)])"

declare nat_text.simps [simp del]

definition int_text :: "int \<Rightarrow> string" where
  "int_text k = (if k < 0 then CHR ''-'' # nat_text (nat (- k)) else nat_text (nat k))"

definition digits_value :: "string \<Rightarrow> nat" where
  "digits_value s = foldl (\<lambda>v c. 10 * v + (of_char c - 48)) 0 s"

lemma below_cases: "n < k \<Longrightarrow> list_all P [0..<k] \<Longrightarrow> P n"
  by (simp add: list_all_iff)

lemma digit_char_cases: "n < 10 \<Longrightarrow> digit_char n \<in> set ''0123456789'' \<and> of_char (digit_char n) = 48 + n"
  by (erule below_cases) (simp add: upt_rec digit_char_def)

lemma nat_text_chars: "set (nat_text n) \<subseteq> set ''0123456789''"
proof (induction n rule: nat_text.induct)
  case (1 n)
  then show ?case
    using digit_char_cases [of n] digit_char_cases [of "n mod 10"]
    by (subst nat_text.simps) auto
qed

lemma nat_text_nonempty [simp]: "nat_text n \<noteq> []"
  by (subst nat_text.simps) simp

lemma digits_value_nat_text: "digits_value (nat_text n) = n"
proof (induction n rule: nat_text.induct)
  case (1 n)
  then show ?case
    using digit_char_cases [of n] digit_char_cases [of "n mod 10"]
    by (subst nat_text.simps) (auto simp: digits_value_def)
qed

lemma nat_text_inject: "nat_text m = nat_text n \<longleftrightarrow> m = n"
  by (metis digits_value_nat_text)

lemma int_text_chars: "set (int_text k) \<subseteq> set ''-0123456789''"
proof -
  have "set (nat_text n) \<subseteq> set ''-0123456789''" for n
    by (rule subset_trans [OF nat_text_chars]) simp
  then show ?thesis by (simp add: int_text_def)
qed

lemma int_text_nonempty [simp]: "int_text k \<noteq> []"
  by (simp add: int_text_def)

lemma nat_text_no_minus: "nat_text m \<noteq> CHR ''-'' # s"
  using nat_text_chars [of m] by auto

lemma int_text_inject: "int_text j = int_text k \<longleftrightarrow> j = k"
  using nat_text_no_minus by (auto simp: int_text_def nat_text_inject) (metis nat_text_no_minus)+

lemma append_separator_eq_iff:
  "c \<notin> set xs \<Longrightarrow> c \<notin> set ys \<Longrightarrow> xs @ c # us = ys @ c # vs \<longleftrightarrow> xs = ys \<and> us = vs"
  by (auto simp: append_eq_append_conv2 Cons_eq_append_conv append_eq_Cons_conv)

definition in_quotes :: "string \<Rightarrow> string" where
  "in_quotes s = CHR 0x22 # s @ [CHR 0x22]"

subsection \<open>White space\<close>

text \<open>The white space of \<open>String.prototype.trim\<close> below code point 256.\<close>

definition is_js_space :: "char \<Rightarrow> bool" where
  "is_js_space c \<longleftrightarrow> c \<in> {CHR '' '', CHR 0x09, CHR 0x0A, CHR 0x0B, CHR 0x0C, CHR 0x0D, CHR 0xA0}"

definition js_trim :: "string \<Rightarrow> string" where
  "js_trim s = rev (dropWhile is_js_space (rev (dropWhile is_js_space s)))"

lemma js_trim_no_leading:
  assumes "js_trim s \<noteq> []"
  shows "\<not> is_js_space (hd (js_trim s))"
proof -
  define t where "t = dropWhile is_js_space s"
  have "rev t = takeWhile is_js_space (rev t) @ rev (js_trim s)"
    by (simp add: js_trim_def t_def)
  then have t: "t = js_trim s @ rev (takeWhile is_js_space (rev t))"
    by (metis rev_append rev_rev_ident)
  then have "t \<noteq> []" using assms by auto
  then have "\<not> is_js_space (hd t)" unfolding t_def by (rule hd_dropWhile)
  moreover have "hd t = hd (js_trim s)" using assms by (subst t) (rule hd_append2)
  ultimately show ?thesis by simp
qed

lemma js_trim_idem [simp]: "js_trim (js_trim s) = js_trim s"
proof (cases "js_trim s")
  case (Cons c u)
  then have "dropWhile is_js_space (js_trim s) = js_trim s"
    using js_trim_no_leading [of s] by simp
  moreover have "dropWhile is_js_space (rev (js_trim s)) = rev (js_trim s)"
    by (simp add: js_trim_def dropWhile_idem)
  ultimately show ?thesis by (simp add: js_trim_def [of "js_trim s"])
next
  case Nil
  have "js_trim [] = []" by (simp add: js_trim_def)
  then show ?thesis unfolding Nil .
qed

subsection \<open>JavaScript numbers\<close>

text \<open>The values of type \<open>number\<close>: the finite ones (as exact rationals) and the three others.\<close>

datatype js_number = JsFinite rat | JsInfinity | JsNegInfinity | JsNaN

definition js_is_finite :: "js_number \<Rightarrow> bool" where
  "js_is_finite n = (case n of JsFinite _ \<Rightarrow> True | _ \<Rightarrow> False)"

text \<open>\<open>Math.trunc\<close> rounds a finite number towards zero.\<close>

definition math_trunc :: "rat \<Rightarrow> int" where
  "math_trunc x = (if 0 \<le> x then \<lfloor>x\<rfloor> else \<lceil>x\<rceil>)"

lemma math_trunc_of_int [simp]: "math_trunc (of_int k) = k"
  by (simp add: math_trunc_def)

subsection \<open>Dates\<close>

text \<open>A timestamp read into a \<open>Date\<close> loses what is below the millisecond.\<close>

definition js_date :: "int \<Rightarrow> int" where
  "js_date t = (t div 1000) * 1000"

lemma js_date_le: "js_date t \<le> t"
  by (simp add: js_date_def)

lemma js_date_idem [simp]: "js_date (js_date t) = js_date t"
  by (simp add: js_date_def)

lemma js_date_mono: "s \<le> t \<Longrightarrow> js_date s \<le> js_date t"
  by (simp add: js_date_def zdiv_mono1)

end
