(* ===== verification/Json.thy ===== *)
theory Json
  imports Prelude
begin

text \<open>
  JSON values as the workflow payloads carry them, \<open>JSON.stringify\<close>, and the canonical text
  \<open>stableJson\<close> that the invocation fingerprint and the delivery ledger hash. The text of a
  number is the parameter \<open>num\<close> (ECMAScript's \<open>Number::toString\<close>), about which the
  lemmas assume that different numbers have different, nonempty texts free of JSON's
  structural characters. The main result is that canonical text identifies a JSON value up to
  the order of object members.
\<close>

datatype json =
    JNull
  | JBool bool
  | JNum rat
  | JStr string
  | JArr "json list"
  | JObj "(string \<times> json) list"

subsection \<open>Text of strings\<close>

definition hex_digit :: "nat \<Rightarrow> char" where
  "hex_digit n = ''0123456789abcdef'' ! (n mod 16)"

definition hex_byte :: "nat \<Rightarrow> string" where
  "hex_byte n = [hex_digit (n div 16), hex_digit n]"

text \<open>The escapes of \<open>JSON.stringify\<close>: quote, backslash and the control characters.\<close>

definition json_escape :: "char \<Rightarrow> string" where
  "json_escape c =
     (if c = CHR 0x22 then [CHR 0x5C, CHR 0x22]
      else if c = CHR 0x5C then [CHR 0x5C, CHR 0x5C]
      else if c = CHR 0x08 then [CHR 0x5C, CHR ''b'']
      else if c = CHR 0x0C then [CHR 0x5C, CHR ''f'']
      else if c = CHR 0x0A then [CHR 0x5C, CHR ''n'']
      else if c = CHR 0x0D then [CHR 0x5C, CHR ''r'']
      else if c = CHR 0x09 then [CHR 0x5C, CHR ''t'']
      else if (of_char c :: nat) < 32 then CHR 0x5C # ''u00'' @ hex_byte (of_char c)
      else [c])"

definition json_quote :: "string \<Rightarrow> string" where
  "json_quote s = CHR 0x22 # concat (map json_escape s) @ [CHR 0x22]"

fun join_with :: "string \<Rightarrow> string list \<Rightarrow> string" where
  "join_with sep [] = []"
| "join_with sep [x] = x"
| "join_with sep (x # xs) = x @ sep @ join_with sep xs"

subsection \<open>Values and their text\<close>

text \<open>\<open>JSON.stringify\<close> writes the members in the object's own order.\<close>

primrec json_stringify :: "(rat \<Rightarrow> string) \<Rightarrow> json \<Rightarrow> string" where
  "json_stringify num JNull = ''null''"
| "json_stringify num (JBool b) = (if b then ''true'' else ''false'')"
| "json_stringify num (JNum n) = num n"
| "json_stringify num (JStr s) = json_quote s"
| "json_stringify num (JArr vs) = ''['' @ join_with '','' (map (json_stringify num) vs) @ '']''"
| "json_stringify num (JObj kvs) =
     ''{'' @ join_with '',''
       (map (\<lambda>(k, t). json_quote k @ '':'' @ t) (map (map_prod (\<lambda>k. k) (json_stringify num)) kvs)) @ ''}''"

text \<open>\<open>stableJson\<close> of the invocation fingerprint sorts the members by key on the way.\<close>

primrec stable_json :: "(rat \<Rightarrow> string) \<Rightarrow> json \<Rightarrow> string" where
  "stable_json num JNull = json_stringify num JNull"
| "stable_json num (JBool b) = json_stringify num (JBool b)"
| "stable_json num (JNum n) = json_stringify num (JNum n)"
| "stable_json num (JStr s) = json_stringify num (JStr s)"
| "stable_json num (JArr vs) = ''['' @ join_with '','' (map (stable_json num) vs) @ '']''"
| "stable_json num (JObj kvs) =
     ''{'' @ join_with '',''
       (map (\<lambda>(k, t). json_quote k @ '':'' @ t)
         (sort_key fst (map (map_prod (\<lambda>k. k) (stable_json num)) kvs))) @ ''}''"

text \<open>
  The value up to the order of object members: members sorted by key at every level. Two
  \<open>jsonb\<close> columns are equal when these agree.
\<close>

primrec sort_json :: "json \<Rightarrow> json" where
  "sort_json JNull = JNull"
| "sort_json (JBool b) = JBool b"
| "sort_json (JNum n) = JNum n"
| "sort_json (JStr s) = JStr s"
| "sort_json (JArr vs) = JArr (map sort_json vs)"
| "sort_json (JObj kvs) = JObj (sort_key fst (map (map_prod (\<lambda>k. k) sort_json) kvs))"

definition jsonb_eq :: "json \<Rightarrow> json \<Rightarrow> bool" where
  "jsonb_eq v w \<longleftrightarrow> sort_json v = sort_json w"

lemma jsonb_eq_refl [simp]: "jsonb_eq v v"
  by (simp add: jsonb_eq_def)

lemma jsonb_eq_sym: "jsonb_eq v w \<Longrightarrow> jsonb_eq w v"
  by (simp add: jsonb_eq_def)

lemma jsonb_eq_trans [trans]: "jsonb_eq u v \<Longrightarrow> jsonb_eq v w \<Longrightarrow> jsonb_eq u w"
  by (simp add: jsonb_eq_def)

subsection \<open>Sorting members\<close>

lemma insort_key_map_values:
  "insort_key fst (map_prod (\<lambda>k. k) h x) (map (map_prod (\<lambda>k. k) h) xs) = map (map_prod (\<lambda>k. k) h) (insort_key fst x xs)"
  by (induction xs) (auto simp: map_prod_def split: prod.splits)

lemma sort_key_map_values:
  "sort_key fst (map (map_prod (\<lambda>k. k) h) xs) = map (map_prod (\<lambda>k. k) h) (sort_key fst xs)"
  by (induction xs) (simp_all add: insort_key_map_values)

lemma stable_json_eq: "stable_json num v = json_stringify num (sort_json v)"
proof (induction v)
  case (JArr vs)
  then have "map (stable_json num) vs = map (\<lambda>v. json_stringify num (sort_json v)) vs"
    by simp
  then show ?case
    by (simp add: comp_def cong: map_cong)
next
  case (JObj kvs)
  then have "map (map_prod (\<lambda>k. k) (stable_json num)) kvs =
      map (map_prod (\<lambda>k. k) (json_stringify num)) (map (map_prod (\<lambda>k. k) sort_json) kvs)"
    by (force simp: map_prod_def)
  then show ?case
    by (simp add: sort_key_map_values del: map_map)
qed auto

subsection \<open>Text identifies the value\<close>

text \<open>What the proofs use of \<open>Number::toString\<close>.\<close>

definition number_text :: "(rat \<Rightarrow> string) \<Rightarrow> bool" where
  "number_text num \<longleftrightarrow> inj num \<and>
     (\<forall>n. num n \<noteq> [] \<and> hd (num n) \<in> set ''-0123456789'' \<and> set (num n) \<inter> set '',]}'' = {})"

text \<open>Reading one character back from the inside of a quoted string.\<close>

definition hex_value :: "char \<Rightarrow> nat" where
  "hex_value c = (if (of_char c :: nat) < 58 then of_char c - 48 else of_char c - 87)"

definition json_unescape :: "string \<Rightarrow> (char \<times> string) option" where
  "json_unescape s =
     (case s of
        [] \<Rightarrow> None
      | c # r \<Rightarrow>
          if c = CHR 0x22 then None
          else if c \<noteq> CHR 0x5C then Some (c, r)
          else (case r of
                  [] \<Rightarrow> None
                | d # r' \<Rightarrow>
                    if d = CHR ''b'' then Some (CHR 0x08, r')
                    else if d = CHR ''f'' then Some (CHR 0x0C, r')
                    else if d = CHR ''n'' then Some (CHR 0x0A, r')
                    else if d = CHR ''r'' then Some (CHR 0x0D, r')
                    else if d = CHR ''t'' then Some (CHR 0x09, r')
                    else if d = CHR ''u'' then
                      Some (char_of (16 * hex_value (r' ! 2) + hex_value (r' ! 3)), drop 4 r')
                    else Some (d, r')))"

lemma upt_32: "[0..<32::nat] =
    [0, 1, 2, 3, 4, 5, 6, 7, 8, 9, 10, 11, 12, 13, 14, 15,
     16, 17, 18, 19, 20, 21, 22, 23, 24, 25, 26, 27, 28, 29, 30, 31]"
  by (simp add: upt_rec)

lemma json_unescape_small:
  assumes "(n::nat) < 32"
  shows "json_unescape (json_escape (char_of n) @ r) = Some (char_of n, r)"
  using assms
  by (rule below_cases; unfold upt_32 list.pred_inject; intro conjI TrueI;
      simp add: json_escape_def json_unescape_def hex_byte_def hex_digit_def hex_value_def)

lemma json_unescape_escape: "json_unescape (json_escape c @ r) = Some (c, r)"
proof (cases "(of_char c :: nat) < 32")
  case True
  then show ?thesis
    using json_unescape_small [of "of_char c" r] by simp
next
  case False
  then show ?thesis
    by (simp add: json_escape_def json_unescape_def)
qed

lemma json_escape_nonempty: "json_escape c \<noteq> []"
  by (simp add: json_escape_def)

lemma json_unescape_quote: "json_unescape (CHR 0x22 # r) = None"
  by (simp add: json_unescape_def)

lemma escaped_unambiguous:
  "concat (map json_escape s) @ CHR 0x22 # x = concat (map json_escape t) @ CHR 0x22 # y \<Longrightarrow>
   s = t \<and> x = y"
proof (induction s arbitrary: t)
  case Nil
  show ?case
  proof (cases t)
    case (Cons d t')
    then have "json_unescape (CHR 0x22 # x) =
        json_unescape (json_escape d @ concat (map json_escape t') @ CHR 0x22 # y)"
      using Nil by simp
    then show ?thesis
      by (simp add: json_unescape_escape json_unescape_quote)
  qed (use Nil in simp)
next
  case (Cons c s)
  show ?case
  proof (cases t)
    case Nil
    then have "json_unescape (CHR 0x22 # y) =
        json_unescape (json_escape c @ concat (map json_escape s) @ CHR 0x22 # x)"
      using Cons.prems by simp
    then show ?thesis
      by (simp add: json_unescape_escape json_unescape_quote)
  next
    case (Cons d t')
    then have "json_unescape (json_escape c @ concat (map json_escape s) @ CHR 0x22 # x) =
        json_unescape (json_escape d @ concat (map json_escape t') @ CHR 0x22 # y)"
      using Cons.prems by simp
    then have "c = d" and
      "concat (map json_escape s) @ CHR 0x22 # x = concat (map json_escape t') @ CHR 0x22 # y"
      by (simp_all add: json_unescape_escape)
    with Cons Cons.IH [of t'] show ?thesis by simp
  qed
qed

lemma json_quote_unambiguous: "json_quote s @ x = json_quote t @ y \<Longrightarrow> s = t \<and> x = y"
  using escaped_unambiguous [of s x t y] by (simp add: json_quote_def)

definition stops :: "string \<Rightarrow> bool" where
  "stops x \<longleftrightarrow> (case x of [] \<Rightarrow> True | c # _ \<Rightarrow> c \<in> set '',]}'')"

lemma number_unambiguous:
  assumes num: "number_text num" and eq: "num m @ x = num n @ y" and "stops x" "stops y"
  shows "m = n \<and> x = y"
proof -
  have cut: "takeWhile (\<lambda>c. c \<notin> set '',]}'') (num k @ z) = num k" if "stops z" for k z
  proof -
    have "\<forall>c \<in> set (num k). c \<notin> set '',]}''"
      using num by (auto simp: number_text_def)
    then have "takeWhile (\<lambda>c. c \<notin> set '',]}'') (num k @ z) =
        num k @ takeWhile (\<lambda>c. c \<notin> set '',]}'') z"
      by (intro takeWhile_append2) blast
    also have "takeWhile (\<lambda>c. c \<notin> set '',]}'') z = []"
      using that by (cases z) (auto simp: stops_def)
    finally show ?thesis by simp
  qed
  have "num m = num n"
    using cut [OF \<open>stops x\<close>, of m] cut [OF \<open>stops y\<close>, of n] eq by simp
  with eq num show ?thesis
    by (auto simp: number_text_def dest: injD)
qed

lemma join_with_Cons:
  "join_with sep (t # ts) = t @ (case ts of [] \<Rightarrow> [] | _ \<Rightarrow> sep @ join_with sep ts)"
  by (cases ts) auto

lemma join_unambiguous:
  assumes each: "\<And>v w x y. v \<in> set vs \<Longrightarrow> f v @ x = f w @ y \<Longrightarrow> stops x \<Longrightarrow> stops y \<Longrightarrow> v = w \<and> x = y"
    and starts: "\<And>v. f v \<noteq> [] \<and> hd (f v) \<notin> set '',]}''"
    and close: "c \<in> set '']}''"
    and eq: "join_with '','' (map f vs) @ c # x = join_with '','' (map f ws) @ c # y"
  shows "vs = ws \<and> x = y"
  using each eq
proof (induction vs arbitrary: ws)
  case Nil
  show ?case
  proof (cases ws)
    case (Cons w ws')
    have "hd (f w) = c"
      using Nil(2) Cons starts [of w] by (cases "f w") (auto simp: join_with_Cons)
    with starts [of w] close show ?thesis by auto
  qed (use Nil in simp)
next
  case (Cons v vs)
  show ?case
  proof (cases ws)
    case Nil
    have "hd (f v) = c"
      using Cons.prems(2) Nil starts [of v] by (cases "f v") (auto simp: join_with_Cons)
    with starts [of v] close show ?thesis by auto
  next
    case ws: (Cons w ws')
    define tail where "tail us z = (case map f us of [] \<Rightarrow> [] | _ \<Rightarrow> '','' @ join_with '','' (map f us)) @ c # z" for us z
    have stop: "stops (tail us z)" for us z
      using close by (cases us) (auto simp: tail_def stops_def)
    have split: "f v @ tail vs x = f w @ tail ws' y"
      using Cons.prems(2) ws by (simp add: join_with_Cons tail_def)
    have "v = w \<and> tail vs x = tail ws' y"
      by (rule Cons.prems(1) [of v]) (simp_all add: split stop)
    then have "v = w" and "join_with '','' (map f vs) @ c # x = join_with '','' (map f ws') @ c # y"
      using close by (auto simp: tail_def split: list.splits)
    with ws Cons.IH [of ws'] Cons.prems(1) show ?thesis by auto
  qed
qed

lemma stringify_starts:
  assumes "number_text num"
  shows "json_stringify num v \<noteq> [] \<and> hd (json_stringify num v) \<notin> set '',]}''"
proof (cases v)
  case (JNum n)
  then show ?thesis
    using assms by (auto simp: number_text_def dest!: spec [of _ n])
qed (auto simp: json_quote_def)

definition member_text :: "(rat \<Rightarrow> string) \<Rightarrow> string \<times> json \<Rightarrow> string" where
  "member_text num kv = json_quote (fst kv) @ '':'' @ json_stringify num (snd kv)"

lemma stringify_JObj:
  "json_stringify num (JObj kvs) = ''{'' @ join_with '','' (map (member_text num) kvs) @ ''}''"
  by (simp add: member_text_def comp_def split_def map_prod_def cong: map_cong)

lemma hd_number_text: "number_text num \<Longrightarrow> num n = c # r \<Longrightarrow> c \<in> set ''-0123456789''"
  unfolding number_text_def by (metis list.sel(1))

lemma number_text_Cons: "number_text num \<Longrightarrow> \<exists>c r. num n = c # r \<and> c \<in> set ''-0123456789''"
  unfolding number_text_def by (metis list.collapse)

lemma stringify_JNum_only:
  assumes num: "number_text num" and eq: "num n @ x = json_stringify num w @ y"
  shows "\<exists>m. w = JNum m"
proof -
  obtain c r where "num n = c # r" and c: "c \<in> set ''-0123456789''"
    using number_text_Cons [OF num] by blast
  with eq have "hd (json_stringify num w @ y) = c" by (metis append_Cons list.sel(1))
  with c show ?thesis
    by (cases w) (auto simp: json_quote_def split: if_splits)
qed

lemma stringify_not_number:
  assumes "number_text num" and "json_stringify num v @ x = json_stringify num w @ y"
    and "\<And>n. v \<noteq> JNum n"
  shows "w \<noteq> JNum m"
  using stringify_JNum_only [of num m y v x] assms by auto

lemma json_stringify_unambiguous:
  assumes num: "number_text num"
  shows "json_stringify num v @ x = json_stringify num w @ y \<Longrightarrow> stops x \<Longrightarrow> stops y \<Longrightarrow> v = w \<and> x = y"
proof (induction v arbitrary: w x y)
  case (JNum n)
  then obtain m where "w = JNum m"
    using stringify_JNum_only [OF num] by fastforce
  then show ?case
    using JNum number_unambiguous [OF num, of n x m y] by simp
next
  case (JArr vs)
  have "w \<noteq> JNum m" for m
    by (rule stringify_not_number [OF num JArr.prems(1)]) simp
  then obtain ws where w: "w = JArr ws"
    using JArr.prems by (cases w) (auto simp: json_quote_def split: if_splits)
  have "vs = ws \<and> x = y"
    by (rule join_unambiguous [where f = "json_stringify num" and c = "CHR '']''"])
      (use JArr w stringify_starts [OF num] in auto)
  with w show ?case by simp
next
  case (JObj kvs)
  have "w \<noteq> JNum m" for m
    by (rule stringify_not_number [OF num JObj.prems(1)]) simp
  then obtain ws where w: "w = JObj ws"
    using JObj.prems by (cases w) (auto simp: json_quote_def split: if_splits)
  have each: "kv = kv' \<and> x' = y'"
    if "kv \<in> set kvs" "member_text num kv @ x' = member_text num kv' @ y'" "stops x'" "stops y'"
    for kv kv' x' y'
  proof -
    have "fst kv = fst kv' \<and> '':'' @ json_stringify num (snd kv) @ x' = '':'' @ json_stringify num (snd kv') @ y'"
      by (rule json_quote_unambiguous) (use that(2) in \<open>simp add: member_text_def\<close>)
    moreover from this have "snd kv = snd kv' \<and> x' = y'"
      using JObj.IH [of kv "snd kv" x' "snd kv'" y'] that by (cases kv) auto
    ultimately show ?thesis by (simp add: prod_eq_iff)
  qed
  have starts: "member_text num kv \<noteq> [] \<and> hd (member_text num kv) \<notin> set '',]}''" for kv
    by (simp add: member_text_def json_quote_def)
  have "join_with '','' (map (member_text num) kvs) @ CHR ''}'' # x =
      join_with '','' (map (member_text num) ws) @ CHR ''}'' # y"
    using JObj.prems(1) unfolding w stringify_JObj by simp
  from join_unambiguous [of kvs "member_text num", OF each starts _ this]
  have "kvs = ws \<and> x = y" by simp
  with w show ?case by simp
next
  case (JStr s)
  have "w \<noteq> JNum m" for m
    by (rule stringify_not_number [OF num JStr.prems(1)]) simp
  then obtain t where "w = JStr t"
    using JStr.prems by (cases w) (auto simp: json_quote_def split: if_splits)
  then show ?case
    using JStr.prems json_quote_unambiguous [of s x t y] by simp
next
  case JNull
  have "w \<noteq> JNum m" for m
    by (rule stringify_not_number [OF num JNull.prems(1)]) simp
  then show ?case
    using JNull.prems by (cases w) (auto simp: json_quote_def split: if_splits)
next
  case (JBool b)
  have "w \<noteq> JNum m" for m
    by (rule stringify_not_number [OF num JBool.prems(1)]) simp
  then show ?case
    using JBool.prems by (cases w) (auto simp: json_quote_def split: if_splits)
qed

lemma json_stringify_inject:
  "number_text num \<Longrightarrow> json_stringify num v = json_stringify num w \<longleftrightarrow> v = w"
  using json_stringify_unambiguous [of num v "[]" w "[]"] by (auto simp: stops_def)

lemma stable_json_eq_iff:
  "number_text num \<Longrightarrow> stable_json num v = stable_json num w \<longleftrightarrow> jsonb_eq v w"
  by (simp add: stable_json_eq json_stringify_inject jsonb_eq_def)

subsection \<open>A number text\<close>

text \<open>
  Numerator and denominator in decimal: one function that meets \<open>number_text\<close>, which is
  what the witnesses of the properties about canonical text use.
\<close>

definition fraction_text :: "rat \<Rightarrow> string" where
  "fraction_text r = (case quotient_of r of (p, q) \<Rightarrow> int_text p @ ''/'' @ int_text q)"

lemma fraction_text_number_text: "number_text fraction_text"
proof -
  have slash: "CHR ''/'' \<notin> set (int_text k)" for k
    using int_text_chars [of k] by auto
  have "r = s" if "fraction_text r = fraction_text s" for r s
  proof -
    obtain p q p' q' where pq: "quotient_of r = (p, q)" "quotient_of s = (p', q')"
      by (metis surj_pair)
    with that have "int_text p @ CHR ''/'' # int_text q = int_text p' @ CHR ''/'' # int_text q'"
      by (simp add: fraction_text_def)
    then have "int_text p = int_text p' \<and> int_text q = int_text q'"
      by (simp add: append_separator_eq_iff slash)
    with pq have "quotient_of r = quotient_of s"
      by (simp add: int_text_inject)
    then show ?thesis by (simp add: quotient_of_inject)
  qed
  moreover have "fraction_text n \<noteq> [] \<and> hd (fraction_text n) \<in> set ''-0123456789'' \<and>
      set (fraction_text n) \<inter> set '',]}'' = {}" for n
  proof -
    obtain p q where pq: "quotient_of n = (p, q)" by (metis surj_pair)
    have start: "hd (int_text p) \<in> set ''-0123456789''"
      by (rule subsetD [OF int_text_chars [of p]]) (simp add: hd_in_set)
    have "A \<subseteq> D \<Longrightarrow> B \<subseteq> D \<Longrightarrow> insert c (A \<union> B) \<subseteq> D \<union> {c}" for A B D and c :: char
      by blast
    from this [OF int_text_chars [of p] int_text_chars [of q], of "CHR ''/''"]
    have "set (fraction_text n) \<subseteq> set ''-0123456789'' \<union> {CHR ''/''}"
      using pq by (simp add: fraction_text_def)
    then have "set (fraction_text n) \<inter> set '',]}'' \<subseteq> (set ''-0123456789'' \<union> {CHR ''/''}) \<inter> set '',]}''"
      by blast
    also have "\<dots> = {}" by simp
    finally have "set (fraction_text n) \<inter> set '',]}'' = {}" by blast
    with start pq show ?thesis
      by (simp add: fraction_text_def)
  qed
  ultimately show ?thesis
    unfolding number_text_def inj_def by blast
qed

end
