(* ===== verification/WorkflowStore.thy ===== *)
theory WorkflowStore
  imports Json
begin

text \<open>
  The durable workflow store of \<^verbatim>\<open>effect-zero-workflow\<close> (\<^verbatim>\<open>models.ts\<close>,
  \<^verbatim>\<open>store.ts\<close>): the run and the command table, and every statement the store issues
  against them. A table is the list of its rows in physical order, which also decides ties of
  \<open>ORDER BY\<close> and the order of \<open>RETURNING\<close>. Every operation takes the clocks it
  reads: \<open>now\<close> for the process's \<open>new Date()\<close>, \<open>db_now\<close> for the transaction's
  \<open>NOW()\<close>.
\<close>

subsection \<open>Tables\<close>

datatype workflow_run_status = RunPending | RunRunning | RunSucceeded | RunFailed | RunCancelled

datatype workflow_command_kind = StartCommand | CancelCommand | ResumeCommand | EventCommand

datatype workflow_command_status =
  CommandPending | CommandDelivering | CommandDelivered | CommandFailed | CommandCancelled

record workflow_run_row =
  run_id :: string
  workflow_name :: string
  contract_identity :: "string option"
  contract_wire_version :: "string option"
  canonical_input_hash :: "string option"
  definition_version :: string
  execution_id :: string
  idempotency_key :: string
  visibility_key :: string
  principal :: "json option"
  actor_provenance :: "json option"
  run_input :: json
  run_status :: workflow_run_status
  run_result :: "json option"
  run_error :: "json option"
  max_attempts :: int
  run_after :: int
  started_at :: "int option"
  completed_at :: "int option"
  run_created_at :: int
  run_updated_at :: int

record workflow_command_row =
  command_id :: string
  command_run_id :: string
  command_kind :: workflow_command_kind
  command_payload :: json
  command_status :: workflow_command_status
  attempts :: int
  available_at :: int
  lease_owner :: "string option"
  lease_token :: int
  lease_until :: "int option"
  delivered_at :: "int option"
  last_error :: "json option"
  command_created_at :: int
  command_updated_at :: int

record workflow_db =
  runs :: "workflow_run_row list"
  commands :: "workflow_command_row list"

definition empty_db :: workflow_db where
  "empty_db = \<lparr>runs = [], commands = []\<rparr>"

definition is_terminal_workflow_run_status :: "workflow_run_status \<Rightarrow> bool" where
  "is_terminal_workflow_run_status s = (s \<in> {RunSucceeded, RunFailed, RunCancelled})"

definition default_workflow_max_attempts :: int where
  "default_workflow_max_attempts = 10"

subsection \<open>Values that cross the store's interface\<close>

record enqueue_workflow =
  enq_run_id :: string
  enq_workflow_name :: string
  enq_definition_version :: string
  enq_execution_id :: string
  enq_idempotency_key :: string
  enq_visibility_key :: string
  enq_principal :: "json option"
  enq_payload :: json
  enq_max_attempts :: "int option"
  enq_run_after :: "int option"

record enqueue_workflow_command =
  eqc_command_id :: string
  eqc_run_id :: string
  eqc_kind :: workflow_command_kind
  eqc_payload :: json
  eqc_available_at :: "int option"

record enqueued_workflow =
  enqueued_run_id :: string
  enqueued_execution_id :: string

text \<open>A claimed command, joined with the columns of its run.\<close>

record workflow_command =
  cmd_command_id :: string
  cmd_run_id :: string
  cmd_workflow_name :: string
  cmd_definition_version :: string
  cmd_execution_id :: string
  cmd_kind :: workflow_command_kind
  cmd_payload :: json
  cmd_status :: workflow_command_status
  cmd_attempts :: int
  cmd_max_attempts :: int
  cmd_lease_owner :: string
  cmd_lease_token :: int

record workflow_run =
  wr_run_id :: string
  wr_workflow_name :: string
  wr_definition_version :: string
  wr_execution_id :: string
  wr_status :: workflow_run_status
  wr_result :: "json option"
  wr_error :: "json option"
  wr_updated_at :: int

datatype store_error =
    StoreError string string  \<comment> \<open>message and operation of \<open>workflowStoreError\<close>\<close>
  | UniqueViolation           \<comment> \<open>a unique index refused the row\<close>

subsection \<open>Table names\<close>

text \<open>
  A prefix is an identifier of at most 46 characters; trailing underscores are dropped and one is
  put back. An invalid prefix makes the schema decoder throw.
\<close>

definition is_ident_start :: "char \<Rightarrow> bool" where
  "is_ident_start c \<longleftrightarrow> CHR ''A'' \<le> c \<and> c \<le> CHR ''Z'' \<or> CHR ''a'' \<le> c \<and> c \<le> CHR ''z'' \<or> c = CHR ''_''"

definition is_ident_char :: "char \<Rightarrow> bool" where
  "is_ident_char c \<longleftrightarrow> is_ident_start c \<or> CHR ''0'' \<le> c \<and> c \<le> CHR ''9''"

definition valid_table_prefix :: "string \<Rightarrow> bool" where
  "valid_table_prefix p \<longleftrightarrow>
     p \<noteq> [] \<and> is_ident_start (hd p) \<and> list_all is_ident_char (tl p) \<and> length p \<le> 46"

definition normalize_prefix :: "string option \<Rightarrow> string option" where
  "normalize_prefix prefix =
     (case prefix of
        None \<Rightarrow> Some []
      | Some p \<Rightarrow>
          if p = [] then Some []
          else if valid_table_prefix p
          then Some (rev (dropWhile (\<lambda>c. c = CHR ''_'') (rev p)) @ ''_'')
          else None)"

text \<open>The names of the command and the run table.\<close>

definition workflow_table_names :: "string option \<Rightarrow> (string \<times> string) option" where
  "workflow_table_names prefix =
     map_option (\<lambda>n. (n @ ''workflow_command'', n @ ''workflow_run'')) (normalize_prefix prefix)"

subsection \<open>Enqueueing\<close>

text \<open>
  \<open>insertRun\<close>. The unique index on workflow name and idempotency key arbitrates the
  conflict; the \<open>DO UPDATE\<close> writes back the row's own \<open>updated_at\<close>, so it changes
  nothing and only makes the statement return the existing row, when that row has the caller's
  visibility key. The primary key is not an arbiter: a run id used by another invocation is
  refused.
\<close>

definition insert_run ::
    "int \<Rightarrow> enqueue_workflow \<Rightarrow> (store_error, enqueued_workflow, workflow_db) txn" where
  "insert_run now inp db =
     (let maxAttempts = (case enq_max_attempts inp of None \<Rightarrow> default_workflow_max_attempts | Some n \<Rightarrow> n)
      in case List.find (\<lambda>r. workflow_name r = enq_workflow_name inp \<and>
                             idempotency_key r = enq_idempotency_key inp) (runs db) of
           Some r \<Rightarrow>
             if visibility_key r \<noteq> enq_visibility_key inp
             then (Inl (StoreError (''Workflow idempotency conflict is not accessible: '' @
                     enq_workflow_name inp) ''insert workflow run''), db)
             else if definition_version r \<noteq> enq_definition_version inp \<or>
                     \<not> jsonb_eq (run_input r) (enq_payload inp) \<or>
                     max_attempts r \<noteq> maxAttempts
             then (Inl (StoreError (''Workflow was already enqueued with different parameters: '' @
                     enq_workflow_name inp) ''insert workflow run''), db)
             else (Inr \<lparr>enqueued_run_id = run_id r, enqueued_execution_id = execution_id r\<rparr>, db)
         | None \<Rightarrow>
             if \<exists>r \<in> set (runs db). run_id r = enq_run_id inp
             then (Inl UniqueViolation, db)
             else (Inr \<lparr>enqueued_run_id = enq_run_id inp,
                         enqueued_execution_id = enq_execution_id inp\<rparr>,
                   db\<lparr>runs := runs db @
                     [\<lparr>run_id = enq_run_id inp,
                       workflow_name = enq_workflow_name inp,
                       contract_identity = None,
                       contract_wire_version = None,
                       canonical_input_hash = None,
                       definition_version = enq_definition_version inp,
                       execution_id = enq_execution_id inp,
                       idempotency_key = enq_idempotency_key inp,
                       visibility_key = enq_visibility_key inp,
                       principal = enq_principal inp,
                       actor_provenance = None,
                       run_input = enq_payload inp,
                       run_status = RunPending,
                       run_result = None,
                       run_error = None,
                       max_attempts = maxAttempts,
                       run_after = (case enq_run_after inp of None \<Rightarrow> now | Some t \<Rightarrow> t),
                       started_at = None,
                       completed_at = None,
                       run_created_at = now,
                       run_updated_at = now\<rparr>]\<rparr>))"

definition new_command_row ::
    "string \<Rightarrow> string \<Rightarrow> workflow_command_kind \<Rightarrow> json \<Rightarrow> int \<Rightarrow> int \<Rightarrow> workflow_command_row" where
  "new_command_row cid rid k payload available now =
     \<lparr>command_id = cid, command_run_id = rid, command_kind = k, command_payload = payload,
      command_status = CommandPending, attempts = 0, available_at = available,
      lease_owner = None, lease_token = 0, lease_until = None, delivered_at = None,
      last_error = None, command_created_at = now, command_updated_at = now\<rparr>"

definition active_run :: "workflow_db \<Rightarrow> string \<Rightarrow> bool" where
  "active_run db rid \<longleftrightarrow>
     (\<exists>r \<in> set (runs db). run_id r = rid \<and> \<not> is_terminal_workflow_run_status (run_status r))"

text \<open>
  \<open>insertCommand\<close>: a row for an active run, unless the command id is taken; when no row was
  written, the existing command must be the same one.
\<close>

definition insert_command ::
    "int \<Rightarrow> enqueue_workflow_command \<Rightarrow> (store_error, unit, workflow_db) txn" where
  "insert_command now inp db =
     (let existing = lookup_by command_id (eqc_command_id inp) (commands db)
      in if active_run db (eqc_run_id inp) \<and> existing = None
         then (Inr (),
               db\<lparr>commands := commands db @
                 [new_command_row (eqc_command_id inp) (eqc_run_id inp) (eqc_kind inp)
                    (eqc_payload inp)
                    (case eqc_available_at inp of None \<Rightarrow> now | Some t \<Rightarrow> t) now]\<rparr>)
         else case existing of
                None \<Rightarrow>
                  (Inl (StoreError (''Active workflow run not found for command: '' @
                     eqc_run_id inp) ''insert workflow command''), db)
              | Some c \<Rightarrow>
                  if command_run_id c = eqc_run_id inp \<and> command_kind c = eqc_kind inp \<and>
                     jsonb_eq (command_payload c) (eqc_payload inp)
                  then (Inr (), db)
                  else (Inl (StoreError
                         (''Workflow command was already enqueued with different parameters: '' @
                          eqc_command_id inp) ''insert workflow command''), db))"

text \<open>\<open>enqueueWorkflowInTransaction\<close> over any adapter that can insert a run and a command.\<close>

definition start_command_id :: "string \<Rightarrow> string" where
  "start_command_id rid = ''start:'' @ rid"

definition enqueue_workflow_in_transaction ::
    "(enqueue_workflow \<Rightarrow> ('e, enqueued_workflow, 's) txn) \<Rightarrow>
     (enqueue_workflow_command \<Rightarrow> ('e, unit, 's) txn) \<Rightarrow>
     enqueue_workflow \<Rightarrow> ('e, enqueued_workflow, 's) txn" where
  "enqueue_workflow_in_transaction insertRun insertCommand inp =
     txn_bind (insertRun inp) (\<lambda>run.
     txn_bind (insertCommand
       \<lparr>eqc_command_id = start_command_id (enqueued_run_id run),
        eqc_run_id = enqueued_run_id run,
        eqc_kind = StartCommand,
        eqc_payload = enq_payload inp,
        eqc_available_at = enq_run_after inp\<rparr>) (\<lambda>_.
     txn_return run))"

definition enqueue ::
    "int \<Rightarrow> int \<Rightarrow> enqueue_workflow \<Rightarrow> (store_error, enqueued_workflow, workflow_db) txn" where
  "enqueue run_now command_now inp =
     with_transaction
       (enqueue_workflow_in_transaction (insert_run run_now) (insert_command command_now) inp)"

definition enqueue_command ::
    "int \<Rightarrow> enqueue_workflow_command \<Rightarrow> (store_error, unit, workflow_db) txn" where
  "enqueue_command now inp = with_transaction (insert_command now inp)"

subsection \<open>Claiming\<close>

definition normalize_sql_limit :: "js_number \<Rightarrow> int" where
  "normalize_sql_limit limit =
     (case limit of JsFinite q \<Rightarrow> max 1 (math_trunc q) | _ \<Rightarrow> 1)"

text \<open>
  A pending command whose time has come, or a delivering one whose lease ran out, of a run that
  is not terminal. A \<open>NULL\<close> lease bound compares as unknown, hence not claimable.
\<close>

definition claimable :: "int \<Rightarrow> workflow_db \<Rightarrow> workflow_command_row \<Rightarrow> bool" where
  "claimable db_now db c \<longleftrightarrow>
     active_run db (command_run_id c) \<and>
     (command_status c = CommandPending \<and> available_at c \<le> db_now \<or>
      command_status c = CommandDelivering \<and>
        (case lease_until c of None \<Rightarrow> False | Some t \<Rightarrow> t \<le> db_now))"

text \<open>
  The ids the inner \<open>SELECT \<dots> ORDER BY created_at LIMIT n FOR UPDATE SKIP LOCKED\<close>
  returns. \<open>locked\<close> says which command rows other transactions hold.
\<close>

definition claimable_ids ::
    "(string \<Rightarrow> bool) \<Rightarrow> int \<Rightarrow> nat \<Rightarrow> workflow_db \<Rightarrow> string list" where
  "claimable_ids locked db_now n db =
     map command_id (take n (sort_key command_created_at
       (filter (\<lambda>c. claimable db_now db c \<and> \<not> locked (command_id c)) (commands db))))"

definition lease_command ::
    "int \<Rightarrow> string \<Rightarrow> int \<Rightarrow> workflow_command_row \<Rightarrow> workflow_command_row" where
  "lease_command claim_lease worker db_now c =
     c\<lparr>command_status := CommandDelivering,
       attempts := attempts c + 1,
       lease_owner := Some worker,
       lease_token := lease_token c + 1,
       lease_until := Some (db_now + claim_lease),
       command_updated_at := db_now\<rparr>"

text \<open>The \<open>RETURNING\<close> clause: a leased row joined with its run.\<close>

definition claimed_command ::
    "string \<Rightarrow> workflow_run_row \<Rightarrow> workflow_command_row \<Rightarrow> workflow_command" where
  "claimed_command worker r c =
     \<lparr>cmd_command_id = command_id c, cmd_run_id = command_run_id c,
      cmd_workflow_name = workflow_name r, cmd_definition_version = definition_version r,
      cmd_execution_id = execution_id r, cmd_kind = command_kind c,
      cmd_payload = command_payload c, cmd_status = command_status c,
      cmd_attempts = attempts c, cmd_max_attempts = max_attempts r,
      cmd_lease_owner = worker, cmd_lease_token = lease_token c\<rparr>"

definition join_claimed ::
    "string \<Rightarrow> string list \<Rightarrow> workflow_db \<Rightarrow> workflow_command list" where
  "join_claimed worker ids db =
     concat (map (\<lambda>c. map (\<lambda>r. claimed_command worker r c)
                       (filter (\<lambda>r. run_id r = command_run_id c) (runs db)))
               (filter (\<lambda>c. command_id c \<in> set ids) (commands db)))"

definition claim ::
    "(string \<Rightarrow> bool) \<Rightarrow> int \<Rightarrow> int \<Rightarrow> js_number \<Rightarrow> string \<Rightarrow> workflow_db \<Rightarrow>
     workflow_command list \<times> workflow_db" where
  "claim locked claim_lease db_now limit worker db =
     (let ids = claimable_ids locked db_now (nat (normalize_sql_limit limit)) db;
          db' = db\<lparr>commands := update_where
                  (\<lambda>c. command_id c \<in> set ids \<and> (\<exists>r \<in> set (runs db). run_id r = command_run_id c))
                  (lease_command claim_lease worker db_now) (commands db)\<rparr>
      in (join_claimed worker ids db', db'))"

subsection \<open>Settling a claimed command\<close>

text \<open>The fence: only the worker that holds the current lease settles the command.\<close>

definition holds_lease :: "workflow_command \<Rightarrow> workflow_command_row \<Rightarrow> bool" where
  "holds_lease cmd c \<longleftrightarrow>
     command_id c = cmd_command_id cmd \<and>
     command_status c = CommandDelivering \<and>
     lease_owner c = Some (cmd_lease_owner cmd) \<and>
     lease_token c = cmd_lease_token cmd"

definition settle_row ::
    "workflow_command_status \<Rightarrow> int \<Rightarrow> json option \<Rightarrow> int \<Rightarrow>
     workflow_command_row \<Rightarrow> workflow_command_row" where
  "settle_row status available err db_now c =
     c\<lparr>command_status := status,
       available_at := available,
       lease_owner := None,
       lease_until := None,
       delivered_at := (if status = CommandDelivered then Some db_now else delivered_at c),
       last_error := err,
       command_updated_at := db_now\<rparr>"

definition settle_command ::
    "int \<Rightarrow> int \<Rightarrow> workflow_command \<Rightarrow> workflow_command_status \<Rightarrow> int option \<Rightarrow> json option \<Rightarrow>
     workflow_db \<Rightarrow> bool \<times> workflow_db" where
  "settle_command now db_now cmd status delay err db =
     (let available = (case delay of None \<Rightarrow> now | Some d \<Rightarrow> now + d)
      in (\<exists>c \<in> set (commands db). holds_lease cmd c,
          db\<lparr>commands := update_where (holds_lease cmd) (settle_row status available err db_now)
               (commands db)\<rparr>))"

subsection \<open>Runs\<close>

definition decode_run :: "workflow_run_row \<Rightarrow> workflow_run" where
  "decode_run r =
     \<lparr>wr_run_id = run_id r, wr_workflow_name = workflow_name r,
      wr_definition_version = definition_version r, wr_execution_id = execution_id r,
      wr_status = run_status r, wr_result = run_result r, wr_error = run_error r,
      wr_updated_at = js_date (run_updated_at r)\<rparr>"

definition get_run :: "string \<Rightarrow> workflow_db \<Rightarrow> workflow_run option" where
  "get_run rid db = map_option decode_run (lookup_by run_id rid (runs db))"

text \<open>
  \<open>listRuns\<close>: a page of the runs with a status, in the order of update time and run id,
  after the cursor. The cursor's time comes from a decoded run, hence from a \<open>Date\<close>.
\<close>

definition page_key :: "workflow_run_row \<Rightarrow> int \<times> string" where
  "page_key r = (run_updated_at r, run_id r)"

definition after_cursor :: "(int \<times> string) option \<Rightarrow> workflow_run_row \<Rightarrow> bool" where
  "after_cursor cursor r = (case cursor of None \<Rightarrow> True | Some c \<Rightarrow> c < page_key r)"

definition list_run_rows ::
    "workflow_run_status \<Rightarrow> js_number \<Rightarrow> (int \<times> string) option \<Rightarrow> workflow_db \<Rightarrow>
     workflow_run_row list" where
  "list_run_rows status limit cursor db =
     take (nat (normalize_sql_limit limit)) (sort_key page_key
       (filter (\<lambda>r. run_status r = status \<and> after_cursor cursor r) (runs db)))"

definition list_runs ::
    "workflow_run_status \<Rightarrow> js_number \<Rightarrow> (int \<times> string) option \<Rightarrow> workflow_db \<Rightarrow>
     workflow_run list" where
  "list_runs status limit cursor db = map decode_run (list_run_rows status limit cursor db)"

text \<open>\<open>markRun\<close>: a terminal run is left as it is.\<close>

definition coalesce :: "'a option \<Rightarrow> 'a option \<Rightarrow> 'a option" where
  "coalesce a b = (case a of Some x \<Rightarrow> Some x | None \<Rightarrow> b)"

definition mark_row ::
    "int \<Rightarrow> int \<Rightarrow> workflow_run_status \<Rightarrow> json option \<Rightarrow> json option \<Rightarrow>
     workflow_run_row \<Rightarrow> workflow_run_row" where
  "mark_row now db_now status result err r =
     r\<lparr>run_status := status,
       run_result := (case result of Some v \<Rightarrow> Some v | None \<Rightarrow> run_result r),
       run_error := (case err of Some v \<Rightarrow> Some v | None \<Rightarrow> run_error r),
       started_at := coalesce (started_at r) (if status = RunRunning then Some now else None),
       completed_at := (if is_terminal_workflow_run_status status
                        then coalesce (completed_at r) (Some now) else completed_at r),
       run_updated_at := db_now\<rparr>"

definition mark_run ::
    "int \<Rightarrow> int \<Rightarrow> string \<Rightarrow> workflow_run_status \<Rightarrow> json option \<Rightarrow> json option \<Rightarrow>
     workflow_db \<Rightarrow> workflow_db" where
  "mark_run now db_now rid status result err db =
     db\<lparr>runs := update_where
          (\<lambda>r. run_id r = rid \<and> \<not> is_terminal_workflow_run_status (run_status r))
          (mark_row now db_now status result err) (runs db)\<rparr>"

subsection \<open>The settlements the dispatcher uses\<close>

definition mark_command_delivered ::
    "int \<Rightarrow> int \<Rightarrow> workflow_command \<Rightarrow> workflow_db \<Rightarrow> bool \<times> workflow_db" where
  "mark_command_delivered now db_now cmd db =
     settle_command now db_now cmd CommandDelivered None None db"

definition retry_command ::
    "int \<Rightarrow> int \<Rightarrow> workflow_command \<Rightarrow> int \<Rightarrow> json \<Rightarrow> workflow_db \<Rightarrow> bool \<times> workflow_db" where
  "retry_command now db_now cmd delay err db =
     settle_command now db_now cmd CommandPending (Some delay) (Some err) db"

text \<open>
  \<open>failCommand\<close> settles and, when the lease was current, fails the run, in one transaction:
  both statements see the same \<open>NOW()\<close>; the process reads its clock for each of them.
\<close>

definition fail_command ::
    "int \<Rightarrow> int \<Rightarrow> int \<Rightarrow> workflow_command \<Rightarrow> json \<Rightarrow> workflow_db \<Rightarrow> bool \<times> workflow_db" where
  "fail_command now mark_now db_now cmd err db =
     (case settle_command now db_now cmd CommandFailed None (Some err) db of
        (settled, db') \<Rightarrow>
          (settled,
           if settled then mark_run mark_now db_now (cmd_run_id cmd) RunFailed None (Some err) db' else db'))"

definition is_workflow_command_lease_current :: "workflow_command \<Rightarrow> string \<Rightarrow> bool" where
  "is_workflow_command_lease_current cmd worker \<longleftrightarrow>
     cmd_lease_owner cmd = worker \<and> 0 < cmd_lease_token cmd"

subsection \<open>The store's invariant\<close>

definition run_ok :: "workflow_run_row \<Rightarrow> bool" where
  "run_ok r \<longleftrightarrow> (is_terminal_workflow_run_status (run_status r) \<longleftrightarrow> completed_at r \<noteq> None)"

definition command_ok :: "workflow_command_row \<Rightarrow> bool" where
  "command_ok c \<longleftrightarrow>
     attempts c = lease_token c \<and> 0 \<le> lease_token c \<and>
     (command_status c = CommandDelivering \<longleftrightarrow> lease_owner c \<noteq> None) \<and>
     (command_status c = CommandDelivering \<longleftrightarrow> lease_until c \<noteq> None) \<and>
     (command_status c = CommandDelivering \<longrightarrow> 0 < lease_token c) \<and>
     (command_status c = CommandDelivered \<longrightarrow> delivered_at c \<noteq> None)"

definition invocation_key :: "workflow_run_row \<Rightarrow> string \<times> string" where
  "invocation_key r = (workflow_name r, idempotency_key r)"

definition run_ids :: "workflow_db \<Rightarrow> string set" where
  "run_ids db = run_id ` set (runs db)"

definition store_inv :: "workflow_db \<Rightarrow> bool" where
  "store_inv db \<longleftrightarrow>
     unique_by run_id (runs db) \<and> unique_by invocation_key (runs db) \<and>
     unique_by command_id (commands db) \<and>
     (\<forall>c \<in> set (commands db). command_run_id c \<in> run_ids db) \<and>
     (\<forall>c \<in> set (commands db). command_ok c) \<and> (\<forall>r \<in> set (runs db). run_ok r)"

lemma store_inv_empty [simp]: "store_inv empty_db"
  by (simp add: store_inv_def empty_db_def)

lemmas run_row_simps = mark_row_def decode_run_def invocation_key_def
lemmas command_row_simps = lease_command_def settle_row_def new_command_row_def

lemma mark_row_fixed [simp]:
  "run_id (mark_row now t s v e r) = run_id r"
  "invocation_key (mark_row now t s v e r) = invocation_key r"
  by (simp_all add: run_row_simps)

lemma lease_command_fixed [simp]:
  "command_id (lease_command l w t c) = command_id c"
  "command_run_id (lease_command l w t c) = command_run_id c"
  by (simp_all add: lease_command_def)

lemma settle_row_fixed [simp]:
  "command_id (settle_row s a e t c) = command_id c"
  "command_run_id (settle_row s a e t c) = command_run_id c"
  by (simp_all add: settle_row_def)

lemma new_command_row_fields [simp]:
  "command_id (new_command_row cid rid k p a t) = cid"
  "command_run_id (new_command_row cid rid k p a t) = rid"
  "command_ok (new_command_row cid rid k p a t)"
  by (simp_all add: new_command_row_def command_ok_def)

lemma run_ids_mark_run [simp]: "run_ids (mark_run now t rid s v e db) = run_ids db"
  by (simp add: run_ids_def mark_run_def image_update_where)

lemma run_ok_mark_row:
  "run_ok r \<Longrightarrow> \<not> is_terminal_workflow_run_status (run_status r) \<Longrightarrow> run_ok (mark_row now t s v e r)"
  by (auto simp: run_ok_def mark_row_def coalesce_def)

lemma store_inv_mark_run:
  assumes "store_inv db"
  shows "store_inv (mark_run now t rid s v e db)"
proof -
  have "\<forall>r \<in> set (runs (mark_run now t rid s v e db)). run_ok r"
    unfolding mark_run_def using assms
    by (simp, intro ball_update_where) (simp_all add: store_inv_def run_ok_mark_row)
  then show ?thesis
    using assms run_ids_mark_run [of now t rid s v e db]
    by (simp add: store_inv_def) (simp add: mark_run_def unique_by_update_where)
qed

lemma run_ids_commands [simp]: "run_ids (db\<lparr>commands := cs\<rparr>) = run_ids db"
  by (simp add: run_ids_def)

lemma active_run_in_run_ids: "active_run db rid \<Longrightarrow> rid \<in> run_ids db"
  by (auto simp: active_run_def run_ids_def)

lemma command_run:
  assumes "store_inv db" and "c \<in> set (commands db)"
  shows "\<exists>r. lookup_by run_id (command_run_id c) (runs db) = Some r"
proof -
  have "command_run_id c \<in> run_ids db"
    using assms by (simp add: store_inv_def)
  then show ?thesis
    using lookup_by_exists [of "command_run_id c" run_id "runs db"] by (auto simp: run_ids_def)
qed

lemma store_inv_update_commands:
  assumes "store_inv db"
    and "\<And>c. p c \<Longrightarrow> command_id (f c) = command_id c \<and> command_run_id (f c) = command_run_id c"
    and "\<And>c. p c \<Longrightarrow> command_ok c \<Longrightarrow> command_ok (f c)"
  shows "store_inv (db\<lparr>commands := update_where p f (commands db)\<rparr>)"
  using assms by (auto simp: store_inv_def table_simps run_ids_def)

lemma command_ok_lease: "command_ok c \<Longrightarrow> command_ok (lease_command l w t c)"
  by (simp add: command_ok_def lease_command_def)

lemma command_ok_settle:
  "command_ok c \<Longrightarrow> s \<noteq> CommandDelivering \<Longrightarrow> command_ok (settle_row s a e t c)"
  by (simp add: command_ok_def settle_row_def)

lemma store_inv_claim:
  "store_inv db \<Longrightarrow> store_inv (snd (claim locked lease t limit w db))"
  unfolding claim_def Let_def snd_conv
  by (rule store_inv_update_commands) (simp_all add: command_ok_lease)

lemma store_inv_settle:
  "store_inv db \<Longrightarrow> s \<noteq> CommandDelivering \<Longrightarrow> store_inv (snd (settle_command now t cmd s d e db))"
  unfolding settle_command_def Let_def snd_conv
  by (rule store_inv_update_commands) (simp_all add: command_ok_settle)

lemma store_inv_fail_command:
  "store_inv db \<Longrightarrow> store_inv (snd (fail_command now now2 t cmd e db))"
  using store_inv_settle [of db CommandFailed now t cmd None "Some e"] store_inv_mark_run
  by (auto simp: fail_command_def split: prod.split)

lemma store_inv_insert_run:
  assumes "store_inv db" and "insert_run now inp db = (res, db')"
  shows "store_inv db'"
proof -
  have "invocation_key r \<noteq> (enq_workflow_name inp, enq_idempotency_key inp)"
    if "List.find (\<lambda>r. workflow_name r = enq_workflow_name inp \<and>
          idempotency_key r = enq_idempotency_key inp) (runs db) = None" "r \<in> set (runs db)" for r
    using that by (auto simp: find_None_iff invocation_key_def)
  then show ?thesis
    using assms
    by (auto simp: insert_run_def Let_def store_inv_def table_simps run_ids_def run_ok_def
        invocation_key_def is_terminal_workflow_run_status_def split: option.splits if_splits)
qed

lemma store_inv_insert_command:
  assumes "store_inv db" and "insert_command now inp db = (res, db')"
  shows "store_inv db'"
  using assms
  by (auto simp: insert_command_def Let_def store_inv_def unique_by_append lookup_by_None
      active_run_in_run_ids split: option.splits if_splits)

lemma store_inv_txn_bind:
  assumes "txn_bind m f db = (res, db')"
    and "\<And>a s'. m db = (a, s') \<Longrightarrow> store_inv s'"
    and "\<And>x s a s'. store_inv s \<Longrightarrow> f x s = (a, s') \<Longrightarrow> store_inv s'"
  shows "store_inv db'"
proof (cases "m db")
  case (Pair a s')
  with assms(2) have "store_inv s'" by simp
  then show ?thesis
    using assms(1,3) Pair by (cases a) (auto simp: txn_bind_def)
qed

lemma store_inv_with_transaction:
  assumes "with_transaction m db = (res, db')" and "store_inv db"
    and "\<And>a s'. m db = (a, s') \<Longrightarrow> store_inv s'"
  shows "store_inv db'"
proof (cases "m db")
  case (Pair a s')
  with assms(3) have "store_inv s'" by simp
  then show ?thesis
    using assms(1,2) Pair by (cases a) (simp_all add: with_transaction_def)
qed

lemma store_inv_enqueue_command:
  assumes "store_inv db" and "enqueue_command now inp db = (res, db')"
  shows "store_inv db'"
  using assms(2) unfolding enqueue_command_def
  by (rule store_inv_with_transaction [OF _ assms(1)]) (rule store_inv_insert_command [OF assms(1)])

lemma store_inv_enqueue:
  assumes "store_inv db" and "enqueue n m inp db = (res, db')"
  shows "store_inv db'"
proof -
  have "store_inv s'"
    if "enqueue_workflow_in_transaction (insert_run n) (insert_command m) inp db = (a, s')" for a s'
    using that unfolding enqueue_workflow_in_transaction_def
  proof (rule store_inv_txn_bind)
    show "store_inv t" if "insert_run n inp db = (b, t)" for b t
      using store_inv_insert_run [OF assms(1) that] .
  next
    fix x s b t
    assume "store_inv s"
      and "txn_bind (insert_command m \<lparr>eqc_command_id = start_command_id (enqueued_run_id x),
        eqc_run_id = enqueued_run_id x, eqc_kind = StartCommand, eqc_payload = enq_payload inp,
        eqc_available_at = enq_run_after inp\<rparr>) (\<lambda>_. txn_return x) s = (b, t)"
    then show "store_inv t"
      by (elim store_inv_txn_bind) (auto simp: txn_simps dest: store_inv_insert_command)
  qed
  then show ?thesis
    using store_inv_with_transaction [OF assms(2) [unfolded enqueue_def] assms(1)] by blast
qed

end
