(* ===== verification/WorkflowLifecycle.thy ===== *)
theory WorkflowLifecycle
  imports WorkflowStore
begin

text \<open>
  The workflow store as a transition system: one step per operation of the store, with the clocks
  and the locks of other transactions as inputs of the step. What every step keeps is stated as an
  evolution of rows (identity columns never change, a final row never changes, lease tokens only
  grow); the guarantees to the workers and to the callers follow from it for every interleaving.
\<close>

subsection \<open>Steps and reachable states\<close>

datatype store_op =
    Enqueue int int enqueue_workflow
  | EnqueueCommand int enqueue_workflow_command
  | Claim "string \<Rightarrow> bool" int int js_number string
  | MarkDelivered int int workflow_command
  | RetryCommand int int workflow_command int json
  | FailCommand int int int workflow_command json
  | MarkRun int int string workflow_run_status "json option" "json option"

fun store_apply :: "store_op \<Rightarrow> workflow_db \<Rightarrow> workflow_db" where
  "store_apply (Enqueue n m inp) db = snd (enqueue n m inp db)"
| "store_apply (EnqueueCommand n inp) db = snd (enqueue_command n inp db)"
| "store_apply (Claim locked lease t limit w) db = snd (claim locked lease t limit w db)"
| "store_apply (MarkDelivered n t cmd) db = snd (mark_command_delivered n t cmd db)"
| "store_apply (RetryCommand n t cmd d e) db = snd (retry_command n t cmd d e db)"
| "store_apply (FailCommand n m t cmd e) db = snd (fail_command n m t cmd e db)"
| "store_apply (MarkRun n t rid s v e) db = mark_run n t rid s v e db"

inductive store_steps :: "workflow_db \<Rightarrow> workflow_db \<Rightarrow> bool" where
  refl: "store_steps db db"
| step: "store_steps db db' \<Longrightarrow> store_steps db (store_apply a db')"

lemma store_steps_trans: "store_steps b c \<Longrightarrow> store_steps a b \<Longrightarrow> store_steps a c"
  by (induction rule: store_steps.induct) (auto intro: store_steps.step)

lemma store_steps_one: "store_steps db (store_apply a db)"
  by (rule store_steps.step [OF store_steps.refl])

lemma store_inv_apply: "store_inv db \<Longrightarrow> store_inv (store_apply a db)"
  by (cases a)
    (auto simp: mark_command_delivered_def retry_command_def
      intro: store_inv_enqueue store_inv_enqueue_command store_inv_claim store_inv_settle
        store_inv_fail_command store_inv_mark_run prod.collapse [symmetric])

lemma store_inv_steps: "store_steps db db' \<Longrightarrow> store_inv db \<Longrightarrow> store_inv db'"
  by (induction rule: store_steps.induct) (auto intro: store_inv_apply)

subsection \<open>Evolution of rows\<close>

definition run_columns :: "workflow_run_row \<Rightarrow> workflow_run_row" where
  "run_columns r =
     r\<lparr>run_status := RunPending, run_result := None, run_error := None, started_at := None,
       completed_at := None, run_updated_at := 0\<rparr>"

definition command_columns :: "workflow_command_row \<Rightarrow> workflow_command_row" where
  "command_columns c =
     c\<lparr>command_status := CommandPending, attempts := 0, available_at := 0, lease_owner := None,
       lease_token := 0, lease_until := None, delivered_at := None, last_error := None,
       command_updated_at := 0\<rparr>"

definition run_evolves :: "workflow_run_row \<Rightarrow> workflow_run_row \<Rightarrow> bool" where
  "run_evolves r r' \<longleftrightarrow>
     run_columns r' = run_columns r \<and> (is_terminal_workflow_run_status (run_status r) \<longrightarrow> r' = r)"

definition settled_status :: "workflow_command_status \<Rightarrow> bool" where
  "settled_status s \<longleftrightarrow> s \<noteq> CommandPending \<and> s \<noteq> CommandDelivering"

definition command_evolves :: "workflow_command_row \<Rightarrow> workflow_command_row \<Rightarrow> bool" where
  "command_evolves c c' \<longleftrightarrow>
     command_columns c' = command_columns c \<and> lease_token c \<le> lease_token c' \<and>
     (lease_token c' = lease_token c \<and> command_status c' = CommandDelivering \<longrightarrow> c' = c) \<and>
     (settled_status (command_status c) \<longrightarrow> c' = c)"

definition db_evolves :: "workflow_db \<Rightarrow> workflow_db \<Rightarrow> bool" where
  "db_evolves db db' \<longleftrightarrow>
     (\<forall>r \<in> set (runs db). \<exists>r' \<in> set (runs db'). run_evolves r r') \<and>
     (\<forall>c \<in> set (commands db). \<exists>c' \<in> set (commands db'). command_evolves c c')"

lemma run_columns_eqD:
  assumes "run_columns r' = run_columns r"
  shows "run_id r' = run_id r" "workflow_name r' = workflow_name r"
    "idempotency_key r' = idempotency_key r" "visibility_key r' = visibility_key r"
    "definition_version r' = definition_version r" "execution_id r' = execution_id r"
    "run_input r' = run_input r" "max_attempts r' = max_attempts r" "principal r' = principal r"
    "contract_identity r' = contract_identity r" "contract_wire_version r' = contract_wire_version r"
    "canonical_input_hash r' = canonical_input_hash r"
  using assms by (cases r; cases r'; simp add: run_columns_def)+

lemma command_columns_eqD:
  assumes "command_columns c' = command_columns c"
  shows "command_id c' = command_id c" "command_run_id c' = command_run_id c"
    "command_kind c' = command_kind c" "command_payload c' = command_payload c"
    "command_created_at c' = command_created_at c"
  using assms by (cases c; cases c'; simp add: command_columns_def)+

lemma run_evolves_refl [simp]: "run_evolves r r"
  by (simp add: run_evolves_def)

lemma run_evolves_trans: "run_evolves a b \<Longrightarrow> run_evolves b c \<Longrightarrow> run_evolves a c"
  by (auto simp: run_evolves_def)

lemma command_evolves_refl [simp]: "command_evolves c c"
  by (simp add: command_evolves_def)

lemma command_evolves_trans:
  assumes "command_evolves a b" and "command_evolves b c"
  shows "command_evolves a c"
proof (cases "lease_token c = lease_token a \<and> command_status c = CommandDelivering")
  case True
  then have "c = b" and "b = a"
    using assms by (auto simp: command_evolves_def)
  then show ?thesis by simp
qed (use assms in \<open>auto simp: command_evolves_def\<close>)

lemma db_evolves_refl [simp]: "db_evolves db db"
  by (auto simp: db_evolves_def intro: run_evolves_refl command_evolves_refl)

lemma db_evolves_trans: "db_evolves a b \<Longrightarrow> db_evolves b c \<Longrightarrow> db_evolves a c"
  unfolding db_evolves_def by (meson run_evolves_trans command_evolves_trans)

lemma evolves_updates:
  assumes "\<And>r. r \<in> set (runs db) \<Longrightarrow> p r \<Longrightarrow> run_evolves r (f r)"
    and "\<And>c. c \<in> set (commands db) \<Longrightarrow> q c \<Longrightarrow> command_evolves c (g c)"
  shows "db_evolves db (db\<lparr>runs := update_where p f (runs db)\<rparr>)"
    "db_evolves db (db\<lparr>commands := update_where q g (commands db)\<rparr>)"
proof -
  have "\<exists>r' \<in> set (update_where p f (runs db)). run_evolves r r'" if "r \<in> set (runs db)" for r
    using that assms(1) run_evolves_refl [of r]
    by (intro bexI [of _ "if p r then f r else r"]) (simp_all add: set_update_where)
  moreover have "\<exists>c' \<in> set (update_where q g (commands db)). command_evolves c c'"
    if "c \<in> set (commands db)" for c
    using that assms(2) command_evolves_refl [of c]
    by (intro bexI [of _ "if q c then g c else c"]) (simp_all add: set_update_where)
  ultimately show "db_evolves db (db\<lparr>runs := update_where p f (runs db)\<rparr>)"
    "db_evolves db (db\<lparr>commands := update_where q g (commands db)\<rparr>)"
    by (auto simp: db_evolves_def intro: run_evolves_refl command_evolves_refl)
qed

lemma evolves_appends:
  "db_evolves db (db\<lparr>runs := runs db @ rs\<rparr>)" "db_evolves db (db\<lparr>commands := commands db @ cs\<rparr>)"
  by (auto simp: db_evolves_def intro: run_evolves_refl command_evolves_refl)

lemma evolves_mark_run: "db_evolves db (mark_run n t rid s v e db)"
  unfolding mark_run_def
  by (rule evolves_updates(1)) (auto simp: run_evolves_def run_columns_def mark_row_def)

lemma evolves_settle:
  "s \<noteq> CommandDelivering \<Longrightarrow> db_evolves db (snd (settle_command n t cmd s d e db))"
  unfolding settle_command_def Let_def snd_conv
  by (rule evolves_updates(2))
    (auto simp: command_evolves_def command_columns_def settle_row_def holds_lease_def settled_status_def)

lemma claimable_ids_claimable:
  assumes "unique_by command_id (commands db)" and "c \<in> set (commands db)"
    and "command_id c \<in> set (claimable_ids locked t n db)"
  shows "claimable t db c \<and> \<not> locked (command_id c)"
proof -
  obtain d where "d \<in> set (commands db)" "claimable t db d" "\<not> locked (command_id d)"
    "command_id d = command_id c"
    using assms(3) by (auto simp: claimable_ids_def dest!: in_set_takeD)
  with assms(1,2) show ?thesis
    by (metis unique_byD)
qed

lemma evolves_claim:
  assumes "store_inv db"
  shows "db_evolves db (snd (claim locked lease t limit w db))"
  unfolding claim_def Let_def snd_conv
proof (rule evolves_updates(2))
  fix c
  assume c: "c \<in> set (commands db)"
    and "command_id c \<in> set (claimable_ids locked t (nat (normalize_sql_limit limit)) db) \<and>
      (\<exists>r \<in> set (runs db). run_id r = command_run_id c)"
  then have "claimable t db c"
    using assms claimable_ids_claimable by (auto simp: store_inv_def)
  then show "command_evolves c (lease_command lease w t c)"
    by (auto simp: claimable_def command_evolves_def command_columns_def lease_command_def
        settled_status_def)
qed simp

lemma evolves_insert_run: "insert_run n inp db = (res, db') \<Longrightarrow> db_evolves db db'"
  by (auto simp: insert_run_def Let_def evolves_appends split: option.splits if_splits)

lemma evolves_insert_command: "insert_command n inp db = (res, db') \<Longrightarrow> db_evolves db db'"
  by (auto simp: insert_command_def Let_def evolves_appends split: option.splits if_splits)

lemma evolves_with_transaction:
  assumes "\<And>a db'. m db = (Inr a, db') \<Longrightarrow> db_evolves db db'"
  shows "db_evolves db (snd (with_transaction m db))"
  using assms by (cases "m db") (auto simp: with_transaction_def split: sum.split)

lemma enqueue_ok:
  "enqueue n m inp db = (Inr run, db') \<longleftrightarrow>
     (\<exists>db1. insert_run n inp db = (Inr run, db1) \<and>
        insert_command m \<lparr>eqc_command_id = start_command_id (enqueued_run_id run),
          eqc_run_id = enqueued_run_id run, eqc_kind = StartCommand, eqc_payload = enq_payload inp,
          eqc_available_at = enq_run_after inp\<rparr> db1 = (Inr (), db'))"
  by (auto simp: enqueue_def with_transaction_ok enqueue_workflow_in_transaction_def txn_bind_ok
      txn_simps)

lemma evolves_enqueue: "db_evolves db (snd (enqueue n m inp db))"
proof (cases "enqueue n m inp db")
  case (Pair res db')
  show ?thesis
  proof (cases res)
    case (Inl e)
    then show ?thesis
      using Pair with_transaction_error unfolding enqueue_def by fastforce
  next
    case (Inr run)
    with Pair obtain db1 where "db_evolves db db1" and "db_evolves db1 db'"
      by (auto simp: enqueue_ok dest!: evolves_insert_run evolves_insert_command)
    with Pair show ?thesis
      by (simp add: db_evolves_trans)
  qed
qed

lemma evolves_enqueue_command: "db_evolves db (snd (enqueue_command n inp db))"
  unfolding enqueue_command_def
  by (rule evolves_with_transaction) (rule evolves_insert_command)

lemma evolves_apply: "store_inv db \<Longrightarrow> db_evolves db (store_apply a db)"
proof (cases a)
  case (FailCommand n m t cmd e)
  then show ?thesis
    using evolves_settle [of CommandFailed db n t cmd None "Some e"]
    by (auto simp: fail_command_def split: prod.split intro: db_evolves_trans evolves_mark_run)
qed (simp_all add: evolves_enqueue evolves_enqueue_command evolves_claim evolves_mark_run
    evolves_settle mark_command_delivered_def retry_command_def)

lemma evolves_steps: "store_steps db db' \<Longrightarrow> store_inv db \<Longrightarrow> db_evolves db db'"
  by (induction rule: store_steps.induct)
    (auto intro: db_evolves_trans evolves_apply store_inv_steps)

subsection \<open>Claims\<close>

text \<open>The rows a claim leases.\<close>

definition claimed_rows ::
    "(string \<Rightarrow> bool) \<Rightarrow> int \<Rightarrow> js_number \<Rightarrow> workflow_db \<Rightarrow> workflow_command_row list" where
  "claimed_rows locked t limit db =
     take (nat (normalize_sql_limit limit)) (sort_key command_created_at
       (filter (\<lambda>c. claimable t db c \<and> \<not> locked (command_id c)) (commands db)))"

lemma claimed_rows_D:
  "c \<in> set (claimed_rows locked t limit db) \<Longrightarrow>
     c \<in> set (commands db) \<and> claimable t db c \<and> \<not> locked (command_id c)"
  by (auto simp: claimed_rows_def dest!: in_set_takeD)

lemma distinct_claimed_rows:
  assumes "unique_by command_id (commands db)"
  shows "distinct (map command_id (claimed_rows locked t limit db))"
proof -
  let ?sorted = "sort_key command_created_at
    (filter (\<lambda>c. claimable t db c \<and> \<not> locked (command_id c)) (commands db))"
  have "distinct ?sorted" and "inj_on command_id (set (commands db))"
    using assms by (simp_all add: unique_by_def distinct_map)
  moreover have "set ?sorted \<subseteq> set (commands db)"
    by auto
  ultimately have "distinct (map command_id ?sorted)"
    by (metis distinct_map inj_on_subset)
  then show ?thesis
    unfolding claimed_rows_def take_map [symmetric] by (rule distinct_take)
qed

lemma claimable_ids_eq:
  "claimable_ids locked t (nat (normalize_sql_limit limit)) db =
     map command_id (claimed_rows locked t limit db)"
  by (simp add: claimable_ids_def claimed_rows_def)

text \<open>On a database that meets the invariant the claim leases exactly those rows.\<close>

lemma claim_commands:
  assumes "store_inv db"
  shows "commands (snd (claim locked lease t limit w db)) =
      update_where (\<lambda>c. c \<in> set (claimed_rows locked t limit db)) (lease_command lease w t) (commands db)"
proof -
  have "(command_id c \<in> command_id ` set (claimed_rows locked t limit db) \<and>
      (\<exists>r \<in> set (runs db). run_id r = command_run_id c)) \<longleftrightarrow> c \<in> set (claimed_rows locked t limit db)"
    if c: "c \<in> set (commands db)" for c
  proof -
    have "c = d" if "d \<in> set (claimed_rows locked t limit db)" "command_id c = command_id d" for d
      using assms c that claimed_rows_D [OF that(1)] unique_byD by (metis store_inv_def)
    moreover have "\<exists>r \<in> set (runs db). run_id r = command_run_id c"
      using command_run [OF assms c] lookup_by_SomeD by metis
    ultimately show ?thesis by auto
  qed
  then show ?thesis
    by (simp add: claim_def Let_def claimable_ids_eq update_where_def)
qed

lemma claim_runs [simp]: "runs (snd (claim locked lease t limit w db)) = runs db"
  by (simp add: claim_def Let_def)

lemma join_claimed_map:
  assumes "store_inv db"
  shows "join_claimed w ids db =
      map (\<lambda>c. claimed_command w (the (lookup_by run_id (command_run_id c) (runs db))) c)
        (filter (\<lambda>c. command_id c \<in> set ids) (commands db))"
proof -
  have "filter (\<lambda>r. run_id r = command_run_id c) (runs db) =
      [the (lookup_by run_id (command_run_id c) (runs db))]" if "c \<in> set (commands db)" for c
  proof -
    obtain r where "lookup_by run_id (command_run_id c) (runs db) = Some r"
      using command_run [OF assms \<open>c \<in> set (commands db)\<close>] ..
    moreover have "unique_by run_id (runs db)"
      using assms by (simp add: store_inv_def)
    ultimately show ?thesis
      by (simp add: filter_lookup_by)
  qed
  then show ?thesis
    unfolding join_claimed_def by (intro concat_map_single) simp
qed

lemma claim_result:
  assumes "store_inv db"
  shows "fst (claim locked lease t limit w db) =
      map (\<lambda>c. claimed_command w (the (lookup_by run_id (command_run_id c) (runs db)))
                 (lease_command lease w t c))
        (filter (\<lambda>c. c \<in> set (claimed_rows locked t limit db)) (commands db))"
proof -
  let ?db = "snd (claim locked lease t limit w db)"
  let ?rows = "claimed_rows locked t limit db"
  have "fst (claim locked lease t limit w db) = join_claimed w (map command_id ?rows) ?db"
    by (simp add: claim_def Let_def claimable_ids_eq)
  also have "\<dots> = map (\<lambda>c. claimed_command w (the (lookup_by run_id (command_run_id c) (runs db))) c)
      (filter (\<lambda>c. command_id c \<in> set (map command_id ?rows))
        (update_where (\<lambda>c. c \<in> set ?rows) (lease_command lease w t) (commands db)))"
    using join_claimed_map [OF store_inv_claim [OF assms]] claim_commands [OF assms] by simp
  also have "filter (\<lambda>c. command_id c \<in> set (map command_id ?rows))
        (update_where (\<lambda>c. c \<in> set ?rows) (lease_command lease w t) (commands db)) =
      update_where (\<lambda>c. c \<in> set ?rows) (lease_command lease w t)
        (filter (\<lambda>c. command_id c \<in> set (map command_id ?rows)) (commands db))"
    by (rule filter_update_where) simp
  also have "filter (\<lambda>c. command_id c \<in> set (map command_id ?rows)) (commands db) =
      filter (\<lambda>c. c \<in> set ?rows) (commands db)"
    using assms claimed_rows_D [of _ locked t limit db] unique_byD [of command_id "commands db"]
    by (intro filter_cong) (auto simp: store_inv_def)
  finally show ?thesis
    by (simp add: update_where_def)
qed

lemma claimed_command_of:
  assumes "store_inv db" and "cmd \<in> set (fst (claim locked lease t limit w db))"
  obtains c r where "c \<in> set (claimed_rows locked t limit db)"
    and "r \<in> set (runs db)" and "run_id r = command_run_id c"
    and "\<not> is_terminal_workflow_run_status (run_status r)"
    and "cmd = claimed_command w r (lease_command lease w t c)"
proof -
  obtain c where c: "c \<in> set (claimed_rows locked t limit db)"
    and cmd: "cmd = claimed_command w (the (lookup_by run_id (command_run_id c) (runs db)))
      (lease_command lease w t c)"
    using assms by (auto simp: claim_result)
  then obtain r where r: "r \<in> set (runs db)" "run_id r = command_run_id c"
    "\<not> is_terminal_workflow_run_status (run_status r)"
    using claimed_rows_D by (force simp: claimable_def active_run_def)
  then have "lookup_by run_id (command_run_id c) (runs db) = Some r"
    using assms(1) lookup_by_unique by (fastforce simp: store_inv_def)
  with c cmd r show ?thesis
    by (intro that) simp_all
qed

lemma claimed_command_row:
  assumes "store_inv db" and "cmd \<in> set (fst (claim locked lease t limit w db))"
  shows "\<exists>c \<in> set (claimed_rows locked t limit db). command_id c = cmd_command_id cmd \<and>
    cmd_attempts cmd = attempts c + 1 \<and> cmd_lease_token cmd = lease_token c + 1 \<and>
    cmd_lease_owner cmd = w"
  using assms
proof (rule claimed_command_of)
  fix c r
  assume "c \<in> set (claimed_rows locked t limit db)"
    and "cmd = claimed_command w r (lease_command lease w t c)"
  then show ?thesis
    by (intro bexI [of _ c]) (simp_all add: claimed_command_def lease_command_def)
qed

lemma length_claim:
  assumes "store_inv db"
  shows "length (fst (claim locked lease t limit w db)) = length (claimed_rows locked t limit db)"
proof -
  let ?rows = "claimed_rows locked t limit db"
  let ?claimed = "filter (\<lambda>c. c \<in> set ?rows) (commands db)"
  have unique: "unique_by command_id (commands db)"
    using assms by (simp add: store_inv_def)
  then have "distinct ?claimed"
    by (simp add: unique_by_def distinct_map)
  moreover have "distinct ?rows"
    using distinct_claimed_rows [OF unique] by (simp add: distinct_map)
  moreover have "set ?claimed = set ?rows"
    using claimed_rows_D [of _ locked t limit db] by auto
  ultimately have "length ?claimed = length ?rows"
    using distinct_card [of ?claimed] distinct_card [of ?rows] by simp
  then show ?thesis
    by (simp add: claim_result [OF assms])
qed

lemma claim_settles_by:
  assumes "store_inv db" and "cmd \<in> set (fst (claim locked lease t limit w db))"
  shows "\<exists>c \<in> set (commands (snd (claim locked lease t limit w db))). holds_lease cmd c"
  using assms
proof (rule claimed_command_of)
  fix c r
  assume "c \<in> set (claimed_rows locked t limit db)"
    and "cmd = claimed_command w r (lease_command lease w t c)"
  then have "lease_command lease w t c \<in> set (commands (snd (claim locked lease t limit w db)))"
    and "holds_lease cmd (lease_command lease w t c)"
    using claim_commands [OF assms(1)] claimed_rows_D
    by (auto simp: set_update_where holds_lease_def claimed_command_def lease_command_def)
  then show ?thesis by blast
qed

end
