(* ===== verification/WorkflowGuarantees.thy ===== *)
theory WorkflowGuarantees
  imports WorkflowLifecycle
begin

text \<open>
  What the workflow store promises to its callers and to the workers, for every interleaving of
  its operations from the empty database: final rows, exclusive leases, fenced settlements,
  idempotent enqueues, a start command for every run, ordered and bounded pages.
\<close>

subsection \<open>Evolution, row by row\<close>

lemma evolves_runD:
  "db_evolves db db' \<Longrightarrow> r \<in> set (runs db) \<Longrightarrow> \<exists>r' \<in> set (runs db'). run_evolves r r'"
  by (simp add: db_evolves_def)

lemma evolves_commandD:
  "db_evolves db db' \<Longrightarrow> c \<in> set (commands db) \<Longrightarrow> \<exists>c' \<in> set (commands db'). command_evolves c c'"
  by (simp add: db_evolves_def)

lemma command_later:
  assumes "store_inv db" and "store_steps db db'"
    and "c \<in> set (commands db)" and "c' \<in> set (commands db')" and "command_id c' = command_id c"
  shows "command_evolves c c'"
proof -
  obtain d where d: "d \<in> set (commands db')" "command_evolves c d"
    using evolves_commandD [OF evolves_steps [OF assms(2,1)] assms(3)] by blast
  then have "command_id d = command_id c"
    by (auto simp: command_evolves_def dest: command_columns_eqD)
  with d assms have "d = c'"
    using store_inv_steps [OF assms(2,1)] unique_byD [of command_id "commands db'" d c']
    by (simp add: store_inv_def)
  with d show ?thesis by simp
qed

subsection \<open>A concrete history\<close>

definition sample_workflow :: enqueue_workflow where
  "sample_workflow =
     \<lparr>enq_run_id = ''r1'', enq_workflow_name = ''deliver'', enq_definition_version = ''1'',
      enq_execution_id = ''e1'', enq_idempotency_key = ''k1'', enq_visibility_key = ''v'',
      enq_principal = None, enq_payload = JNull, enq_max_attempts = Some 2, enq_run_after = None\<rparr>"

definition sample_db :: workflow_db where
  "sample_db = store_apply (Enqueue 1000 1001 sample_workflow) empty_db"

definition sample_claimed :: workflow_db where
  "sample_claimed = store_apply (Claim (\<lambda>_. False) 300 2000 (JsFinite 5) ''w'') sample_db"

definition sample_command :: workflow_command where
  "sample_command =
     \<lparr>cmd_command_id = ''start:r1'', cmd_run_id = ''r1'', cmd_workflow_name = ''deliver'',
      cmd_definition_version = ''1'', cmd_execution_id = ''e1'', cmd_kind = StartCommand,
      cmd_payload = JNull, cmd_status = CommandDelivering, cmd_attempts = 1, cmd_max_attempts = 2,
      cmd_lease_owner = ''w'', cmd_lease_token = 1\<rparr>"

definition sample_failed :: workflow_db where
  "sample_failed = store_apply (FailCommand 2100 2101 2102 sample_command JNull) sample_claimed"

lemma sample_steps:
  "store_steps empty_db sample_db" "store_steps sample_db sample_claimed"
  "store_steps sample_claimed sample_failed" "store_steps empty_db sample_claimed"
proof -
  show a: "store_steps empty_db sample_db" and b: "store_steps sample_db sample_claimed"
    and "store_steps sample_claimed sample_failed"
    unfolding sample_db_def sample_claimed_def sample_failed_def by (rule store_steps_one)+
  show "store_steps empty_db sample_claimed"
    by (rule store_steps_trans [OF b a])
qed

lemma sample_db_rows:
  "sample_db =
     \<lparr>runs = [\<lparr>run_id = ''r1'', workflow_name = ''deliver'', contract_identity = None,
         contract_wire_version = None, canonical_input_hash = None, definition_version = ''1'',
         execution_id = ''e1'', idempotency_key = ''k1'', visibility_key = ''v'', principal = None,
         actor_provenance = None, run_input = JNull, run_status = RunPending, run_result = None,
         run_error = None, max_attempts = 2, run_after = 1000, started_at = None,
         completed_at = None, run_created_at = 1000, run_updated_at = 1000\<rparr>],
      commands = [new_command_row ''start:r1'' ''r1'' StartCommand JNull 1001 1001]\<rparr>"
  by (code_simp)

lemma sample_claim:
  "claim (\<lambda>_. False) 300 2000 (JsFinite 5) ''w'' sample_db = ([sample_command], sample_claimed)"
  by (code_simp)

lemma sample_claimed_rows:
  "runs sample_claimed = runs sample_db"
  "commands sample_claimed =
     [lease_command 300 ''w'' 2000 (new_command_row ''start:r1'' ''r1'' StartCommand JNull 1001 1001)]"
  by code_simp+

subsection \<open>Properties\<close>

lemma reachable_store_inv: "store_steps empty_db db \<Longrightarrow> store_inv db"
  using store_inv_steps store_inv_empty by blast

text \<open>C1: Every database the store can reach from the empty one is well formed: run ids, invocation
  keys and command ids are unique, every command belongs to a run, a run has a completion time
  exactly when it is terminal, and a command has a lease owner and a lease bound exactly while it
  is being delivered, with as many attempts as leases were granted.\<close>

theorem store_tables_well_formed:
  assumes "store_steps empty_db db"
  shows "distinct (map run_id (runs db)) \<and>
    distinct (map (\<lambda>r. (workflow_name r, idempotency_key r)) (runs db)) \<and>
    distinct (map command_id (commands db)) \<and>
    (\<forall>c \<in> set (commands db). (\<exists>r \<in> set (runs db). run_id r = command_run_id c) \<and>
       attempts c = lease_token c \<and>
       (command_status c = CommandDelivering \<longleftrightarrow> lease_owner c \<noteq> None) \<and>
       (command_status c = CommandDelivering \<longleftrightarrow> lease_until c \<noteq> None)) \<and>
    (\<forall>r \<in> set (runs db).
       is_terminal_workflow_run_status (run_status r) \<longleftrightarrow> completed_at r \<noteq> None)"
proof -
  have inv: "store_inv db"
    using assms by (rule reachable_store_inv)
  have "invocation_key = (\<lambda>r. (workflow_name r, idempotency_key r))"
    by (rule ext) (simp add: invocation_key_def)
  moreover have "\<exists>r \<in> set (runs db). run_id r = command_run_id c" if "c \<in> set (commands db)" for c
    using command_run [OF inv that] lookup_by_SomeD by metis
  ultimately show ?thesis
    using inv by (auto simp: store_inv_def unique_by_def command_ok_def run_ok_def)
qed

theorem store_tables_well_formed_witness:
  "distinct (map command_id (commands sample_claimed)) \<and> commands sample_claimed \<noteq> []"
  using store_tables_well_formed [OF sample_steps(4)] by (simp add: sample_claimed_rows)

text \<open>C25: A terminal run is final: whatever the store does later, the row of a run that succeeded,
  failed or was cancelled is still there with every column unchanged.\<close>

theorem terminal_run_is_final:
  assumes "store_steps empty_db db" and "store_steps db db'"
    and "lookup_by run_id rid (runs db) = Some r" and "is_terminal_workflow_run_status (run_status r)"
  shows "lookup_by run_id rid (runs db') = Some r"
proof -
  have inv: "store_inv db" "store_inv db'"
    using assms(1,2) reachable_store_inv store_inv_steps by blast+
  have r: "r \<in> set (runs db)" "run_id r = rid"
    using assms(3) lookup_by_SomeD by metis+
  then obtain r' where "r' \<in> set (runs db')" "run_evolves r r'"
    using evolves_runD [OF evolves_steps [OF assms(2) inv(1)]] by blast
  with assms(4) have "r \<in> set (runs db')"
    by (simp add: run_evolves_def)
  with inv(2) r show ?thesis
    using lookup_by_unique [of run_id "runs db'" r] by (simp add: store_inv_def)
qed

lemma sample_failed_run:
  "\<exists>r. lookup_by run_id ''r1'' (runs sample_failed) = Some r \<and> run_status r = RunFailed"
proof -
  have "map_option run_status (lookup_by run_id ''r1'' (runs sample_failed)) = Some RunFailed"
    by code_simp
  then show ?thesis by auto
qed

theorem terminal_run_is_final_witness:
  "\<exists>r. lookup_by run_id ''r1''
          (runs (store_apply (MarkRun 9000 9001 ''r1'' RunSucceeded (Some JNull) None) sample_failed)) = Some r
        \<and> run_status r = RunFailed"
proof -
  obtain r where "lookup_by run_id ''r1'' (runs sample_failed) = Some r" "run_status r = RunFailed"
    using sample_failed_run by blast
  then show ?thesis
    using terminal_run_is_final [OF store_steps_trans [OF sample_steps(3,4)] store_steps_one, of "''r1''" r]
    by (fastforce simp: is_terminal_workflow_run_status_def simp del: store_apply.simps)
qed

text \<open>What a claim returns: at most the (normalised) limit of commands, with distinct ids, each
  of them an unlocked command of a non-terminal run that was pending and due or whose lease had
  run out, now leased to the caller with one more attempt and the next lease token; the oldest
  claimable commands come first, and no other command row changes.\<close>

theorem claim_leases_oldest_due_commands:
  assumes "store_steps empty_db db" and "claim locked lease t limit w db = (cmds, db')"
  shows "length cmds \<le> nat (normalize_sql_limit limit) \<and> distinct (map cmd_command_id cmds) \<and>
    (\<forall>cmd \<in> set cmds. \<exists>c \<in> set (commands db). command_id c = cmd_command_id cmd \<and>
       claimable t db c \<and> \<not> locked (command_id c) \<and>
       cmd_attempts cmd = attempts c + 1 \<and> cmd_lease_token cmd = lease_token c + 1 \<and>
       cmd_lease_owner cmd = w) \<and>
    (\<forall>c \<in> set (commands db). command_id c \<notin> set (map cmd_command_id cmds) \<longrightarrow>
       c \<in> set (commands db') \<and>
       (claimable t db c \<and> \<not> locked (command_id c) \<longrightarrow>
          length cmds = nat (normalize_sql_limit limit) \<and>
          (\<forall>cmd \<in> set cmds. \<forall>d \<in> set (commands db). command_id d = cmd_command_id cmd \<longrightarrow>
             command_created_at d \<le> command_created_at c)))"
proof -
  have inv: "store_inv db"
    using assms(1) by (rule reachable_store_inv)
  let ?rows = "claimed_rows locked t limit db"
  have cmds: "cmds = fst (claim locked lease t limit w db)"
    and db': "db' = snd (claim locked lease t limit w db)"
    using assms(2) by simp_all
  have ids: "map cmd_command_id cmds = map command_id (filter (\<lambda>c. c \<in> set ?rows) (commands db))"
    by (simp add: cmds claim_result [OF inv] claimed_command_def)
  have unique: "unique_by command_id (commands db)"
    using inv by (simp add: store_inv_def)
  have "length cmds \<le> nat (normalize_sql_limit limit)"
    by (simp add: cmds length_claim [OF inv] claimed_rows_def)
  moreover have "distinct (map cmd_command_id cmds)"
    using unique by (simp add: ids unique_by_def distinct_map_filter)
  moreover have "\<exists>c \<in> set (commands db). command_id c = cmd_command_id cmd \<and>
       claimable t db c \<and> \<not> locked (command_id c) \<and>
       cmd_attempts cmd = attempts c + 1 \<and> cmd_lease_token cmd = lease_token c + 1 \<and>
       cmd_lease_owner cmd = w" if "cmd \<in> set cmds" for cmd
    using claimed_command_row [OF inv that [unfolded cmds]] claimed_rows_D by blast
  moreover have "c \<in> set (commands db') \<and>
       (claimable t db c \<and> \<not> locked (command_id c) \<longrightarrow>
          length cmds = nat (normalize_sql_limit limit) \<and>
          (\<forall>cmd \<in> set cmds. \<forall>d \<in> set (commands db). command_id d = cmd_command_id cmd \<longrightarrow>
             command_created_at d \<le> command_created_at c))"
    if c: "c \<in> set (commands db)" and new: "command_id c \<notin> set (map cmd_command_id cmds)" for c
  proof (intro conjI impI ballI)
    have rows: "c \<notin> set ?rows"
      using c new unfolding ids by auto
    then show "c \<in> set (commands db')"
      using c by (auto simp: db' claim_commands [OF inv] set_update_where image_iff)
    assume due: "claimable t db c \<and> \<not> locked (command_id c)"
    note left_out = take_sort_key_least [of c
        "filter (\<lambda>c. claimable t db c \<and> \<not> locked (command_id c)) (commands db)"
        "nat (normalize_sql_limit limit)" command_created_at]
    show "length cmds = nat (normalize_sql_limit limit)"
      using left_out(1) c due rows by (simp add: cmds length_claim [OF inv] claimed_rows_def)
    fix cmd d
    assume "cmd \<in> set cmds" and d: "d \<in> set (commands db)" "command_id d = cmd_command_id cmd"
    then have "command_id d \<in> set (map cmd_command_id cmds)"
      by simp
    then have "command_id d \<in> command_id ` set ?rows"
      unfolding ids by (rule rev_subsetD) auto
    then obtain e where e: "e \<in> set ?rows" "command_id e = command_id d"
      by (metis imageE)
    then have "e = d"
      using unique_byD [OF unique _ d(1)] claimed_rows_D by blast
    with e have "d \<in> set ?rows" by simp
    then show "command_created_at d \<le> command_created_at c"
      using left_out(2) c due rows by (simp add: claimed_rows_def)
  qed
  ultimately show ?thesis by blast
qed

theorem claim_leases_oldest_due_commands_witness:
  "length [sample_command] \<le> nat (normalize_sql_limit (JsFinite 5)) \<and>
   (\<exists>c \<in> set (commands sample_db). cmd_attempts sample_command = attempts c + 1)"
  using claim_leases_oldest_due_commands [OF sample_steps(1) sample_claim] by auto

lemma settle_command_simps:
  "fst (settle_command n t cmd s d e db) \<longleftrightarrow> (\<exists>c \<in> set (commands db). holds_lease cmd c)"
  "commands (snd (settle_command n t cmd s d e db)) = update_where (holds_lease cmd)
     (settle_row s (case d of None \<Rightarrow> n | Some x \<Rightarrow> n + x) e t) (commands db)"
  by (simp_all add: settle_command_def Let_def)

lemma settle_stale:
  assumes "\<forall>c \<in> set (commands db). \<not> holds_lease cmd c"
  shows "settle_command n t cmd s d e db = (False, db)"
proof -
  have "update_where (holds_lease cmd) f (commands db) = commands db" for f
    unfolding update_where_def by (rule map_idI) (use assms in simp)
  with assms show ?thesis
    by (auto simp: settle_command_def Let_def)
qed

text \<open>Once a lease is lost it is never held again.\<close>

lemma lease_lost:
  assumes "store_inv db" and "store_steps db db'"
    and "c \<in> set (commands db)" and "command_id c = cmd_command_id cmd" and "\<not> holds_lease cmd c"
    and "cmd_lease_token cmd \<le> lease_token c"
  shows "\<forall>c' \<in> set (commands db'). \<not> holds_lease cmd c'"
proof (intro ballI notI)
  fix c'
  assume c': "c' \<in> set (commands db')" "holds_lease cmd c'"
  then have ev: "command_evolves c c'"
    using command_later [OF assms(1-3)] assms(4) by (simp add: holds_lease_def)
  then have "lease_token c' = lease_token c" and "command_status c' = CommandDelivering"
    using c' assms(6) by (auto simp: holds_lease_def command_evolves_def)
  with ev have "c' = c"
    by (simp add: command_evolves_def)
  with c' assms(5) show False by simp
qed

text \<open>Settlements are fenced and happen once: after a delivery, retry or failure that found the
  caller's lease current, every later settlement with the same claim is refused and changes
  nothing, whatever happened in between.\<close>

theorem settlement_happens_once:
  assumes "store_steps empty_db db" and "s \<noteq> CommandDelivering"
    and "settle_command n t cmd s d e db = (True, db1)" and "store_steps db1 db2"
  shows "settle_command n' t' cmd s' d' e' db2 = (False, db2)"
proof -
  have inv: "store_inv db1"
    using store_inv_settle [OF reachable_store_inv [OF assms(1)] assms(2)] assms(3) by (metis snd_conv)
  obtain c where c: "c \<in> set (commands db)" "holds_lease cmd c"
    using assms(3) settle_command_simps(1) by (metis fst_conv)
  let ?c = "settle_row s (case d of None \<Rightarrow> n | Some x \<Rightarrow> n + x) e t c"
  have "commands db1 = update_where (holds_lease cmd)
      (settle_row s (case d of None \<Rightarrow> n | Some x \<Rightarrow> n + x) e t) (commands db)"
    using assms(3) settle_command_simps(2) by (metis snd_conv)
  with c have "?c \<in> set (commands db1)"
    by (auto simp: set_update_where)
  moreover have "command_id ?c = cmd_command_id cmd" and "\<not> holds_lease cmd ?c"
    and "cmd_lease_token cmd \<le> lease_token ?c"
    using c(2) assms(2) by (simp_all add: holds_lease_def settle_row_def)
  ultimately show ?thesis
    by (intro settle_stale lease_lost [OF inv assms(4)])
qed

lemma sample_settle:
  "fst (settle_command 2100 2102 sample_command CommandPending (Some 5) (Some JNull) sample_claimed)"
  by code_simp

theorem settlement_happens_once_witness:
  "\<not> fst (settle_command 2200 2201 sample_command CommandDelivered None None
     (snd (settle_command 2100 2102 sample_command CommandPending (Some 5) (Some JNull) sample_claimed)))"
proof -
  have "settle_command 2100 2102 sample_command CommandPending (Some 5) (Some JNull) sample_claimed =
      (True, snd (settle_command 2100 2102 sample_command CommandPending (Some 5) (Some JNull) sample_claimed))"
    using sample_settle by (simp add: prod_eq_iff)
  from settlement_happens_once [OF sample_steps(4) _ this store_steps.refl,
      of 2200 2201 CommandDelivered None None]
  show ?thesis by simp
qed

text \<open>C2: Leases are exclusive: when two claims return the same command, the later one carries a
  greater lease token, the settlements of the earlier worker are refused from then on, and if the
  earlier worker still held its lease when the second claim came, that lease had run out.\<close>

theorem claims_are_exclusive:
  assumes "store_steps empty_db db"
    and "claim locked lease t limit w db = (cmds, db1)" and "a \<in> set cmds"
    and "store_steps db1 db2"
    and "claim locked' lease' t' limit' w' db2 = (cmds', db3)" and "b \<in> set cmds'"
    and "cmd_command_id b = cmd_command_id a"
  shows "cmd_lease_token a < cmd_lease_token b \<and>
    settle_command n u a s d e db3 = (False, db3) \<and>
    ((\<exists>c \<in> set (commands db2). holds_lease a c) \<longrightarrow> t + lease \<le> t')"
proof -
  have inv: "store_inv db"
    by (rule reachable_store_inv [OF assms(1)])
  have inv1: "store_inv db1"
    using store_inv_claim [OF inv, of locked lease t limit w] assms(2) by simp
  have inv2: "store_inv db2"
    by (rule store_inv_steps [OF assms(4) inv1])
  have a: "a \<in> set (fst (claim locked lease t limit w db))"
    and b: "b \<in> set (fst (claim locked' lease' t' limit' w' db2))"
    using assms(2,3,5,6) by simp_all
  obtain c1 r1 where c1: "c1 \<in> set (claimed_rows locked t limit db)"
    and a_eq: "a = claimed_command w r1 (lease_command lease w t c1)"
    using claimed_command_of [OF inv a] by blast
  let ?c1 = "lease_command lease w t c1"
  have mem1: "?c1 \<in> set (commands db1)"
    using c1 claimed_rows_D [OF c1] claim_commands [OF inv, of locked lease t limit w] assms(2)
    by (auto simp: set_update_where)
  obtain c2 where c2: "c2 \<in> set (claimed_rows locked' t' limit' db2)"
    "command_id c2 = cmd_command_id b" "cmd_lease_token b = lease_token c2 + 1"
    using claimed_command_row [OF inv2 b] by blast
  note c2D = claimed_rows_D [OF c2(1)]
  have ev: "command_evolves ?c1 c2"
    using command_later [OF inv1 assms(4) mem1, of c2] c2D c2(2) assms(7)
    by (simp add: a_eq claimed_command_def)
  have token: "cmd_lease_token a < cmd_lease_token b"
    using ev c2(3) by (simp add: a_eq claimed_command_def command_evolves_def)
  let ?c3 = "lease_command lease' w' t' c2"
  have inv3: "store_inv db3"
    using store_inv_claim [OF inv2, of locked' lease' t' limit' w'] assms(5) by simp
  have "?c3 \<in> set (commands db3)"
    using c2D c2(1) claim_commands [OF inv2, of locked' lease' t' limit' w'] assms(5)
    by (auto simp: set_update_where)
  moreover have "command_id ?c3 = cmd_command_id a" and "\<not> holds_lease a ?c3"
    and "cmd_lease_token a \<le> lease_token ?c3"
    using c2(2,3) token assms(7) by (auto simp: holds_lease_def lease_command_def)
  ultimately have "settle_command n u a s d e db3 = (False, db3)"
    by (intro settle_stale lease_lost [OF inv3 store_steps.refl])
  moreover have "t + lease \<le> t'" if held: "\<exists>c \<in> set (commands db2). holds_lease a c"
  proof -
    obtain c where c: "c \<in> set (commands db2)" "holds_lease a c"
      using held by blast
    then have "c = c2"
      using c2D c2(2) assms(7) inv2 unique_byD [of command_id "commands db2" c c2]
      by (simp add: holds_lease_def store_inv_def)
    with c ev have "c2 = ?c1"
      by (simp add: holds_lease_def a_eq claimed_command_def command_evolves_def)
    with c2D show ?thesis
      by (simp add: claimable_def lease_command_def)
  qed
  ultimately show ?thesis
    using token by blast
qed

definition sample_reclaimed :: "workflow_command list \<times> workflow_db" where
  "sample_reclaimed = claim (\<lambda>_. False) 300 2300 (JsFinite 1) ''x'' sample_claimed"

lemma sample_reclaim:
  "sample_reclaimed = ([sample_command\<lparr>cmd_attempts := 2, cmd_lease_owner := ''x'', cmd_lease_token := 2\<rparr>],
     snd sample_reclaimed)"
  by code_simp

theorem claims_are_exclusive_witness:
  "\<not> fst (settle_command 2400 2400 sample_command CommandDelivered None None (snd sample_reclaimed))"
  using claims_are_exclusive [OF sample_steps(1) sample_claim _ store_steps.refl
      sample_reclaim [unfolded sample_reclaimed_def], of sample_command _ 2400 2400 CommandDelivered None None]
  by (simp add: sample_reclaimed_def)

subsection \<open>Enqueues\<close>

definition matching_run :: "enqueue_workflow \<Rightarrow> workflow_run_row \<Rightarrow> bool" where
  "matching_run inp r \<longleftrightarrow>
     workflow_name r = enq_workflow_name inp \<and> idempotency_key r = enq_idempotency_key inp \<and>
     visibility_key r = enq_visibility_key inp \<and> definition_version r = enq_definition_version inp \<and>
     jsonb_eq (run_input r) (enq_payload inp) \<and>
     max_attempts r = (case enq_max_attempts inp of None \<Rightarrow> default_workflow_max_attempts | Some n \<Rightarrow> n)"

definition start_command_for :: "workflow_run_row \<Rightarrow> workflow_command_row \<Rightarrow> bool" where
  "start_command_for r c \<longleftrightarrow>
     command_id c = start_command_id (run_id r) \<and> command_run_id c = run_id r \<and>
     command_kind c = StartCommand \<and> jsonb_eq (command_payload c) (run_input r)"

lemma insert_run_ok:
  assumes "insert_run n inp db = (Inr e, db')"
  shows "commands db' = commands db \<and> (\<exists>r \<in> set (runs db'). matching_run inp r \<and>
      e = \<lparr>enqueued_run_id = run_id r, enqueued_execution_id = execution_id r\<rparr> \<and>
      (runs db' = runs db \<or> runs db' = runs db @ [r] \<and> run_status r = RunPending \<and>
         run_id r = enq_run_id inp \<and> execution_id r = enq_execution_id inp))"
  using assms
  by (auto simp: insert_run_def Let_def matching_run_def find_Some_iff split: option.splits if_splits)

lemma insert_command_ok:
  assumes "insert_command n inp db = (Inr (), db')"
  shows "runs db' = runs db \<and> (\<exists>c \<in> set (commands db'). command_id c = eqc_command_id inp \<and>
      command_run_id c = eqc_run_id inp \<and> command_kind c = eqc_kind inp \<and>
      jsonb_eq (command_payload c) (eqc_payload inp) \<and>
      (commands db' = commands db \<or> commands db' = commands db @ [c]))"
  using assms
  by (auto simp: insert_command_def Let_def new_command_row_def dest: lookup_by_SomeD
      split: option.splits if_splits)

lemma enqueue_error_unchanged: "enqueue n m inp db = (Inl e, db') \<Longrightarrow> db' = db"
  unfolding enqueue_def by (rule with_transaction_error)

lemma enqueue_okD:
  assumes "enqueue n m inp db = (Inr e, db')"
  shows "\<exists>r \<in> set (runs db'). \<exists>c \<in> set (commands db'). matching_run inp r \<and> start_command_for r c \<and>
      e = \<lparr>enqueued_run_id = run_id r, enqueued_execution_id = execution_id r\<rparr> \<and>
      (runs db' = runs db \<or> runs db' = runs db @ [r] \<and> run_status r = RunPending \<and>
         run_id r = enq_run_id inp \<and> execution_id r = enq_execution_id inp) \<and>
      (commands db' = commands db \<or> commands db' = commands db @ [c])"
proof -
  obtain db1 where db1: "insert_run n inp db = (Inr e, db1)"
    "insert_command m \<lparr>eqc_command_id = start_command_id (enqueued_run_id e),
          eqc_run_id = enqueued_run_id e, eqc_kind = StartCommand, eqc_payload = enq_payload inp,
          eqc_available_at = enq_run_after inp\<rparr> db1 = (Inr (), db')"
    using assms by (auto simp: enqueue_ok)
  obtain r where r: "r \<in> set (runs db1)" "matching_run inp r"
    "e = \<lparr>enqueued_run_id = run_id r, enqueued_execution_id = execution_id r\<rparr>"
    "runs db1 = runs db \<or> runs db1 = runs db @ [r] \<and> run_status r = RunPending \<and>
         run_id r = enq_run_id inp \<and> execution_id r = enq_execution_id inp"
    "commands db1 = commands db"
    using insert_run_ok [OF db1(1)] by blast
  obtain c where c: "c \<in> set (commands db')" "start_command_for r c"
    "commands db' = commands db1 \<or> commands db' = commands db1 @ [c]" "runs db' = runs db1"
    using insert_command_ok [OF db1(2)] r(2,3)
    by (auto simp: start_command_for_def matching_run_def jsonb_eq_def)
  show ?thesis
    using r c by (intro bexI [of _ r] bexI [of _ c]) simp_all
qed

lemma find_invocation:
  assumes "unique_by invocation_key (runs db)" and "r \<in> set (runs db)"
  shows "List.find (\<lambda>x. workflow_name x = workflow_name r \<and> idempotency_key x = idempotency_key r)
    (runs db) = Some r"
proof -
  have "(\<lambda>x. workflow_name x = workflow_name r \<and> idempotency_key x = idempotency_key r) =
      (\<lambda>x. invocation_key x = invocation_key r)"
    by (auto simp: invocation_key_def)
  then show ?thesis
    using lookup_by_unique [OF assms] by (simp add: lookup_by_def)
qed

lemma enqueue_again:
  assumes "store_inv db" and "r \<in> set (runs db)" and "c \<in> set (commands db)"
    and "matching_run inp r" and "start_command_for r c"
  shows "enqueue n m inp db =
    (Inr \<lparr>enqueued_run_id = run_id r, enqueued_execution_id = execution_id r\<rparr>, db)"
proof -
  have "lookup_by command_id (command_id c) (commands db) = Some c"
    using assms(1,3) lookup_by_unique by (auto simp: store_inv_def)
  moreover have "List.find (\<lambda>x. workflow_name x = enq_workflow_name inp \<and>
      idempotency_key x = enq_idempotency_key inp) (runs db) = Some r"
    using find_invocation [of db r] assms(1,2,4) by (simp add: store_inv_def matching_run_def)
  ultimately show ?thesis
    using assms(4,5)
    by (auto simp: enqueue_ok insert_run_def Let_def insert_command_def matching_run_def
        start_command_for_def jsonb_eq_def)
qed

text \<open>C24: Enqueueing is idempotent: once a workflow was accepted, the same request (possibly with
  other run and execution ids, other clocks and another start time) returns the ids of the first
  acceptance and changes nothing, whatever happened to the run in between.\<close>

theorem enqueue_is_idempotent:
  assumes "store_steps empty_db db" and "enqueue n m inp db = (Inr e, db1)"
    and "store_steps db1 db2"
  shows "enqueue n' m' (inp\<lparr>enq_run_id := rid, enq_execution_id := xid, enq_run_after := after\<rparr>) db2 =
    (Inr e, db2)"
proof -
  have inv1: "store_inv db1"
    using store_inv_enqueue [OF reachable_store_inv [OF assms(1)] assms(2)] .
  obtain r c where rc: "r \<in> set (runs db1)" "c \<in> set (commands db1)" "matching_run inp r"
    "start_command_for r c" "e = \<lparr>enqueued_run_id = run_id r, enqueued_execution_id = execution_id r\<rparr>"
    using enqueue_okD [OF assms(2)] by blast
  obtain r' c' where later: "r' \<in> set (runs db2)" "c' \<in> set (commands db2)"
    "run_evolves r r'" "command_evolves c c'"
    using evolves_runD [OF evolves_steps [OF assms(3) inv1] rc(1)]
      evolves_commandD [OF evolves_steps [OF assms(3) inv1] rc(2)] by blast
  note same = run_columns_eqD [of r' r] command_columns_eqD [of c' c]
  have "matching_run (inp\<lparr>enq_run_id := rid, enq_execution_id := xid, enq_run_after := after\<rparr>) r'"
    using rc(3) later(3) same by (auto simp: matching_run_def run_evolves_def)
  moreover have "start_command_for r' c'"
    using rc(4) later same by (auto simp: start_command_for_def run_evolves_def command_evolves_def)
  moreover have "e = \<lparr>enqueued_run_id = run_id r', enqueued_execution_id = execution_id r'\<rparr>"
    using rc(5) later(3) same by (auto simp: run_evolves_def)
  ultimately show ?thesis
    using enqueue_again [OF store_inv_steps [OF assms(3) inv1] later(1,2)] by simp
qed

theorem enqueue_is_idempotent_witness:
  "enqueue 5000 5001 (sample_workflow\<lparr>enq_run_id := ''r9'', enq_execution_id := ''e9'',
       enq_run_after := Some 7\<rparr>) sample_claimed =
     (Inr \<lparr>enqueued_run_id = ''r1'', enqueued_execution_id = ''e1''\<rparr>, sample_claimed)"
proof -
  have "enqueue 1000 1001 sample_workflow empty_db =
      (Inr \<lparr>enqueued_run_id = ''r1'', enqueued_execution_id = ''e1''\<rparr>, sample_db)"
    by code_simp
  from enqueue_is_idempotent [OF store_steps.refl this sample_steps(2)] show ?thesis .
qed

text \<open>What a first enqueue does: the invocation key, the run id and the start command's id being
  free, exactly one pending run and its pending start command are added, the command being due at
  the requested time.\<close>

theorem enqueue_adds_run_and_start_command:
  assumes "\<forall>r \<in> set (runs db). (workflow_name r, idempotency_key r) \<noteq>
      (enq_workflow_name inp, enq_idempotency_key inp) \<and> run_id r \<noteq> enq_run_id inp"
    and "\<forall>c \<in> set (commands db). command_id c \<noteq> start_command_id (enq_run_id inp)"
  shows "\<exists>r. fst (enqueue n m inp db) =
      Inr \<lparr>enqueued_run_id = enq_run_id inp, enqueued_execution_id = enq_execution_id inp\<rparr> \<and>
    runs (snd (enqueue n m inp db)) = runs db @ [r] \<and>
    matching_run inp r \<and> run_status r = RunPending \<and> run_id r = enq_run_id inp \<and>
    commands (snd (enqueue n m inp db)) = commands db @
      [new_command_row (start_command_id (enq_run_id inp)) (enq_run_id inp) StartCommand
        (enq_payload inp) (case enq_run_after inp of None \<Rightarrow> m | Some t \<Rightarrow> t) m]"
proof -
  have "List.find (\<lambda>r. workflow_name r = enq_workflow_name inp \<and>
      idempotency_key r = enq_idempotency_key inp) (runs db) = None"
    using assms(1) by (auto simp: find_None_iff)
  moreover have "lookup_by command_id (start_command_id (enq_run_id inp)) (commands db) = None"
    using assms(2) by (auto simp: lookup_by_None)
  ultimately show ?thesis
    using assms(1)
    by (auto simp: enqueue_def with_transaction_def enqueue_workflow_in_transaction_def txn_bind_def
        insert_run_def Let_def insert_command_def active_run_def txn_simps matching_run_def
        is_terminal_workflow_run_status_def)
qed

theorem enqueue_adds_run_and_start_command_witness:
  "\<exists>r. runs (snd (enqueue 5 6 (sample_workflow\<lparr>enq_run_id := ''r2'', enq_idempotency_key := ''k2''\<rparr>)
     sample_db)) = runs sample_db @ [r]"
  using enqueue_adds_run_and_start_command [of sample_db
      "sample_workflow\<lparr>enq_run_id := ''r2'', enq_idempotency_key := ''k2''\<rparr>" 5 6]
  by (auto simp: sample_db_rows sample_workflow_def new_command_row_def start_command_id_def)

text \<open>A rejected enqueue leaves the database as it was, and says which conflict it met: the key
  belongs to a run with another visibility key, or to a run with other parameters, or the start
  command's id carries another command, or the run exists but is not active and has no start
  command, or the run id is taken by another invocation.\<close>

theorem rejected_enqueue_changes_nothing:
  assumes "enqueue n m inp db = (Inl e, db')"
  shows "db' = db \<and>
    (e = UniqueViolation \<and> (\<exists>r \<in> set (runs db). run_id r = enq_run_id inp \<and>
        (workflow_name r, idempotency_key r) \<noteq> (enq_workflow_name inp, enq_idempotency_key inp)) \<or>
     (\<exists>r \<in> set (runs db). (workflow_name r, idempotency_key r) =
          (enq_workflow_name inp, enq_idempotency_key inp) \<and>
        (visibility_key r \<noteq> enq_visibility_key inp \<or> definition_version r \<noteq> enq_definition_version inp \<or>
         \<not> jsonb_eq (run_input r) (enq_payload inp) \<or>
         max_attempts r \<noteq> (case enq_max_attempts inp of None \<Rightarrow> default_workflow_max_attempts | Some k \<Rightarrow> k) \<or>
         is_terminal_workflow_run_status (run_status r) \<and>
           start_command_id (run_id r) \<notin> command_id ` set (commands db))) \<or>
     (\<exists>c \<in> set (commands db). (\<exists>rid. command_id c = start_command_id rid \<and>
        (command_run_id c \<noteq> rid \<or> command_kind c \<noteq> StartCommand \<or>
         \<not> jsonb_eq (command_payload c) (enq_payload inp)))))"
proof -
  have "db' = db"
    using assms by (rule enqueue_error_unchanged)
  obtain db1 where fails: "enqueue_workflow_in_transaction (insert_run n) (insert_command m) inp db = (Inl e, db1)"
    using assms by (auto simp: enqueue_def with_transaction_fails)
  consider (run) "insert_run n inp db = (Inl e, db1)"
    | (command) run db2 where "insert_run n inp db = (Inr run, db2)"
      "insert_command m \<lparr>eqc_command_id = start_command_id (enqueued_run_id run),
          eqc_run_id = enqueued_run_id run, eqc_kind = StartCommand, eqc_payload = enq_payload inp,
          eqc_available_at = enq_run_after inp\<rparr> db2 = (Inl e, db1)"
    using fails
    by (auto simp: enqueue_workflow_in_transaction_def txn_bind_def txn_simps split: prod.splits sum.splits)
  then show ?thesis
  proof cases
    case run
    then show ?thesis
      using \<open>db' = db\<close>
      by (auto simp: insert_run_def Let_def find_Some_iff find_None_iff split: option.splits if_splits)
  next
    case command
    obtain r where r: "r \<in> set (runs db2)" "matching_run inp r" "enqueued_run_id run = run_id r"
      "commands db2 = commands db"
      "runs db2 = runs db \<or> runs db2 = runs db @ [r] \<and> run_status r = RunPending"
      using insert_run_ok [OF command(1)] by auto
    have "(is_terminal_workflow_run_status (run_status r) \<and>
           start_command_id (run_id r) \<notin> command_id ` set (commands db)) \<or>
       (\<exists>c \<in> set (commands db). command_id c = start_command_id (run_id r) \<and>
          (command_run_id c \<noteq> run_id r \<or> command_kind c \<noteq> StartCommand \<or>
           \<not> jsonb_eq (command_payload c) (enq_payload inp)))"
      using command(2) r(1,3,4)
      by (auto simp: insert_command_def Let_def active_run_def lookup_by_None
          dest!: lookup_by_SomeD split: option.splits if_splits)
    moreover have "r \<in> set (runs db)" if "is_terminal_workflow_run_status (run_status r)"
      using r(1,5) that by (auto simp: is_terminal_workflow_run_status_def)
    ultimately show ?thesis
      using \<open>db' = db\<close> r(2) by (auto simp: matching_run_def)
  qed
qed

theorem rejected_enqueue_changes_nothing_witness:
  "snd (enqueue 5 6 (sample_workflow\<lparr>enq_payload := JBool True\<rparr>) sample_db) = sample_db"
proof -
  have "\<not> isl (fst (enqueue 5 6 (sample_workflow\<lparr>enq_payload := JBool True\<rparr>) sample_db)) \<Longrightarrow> False"
    by code_simp
  then obtain e where "enqueue 5 6 (sample_workflow\<lparr>enq_payload := JBool True\<rparr>) sample_db =
      (Inl e, snd (enqueue 5 6 (sample_workflow\<lparr>enq_payload := JBool True\<rparr>) sample_db))"
    by (metis isl_def prod.collapse)
  from rejected_enqueue_changes_nothing [OF this] show ?thesis by simp
qed

text \<open>Every run has the command that starts it.\<close>

definition runs_started :: "workflow_db \<Rightarrow> bool" where
  "runs_started db \<longleftrightarrow> (\<forall>r \<in> set (runs db). \<exists>c \<in> set (commands db). start_command_for r c)"

lemma runs_started_evolves:
  assumes "runs_started db" and "db_evolves db db'"
    and "\<forall>r' \<in> set (runs db'). \<exists>r \<in> set (runs db). run_columns r' = run_columns r"
  shows "runs_started db'"
  unfolding runs_started_def
proof
  fix r'
  assume "r' \<in> set (runs db')"
  then obtain r where r: "r \<in> set (runs db)" "run_columns r' = run_columns r"
    using assms(3) by blast
  then obtain c where c: "c \<in> set (commands db)" "start_command_for r c"
    using assms(1) by (auto simp: runs_started_def)
  then obtain c' where c': "c' \<in> set (commands db')" "command_evolves c c'"
    using evolves_commandD [OF assms(2)] by blast
  then have "start_command_for r' c'"
    using c(2) run_columns_eqD [OF r(2)] command_columns_eqD [of c' c]
    by (simp add: start_command_for_def command_evolves_def)
  with c'(1) show "\<exists>c \<in> set (commands db'). start_command_for r' c" by blast
qed

lemma mark_run_columns:
  "r' \<in> set (runs (mark_run n t rid s v e db)) \<Longrightarrow> \<exists>r \<in> set (runs db). run_columns r' = run_columns r"
  by (force simp: mark_run_def set_update_where mark_row_def run_columns_def)

lemma settle_runs [simp]: "runs (snd (settle_command n t cmd s d e db)) = runs db"
  by (simp add: settle_command_def Let_def)

lemma fail_command_columns:
  "r' \<in> set (runs (snd (fail_command n m t cmd e db))) \<Longrightarrow>
     \<exists>r \<in> set (runs db). run_columns r' = run_columns r"
proof -
  assume r': "r' \<in> set (runs (snd (fail_command n m t cmd e db)))"
  obtain x db1 where settle: "settle_command n t cmd CommandFailed None (Some e) db = (x, db1)"
    by fastforce
  then have "runs db1 = runs db"
    using settle_runs [of n t cmd CommandFailed None "Some e" db] by simp
  with r' settle show ?thesis
    using mark_run_columns [of r' m t "cmd_run_id cmd" RunFailed None "Some e" db1]
    by (auto simp: fail_command_def split: if_splits)
qed

lemma enqueue_command_runs: "runs (snd (enqueue_command n inp db)) = runs db"
  by (auto simp: enqueue_command_def with_transaction_def insert_command_def Let_def
      split: option.splits if_splits)

lemma runs_started_enqueue:
  assumes "store_inv db" and "runs_started db"
  shows "runs_started (snd (enqueue n m inp db))"
proof (cases "enqueue n m inp db")
  case (Pair res db')
  show ?thesis
  proof (cases res)
    case (Inl e)
    then show ?thesis
      using Pair assms(2) enqueue_error_unchanged [of n m inp db e db'] by simp
  next
    case (Inr e)
    then obtain r c where rc: "c \<in> set (commands db')" "start_command_for r c"
      "runs db' = runs db \<or> runs db' = runs db @ [r]"
      "commands db' = commands db \<or> commands db' = commands db @ [c]"
      using enqueue_okD Pair by blast
    then have "set (commands db) \<subseteq> set (commands db')" by auto
    then show ?thesis
      using rc assms(2) Pair by (fastforce simp: runs_started_def)
  qed
qed

lemma apply_columns:
  assumes "r' \<in> set (runs (store_apply a db))" and "\<And>n m inp. a \<noteq> Enqueue n m inp"
  shows "\<exists>r \<in> set (runs db). run_columns r' = run_columns r"
  using assms
  by (cases a) (auto simp: mark_command_delivered_def retry_command_def enqueue_command_runs
      dest: mark_run_columns fail_command_columns)

lemma runs_started_apply:
  assumes "store_inv db" and "runs_started db"
  shows "runs_started (store_apply a db)"
proof (cases "\<exists>n m inp. a = Enqueue n m inp")
  case True
  then show ?thesis using runs_started_enqueue [OF assms] by auto
next
  case False
  then show ?thesis
    using runs_started_evolves [OF assms(2) evolves_apply [OF assms(1)]] apply_columns by blast
qed

text \<open>No run is lost: in every reachable database each run, whatever its state, has its own
  start command, with the run's input as its payload.\<close>

theorem every_run_has_its_start_command:
  assumes "store_steps empty_db db" and "r \<in> set (runs db)"
  shows "\<exists>c \<in> set (commands db). command_id c = ''start:'' @ run_id r \<and>
    command_run_id c = run_id r \<and> command_kind c = StartCommand \<and>
    jsonb_eq (command_payload c) (run_input r)"
proof -
  have "store_inv db' \<and> runs_started db'" if "store_steps empty_db db'" for db'
    using that
  proof (induction empty_db db' rule: store_steps.induct)
    case refl
    show ?case by (simp add: runs_started_def) (simp add: empty_db_def)
  next
    case (step db' a)
    then show ?case by (simp add: store_inv_apply runs_started_apply)
  qed
  with assms show ?thesis
    by (auto simp: runs_started_def start_command_for_def start_command_id_def)
qed

theorem every_run_has_its_start_command_witness:
  "\<exists>c \<in> set (commands sample_db). command_id c = ''start:r1''"
  using every_run_has_its_start_command [OF sample_steps(1)] by (force simp: sample_db_rows)

subsection \<open>Pages of runs\<close>

lemma sorted_take_sort_key: "sorted (map f (take n (sort_key f xs)))"
  by (metis sorted_sort_key sorted_wrt_take take_map)

text \<open>A page lists runs of the asked status after the cursor, in the order of update time and run
  id, at most the limit of them, and none is skipped: a run of that status after the cursor that
  is not on the page comes after all of a full page.\<close>

theorem page_of_runs:
  fixes status limit cursor db
  defines "page \<equiv> list_run_rows status limit cursor db"
  shows "list_runs status limit cursor db = map decode_run page \<and>
    sorted (map page_key page) \<and> length page \<le> nat (normalize_sql_limit limit) \<and>
    (\<forall>r \<in> set page. r \<in> set (runs db) \<and> run_status r = status \<and> after_cursor cursor r) \<and>
    (\<forall>r \<in> set (runs db). run_status r = status \<and> after_cursor cursor r \<and> r \<notin> set page \<longrightarrow>
       length page = nat (normalize_sql_limit limit) \<and> (\<forall>p \<in> set page. page_key p \<le> page_key r))"
proof -
  let ?due = "filter (\<lambda>r. run_status r = status \<and> after_cursor cursor r) (runs db)"
  have page: "page = take (nat (normalize_sql_limit limit)) (sort_key page_key ?due)"
    by (simp add: page_def list_run_rows_def)
  have "length page = nat (normalize_sql_limit limit) \<and> (\<forall>p \<in> set page. page_key p \<le> page_key r)"
    if "r \<in> set (runs db)" "run_status r = status" "after_cursor cursor r" "r \<notin> set page" for r
    using take_sort_key_least [of r ?due "nat (normalize_sql_limit limit)" page_key] that
    unfolding page by auto
  moreover have "sorted (map page_key page)"
    unfolding page by (rule sorted_take_sort_key)
  moreover have "r \<in> set (runs db) \<and> run_status r = status \<and> after_cursor cursor r"
    if "r \<in> set page" for r
    using that unfolding page by (auto dest: in_set_takeD)
  moreover have "length page \<le> nat (normalize_sql_limit limit)"
    by (simp add: page)
  ultimately show ?thesis
    by (simp add: list_runs_def page_def)
qed

theorem page_of_runs_witness:
  "list_runs RunPending (JsFinite 1) None sample_db = map decode_run (runs sample_db) \<and>
   sorted (map page_key (list_run_rows RunPending (JsFinite 1) None sample_db))"
  using page_of_runs [of RunPending "JsFinite 1" None sample_db]
  by (simp add: list_runs_def list_run_rows_def after_cursor_def sample_db_rows normalize_sql_limit_def
      math_trunc_def)

text \<open>The cursor made from a run that was read (whose update time went through a \<open>Date\<close>) lies
  before that very run unless the update time is a whole number of milliseconds: the last run of a
  page is listed again on the next page, and no run with a later key is skipped.\<close>

theorem page_cursor_relists_its_run:
  fixes r :: workflow_run_row
  defines "cursor \<equiv> Some (wr_updated_at (decode_run r), wr_run_id (decode_run r))"
  shows "(after_cursor cursor r \<longleftrightarrow> run_updated_at r mod 1000 \<noteq> 0) \<and>
    (\<forall>r'. page_key r < page_key r' \<longrightarrow> after_cursor cursor r')"
proof -
  have "js_date (run_updated_at r) = run_updated_at r \<longleftrightarrow> run_updated_at r mod 1000 = 0"
    unfolding js_date_def using div_mult_mod_eq [of "run_updated_at r" 1000]
    by (intro iffI) linarith+
  then have "after_cursor cursor r \<longleftrightarrow> run_updated_at r mod 1000 \<noteq> 0"
    using js_date_le [of "run_updated_at r"]
    by (auto simp: cursor_def after_cursor_def page_key_def decode_run_def less_prod_def)
  moreover have "after_cursor cursor r'" if "page_key r < page_key r'" for r'
    using that js_date_le [of "run_updated_at r"]
    by (auto simp: cursor_def after_cursor_def page_key_def decode_run_def less_prod_def)
  ultimately show ?thesis by blast
qed

theorem page_cursor_relists_its_run_witness:
  "after_cursor (Some (1000, ''r1'')) ((hd (runs sample_db))\<lparr>run_updated_at := 1500\<rparr>)"
  using page_cursor_relists_its_run [of "(hd (runs sample_db))\<lparr>run_updated_at := 1500\<rparr>"]
  by (simp add: sample_db_rows decode_run_def js_date_def)

subsection \<open>Table names\<close>

text \<open>A table prefix is either refused or gives two distinct table names within the 63 bytes that
  PostgreSQL keeps of an identifier.\<close>

theorem table_names_fit:
  assumes "workflow_table_names prefix = Some (command_table, run_table)"
  shows "length command_table \<le> 63 \<and> length run_table \<le> 63 \<and> command_table \<noteq> run_table"
proof -
  have trimmed: "length (dropWhile P (rev p)) \<le> length p" for P :: "char \<Rightarrow> bool" and p
    using length_dropWhile_le [of P "rev p"] by simp
  obtain n where n: "normalize_prefix prefix = Some n" "command_table = n @ ''workflow_command''"
    "run_table = n @ ''workflow_run''"
    using assms by (auto simp: workflow_table_names_def)
  have "length n \<le> 47"
    using n(1) trimmed
    by (auto simp: normalize_prefix_def valid_table_prefix_def split: option.splits if_splits
        intro: le_trans [OF trimmed])
  with n show ?thesis by simp
qed

theorem table_names_fit_witness:
  "length ''sheet_workflow_command'' \<le> 63 \<and> ''sheet_workflow_command'' \<noteq> ''sheet_workflow_run''"
proof -
  have "workflow_table_names (Some ''sheet__'') = Some (''sheet_workflow_command'', ''sheet_workflow_run'')"
    by code_simp
  from table_names_fit [OF this] show ?thesis by simp
qed

end
