(* ===== verification/WorkflowContracts.thy ===== *)
theory WorkflowContracts
  imports Json
begin

text \<open>
  Workflow contracts on the server side (\<^verbatim>\<open>contract.ts\<close>, \<^verbatim>\<open>contract-server.ts\<close>):
  contract keys, invocation fingerprints and their reuse check, the registration check, the
  private execution payload, the materialisation of a stored run for an observer, and the
  transport handler over any invocation store. What the schema library and the crypto library
  compute (decoders and encoders of a contract, UUID syntax, SHA-256) is a parameter.
\<close>

subsection \<open>Contracts and their keys\<close>

text \<open>
  A published declaration. \<open>ct_object\<close> stands for the identity of the declaration object,
  which the code compares with \<open>!==\<close>; the functions are the codecs of its schemas.
\<close>

record ('i, 's, 'f) workflow_contract =
  ct_object :: nat
  ct_identity :: string
  ct_wire_version :: string
  ct_decode_input :: "json \<Rightarrow> 'i option"
  ct_encode_input :: "'i \<Rightarrow> json option"
  ct_decode_success :: "json \<Rightarrow> 's option"
  ct_decode_failure :: "json \<Rightarrow> 'f option"

definition contract_key_text :: "string \<Rightarrow> string \<Rightarrow> string" where
  "contract_key_text identity version = json_stringify (\<lambda>_. []) (JArr [JStr identity, JStr version])"

definition workflow_contract_key :: "('i, 's, 'f) workflow_contract \<Rightarrow> string" where
  "workflow_contract_key c = contract_key_text (ct_identity c) (ct_wire_version c)"

record run_reference =
  ref_invocation_id :: string
  ref_contract_identity :: string
  ref_wire_version :: string

definition make_run_reference :: "('i, 's, 'f) workflow_contract \<Rightarrow> string \<Rightarrow> run_reference" where
  "make_run_reference c iid =
     \<lparr>ref_invocation_id = iid, ref_contract_identity = ct_identity c,
      ref_wire_version = ct_wire_version c\<rparr>"

text \<open>A trimmed, nonempty string. White space is the part of \<open>trim\<close>'s set below 256.\<close>

definition is_js_space :: "char \<Rightarrow> bool" where
  "is_js_space c \<longleftrightarrow> (let n = (of_char c :: nat) in 9 \<le> n \<and> n \<le> 13 \<or> n = 32 \<or> n = 160)"

definition is_stable_identifier :: "string \<Rightarrow> bool" where
  "is_stable_identifier s \<longleftrightarrow> s \<noteq> [] \<and> \<not> is_js_space (hd s) \<and> \<not> is_js_space (last s)"

subsection \<open>Fingerprints\<close>

record invocation_fingerprint =
  fp_invocation_id :: string
  fp_contract_identity :: string
  fp_wire_version :: string
  fp_canonical_input_hash :: string

datatype conflict_reason = ContractIdentityMismatch | WireVersionMismatch | CanonicalInputMismatch

record invocation_conflict =
  ic_invocation_id :: string
  ic_reason :: conflict_reason
  ic_existing :: "string \<times> string"
  ic_requested :: "string \<times> string"

definition contract_reference :: "invocation_fingerprint \<Rightarrow> string \<times> string" where
  "contract_reference f = (fp_contract_identity f, fp_wire_version f)"

definition validate_invocation_reuse ::
    "invocation_fingerprint \<Rightarrow> invocation_fingerprint \<Rightarrow> invocation_conflict option" where
  "validate_invocation_reuse existing requested =
     (if fp_invocation_id existing \<noteq> fp_invocation_id requested then None
      else
        let reason =
          (if fp_contract_identity existing \<noteq> fp_contract_identity requested
           then Some ContractIdentityMismatch
           else if fp_wire_version existing \<noteq> fp_wire_version requested
           then Some WireVersionMismatch
           else if fp_canonical_input_hash existing \<noteq> fp_canonical_input_hash requested
           then Some CanonicalInputMismatch
           else None)
        in map_option (\<lambda>r. \<lparr>ic_invocation_id = fp_invocation_id requested, ic_reason = r,
              ic_existing = contract_reference existing,
              ic_requested = contract_reference requested\<rparr>) reason)"

definition decode_fingerprint ::
    "(string \<Rightarrow> bool) \<Rightarrow> invocation_fingerprint \<Rightarrow> invocation_fingerprint option" where
  "decode_fingerprint is_uuid f =
     (if is_uuid (fp_invocation_id f) \<and> is_stable_identifier (fp_contract_identity f) \<and>
         is_stable_identifier (fp_wire_version f) \<and> is_stable_identifier (fp_canonical_input_hash f)
      then Some f else None)"

subsection \<open>Registrations\<close>

datatype registration_reason =
    DuplicatePublishedContract | DuplicateRegistration | MissingRegistration
  | UnexpectedRegistration | IncompatibleRegistration

text \<open>A failed check names the reason and the contract it is about.\<close>

type_synonym registration_error = "registration_reason \<times> string \<times> string"

definition registration_error ::
    "registration_reason \<Rightarrow> ('i, 's, 'f) workflow_contract \<Rightarrow> registration_error" where
  "registration_error reason c = (reason, ct_identity c, ct_wire_version c)"

fun published_by_key ::
    "(string \<rightharpoonup> ('i, 's, 'f) workflow_contract) \<Rightarrow> ('i, 's, 'f) workflow_contract list \<Rightarrow>
     registration_error + (string \<rightharpoonup> ('i, 's, 'f) workflow_contract)" where
  "published_by_key m [] = Inr m"
| "published_by_key m (c # cs) =
     (if m (workflow_contract_key c) \<noteq> None
      then Inl (registration_error DuplicatePublishedContract c)
      else published_by_key (m(workflow_contract_key c \<mapsto> c)) cs)"

fun registrations_by_key ::
    "(string \<rightharpoonup> ('i, 's, 'f) workflow_contract) \<Rightarrow> ('r \<Rightarrow> ('i, 's, 'f) workflow_contract) \<Rightarrow>
     (string \<rightharpoonup> 'r) \<Rightarrow> 'r list \<Rightarrow> registration_error + (string \<rightharpoonup> 'r)" where
  "registrations_by_key pub contract_of m [] = Inr m"
| "registrations_by_key pub contract_of m (r # rs) =
     (let key = workflow_contract_key (contract_of r) in
      if m key \<noteq> None then Inl (registration_error DuplicateRegistration (contract_of r))
      else case pub key of
        None \<Rightarrow> Inl (registration_error UnexpectedRegistration (contract_of r))
      | Some c \<Rightarrow>
          if ct_object c \<noteq> ct_object (contract_of r)
          then Inl (registration_error IncompatibleRegistration (contract_of r))
          else registrations_by_key pub contract_of (m(key \<mapsto> r)) rs)"

definition validate_workflow_contract_registrations ::
    "('r \<Rightarrow> ('i, 's, 'f) workflow_contract) \<Rightarrow> ('i, 's, 'f) workflow_contract list \<Rightarrow> 'r list \<Rightarrow>
     registration_error + (string \<rightharpoonup> 'r)" where
  "validate_workflow_contract_registrations contract_of published registrations =
     (case published_by_key Map.empty published of
        Inl e \<Rightarrow> Inl e
      | Inr pub \<Rightarrow>
          (case registrations_by_key pub contract_of Map.empty registrations of
             Inl e \<Rightarrow> Inl e
           | Inr regs \<Rightarrow>
               (case List.find (\<lambda>c. regs (workflow_contract_key c) = None) published of
                  Some c \<Rightarrow> Inl (registration_error MissingRegistration c)
                | None \<Rightarrow> Inr regs)))"

subsection \<open>Accepted invocations\<close>

record accepted_invocation =
  acc_fingerprint :: invocation_fingerprint
  acc_workflow_name :: string
  acc_definition_version :: string
  acc_owner_key :: string
  acc_principal :: json
  acc_actor_provenance :: "json option"
  acc_accepted_at :: "int option"
  acc_input :: json

definition workflow_contract_execution_payload :: "accepted_invocation \<Rightarrow> json" where
  "workflow_contract_execution_payload a =
     JObj ([(''invocationId'', JStr (fp_invocation_id (acc_fingerprint a))),
            (''input'', acc_input a),
            (''principal'', acc_principal a)] @
           (case acc_accepted_at a of None \<Rightarrow> [] | Some t \<Rightarrow> [(''acceptedAt'', JNum (of_int t))]) @
           (case acc_actor_provenance a of None \<Rightarrow> [] | Some p \<Rightarrow> [(''actorProvenance'', p)]))"

definition bytes_to_hex :: "string \<Rightarrow> string" where
  "bytes_to_hex bytes = concat (map (\<lambda>b. hex_byte (of_char b)) bytes)"

text \<open>\<open>sha256\<close> maps the bytes of a text to the bytes of its digest.\<close>

definition effect_workflow_execution_id :: "(string \<Rightarrow> string) \<Rightarrow> string \<Rightarrow> string \<Rightarrow> string" where
  "effect_workflow_execution_id sha256 name iid = take 32 (bytes_to_hex (sha256 (name @ ''-'' @ iid)))"

datatype enqueue_error =
    WorkflowInputRejected string
  | WorkflowInvocationUnauthorized string
  | InvocationConflict invocation_conflict
  | WorkflowTransportUnavailable string
  | EnqueueDefect string  \<comment> \<open>an exception or a decoder's error outside the declared errors\<close>

definition canonical_workflow_contract_input ::
    "(string \<Rightarrow> string) \<Rightarrow> (rat \<Rightarrow> string) \<Rightarrow> ('i, 's, 'f) workflow_contract \<Rightarrow> 'i \<Rightarrow>
     enqueue_error + (json \<times> string)" where
  "canonical_workflow_contract_input sha256 num c input =
     (case ct_encode_input c input of
        None \<Rightarrow> Inl (WorkflowInputRejected ''Workflow input is invalid'')
      | Some encoded \<Rightarrow>
          Inr (encoded, ''sha256:'' @ bytes_to_hex (sha256 (stable_json num encoded))))"

subsection \<open>Materialising a stored run\<close>

text \<open>Timestamps reach the observer as a \<open>Date\<close>, a number or a text.\<close>

datatype date_value = DateObject "int option" | DateNumber js_number | DateText string

definition time_clip :: "js_number \<Rightarrow> int option" where
  "time_clip n =
     (case n of JsFinite q \<Rightarrow> if \<bar>q\<bar> \<le> 8640000000000000 then Some (math_trunc q) else None
      | _ \<Rightarrow> None)"

text \<open>\<open>toISOString\<close> throws on an invalid date; its text stands for the instant itself.\<close>

definition date_from_unknown :: "(string \<Rightarrow> int option) \<Rightarrow> date_value \<Rightarrow> int option" where
  "date_from_unknown parse v =
     (case v of DateObject d \<Rightarrow> d | DateNumber n \<Rightarrow> time_clip n | DateText s \<Rightarrow> parse s)"

datatype stored_status = StoredPending | StoredRunning | StoredSucceeded | StoredFailed | StoredCancelled

record materialized_row =
  mat_run_id :: string
  mat_status :: stored_status
  mat_result :: json
  mat_error :: json
  mat_completed_at :: "date_value option"
  mat_created_at :: date_value
  mat_updated_at :: date_value

datatype pending_phase = Queued | Running

datatype system_failure_code = RetriesExhausted | UnexpectedFailure | Cancelled | DefinitionUnavailable

datatype 'f workflow_failure = Declared 'f | System system_failure_code bool

datatype ('s, 'f) workflow_result =
    Pending pending_phase | Success 's int | Failure "'f workflow_failure" int

record ('s, 'f) observed_run =
  obs_reference :: run_reference
  obs_result :: "('s, 'f) workflow_result"
  obs_submitted_at :: int
  obs_updated_at :: int

definition decode_system_code :: "json \<Rightarrow> system_failure_code option" where
  "decode_system_code v =
     (if v = JStr ''RetriesExhausted'' then Some RetriesExhausted
      else if v = JStr ''UnexpectedFailure'' then Some UnexpectedFailure
      else if v = JStr ''Cancelled'' then Some Cancelled
      else if v = JStr ''DefinitionUnavailable'' then Some DefinitionUnavailable
      else None)"

definition decode_workflow_failure :: "(json \<Rightarrow> 'f option) \<Rightarrow> json \<Rightarrow> 'f workflow_failure option" where
  "decode_workflow_failure decode v =
     (case v of
        JObj kvs \<Rightarrow>
          (case map_of kvs ''_tag'' of
             Some (JStr tag) \<Rightarrow>
               if tag = ''Declared'' then
                 (case map_of kvs ''error'' of None \<Rightarrow> None | Some e \<Rightarrow> map_option Declared (decode e))
               else if tag = ''System'' then
                 (case (map_of kvs ''code'', map_of kvs ''retryable'') of
                    (Some code, Some (JBool r)) \<Rightarrow> map_option (\<lambda>c. System c r) (decode_system_code code)
                  | _ \<Rightarrow> None)
               else None
           | _ \<Rightarrow> None)
      | _ \<Rightarrow> None)"

datatype observation_error =
    ObservationUnauthorized string | ObservationInvalidData string | ObservationDefect string

definition cancelled_failure :: json where
  "cancelled_failure =
     JObj [(''_tag'', JStr ''System''), (''code'', JStr ''Cancelled''), (''retryable'', JBool False)]"

definition materialize_workflow_run ::
    "(string \<Rightarrow> bool) \<Rightarrow> (string \<Rightarrow> int option) \<Rightarrow> ('i, 's, 'f) workflow_contract \<Rightarrow>
     materialized_row \<Rightarrow> observation_error + ('s, 'f) observed_run" where
  "materialize_workflow_run is_uuid parse c row =
     (let bad_date = Inl (ObservationInvalidData ''Stored workflow timestamp is not a valid date'');
          bad_outcome = Inl (ObservationInvalidData
            ''Stored workflow outcome does not match its published contract'');
          completed = (case mat_completed_at row of None \<Rightarrow> Some None
                       | Some v \<Rightarrow> map_option Some (date_from_unknown parse v))
      in case completed of
           None \<Rightarrow> bad_date
         | Some completedAt \<Rightarrow>
      (case date_from_unknown parse (mat_created_at row) of
           None \<Rightarrow> bad_date
         | Some submitted \<Rightarrow>
      (case date_from_unknown parse (mat_updated_at row) of
           None \<Rightarrow> bad_date
         | Some updated \<Rightarrow>
           if \<not> is_uuid (mat_run_id row)
           then Inl (ObservationInvalidData
             ''Stored workflow run identifier is not a valid invocation id'')
           else
             let result = (case mat_status row of
                 StoredPending \<Rightarrow> Some (Pending Queued)
               | StoredRunning \<Rightarrow> Some (Pending Running)
               | StoredSucceeded \<Rightarrow> (case (ct_decode_success c (mat_result row), completedAt) of
                     (Some v, Some t) \<Rightarrow> Some (Success v t) | _ \<Rightarrow> None)
               | StoredFailed \<Rightarrow> (case (decode_workflow_failure (ct_decode_failure c) (mat_error row), completedAt) of
                     (Some f, Some t) \<Rightarrow> Some (Failure f t) | _ \<Rightarrow> None)
               | StoredCancelled \<Rightarrow>
                   (case (decode_workflow_failure (ct_decode_failure c) cancelled_failure, completedAt) of
                     (Some f, Some t) \<Rightarrow> Some (Failure f t) | _ \<Rightarrow> None))
             in (case result of
                   None \<Rightarrow> bad_outcome
                 | Some res \<Rightarrow>
                     Inr \<lparr>obs_reference = make_run_reference c (mat_run_id row), obs_result = res,
                               obs_submitted_at = submitted, obs_updated_at = updated\<rparr>))))"

subsection \<open>The transport handler\<close>

record invocation_context =
  ctx_owner_key :: string
  ctx_principal :: json
  ctx_actor_provenance :: "json option"

record ('i, 's, 'f) contract_registration =
  reg_contract :: "('i, 's, 'f) workflow_contract"
  reg_definition_version :: string
  reg_authorize :: "invocation_context \<Rightarrow> 'i \<Rightarrow> enqueue_error option"
  reg_authorize_observation :: "invocation_context \<Rightarrow> bool"

definition transport_enqueue ::
    "(string \<Rightarrow> string) \<Rightarrow> (rat \<Rightarrow> string) \<Rightarrow>
     (string \<rightharpoonup> ('i, 's, 'f) contract_registration) \<Rightarrow>
     (accepted_invocation \<Rightarrow> (enqueue_error, invocation_fingerprint, 'db) txn) \<Rightarrow> int \<Rightarrow>
     ('i, 's, 'f) workflow_contract \<Rightarrow> invocation_context \<Rightarrow> string \<Rightarrow> json \<Rightarrow>
     (enqueue_error, run_reference, 'db) txn" where
  "transport_enqueue sha256 num registrations store_enqueue now c ctx iid raw =
     (case registrations (workflow_contract_key c) of
        None \<Rightarrow> txn_fail (EnqueueDefect ''Validated Workflow Contract registration is missing'')
      | Some registration \<Rightarrow>
     (case ct_decode_input c raw of
        None \<Rightarrow> txn_fail (WorkflowInputRejected ''Workflow input is invalid'')
      | Some input \<Rightarrow>
     (case reg_authorize registration ctx input of
        Some e \<Rightarrow> txn_fail e
      | None \<Rightarrow>
     (case canonical_workflow_contract_input sha256 num c input of
        Inl e \<Rightarrow> txn_fail e
      | Inr (encoded, hash) \<Rightarrow>
          let requested = \<lparr>fp_invocation_id = iid, fp_contract_identity = ct_identity c,
                fp_wire_version = ct_wire_version c, fp_canonical_input_hash = hash\<rparr>
          in txn_bind (store_enqueue
               \<lparr>acc_fingerprint = requested, acc_workflow_name = workflow_contract_key c,
                acc_definition_version = reg_definition_version registration,
                acc_owner_key = ctx_owner_key ctx, acc_principal = ctx_principal ctx,
                acc_actor_provenance = ctx_actor_provenance ctx, acc_accepted_at = Some now,
                acc_input = encoded\<rparr>)
             (\<lambda>accepted. case validate_invocation_reuse accepted requested of
                Some conflict \<Rightarrow> txn_fail (InvocationConflict conflict)
              | None \<Rightarrow> txn_return (make_run_reference c iid))))))"

definition authorize_observation ::
    "('i, 's, 'f) contract_registration \<Rightarrow> invocation_context \<Rightarrow> observation_error option" where
  "authorize_observation registration ctx =
     (if reg_authorize_observation registration ctx then None
      else Some (ObservationUnauthorized ''Workflow observation is unauthorized''))"

definition transport_get ::
    "(string \<Rightarrow> bool) \<Rightarrow> (string \<Rightarrow> int option) \<Rightarrow>
     (string \<rightharpoonup> ('i, 's, 'f) contract_registration) \<Rightarrow>
     (string \<Rightarrow> string \<Rightarrow> string \<Rightarrow> observation_error + materialized_row option) \<Rightarrow>
     ('i, 's, 'f) workflow_contract \<Rightarrow> invocation_context \<Rightarrow> string \<Rightarrow>
     observation_error + ('s, 'f) observed_run option" where
  "transport_get is_uuid parse registrations store_get c ctx iid =
     (case registrations (workflow_contract_key c) of
        None \<Rightarrow> Inl (ObservationDefect ''Validated Workflow Contract registration is missing'')
      | Some registration \<Rightarrow>
     (case authorize_observation registration ctx of
        Some e \<Rightarrow> Inl e
      | None \<Rightarrow>
     (case store_get (ctx_owner_key ctx) (workflow_contract_key c) iid of
        Inl e \<Rightarrow> Inl e
      | Inr None \<Rightarrow> Inr None
      | Inr (Some row) \<Rightarrow> map_sum id Some (materialize_workflow_run is_uuid parse c row))))"

definition default_workflow_run_list_limit :: int where
  "default_workflow_run_list_limit = 20"

text \<open>The first failing row fails the whole page.\<close>

fun traverse :: "('a \<Rightarrow> 'e + 'b) \<Rightarrow> 'a list \<Rightarrow> 'e + 'b list" where
  "traverse f [] = Inr []"
| "traverse f (x # xs) =
     (case f x of Inl e \<Rightarrow> Inl e
      | Inr y \<Rightarrow> (case traverse f xs of Inl e \<Rightarrow> Inl e | Inr ys \<Rightarrow> Inr (y # ys)))"

definition transport_list ::
    "(string \<Rightarrow> bool) \<Rightarrow> (string \<Rightarrow> int option) \<Rightarrow>
     (string \<rightharpoonup> ('i, 's, 'f) contract_registration) \<Rightarrow>
     (string \<Rightarrow> string \<Rightarrow> 'filter \<Rightarrow> int \<Rightarrow> observation_error + materialized_row list) \<Rightarrow>
     ('i, 's, 'f) workflow_contract \<Rightarrow> invocation_context \<Rightarrow> 'filter \<Rightarrow> int option \<Rightarrow>
     observation_error + ('s, 'f) observed_run list" where
  "transport_list is_uuid parse registrations store_list c ctx flt limit =
     (case registrations (workflow_contract_key c) of
        None \<Rightarrow> Inl (ObservationDefect ''Validated Workflow Contract registration is missing'')
      | Some registration \<Rightarrow>
     (case authorize_observation registration ctx of
        Some e \<Rightarrow> Inl e
      | None \<Rightarrow>
     (case store_list (ctx_owner_key ctx) (workflow_contract_key c) flt
             (case limit of None \<Rightarrow> default_workflow_run_list_limit | Some n \<Rightarrow> n) of
        Inl e \<Rightarrow> Inl e
      | Inr rows \<Rightarrow> traverse (materialize_workflow_run is_uuid parse c) rows)))"

subsection \<open>Keys and registrations\<close>

lemma contract_key_text_inject:
  "contract_key_text a v = contract_key_text b w \<longleftrightarrow> a = b \<and> v = w"
proof
  assume "contract_key_text a v = contract_key_text b w"
  then have "json_quote a @ '','' @ json_quote v @ '']'' = json_quote b @ '','' @ json_quote w @ '']''"
    by (simp add: contract_key_text_def)
  then have "a = b \<and> '','' @ json_quote v @ '']'' = '','' @ json_quote w @ '']''"
    by (rule json_quote_unambiguous)
  then show "a = b \<and> v = w"
    using json_quote_unambiguous [of v "'']''" w "'']''"] by simp
qed simp

lemma workflow_contract_key_eq_iff:
  "workflow_contract_key c = workflow_contract_key d \<longleftrightarrow>
     ct_identity c = ct_identity d \<and> ct_wire_version c = ct_wire_version d"
  by (simp add: workflow_contract_key_def contract_key_text_inject)

lemma published_by_key_ok:
  assumes "published_by_key m cs = Inr pub"
  shows "distinct (map workflow_contract_key cs) \<and>
    (\<forall>c \<in> set cs. m (workflow_contract_key c) = None \<and> pub (workflow_contract_key c) = Some c) \<and>
    (\<forall>k. k \<notin> workflow_contract_key ` set cs \<longrightarrow> pub k = m k)"
  using assms
proof (induction cs arbitrary: m)
  case (Cons c cs)
  let ?k = "workflow_contract_key c"
  have fresh: "m ?k = None" and rest: "published_by_key (m(?k \<mapsto> c)) cs = Inr pub"
    using Cons.prems by (auto split: if_splits)
  note IH = Cons.IH [OF rest]
  have others: "\<forall>x \<in> set cs. workflow_contract_key x \<noteq> ?k"
    using IH by (metis fun_upd_same option.distinct(1))
  then have new: "?k \<notin> workflow_contract_key ` set cs"
    by (metis imageE)
  with IH have "pub ?k = Some c"
    by simp
  with IH others new fresh show ?case by simp
qed simp

lemma registrations_by_key_ok:
  assumes "registrations_by_key pub contract_of m rs = Inr regs"
  shows "distinct (map (workflow_contract_key \<circ> contract_of) rs) \<and>
    (\<forall>r \<in> set rs. m (workflow_contract_key (contract_of r)) = None \<and>
       regs (workflow_contract_key (contract_of r)) = Some r \<and>
       (\<exists>c. pub (workflow_contract_key (contract_of r)) = Some c \<and> ct_object c = ct_object (contract_of r))) \<and>
    (\<forall>k. k \<notin> (workflow_contract_key \<circ> contract_of) ` set rs \<longrightarrow> regs k = m k)"
  using assms
proof (induction rs arbitrary: m)
  case (Cons r rs)
  let ?k = "workflow_contract_key (contract_of r)"
  obtain c where c: "m ?k = None" "pub ?k = Some c" "ct_object c = ct_object (contract_of r)"
    and rest: "registrations_by_key pub contract_of (m(?k \<mapsto> r)) rs = Inr regs"
    using Cons.prems by (auto simp: Let_def split: if_splits option.splits)
  note IH = Cons.IH [OF rest]
  have others: "\<forall>x \<in> set rs. workflow_contract_key (contract_of x) \<noteq> ?k"
    using IH by (metis fun_upd_same option.distinct(1))
  then have new: "?k \<notin> (workflow_contract_key \<circ> contract_of) ` set rs"
    by (metis imageE o_apply)
  then have "regs ?k = Some r"
    using IH by simp
  with IH others new c show ?case by simp
qed simp

lemma traverse_ok: "traverse f xs = Inr ys \<longleftrightarrow> list_all2 (\<lambda>x y. f x = Inr y) xs ys"
proof (induction xs arbitrary: ys)
  case (Cons x xs)
  show ?case
    by (cases ys) (auto simp: Cons.IH [symmetric] split: sum.splits)
qed auto

subsection \<open>Reuse of an invocation\<close>

lemma validate_invocation_reuse_None:
  "fp_invocation_id f = fp_invocation_id g \<Longrightarrow> validate_invocation_reuse f g = None \<longleftrightarrow> f = g"
  by (auto simp: validate_invocation_reuse_def Let_def)

lemma validate_invocation_reuse_same [simp]: "validate_invocation_reuse f f = None"
  by (simp add: validate_invocation_reuse_def)

text \<open>
  The contract between the handler and an invocation store: an acceptance returns the requested
  fingerprint and is recorded for good (\<open>later\<close> orders the states a store goes through); a
  recorded invocation is accepted again from the same owner, and refused when its fingerprint or
  its owner differ.
\<close>

locale invocation_store =
  fixes store_enqueue :: "int \<Rightarrow> accepted_invocation \<Rightarrow> (enqueue_error, invocation_fingerprint, 'db) txn"
    and recorded :: "'db \<Rightarrow> string \<Rightarrow> invocation_fingerprint \<Rightarrow> bool"
    and later :: "'db \<Rightarrow> 'db \<Rightarrow> bool"
  assumes accepts: "store_enqueue n a db = (Inr f, db') \<Longrightarrow>
      f = acc_fingerprint a \<and> recorded db' (acc_owner_key a) f"
    and keeps: "later db db' \<Longrightarrow> recorded db owner f \<Longrightarrow> recorded db' owner f"
    and again: "recorded db (acc_owner_key a) (acc_fingerprint a) \<Longrightarrow>
      store_enqueue n a db = (Inr (acc_fingerprint a), db)"
    and conflicts: "recorded db (acc_owner_key a) f \<Longrightarrow>
      fp_invocation_id f = fp_invocation_id (acc_fingerprint a) \<Longrightarrow> f \<noteq> acc_fingerprint a \<Longrightarrow>
      \<exists>c. validate_invocation_reuse f (acc_fingerprint a) = Some c \<and>
        fst (store_enqueue n a db) = Inl (InvocationConflict c)"
    and foreign: "recorded db owner f \<Longrightarrow> owner \<noteq> acc_owner_key a \<Longrightarrow>
      fp_invocation_id f = fp_invocation_id (acc_fingerprint a) \<Longrightarrow>
      fst (store_enqueue n a db) = Inl (WorkflowInvocationUnauthorized
        ''Workflow invocation is not accessible to this principal'')"
begin

lemma transport_accepts:
  assumes "transport_enqueue sha256 num regs (store_enqueue n) now c ctx iid raw db = (Inr ref, db')"
  obtains registration input encoded hash where "regs (workflow_contract_key c) = Some registration"
    and "ct_decode_input c raw = Some input" and "reg_authorize registration ctx input = None"
    and "canonical_workflow_contract_input sha256 num c input = Inr (encoded, hash)"
    and "ref = make_run_reference c iid"
    and "recorded db' (ctx_owner_key ctx) \<lparr>fp_invocation_id = iid, fp_contract_identity = ct_identity c,
        fp_wire_version = ct_wire_version c, fp_canonical_input_hash = hash\<rparr>"
proof -
  obtain registration input encoded hash where
    found: "regs (workflow_contract_key c) = Some registration" "ct_decode_input c raw = Some input"
    "reg_authorize registration ctx input = None"
    "canonical_workflow_contract_input sha256 num c input = Inr (encoded, hash)"
    using assms by (auto simp: transport_enqueue_def txn_simps split: option.splits sum.splits prod.splits)
  let ?fp = "\<lparr>fp_invocation_id = iid, fp_contract_identity = ct_identity c,
        fp_wire_version = ct_wire_version c, fp_canonical_input_hash = hash\<rparr>"
  obtain f db1 where store: "store_enqueue n
       \<lparr>acc_fingerprint = ?fp, acc_workflow_name = workflow_contract_key c,
        acc_definition_version = reg_definition_version registration,
        acc_owner_key = ctx_owner_key ctx, acc_principal = ctx_principal ctx,
        acc_actor_provenance = ctx_actor_provenance ctx, acc_accepted_at = Some now,
        acc_input = encoded\<rparr> db = (Inr f, db1)"
    and rest: "(case validate_invocation_reuse f ?fp of
          Some conflict \<Rightarrow> txn_fail (InvocationConflict conflict)
        | None \<Rightarrow> txn_return (make_run_reference c iid)) db1 = (Inr ref, db')"
    using assms found by (auto simp: transport_enqueue_def Let_def txn_bind_ok)
  then show ?thesis
    using that [OF found] accepts [OF store]
    by (auto simp: txn_simps split: option.splits)
qed

lemma transport_again:
  assumes "transport_enqueue sha256 num regs (store_enqueue n) now c ctx iid raw db = (Inr ref, db')"
    and "later db' db2" and "ctx_owner_key ctx' = ctx_owner_key ctx"
    and "\<And>registration input. regs (workflow_contract_key c) = Some registration \<Longrightarrow>
      ct_decode_input c raw = Some input \<Longrightarrow> reg_authorize registration ctx' input = None"
  shows "transport_enqueue sha256 num regs (store_enqueue n') now' c ctx' iid raw db2 = (Inr ref, db2)"
proof (rule transport_accepts [OF assms(1)])
  fix registration input encoded hash
  let ?fp = "\<lparr>fp_invocation_id = iid, fp_contract_identity = ct_identity c,
        fp_wire_version = ct_wire_version c, fp_canonical_input_hash = hash\<rparr>"
  assume found: "regs (workflow_contract_key c) = Some registration" "ct_decode_input c raw = Some input"
    "canonical_workflow_contract_input sha256 num c input = Inr (encoded, hash)"
    "ref = make_run_reference c iid" and rec: "recorded db' (ctx_owner_key ctx) ?fp"
  have "recorded db2 (ctx_owner_key ctx') ?fp"
    using keeps [OF assms(2) rec] assms(3) by simp
  then show ?thesis
    using found assms(4) again [of db2 "\<lparr>acc_fingerprint = ?fp, acc_workflow_name = workflow_contract_key c,
        acc_definition_version = reg_definition_version registration,
        acc_owner_key = ctx_owner_key ctx', acc_principal = ctx_principal ctx',
        acc_actor_provenance = ctx_actor_provenance ctx', acc_accepted_at = Some now',
        acc_input = encoded\<rparr>" n']
    by (simp add: transport_enqueue_def Let_def txn_simps)
qed

lemma transport_refuses:
  assumes "recorded db owner f" and "fp_invocation_id f = iid"
    and "regs (workflow_contract_key c) = Some registration" and "ct_decode_input c raw = Some input"
    and "reg_authorize registration ctx input = None"
    and "canonical_workflow_contract_input sha256 num c input = Inr (encoded, hash)"
    and "owner \<noteq> ctx_owner_key ctx \<or> f \<noteq> \<lparr>fp_invocation_id = iid, fp_contract_identity = ct_identity c,
        fp_wire_version = ct_wire_version c, fp_canonical_input_hash = hash\<rparr>"
  shows "\<exists>e. fst (transport_enqueue sha256 num regs (store_enqueue n) now c ctx iid raw db) = Inl e \<and>
    (owner \<noteq> ctx_owner_key ctx \<longrightarrow> e = WorkflowInvocationUnauthorized
       ''Workflow invocation is not accessible to this principal'') \<and>
    (owner = ctx_owner_key ctx \<longrightarrow> (\<exists>conflict. e = InvocationConflict conflict))"
proof -
  let ?a = "\<lparr>acc_fingerprint = \<lparr>fp_invocation_id = iid, fp_contract_identity = ct_identity c,
        fp_wire_version = ct_wire_version c, fp_canonical_input_hash = hash\<rparr>,
        acc_workflow_name = workflow_contract_key c,
        acc_definition_version = reg_definition_version registration,
        acc_owner_key = ctx_owner_key ctx, acc_principal = ctx_principal ctx,
        acc_actor_provenance = ctx_actor_provenance ctx, acc_accepted_at = Some now,
        acc_input = encoded\<rparr>"
  have "fst (transport_enqueue sha256 num regs (store_enqueue n) now c ctx iid raw db) = Inl e"
    if "fst (store_enqueue n ?a db) = Inl e" for e
    using that assms(3-6) by (cases "store_enqueue n ?a db") (auto simp: transport_enqueue_def Let_def)
  then show ?thesis
    using foreign [OF assms(1), of ?a n] conflicts [of db ?a f n] assms(1,2,7)
    by (cases "owner = ctx_owner_key ctx") auto
qed

end

subsection \<open>Properties\<close>

lemma published_by_key_succeeds:
  assumes "distinct (map workflow_contract_key cs)"
    and "\<forall>c \<in> set cs. m (workflow_contract_key c) = None"
  shows "\<exists>pub. published_by_key m cs = Inr pub"
  using assms
proof (induction cs arbitrary: m)
  case (Cons c cs)
  then have "\<forall>d \<in> set cs. workflow_contract_key d \<noteq> workflow_contract_key c"
    by (metis distinct.simps(2) image_eqI image_set list.simps(9))
  with Cons.prems have "\<forall>d \<in> set cs. (m(workflow_contract_key c \<mapsto> c)) (workflow_contract_key d) = None"
    by simp
  then show ?case
    using Cons by simp
qed simp

lemma registrations_by_key_succeeds:
  assumes "distinct (map (workflow_contract_key \<circ> contract_of) rs)"
    and "\<forall>r \<in> set rs. m (workflow_contract_key (contract_of r)) = None \<and>
      (\<exists>c. pub (workflow_contract_key (contract_of r)) = Some c \<and> ct_object c = ct_object (contract_of r))"
  shows "\<exists>regs. registrations_by_key pub contract_of m rs = Inr regs"
  using assms
proof (induction rs arbitrary: m)
  case (Cons r rs)
  let ?k = "workflow_contract_key (contract_of r)"
  have "?k \<notin> (workflow_contract_key \<circ> contract_of) ` set rs"
    using Cons.prems(1) by simp
  then have "\<forall>x \<in> set rs. workflow_contract_key (contract_of x) \<noteq> ?k"
    by (metis comp_apply image_eqI)
  with Cons.prems(2) have "\<forall>x \<in> set rs. (m(?k \<mapsto> r)) (workflow_contract_key (contract_of x)) = None \<and>
      (\<exists>c. pub (workflow_contract_key (contract_of x)) = Some c \<and> ct_object c = ct_object (contract_of x))"
    by simp
  then show ?case
    using Cons by (auto simp: Let_def)
qed simp

lemma registrations_validated:
  assumes "validate_workflow_contract_registrations contract_of published rs = Inr regs"
  shows "distinct (map workflow_contract_key published)"
    and "distinct (map (workflow_contract_key \<circ> contract_of) rs)"
    and "\<forall>r \<in> set rs. regs (workflow_contract_key (contract_of r)) = Some r \<and>
      (\<exists>c \<in> set published. workflow_contract_key c = workflow_contract_key (contract_of r) \<and>
         ct_object c = ct_object (contract_of r))"
    and "\<forall>k. k \<notin> (workflow_contract_key \<circ> contract_of) ` set rs \<longrightarrow> regs k = None"
    and "\<forall>c \<in> set published. \<exists>r \<in> set rs. workflow_contract_key (contract_of r) = workflow_contract_key c"
proof -
  obtain pub where pub: "published_by_key Map.empty published = Inr pub"
    and regs: "registrations_by_key pub contract_of Map.empty rs = Inr regs"
    and found: "List.find (\<lambda>c. regs (workflow_contract_key c) = None) published = None"
    using assms
    by (auto simp: validate_workflow_contract_registrations_def split: sum.splits option.splits)
  note P = published_by_key_ok [OF pub] and R = registrations_by_key_ok [OF regs]
  show "distinct (map workflow_contract_key published)"
    and "distinct (map (workflow_contract_key \<circ> contract_of) rs)"
    and none: "\<forall>k. k \<notin> (workflow_contract_key \<circ> contract_of) ` set rs \<longrightarrow> regs k = None"
    using P R by simp_all
  show "\<forall>c \<in> set published. \<exists>r \<in> set rs. workflow_contract_key (contract_of r) = workflow_contract_key c"
  proof
    fix c
    assume "c \<in> set published"
    then have "regs (workflow_contract_key c) \<noteq> None"
      using found by (simp add: find_None_iff)
    then have "workflow_contract_key c \<in> (workflow_contract_key \<circ> contract_of) ` set rs"
      using none by (metis (lifting))
    then show "\<exists>r \<in> set rs. workflow_contract_key (contract_of r) = workflow_contract_key c"
      by (metis comp_apply imageE)
  qed
  have "c \<in> set published \<and> workflow_contract_key c = k" if "pub k = Some c" for k c
  proof -
    have "k \<in> workflow_contract_key ` set published"
    proof (rule ccontr)
      assume "k \<notin> workflow_contract_key ` set published"
      then show False using P that by simp
    qed
    then obtain d where "d \<in> set published" "k = workflow_contract_key d"
      by blast
    with P that show ?thesis by simp
  qed
  with R show "\<forall>r \<in> set rs. regs (workflow_contract_key (contract_of r)) = Some r \<and>
      (\<exists>c \<in> set published. workflow_contract_key c = workflow_contract_key (contract_of r) \<and>
         ct_object c = ct_object (contract_of r))"
    by metis
qed

lemma registrations_validate:
  assumes "distinct (map workflow_contract_key published)"
    and "distinct (map (workflow_contract_key \<circ> contract_of) rs)"
    and "workflow_contract_key ` set published = (workflow_contract_key \<circ> contract_of) ` set rs"
    and "\<forall>r \<in> set rs. \<exists>c \<in> set published. workflow_contract_key c = workflow_contract_key (contract_of r) \<and>
         ct_object c = ct_object (contract_of r)"
  shows "\<exists>regs. validate_workflow_contract_registrations contract_of published rs = Inr regs"
proof -
  obtain pub where pub: "published_by_key Map.empty published = Inr pub"
    using published_by_key_succeeds [OF assms(1), of Map.empty] by auto
  have "\<forall>r \<in> set rs. \<exists>c. pub (workflow_contract_key (contract_of r)) = Some c \<and>
      ct_object c = ct_object (contract_of r)"
    using published_by_key_ok [OF pub] assms(4) by metis
  then obtain regs where regs: "registrations_by_key pub contract_of Map.empty rs = Inr regs"
    using registrations_by_key_succeeds [OF assms(2), of Map.empty pub] by auto
  have "regs (workflow_contract_key c) \<noteq> None" if "c \<in> set published" for c
  proof -
    have "workflow_contract_key c \<in> (workflow_contract_key \<circ> contract_of) ` set rs"
      using that assms(3) by blast
    then show ?thesis
      using registrations_by_key_ok [OF regs] by auto
  qed
  then have "List.find (\<lambda>c. regs (workflow_contract_key c) = None) published = None"
    by (simp add: find_None_iff)
  with pub regs show ?thesis
    by (simp add: validate_workflow_contract_registrations_def)
qed

text \<open>The registration check succeeds exactly when the published contracts and the registered ones
  have the same keys, each once, and every registration refers to the published declaration object
  itself; the resulting map then finds every registration under its contract's key. Keys identify
  the contract's identity and wire version.\<close>

theorem registrations_match_published:
  "((\<exists>regs. validate_workflow_contract_registrations contract_of published rs = Inr regs) \<longleftrightarrow>
      distinct (map workflow_contract_key published) \<and>
      distinct (map (workflow_contract_key \<circ> contract_of) rs) \<and>
      workflow_contract_key ` set published = (workflow_contract_key \<circ> contract_of) ` set rs \<and>
      (\<forall>r \<in> set rs. \<exists>c \<in> set published. workflow_contract_key c = workflow_contract_key (contract_of r) \<and>
         ct_object c = ct_object (contract_of r))) \<and>
    (\<forall>regs r. validate_workflow_contract_registrations contract_of published rs = Inr regs \<longrightarrow>
       r \<in> set rs \<longrightarrow> regs (workflow_contract_key (contract_of r)) = Some r) \<and>
    (workflow_contract_key c = workflow_contract_key d \<longleftrightarrow>
       ct_identity c = ct_identity d \<and> ct_wire_version c = ct_wire_version d)"
proof (intro conjI iffI)
  assume "\<exists>regs. validate_workflow_contract_registrations contract_of published rs = Inr regs"
  then obtain regs where "validate_workflow_contract_registrations contract_of published rs = Inr regs" ..
  note ok = registrations_validated [OF this]
  show "distinct (map workflow_contract_key published)" by (rule ok(1))
  show "distinct (map (workflow_contract_key \<circ> contract_of) rs)" by (rule ok(2))
  show "\<forall>r \<in> set rs. \<exists>c \<in> set published. workflow_contract_key c = workflow_contract_key (contract_of r) \<and>
         ct_object c = ct_object (contract_of r)"
    using ok(3) by blast
  show "workflow_contract_key ` set published = (workflow_contract_key \<circ> contract_of) ` set rs"
  proof (intro equalityI subsetI)
    fix k
    assume "k \<in> workflow_contract_key ` set published"
    then obtain c where "c \<in> set published" "k = workflow_contract_key c"
      by blast
    with ok(5) obtain r where "r \<in> set rs" "k = workflow_contract_key (contract_of r)"
      by metis
    then show "k \<in> (workflow_contract_key \<circ> contract_of) ` set rs"
      by (intro image_eqI [of _ _ r]) simp_all
  next
    fix k
    assume "k \<in> (workflow_contract_key \<circ> contract_of) ` set rs"
    then obtain r where "r \<in> set rs" "k = workflow_contract_key (contract_of r)"
      by auto
    with ok(3) obtain c where "c \<in> set published" "k = workflow_contract_key c"
      by metis
    then show "k \<in> workflow_contract_key ` set published"
      by simp
  qed
next
  show "\<exists>regs. validate_workflow_contract_registrations contract_of published rs = Inr regs"
    if "distinct (map workflow_contract_key published) \<and>
      distinct (map (workflow_contract_key \<circ> contract_of) rs) \<and>
      workflow_contract_key ` set published = (workflow_contract_key \<circ> contract_of) ` set rs \<and>
      (\<forall>r \<in> set rs. \<exists>c \<in> set published. workflow_contract_key c = workflow_contract_key (contract_of r) \<and>
         ct_object c = ct_object (contract_of r))"
    using that registrations_validate by blast
next
  show "\<forall>regs r. validate_workflow_contract_registrations contract_of published rs = Inr regs \<longrightarrow>
       r \<in> set rs \<longrightarrow> regs (workflow_contract_key (contract_of r)) = Some r"
    using registrations_validated(3) by blast
qed (simp_all add: workflow_contract_key_eq_iff)

definition sample_contract :: "(unit, unit, unit) workflow_contract" where
  "sample_contract =
     \<lparr>ct_object = 1, ct_identity = ''deliver'', ct_wire_version = ''1'',
      ct_decode_input = \<lambda>v. if v = JNull then Some () else None, ct_encode_input = \<lambda>_. Some JNull,
      ct_decode_success = \<lambda>_. Some (), ct_decode_failure = \<lambda>_. Some ()\<rparr>"

theorem registrations_match_published_witness:
  "\<exists>regs. validate_workflow_contract_registrations (\<lambda>c. c) [sample_contract] [sample_contract] = Inr regs \<and>
     regs (workflow_contract_key sample_contract) = Some sample_contract"
proof -
  note applied = registrations_match_published [of "\<lambda>c. c" "[sample_contract]" "[sample_contract]"
      sample_contract sample_contract]
  obtain regs where regs: "validate_workflow_contract_registrations (\<lambda>c. c) [sample_contract] [sample_contract] = Inr regs"
    using conjunct1 [OF applied] by auto
  then have "regs (workflow_contract_key sample_contract) = Some sample_contract"
    using conjunct1 [OF conjunct2 [OF applied]] by simp
  with regs show ?thesis by blast
qed

end
