(* ===== verification/WorkflowZero.thy ===== *)
theory WorkflowZero
  imports WorkflowGuarantees WorkflowContracts
begin

text \<open>
  Enqueueing inside a Zero mutation (\<^verbatim>\<open>zero/transaction.ts\<close>, \<^verbatim>\<open>zero/schemas.ts\<close>):
  the authoritative server branch on the same tables as the store, the optimistic row the client
  branch writes, and the atomic combination with a domain mutation. An error makes the whole
  server transaction roll back.
\<close>

record zero_context =
  zc_principal_id :: string
  zc_visibility_key :: string

record workflow_enqueue_request =
  wer_run_id :: string
  wer_workflow_name :: string
  wer_definition_version :: string
  wer_execution_id :: string
  wer_payload :: json
  wer_max_attempts :: "int option"
  wer_run_after :: "int option"

record run_not_accessible =
  rna_run_id :: string
  rna_visibility_key :: string
  rna_message :: string

subsection \<open>Workflows\<close>

record authoritative_run =
  ar_run_id :: string
  ar_visibility_key :: string
  ar_definition_matches :: bool
  ar_payload_matches :: bool
  ar_max_attempts_matches :: bool

definition validate_existing_run ::
    "authoritative_run \<Rightarrow> zero_context \<Rightarrow> workflow_enqueue_request \<Rightarrow> run_not_accessible + string" where
  "validate_existing_run existing ctx inp =
     (let conflict = wer_workflow_name inp @ '':'' @ wer_execution_id inp in
      if ar_visibility_key existing \<noteq> zc_visibility_key ctx then
        Inl \<lparr>rna_run_id = ar_run_id existing, rna_visibility_key = zc_visibility_key ctx,
             rna_message = ''Workflow run '' @ in_quotes conflict @ '' belongs to another visibility scope''\<rparr>
      else if \<not> ar_definition_matches existing \<or> \<not> ar_payload_matches existing \<or>
              \<not> ar_max_attempts_matches existing then
        Inl \<lparr>rna_run_id = ar_run_id existing, rna_visibility_key = zc_visibility_key ctx,
             rna_message = ''Workflow run '' @ in_quotes conflict @ '' was already enqueued with different parameters''\<rparr>
      else Inr (ar_run_id existing))"

definition run_inaccessible :: "string \<Rightarrow> zero_context \<Rightarrow> run_not_accessible" where
  "run_inaccessible rid ctx =
     \<lparr>rna_run_id = rid, rna_visibility_key = zc_visibility_key ctx,
      rna_message = ''Workflow run '' @ in_quotes rid @ '' is not accessible to this caller''\<rparr>"

definition principal_json :: "string \<Rightarrow> json" where
  "principal_json pid = JObj [(''id'', JStr pid)]"

definition requested_max_attempts :: "int option \<Rightarrow> int" where
  "requested_max_attempts n = (case n of None \<Rightarrow> default_workflow_max_attempts | Some k \<Rightarrow> k)"

text \<open>
  The first statement: a new row, or the existing one of the same workflow and execution when its
  visibility key is the caller's (the arbiter is the unique index on workflow name and
  idempotency key, which the statement sets to the execution id).
\<close>

definition insert_zero_run ::
    "int \<Rightarrow> zero_context \<Rightarrow> workflow_enqueue_request \<Rightarrow>
     (run_not_accessible, authoritative_run, workflow_db) txn" where
  "insert_zero_run now ctx inp db =
     (case List.find (\<lambda>r. workflow_name r = wer_workflow_name inp \<and>
                          idempotency_key r = wer_execution_id inp) (runs db) of
        Some r \<Rightarrow>
          if visibility_key r \<noteq> zc_visibility_key ctx
          then (Inl (run_inaccessible (wer_run_id inp) ctx), db)
          else (Inr \<lparr>ar_run_id = run_id r, ar_visibility_key = visibility_key r,
                     ar_definition_matches = (definition_version r = wer_definition_version inp),
                     ar_payload_matches = jsonb_eq (run_input r) (wer_payload inp),
                     ar_max_attempts_matches =
                       (max_attempts r = requested_max_attempts (wer_max_attempts inp))\<rparr>, db)
      | None \<Rightarrow>
          if \<exists>r \<in> set (runs db). run_id r = wer_run_id inp
          then (Inl (run_inaccessible (wer_run_id inp) ctx), db)
          else (Inr \<lparr>ar_run_id = wer_run_id inp, ar_visibility_key = zc_visibility_key ctx,
                     ar_definition_matches = True, ar_payload_matches = True,
                     ar_max_attempts_matches = True\<rparr>,
                db\<lparr>runs := runs db @
                  [\<lparr>run_id = wer_run_id inp,
                    workflow_name = wer_workflow_name inp,
                    contract_identity = None,
                    contract_wire_version = None,
                    canonical_input_hash = None,
                    definition_version = wer_definition_version inp,
                    execution_id = wer_execution_id inp,
                    idempotency_key = wer_execution_id inp,
                    visibility_key = zc_visibility_key ctx,
                    principal = Some (principal_json (zc_principal_id ctx)),
                    actor_provenance = None,
                    run_input = wer_payload inp,
                    run_status = RunPending,
                    run_result = None,
                    run_error = None,
                    max_attempts = requested_max_attempts (wer_max_attempts inp),
                    run_after = (case wer_run_after inp of None \<Rightarrow> now | Some t \<Rightarrow> t),
                    started_at = None,
                    completed_at = None,
                    run_created_at = now,
                    run_updated_at = now\<rparr>]\<rparr>))"

text \<open>\<open>INSERT \<dots> ON CONFLICT (command_id) DO NOTHING\<close>, whose outcome nobody looks at.\<close>

definition insert_start_command :: "string \<Rightarrow> json \<Rightarrow> int \<Rightarrow> int \<Rightarrow> workflow_db \<Rightarrow> workflow_db" where
  "insert_start_command rid payload available now db =
     (if lookup_by command_id (start_command_id rid) (commands db) \<noteq> None then db
      else db\<lparr>commands := commands db @
             [new_command_row (start_command_id rid) rid StartCommand payload available now]\<rparr>)"

definition enqueue_authoritative ::
    "int \<Rightarrow> zero_context \<Rightarrow> workflow_enqueue_request \<Rightarrow>
     (run_not_accessible, unit, workflow_db) txn" where
  "enqueue_authoritative now ctx inp =
     txn_bind (insert_zero_run now ctx inp) (\<lambda>existing.
       case validate_existing_run existing ctx inp of
         Inl e \<Rightarrow> txn_fail e
       | Inr rid \<Rightarrow> (\<lambda>db. (Inr (), insert_start_command rid (wer_payload inp)
             (case wer_run_after inp of None \<Rightarrow> now | Some t \<Rightarrow> t) now db)))"

text \<open>The row the client branch inserts into its own cache.\<close>

record public_workflow_run =
  pub_run_id :: string
  pub_workflow_name :: string
  pub_definition_version :: string
  pub_visibility_key :: string
  pub_status :: workflow_run_status
  pub_result :: "json option"
  pub_error :: "json option"
  pub_run_after :: int
  pub_started_at :: "int option"
  pub_completed_at :: "int option"
  pub_created_at :: int
  pub_updated_at :: int

definition optimistic_run :: "int \<Rightarrow> zero_context \<Rightarrow> workflow_enqueue_request \<Rightarrow> public_workflow_run" where
  "optimistic_run now ctx inp =
     \<lparr>pub_run_id = wer_run_id inp, pub_workflow_name = wer_workflow_name inp,
      pub_definition_version = wer_definition_version inp,
      pub_visibility_key = zc_visibility_key ctx, pub_status = RunPending,
      pub_result = None, pub_error = None,
      pub_run_after = (case wer_run_after inp of None \<Rightarrow> now | Some t \<Rightarrow> t),
      pub_started_at = None, pub_completed_at = None,
      pub_created_at = now, pub_updated_at = now\<rparr>"

definition public_run :: "workflow_run_row \<Rightarrow> public_workflow_run" where
  "public_run r =
     \<lparr>pub_run_id = run_id r, pub_workflow_name = workflow_name r,
      pub_definition_version = definition_version r, pub_visibility_key = visibility_key r,
      pub_status = run_status r, pub_result = run_result r, pub_error = run_error r,
      pub_run_after = run_after r, pub_started_at = started_at r,
      pub_completed_at = completed_at r, pub_created_at = run_created_at r,
      pub_updated_at = run_updated_at r\<rparr>"

text \<open>
  \<open>mutateWithWorkflow\<close> on the server: the domain mutation and the enqueue in one transaction.
  The database of the domain is the first component.
\<close>

definition mutate_with_workflow ::
    "('e, unit, 'd) txn \<Rightarrow> int \<Rightarrow> zero_context \<Rightarrow> workflow_enqueue_request \<Rightarrow>
     ('e + run_not_accessible, unit, 'd \<times> workflow_db) txn" where
  "mutate_with_workflow mutateDomain now ctx inp =
     with_transaction (\<lambda>(d, db).
       case mutateDomain d of
         (Inl e, d') \<Rightarrow> (Inl (Inl e), (d', db))
       | (Inr _, d') \<Rightarrow>
           (case enqueue_authoritative now ctx inp db of
              (Inl e, db') \<Rightarrow> (Inl (Inr e), (d', db'))
            | (Inr _, db') \<Rightarrow> (Inr (), (d', db'))))"

subsection \<open>Contract invocations\<close>

text \<open>
  The arbiter is the primary key here. A new row has no conflict; an existing one is returned when
  its owner is the caller, with the columns a run enqueued without a contract lacks replaced by
  defaults; the unique index on the idempotency key may still refuse the row.
\<close>

definition stored_fingerprint :: "workflow_run_row \<Rightarrow> invocation_fingerprint" where
  "stored_fingerprint r =
     \<lparr>fp_invocation_id = run_id r,
      fp_contract_identity = (case contract_identity r of None \<Rightarrow> workflow_name r | Some i \<Rightarrow> i),
      fp_wire_version = (case contract_wire_version r of None \<Rightarrow> ''legacy'' | Some v \<Rightarrow> v),
      fp_canonical_input_hash = (case canonical_input_hash r of None \<Rightarrow> ''legacy'' | Some h \<Rightarrow> h)\<rparr>"

definition invocation_inaccessible :: enqueue_error where
  "invocation_inaccessible =
     WorkflowInvocationUnauthorized ''Workflow invocation is not accessible to this principal''"

definition contract_run_row :: "string \<Rightarrow> int \<Rightarrow> accepted_invocation \<Rightarrow> workflow_run_row" where
  "contract_run_row xid now a =
     \<lparr>run_id = fp_invocation_id (acc_fingerprint a),
      workflow_name = acc_workflow_name a,
      contract_identity = Some (fp_contract_identity (acc_fingerprint a)),
      contract_wire_version = Some (fp_wire_version (acc_fingerprint a)),
      canonical_input_hash = Some (fp_canonical_input_hash (acc_fingerprint a)),
      definition_version = acc_definition_version a,
      execution_id = xid,
      idempotency_key = fp_invocation_id (acc_fingerprint a),
      visibility_key = acc_owner_key a,
      principal = Some (acc_principal a),
      actor_provenance = acc_actor_provenance a,
      run_input = acc_input a,
      run_status = RunPending,
      run_result = None,
      run_error = None,
      max_attempts = default_workflow_max_attempts,
      run_after = now,
      started_at = None,
      completed_at = None,
      run_created_at = now,
      run_updated_at = now\<rparr>"

definition insert_contract_run ::
    "string \<Rightarrow> int \<Rightarrow> accepted_invocation \<Rightarrow>
     (enqueue_error, invocation_fingerprint \<times> bool, workflow_db) txn" where
  "insert_contract_run xid now a db =
     (case lookup_by run_id (fp_invocation_id (acc_fingerprint a)) (runs db) of
        Some r \<Rightarrow>
          if visibility_key r \<noteq> acc_owner_key a then (Inl invocation_inaccessible, db)
          else (Inr (stored_fingerprint r, False), db)
      | None \<Rightarrow>
          if \<exists>r \<in> set (runs db). workflow_name r = acc_workflow_name a \<and>
               idempotency_key r = fp_invocation_id (acc_fingerprint a)
          then (Inl invocation_inaccessible, db)
          else (Inr (stored_fingerprint (contract_run_row xid now a), True),
                db\<lparr>runs := runs db @ [contract_run_row xid now a]\<rparr>))"

definition enqueue_contract_invocation ::
    "(string \<Rightarrow> bool) \<Rightarrow> (string \<Rightarrow> string) \<Rightarrow> int \<Rightarrow> accepted_invocation \<Rightarrow>
     (enqueue_error, invocation_fingerprint, workflow_db) txn" where
  "enqueue_contract_invocation is_uuid sha256 now a =
     with_transaction (txn_bind
       (insert_contract_run
         (effect_workflow_execution_id sha256 (acc_workflow_name a) (fp_invocation_id (acc_fingerprint a)))
         now a)
       (\<lambda>(stored, inserted).
          case decode_fingerprint is_uuid stored of
            None \<Rightarrow> txn_fail (EnqueueDefect ''Stored fingerprint is invalid'')
          | Some authoritative \<Rightarrow>
              (case validate_invocation_reuse authoritative (acc_fingerprint a) of
                 Some conflict \<Rightarrow> txn_fail (InvocationConflict conflict)
               | None \<Rightarrow> (\<lambda>db. (Inr authoritative,
                   if inserted
                   then insert_start_command (fp_invocation_id authoritative)
                          (workflow_contract_execution_payload a) now now db
                   else db)))))"

subsection \<open>Commands and events\<close>

record workflow_command_input =
  wci_command_id :: string
  wci_run_id :: string
  wci_kind :: workflow_command_kind
  wci_payload :: json
  wci_available_at :: "int option"

definition command_error :: "zero_context \<Rightarrow> string \<Rightarrow> string \<Rightarrow> run_not_accessible" where
  "command_error ctx rid message =
     \<lparr>rna_run_id = rid, rna_visibility_key = zc_visibility_key ctx, rna_message = message\<rparr>"

definition validate_existing_command ::
    "workflow_command_row \<Rightarrow> zero_context \<Rightarrow> workflow_command_input \<Rightarrow> run_not_accessible option" where
  "validate_existing_command existing ctx inp =
     (if command_run_id existing \<noteq> wci_run_id inp then
        Some (command_error ctx (wci_run_id inp) (''Workflow command '' @ in_quotes (wci_command_id inp) @
          '' already belongs to another workflow run''))
      else if command_kind existing \<noteq> wci_kind inp then
        Some (command_error ctx (wci_run_id inp) (''Workflow command '' @ in_quotes (wci_command_id inp) @
          '' already exists with a different kind''))
      else if \<not> jsonb_eq (command_payload existing) (wci_payload inp) then
        Some (command_error ctx (wci_run_id inp) (''Workflow command '' @ in_quotes (wci_command_id inp) @
          '' already exists with a different payload''))
      else None)"

definition target_run :: "zero_context \<Rightarrow> string \<Rightarrow> workflow_db \<Rightarrow> bool" where
  "target_run ctx rid db \<longleftrightarrow>
     (\<exists>r \<in> set (runs db). run_id r = rid \<and> visibility_key r = zc_visibility_key ctx \<and>
        \<not> is_terminal_workflow_run_status (run_status r))"

definition enqueue_command_authoritative ::
    "int \<Rightarrow> zero_context \<Rightarrow> workflow_command_input \<Rightarrow> (run_not_accessible, unit, workflow_db) txn" where
  "enqueue_command_authoritative now ctx inp db =
     (if \<not> target_run ctx (wci_run_id inp) db then
        (Inl (command_error ctx (wci_run_id inp) (''Active workflow run '' @ in_quotes (wci_run_id inp) @
           '' was not found for this caller'')), db)
      else case lookup_by command_id (wci_command_id inp) (commands db) of
        None \<Rightarrow>
          (Inr (), db\<lparr>commands := commands db @
             [new_command_row (wci_command_id inp) (wci_run_id inp) (wci_kind inp) (wci_payload inp)
                (case wci_available_at inp of None \<Rightarrow> now | Some t \<Rightarrow> t) now]\<rparr>)
      | Some c \<Rightarrow>
          if \<not> (\<exists>r \<in> set (runs db). run_id r = command_run_id c \<and> visibility_key r = zc_visibility_key ctx)
          then (Inl (command_error ctx (wci_run_id inp) (''Workflow command '' @ in_quotes (wci_command_id inp) @
             '' is no longer accessible to this caller'')), db)
          else case validate_existing_command c ctx inp of
            Some e \<Rightarrow> (Inl e, db)
          | None \<Rightarrow> (Inr (), db))"

text \<open>An event travels as a command whose payload holds the event's id and value.\<close>

record workflow_event_request =
  wev_command_id :: string
  wev_run_id :: string
  wev_event_id :: string
  wev_value :: json
  wev_available_at :: "int option"

definition enqueue_workflow_event ::
    "int \<Rightarrow> zero_context \<Rightarrow> workflow_event_request \<Rightarrow> (run_not_accessible, unit, workflow_db) txn" where
  "enqueue_workflow_event now ctx inp =
     enqueue_command_authoritative now ctx
       \<lparr>wci_command_id = wev_command_id inp, wci_run_id = wev_run_id inp, wci_kind = EventCommand,
        wci_payload = JObj [(''eventId'', JStr (wev_event_id inp)), (''value'', wev_value inp)],
        wci_available_at = wev_available_at inp\<rparr>"

text \<open>The client branch of a contract enqueue.\<close>

definition optimistic_invocation :: "int \<Rightarrow> accepted_invocation \<Rightarrow> public_workflow_run" where
  "optimistic_invocation now a =
     \<lparr>pub_run_id = fp_invocation_id (acc_fingerprint a), pub_workflow_name = acc_workflow_name a,
      pub_definition_version = acc_definition_version a, pub_visibility_key = acc_owner_key a,
      pub_status = RunPending, pub_result = None, pub_error = None, pub_run_after = now,
      pub_started_at = None, pub_completed_at = None, pub_created_at = now, pub_updated_at = now\<rparr>"

subsection \<open>Steps of all writers\<close>

inductive workflow_step ::
    "(string \<Rightarrow> bool) \<Rightarrow> (string \<Rightarrow> string) \<Rightarrow> workflow_db \<Rightarrow> workflow_db \<Rightarrow> bool"
  for is_uuid :: "string \<Rightarrow> bool" and sha256 :: "string \<Rightarrow> string"
where
  store: "workflow_step is_uuid sha256 db (store_apply a db)"
| zero_enqueue: "with_transaction (enqueue_authoritative now ctx inp) db = (res, db') \<Longrightarrow>
    workflow_step is_uuid sha256 db db'"
| zero_invocation: "enqueue_contract_invocation is_uuid sha256 now a db = (res', db') \<Longrightarrow>
    workflow_step is_uuid sha256 db db'"
| zero_command: "enqueue_command_authoritative now ctx cmd db = (res, db') \<Longrightarrow>
    workflow_step is_uuid sha256 db db'"

inductive_cases workflow_stepE: "workflow_step is_uuid sha256 db db'"

subsection \<open>What every writer keeps\<close>

lemma insert_start_command_evolves: "db_evolves db (insert_start_command rid payload available now db)"
  by (simp add: insert_start_command_def evolves_appends)

lemma insert_start_command_inv:
  "store_inv db \<Longrightarrow> rid \<in> run_ids db \<Longrightarrow> store_inv (insert_start_command rid payload available now db)"
  by (simp add: insert_start_command_def store_inv_def unique_by_append lookup_by_None)

lemma store_inv_add_run:
  assumes "store_inv db" and "\<forall>x \<in> set (runs db). run_id x \<noteq> run_id r \<and> invocation_key x \<noteq> invocation_key r"
    and "run_ok r"
  shows "store_inv (db\<lparr>runs := runs db @ [r]\<rparr>)"
  using assms by (auto simp: store_inv_def unique_by_append run_ids_def)

lemma insert_zero_run_D:
  assumes "insert_zero_run now ctx inp db = (res, db')"
  shows "db_evolves db db' \<and> (store_inv db \<longrightarrow> store_inv db') \<and>
    (\<forall>e. res = Inl e \<longrightarrow> db' = db) \<and> (\<forall>a. res = Inr a \<longrightarrow> ar_run_id a \<in> run_ids db')"
proof (cases "List.find (\<lambda>r. workflow_name r = wer_workflow_name inp \<and>
                          idempotency_key r = wer_execution_id inp) (runs db)")
  case None
  then have "\<forall>r \<in> set (runs db). invocation_key r \<noteq> (wer_workflow_name inp, wer_execution_id inp)"
    by (auto simp: find_None_iff invocation_key_def)
  then show ?thesis
    using assms None
    by (auto simp: insert_zero_run_def evolves_appends run_ids_def run_ok_def invocation_key_def
        is_terminal_workflow_run_status_def split: if_splits intro!: store_inv_add_run)
next
  case (Some r)
  then have "r \<in> set (runs db)"
    by (auto simp: find_Some_iff)
  then show ?thesis
    using assms Some by (auto simp: insert_zero_run_def run_ids_def split: if_splits)
qed

lemma validate_existing_run_ok:
  "validate_existing_run a ctx inp = Inr rid \<longleftrightarrow>
     rid = ar_run_id a \<and> ar_visibility_key a = zc_visibility_key ctx \<and> ar_definition_matches a \<and>
     ar_payload_matches a \<and> ar_max_attempts_matches a"
  by (auto simp: validate_existing_run_def Let_def)

lemma enqueue_authoritative_ok:
  assumes "enqueue_authoritative now ctx inp db = (Inr u, db')"
  obtains a db1 where "insert_zero_run now ctx inp db = (Inr a, db1)"
    and "validate_existing_run a ctx inp = Inr (ar_run_id a)"
    and "db' = insert_start_command (ar_run_id a) (wer_payload inp)
          (case wer_run_after inp of None \<Rightarrow> now | Some t \<Rightarrow> t) now db1"
proof -
  obtain a db1 where ins: "insert_zero_run now ctx inp db = (Inr a, db1)"
    and rest: "(case validate_existing_run a ctx inp of Inl e \<Rightarrow> txn_fail e
       | Inr rid \<Rightarrow> (\<lambda>db. (Inr (), insert_start_command rid (wer_payload inp)
             (case wer_run_after inp of None \<Rightarrow> now | Some t \<Rightarrow> t) now db))) db1 = (Inr u, db')"
    using assms by (auto simp: enqueue_authoritative_def txn_bind_ok)
  show ?thesis
  proof (cases "validate_existing_run a ctx inp")
    case (Inl e)
    with rest show ?thesis by (simp add: txn_simps)
  next
    case (Inr rid)
    then have "rid = ar_run_id a"
      by (simp add: validate_existing_run_ok)
    with Inr rest show ?thesis
      by (intro that [OF ins]) auto
  qed
qed

lemma zero_enqueue_keeps:
  assumes "with_transaction (enqueue_authoritative now ctx inp) db = (res, db')"
  shows "db_evolves db db'" and "store_inv db \<Longrightarrow> store_inv db'"
proof -
  have "db_evolves db db' \<and> (store_inv db \<longrightarrow> store_inv db')"
  proof (cases res)
    case (Inl e)
    then show ?thesis
      using with_transaction_error [OF assms [unfolded Inl]] by simp
  next
    case (Inr u)
    then have "enqueue_authoritative now ctx inp db = (Inr u, db')"
      using assms by (simp add: with_transaction_ok)
    then show ?thesis
    proof (rule enqueue_authoritative_ok)
      fix a db1
      assume ins: "insert_zero_run now ctx inp db = (Inr a, db1)"
        and db': "db' = insert_start_command (ar_run_id a) (wer_payload inp)
          (case wer_run_after inp of None \<Rightarrow> now | Some t \<Rightarrow> t) now db1"
      note D = insert_zero_run_D [OF ins]
      then show ?thesis
        using db' insert_start_command_evolves insert_start_command_inv
        by (auto intro: db_evolves_trans)
    qed
  qed
  then show "db_evolves db db'" and "store_inv db \<Longrightarrow> store_inv db'" by blast+
qed

lemma insert_contract_run_D:
  assumes "insert_contract_run xid now a db = (res, db')"
  shows "db_evolves db db' \<and> (store_inv db \<longrightarrow> store_inv db') \<and>
    (\<forall>e. res = Inl e \<longrightarrow> db' = db) \<and>
    (\<forall>f b. res = Inr (f, b) \<longrightarrow> fp_invocation_id f = fp_invocation_id (acc_fingerprint a) \<and>
       (\<exists>r. lookup_by run_id (fp_invocation_id f) (runs db') = Some r \<and> stored_fingerprint r = f \<and>
          visibility_key r = acc_owner_key a))"
proof (cases "lookup_by run_id (fp_invocation_id (acc_fingerprint a)) (runs db)")
  case None
  then have "\<forall>x \<in> set (runs db). run_id x \<noteq> fp_invocation_id (acc_fingerprint a)"
    by (simp add: lookup_by_None)
  then show ?thesis
    using assms None
    by (auto simp: insert_contract_run_def evolves_appends contract_run_row_def run_ok_def
        invocation_key_def is_terminal_workflow_run_status_def stored_fingerprint_def
        lookup_by_append split: if_splits intro!: store_inv_add_run)
next
  case (Some r)
  then show ?thesis
    using assms lookup_by_SomeD [OF Some]
    by (auto simp: insert_contract_run_def stored_fingerprint_def split: if_splits)
qed

lemma decode_fingerprint_Some: "decode_fingerprint u f = Some g \<Longrightarrow> g = f"
  by (simp add: decode_fingerprint_def split: if_splits)

lemma enqueue_contract_invocation_ok:
  assumes "enqueue_contract_invocation is_uuid sha256 now a db = (Inr f, db')"
  obtains db1 inserted where
    "insert_contract_run (effect_workflow_execution_id sha256 (acc_workflow_name a)
       (fp_invocation_id (acc_fingerprint a))) now a db = (Inr (f, inserted), db1)"
    and "decode_fingerprint is_uuid f = Some f" and "f = acc_fingerprint a"
    and "db' = (if inserted then insert_start_command (fp_invocation_id f)
                   (workflow_contract_execution_payload a) now now db1 else db1)"
proof -
  let ?insert = "insert_contract_run (effect_workflow_execution_id sha256
       (acc_workflow_name a) (fp_invocation_id (acc_fingerprint a))) now a"
  obtain g inserted db1 where ins: "?insert db = (Inr (g, inserted), db1)"
    and rest: "(case decode_fingerprint is_uuid g of
            None \<Rightarrow> txn_fail (EnqueueDefect ''Stored fingerprint is invalid'')
          | Some authoritative \<Rightarrow>
              (case validate_invocation_reuse authoritative (acc_fingerprint a) of
                 Some conflict \<Rightarrow> txn_fail (InvocationConflict conflict)
               | None \<Rightarrow> (\<lambda>db. (Inr authoritative,
                   if inserted
                   then insert_start_command (fp_invocation_id authoritative)
                          (workflow_contract_execution_payload a) now now db
                   else db)))) db1 = (Inr f, db')"
    using assms by (auto simp: enqueue_contract_invocation_def with_transaction_ok txn_bind_ok)
  then have dec: "decode_fingerprint is_uuid g = Some f"
    and reuse: "validate_invocation_reuse f (acc_fingerprint a) = None"
    and db': "db' = (if inserted then insert_start_command (fp_invocation_id f)
                   (workflow_contract_execution_payload a) now now db1 else db1)"
    by (auto simp: txn_simps split: option.splits)
  have "g = f"
    using decode_fingerprint_Some [OF dec] by simp
  moreover have "f = acc_fingerprint a"
    using insert_contract_run_D [OF ins] reuse \<open>g = f\<close> by (simp add: validate_invocation_reuse_None)
  ultimately show ?thesis
    using that ins dec db' by blast
qed

lemma zero_invocation_keeps:
  assumes "enqueue_contract_invocation is_uuid sha256 now a db = (res, db')"
  shows "db_evolves db db'" and "store_inv db \<Longrightarrow> store_inv db'"
proof -
  have "db_evolves db db' \<and> (store_inv db \<longrightarrow> store_inv db')"
  proof (cases res)
    case (Inl e)
    then show ?thesis
      using with_transaction_error [OF assms [unfolded Inl enqueue_contract_invocation_def]] by simp
  next
    case (Inr f)
    with assms have "enqueue_contract_invocation is_uuid sha256 now a db = (Inr f, db')" by simp
    then show ?thesis
    proof (rule enqueue_contract_invocation_ok)
      fix db1 inserted
      assume ins: "insert_contract_run (effect_workflow_execution_id sha256 (acc_workflow_name a)
         (fp_invocation_id (acc_fingerprint a))) now a db = (Inr (f, inserted), db1)"
        and db': "db' = (if inserted then insert_start_command (fp_invocation_id f)
                   (workflow_contract_execution_payload a) now now db1 else db1)"
      have ev: "db_evolves db db1" and inv: "store_inv db \<Longrightarrow> store_inv db1"
        and run: "\<exists>r. lookup_by run_id (fp_invocation_id f) (runs db1) = Some r"
        using insert_contract_run_D [OF ins] by blast+
      then obtain r where "r \<in> set (runs db1)" "run_id r = fp_invocation_id f"
        by (blast dest: lookup_by_SomeD)
      then have "fp_invocation_id f \<in> run_ids db1"
        unfolding run_ids_def by (metis imageI)
      with ev inv show ?thesis
        using db' insert_start_command_inv [of db1 "fp_invocation_id f"]
          db_evolves_trans [OF ev insert_start_command_evolves] by auto
    qed
  qed
  then show "db_evolves db db'" and "store_inv db \<Longrightarrow> store_inv db'" by blast+
qed

lemma target_run_in_run_ids: "target_run ctx rid db \<Longrightarrow> rid \<in> run_ids db"
  by (auto simp: target_run_def run_ids_def)

lemma zero_command_keeps:
  assumes "enqueue_command_authoritative now ctx cmd db = (res, db')"
  shows "db_evolves db db'" and "store_inv db \<Longrightarrow> store_inv db'"
  using assms
  by (auto simp: enqueue_command_authoritative_def evolves_appends store_inv_def
      unique_by_append lookup_by_None target_run_in_run_ids split: if_splits option.splits)

lemma workflow_step_keeps:
  "workflow_step is_uuid sha256 db db' \<Longrightarrow> store_inv db \<Longrightarrow> store_inv db' \<and> db_evolves db db'"
  by (erule workflow_stepE)
    (auto intro: store_inv_apply evolves_apply zero_enqueue_keeps zero_invocation_keeps zero_command_keeps)

lemma workflow_steps_keep:
  "(workflow_step is_uuid sha256)\<^sup>*\<^sup>* db db' \<Longrightarrow> store_inv db \<Longrightarrow> store_inv db' \<and> db_evolves db db'"
  by (induction rule: rtranclp_induct) (auto dest: workflow_step_keeps intro: db_evolves_trans)

lemma workflow_reachable_inv: "(workflow_step is_uuid sha256)\<^sup>*\<^sup>* empty_db db \<Longrightarrow> store_inv db"
  using workflow_steps_keep store_inv_empty by blast

subsection \<open>The tables as an invocation store\<close>

text \<open>An invocation is recorded when the run with its id belongs to the owner and carries the
  fingerprint.\<close>

definition invocation_recorded ::
    "(string \<Rightarrow> bool) \<Rightarrow> workflow_db \<Rightarrow> string \<Rightarrow> invocation_fingerprint \<Rightarrow> bool" where
  "invocation_recorded is_uuid db owner f \<longleftrightarrow>
     decode_fingerprint is_uuid f = Some f \<and>
     (\<exists>r. lookup_by run_id (fp_invocation_id f) (runs db) = Some r \<and> stored_fingerprint r = f \<and>
        visibility_key r = owner)"

definition tables_later :: "workflow_db \<Rightarrow> workflow_db \<Rightarrow> bool" where
  "tables_later db db' \<longleftrightarrow> db_evolves db db' \<and> unique_by run_id (runs db')"

lemma insert_start_command_runs [simp]: "runs (insert_start_command rid p t n db) = runs db"
  by (simp add: insert_start_command_def)

lemma invocation_accepted:
  assumes "enqueue_contract_invocation is_uuid sha256 n a db = (Inr f, db')"
  shows "f = acc_fingerprint a \<and> invocation_recorded is_uuid db' (acc_owner_key a) f"
  using assms
proof (rule enqueue_contract_invocation_ok)
  fix db1 inserted
  assume ins: "insert_contract_run (effect_workflow_execution_id sha256 (acc_workflow_name a)
       (fp_invocation_id (acc_fingerprint a))) n a db = (Inr (f, inserted), db1)"
    and dec: "decode_fingerprint is_uuid f = Some f" and f: "f = acc_fingerprint a"
    and db': "db' = (if inserted then insert_start_command (fp_invocation_id f)
                   (workflow_contract_execution_payload a) n n db1 else db1)"
  have "\<exists>r. lookup_by run_id (fp_invocation_id f) (runs db1) = Some r \<and> stored_fingerprint r = f \<and>
      visibility_key r = acc_owner_key a"
    using insert_contract_run_D [OF ins] by blast
  then show ?thesis
    using dec f db' by (auto simp: invocation_recorded_def)
qed

lemma invocation_kept:
  assumes "tables_later db db'" and "invocation_recorded is_uuid db owner f"
  shows "invocation_recorded is_uuid db' owner f"
proof -
  obtain r where r: "lookup_by run_id (fp_invocation_id f) (runs db) = Some r"
    "stored_fingerprint r = f" "visibility_key r = owner"
    using assms(2) by (auto simp: invocation_recorded_def)
  then obtain r' where r': "r' \<in> set (runs db')" "run_evolves r r'"
    using assms(1) evolves_runD [of db db' r] lookup_by_SomeD [OF r(1)]
    by (auto simp: tables_later_def)
  then have same: "run_columns r' = run_columns r"
    by (simp add: run_evolves_def)
  have "stored_fingerprint r' = stored_fingerprint r"
    unfolding stored_fingerprint_def run_columns_eqD [OF same] ..
  then have "stored_fingerprint r' = f" and "visibility_key r' = owner"
    using r run_columns_eqD(4) [OF same] by simp_all
  moreover have "run_id r' = fp_invocation_id f"
    using run_columns_eqD(1) [OF same] lookup_by_SomeD [OF r(1)] by simp
  then have "lookup_by run_id (fp_invocation_id f) (runs db') = Some r'"
    using r'(1) assms(1) lookup_by_unique [of run_id "runs db'" r'] by (simp add: tables_later_def)
  ultimately show ?thesis
    using assms(2) by (auto simp: invocation_recorded_def)
qed

lemma insert_contract_run_recorded:
  assumes "lookup_by run_id (fp_invocation_id (acc_fingerprint a)) (runs db) = Some r"
  shows "insert_contract_run xid n a db =
    (if visibility_key r \<noteq> acc_owner_key a then Inl invocation_inaccessible
     else Inr (stored_fingerprint r, False), db)"
  using assms by (simp add: insert_contract_run_def)

interpretation zero: invocation_store
  "enqueue_contract_invocation is_uuid sha256" "invocation_recorded is_uuid" tables_later
  for is_uuid :: "string \<Rightarrow> bool" and sha256 :: "string \<Rightarrow> string"
proof
  show "f = acc_fingerprint a \<and> invocation_recorded is_uuid db' (acc_owner_key a) f"
    if "enqueue_contract_invocation is_uuid sha256 n a db = (Inr f, db')" for n a db f db'
    using that by (rule invocation_accepted)
  show "invocation_recorded is_uuid db' owner f"
    if "tables_later db db'" "invocation_recorded is_uuid db owner f" for db db' owner f
    using that by (rule invocation_kept)
  show "enqueue_contract_invocation is_uuid sha256 n a db = (Inr (acc_fingerprint a), db)"
    if "invocation_recorded is_uuid db (acc_owner_key a) (acc_fingerprint a)" for db a n
    using that
    by (auto simp: invocation_recorded_def enqueue_contract_invocation_def with_transaction_def
        txn_bind_def insert_contract_run_recorded txn_simps)
  show "\<exists>c. validate_invocation_reuse f (acc_fingerprint a) = Some c \<and>
      fst (enqueue_contract_invocation is_uuid sha256 n a db) = Inl (InvocationConflict c)"
    if rec: "invocation_recorded is_uuid db (acc_owner_key a) f"
      and id: "fp_invocation_id f = fp_invocation_id (acc_fingerprint a)" and "f \<noteq> acc_fingerprint a"
    for db a f n
  proof -
    obtain c where "validate_invocation_reuse f (acc_fingerprint a) = Some c"
      using id \<open>f \<noteq> acc_fingerprint a\<close> validate_invocation_reuse_None by fastforce
    moreover obtain r where "lookup_by run_id (fp_invocation_id (acc_fingerprint a)) (runs db) = Some r"
      "stored_fingerprint r = f" "visibility_key r = acc_owner_key a"
      using rec id by (auto simp: invocation_recorded_def)
    ultimately show ?thesis
      using rec
      by (simp add: enqueue_contract_invocation_def with_transaction_def txn_bind_def txn_simps
          insert_contract_run_recorded invocation_recorded_def)
  qed
  show "fst (enqueue_contract_invocation is_uuid sha256 n a db) =
      Inl (WorkflowInvocationUnauthorized ''Workflow invocation is not accessible to this principal'')"
    if "invocation_recorded is_uuid db owner f" "owner \<noteq> acc_owner_key a"
      "fp_invocation_id f = fp_invocation_id (acc_fingerprint a)" for db owner a f n
    using that
    by (auto simp: invocation_recorded_def enqueue_contract_invocation_def with_transaction_def
        txn_bind_def insert_contract_run_recorded invocation_inaccessible_def)
qed

lemma tables_later_steps:
  assumes "store_inv db" and "(workflow_step is_uuid sha256)\<^sup>*\<^sup>* db db'"
  shows "tables_later db db'"
  using workflow_steps_keep [OF assms(2,1)] by (simp add: tables_later_def store_inv_def)

subsection \<open>A concrete invocation\<close>

definition sample_registration :: "(unit, unit, unit) contract_registration" where
  "sample_registration =
     \<lparr>reg_contract = sample_contract, reg_definition_version = ''1'',
      reg_authorize = \<lambda>ctx _. if ctx_owner_key ctx = [] then
        Some (WorkflowInvocationUnauthorized ''anonymous'') else None,
      reg_authorize_observation = \<lambda>_. True\<rparr>"

definition sample_context :: invocation_context where
  "sample_context = \<lparr>ctx_owner_key = ''alice'', ctx_principal = JNull, ctx_actor_provenance = None\<rparr>"

abbreviation sample_invoke ::
    "invocation_context \<Rightarrow> workflow_db \<Rightarrow> (enqueue_error + run_reference) \<times> workflow_db" where
  "sample_invoke ctx \<equiv> transport_enqueue (\<lambda>s. s) (\<lambda>_. ''0'')
     [workflow_contract_key sample_contract \<mapsto> sample_registration]
     (enqueue_contract_invocation (\<lambda>_. True) (\<lambda>s. s) 1000) 1 sample_contract ctx ''i1'' JNull"

lemma sample_invocation:
  "sample_invoke sample_context empty_db =
     (Inr (make_run_reference sample_contract ''i1''), snd (sample_invoke sample_context empty_db))"
proof -
  have "fst (sample_invoke sample_context empty_db) = Inr (make_run_reference sample_contract ''i1'')"
    by code_simp
  then show ?thesis by (simp add: prod_eq_iff)
qed

definition sample_accepted :: accepted_invocation where
  "sample_accepted =
     \<lparr>acc_fingerprint = \<lparr>fp_invocation_id = ''i1'', fp_contract_identity = ''billing'',
        fp_wire_version = ''1'', fp_canonical_input_hash = ''h1''\<rparr>,
      acc_workflow_name = ''billing@1'', acc_definition_version = ''1'', acc_owner_key = ''alice'',
      acc_principal = JNull, acc_actor_provenance = None, acc_accepted_at = Some 1, acc_input = JNull\<rparr>"

abbreviation sample_accept ::
    "accepted_invocation \<Rightarrow> workflow_db \<Rightarrow> (enqueue_error + invocation_fingerprint) \<times> workflow_db" where
  "sample_accept \<equiv> enqueue_contract_invocation (\<lambda>_. True) (\<lambda>s. s) 1000"

lemma sample_acceptance:
  "sample_accept sample_accepted empty_db =
     (Inr (acc_fingerprint sample_accepted), snd (sample_accept sample_accepted empty_db))"
proof -
  have "fst (sample_accept sample_accepted empty_db) = Inr (acc_fingerprint sample_accepted)"
    by code_simp
  then show ?thesis by (simp add: prod_eq_iff)
qed

subsection \<open>Properties\<close>

lemma transport_step:
  assumes "transport_enqueue sha256' num regs (enqueue_contract_invocation is_uuid sha256 n) t c ctx iid raw db
    = (Inr ref, db1)"
  shows "\<exists>a f. enqueue_contract_invocation is_uuid sha256 n a db = (Inr f, db1)"
  using assms
  by (auto simp: transport_enqueue_def Let_def txn_simps txn_bind_ok
      split: option.splits sum.splits prod.splits)

text \<open>A contract enqueue is idempotent: once the transport accepted an invocation, the same
  invocation id and input from the same owner are answered with the same reference and change
  nothing, whatever any writer did to the tables in between and whichever principal of that owner
  retries, provided the retry is authorised.\<close>

theorem contract_enqueue_is_idempotent:
  assumes "(workflow_step is_uuid sha256)\<^sup>*\<^sup>* empty_db db"
    and "transport_enqueue sha256 num regs (enqueue_contract_invocation is_uuid sha256 n) t c ctx iid raw db
      = (Inr ref, db1)"
    and "(workflow_step is_uuid sha256)\<^sup>*\<^sup>* db1 db2"
    and "ctx_owner_key ctx' = ctx_owner_key ctx"
    and "\<forall>registration input. regs (workflow_contract_key c) = Some registration \<longrightarrow>
      ct_decode_input c raw = Some input \<longrightarrow> reg_authorize registration ctx' input = None"
  shows "transport_enqueue sha256 num regs (enqueue_contract_invocation is_uuid sha256 n') t' c ctx' iid raw db2
    = (Inr ref, db2)"
proof -
  have "store_inv db1"
    using transport_step [OF assms(2)] zero_invocation_keeps(2) workflow_reachable_inv [OF assms(1)]
    by blast
  then have "tables_later db1 db2"
    using assms(3) by (rule tables_later_steps)
  then show ?thesis
    using zero.transport_again [OF assms(2) _ assms(4)] assms(5) by blast
qed

theorem contract_enqueue_is_idempotent_witness:
  "fst (sample_invoke (sample_context\<lparr>ctx_principal := JBool True\<rparr>)
     (snd (sample_invoke sample_context empty_db))) = Inr (make_run_reference sample_contract ''i1'')"
  using contract_enqueue_is_idempotent [OF rtranclp.rtrancl_refl sample_invocation rtranclp.rtrancl_refl,
      of "sample_context\<lparr>ctx_principal := JBool True\<rparr>" 1000 1]
  by (simp add: sample_context_def sample_registration_def)

text \<open>An accepted invocation id is taken: a different contract, wire version or canonical input
  under the same id is answered with an invocation conflict, and another owner with an
  authorisation error that does not depend on what was stored; neither changes the tables.\<close>

theorem contract_enqueue_refuses_reuse:
  assumes "(workflow_step is_uuid sha256)\<^sup>*\<^sup>* empty_db db"
    and "enqueue_contract_invocation is_uuid sha256 n a db = (Inr f, db1)"
    and "(workflow_step is_uuid sha256)\<^sup>*\<^sup>* db1 db2"
    and "fp_invocation_id (acc_fingerprint b) = fp_invocation_id (acc_fingerprint a)"
    and "acc_owner_key b \<noteq> acc_owner_key a \<or> acc_fingerprint b \<noteq> acc_fingerprint a"
  shows "snd (enqueue_contract_invocation is_uuid sha256 m b db2) = db2 \<and>
    (acc_owner_key b \<noteq> acc_owner_key a \<longrightarrow>
      fst (enqueue_contract_invocation is_uuid sha256 m b db2) = Inl (WorkflowInvocationUnauthorized
        ''Workflow invocation is not accessible to this principal'')) \<and>
    (acc_owner_key b = acc_owner_key a \<longrightarrow> (\<exists>conflict.
      fst (enqueue_contract_invocation is_uuid sha256 m b db2) = Inl (InvocationConflict conflict) \<and>
      ic_invocation_id conflict = fp_invocation_id (acc_fingerprint a)))"
proof -
  have "store_inv db1"
    using zero_invocation_keeps(2) [OF assms(2)] workflow_reachable_inv [OF assms(1)] by blast
  then have "tables_later db1 db2"
    using assms(3) by (rule tables_later_steps)
  then have rec: "invocation_recorded is_uuid db2 (acc_owner_key a) (acc_fingerprint a)"
    using zero.accepts [OF assms(2)] zero.keeps by blast
  have foreign: "fst (enqueue_contract_invocation is_uuid sha256 m b db2) =
      Inl (WorkflowInvocationUnauthorized ''Workflow invocation is not accessible to this principal'')"
    if "acc_owner_key b \<noteq> acc_owner_key a"
    using zero.foreign [OF rec, of b] assms(4) that by simp
  have same: "\<exists>conflict.
      fst (enqueue_contract_invocation is_uuid sha256 m b db2) = Inl (InvocationConflict conflict) \<and>
      ic_invocation_id conflict = fp_invocation_id (acc_fingerprint a)"
    if owner: "acc_owner_key b = acc_owner_key a"
  proof -
    obtain c where c: "validate_invocation_reuse (acc_fingerprint a) (acc_fingerprint b) = Some c"
      "fst (enqueue_contract_invocation is_uuid sha256 m b db2) = Inl (InvocationConflict c)"
      using zero.conflicts [of is_uuid db2 b "acc_fingerprint a" sha256 m] rec assms(4,5) owner by auto
    then have "ic_invocation_id c = fp_invocation_id (acc_fingerprint a)"
      using assms(4) by (auto simp: validate_invocation_reuse_def Let_def split: if_splits)
    with c show ?thesis by blast
  qed
  have "\<exists>e. fst (enqueue_contract_invocation is_uuid sha256 m b db2) = Inl e"
    using foreign same by blast
  then have "snd (enqueue_contract_invocation is_uuid sha256 m b db2) = db2"
    by (cases "enqueue_contract_invocation is_uuid sha256 m b db2")
      (auto simp: enqueue_contract_invocation_def dest: with_transaction_error)
  with foreign same show ?thesis by blast
qed

theorem contract_enqueue_refuses_reuse_witness:
  "fst (sample_accept (sample_accepted\<lparr>acc_owner_key := ''mallory''\<rparr>)
     (snd (sample_accept sample_accepted empty_db))) =
   Inl (WorkflowInvocationUnauthorized ''Workflow invocation is not accessible to this principal'')"
  using contract_enqueue_refuses_reuse [OF rtranclp.rtrancl_refl sample_acceptance rtranclp.rtrancl_refl,
      of "sample_accepted\<lparr>acc_owner_key := ''mallory''\<rparr>" 1000]
  by (simp add: sample_accepted_def)

text \<open>The authoritative row and the client's guess agree: enqueueing a workflow whose run id and
  execution are new adds exactly one run whose public columns are those of the optimistic row (the
  clocks being equal), and, its id being free, the run's start command; an existing start command
  id is left alone.\<close>

theorem zero_enqueue_confirms_optimistic_row:
  assumes "\<forall>r \<in> set (runs db). run_id r \<noteq> wer_run_id inp \<and>
      (workflow_name r, idempotency_key r) \<noteq> (wer_workflow_name inp, wer_execution_id inp)"
  shows "\<exists>r. enqueue_authoritative now ctx inp db = (Inr (), insert_start_command (wer_run_id inp)
        (wer_payload inp) (case wer_run_after inp of None \<Rightarrow> now | Some t \<Rightarrow> t) now
        (db\<lparr>runs := runs db @ [r]\<rparr>)) \<and>
      public_run r = optimistic_run now ctx inp \<and> run_input r = wer_payload inp \<and>
      execution_id r = wer_execution_id inp"
proof -
  have "List.find (\<lambda>r. workflow_name r = wer_workflow_name inp \<and>
      idempotency_key r = wer_execution_id inp) (runs db) = None"
    using assms by (auto simp: find_None_iff)
  moreover have "\<not> (\<exists>r \<in> set (runs db). run_id r = wer_run_id inp)"
    using assms by blast
  ultimately show ?thesis
    by (auto simp: enqueue_authoritative_def txn_bind_def insert_zero_run_def validate_existing_run_def
        public_run_def optimistic_run_def)
qed

definition sample_zero_context :: zero_context where
  "sample_zero_context = \<lparr>zc_principal_id = ''p'', zc_visibility_key = ''v''\<rparr>"

definition sample_request :: "string \<Rightarrow> workflow_enqueue_request" where
  "sample_request rid =
     \<lparr>wer_run_id = rid, wer_workflow_name = ''deliver'', wer_definition_version = ''1'',
      wer_execution_id = rid, wer_payload = JNull, wer_max_attempts = None, wer_run_after = None\<rparr>"

theorem zero_enqueue_confirms_optimistic_row_witness:
  "\<exists>r. fst (enqueue_authoritative 7 sample_zero_context (sample_request ''r2'') sample_db) = Inr () \<and>
     public_run r = optimistic_run 7 sample_zero_context (sample_request ''r2'')"
  using zero_enqueue_confirms_optimistic_row [of sample_db "sample_request ''r2''" 7 sample_zero_context]
  by (auto simp: sample_db_rows sample_request_def)

text \<open>C37: A start command can be lost: when a command with the id the start command would get already
  exists for another run (commands carry ids chosen by their senders), the Zero enqueue of the new
  run still succeeds but adds no command, so that no command at all exists for the new run.\<close>

theorem zero_enqueue_loses_start_command:
  assumes "store_inv db" and "wer_run_id inp \<notin> run_ids db"
    and "\<forall>r \<in> set (runs db). (workflow_name r, idempotency_key r) \<noteq> (wer_workflow_name inp, wer_execution_id inp)"
    and "c \<in> set (commands db)" and "command_id c = ''start:'' @ wer_run_id inp"
  shows "fst (enqueue_authoritative now ctx inp db) = Inr () \<and>
    wer_run_id inp \<in> run_ids (snd (enqueue_authoritative now ctx inp db)) \<and>
    (\<forall>d \<in> set (commands (snd (enqueue_authoritative now ctx inp db))). command_run_id d \<noteq> wer_run_id inp)"
proof -
  have none: "List.find (\<lambda>r. workflow_name r = wer_workflow_name inp \<and>
      idempotency_key r = wer_execution_id inp) (runs db) = None"
    using assms(3) by (auto simp: find_None_iff)
  have new: "\<not> (\<exists>r \<in> set (runs db). run_id r = wer_run_id inp)"
    using assms(2) unfolding run_ids_def by (metis imageI)
  have taken: "lookup_by command_id (start_command_id (wer_run_id inp)) (commands db) \<noteq> None"
    using assms(4,5) by (auto simp: lookup_by_None start_command_id_def)
  have "\<forall>d \<in> set (commands db). command_run_id d \<noteq> wer_run_id inp"
    using assms(1,2) by (auto simp: store_inv_def)
  then show ?thesis
    using none new taken
    by (simp add: enqueue_authoritative_def txn_bind_def insert_zero_run_def validate_existing_run_def
        insert_start_command_def run_ids_def)
qed

definition sample_blocked :: workflow_db where
  "sample_blocked = snd (enqueue_command_authoritative 5 sample_zero_context
     \<lparr>wci_command_id = ''start:r2'', wci_run_id = ''r1'', wci_kind = ResumeCommand,
      wci_payload = JNull, wci_available_at = None\<rparr> sample_db)"

lemma sample_blocked_inv: "store_inv sample_blocked"
  unfolding sample_blocked_def
  by (rule zero_command_keeps(2) [OF prod.collapse [symmetric] reachable_store_inv [OF sample_steps(1)]])

theorem zero_enqueue_loses_start_command_witness:
  "fst (enqueue_authoritative 9 sample_zero_context (sample_request ''r2'') sample_blocked) = Inr () \<and>
   ''r2'' \<notin> command_run_id ` set (commands
      (snd (enqueue_authoritative 9 sample_zero_context (sample_request ''r2'') sample_blocked)))"
proof -
  have runs: "runs sample_blocked = runs sample_db" by code_simp
  have commands: "map command_id (commands sample_blocked) = [''start:r1'', ''start:r2'']" by code_simp
  then obtain c where "c \<in> set (commands sample_blocked)" "command_id c = ''start:r2''"
    by (cases "commands sample_blocked"; cases "tl (commands sample_blocked)") auto
  then show ?thesis
    using zero_enqueue_loses_start_command [OF sample_blocked_inv, of "sample_request ''r2''" c 9 sample_zero_context]
    by (auto simp: runs sample_db_rows sample_request_def run_ids_def)
qed



text \<open>Commands and events stay within the sender's visibility: a command enqueue never changes a
  run, an error changes nothing, and on success the command with that id exists with the requested
  kind and payload for the named run, which is active and visible to the caller; a new row is added
  only when the id was free.\<close>

theorem zero_command_stays_visible:
  assumes "store_inv db" and "enqueue_command_authoritative now ctx inp db = (res, db')"
  shows "runs db' = runs db \<and>
    (case res of
       Inl e \<Rightarrow> db' = db \<and> rna_run_id e = wci_run_id inp \<and> rna_visibility_key e = zc_visibility_key ctx
     | Inr _ \<Rightarrow>
         (\<exists>r \<in> set (runs db). run_id r = wci_run_id inp \<and> visibility_key r = zc_visibility_key ctx \<and>
            \<not> is_terminal_workflow_run_status (run_status r)) \<and>
         (\<exists>c \<in> set (commands db'). command_id c = wci_command_id inp \<and>
            command_run_id c = wci_run_id inp \<and> command_kind c = wci_kind inp \<and>
            jsonb_eq (command_payload c) (wci_payload inp) \<and>
            commands db' = (if wci_command_id inp \<in> command_id ` set (commands db)
                            then commands db else commands db @ [c])))"
proof (cases "lookup_by command_id (wci_command_id inp) (commands db)")
  case None
  then have "wci_command_id inp \<notin> command_id ` set (commands db)"
    by (auto simp: lookup_by_None)
  then show ?thesis
    using assms(2) None
    by (auto simp: enqueue_command_authoritative_def target_run_def command_error_def new_command_row_def
        split: if_splits)
next
  case (Some c)
  then have c: "c \<in> set (commands db)" "command_id c = wci_command_id inp"
    by (auto dest: lookup_by_SomeD)
  then have "wci_command_id inp \<in> command_id ` set (commands db)"
    by (metis imageI)
  then show ?thesis
    using assms(2) Some c
    by (auto simp: enqueue_command_authoritative_def target_run_def command_error_def
        validate_existing_command_def split: if_splits)
qed

theorem zero_command_stays_visible_witness:
  "runs sample_blocked = runs sample_db"
proof -
  obtain res where "enqueue_command_authoritative 5 sample_zero_context
     \<lparr>wci_command_id = ''start:r2'', wci_run_id = ''r1'', wci_kind = ResumeCommand,
      wci_payload = JNull, wci_available_at = None\<rparr> sample_db = (res, sample_blocked)"
    by (simp add: sample_blocked_def prod_eq_iff)
  from zero_command_stays_visible [OF reachable_store_inv [OF sample_steps(1)] this] show ?thesis
    by blast
qed

end
