(* ===== verification/WorkflowDispatch.thy ===== *)
theory WorkflowDispatch
  imports WorkflowZero
begin

text \<open>
  The dispatcher (\<^verbatim>\<open>dispatcher.ts\<close>): it claims a batch of commands, runs the executor on
  each and settles the command by the outcome. The executor and the store are parameters of the
  definitions; what the dispatcher needs of the store is the locale \<open>command_store\<close>, which
  the workflow tables satisfy. The concurrency of the batch is covered by letting anything the
  store's clients may do happen while a command executes.
\<close>

subsection \<open>Options\<close>

definition dispatch_batch_size :: "js_number option \<Rightarrow> int" where
  "dispatch_batch_size requested =
     (case requested of Some (JsFinite q) \<Rightarrow> max 1 (math_trunc q) | _ \<Rightarrow> 25)"

definition dispatch_concurrency :: "js_number option \<Rightarrow> js_number option \<Rightarrow> int" where
  "dispatch_concurrency batch requested =
     (case requested of Some (JsFinite q) \<Rightarrow> min 100 (max 1 (math_trunc q))
      | _ \<Rightarrow> min (dispatch_batch_size batch) 25)"

definition effective_max_attempts :: "js_number option \<Rightarrow> int \<Rightarrow> int" where
  "effective_max_attempts option_max command_max =
     min command_max (case option_max of Some (JsFinite q) \<Rightarrow> max 1 (math_trunc q) | _ \<Rightarrow> command_max)"

text \<open>\<open>random\<close> is the value of \<open>Math.random()\<close>, in the half-open unit interval.\<close>

definition default_retry_delay_seconds :: "rat \<Rightarrow> nat \<Rightarrow> rat" where
  "default_retry_delay_seconds random attempt = min (2 ^ attempt) 300 * (1 / 2 + random * (1 / 2))"

subsection \<open>Outcomes\<close>

text \<open>
  A failure cause: its first error, if it has one (an \<open>Error\<close> with its message, a JSON value,
  or something else), and its printed form.
\<close>

datatype thrown_value = ErrorObject string | JsonValue json | OtherValue

record failure_cause =
  cause_error :: "thrown_value option"
  cause_pretty :: string

datatype execution_outcome = Executed | ExecutionFailed failure_cause | ExecutionInterrupted

definition error_json :: "(rat \<Rightarrow> string) \<Rightarrow> failure_cause \<Rightarrow> json" where
  "error_json num cause =
     JObj [(''message'', JStr (case cause_error cause of
        None \<Rightarrow> cause_pretty cause
      | Some (ErrorObject m) \<Rightarrow> m
      | Some (JsonValue (JStr s)) \<Rightarrow> s
      | Some (JsonValue v) \<Rightarrow> json_stringify num v
      | Some OtherValue \<Rightarrow> cause_pretty cause))]"

text \<open>
  \<open>materialize\<close> is the option \<open>materializePermanentFailure\<close>: absent, or a function
  that gives no value when it throws.
\<close>

record dispatcher_options =
  opt_max_attempts :: "js_number option"
  opt_retry_delay :: "int \<Rightarrow> int"
  opt_materialize :: "(workflow_command \<Rightarrow> failure_cause \<Rightarrow> json option) option"

definition materialize_permanent_failure ::
    "dispatcher_options \<Rightarrow> workflow_command \<Rightarrow> failure_cause \<Rightarrow> json \<Rightarrow> json" where
  "materialize_permanent_failure opts cmd cause fallback =
     (case opt_materialize opts of None \<Rightarrow> fallback
      | Some f \<Rightarrow> (case f cmd cause of None \<Rightarrow> fallback | Some v \<Rightarrow> v))"

datatype settlement = Deliver | Retry int json | FailPermanently json

definition settlement_for ::
    "(rat \<Rightarrow> string) \<Rightarrow> dispatcher_options \<Rightarrow> workflow_command \<Rightarrow> execution_outcome \<Rightarrow>
     settlement option" where
  "settlement_for num opts cmd outcome =
     (case outcome of
        ExecutionInterrupted \<Rightarrow> None
      | Executed \<Rightarrow> Some Deliver
      | ExecutionFailed cause \<Rightarrow>
          let err = error_json num cause in
          if cmd_attempts cmd \<ge> effective_max_attempts (opt_max_attempts opts) (cmd_max_attempts cmd)
          then Some (FailPermanently (materialize_permanent_failure opts cmd cause err))
          else Some (Retry (opt_retry_delay opts (cmd_attempts cmd)) err))"

text \<open>
  The batch: the first component says whether it ran to its end; an interruption stops it. A
  settlement the store could not persist is logged and leaves the command to its lease.
\<close>

fun dispatch_commands ::
    "(workflow_command \<Rightarrow> settlement \<Rightarrow> 'db \<Rightarrow> ('e + bool) \<times> 'db) \<Rightarrow>
     (workflow_command \<Rightarrow> execution_outcome \<Rightarrow> settlement option) \<Rightarrow>
     (workflow_command \<Rightarrow> 'db \<Rightarrow> execution_outcome \<times> 'db) \<Rightarrow>
     workflow_command list \<Rightarrow> 'db \<Rightarrow> bool \<times> 'db" where
  "dispatch_commands settle policy execute [] db = (True, db)"
| "dispatch_commands settle policy execute (cmd # cmds) db =
     (case execute cmd db of (outcome, db1) \<Rightarrow>
      (case policy cmd outcome of
         None \<Rightarrow> (False, db1)
       | Some s \<Rightarrow> dispatch_commands settle policy execute cmds (snd (settle cmd s db1))))"

definition dispatch_workflow_command_batch ::
    "(int \<Rightarrow> string \<Rightarrow> 'db \<Rightarrow> ('e + workflow_command list) \<times> 'db) \<Rightarrow>
     (workflow_command \<Rightarrow> settlement \<Rightarrow> 'db \<Rightarrow> ('e + bool) \<times> 'db) \<Rightarrow>
     (workflow_command \<Rightarrow> execution_outcome \<Rightarrow> settlement option) \<Rightarrow>
     (workflow_command \<Rightarrow> 'db \<Rightarrow> execution_outcome \<times> 'db) \<Rightarrow>
     js_number option \<Rightarrow> string option \<Rightarrow> 'db \<Rightarrow> nat option \<times> 'db" where
  "dispatch_workflow_command_batch claim_batch settle policy execute batch worker db =
     (case claim_batch (dispatch_batch_size batch)
             (case worker of None \<Rightarrow> ''workflow-dispatcher'' | Some w \<Rightarrow> w) db of
        (Inl _, db1) \<Rightarrow> (Some 0, db1)
      | (Inr cmds, db1) \<Rightarrow>
          (case dispatch_commands settle policy execute cmds db1 of
             (completed, db2) \<Rightarrow> (if completed then Some (length cmds) else None, db2)))"

subsection \<open>What the dispatcher needs of a store\<close>

text \<open>
  \<open>issued\<close>: the store has granted the command's lease at some time; \<open>released\<close>: the
  lease is over. Whatever the store's clients do keeps both; a persisted settlement ends the lease.
\<close>

locale command_store =
  fixes inv :: "'db \<Rightarrow> bool" and moves :: "'db \<Rightarrow> 'db \<Rightarrow> bool"
    and settle :: "workflow_command \<Rightarrow> settlement \<Rightarrow> 'db \<Rightarrow> ('e + bool) \<times> 'db"
    and issued released :: "'db \<Rightarrow> workflow_command \<Rightarrow> bool"
  assumes moves_inv: "moves db db' \<Longrightarrow> inv db \<Longrightarrow> inv db'"
    and moves_issued: "moves db db' \<Longrightarrow> inv db \<Longrightarrow> issued db cmd \<Longrightarrow> issued db' cmd"
    and moves_released: "moves db db' \<Longrightarrow> inv db \<Longrightarrow> released db cmd \<Longrightarrow> released db' cmd"
    and settle_moves: "moves db (snd (settle cmd s db))"
    and settle_releases: "inv db \<Longrightarrow> issued db cmd \<Longrightarrow> settle cmd s db = (Inr b, db') \<Longrightarrow> released db' cmd"
begin

lemma dispatch_moves:
  assumes "\<And>cmd db. moves db (snd (execute cmd db))" and "inv db"
  shows "inv (snd (dispatch_commands settle policy execute cmds db)) \<and>
    (\<forall>cmd. issued db cmd \<longrightarrow> issued (snd (dispatch_commands settle policy execute cmds db)) cmd) \<and>
    (\<forall>cmd. released db cmd \<longrightarrow> released (snd (dispatch_commands settle policy execute cmds db)) cmd)"
  using assms(2)
proof (induction cmds arbitrary: db)
  case (Cons c cmds)
  obtain outcome db1 where exec: "execute c db = (outcome, db1)"
    by fastforce
  have step: "moves db db1"
    using assms(1) [of db c] exec by simp
  note kept = moves_inv [OF step Cons.prems] moves_issued [OF step Cons.prems]
    moves_released [OF step Cons.prems]
  show ?case
  proof (cases "policy c outcome")
    case None
    then show ?thesis using exec kept by simp
  next
    case (Some s)
    note settled = settle_moves [of db1 c s]
    show ?thesis
      using Some exec kept Cons.IH [of "snd (settle c s db1)"] moves_inv [OF settled kept(1)]
        moves_issued [OF settled kept(1)] moves_released [OF settled kept(1)]
      by simp
  qed
qed simp

lemma dispatch_releases:
  assumes "\<And>cmd db. moves db (snd (execute cmd db))"
    and "\<And>cmd s db. \<exists>b. fst (settle cmd s db) = Inr b"
    and "inv db" and "\<forall>cmd \<in> set cmds. issued db cmd"
    and "dispatch_commands settle policy execute cmds db = (True, db')"
  shows "\<forall>cmd \<in> set cmds. released db' cmd"
  using assms(3-5)
proof (induction cmds arbitrary: db)
  case (Cons c cmds)
  obtain outcome db1 where exec: "execute c db = (outcome, db1)"
    by fastforce
  obtain s where s: "policy c outcome = Some s"
    and rest: "dispatch_commands settle policy execute cmds (snd (settle c s db1)) = (True, db')"
    using Cons.prems(3) exec by (auto split: option.splits)
  have step: "moves db db1"
    using assms(1) [of db c] exec by simp
  have inv1: "inv db1" and issued1: "\<forall>cmd \<in> set (c # cmds). issued db1 cmd"
    using moves_inv [OF step Cons.prems(1)] moves_issued [OF step Cons.prems(1)] Cons.prems(2) by auto
  note settled = settle_moves [of db1 c s]
  have inv2: "inv (snd (settle c s db1))" and issued2: "\<forall>cmd \<in> set cmds. issued (snd (settle c s db1)) cmd"
    using moves_inv [OF settled inv1] moves_issued [OF settled inv1] issued1 by auto
  obtain b where "settle c s db1 = (Inr b, snd (settle c s db1))"
    using assms(2) [of c s db1] by (metis prod.collapse)
  then have "released (snd (settle c s db1)) c"
    using settle_releases [OF inv1] issued1 by auto
  then have "released db' c"
    using dispatch_moves [where execute = execute and policy = policy and cmds = cmds, OF assms(1) inv2] rest by simp
  moreover have "\<forall>cmd \<in> set cmds. released db' cmd"
    by (rule Cons.IH [OF inv2 issued2 rest])
  ultimately show ?case by simp
qed simp

end

subsection \<open>The workflow tables as a command store\<close>

text \<open>The store's operations the dispatcher calls; a clock gives each settlement its times.\<close>

definition settle_in_store ::
    "(workflow_command \<Rightarrow> int \<times> int \<times> int) \<Rightarrow> workflow_command \<Rightarrow> settlement \<Rightarrow> workflow_db \<Rightarrow>
     (store_error + bool) \<times> workflow_db" where
  "settle_in_store clock cmd s db =
     (case clock cmd of (now, mark_now, db_now) \<Rightarrow>
      map_prod Inr (\<lambda>d. d)
        (case s of
           Deliver \<Rightarrow> mark_command_delivered now db_now cmd db
         | Retry delay err \<Rightarrow> retry_command now db_now cmd delay err db
         | FailPermanently err \<Rightarrow> fail_command now mark_now db_now cmd err db))"

definition claim_in_store ::
    "(string \<Rightarrow> bool) \<Rightarrow> int \<Rightarrow> int \<Rightarrow> int \<Rightarrow> string \<Rightarrow> workflow_db \<Rightarrow>
     (store_error + workflow_command list) \<times> workflow_db" where
  "claim_in_store locked lease db_now limit worker db =
     map_prod Inr (\<lambda>d. d) (claim locked lease db_now (JsFinite (of_int limit)) worker db)"

definition tables_move :: "workflow_db \<Rightarrow> workflow_db \<Rightarrow> bool" where
  "tables_move db db' \<longleftrightarrow> (store_inv db \<longrightarrow> store_inv db' \<and> db_evolves db db')"

definition lease_issued :: "workflow_db \<Rightarrow> workflow_command \<Rightarrow> bool" where
  "lease_issued db cmd \<longleftrightarrow>
     (\<exists>c \<in> set (commands db). command_id c = cmd_command_id cmd \<and> cmd_lease_token cmd \<le> lease_token c)"

definition lease_over :: "workflow_db \<Rightarrow> workflow_command \<Rightarrow> bool" where
  "lease_over db cmd \<longleftrightarrow> lease_issued db cmd \<and> (\<forall>c \<in> set (commands db). \<not> holds_lease cmd c)"

lemma store_apply_moves: "tables_move db (store_apply a db)"
  by (simp add: tables_move_def store_inv_apply evolves_apply)

lemma tables_move_trans: "tables_move a b \<Longrightarrow> tables_move b c \<Longrightarrow> tables_move a c"
  by (auto simp: tables_move_def intro: db_evolves_trans)

lemma settle_in_store_moves: "tables_move db (snd (settle_in_store clock cmd s db))"
proof -
  obtain n m t where "clock cmd = (n, m, t)"
    by (metis surj_pair)
  then show ?thesis
    using store_apply_moves [of db "MarkDelivered n t cmd"] store_apply_moves [of db "RetryCommand n t cmd d e" for d e]
      store_apply_moves [of db "FailCommand n m t cmd e" for e]
    by (cases s) (simp_all add: settle_in_store_def)
qed

lemma lease_issued_moves:
  assumes "tables_move db db'" and "store_inv db" and "lease_issued db cmd"
  shows "lease_issued db' cmd"
proof -
  obtain c where c: "c \<in> set (commands db)" "command_id c = cmd_command_id cmd"
    "cmd_lease_token cmd \<le> lease_token c"
    using assms(3) by (auto simp: lease_issued_def)
  then obtain c' where c': "c' \<in> set (commands db')" "command_evolves c c'"
    using assms(1,2) evolves_commandD by (metis tables_move_def)
  then have "command_id c' = cmd_command_id cmd" and "cmd_lease_token cmd \<le> lease_token c'"
    using c(2,3) command_columns_eqD(1) [of c' c] by (simp_all add: command_evolves_def)
  with c'(1) show ?thesis
    by (auto simp: lease_issued_def)
qed

lemma lease_over_moves:
  assumes "tables_move db db'" and "store_inv db" and "lease_over db cmd"
  shows "lease_over db' cmd"
proof -
  have ev: "db_evolves db db'" and inv': "store_inv db'"
    using assms(1,2) by (auto simp: tables_move_def)
  obtain c where c: "c \<in> set (commands db)" "command_id c = cmd_command_id cmd"
    "cmd_lease_token cmd \<le> lease_token c" "\<not> holds_lease cmd c"
    using assms(3) by (auto simp: lease_over_def lease_issued_def)
  have "\<not> holds_lease cmd c'" if c': "c' \<in> set (commands db')" for c'
  proof
    assume held: "holds_lease cmd c'"
    obtain d where d: "d \<in> set (commands db')" "command_evolves c d"
      using evolves_commandD [OF ev c(1)] by blast
    then have "command_id d = command_id c'"
      using c(2) held command_columns_eqD(1) [of d c] by (simp add: command_evolves_def holds_lease_def)
    then have "d = c'"
      using inv' c' d(1) unique_byD [of command_id "commands db'" d c'] by (simp add: store_inv_def)
    with d(2) held c(3,4) show False
      by (auto simp: command_evolves_def holds_lease_def)
  qed
  moreover have "lease_issued db' cmd"
    using lease_issued_moves [OF assms(1,2)] assms(3) by (simp add: lease_over_def)
  ultimately show ?thesis
    by (simp add: lease_over_def)
qed

lemma settle_command_over:
  assumes "s \<noteq> CommandDelivering"
  shows "\<forall>c \<in> set (commands (snd (settle_command n t cmd s d e db))). \<not> holds_lease cmd c"
  using assms by (auto simp: settle_command_simps(2) set_update_where settle_row_def holds_lease_def)

lemma mark_run_commands [simp]: "commands (mark_run n t rid s v e db) = commands db"
  by (simp add: mark_run_def)

lemma fail_command_commands:
  "commands (snd (fail_command n m t cmd e db)) =
     commands (snd (settle_command n t cmd CommandFailed None (Some e) db))"
  by (auto simp: fail_command_def split: prod.split)

lemma settle_in_store_over:
  assumes "store_inv db" and "lease_issued db cmd" and "settle_in_store clock cmd s db = (Inr b, db')"
  shows "lease_over db' cmd"
proof -
  obtain n m t where "clock cmd = (n, m, t)"
    by (metis surj_pair)
  then have "\<forall>c \<in> set (commands (snd (settle_in_store clock cmd s db))). \<not> holds_lease cmd c"
    using settle_command_over [of _ n t cmd]
    by (cases s)
      (force simp: settle_in_store_def mark_command_delivered_def retry_command_def
        fail_command_commands)+
  moreover have "lease_issued (snd (settle_in_store clock cmd s db)) cmd"
    by (rule lease_issued_moves [OF settle_in_store_moves assms(1,2)])
  ultimately show ?thesis
    using assms(3) by (simp add: lease_over_def)
qed

interpretation tables: command_store store_inv tables_move "settle_in_store clock" lease_issued lease_over
  for clock :: "workflow_command \<Rightarrow> int \<times> int \<times> int"
proof
  show "store_inv db'" if "tables_move db db'" "store_inv db" for db db'
    using that by (simp add: tables_move_def)
qed (fact lease_issued_moves lease_over_moves settle_in_store_moves settle_in_store_over)+

subsection \<open>Properties\<close>

lemma dispatch_batch_size_positive: "1 \<le> dispatch_batch_size batch"
  by (auto simp: dispatch_batch_size_def split: option.split js_number.split)

text \<open>The dispatcher's numbers stay in range whatever the options are: the batch size is positive,
  the concurrency between 1 and 100, the attempt limit never above the command's own (and positive
  when that is), and the default retry delay between half and all of the capped power of two, hence
  below 300 seconds.\<close>

theorem dispatcher_options_in_range:
  assumes "0 \<le> random" and "random < 1" and "1 \<le> command_max"
  shows "1 \<le> dispatch_batch_size batch \<and>
    1 \<le> dispatch_concurrency batch requested \<and> dispatch_concurrency batch requested \<le> 100 \<and>
    1 \<le> effective_max_attempts limit command_max \<and> effective_max_attempts limit command_max \<le> command_max \<and>
    min (2 ^ attempt) 300 / 2 \<le> default_retry_delay_seconds random attempt \<and>
    default_retry_delay_seconds random attempt < min (2 ^ attempt) 300 \<and>
    default_retry_delay_seconds random attempt < 300"
proof -
  let ?cap = "min (2 ^ attempt) 300 :: rat"
  note batch = dispatch_batch_size_positive [of batch]
  have cap: "0 < ?cap" "?cap \<le> 300"
    by simp_all
  have delay: "default_retry_delay_seconds random attempt = ?cap / 2 + ?cap * random / 2"
    by (simp add: default_retry_delay_seconds_def algebra_simps)
  have "?cap * random < ?cap * 1"
    using cap(1) assms(2) by (intro mult_strict_left_mono)
  moreover have "0 \<le> ?cap * random"
    using cap(1) assms(1) by (intro mult_nonneg_nonneg) simp_all
  ultimately have low: "?cap / 2 \<le> default_retry_delay_seconds random attempt"
    and high: "default_retry_delay_seconds random attempt < ?cap"
    unfolding delay by linarith+
  moreover have "default_retry_delay_seconds random attempt < 300"
    by (rule less_le_trans [OF high cap(2)])
  moreover have "1 \<le> dispatch_concurrency batch requested \<and> dispatch_concurrency batch requested \<le> 100"
    using batch by (auto simp: dispatch_concurrency_def split: option.split js_number.split)
  moreover have "1 \<le> effective_max_attempts limit command_max \<and> effective_max_attempts limit command_max \<le> command_max"
    using assms(3) by (auto simp: effective_max_attempts_def split: option.split js_number.split)
  ultimately show ?thesis
    using batch by blast
qed

theorem dispatcher_options_in_range_witness:
  "dispatch_concurrency None (Some JsNaN) \<le> 100 \<and> default_retry_delay_seconds (1 / 4) 12 < 300"
  using dispatcher_options_in_range [of "1 / 4" 3 None "Some JsNaN" None 12] by simp

text \<open>A batch leaves nothing behind: when it runs to its end, the commands it reports are those the
  claim returned, at most the batch size of them, and none of their leases is still held, whatever
  the executor and the other clients of the tables did meanwhile.\<close>

theorem batch_ends_its_leases:
  assumes "store_inv db"
    and "\<forall>cmd db. tables_move db (snd (execute cmd db))"
    and "dispatch_workflow_command_batch (claim_in_store locked lease t) (settle_in_store clock)
      (settlement_for num opts) execute batch worker db = (Some n, db')"
  shows "\<exists>cmds db1. claim locked lease t (JsFinite (of_int (dispatch_batch_size batch)))
        (case worker of None \<Rightarrow> ''workflow-dispatcher'' | Some w \<Rightarrow> w) db = (cmds, db1) \<and>
      n = length cmds \<and> int n \<le> dispatch_batch_size batch \<and>
      (\<forall>cmd \<in> set cmds. \<forall>c \<in> set (commands db'). \<not> holds_lease cmd c)"
proof -
  let ?w = "case worker of None \<Rightarrow> ''workflow-dispatcher'' | Some w \<Rightarrow> w"
  let ?limit = "JsFinite (of_int (dispatch_batch_size batch))"
  obtain cmds db1 where cl: "claim locked lease t ?limit ?w db = (cmds, db1)"
    by fastforce
  then have batch: "dispatch_commands (settle_in_store clock) (settlement_for num opts) execute cmds db1 = (True, db')"
    and n: "n = length cmds"
    using assms(3)
    by (auto simp: dispatch_workflow_command_batch_def claim_in_store_def split: prod.splits if_splits)
  have inv1: "store_inv db1"
    using store_inv_claim [OF assms(1), of locked lease t ?limit ?w] cl by simp
  have "lease_issued db1 cmd" if "cmd \<in> set cmds" for cmd
    using claim_settles_by [OF assms(1), of cmd locked lease t ?limit ?w] that cl
    by (auto simp: lease_issued_def holds_lease_def)
  then have "\<forall>cmd \<in> set cmds. lease_over db' cmd"
    using tables.dispatch_releases [OF _ _ inv1 _ batch] assms(2)
    by (simp add: settle_in_store_def split_beta)
  moreover have "length cmds \<le> nat (dispatch_batch_size batch)"
    using length_claim [OF assms(1), of locked lease t ?limit ?w] cl
    by (simp add: claimed_rows_def normalize_sql_limit_def dispatch_batch_size_def
        split: option.splits js_number.splits)
  ultimately show ?thesis
    using cl n dispatch_batch_size_positive [of batch] by (auto simp: lease_over_def)
qed

definition sample_options :: dispatcher_options where
  "sample_options = \<lparr>opt_max_attempts = None, opt_retry_delay = \<lambda>a. a * 1000, opt_materialize = None\<rparr>"

abbreviation sample_batch :: "execution_outcome \<Rightarrow> nat option \<times> workflow_db" where
  "sample_batch outcome \<equiv> dispatch_workflow_command_batch (claim_in_store (\<lambda>_. False) 300 2000)
     (settle_in_store (\<lambda>_. (2100, 2101, 2102))) (settlement_for (\<lambda>_. ''0'') sample_options)
     (\<lambda>_ db. (outcome, db)) None None sample_db"

theorem batch_ends_its_leases_witness:
  "\<exists>cmds. length cmds = 1 \<and>
     (\<forall>cmd \<in> set cmds. \<forall>c \<in> set (commands (snd (sample_batch Executed))). \<not> holds_lease cmd c)"
proof -
  have "fst (sample_batch Executed) = Some 1"
    by code_simp
  then have batch: "sample_batch Executed = (Some 1, snd (sample_batch Executed))"
    by (simp add: prod_eq_iff)
  have "\<forall>(cmd :: workflow_command) db. tables_move db (snd (Executed, db))"
    by (simp add: tables_move_def)
  from batch_ends_its_leases [OF reachable_store_inv [OF sample_steps(1)] this batch]
  show ?thesis by force
qed

lemma settle_held:
  assumes "store_inv db" and "c \<in> set (commands db)" and "holds_lease cmd c"
  shows "fst (settle_command n t cmd s d e db)"
    and "settle_row s (case d of None \<Rightarrow> n | Some x \<Rightarrow> n + x) e t c
      \<in> set (commands (snd (settle_command n t cmd s d e db)))"
  using assms by (auto simp: settle_command_simps set_update_where)

text \<open>What a failed delivery leads to: when the executor fails on a claimed command whose lease is
  still current, the settlement takes effect; below the attempt limit the command is pending again
  with its attempts counted, due after the retry delay, and at the limit it is failed for good and
  its run is terminal, with the failure recorded on the command.\<close>

theorem failed_delivery_is_settled:
  assumes "store_inv db" and "c \<in> set (commands db)" and "holds_lease cmd c"
    and "cmd_run_id cmd = command_run_id c" and "cmd_attempts cmd = attempts c"
    and "clock cmd = (now, mark_now, t)"
    and "settlement_for num opts cmd (ExecutionFailed cause) = Some s"
    and "settle_in_store clock cmd s db = (res, db')"
  shows "res = Inr True \<and>
    (if cmd_attempts cmd < effective_max_attempts (opt_max_attempts opts) (cmd_max_attempts cmd)
     then \<exists>c' \<in> set (commands db'). command_id c' = command_id c \<and> command_status c' = CommandPending \<and>
       attempts c' = attempts c \<and> available_at c' = now + opt_retry_delay opts (attempts c) \<and>
       last_error c' = Some (error_json num cause)
     else (\<exists>c' \<in> set (commands db'). command_id c' = command_id c \<and> command_status c' = CommandFailed \<and>
       last_error c' = Some (materialize_permanent_failure opts cmd cause (error_json num cause))) \<and>
       (\<forall>r \<in> set (runs db'). run_id r = command_run_id c \<longrightarrow> is_terminal_workflow_run_status (run_status r)))"
proof (cases "cmd_attempts cmd < effective_max_attempts (opt_max_attempts opts) (cmd_max_attempts cmd)")
  case True
  let ?d = "opt_retry_delay opts (cmd_attempts cmd)"
  have s: "s = Retry ?d (error_json num cause)"
    using assms(7) True by (simp add: settlement_for_def Let_def)
  then have res: "res = Inr (fst (settle_command now t cmd CommandPending (Some ?d) (Some (error_json num cause)) db))"
    and db': "db' = snd (settle_command now t cmd CommandPending (Some ?d) (Some (error_json num cause)) db)"
    using assms(6,8) by (auto simp: settle_in_store_def retry_command_def map_prod_def split_beta)
  note held = settle_held [OF assms(1-3), where n = now and t = t and s = CommandPending and d = "Some ?d"
      and e = "Some (error_json num cause)"]
  have "\<exists>c' \<in> set (commands db'). command_id c' = command_id c \<and> command_status c' = CommandPending \<and>
       attempts c' = attempts c \<and> available_at c' = now + opt_retry_delay opts (attempts c) \<and>
       last_error c' = Some (error_json num cause)"
    unfolding db' by (rule bexI [OF _ held(2)]) (simp add: settle_row_def assms(5))
  then show ?thesis
    using True res held(1) by simp
next
  case False
  let ?e = "materialize_permanent_failure opts cmd cause (error_json num cause)"
  let ?settle = "settle_command now t cmd CommandFailed None (Some ?e) db"
  have s: "s = FailPermanently ?e"
    using assms(7) False by (simp add: settlement_for_def Let_def)
  note held = settle_held [OF assms(1-3), where n = now and t = t and s = CommandFailed and d = None
      and e = "Some ?e"]
  have fc: "fail_command now mark_now t cmd ?e db =
      (True, mark_run mark_now t (command_run_id c) RunFailed None (Some ?e) (snd ?settle))"
    using held(1) assms(4) by (simp add: fail_command_def split_beta)
  then have res: "res = Inr True"
    and db': "db' = mark_run mark_now t (command_run_id c) RunFailed None (Some ?e) (snd ?settle)"
    using assms(6,8) s by (auto simp: settle_in_store_def)
  have "\<forall>r \<in> set (runs db'). run_id r = command_run_id c \<longrightarrow> is_terminal_workflow_run_status (run_status r)"
    by (auto simp: db' mark_run_def set_update_where mark_row_def is_terminal_workflow_run_status_def)
  moreover have "\<exists>c' \<in> set (commands db'). command_id c' = command_id c \<and>
      command_status c' = CommandFailed \<and> last_error c' = Some ?e"
    unfolding db' mark_run_commands
    by (rule bexI [OF _ held(2)]) (simp add: settle_row_def)
  ultimately show ?thesis
    using False res by simp
qed

theorem failed_delivery_is_settled_witness:
  "\<exists>c' \<in> set (commands (snd (settle_in_store (\<lambda>_. (2100, 2101, 2102)) sample_command
      (Retry 1000 (JObj [(''message'', JStr ''boom'')])) sample_claimed))).
    command_status c' = CommandPending \<and> available_at c' = 3100"
proof -
  let ?cause = "\<lparr>cause_error = Some (ErrorObject ''boom''), cause_pretty = ''boom''\<rparr>"
  let ?c = "lease_command 300 ''w'' 2000 (new_command_row ''start:r1'' ''r1'' StartCommand JNull 1001 1001)"
  have c: "?c \<in> set (commands sample_claimed)"
    by (simp add: sample_claimed_rows)
  have policy: "settlement_for (\<lambda>_. ''0'') sample_options sample_command (ExecutionFailed ?cause) =
      Some (Retry 1000 (JObj [(''message'', JStr ''boom'')]))"
    by code_simp
  have limit: "cmd_attempts sample_command <
      effective_max_attempts (opt_max_attempts sample_options) (cmd_max_attempts sample_command)"
    by code_simp
  from failed_delivery_is_settled [OF reachable_store_inv [OF sample_steps(4)] c _ _ _ _ policy prod.collapse [symmetric],
      of "\<lambda>_. (2100, 2101, 2102)" 2100 2101 2102] limit
  show ?thesis
    by (auto simp: holds_lease_def sample_command_def lease_command_def new_command_row_def sample_options_def)
qed

end
