(* ===== verification/WorkflowRuntime.thy ===== *)
theory WorkflowRuntime
  imports WorkflowDispatch
begin

text \<open>
  The runtime (\<^verbatim>\<open>runtime.ts\<close>, \<^verbatim>\<open>event.ts\<close>): the registry of workflow
  definitions and events, the executor the dispatcher runs on a claimed command, and the
  reconciliation that carries the engine's results into the run table. The workflow engine is
  third-party code: each registered workflow brings its operations on an engine state as functions.
  The state of the executor is the pair of the engine's state and the tables.
\<close>

subsection \<open>Failures\<close>

definition error_cause :: "string \<Rightarrow> failure_cause" where
  "error_cause m = \<lparr>cause_error = Some (ErrorObject m), cause_pretty = m\<rparr>"

text \<open>A cause of the engine may in addition report that a stored message could not be decoded.\<close>

record engine_cause = failure_cause +
  malformed_message :: bool

text \<open>A value of unknown type: its JSON form if it has one, and the text that describes it.\<close>

record unknown_value =
  uv_json :: "json option"
  uv_text :: string

definition json_or_description :: "unknown_value \<Rightarrow> json" where
  "json_or_description v =
     (case uv_json v of Some j \<Rightarrow> j | None \<Rightarrow> JObj [(''description'', JStr (uv_text v))])"

subsection \<open>Event identifiers\<close>

text \<open>
  \<open>encodeURIComponent\<close> and its inverse on ASCII text; an escape above 127 is a part of a
  multi-byte character and lies outside the model's strings.
\<close>

definition uri_unreserved :: "char \<Rightarrow> bool" where
  "uri_unreserved c \<longleftrightarrow> is_ident_char c \<or> c \<in> set ''-.!~*()'' \<or> c = CHR 0x27"

definition hex_digit_upper :: "nat \<Rightarrow> char" where
  "hex_digit_upper n = ''0123456789ABCDEF'' ! (n mod 16)"

definition encode_uri_component :: "string \<Rightarrow> string" where
  "encode_uri_component s = concat (map (\<lambda>c. if uri_unreserved c then [c]
     else [CHR ''%'', hex_digit_upper (of_char c div 16), hex_digit_upper (of_char c)]) s)"

definition hex_digit_value :: "char \<Rightarrow> nat option" where
  "hex_digit_value c =
     (let n = of_char c in
      if 48 \<le> n \<and> n \<le> 57 then Some (n - 48)
      else if 65 \<le> n \<and> n \<le> 70 then Some (n - 55)
      else if 97 \<le> n \<and> n \<le> 102 then Some (n - 87)
      else None)"

fun decode_uri_component :: "string \<Rightarrow> string option" where
  "decode_uri_component [] = Some []"
| "decode_uri_component (c # s) =
     (if c \<noteq> CHR ''%'' then map_option (Cons c) (decode_uri_component s)
      else case s of
        a # b # s' \<Rightarrow>
          (case (hex_digit_value a, hex_digit_value b) of
             (Some x, Some y) \<Rightarrow>
               if 16 * x + y < 128
               then map_option (Cons (char_of (16 * x + y))) (decode_uri_component s')
               else None
           | _ \<Rightarrow> None)
      | _ \<Rightarrow> None)"

definition event_deferred_prefix :: string where
  "event_deferred_prefix = ''effect-zero/workflow/event''"

definition event_prefix :: "string \<Rightarrow> string" where
  "event_prefix name = event_deferred_prefix @ ''/'' @ encode_uri_component name @ ''/''"

definition deferred_name_for :: "string \<Rightarrow> string \<Rightarrow> string" where
  "deferred_name_for name key = event_prefix name @ encode_uri_component key"

record parsed_event_id =
  ev_workflow_name :: string
  ev_execution_id :: string
  ev_event_name :: string
  ev_deferred_name :: string

text \<open>\<open>parse_token\<close> is the engine's parser of a token into workflow name, execution id and
  deferred name.\<close>

definition parse_workflow_event_id ::
    "(string \<Rightarrow> string + (string \<times> string \<times> string)) \<Rightarrow> string \<Rightarrow> string + parsed_event_id" where
  "parse_workflow_event_id parse_token event_id =
     (case parse_token event_id of
        Inl e \<Rightarrow> Inl e
      | Inr (workflow, execution, deferred) \<Rightarrow>
          let prefix = event_deferred_prefix @ ''/'' in
          if take (length prefix) deferred \<noteq> prefix
          then Inl ''Event ID does not identify an effect-zero workflow event''
          else
            let encoded_name = takeWhile (\<lambda>c. c \<noteq> CHR ''/'') (drop (length prefix) deferred) in
            if encoded_name = [] then Inl ''Event ID is missing its event name''
            else case decode_uri_component encoded_name of
                   None \<Rightarrow> Inl ''URI malformed''
                 | Some name \<Rightarrow> Inr \<lparr>ev_workflow_name = workflow, ev_execution_id = execution,
                     ev_event_name = name, ev_deferred_name = deferred\<rparr>)"

subsection \<open>The registry\<close>

datatype poll_result =
    NotStarted
  | Suspended
  | CompleteSuccess unknown_value
  | CompleteFailure failure_cause

record ('p, 'g) runnable_workflow =
  wf_name :: string
  wf_decode_payload :: "json \<Rightarrow> 'p option"
  wf_execute :: "'p \<Rightarrow> 'g \<Rightarrow> (failure_cause + string) \<times> 'g"
  wf_poll :: "string \<Rightarrow> 'g \<Rightarrow> engine_cause + poll_result"
  wf_interrupt :: "string \<Rightarrow> 'g \<Rightarrow> (failure_cause + unit) \<times> 'g"
  wf_resume :: "string \<Rightarrow> 'g \<Rightarrow> (failure_cause + unit) \<times> 'g"

record 'g workflow_event =
  event_name :: string
  event_send :: "string \<Rightarrow> json \<Rightarrow> 'g \<Rightarrow> (failure_cause + unit) \<times> 'g"

record ('p, 'g) workflow_runtime =
  rt_workflows :: "string \<rightharpoonup> ('p, 'g) runnable_workflow"
  rt_events :: "string \<rightharpoonup> 'g workflow_event"
  rt_version :: "('p, 'g) runnable_workflow \<Rightarrow> string"
  rt_materialize_failure :: "('p, 'g) runnable_workflow \<Rightarrow> failure_cause \<Rightarrow> json option"
  rt_parse_token :: "string \<Rightarrow> string + (string \<times> string \<times> string)"

text \<open>Registering by name: a duplicate throws.\<close>

fun register_by_name :: "string \<Rightarrow> ('a \<Rightarrow> string) \<Rightarrow> (string \<rightharpoonup> 'a) \<Rightarrow> 'a list \<Rightarrow> string + (string \<rightharpoonup> 'a)" where
  "register_by_name message name m [] = Inr m"
| "register_by_name message name m (x # xs) =
     (if m (name x) \<noteq> None then Inl (message @ name x)
      else register_by_name message name (m(name x \<mapsto> x)) xs)"

definition make_workflow_runtime ::
    "('p, 'g) runnable_workflow list \<Rightarrow> 'g workflow_event list \<Rightarrow>
     (('p, 'g) runnable_workflow \<Rightarrow> string) option \<Rightarrow>
     (('p, 'g) runnable_workflow \<Rightarrow> failure_cause \<Rightarrow> json option) option \<Rightarrow>
     (string \<Rightarrow> string + (string \<times> string \<times> string)) \<Rightarrow> string + ('p, 'g) workflow_runtime" where
  "make_workflow_runtime workflows events version materialize parse_token =
     (case register_by_name ''Duplicate workflow registration: '' wf_name Map.empty workflows of
        Inl e \<Rightarrow> Inl e
      | Inr ws \<Rightarrow>
     (case register_by_name ''Duplicate workflow event registration: '' event_name Map.empty events of
        Inl e \<Rightarrow> Inl e
      | Inr es \<Rightarrow>
          Inr \<lparr>rt_workflows = ws, rt_events = es,
               rt_version = (case version of None \<Rightarrow> (\<lambda>_. ''1'') | Some v \<Rightarrow> v),
               rt_materialize_failure = (case materialize of
                  None \<Rightarrow> (\<lambda>_ cause. Some (JObj [(''message'', JStr (cause_pretty cause))]))
                | Some f \<Rightarrow> f),
               rt_parse_token = parse_token\<rparr>))"

definition runtime_workflow ::
    "('p, 'g) workflow_runtime \<Rightarrow> string \<Rightarrow> failure_cause + ('p, 'g) runnable_workflow" where
  "runtime_workflow rt name =
     (case rt_workflows rt name of
        None \<Rightarrow> Inl (error_cause (''Unknown workflow: '' @ name))
      | Some w \<Rightarrow> Inr w)"

definition runtime_event ::
    "('p, 'g) workflow_runtime \<Rightarrow> string \<Rightarrow> failure_cause + 'g workflow_event" where
  "runtime_event rt event_id =
     (case parse_workflow_event_id (rt_parse_token rt) event_id of
        Inl e \<Rightarrow> Inl (error_cause e)
      | Inr p \<Rightarrow>
          (case rt_events rt (ev_event_name p) of
             None \<Rightarrow> Inl (error_cause (''Unknown workflow event: '' @ ev_event_name p))
           | Some ev \<Rightarrow> Inr ev))"

subsection \<open>Executing a command\<close>

type_synonym ('g, 'a) execution = "(failure_cause, 'a, 'g \<times> workflow_db) txn"

definition on_engine :: "('g \<Rightarrow> (failure_cause + 'a) \<times> 'g) \<Rightarrow> ('g, 'a) execution" where
  "on_engine f s = (case f (fst s) of (res, g) \<Rightarrow> (res, (g, snd s)))"

definition on_tables :: "(workflow_db \<Rightarrow> workflow_db) \<Rightarrow> ('g, unit) execution" where
  "on_tables f s = (Inr (), (fst s, f (snd s)))"

definition execute_start_command ::
    "int \<Rightarrow> int \<Rightarrow> workflow_command \<Rightarrow> ('p, 'g) runnable_workflow \<Rightarrow> ('g, unit) execution" where
  "execute_start_command now db_now cmd workflow =
     (case wf_decode_payload workflow (cmd_payload cmd) of
        None \<Rightarrow> txn_fail (error_cause ''Invalid payload'')
      | Some payload \<Rightarrow>
          txn_bind (on_engine (wf_execute workflow payload)) (\<lambda>execution.
            if execution \<noteq> cmd_execution_id cmd
            then txn_bind (on_engine (wf_interrupt workflow execution)) (\<lambda>_.
              txn_fail (error_cause (''Workflow execution id mismatch for '' @ cmd_workflow_name cmd @
                '': expected '' @ cmd_execution_id cmd @ '', received '' @ execution)))
            else on_tables (mark_run now db_now (cmd_run_id cmd) RunRunning None None)))"

definition decode_event_payload :: "json \<Rightarrow> (string \<times> json) option" where
  "decode_event_payload v =
     (case v of
        JObj kvs \<Rightarrow>
          (case (map_of kvs ''eventId'', map_of kvs ''value'') of
             (Some (JStr i), Some x) \<Rightarrow> Some (i, x)
           | _ \<Rightarrow> None)
      | _ \<Rightarrow> None)"

definition execute_event_command ::
    "int \<Rightarrow> int \<Rightarrow> workflow_command \<Rightarrow> ('p, 'g) workflow_runtime \<Rightarrow> ('g, unit) execution" where
  "execute_event_command now db_now cmd rt =
     (case decode_event_payload (cmd_payload cmd) of
        None \<Rightarrow> txn_fail (error_cause ''Invalid event payload'')
      | Some (event_id, v) \<Rightarrow>
     (case parse_workflow_event_id (rt_parse_token rt) event_id of
        Inl e \<Rightarrow> txn_fail (error_cause e)
      | Inr parsed \<Rightarrow>
          if ev_workflow_name parsed \<noteq> cmd_workflow_name cmd \<or>
             ev_execution_id parsed \<noteq> cmd_execution_id cmd
          then txn_fail (error_cause (''Workflow event '' @ event_id @
                 '' does not belong to execution '' @ cmd_execution_id cmd))
          else case runtime_event rt event_id of
                 Inl e \<Rightarrow> txn_fail e
               | Inr ev \<Rightarrow>
                   txn_bind (on_engine (event_send ev event_id v)) (\<lambda>_.
                     on_tables (mark_run now db_now (cmd_run_id cmd) RunRunning None None))))"

definition execute_workflow_command ::
    "int \<Rightarrow> int \<Rightarrow> workflow_command \<Rightarrow> ('p, 'g) workflow_runtime \<Rightarrow> ('g, unit) execution" where
  "execute_workflow_command now db_now cmd rt =
     (case runtime_workflow rt (cmd_workflow_name cmd) of
        Inl e \<Rightarrow> txn_fail e
      | Inr workflow \<Rightarrow>
          if rt_version rt workflow \<noteq> cmd_definition_version cmd
          then txn_fail (error_cause (''Workflow definition version mismatch for '' @
                 cmd_workflow_name cmd @ '': queued '' @ cmd_definition_version cmd @
                 '', registered '' @ rt_version rt workflow))
          else case cmd_kind cmd of
            StartCommand \<Rightarrow> execute_start_command now db_now cmd workflow
          | CancelCommand \<Rightarrow>
              txn_bind (on_engine (wf_interrupt workflow (cmd_execution_id cmd))) (\<lambda>_.
                on_tables (mark_run now db_now (cmd_run_id cmd) RunCancelled None None))
          | ResumeCommand \<Rightarrow>
              txn_bind (on_engine (wf_resume workflow (cmd_execution_id cmd))) (\<lambda>_.
                on_tables (mark_run now db_now (cmd_run_id cmd) RunRunning None None))
          | EventCommand \<Rightarrow> execute_event_command now db_now cmd rt)"

subsection \<open>Reconciliation\<close>

definition reconcile_run ::
    "int \<Rightarrow> int \<Rightarrow> ('p, 'g) workflow_runtime \<Rightarrow> 'g \<Rightarrow> workflow_run \<Rightarrow> workflow_db \<Rightarrow> workflow_db" where
  "reconcile_run now db_now rt g run db =
     (case runtime_workflow rt (wr_workflow_name run) of
        Inl _ \<Rightarrow> db
      | Inr workflow \<Rightarrow>
     (case wf_poll workflow (wr_execution_id run) g of
        Inl cause \<Rightarrow>
          if malformed_message cause
          then mark_run now db_now (wr_run_id run) RunFailed None
                 (Some (JObj [(''message'', JStr (''Workflow execution state could not be decoded: '' @
                    cause_pretty cause))])) db
          else db
      | Inr NotStarted \<Rightarrow> db
      | Inr Suspended \<Rightarrow> db
      | Inr (CompleteSuccess v) \<Rightarrow>
          mark_run now db_now (wr_run_id run) RunSucceeded (Some (json_or_description v)) None db
      | Inr (CompleteFailure cause) \<Rightarrow>
          mark_run now db_now (wr_run_id run) RunFailed None
            (Some (case rt_materialize_failure rt workflow cause of
               Some v \<Rightarrow> v
             | None \<Rightarrow> JObj [(''message'', JStr (cause_pretty cause))])) db))"

text \<open>
  One pass. \<open>cursor\<close> is absent when the caller gave no reference; otherwise it is the
  reference's content, and the pass returns its new content. The runs of the page are independent
  of each other, so their order does not matter.
\<close>

definition reconcile_workflow_runs ::
    "int \<Rightarrow> int \<Rightarrow> ('p, 'g) workflow_runtime \<Rightarrow> 'g \<Rightarrow> js_number option \<Rightarrow>
     (int \<times> string) option option \<Rightarrow> workflow_db \<Rightarrow>
     nat \<times> (int \<times> string) option option \<times> workflow_db" where
  "reconcile_workflow_runs now db_now rt g batch cursor db =
     (let listed = list_runs RunRunning (case batch of None \<Rightarrow> JsFinite 100 | Some n \<Rightarrow> n)
            (case cursor of None \<Rightarrow> None | Some c \<Rightarrow> c) db;
          db' = fold (reconcile_run now db_now rt g) listed db
      in (length listed,
          map_option (\<lambda>_. if listed = [] then None
            else Some (wr_updated_at (last listed), wr_run_id (last listed))) cursor,
          db'))"

subsection \<open>Text of event identifiers\<close>

definition is_ascii :: "string \<Rightarrow> bool" where
  "is_ascii s \<longleftrightarrow> (\<forall>c \<in> set s. (of_char c :: nat) < 128)"

lemma hex_digit_value_upper: "n < 16 \<Longrightarrow> hex_digit_value (hex_digit_upper n) = Some n"
  by (erule below_cases) (simp add: upt_rec hex_digit_upper_def hex_digit_value_def)

lemma hex_digit_upper_mod: "hex_digit_upper (n mod 16) = hex_digit_upper n"
  by (simp add: hex_digit_upper_def)

lemma uri_unreserved_not_percent: "uri_unreserved c \<Longrightarrow> c \<noteq> CHR ''%'' \<and> c \<noteq> CHR ''/''"
  by (auto simp: uri_unreserved_def is_ident_char_def is_ident_start_def less_eq_char_def)

lemma hex_digit_upper_not_slash: "hex_digit_upper n \<noteq> CHR ''/''"
proof -
  have "n mod 16 < 16" by simp
  then have "hex_digit_value (hex_digit_upper (n mod 16)) \<noteq> None"
    using hex_digit_value_upper by simp
  then show ?thesis
    by (auto simp: hex_digit_upper_mod hex_digit_value_def)
qed

lemma decode_encode_uri: "is_ascii s \<Longrightarrow> decode_uri_component (encode_uri_component s) = Some s"
proof (induction s)
  case (Cons c s)
  then have IH: "decode_uri_component (encode_uri_component s) = Some s"
    and c: "(of_char c :: nat) < 128"
    by (simp_all add: is_ascii_def)
  show ?case
  proof (cases "uri_unreserved c")
    case True
    then show ?thesis
      using IH uri_unreserved_not_percent [OF True] by (simp add: encode_uri_component_def)
  next
    case False
    have high: "hex_digit_value (hex_digit_upper (of_char c div 16)) = Some (of_char c div 16)"
      using c by (intro hex_digit_value_upper) simp
    have low: "hex_digit_value (hex_digit_upper (of_char c)) = Some (of_char c mod 16)"
      using hex_digit_value_upper [of "of_char c mod 16"] by (simp add: hex_digit_upper_mod)
    have "16 * (of_char c div 16) + of_char c mod 16 = (of_char c :: nat)"
      by simp
    then show ?thesis
      using IH False high low c by (simp add: encode_uri_component_def)
  qed
qed (simp add: encode_uri_component_def)

lemma encode_uri_no_slash: "CHR ''/'' \<notin> set (encode_uri_component s)"
proof (induction s)
  case (Cons c s)
  then show ?case
    using uri_unreserved_not_percent [of c] hex_digit_upper_not_slash
    by (auto simp: encode_uri_component_def) (metis hex_digit_upper_not_slash)+
qed (simp add: encode_uri_component_def)

lemma encode_uri_inject: "is_ascii s \<Longrightarrow> is_ascii t \<Longrightarrow> encode_uri_component s = encode_uri_component t \<longleftrightarrow> s = t"
  by (metis decode_encode_uri option.inject)

lemma takeWhile_no_slash: "c \<notin> set xs \<Longrightarrow> takeWhile (\<lambda>x. x \<noteq> c) (xs @ c # ys) = xs"
  by (induction xs) auto

text \<open>Event identifiers round-trip: the deferred name built from an event's name and a key parses
  back to that event name (names are nonempty ASCII, and may contain slashes and percent signs),
  whatever workflow and execution the token names, and different event names or keys give
  different deferred names.\<close>

theorem event_id_round_trip:
  assumes "is_ascii name" and "name \<noteq> []"
    and "parse_token event_id = Inr (workflow, execution, deferred_name_for name key)"
  shows "parse_workflow_event_id parse_token event_id =
      Inr \<lparr>ev_workflow_name = workflow, ev_execution_id = execution, ev_event_name = name,
           ev_deferred_name = deferred_name_for name key\<rparr> \<and>
    (is_ascii name' \<longrightarrow> is_ascii key \<longrightarrow> is_ascii key' \<longrightarrow>
      (deferred_name_for name key = deferred_name_for name' key' \<longleftrightarrow> name = name' \<and> key = key'))"
proof -
  let ?p = "event_deferred_prefix @ ''/''"
  have split: "deferred_name_for n k = ?p @ encode_uri_component n @ CHR ''/'' # encode_uri_component k" for n k
    by (simp add: deferred_name_for_def event_prefix_def)
  have parts: "drop (length p) (p @ ys) = ys" "take (length p) (p @ ys) = p" for p ys :: string
    by simp_all
  have rest: "drop (length ?p) (deferred_name_for n k) = encode_uri_component n @ CHR ''/'' # encode_uri_component k"
    and front: "take (length ?p) (deferred_name_for n k) = ?p" for n k
    unfolding split by (rule parts)+
  have name: "takeWhile (\<lambda>c. c \<noteq> CHR ''/'') (drop (length ?p) (deferred_name_for name key)) = encode_uri_component name"
    unfolding rest by (rule takeWhile_no_slash [OF encode_uri_no_slash])
  have "encode_uri_component name \<noteq> []"
    using assms(1,2) decode_encode_uri [of name] by auto
  then have "parse_workflow_event_id parse_token event_id =
      Inr \<lparr>ev_workflow_name = workflow, ev_execution_id = execution, ev_event_name = name,
           ev_deferred_name = deferred_name_for name key\<rparr>"
    using assms name front decode_encode_uri [OF assms(1)]
    by (simp only: parse_workflow_event_id_def sum.case prod.case Let_def if_False option.case) simp
  moreover have "deferred_name_for name key = deferred_name_for name' key' \<longleftrightarrow> name = name' \<and> key = key'"
    if "is_ascii name'" "is_ascii key" "is_ascii key'"
    using that assms(1)
    by (simp add: split append_separator_eq_iff encode_uri_no_slash encode_uri_inject)
  ultimately show ?thesis by blast
qed

theorem event_id_round_trip_witness:
  "parse_workflow_event_id (\<lambda>_. Inr (''w'', ''x'', deferred_name_for ''a/b 1'' ''k'')) ''token'' =
     Inr \<lparr>ev_workflow_name = ''w'', ev_execution_id = ''x'', ev_event_name = ''a/b 1'',
          ev_deferred_name = deferred_name_for ''a/b 1'' ''k''\<rparr>"
proof -
  have "is_ascii ''a/b 1''" by (simp add: is_ascii_def)
  then show ?thesis
    using event_id_round_trip [of "''a/b 1''" "\<lambda>_. Inr (''w'', ''x'', deferred_name_for ''a/b 1'' ''k'')"
        "''token''" "''w''" "''x''" "''k''"] by simp
qed

subsection \<open>Execution and reconciliation\<close>

lemma on_engine_tables: "snd (snd (on_engine f s)) = snd s"
  by (simp add: on_engine_def split_beta)

lemma on_engine_D: "on_engine f s = (res, s') \<Longrightarrow> f (fst s) = (res, fst s') \<and> snd s' = snd s"
  by (auto simp: on_engine_def split: prod.splits)

definition status_after :: "workflow_command_kind \<Rightarrow> workflow_run_status" where
  "status_after k = (if k = CancelCommand then RunCancelled else RunRunning)"

lemma engine_then_mark:
  assumes "txn_bind (on_engine f) (\<lambda>_. on_tables h) (g, db) = (res, (g', db'))"
  shows "(\<forall>e. res = Inl e \<longrightarrow> db' = db) \<and> (\<forall>u. res = Inr u \<longrightarrow> db' = h db)"
  using assms
  by (cases "f g"; cases "fst (f g)") (auto simp: txn_bind_def on_engine_def on_tables_def)

lemma execute_start_tables:
  assumes "execute_start_command now t cmd workflow (g, db) = (res, (g', db'))"
  shows "(\<forall>e. res = Inl e \<longrightarrow> db' = db) \<and>
    (\<forall>u. res = Inr u \<longrightarrow> db' = mark_run now t (cmd_run_id cmd) RunRunning None None db \<and>
       (\<exists>payload. wf_decode_payload workflow (cmd_payload cmd) = Some payload \<and>
          wf_execute workflow payload g = (Inr (cmd_execution_id cmd), g')))"
proof (cases "wf_decode_payload workflow (cmd_payload cmd)")
  case None
  then show ?thesis
    using assms by (auto simp: execute_start_command_def txn_simps)
next
  case (Some payload)
  obtain r g1 where exec: "wf_execute workflow payload g = (r, g1)"
    by fastforce
  show ?thesis
  proof (cases r)
    case (Inl e)
    then show ?thesis
      using assms Some exec by (auto simp: execute_start_command_def txn_bind_def on_engine_def)
  next
    case (Inr x)
    show ?thesis
    proof (cases "x = cmd_execution_id cmd")
      case True
      then show ?thesis
        using assms Some exec Inr
        by (auto simp: execute_start_command_def txn_bind_def on_engine_def on_tables_def)
    next
      case False
      then show ?thesis
        using assms Some exec Inr
        by (auto simp: execute_start_command_def txn_bind_def on_engine_def txn_simps
            split: prod.splits sum.splits)
    qed
  qed
qed

text \<open>Executing a command touches the tables last and only on success: a failed execution leaves
  them unchanged; a successful one means that the command's workflow is registered with the
  version the command was queued with, and marks exactly the command's run, as cancelled for a
  cancel command and as running otherwise; a start command moreover succeeds only when the engine
  gave the execution id the command expects.\<close>

theorem execution_marks_run_on_success:
  assumes "execute_workflow_command now t cmd rt (g, db) = (res, (g', db'))"
  shows "(case res of
      Inl _ \<Rightarrow> db' = db
    | Inr _ \<Rightarrow>
        (\<exists>workflow. rt_workflows rt (cmd_workflow_name cmd) = Some workflow \<and>
           rt_version rt workflow = cmd_definition_version cmd \<and>
           (cmd_kind cmd = StartCommand \<longrightarrow>
             (\<exists>payload. wf_decode_payload workflow (cmd_payload cmd) = Some payload \<and>
                wf_execute workflow payload g = (Inr (cmd_execution_id cmd), g')))) \<and>
        db' = mark_run now t (cmd_run_id cmd)
          (if cmd_kind cmd = CancelCommand then RunCancelled else RunRunning) None None db)"
proof (cases "runtime_workflow rt (cmd_workflow_name cmd)")
  case (Inl e)
  then show ?thesis
    using assms by (auto simp: execute_workflow_command_def txn_simps)
next
  case (Inr workflow)
  then have reg: "rt_workflows rt (cmd_workflow_name cmd) = Some workflow"
    by (auto simp: runtime_workflow_def split: option.splits)
  show ?thesis
  proof (cases "rt_version rt workflow = cmd_definition_version cmd")
    case False
    then show ?thesis
      using assms Inr by (auto simp: execute_workflow_command_def txn_simps)
  next
    case True
    note run = assms [unfolded execute_workflow_command_def Inr sum.case]
    show ?thesis
    proof (cases "cmd_kind cmd")
      case StartCommand
      then have "execute_start_command now t cmd workflow (g, db) = (res, (g', db'))"
        using run True by simp
      from execute_start_tables [OF this] show ?thesis
        using reg True StartCommand by (cases res) auto
    next
      case CancelCommand
      then have "txn_bind (on_engine (wf_interrupt workflow (cmd_execution_id cmd))) (\<lambda>_.
          on_tables (mark_run now t (cmd_run_id cmd) RunCancelled None None)) (g, db) = (res, (g', db'))"
        using run True by simp
      from engine_then_mark [OF this] show ?thesis
        using reg True CancelCommand by (cases res) auto
    next
      case ResumeCommand
      then have "txn_bind (on_engine (wf_resume workflow (cmd_execution_id cmd))) (\<lambda>_.
          on_tables (mark_run now t (cmd_run_id cmd) RunRunning None None)) (g, db) = (res, (g', db'))"
        using run True by simp
      from engine_then_mark [OF this] show ?thesis
        using reg True ResumeCommand by (cases res) auto
    next
      case EventCommand
      then have ev: "execute_event_command now t cmd rt (g, db) = (res, (g', db'))"
        using run True by simp
      have "(\<forall>e. res = Inl e \<longrightarrow> db' = db) \<and>
          (\<forall>u. res = Inr u \<longrightarrow> db' = mark_run now t (cmd_run_id cmd) RunRunning None None db)"
        using ev
        by (auto simp: execute_event_command_def txn_simps split: option.splits sum.splits if_splits
            dest!: engine_then_mark)
      then show ?thesis
        using reg True EventCommand by (cases res) auto
    qed
  qed
qed

definition sample_runtime :: "(unit, nat) workflow_runtime" where
  "sample_runtime =
     \<lparr>rt_workflows = [''deliver'' \<mapsto>
        \<lparr>wf_name = ''deliver'', wf_decode_payload = (\<lambda>_. Some ()),
         wf_execute = (\<lambda>_ n. (Inr ''e1'', n + 1)), wf_poll = (\<lambda>_ _. Inr Suspended),
         wf_interrupt = (\<lambda>_ n. (Inr (), n)), wf_resume = (\<lambda>_ n. (Inr (), n))\<rparr>],
      rt_events = Map.empty, rt_version = (\<lambda>_. ''1''), rt_materialize_failure = (\<lambda>_ _. None),
      rt_parse_token = (\<lambda>_. Inl ''bad token'')\<rparr>"

theorem execution_marks_run_on_success_witness:
  "snd (snd (execute_workflow_command 3000 3001 sample_command sample_runtime (0, sample_claimed))) =
     mark_run 3000 3001 ''r1'' RunRunning None None sample_claimed"
proof -
  have "execute_workflow_command 3000 3001 sample_command sample_runtime (0, sample_claimed) =
      (Inr (), (1, snd (snd (execute_workflow_command 3000 3001 sample_command sample_runtime (0, sample_claimed)))))"
    by (simp add: execute_workflow_command_def runtime_workflow_def sample_runtime_def sample_command_def
        execute_start_command_def txn_bind_def on_engine_def on_tables_def)
  from execution_marks_run_on_success [OF this] show ?thesis
    by (simp add: sample_command_def)
qed

lemma mark_run_terminal:
  "lookup_by run_id rid (runs db) = Some r \<Longrightarrow>
   lookup_by run_id rid (runs (mark_run n t k s v e db)) =
     Some (if run_id r = k \<and> \<not> is_terminal_workflow_run_status (run_status r) then mark_row n t s v e r else r)"
  by (simp add: mark_run_def lookup_by_update_where)

text \<open>Reconciliation reports what the engine reports: polling a run changes no other run; a run
  that is not finished in the engine keeps its row; a finished one that was still active becomes
  succeeded with the engine's value or failed with an error, and a run that was already terminal
  keeps its outcome.\<close>

theorem reconcile_reports_engine_outcome:
  assumes "lookup_by run_id (wr_run_id run) (runs db) = Some r"
    and "rt_workflows rt (wr_workflow_name run) = Some workflow"
    and "wf_poll workflow (wr_execution_id run) g = Inr result"
  shows "(\<forall>rid. rid \<noteq> wr_run_id run \<longrightarrow>
      lookup_by run_id rid (runs (reconcile_run now t rt g run db)) = lookup_by run_id rid (runs db)) \<and>
    (case result of
       NotStarted \<Rightarrow> reconcile_run now t rt g run db = db
     | Suspended \<Rightarrow> reconcile_run now t rt g run db = db
     | CompleteSuccess v \<Rightarrow> \<exists>r'. lookup_by run_id (wr_run_id run) (runs (reconcile_run now t rt g run db)) = Some r' \<and>
         (if is_terminal_workflow_run_status (run_status r) then r' = r
          else run_status r' = RunSucceeded \<and> run_result r' = Some (json_or_description v) \<and> completed_at r' \<noteq> None)
     | CompleteFailure cause \<Rightarrow> \<exists>r'. lookup_by run_id (wr_run_id run) (runs (reconcile_run now t rt g run db)) = Some r' \<and>
         (if is_terminal_workflow_run_status (run_status r) then r' = r
          else run_status r' = RunFailed \<and> run_error r' \<noteq> None \<and> completed_at r' \<noteq> None))"
proof -
  have others: "lookup_by run_id rid (runs (mark_run n u k s v e db)) = lookup_by run_id rid (runs db)"
    if "rid \<noteq> k" for rid n u k s v e
    using that lookup_by_SomeD [of run_id rid "runs db"]
    by (cases "lookup_by run_id rid (runs db)") (auto simp: mark_run_def lookup_by_update_where)
  have id: "run_id r = wr_run_id run"
    using lookup_by_SomeD [OF assms(1)] by simp
  show ?thesis
    using assms others id
    by (cases result)
      (auto simp: reconcile_run_def runtime_workflow_def mark_run_terminal mark_row_def coalesce_def
        is_terminal_workflow_run_status_def split: option.splits)
qed

theorem reconcile_reports_engine_outcome_witness:
  "reconcile_run 1 2 sample_runtime (0 :: nat) (decode_run (hd (runs sample_db))) sample_db = sample_db"
  using reconcile_reports_engine_outcome [of "decode_run (hd (runs sample_db))" sample_db "hd (runs sample_db)"
      sample_runtime _ "0 :: nat" Suspended 1 2]
  by (simp add: sample_db_rows decode_run_def lookup_by_def sample_runtime_def)

subsection \<open>The cursor of the reconciliation\<close>

lemma last_of_sorted:
  assumes "r \<in> set xs" and "\<forall>x \<in> set xs. f x \<le> f r" and "inj_on f (set xs)"
  shows "last (sort_key f xs) = r"
proof -
  let ?s = "sort_key f xs"
  have ne: "?s \<noteq> []"
    using assms(1) by (metis empty_iff empty_set set_sort)
  then have last: "last ?s \<in> set xs"
    using last_in_set [of ?s] by simp
  obtain i where i: "i < length ?s" "?s ! i = r"
    using assms(1) by (metis in_set_conv_nth set_sort)
  have "map f ?s ! i \<le> map f ?s ! (length ?s - 1)"
    using i(1) by (intro sorted_nth_mono [OF sorted_sort_key]) simp_all
  then have "f r \<le> f (last ?s)"
    using i ne by (simp add: last_conv_nth)
  with assms(2) last have "f (last ?s) = f r"
    by (metis order_antisym)
  with assms(1,3) last show ?thesis
    by (metis inj_onD)
qed

lemma inj_page_key: "unique_by run_id rows \<Longrightarrow> inj_on page_key (set rows)"
  by (auto simp: unique_by_def distinct_map inj_on_def page_key_def)

lemma fold_unchanged: "(\<And>x. x \<in> set xs \<Longrightarrow> f x s = s) \<Longrightarrow> fold f xs s = s"
  by (induction xs) auto

text \<open>C36: The reconciliation can starve runs: while the most recently updated running run stays
  suspended in the engine and its update time is not a whole millisecond, a pass that starts at the
  cursor made from it lists it again, ends with the same cursor, changes nothing, and lists no run
  that was updated before it; so every further pass does the same, and runs updated earlier are
  not polled however long they have been complete.\<close>

theorem reconcile_cursor_starves_earlier_runs:
  fixes r :: workflow_run_row
  defines "cursor \<equiv> Some (js_date (run_updated_at r), run_id r)"
  assumes "store_inv db" and "r \<in> set (runs db)" and "run_status r = RunRunning"
    and "run_updated_at r mod 1000 \<noteq> 0"
    and "\<forall>x \<in> set (runs db). run_status x = RunRunning \<longrightarrow> page_key x \<le> page_key r"
    and "length (runs db) \<le> 100"
    and "\<forall>x \<in> set (runs db). run_status x = RunRunning \<longrightarrow> js_date (run_updated_at r) \<le> run_updated_at x \<longrightarrow>
      reconcile_run now t rt g (decode_run x) db = db"
  shows "\<exists>n > 0. reconcile_workflow_runs now t rt g None (Some cursor) db = (n, Some cursor, db) \<and>
    (\<forall>x \<in> set (list_run_rows RunRunning (JsFinite 100) cursor db).
       js_date (run_updated_at r) \<le> run_updated_at x)"
proof -
  let ?due = "filter (\<lambda>x. run_status x = RunRunning \<and> after_cursor cursor x) (runs db)"
  have "length (sort_key page_key ?due) \<le> 100"
    using le_trans [OF length_filter_le assms(7)] by simp
  then have page: "list_run_rows RunRunning (JsFinite 100) cursor db = sort_key page_key ?due"
    by (simp add: list_run_rows_def normalize_sql_limit_def math_trunc_def)
  have "js_date (run_updated_at r) < run_updated_at r"
  proof -
    have "js_date (run_updated_at r) = run_updated_at r - run_updated_at r mod 1000"
      by (simp add: js_date_def minus_mod_eq_div_mult)
    moreover have "0 < run_updated_at r mod 1000"
      using assms(5) pos_mod_sign [of 1000 "run_updated_at r"] by linarith
    ultimately show ?thesis by linarith
  qed
  then have "after_cursor cursor r"
    by (simp add: cursor_def after_cursor_def page_key_def less_prod_def)
  then have r: "r \<in> set ?due"
    using assms(3,4) by simp
  have "inj_on page_key (set (runs db))"
    using assms(2) inj_page_key by (simp add: store_inv_def)
  then have "inj_on page_key (set ?due)"
    by (rule inj_on_subset) auto
  then have last: "last (sort_key page_key ?due) = r"
    using r assms(6) by (intro last_of_sorted) auto
  have ne: "sort_key page_key ?due \<noteq> []"
    using r by (metis empty_iff empty_set set_sort)
  have after: "js_date (run_updated_at r) \<le> run_updated_at x" if "x \<in> set ?due" for x
    using that by (auto simp: cursor_def after_cursor_def page_key_def less_prod_def)
  have "fold (reconcile_run now t rt g) (map decode_run (sort_key page_key ?due)) db = db"
    using assms(8) after by (intro fold_unchanged) auto
  moreover have cur: "Some (wr_updated_at (decode_run r), wr_run_id (decode_run r)) = cursor"
    by (simp add: cursor_def decode_run_def)
  ultimately have "reconcile_workflow_runs now t rt g None (Some cursor) db =
      (length (sort_key page_key ?due), Some cursor, db)"
    using ne last cur by (simp add: reconcile_workflow_runs_def list_runs_def page Let_def last_map)
  moreover have "length (sort_key page_key ?due) > 0"
    using ne by blast
  ultimately show ?thesis
    using after page by auto
qed

definition sample_running :: "string \<Rightarrow> string \<Rightarrow> int \<Rightarrow> workflow_run_row" where
  "sample_running rid key updated =
     (hd (runs sample_db))\<lparr>run_id := rid, idempotency_key := key, run_status := RunRunning,
       run_updated_at := updated\<rparr>"

definition sample_starved :: workflow_db where
  "sample_starved = \<lparr>runs = [sample_running ''old'' ''a'' 500000, sample_running ''new'' ''b'' 900500], commands = []\<rparr>"

theorem reconcile_cursor_starves_earlier_runs_witness:
  "\<exists>n > 0. reconcile_workflow_runs 1 2 sample_runtime 0 None (Some (Some (900000, ''new''))) sample_starved =
     (n, Some (Some (900000, ''new'')), sample_starved)"
proof -
  have poll: "reconcile_run 1 2 sample_runtime g (decode_run (sample_running rid key u)) db = db" for g rid key u db
    by (simp add: reconcile_run_def runtime_workflow_def sample_runtime_def decode_run_def sample_running_def
        sample_db_rows)
  have "\<exists>n > 0. reconcile_workflow_runs 1 2 sample_runtime 0 None
        (Some (Some (js_date (run_updated_at (sample_running ''new'' ''b'' 900500)), run_id (sample_running ''new'' ''b'' 900500))))
        sample_starved =
      (n, Some (Some (js_date (run_updated_at (sample_running ''new'' ''b'' 900500)), run_id (sample_running ''new'' ''b'' 900500))),
        sample_starved)"
  proof -
    have "store_inv sample_starved"
      by (simp add: sample_starved_def sample_running_def sample_db_rows store_inv_def unique_by_def
          invocation_key_def run_ok_def is_terminal_workflow_run_status_def)
    moreover have "page_key (sample_running ''old'' ''a'' 500000) \<le> page_key (sample_running ''new'' ''b'' 900500)"
      by (simp add: page_key_def sample_running_def)
    ultimately show ?thesis
      using reconcile_cursor_starves_earlier_runs [of sample_starved "sample_running ''new'' ''b'' 900500" 1 2
          sample_runtime 0]
      by (simp add: sample_starved_def poll) (auto simp: sample_running_def)
  qed
  then show ?thesis
    by (simp add: sample_running_def js_date_def)
qed

end
