(* ===== verification/DeliveryLedger.thy ===== *)
theory DeliveryLedger
  imports Json
begin

text \<open>
  The delivery ledger of the bot (\<^verbatim>\<open>botCapabilityStore.ts\<close> of \<^verbatim>\<open>sheet-bot\<close>): one
  record per delivery key in an atomic key-value storage (\<^verbatim>\<open>shared.ts\<close> of
  \<^verbatim>\<open>dfx-discord-utils\<close>), changed by delivery attempts, by operators who reconcile
  unresolved records, and by expiry. The attempts and the reconcilers are modelled as machines that
  do one storage operation at a time, so that any interleaving of any number of them, in any number
  of processes, is a sequence of steps. Storage operations may fail before or after taking effect,
  and an attempt may be interrupted at any point.
\<close>

subsection \<open>Canonical text of an input\<close>

text \<open>
  \<open>Object.fromEntries\<close> enumerates array-index keys first, in numeric order, then the others
  in insertion order; the code inserts the keys sorted.
\<close>

definition is_array_index :: "string \<Rightarrow> bool" where
  "is_array_index k \<longleftrightarrow>
     k = ''0'' \<or> k \<noteq> [] \<and> (\<forall>c \<in> set k. CHR ''0'' \<le> c \<and> c \<le> CHR ''9'') \<and> hd k \<noteq> CHR ''0'' \<and>
       digits_value k < 4294967295"

definition js_property_order :: "(string \<times> 'a) list \<Rightarrow> (string \<times> 'a) list" where
  "js_property_order kvs =
     sort_key (digits_value \<circ> fst) (filter (is_array_index \<circ> fst) kvs) @
     filter (Not \<circ> is_array_index \<circ> fst) kvs"

primrec canonicalize_json :: "json \<Rightarrow> json" where
  "canonicalize_json JNull = JNull"
| "canonicalize_json (JBool b) = JBool b"
| "canonicalize_json (JNum n) = JNum n"
| "canonicalize_json (JStr s) = JStr s"
| "canonicalize_json (JArr vs) = JArr (map canonicalize_json vs)"
| "canonicalize_json (JObj kvs) =
     JObj (js_property_order (sort_key fst (map (map_prod (\<lambda>k. k) canonicalize_json) kvs)))"

definition ledger_stable_json :: "(rat \<Rightarrow> string) \<Rightarrow> json \<Rightarrow> string" where
  "ledger_stable_json num v = json_stringify num (canonicalize_json v)"

subsection \<open>Atomic storage\<close>

definition set_item_if_absent :: "string \<Rightarrow> 'v \<Rightarrow> (string \<rightharpoonup> 'v) \<Rightarrow> bool \<times> (string \<rightharpoonup> 'v)" where
  "set_item_if_absent k v m = (if m k \<noteq> None then (False, m) else (True, m(k \<mapsto> v)))"

definition compare_and_set_item ::
    "('v \<Rightarrow> 'v \<Rightarrow> bool) \<Rightarrow> string \<Rightarrow> 'v \<Rightarrow> 'v \<Rightarrow> (string \<rightharpoonup> 'v) \<Rightarrow> bool \<times> (string \<rightharpoonup> 'v)" where
  "compare_and_set_item same k expected v m =
     (case m k of
        None \<Rightarrow> (False, m)
      | Some current \<Rightarrow> if \<not> same current expected then (False, m) else (True, m(k \<mapsto> v)))"

definition compare_and_remove_item ::
    "('v \<Rightarrow> 'v \<Rightarrow> bool) \<Rightarrow> string \<Rightarrow> 'v \<Rightarrow> (string \<rightharpoonup> 'v) \<Rightarrow> bool \<times> (string \<rightharpoonup> 'v)" where
  "compare_and_remove_item same k expected m =
     (case m k of
        None \<Rightarrow> (False, m)
      | Some current \<Rightarrow> if \<not> same current expected then (False, m) else (True, m(k := None)))"

text \<open>A fault makes the caller see an error; the operation may have been applied all the same.\<close>

datatype fault = NoFault | FailedBefore | FailedAfter

definition with_fault :: "fault \<Rightarrow> ('m \<Rightarrow> 'a \<times> 'm) \<Rightarrow> 'm \<Rightarrow> 'a option \<times> 'm" where
  "with_fault f op m =
     (case f of
        NoFault \<Rightarrow> (case op m of (a, m') \<Rightarrow> (Some a, m'))
      | FailedBefore \<Rightarrow> (None, m)
      | FailedAfter \<Rightarrow> (None, snd (op m)))"

subsection \<open>Records\<close>

record reconciliation =
  rcn_actor :: string
  rcn_evidence :: string
  rcn_at :: int

record delivery_receipt =
  rcp_delivery_key :: string
  rcp_operation :: string
  rcp_target :: json
  rcp_files :: "json option"

datatype delivery_record =
    PendingRecord string string "string option" "int option" "reconciliation option"
  | AmbiguousRecord string string "string option" "int option" int "reconciliation option"
  | RetryableRecord string string reconciliation
  | CompletedRecord string string delivery_receipt "reconciliation option"

fun record_operation :: "delivery_record \<Rightarrow> string" where
  "record_operation (PendingRecord op h i t r) = op"
| "record_operation (AmbiguousRecord op h i t a r) = op"
| "record_operation (RetryableRecord op h r) = op"
| "record_operation (CompletedRecord op h c r) = op"

fun record_input_hash :: "delivery_record \<Rightarrow> string" where
  "record_input_hash (PendingRecord op h i t r) = h"
| "record_input_hash (AmbiguousRecord op h i t a r) = h"
| "record_input_hash (RetryableRecord op h r) = h"
| "record_input_hash (CompletedRecord op h c r) = h"

fun record_reserved_at :: "delivery_record \<Rightarrow> int option" where
  "record_reserved_at (PendingRecord op h i t r) = t"
| "record_reserved_at (AmbiguousRecord op h i t a r) = t"
| "record_reserved_at _ = None"

fun record_reconciliation :: "delivery_record \<Rightarrow> reconciliation option" where
  "record_reconciliation (PendingRecord op h i t r) = r"
| "record_reconciliation (AmbiguousRecord op h i t a r) = r"
| "record_reconciliation (RetryableRecord op h r) = Some r"
| "record_reconciliation (CompletedRecord op h c r) = r"

fun is_unresolved :: "delivery_record \<Rightarrow> bool" where
  "is_unresolved (PendingRecord op h i t r) = True"
| "is_unresolved (AmbiguousRecord op h i t a r) = True"
| "is_unresolved _ = False"

text \<open>A stored value: a record with the fields the schema does not know, or something else.\<close>

datatype stored_value = StoredRecord "(string \<times> json) list" delivery_record | StoredInvalid json

fun canonical_stored :: "stored_value \<Rightarrow> stored_value" where
  "canonical_stored (StoredRecord extra (CompletedRecord op h c r)) =
     StoredRecord (sort_key fst (map (map_prod (\<lambda>k. k) sort_json) extra))
       (CompletedRecord op h (c\<lparr>rcp_target := sort_json (rcp_target c), rcp_files := map_option sort_json (rcp_files c)\<rparr>) r)"
| "canonical_stored (StoredRecord extra d) =
     StoredRecord (sort_key fst (map (map_prod (\<lambda>k. k) sort_json) extra)) d"
| "canonical_stored (StoredInvalid v) = StoredInvalid (sort_json v)"

text \<open>The storage compares serialised values.\<close>

definition same_stored :: "stored_value \<Rightarrow> stored_value \<Rightarrow> bool" where
  "same_stored a b \<longleftrightarrow> canonical_stored a = canonical_stored b"

fun preserve_stored_fields :: "stored_value \<Rightarrow> delivery_record \<Rightarrow> stored_value" where
  "preserve_stored_fields (StoredRecord extra d) next_record = StoredRecord extra next_record"
| "preserve_stored_fields (StoredInvalid v) next_record = StoredRecord [] next_record"

record ledger_store =
  deliveries :: "string \<rightharpoonup> stored_value"
  markers :: "string \<rightharpoonup> string"

definition mark_unresolved :: "string \<Rightarrow> string \<Rightarrow> ledger_store \<Rightarrow> ledger_store" where
  "mark_unresolved key op s = s\<lparr>markers := (markers s)(key \<mapsto> op)\<rparr>"

definition clear_unresolved :: "string \<Rightarrow> ledger_store \<Rightarrow> ledger_store" where
  "clear_unresolved key s = s\<lparr>markers := (markers s)(key := None)\<rparr>"

definition on_deliveries ::
    "((string \<rightharpoonup> stored_value) \<Rightarrow> 'a option \<times> (string \<rightharpoonup> stored_value)) \<Rightarrow> ledger_store \<Rightarrow>
     'a option \<times> ledger_store" where
  "on_deliveries op s = (case op (deliveries s) of (a, m) \<Rightarrow> (a, s\<lparr>deliveries := m\<rparr>))"

definition storage_set_if_absent :: "fault \<Rightarrow> string \<Rightarrow> stored_value \<Rightarrow> ledger_store \<Rightarrow> bool option \<times> ledger_store" where
  "storage_set_if_absent f k v = on_deliveries (with_fault f (set_item_if_absent k v))"

definition storage_compare_and_set ::
    "fault \<Rightarrow> string \<Rightarrow> stored_value \<Rightarrow> stored_value \<Rightarrow> ledger_store \<Rightarrow> bool option \<times> ledger_store" where
  "storage_compare_and_set f k expected v = on_deliveries (with_fault f (compare_and_set_item same_stored k expected v))"

definition storage_compare_and_remove ::
    "fault \<Rightarrow> string \<Rightarrow> stored_value \<Rightarrow> ledger_store \<Rightarrow> bool option \<times> ledger_store" where
  "storage_compare_and_remove f k expected = on_deliveries (with_fault f (compare_and_remove_item same_stored k expected))"

subsection \<open>A delivery attempt\<close>

record delivery_input =
  di_key :: string
  di_operation :: string
  di_hash :: string

datatype delivery_result =
    DeliveryReceipt delivery_receipt
  | DeliveryUnavailable string
  | DeliveryRejected string
  | DeliveryEffectError string

text \<open>
  Where an attempt stands: before which storage operation, with what it carries. The number is
  the loop counter; a record is the reservation it holds.
\<close>

datatype attempt_phase =
    Reserving nat
  | Inspecting nat delivery_record
  | Claiming nat stored_value stored_value
  | Marking stored_value
  | Unmarking stored_value
  | Running stored_value
  | Completing stored_value delivery_receipt
  | CheckingCompletion delivery_receipt
  | Releasing stored_value string
  | RecordingAmbiguity stored_value string
  | CheckingAmbiguity string
  | Clearing delivery_result
  | Finished delivery_result
  | Interrupted

text \<open>What the environment contributes to a step.\<close>

datatype effect_outcome = EffectCommitted delivery_receipt | EffectFailed string bool

record step_input =
  si_now :: int
  si_uuid :: string
  si_fault :: fault
  si_outcome :: effect_outcome

definition delivery_transition_attempts :: nat where
  "delivery_transition_attempts = 3"

definition next_attempt :: "nat \<Rightarrow> attempt_phase" where
  "next_attempt n =
     (if Suc n < delivery_transition_attempts then Reserving (Suc n)
      else Finished (DeliveryUnavailable
        ''Delivery Key reservation changed concurrently; retry the delivery''))"

fun pending_reservation :: "stored_value \<Rightarrow> string option \<times> int option \<times> reconciliation option" where
  "pending_reservation (StoredRecord extra (PendingRecord op h i t r)) = (i, t, r)"
| "pending_reservation _ = (None, None, None)"

fun attempt_step ::
    "step_input \<Rightarrow> delivery_input \<Rightarrow> attempt_phase \<Rightarrow> ledger_store \<Rightarrow> attempt_phase \<times> ledger_store" where
  "attempt_step e d (Reserving n) s =
     (let pending = PendingRecord (di_operation d) (di_hash d) (Some (si_uuid e)) (Some (si_now e)) None in
      case storage_set_if_absent (si_fault e) (di_key d) (StoredRecord [] pending) s of
        (None, s') \<Rightarrow> (Finished (DeliveryUnavailable ''Bot capability storage reservation failed''), s')
      | (Some True, s') \<Rightarrow> (Marking (StoredRecord [] pending), s')
      | (Some False, s') \<Rightarrow> (Inspecting n pending, s'))"
| "attempt_step e d (Inspecting n pending) s =
     (if si_fault e \<noteq> NoFault
      then (Finished (DeliveryUnavailable ''Bot capability storage read failed''), s)
      else case deliveries s (di_key d) of
        None \<Rightarrow> (next_attempt n, s)
      | Some (StoredInvalid v) \<Rightarrow> (Finished (DeliveryUnavailable ''Stored Delivery Key is invalid''), s)
      | Some (StoredRecord extra r) \<Rightarrow>
          if record_operation r \<noteq> di_operation d \<or> record_input_hash r \<noteq> di_hash d
          then (Finished (DeliveryRejected
                 ''Delivery Key is already bound to a different operation or input''), s)
          else case r of
            CompletedRecord op h receipt rcn \<Rightarrow> (Finished (DeliveryReceipt receipt), s)
          | PendingRecord op h i t rcn \<Rightarrow>
              (Finished (DeliveryUnavailable ''Delivery attempt is pending; retry after it completes or reconcile it if the attempt was interrupted''), s)
          | AmbiguousRecord op h i t a rcn \<Rightarrow>
              (Finished (DeliveryUnavailable ''Delivery outcome is ambiguous and requires reconciliation''), s)
          | RetryableRecord op h rcn \<Rightarrow>
              (Claiming n (StoredRecord extra r)
                 (preserve_stored_fields (StoredRecord extra r)
                   (case pending of
                      PendingRecord op' h' i' t' r' \<Rightarrow> PendingRecord op' h' i' t' (Some rcn)
                    | other \<Rightarrow> other)), s))"
| "attempt_step e d (Claiming n raw claimed) s =
     (case storage_compare_and_set (si_fault e) (di_key d) raw claimed s of
        (None, s') \<Rightarrow> (Finished (DeliveryUnavailable ''Bot capability storage transition failed''), s')
      | (Some True, s') \<Rightarrow> (Marking claimed, s')
      | (Some False, s') \<Rightarrow> (next_attempt n, s'))"
| "attempt_step e d (Marking claimed) s =
     (case si_fault e of
        NoFault \<Rightarrow> (Running claimed, mark_unresolved (di_key d) (di_operation d) s)
      | FailedBefore \<Rightarrow> (Unmarking claimed, s)
      | FailedAfter \<Rightarrow> (Unmarking claimed, mark_unresolved (di_key d) (di_operation d) s))"
| "attempt_step e d (Unmarking claimed) s =
     (Finished (DeliveryUnavailable ''Bot capability storage write failed''),
      snd (storage_compare_and_remove (si_fault e) (di_key d) claimed s))"
| "attempt_step e d (Running claimed) s =
     (case si_outcome e of
        EffectCommitted receipt \<Rightarrow> (Completing claimed receipt, s)
      | EffectFailed err definitive \<Rightarrow>
          (if definitive then Releasing claimed err else RecordingAmbiguity claimed err, s))"
| "attempt_step e d (Completing claimed receipt) s =
     (case pending_reservation claimed of (i, t, rcn) \<Rightarrow>
      (case storage_compare_and_set (si_fault e) (di_key d) claimed
              (preserve_stored_fields claimed
                (CompletedRecord (di_operation d) (di_hash d) receipt rcn)) s of
         (None, s') \<Rightarrow> (Finished (DeliveryUnavailable ''Bot capability storage transition failed''), s')
       | (Some True, s') \<Rightarrow> (Clearing (DeliveryReceipt receipt), s')
       | (Some False, s') \<Rightarrow> (CheckingCompletion receipt, s')))"
| "attempt_step e d (CheckingCompletion receipt) s =
     (if si_fault e \<noteq> NoFault
      then (Finished (DeliveryUnavailable ''Bot capability storage read failed''), s)
      else case deliveries s (di_key d) of
        Some (StoredRecord extra (CompletedRecord op h stored rcn)) \<Rightarrow>
          (Clearing (DeliveryReceipt stored), s)
      | Some (StoredInvalid v) \<Rightarrow> (Finished (DeliveryUnavailable ''Stored Delivery Key is invalid''), s)
      | _ \<Rightarrow> (Finished (DeliveryUnavailable
                ''Delivery completed but its reservation changed during reconciliation''), s))"
| "attempt_step e d (Releasing claimed err) s =
     (case storage_compare_and_remove (si_fault e) (di_key d) claimed s of
        (None, s') \<Rightarrow> (Finished (DeliveryUnavailable ''Bot capability storage transition failed''), s')
      | (Some removed, s') \<Rightarrow>
          ((if removed then Clearing else Finished) (DeliveryEffectError err), s'))"
| "attempt_step e d (RecordingAmbiguity claimed err) s =
     (case pending_reservation claimed of (i, t, rcn) \<Rightarrow>
      (case storage_compare_and_set (si_fault e) (di_key d) claimed
              (preserve_stored_fields claimed
                (AmbiguousRecord (di_operation d) (di_hash d) i t (si_now e) rcn)) s of
         (None, s') \<Rightarrow> (Finished (DeliveryUnavailable ''Bot capability storage transition failed''), s')
       | (Some True, s') \<Rightarrow> (Finished (DeliveryEffectError err), s')
       | (Some False, s') \<Rightarrow> (CheckingAmbiguity err, s')))"
| "attempt_step e d (CheckingAmbiguity err) s =
     (if si_fault e \<noteq> NoFault
      then (Finished (DeliveryUnavailable ''Bot capability storage read failed''), s)
      else case deliveries s (di_key d) of
        Some (StoredInvalid v) \<Rightarrow> (Finished (DeliveryUnavailable ''Stored Delivery Key is invalid''), s)
      | _ \<Rightarrow> (Finished (DeliveryEffectError err), s))"
| "attempt_step e d (Clearing res) s =
     (Finished res, if si_fault e = FailedBefore then s else clear_unresolved (di_key d) s)"
| "attempt_step e d (Finished res) s = (Finished res, s)"
| "attempt_step e d Interrupted s = (Interrupted, s)"

subsection \<open>Inspection and reconciliation\<close>

datatype inspection =
    NotFound string
  | UnresolvedInspection string string bool "(int \<times> int) option" "reconciliation option"
  | SafeRetryInspection string string reconciliation
  | ConfirmedInspection string string delivery_receipt "reconciliation option"

text \<open>The flag tells a pending reservation; the pair is the reservation time and the age.\<close>

fun inspection_from_record :: "string \<Rightarrow> delivery_record option \<Rightarrow> int \<Rightarrow> inspection" where
  "inspection_from_record key None now = NotFound key"
| "inspection_from_record key (Some (PendingRecord op h i t r)) now =
     UnresolvedInspection key op True (map_option (\<lambda>since. (since, max 0 (now - since))) t) r"
| "inspection_from_record key (Some (AmbiguousRecord op h i t a r)) now =
     UnresolvedInspection key op False (map_option (\<lambda>since. (since, max 0 (now - since))) t) r"
| "inspection_from_record key (Some (RetryableRecord op h r)) now = SafeRetryInspection key op r"
| "inspection_from_record key (Some (CompletedRecord op h c r)) now = ConfirmedInspection key op c r"

definition read_delivery_record ::
    "fault \<Rightarrow> string \<Rightarrow> ledger_store \<Rightarrow> string + ((string \<times> json) list \<times> delivery_record) option" where
  "read_delivery_record f key s =
     (if f \<noteq> NoFault then Inl ''Bot capability storage read failed''
      else case deliveries s key of
        None \<Rightarrow> Inr None
      | Some (StoredInvalid v) \<Rightarrow> Inl ''Stored Delivery Key is invalid''
      | Some (StoredRecord extra r) \<Rightarrow> Inr (Some (extra, r)))"

definition inspect_delivery :: "fault \<Rightarrow> string \<Rightarrow> int \<Rightarrow> ledger_store \<Rightarrow> string + inspection" where
  "inspect_delivery f key now s =
     (case read_delivery_record f key s of
        Inl e \<Rightarrow> Inl e
      | Inr entry \<Rightarrow> Inr (inspection_from_record key (map_option snd entry) now))"

definition delivery_retention_seconds :: int where
  "delivery_retention_seconds = 60 * 60 * 24 * 30"

definition pending_safe_retry_minimum_age_ms :: int where
  "pending_safe_retry_minimum_age_ms = 15 * 60 * 1000"

definition effective_reservation_age_ms :: "int option \<Rightarrow> int \<Rightarrow> int" where
  "effective_reservation_age_ms reserved_at now =
     (case reserved_at of
        None \<Rightarrow> delivery_retention_seconds * 1000
      | Some t \<Rightarrow> max 0 (now - t))"

datatype resolution = ResolveConfirmed delivery_receipt | ResolveSafeRetry | ResolveUnresolved

record reconcile_input =
  rci_key :: string
  rci_actor :: string
  rci_evidence :: string
  rci_resolution :: resolution

datatype reconcile_result =
    Reconciled inspection
  | ReconcileRejected string
  | ReconcileUnavailable string

text \<open>
  Where a reconciliation stands: before reading, before marking the key unresolved, before the
  transition, before the marker is cleared, or at its end. The transition carries the value read,
  the value to store, and the instant the loop round started.
\<close>

datatype reconcile_phase =
    RcReading nat
  | RcMarking nat string stored_value delivery_record int
  | RcWriting nat stored_value delivery_record int
  | RcClearing reconcile_result
  | RcFinished reconcile_result
  | RcInterrupted

definition start_reconciliation :: "reconcile_input \<Rightarrow> reconcile_phase" where
  "start_reconciliation inp =
     (if rci_actor inp = [] then RcFinished (ReconcileRejected ''Reconciliation actor is required'')
      else if rci_evidence inp = [] then RcFinished (ReconcileRejected ''Reconciliation evidence is required'')
      else RcReading 0)"

fun with_reconciliation :: "delivery_record \<Rightarrow> reconciliation \<Rightarrow> delivery_record" where
  "with_reconciliation (PendingRecord op h i t r) rcn = PendingRecord op h i t (Some rcn)"
| "with_reconciliation (AmbiguousRecord op h i t a r) rcn = AmbiguousRecord op h i t a (Some rcn)"
| "with_reconciliation (RetryableRecord op h r) rcn = RetryableRecord op h rcn"
| "with_reconciliation (CompletedRecord op h c r) rcn = CompletedRecord op h c (Some rcn)"

definition receipt_json :: "delivery_receipt \<Rightarrow> json" where
  "receipt_json c = JObj ([(''deliveryKey'', JStr (rcp_delivery_key c)),
     (''operation'', JStr (rcp_operation c)), (''target'', rcp_target c)] @
     (case rcp_files c of None \<Rightarrow> [] | Some files \<Rightarrow> [(''files'', files)]))"

definition reconcile_settled ::
    "(rat \<Rightarrow> string) \<Rightarrow> reconcile_input \<Rightarrow> delivery_record \<Rightarrow> int \<Rightarrow> reconcile_result" where
  "reconcile_settled num inp r now =
     (case (r, rci_resolution inp) of
        (CompletedRecord op h c rcn, ResolveConfirmed c') \<Rightarrow>
          if ledger_stable_json num (receipt_json c) = ledger_stable_json num (receipt_json c')
          then Reconciled (inspection_from_record (rci_key inp) (Some r) now)
          else ReconcileRejected ''Completed Delivery Key cannot be reconciled to a different outcome''
      | (CompletedRecord op h c rcn, _) \<Rightarrow>
          ReconcileRejected ''Completed Delivery Key cannot be reconciled to a different outcome''
      | (RetryableRecord op h rcn, ResolveSafeRetry) \<Rightarrow>
          Reconciled (inspection_from_record (rci_key inp) (Some r) now)
      | _ \<Rightarrow> ReconcileRejected ''Retryable Delivery Key cannot be reconciled to a different outcome'')"

definition reconcile_unresolved ::
    "reconcile_input \<Rightarrow> nat \<Rightarrow> stored_value \<Rightarrow> delivery_record \<Rightarrow> int \<Rightarrow> reconcile_phase" where
  "reconcile_unresolved inp n raw r now =
     (let rcn = \<lparr>rcn_actor = rci_actor inp, rcn_evidence = rci_evidence inp, rcn_at = now\<rparr> in
      case rci_resolution inp of
        ResolveUnresolved \<Rightarrow> RcMarking n (record_operation r) raw (with_reconciliation r rcn) now
      | ResolveConfirmed c \<Rightarrow>
          if rcp_delivery_key c \<noteq> rci_key inp \<or> rcp_operation c \<noteq> record_operation r
          then RcFinished (ReconcileRejected
                 ''Confirmed Delivery Receipt does not match the reserved Delivery Key operation'')
          else RcWriting n raw (CompletedRecord (record_operation r) (record_input_hash r) c (Some rcn)) now
      | ResolveSafeRetry \<Rightarrow>
          if (case r of PendingRecord op h i t r' \<Rightarrow> True | _ \<Rightarrow> False) \<and>
             effective_reservation_age_ms (record_reserved_at r) now < pending_safe_retry_minimum_age_ms
          then RcFinished (ReconcileRejected ''Pending Delivery Key is too recent for safe retry; leave it unresolved until the original attempt cannot still be in flight'')
          else RcWriting n raw (RetryableRecord (record_operation r) (record_input_hash r) rcn) now)"

definition next_reconciliation :: "nat \<Rightarrow> reconcile_phase" where
  "next_reconciliation n =
     (if Suc n < delivery_transition_attempts then RcReading (Suc n)
      else RcFinished (ReconcileUnavailable
        ''Delivery Key changed concurrently; inspect it again before reconciling''))"

fun reconciler_step ::
    "(rat \<Rightarrow> string) \<Rightarrow> step_input \<Rightarrow> reconcile_input \<Rightarrow> reconcile_phase \<Rightarrow> ledger_store \<Rightarrow>
     reconcile_phase \<times> ledger_store" where
  "reconciler_step num e inp (RcReading n) s =
     (case read_delivery_record (si_fault e) (rci_key inp) s of
        Inl err \<Rightarrow> (RcFinished (ReconcileUnavailable err), s)
      | Inr None \<Rightarrow> (RcFinished (ReconcileRejected ''Delivery Key reservation was not found''), s)
      | Inr (Some (extra, r)) \<Rightarrow>
          if is_unresolved r
          then (reconcile_unresolved inp n (StoredRecord extra r) r (si_now e), s)
          else (RcClearing (reconcile_settled num inp r (si_now e)), s))"
| "reconciler_step num e inp (RcMarking n op raw r now) s =
     (case si_fault e of
        NoFault \<Rightarrow> (RcWriting n raw r now, mark_unresolved (rci_key inp) op s)
      | FailedBefore \<Rightarrow> (RcFinished (ReconcileUnavailable ''Bot capability storage write failed''), s)
      | FailedAfter \<Rightarrow> (RcFinished (ReconcileUnavailable ''Bot capability storage write failed''),
                        mark_unresolved (rci_key inp) op s))"
| "reconciler_step num e inp (RcWriting n raw r now) s =
     (case storage_compare_and_set (si_fault e) (rci_key inp) raw (preserve_stored_fields raw r) s of
        (None, s') \<Rightarrow> (RcFinished (ReconcileUnavailable ''Bot capability storage transition failed''), s')
      | (Some False, s') \<Rightarrow> (next_reconciliation n, s')
      | (Some True, s') \<Rightarrow>
          ((if is_unresolved r then RcFinished else RcClearing)
             (Reconciled (inspection_from_record (rci_key inp) (Some r) now)), s'))"
| "reconciler_step num e inp (RcClearing res) s =
     (RcFinished res, if si_fault e = FailedBefore then s else clear_unresolved (rci_key inp) s)"
| "reconciler_step num e inp (RcFinished res) s = (RcFinished res, s)"
| "reconciler_step num e inp RcInterrupted s = (RcInterrupted, s)"

end
