(* ===== verification/DeliveryGuarantees.thy ===== *)
theory DeliveryGuarantees
  imports DeliveryLedger "HOL-Library.Multiset"
begin

text \<open>
  What the delivery ledger guarantees when any number of attempts and operators interleave, crash,
  and meet storage faults: how often an effect can be committed, that completed keys replay, that
  a key stays bound to its operation and input, and when a retry is declared safe.

  The locale \<open>reservation_storage\<close> is the contract of the atomic storage as the ledger uses it:
  what the conditional operations return and change, and that a value is open (may be claimed
  again) independently of its serialisation.
\<close>

subsection \<open>The contract of the storage\<close>

locale atomic_storage =
  fixes get :: "'m \<Rightarrow> string \<Rightarrow> 'v option"
    and add :: "string \<Rightarrow> 'v \<Rightarrow> 'm \<Rightarrow> bool \<times> 'm"
    and swap :: "string \<Rightarrow> 'v \<Rightarrow> 'v \<Rightarrow> 'm \<Rightarrow> bool \<times> 'm"
    and cut :: "string \<Rightarrow> 'v \<Rightarrow> 'm \<Rightarrow> bool \<times> 'm"
    and same :: "'v \<Rightarrow> 'v \<Rightarrow> bool"
  assumes add_result: "fst (add k v m) \<longleftrightarrow> get m k = None"
    and add_get: "get (snd (add k v m)) = (if get m k = None then (get m)(k \<mapsto> v) else get m)"
    and swap_result: "fst (swap k e v m) \<longleftrightarrow> (\<exists>c. get m k = Some c \<and> same c e)"
    and swap_get: "get (snd (swap k e v m)) =
      (if \<exists>c. get m k = Some c \<and> same c e then (get m)(k \<mapsto> v) else get m)"
    and cut_result: "fst (cut k e m) \<longleftrightarrow> (\<exists>c. get m k = Some c \<and> same c e)"
    and cut_get: "get (snd (cut k e m)) =
      (if \<exists>c. get m k = Some c \<and> same c e then (get m)(k := None) else get m)"

locale reservation_storage = atomic_storage get add swap cut same
  for get :: "'m \<Rightarrow> string \<Rightarrow> 'v option" and add swap cut same +
  fixes is_open :: "'v \<Rightarrow> bool"
  assumes same_open: "same a b \<Longrightarrow> is_open a = is_open b"
begin

text \<open>Whether a new reservation of the key can still be made.\<close>

definition rights :: "'m \<Rightarrow> string \<Rightarrow> nat" where
  "rights m k = (case get m k of None \<Rightarrow> 1 | Some v \<Rightarrow> if is_open v then 1 else 0)"

lemma add_consumes:
  assumes "\<not> is_open v"
  shows "rights (snd (with_fault f (add k v) m)) k' +
      (if fst (with_fault f (add k v) m) = Some True \<and> k' = k then 1 else 0) \<le> rights m k'"
  using assms add_result [of k v m] add_get [of k v m]
  by (cases f) (auto simp: with_fault_def rights_def split: prod.splits option.splits if_splits)

lemma swap_keeps:
  assumes "\<not> is_open v"
  shows "rights (snd (with_fault f (swap k e v) m)) k' +
      (if fst (with_fault f (swap k e v) m) = Some True \<and> k' = k \<and> is_open e then 1 else 0) \<le> rights m k'"
  using assms swap_result [of k e v m] swap_get [of k e v m] same_open
  by (cases f) (auto simp: with_fault_def rights_def split: prod.splits option.splits if_splits)

lemma swap_gains:
  "rights (snd (with_fault f (swap k e v) m)) k' \<le> rights m k' +
     (if k' = k \<and> \<not> (\<exists>c. get m k = Some c \<and> is_open c) \<and>
        (\<exists>c. get (snd (with_fault f (swap k e v) m)) k = Some c \<and> is_open c) then 1 else 0)"
  using swap_get [of k e v m]
  by (cases f) (auto simp: with_fault_def rights_def split: prod.splits option.splits if_splits)

lemma cut_releases:
  "rights (snd (with_fault f (cut k e) m)) k' \<le> rights m k' + (if k' = k then 1 else 0)"
  using cut_get [of k e m]
  by (cases f) (auto simp: with_fault_def rights_def split: prod.splits option.splits if_splits)

end

fun is_retryable :: "stored_value \<Rightarrow> bool" where
  "is_retryable (StoredRecord extra (RetryableRecord op h r)) = True"
| "is_retryable _ = False"

text \<open>What serialisation keeps of a stored value.\<close>

fun stored_shape :: "stored_value \<Rightarrow> (string \<times> string \<times> nat) option" where
  "stored_shape (StoredRecord extra r) = Some (record_operation r, record_input_hash r,
     case r of PendingRecord _ _ _ _ _ \<Rightarrow> 0 | AmbiguousRecord _ _ _ _ _ _ \<Rightarrow> 1
       | RetryableRecord _ _ _ \<Rightarrow> 2 | CompletedRecord _ _ _ _ \<Rightarrow> 3)"
| "stored_shape (StoredInvalid v) = None"

lemma same_stored_shape: "same_stored a b \<Longrightarrow> stored_shape a = stored_shape b"
proof -
  have "stored_shape (canonical_stored v) = stored_shape v" for v
    by (induction v rule: canonical_stored.induct) auto
  then show "same_stored a b \<Longrightarrow> stored_shape a = stored_shape b"
    by (metis same_stored_def)
qed

lemma is_retryable_shape: "is_retryable v \<longleftrightarrow> (\<exists>op h. stored_shape v = Some (op, h, 2))"
  by (induction v rule: is_retryable.induct) auto

interpretation ledger: reservation_storage "\<lambda>m. m" set_item_if_absent
    "compare_and_set_item same_stored" "compare_and_remove_item same_stored" same_stored is_retryable
proof unfold_locales
  show "same_stored a b \<Longrightarrow> is_retryable a = is_retryable b" for a b
    using same_stored_shape [of a b] by (simp add: is_retryable_shape)
qed (auto simp: set_item_if_absent_def compare_and_set_item_def compare_and_remove_item_def
    split: option.splits)

subsection \<open>Any number of attempts and operators\<close>

text \<open>
  The ghost counters: effects that may have been committed (an attempt that leaves its effect
  other than by a definitive failure, or is interrupted in it), transitions that made a key
  retryable, and expirations.
\<close>

record ledger_world =
  ledger :: ledger_store
  attempts :: "(delivery_input \<times> attempt_phase) list"
  operators :: "(reconcile_input \<times> reconcile_phase) list"
  effects :: "string \<Rightarrow> nat"
  retries :: "string \<Rightarrow> nat"
  expirations :: "string \<Rightarrow> nat"

datatype ledger_event =
    StartAttempt delivery_input
  | MoveAttempt nat step_input
  | InterruptAttempt nat
  | StartOperator reconcile_input
  | MoveOperator nat step_input
  | InterruptOperator nat
  | ExpireRecord string
  | ExpireMarker string

definition count_at :: "bool \<Rightarrow> string \<Rightarrow> (string \<Rightarrow> nat) \<Rightarrow> string \<Rightarrow> nat" where
  "count_at b k f = (if b then f(k := Suc (f k)) else f)"

definition may_commit :: "attempt_phase \<Rightarrow> attempt_phase \<Rightarrow> bool" where
  "may_commit p p' \<longleftrightarrow>
     (case p of
        Running c \<Rightarrow> (case p' of Releasing c' err \<Rightarrow> False | _ \<Rightarrow> True)
      | _ \<Rightarrow> False)"

definition retryable_at :: "ledger_store \<Rightarrow> string \<Rightarrow> bool" where
  "retryable_at s k = (case deliveries s k of None \<Rightarrow> False | Some v \<Rightarrow> is_retryable v)"

definition replace_attempt :: "nat \<Rightarrow> attempt_phase \<Rightarrow> ledger_store \<Rightarrow> ledger_world \<Rightarrow> ledger_world" where
  "replace_attempt i p' s' w =
     (case attempts w ! i of (d, p) \<Rightarrow>
        w\<lparr>ledger := s', attempts := (attempts w)[i := (d, p')],
          effects := count_at (may_commit p p') (di_key d) (effects w)\<rparr>)"

definition replace_operator :: "nat \<Rightarrow> reconcile_phase \<Rightarrow> ledger_store \<Rightarrow> ledger_world \<Rightarrow> ledger_world" where
  "replace_operator i p' s' w =
     (case operators w ! i of (inp, p) \<Rightarrow>
        w\<lparr>ledger := s', operators := (operators w)[i := (inp, p')],
          retries := count_at (\<not> retryable_at (ledger w) (rci_key inp) \<and> retryable_at s' (rci_key inp))
            (rci_key inp) (retries w)\<rparr>)"

fun apply_event :: "(rat \<Rightarrow> string) \<Rightarrow> ledger_event \<Rightarrow> ledger_world \<Rightarrow> ledger_world" where
  "apply_event num (StartAttempt d) w = w\<lparr>attempts := attempts w @ [(d, Reserving 0)]\<rparr>"
| "apply_event num (MoveAttempt i e) w =
     (if i < length (attempts w)
      then case attempts w ! i of (d, p) \<Rightarrow>
        (case attempt_step e d p (ledger w) of (p', s') \<Rightarrow> replace_attempt i p' s' w)
      else w)"
| "apply_event num (InterruptAttempt i) w =
     (if i < length (attempts w) then replace_attempt i Interrupted (ledger w) w else w)"
| "apply_event num (StartOperator inp) w =
     w\<lparr>operators := operators w @ [(inp, start_reconciliation inp)]\<rparr>"
| "apply_event num (MoveOperator i e) w =
     (if i < length (operators w)
      then case operators w ! i of (inp, p) \<Rightarrow>
        (case reconciler_step num e inp p (ledger w) of (p', s') \<Rightarrow> replace_operator i p' s' w)
      else w)"
| "apply_event num (InterruptOperator i) w =
     (if i < length (operators w) then replace_operator i RcInterrupted (ledger w) w else w)"
| "apply_event num (ExpireRecord k) w =
     w\<lparr>ledger := (ledger w)\<lparr>deliveries := (deliveries (ledger w))(k := None)\<rparr>,
       expirations := count_at True k (expirations w)\<rparr>"
| "apply_event num (ExpireMarker k) w = w\<lparr>ledger := clear_unresolved k (ledger w)\<rparr>"

definition run_ledger :: "(rat \<Rightarrow> string) \<Rightarrow> ledger_event list \<Rightarrow> ledger_world \<Rightarrow> ledger_world" where
  "run_ledger num evs w = foldl (\<lambda>w ev. apply_event num ev w) w evs"

definition quiet_world :: "ledger_store \<Rightarrow> ledger_world" where
  "quiet_world s = \<lparr>ledger = s, attempts = [], operators = [], effects = (\<lambda>_. 0), retries = (\<lambda>_. 0),
     expirations = (\<lambda>_. 0)\<rparr>"

lemma run_ledger_Nil [simp]: "run_ledger num [] w = w"
  by (simp add: run_ledger_def)

lemma run_ledger_snoc [simp]: "run_ledger num (evs @ [ev]) w = apply_event num ev (run_ledger num evs w)"
  by (simp add: run_ledger_def)

lemma run_ledger_append: "run_ledger num (evs @ evs') w = run_ledger num evs' (run_ledger num evs w)"
  by (simp add: run_ledger_def)

subsection \<open>What the phases carry\<close>

definition reserved_for :: "delivery_input \<Rightarrow> stored_value \<Rightarrow> bool" where
  "reserved_for d v \<longleftrightarrow> stored_shape v = Some (di_operation d, di_hash d, 0)"

fun attempt_valid :: "delivery_input \<times> attempt_phase \<Rightarrow> bool" where
  "attempt_valid (d, Inspecting n r) = reserved_for d (StoredRecord [] r)"
| "attempt_valid (d, Claiming n raw c) =
     (stored_shape raw = Some (di_operation d, di_hash d, 2) \<and> reserved_for d c)"
| "attempt_valid (d, Marking c) = reserved_for d c"
| "attempt_valid (d, Unmarking c) = reserved_for d c"
| "attempt_valid (d, Running c) = reserved_for d c"
| "attempt_valid (d, Completing c r) = reserved_for d c"
| "attempt_valid (d, Releasing c err) = reserved_for d c"
| "attempt_valid (d, RecordingAmbiguity c err) = reserved_for d c"
| "attempt_valid (d, p) = True"

definition transition_valid :: "stored_value \<Rightarrow> delivery_record \<Rightarrow> int \<Rightarrow> bool" where
  "transition_valid raw r now \<longleftrightarrow>
     (\<exists>extra old. raw = StoredRecord extra old \<and> is_unresolved old \<and>
        record_operation r = record_operation old \<and> record_input_hash r = record_input_hash old \<and>
        (\<forall>op h. stored_shape (StoredRecord [] r) = Some (op, h, 0) \<longrightarrow> stored_shape raw = Some (op, h, 0)) \<and>
        (\<forall>op h rcn t. r = RetryableRecord op h rcn \<longrightarrow> rcn_at rcn = now \<and>
           (stored_shape raw = Some (op, h, 0) \<longrightarrow> record_reserved_at old = Some t \<longrightarrow>
              now - t \<ge> pending_safe_retry_minimum_age_ms)))"

fun operator_valid :: "reconcile_input \<times> reconcile_phase \<Rightarrow> bool" where
  "operator_valid (inp, RcMarking n op raw r now) = transition_valid raw r now"
| "operator_valid (inp, RcWriting n raw r now) = transition_valid raw r now"
| "operator_valid (inp, p) = True"

lemma stored_shape_preserve:
  "stored_shape (preserve_stored_fields raw r) = stored_shape (StoredRecord [] r)"
  by (cases raw) simp_all

lemma attempt_step_valid:
  assumes "attempt_valid (d, p)"
  shows "attempt_valid (d, fst (attempt_step e d p s))"
  using assms
  by (cases p) (auto simp: next_attempt_def Let_def reserved_for_def stored_shape_preserve
      split: prod.splits option.splits bool.splits fault.splits stored_value.splits
        delivery_record.splits effect_outcome.splits)

lemma start_reconciliation_valid: "operator_valid (inp, start_reconciliation inp)"
  by (simp add: start_reconciliation_def)

lemma with_reconciliation_simps [simp]:
  "record_operation (with_reconciliation r rcn) = record_operation r"
  "record_input_hash (with_reconciliation r rcn) = record_input_hash r"
  "is_unresolved r \<Longrightarrow> with_reconciliation r rcn \<noteq> RetryableRecord op h rcn'"
  by (cases r; simp)+

lemma reconcile_unresolved_valid:
  assumes "is_unresolved r"
  shows "operator_valid (inp, reconcile_unresolved inp n (StoredRecord extra r) r now)"
  using assms
  by (cases "rci_resolution inp"; cases r)
    (auto simp: reconcile_unresolved_def Let_def transition_valid_def effective_reservation_age_ms_def
        pending_safe_retry_minimum_age_ms_def)

lemma reconciler_step_valid:
  assumes "operator_valid (inp, p)"
  shows "operator_valid (inp, fst (reconciler_step num e inp p s))"
  using assms
  by (cases p) (auto simp: next_reconciliation_def reconcile_unresolved_valid
      split: prod.splits option.splits bool.splits fault.splits sum.splits)

subsection \<open>Accounting of rights\<close>

abbreviation open_rights :: "ledger_store \<Rightarrow> string \<Rightarrow> nat" where
  "open_rights s k \<equiv> ledger.rights (deliveries s) k"

fun holds_right :: "attempt_phase \<Rightarrow> bool" where
  "holds_right (Marking c) = True"
| "holds_right (Unmarking c) = True"
| "holds_right (Running c) = True"
| "holds_right (Releasing c err) = True"
| "holds_right p = False"

definition right_of :: "string \<Rightarrow> delivery_input \<times> attempt_phase \<Rightarrow> nat" where
  "right_of k a = (if di_key (fst a) = k \<and> holds_right (snd a) then 1 else 0)"

lemma storage_set_if_absent_rights:
  assumes "storage_set_if_absent f k v s = (res, s')" and "\<not> is_retryable v"
  shows "open_rights s' k' + (if res = Some True \<and> k' = k then 1 else 0) \<le> open_rights s k'"
  using ledger.add_consumes [OF assms(2), of f k "deliveries s" k'] assms(1)
  by (auto simp: storage_set_if_absent_def on_deliveries_def split: prod.splits)

lemma storage_compare_and_set_rights:
  assumes "storage_compare_and_set f k e v s = (res, s')" and "\<not> is_retryable v"
  shows "open_rights s' k' + (if res = Some True \<and> k' = k \<and> is_retryable e then 1 else 0)
    \<le> open_rights s k'"
  using ledger.swap_keeps [OF assms(2), of f k e "deliveries s" k'] assms(1)
  by (auto simp: storage_compare_and_set_def on_deliveries_def split: prod.splits)

lemma storage_compare_and_set_gain:
  assumes "storage_compare_and_set f k e v s = (res, s')"
  shows "open_rights s' k' \<le> open_rights s k' +
    (if k' = k \<and> \<not> retryable_at s k \<and> retryable_at s' k then 1 else 0)"
  using ledger.swap_gains [of f k e v "deliveries s" k'] assms
  by (auto simp: storage_compare_and_set_def on_deliveries_def retryable_at_def
      split: prod.splits option.splits if_splits)

lemma storage_compare_and_remove_rights:
  assumes "storage_compare_and_remove f k e s = (res, s')"
  shows "open_rights s' k' \<le> open_rights s k' + (if k' = k then 1 else 0)"
  using ledger.cut_releases [of f k e "deliveries s" k'] assms
  by (auto simp: storage_compare_and_remove_def on_deliveries_def split: prod.splits)

lemma marker_rights [simp]:
  "open_rights (mark_unresolved k op s) k' = open_rights s k'"
  "open_rights (clear_unresolved k s) k' = open_rights s k'"
  by (simp_all add: mark_unresolved_def clear_unresolved_def)

lemma reserved_not_retryable: "reserved_for d c \<Longrightarrow> \<not> is_retryable c"
  by (auto simp: reserved_for_def is_retryable_shape)

lemma attempt_step_rights:
  assumes "attempt_valid (d, p)" and "attempt_step e d p s = (p', s')"
  shows "open_rights s' k + right_of k (d, p') + (if may_commit p p' \<and> di_key d = k then 1 else 0)
    \<le> open_rights s k + right_of k (d, p)"
proof (cases p)
  case (Reserving n)
  define v where "v = StoredRecord [] (PendingRecord (di_operation d) (di_hash d) (Some (si_uuid e)) (Some (si_now e)) None)"
  obtain res s1 where st: "storage_set_if_absent (si_fault e) (di_key d) v s = (res, s1)"
    by (metis surj_pair)
  show ?thesis
    using assms(2) storage_set_if_absent_rights [OF st, of k] st
    by (auto simp: Reserving v_def right_of_def may_commit_def Let_def
        split: option.splits bool.splits if_splits)
next
  case (Claiming n raw c)
  obtain res s1 where st: "storage_compare_and_set (si_fault e) (di_key d) raw c s = (res, s1)"
    by (metis surj_pair)
  have "\<not> is_retryable c" "is_retryable raw"
    using assms(1) reserved_not_retryable by (auto simp: Claiming is_retryable_shape)
  then show ?thesis
    using assms(2) storage_compare_and_set_rights [OF st, of k] st
    by (auto simp: Claiming right_of_def may_commit_def next_attempt_def
        split: option.splits bool.splits if_splits)
next
  case (Unmarking c)
  obtain res s1 where st: "storage_compare_and_remove (si_fault e) (di_key d) c s = (res, s1)"
    by (metis surj_pair)
  show ?thesis
    using assms(2) storage_compare_and_remove_rights [OF st, of k] st
    by (auto simp: Unmarking right_of_def may_commit_def split: if_splits)
next
  case (Releasing c err)
  obtain res s1 where st: "storage_compare_and_remove (si_fault e) (di_key d) c s = (res, s1)"
    by (metis surj_pair)
  show ?thesis
    using assms(2) storage_compare_and_remove_rights [OF st, of k] st
    by (auto simp: Releasing right_of_def may_commit_def split: option.splits if_splits)
next
  case (Completing c receipt)
  obtain i t rcn where pr: "pending_reservation c = (i, t, rcn)"
    by (metis surj_pair)
  define v where "v = preserve_stored_fields c (CompletedRecord (di_operation d) (di_hash d) receipt rcn)"
  obtain res s1 where st: "storage_compare_and_set (si_fault e) (di_key d) c v s = (res, s1)"
    by (metis surj_pair)
  have "\<not> is_retryable v" by (simp add: v_def is_retryable_shape stored_shape_preserve)
  from storage_compare_and_set_rights [OF st this, of k] show ?thesis
    using assms(2) st
    by (auto simp: Completing pr v_def right_of_def may_commit_def split: option.splits bool.splits)
next
  case (RecordingAmbiguity c err)
  obtain i t rcn where pr: "pending_reservation c = (i, t, rcn)"
    by (metis surj_pair)
  define v where "v = preserve_stored_fields c (AmbiguousRecord (di_operation d) (di_hash d) i t (si_now e) rcn)"
  obtain res s1 where st: "storage_compare_and_set (si_fault e) (di_key d) c v s = (res, s1)"
    by (metis surj_pair)
  have "\<not> is_retryable v" by (simp add: v_def is_retryable_shape stored_shape_preserve)
  from storage_compare_and_set_rights [OF st this, of k] show ?thesis
    using assms(2) st
    by (auto simp: RecordingAmbiguity pr v_def right_of_def may_commit_def split: option.splits bool.splits)
next
  case (Inspecting n r)
  then show ?thesis
    using assms(2)
    by (auto simp: right_of_def may_commit_def next_attempt_def
        split: option.splits stored_value.splits delivery_record.splits if_splits)
qed (use assms(2) in \<open>auto simp: right_of_def may_commit_def
      split: option.splits stored_value.splits delivery_record.splits if_splits fault.splits
        effect_outcome.splits\<close>)

lemma reconciler_step_rights:
  assumes "reconciler_step num e inp p s = (p', s')"
  shows "open_rights s' k \<le> open_rights s k +
    (if rci_key inp = k \<and> \<not> retryable_at s k \<and> retryable_at s' k then 1 else 0)"
proof (cases p)
  case (RcWriting n raw r now)
  obtain res s1 where st: "storage_compare_and_set (si_fault e) (rci_key inp) raw (preserve_stored_fields raw r) s = (res, s1)"
    by (metis surj_pair)
  then have "s1 = s'" using assms by (auto simp: RcWriting split: option.splits bool.splits)
  then show ?thesis
    using storage_compare_and_set_gain [OF st, of k] by (auto split: if_splits)
qed (use assms in \<open>auto split: sum.splits option.splits prod.splits fault.splits if_splits\<close>)

subsection \<open>Invariants of the world\<close>

definition world_valid :: "ledger_world \<Rightarrow> bool" where
  "world_valid w \<longleftrightarrow> list_all attempt_valid (attempts w) \<and> list_all operator_valid (operators w)"

definition spent :: "string \<Rightarrow> ledger_world \<Rightarrow> nat" where
  "spent k w = effects w k + (\<Sum>a\<leftarrow>attempts w. right_of k a) + open_rights (ledger w) k"

definition granted :: "string \<Rightarrow> ledger_world \<Rightarrow> nat" where
  "granted k w = retries w k + expirations w k"

lemma list_all_update: "list_all P xs \<Longrightarrow> P y \<Longrightarrow> list_all P (xs[i := y])"
  by (auto simp: list_all_iff dest!: set_update_subset_insert [THEN subsetD])

lemma sum_list_map_update:
  fixes f :: "'a \<Rightarrow> nat"
  assumes "i < length xs"
  shows "(\<Sum>x\<leftarrow>xs[i := y]. f x) + f (xs ! i) = (\<Sum>x\<leftarrow>xs. f x) + f y"
  using assms member_le_sum_list [of "f (xs ! i)" "map f xs"]
  by (simp add: map_update sum_list_update)

lemma count_at_apply: "count_at b k f k' = f k' + (if b \<and> k = k' then 1 else 0)"
  by (simp add: count_at_def)

lemma attempt_valid_nth: "world_valid w \<Longrightarrow> i < length (attempts w) \<Longrightarrow> attempt_valid (attempts w ! i)"
  by (simp add: world_valid_def list_all_length)

lemma operator_valid_nth: "world_valid w \<Longrightarrow> i < length (operators w) \<Longrightarrow> operator_valid (operators w ! i)"
  by (simp add: world_valid_def list_all_length)

lemma replace_attempt_valid:
  assumes "world_valid w" and "attempts w ! i = (d, p)" and "attempt_valid (d, p')"
  shows "world_valid (replace_attempt i p' s' w)"
  using assms by (simp add: world_valid_def replace_attempt_def list_all_update)

lemma replace_operator_valid:
  assumes "world_valid w" and "operators w ! i = (inp, p)" and "operator_valid (inp, p')"
  shows "world_valid (replace_operator i p' s' w)"
  using assms by (simp add: world_valid_def replace_operator_def list_all_update)

lemma apply_event_valid: "world_valid w \<Longrightarrow> world_valid (apply_event num ev w)"
proof (cases ev)
  case (MoveAttempt i e)
  assume w: "world_valid w"
  show ?thesis
    using replace_attempt_valid [OF w] attempt_valid_nth [OF w, of i] attempt_step_valid w
    by (auto simp: MoveAttempt split: prod.splits) (metis fst_conv)
next
  case (MoveOperator i e)
  assume w: "world_valid w"
  show ?thesis
    using replace_operator_valid [OF w] operator_valid_nth [OF w, of i] reconciler_step_valid w
    by (auto simp: MoveOperator split: prod.splits) (metis fst_conv)
next
  case (InterruptAttempt i)
  assume w: "world_valid w"
  then show ?thesis
    by (cases "attempts w ! i") (auto simp: InterruptAttempt intro: replace_attempt_valid)
next
  case (InterruptOperator i)
  assume w: "world_valid w"
  then show ?thesis
    by (cases "operators w ! i") (auto simp: InterruptOperator intro: replace_operator_valid)
qed (auto simp: world_valid_def start_reconciliation_valid)

lemma run_ledger_valid: "world_valid w \<Longrightarrow> world_valid (run_ledger num evs w)"
  by (induction evs rule: rev_induct) (simp_all add: apply_event_valid)

lemma quiet_world_valid [simp]: "world_valid (quiet_world s)"
  by (simp add: quiet_world_def world_valid_def)

lemma open_rights_le_1: "open_rights s k \<le> 1"
  by (simp add: ledger.rights_def split: option.split)

lemma replace_attempt_spent:
  assumes "i < length (attempts w)" and "attempts w ! i = (d, p)"
    and "open_rights s' k + right_of k (d, p') + (if may_commit p p' \<and> di_key d = k then 1 else 0)
      \<le> open_rights (ledger w) k + right_of k (d, p)"
  shows "spent k (replace_attempt i p' s' w) \<le> spent k w \<and>
    granted k (replace_attempt i p' s' w) = granted k w"
  using assms sum_list_map_update [OF assms(1), of "right_of k" "(d, p')"]
  by (auto simp: spent_def granted_def replace_attempt_def count_at_apply)

lemma apply_event_spent:
  assumes "world_valid w"
  shows "spent k (apply_event num ev w) + granted k w \<le> spent k w + granted k (apply_event num ev w)"
proof (cases ev)
  case (MoveAttempt i e)
  show ?thesis
  proof (cases "i < length (attempts w)")
    case True
    obtain d p p' s' where "attempts w ! i = (d, p)" "attempt_step e d p (ledger w) = (p', s')"
      by (metis surj_pair)
    then show ?thesis
      using replace_attempt_spent [OF True, of d p s' k p'] attempt_step_rights [of d p e "ledger w" p' s' k]
        attempt_valid_nth [OF assms True] True
      by (simp add: MoveAttempt)
  qed (use assms in \<open>simp add: MoveAttempt\<close>)
next
  case (InterruptAttempt i)
  show ?thesis
  proof (cases "i < length (attempts w)")
    case True
    obtain d p where at: "attempts w ! i = (d, p)" by (metis surj_pair)
    have "right_of k (d, Interrupted) + (if may_commit p Interrupted \<and> di_key d = k then 1 else 0)
        \<le> right_of k (d, p)"
      by (cases p) (auto simp: right_of_def may_commit_def)
    then show ?thesis
      using replace_attempt_spent [OF True at, of "ledger w" k Interrupted] True
      by (simp add: InterruptAttempt)
  qed (use assms in \<open>simp add: InterruptAttempt\<close>)
next
  case (MoveOperator i e)
  show ?thesis
  proof (cases "i < length (operators w)")
    case True
    obtain inp p p' s' where at: "operators w ! i = (inp, p)" "reconciler_step num e inp p (ledger w) = (p', s')"
      by (metis surj_pair)
    show ?thesis
      using reconciler_step_rights [OF at(2), of k] True at
      by (auto simp: MoveOperator replace_operator_def spent_def granted_def count_at_apply split: if_splits)
  qed (use assms in \<open>simp add: MoveOperator\<close>)
next
  case (InterruptOperator i)
  then show ?thesis
    by (cases "operators w ! i") (simp add: replace_operator_def spent_def granted_def count_at_apply)
next
  case (ExpireRecord k')
  then show ?thesis
    by (auto simp: spent_def granted_def count_at_apply ledger.rights_def split: if_splits option.splits)
qed (use assms in \<open>auto simp: spent_def granted_def right_of_def\<close>)

lemma run_ledger_spent:
  assumes "world_valid w"
  shows "spent k (run_ledger num evs w) + granted k w \<le> spent k w + granted k (run_ledger num evs w)"
proof (induction evs rule: rev_induct)
  case (snoc ev evs)
  then show ?case
    using apply_event_spent [OF run_ledger_valid [OF assms], of k num ev num evs] by simp
qed simp

subsection \<open>What stays in the ledger\<close>

text \<open>
  How one event may change the stored value of a key: it keeps or expires it, or it makes a legal
  transition.
\<close>

fun legal_transition :: "stored_value option \<Rightarrow> stored_value option \<Rightarrow> bool" where
  "legal_transition None v = (case v of None \<Rightarrow> True | Some w \<Rightarrow> \<exists>op h. stored_shape w = Some (op, h, 0))"
| "legal_transition (Some v) None = (\<exists>op h. stored_shape v = Some (op, h, 0))"
| "legal_transition (Some v) (Some w) = (v = w \<or>
     (\<exists>op h i j. stored_shape v = Some (op, h, i) \<and> stored_shape w = Some (op, h, j) \<and> i < 3 \<and>
        (i = 2 \<longrightarrow> j = 0) \<and> (i = 1 \<longrightarrow> 0 < j)))"

lemma legal_refl [simp]: "legal_transition v v \<or> v = None"
  by (cases v) auto

lemma legal_same [simp]: "legal_transition v v"
  by (cases v) auto

lemma storage_set_if_absent_legal:
  assumes "storage_set_if_absent f k v s = (res, s')" and "stored_shape v = Some (op, h, 0)"
  shows "legal_transition (deliveries s k') (deliveries s' k') \<and>
    (deliveries s' k' = deliveries s k' \<or> deliveries s' k' = Some v)"
  using assms
  by (cases f) (auto simp: storage_set_if_absent_def on_deliveries_def with_fault_def
      set_item_if_absent_def split: if_splits)

lemma storage_compare_and_set_legal:
  assumes "storage_compare_and_set f k e v s = (res, s')"
    and "stored_shape e = Some (op, h, i)" "stored_shape v = Some (op, h, j)" "i < 3"
    and "i = 2 \<longrightarrow> j = 0" "i = 1 \<longrightarrow> 0 < j"
  shows "legal_transition (deliveries s k') (deliveries s' k') \<and>
    (deliveries s' k' = deliveries s k' \<or> deliveries s' k' = Some v)"
proof -
  have "legal_transition (Some c) (Some v)" if "same_stored c e" for c
    using that assms(2-) same_stored_shape [OF that] by auto
  then show ?thesis
    using assms(1)
    by (cases f) (auto simp: storage_compare_and_set_def on_deliveries_def with_fault_def
        compare_and_set_item_def split: option.splits if_splits)
qed

lemma storage_compare_and_remove_legal:
  assumes "storage_compare_and_remove f k e s = (res, s')" and "stored_shape e = Some (op, h, 0)"
  shows "legal_transition (deliveries s k') (deliveries s' k') \<and>
    (deliveries s' k' = deliveries s k' \<or> deliveries s' k' = None)"
proof -
  have "legal_transition (Some c) None" if "same_stored c e" for c
    using that assms(2) same_stored_shape [OF that] by simp
  then show ?thesis
    using assms(1)
    by (cases f) (auto simp: storage_compare_and_remove_def on_deliveries_def with_fault_def
        compare_and_remove_item_def split: option.splits if_splits)
qed

lemma marker_deliveries [simp]:
  "deliveries (mark_unresolved k op s) = deliveries s" "deliveries (clear_unresolved k s) = deliveries s"
  by (simp_all add: mark_unresolved_def clear_unresolved_def)

lemma attempt_step_legal:
  assumes "attempt_valid (d, p)" and "attempt_step e d p s = (p', s')"
  shows "legal_transition (deliveries s k) (deliveries s' k) \<and>
    (\<forall>v. deliveries s' k = Some v \<longrightarrow> is_retryable v \<longrightarrow> deliveries s k = Some v)"
proof (cases p)
  case (Reserving n)
  obtain res s1 where st: "storage_set_if_absent (si_fault e) (di_key d)
      (StoredRecord [] (PendingRecord (di_operation d) (di_hash d) (Some (si_uuid e)) (Some (si_now e)) None)) s = (res, s1)"
    by (metis surj_pair)
  then have "s1 = s'" using assms(2) by (auto simp: Reserving Let_def split: option.splits bool.splits)
  with storage_set_if_absent_legal [OF st, of "di_operation d" "di_hash d" k] show ?thesis
    by (auto simp: is_retryable_shape)
next
  case (Claiming n raw c)
  obtain res s1 where st: "storage_compare_and_set (si_fault e) (di_key d) raw c s = (res, s1)"
    by (metis surj_pair)
  then have "s1 = s'" using assms(2) by (auto simp: Claiming split: option.splits bool.splits)
  with storage_compare_and_set_legal [OF st, of "di_operation d" "di_hash d" 2 0 k] show ?thesis
    using assms(1) by (auto simp: is_retryable_shape Claiming reserved_for_def)
next
  case (Unmarking c)
  obtain res s1 where st: "storage_compare_and_remove (si_fault e) (di_key d) c s = (res, s1)"
    by (metis surj_pair)
  with storage_compare_and_remove_legal [OF st, of "di_operation d" "di_hash d" k] show ?thesis
    using assms by (auto simp: is_retryable_shape Unmarking reserved_for_def)
next
  case (Releasing c err)
  obtain res s1 where st: "storage_compare_and_remove (si_fault e) (di_key d) c s = (res, s1)"
    by (metis surj_pair)
  then have "s1 = s'" using assms(2) by (auto simp: Releasing split: option.splits)
  with storage_compare_and_remove_legal [OF st, of "di_operation d" "di_hash d" k] show ?thesis
    using assms(1) by (auto simp: is_retryable_shape Releasing reserved_for_def)
next
  case (Completing c receipt)
  obtain i t rcn where pr: "pending_reservation c = (i, t, rcn)"
    by (metis surj_pair)
  obtain res s1 where st: "storage_compare_and_set (si_fault e) (di_key d) c
      (preserve_stored_fields c (CompletedRecord (di_operation d) (di_hash d) receipt rcn)) s = (res, s1)"
    by (metis surj_pair)
  then have "s1 = s'" using assms(2) by (auto simp: Completing pr split: option.splits bool.splits)
  with storage_compare_and_set_legal [OF st, of "di_operation d" "di_hash d" 0 3 k] show ?thesis
    using assms(1) by (auto simp: is_retryable_shape Completing reserved_for_def stored_shape_preserve)
next
  case (RecordingAmbiguity c err)
  obtain i t rcn where pr: "pending_reservation c = (i, t, rcn)"
    by (metis surj_pair)
  obtain res s1 where st: "storage_compare_and_set (si_fault e) (di_key d) c
      (preserve_stored_fields c (AmbiguousRecord (di_operation d) (di_hash d) i t (si_now e) rcn)) s = (res, s1)"
    by (metis surj_pair)
  then have "s1 = s'" using assms(2) by (auto simp: RecordingAmbiguity pr split: option.splits bool.splits)
  with storage_compare_and_set_legal [OF st, of "di_operation d" "di_hash d" 0 1 k] show ?thesis
    using assms(1) by (auto simp: is_retryable_shape RecordingAmbiguity reserved_for_def stored_shape_preserve)
qed (use assms(2) in \<open>auto simp: next_attempt_def split: option.splits stored_value.splits
      delivery_record.splits if_splits fault.splits effect_outcome.splits\<close>)

lemma unresolved_cases:
  "is_unresolved r \<Longrightarrow> stored_shape (StoredRecord extra r) =
     Some (record_operation r, record_input_hash r, 0) \<or>
   stored_shape (StoredRecord extra r) = Some (record_operation r, record_input_hash r, 1)"
  by (cases r) auto

lemma reconciler_step_legal:
  assumes "operator_valid (inp, p)" and "reconciler_step num e inp p s = (p', s')"
  shows "legal_transition (deliveries s k) (deliveries s' k)"
proof (cases p)
  case (RcWriting n raw r now)
  obtain res s1 where st: "storage_compare_and_set (si_fault e) (rci_key inp) raw (preserve_stored_fields raw r) s = (res, s1)"
    by (metis surj_pair)
  then have s1: "s1 = s'" using assms(2) by (auto simp: RcWriting split: option.splits bool.splits)
  obtain extra old where old: "raw = StoredRecord extra old" "is_unresolved old"
      "record_operation r = record_operation old" "record_input_hash r = record_input_hash old"
      and pending: "\<And>op h. stored_shape (StoredRecord [] r) = Some (op, h, 0) \<Longrightarrow> stored_shape raw = Some (op, h, 0)"
    using assms(1) by (auto simp: RcWriting transition_valid_def)
  obtain j where j: "stored_shape (preserve_stored_fields raw r) = Some (record_operation old, record_input_hash old, j)"
    using old(3,4) by (simp add: stored_shape_preserve)
  from unresolved_cases [OF old(2), of extra, folded old(1)] show ?thesis
  proof
    assume "stored_shape raw = Some (record_operation old, record_input_hash old, 0)"
    from storage_compare_and_set_legal [OF st [unfolded s1] this j] show ?thesis by simp
  next
    assume shape: "stored_shape raw = Some (record_operation old, record_input_hash old, 1)"
    then have "j \<noteq> 0" using pending j by (force simp: stored_shape_preserve)
    with storage_compare_and_set_legal [OF st [unfolded s1] shape j] show ?thesis by simp
  qed
qed (use assms in \<open>auto split: sum.splits option.splits prod.splits fault.splits if_splits\<close>)

lemma apply_event_legal:
  assumes "world_valid w" and "ev \<noteq> ExpireRecord k"
  shows "legal_transition (deliveries (ledger w) k) (deliveries (ledger (apply_event num ev w)) k)"
proof (cases ev)
  case (MoveAttempt i e)
  then show ?thesis
    using attempt_step_legal attempt_valid_nth [OF assms(1), of i]
    by (auto simp: replace_attempt_def split: prod.splits)
next
  case (MoveOperator i e)
  then show ?thesis
    using reconciler_step_legal operator_valid_nth [OF assms(1), of i]
    by (auto simp: replace_operator_def split: prod.splits)
next
  case (InterruptAttempt i)
  then show ?thesis by (auto simp: replace_attempt_def split: prod.splits)
next
  case (InterruptOperator i)
  then show ?thesis by (auto simp: replace_operator_def split: prod.splits)
qed (use assms(2) in auto)

subsection \<open>Properties\<close>

lemma reachable_world_valid: "world_valid (run_ledger num evs (quiet_world s))"
  by (rule run_ledger_valid) simp


lemma completed_stays:
  assumes "world_valid w" and "deliveries (ledger w) k = Some v" and "stored_shape v = Some (op, h, 3)"
    and "ExpireRecord k \<notin> set evs"
  shows "deliveries (ledger (run_ledger num evs w)) k = Some v"
  using assms(4)
proof (induction evs rule: rev_induct)
  case (snoc ev evs)
  then have "legal_transition (Some v) (deliveries (ledger (run_ledger num (evs @ [ev]) w)) k)"
    using apply_event_legal [OF run_ledger_valid [OF assms(1), of num evs], of ev k num] by auto
  then show ?case
    using assms(3) by (cases "deliveries (ledger (run_ledger num (evs @ [ev]) w)) k") auto
qed (simp add: assms(2))

text \<open>C5: A completed delivery is final and replays: until its record expires it keeps its stored
  value whatever attempts and operators do, and an attempt with the key of a completed delivery
  reserves nothing, runs no effect and changes nothing; it returns the stored receipt when its
  operation and input are those of the record, and is rejected otherwise.\<close>

theorem completed_delivery_replays:
  assumes "w = run_ledger num evs (quiet_world s)"
    and "deliveries (ledger w) (di_key d) = Some (StoredRecord extra (CompletedRecord op h receipt rcn))"
    and "ExpireRecord (di_key d) \<notin> set evs'"
    and "s' = ledger (run_ledger num evs' w)" and "si_fault e = NoFault" and "si_fault e' = NoFault"
  shows "deliveries s' (di_key d) = Some (StoredRecord extra (CompletedRecord op h receipt rcn)) \<and>
    (\<exists>pending. attempt_step e d (Reserving n) s' = (Inspecting n pending, s') \<and>
       attempt_step e' d (Inspecting n pending) s' =
         (Finished (if op = di_operation d \<and> h = di_hash d then DeliveryReceipt receipt
            else DeliveryRejected ''Delivery Key is already bound to a different operation or input''), s'))"
proof -
  have "deliveries s' (di_key d) = Some (StoredRecord extra (CompletedRecord op h receipt rcn))"
    using completed_stays [OF _ assms(2) _ assms(3)] reachable_world_valid assms(1,4) by simp
  then show ?thesis
    using assms(5,6)
    by (simp add: Let_def storage_set_if_absent_def on_deliveries_def with_fault_def set_item_if_absent_def)
qed

text \<open>C4: A delivery record follows its state machine: no event but its expiry changes the operation
  and input hash a key is bound to; a key is released only while pending; a completed record never
  changes, a retryable one only becomes pending again, an ambiguous one never becomes pending.\<close>

theorem delivery_record_state_machine:
  assumes "w = run_ledger num evs (quiet_world s)" and "ev \<noteq> ExpireRecord k"
    and "deliveries (ledger w) k = Some (StoredRecord extra r)"
  shows "case deliveries (ledger (apply_event num ev w)) k of
      None \<Rightarrow> stored_shape (StoredRecord extra r) = Some (record_operation r, record_input_hash r, 0)
    | Some (StoredInvalid v) \<Rightarrow> False
    | Some (StoredRecord extra' r') \<Rightarrow>
        record_operation r' = record_operation r \<and> record_input_hash r' = record_input_hash r \<and>
        (case r of
           PendingRecord op h i t rcn \<Rightarrow> True
         | AmbiguousRecord op h i t a rcn \<Rightarrow> (\<forall>op h i t rcn. r' \<noteq> PendingRecord op h i t rcn)
         | RetryableRecord op h rcn \<Rightarrow> r' = r \<or> (\<exists>i t rcn'. r' = PendingRecord op h i t rcn')
         | CompletedRecord op h receipt rcn \<Rightarrow> r' = r \<and> extra' = extra)"
proof -
  have "legal_transition (Some (StoredRecord extra r)) (deliveries (ledger (apply_event num ev w)) k)"
    using apply_event_legal [OF _ assms(2), of w num] reachable_world_valid assms(1,3) by simp
  then show ?thesis
    by (cases "deliveries (ledger (apply_event num ev w)) k"; cases r)
      (auto split: stored_value.splits delivery_record.splits)
qed

subsection \<open>A concrete history\<close>

definition sample_delivery :: delivery_input where
  "sample_delivery = \<lparr>di_key = ''k'', di_operation = ''sendMessage'', di_hash = ''h''\<rparr>"

definition sample_receipt :: delivery_receipt where
  "sample_receipt = \<lparr>rcp_delivery_key = ''k'', rcp_operation = ''sendMessage'', rcp_target = JNull, rcp_files = None\<rparr>"

definition sample_input :: "int \<Rightarrow> effect_outcome \<Rightarrow> step_input" where
  "sample_input t outcome = \<lparr>si_now = t, si_uuid = ''u'', si_fault = NoFault, si_outcome = outcome\<rparr>"

abbreviation sample_move :: "nat \<Rightarrow> ledger_event" where
  "sample_move i \<equiv> MoveAttempt i (sample_input 0 (EffectCommitted sample_receipt))"

abbreviation empty_store :: ledger_store where
  "empty_store \<equiv> \<lparr>deliveries = Map.empty, markers = Map.empty\<rparr>"

definition sample_completion :: "ledger_event list" where
  "sample_completion = StartAttempt sample_delivery # replicate 5 (sample_move 0)"

abbreviation sample_world :: ledger_world where
  "sample_world \<equiv> run_ledger fraction_text sample_completion (quiet_world empty_store)"

lemma sample_completed:
  "deliveries (ledger sample_world) ''k'' =
     Some (StoredRecord [] (CompletedRecord ''sendMessage'' ''h'' sample_receipt None))"
  by code_simp

theorem completed_delivery_replays_witness:
  "\<exists>pending. attempt_step (sample_input 9 (EffectFailed [] True)) sample_delivery (Reserving 0)
       (ledger sample_world) =
     (Inspecting 0 pending, ledger sample_world)"
  using completed_delivery_replays [OF refl, of fraction_text sample_completion empty_store sample_delivery
      "[]" "''sendMessage''" "''h''" sample_receipt None "[]" _
      "sample_input 9 (EffectFailed [] True)" "sample_input 9 (EffectFailed [] True)" 0]
    sample_completed
  by (auto simp: sample_delivery_def sample_input_def)

theorem delivery_record_state_machine_witness:
  "(case deliveries (ledger (apply_event fraction_text (InterruptAttempt 0)
      sample_world)) ''k'' of
      Some (StoredRecord extra r) \<Rightarrow> record_operation r = ''sendMessage''
    | _ \<Rightarrow> False)"
  using delivery_record_state_machine [OF refl, of "InterruptAttempt 0" "''k''" fraction_text
      sample_completion empty_store "[]" "CompletedRecord ''sendMessage'' ''h'' sample_receipt None"]
    sample_completed
  by (auto split: option.splits stored_value.splits simp del: apply_event.simps)

subsection \<open>Safe retries\<close>

lemma same_stored_unresolved:
  "same_stored (StoredRecord x r) (StoredRecord y r') \<Longrightarrow> is_unresolved r' \<Longrightarrow> r = r'"
  by (cases r; cases r') (auto simp: same_stored_def)

lemma storage_compare_and_set_changes:
  assumes "storage_compare_and_set f k e v s = (res, s')" and "deliveries s' k' \<noteq> deliveries s k'"
  shows "k' = k \<and> (\<exists>c. deliveries s k = Some c \<and> same_stored c e) \<and> deliveries s' k = Some v"
  using assms
  by (cases f) (auto simp: storage_compare_and_set_def on_deliveries_def with_fault_def
      compare_and_set_item_def split: option.splits if_splits)

definition old_enough_to_retry :: "delivery_record \<Rightarrow> reconciliation \<Rightarrow> bool" where
  "old_enough_to_retry r rcn \<longleftrightarrow>
     (case r of
        PendingRecord op h i t rcn' \<Rightarrow> (case t of None \<Rightarrow> True | Some since \<Rightarrow> rcn_at rcn - since \<ge> 900000)
      | AmbiguousRecord op h i t a rcn' \<Rightarrow> True
      | _ \<Rightarrow> False)"

lemma transition_old_enough:
  assumes "transition_valid (StoredRecord extra old) (RetryableRecord op h rcn) now"
  shows "is_unresolved old \<and> old_enough_to_retry old rcn"
  using assms
  by (cases old) (auto simp: transition_valid_def old_enough_to_retry_def
      pending_safe_retry_minimum_age_ms_def split: option.splits)

lemma reconciler_retry_old_enough:
  assumes "operator_valid (inp, p)" and "reconciler_step num e inp p s = (p', s')"
    and "deliveries s k = Some (StoredRecord extra r)" and "\<not> is_retryable (StoredRecord extra r)"
    and "deliveries s' k = Some (StoredRecord extra' (RetryableRecord op h rcn))"
  shows "old_enough_to_retry r rcn"
proof (cases p)
  case (RcWriting n raw r' now)
  obtain res s1 where st: "storage_compare_and_set (si_fault e) (rci_key inp) raw (preserve_stored_fields raw r') s = (res, s1)"
    by (metis surj_pair)
  then have s1: "s1 = s'" using assms(2) by (auto simp: RcWriting split: option.splits bool.splits)
  have "deliveries s' k \<noteq> deliveries s k" using assms(3-5) by auto
  from storage_compare_and_set_changes [OF st [unfolded s1] this] assms(3,5)
  have c: "same_stored (StoredRecord extra r) raw"
      "preserve_stored_fields raw r' = StoredRecord extra' (RetryableRecord op h rcn)"
    by auto
  have tv: "transition_valid raw r' now" using assms(1) by (simp add: RcWriting)
  then obtain extra2 old where raw: "raw = StoredRecord extra2 old" by (auto simp: transition_valid_def)
  then have r': "r' = RetryableRecord op h rcn" using c(2) by simp
  from transition_old_enough [OF tv [unfolded raw r']] same_stored_unresolved [OF c(1) [unfolded raw]]
  show ?thesis by simp
qed (use assms in \<open>auto split: sum.splits option.splits prod.splits fault.splits if_splits\<close>)

text \<open>C6: A retry is only declared safe when the original attempt cannot still be running by the
  code's rule: a record that becomes retryable was ambiguous, or was pending since at least fifteen
  minutes before the reconciliation that is recorded with it, or carried no reservation time.\<close>

theorem safe_retry_needs_age:
  assumes "w = run_ledger num evs (quiet_world s)"
    and "deliveries (ledger w) k = Some (StoredRecord extra r)"
    and "\<forall>op h rcn. r \<noteq> RetryableRecord op h rcn"
    and "deliveries (ledger (apply_event num ev w)) k = Some (StoredRecord extra' (RetryableRecord op h rcn))"
  shows "case r of
      PendingRecord op' h' i None rcn' \<Rightarrow> True
    | PendingRecord op' h' i (Some since) rcn' \<Rightarrow> rcn_at rcn - since \<ge> 15 * 60 * 1000
    | AmbiguousRecord op' h' i t a rcn' \<Rightarrow> True
    | _ \<Rightarrow> False"
proof -
  have w: "world_valid w" using assms(1) reachable_world_valid by simp
  have nr: "\<not> is_retryable (StoredRecord extra r)" using assms(3) by (cases r) auto
  have "old_enough_to_retry r rcn"
  proof (cases ev)
    case (MoveAttempt i e)
    then show ?thesis
      using assms(2,4) nr attempt_step_legal [of _ _ e "ledger w" _ _ k] attempt_valid_nth [OF w, of i]
      by (fastforce simp: replace_attempt_def split: prod.splits if_splits)
  next
    case (MoveOperator i e)
    show ?thesis
    proof (cases "i < length (operators w)")
      case True
      obtain inp p p' s' where at: "operators w ! i = (inp, p)" "reconciler_step num e inp p (ledger w) = (p', s')"
        by (metis surj_pair)
      from reconciler_retry_old_enough [OF _ at(2) assms(2) nr] operator_valid_nth [OF w True] assms(4) True
      show ?thesis by (simp add: MoveOperator at replace_operator_def)
    qed (use assms(2,4) nr in \<open>auto simp: MoveOperator\<close>)
  qed (use assms(2,4) nr in \<open>auto simp: replace_attempt_def replace_operator_def split: prod.splits if_splits\<close>)
  then show ?thesis
    by (auto simp: old_enough_to_retry_def split: delivery_record.splits option.splits)
qed

definition sample_retry :: reconcile_input where
  "sample_retry = \<lparr>rci_key = ''k'', rci_actor = ''op'', rci_evidence = ''log'', rci_resolution = ResolveSafeRetry\<rparr>"

definition sample_quarter_hour :: "ledger_event list" where
  "sample_quarter_hour = [StartAttempt sample_delivery, sample_move 0, InterruptAttempt 0,
     StartOperator sample_retry, MoveOperator 0 (sample_input 900000 (EffectFailed [] True))]"

abbreviation sample_waiting :: ledger_world where
  "sample_waiting \<equiv> run_ledger fraction_text sample_quarter_hour (quiet_world empty_store)"

definition sample_pending :: delivery_record where
  "sample_pending = PendingRecord ''sendMessage'' ''h'' (Some ''u'') (Some 0) None"

definition sample_verdict :: reconciliation where
  "sample_verdict = \<lparr>rcn_actor = ''op'', rcn_evidence = ''log'', rcn_at = 900000\<rparr>"

lemma sample_waiting_records:
  "deliveries (ledger sample_waiting) ''k'' = Some (StoredRecord [] sample_pending)"
  "deliveries (ledger (apply_event fraction_text (MoveOperator 0 (sample_input 900001 (EffectFailed [] True)))
     sample_waiting)) ''k'' = Some (StoredRecord [] (RetryableRecord ''sendMessage'' ''h'' sample_verdict))"
  by code_simp+

theorem safe_retry_needs_age_witness: "rcn_at sample_verdict - 0 \<ge> 15 * 60 * 1000"
  using safe_retry_needs_age [OF refl sample_waiting_records(1) _ sample_waiting_records(2)]
  by (simp add: sample_pending_def)

subsection \<open>Lost markers\<close>

text \<open>
  A first attempt ends ambiguous, an operator allows a retry, and a second attempt takes the key
  between the operator's transition and its removal of the marker.
\<close>

definition lost_marker_history :: "ledger_event list" where
  "lost_marker_history =
     [StartAttempt sample_delivery] @
     replicate 4 (MoveAttempt 0 (sample_input 0 (EffectFailed ''timeout'' False))) @
     [StartOperator sample_retry] @
     replicate 2 (MoveOperator 0 (sample_input 1000 (EffectFailed [] True))) @
     [StartAttempt sample_delivery] @ replicate 4 (sample_move 1) @
     [MoveOperator 0 (sample_input 1001 (EffectFailed [] True)), InterruptAttempt 1]"

fun undisturbed :: "ledger_event \<Rightarrow> bool" where
  "undisturbed (MoveAttempt i e) = (case si_fault e of NoFault \<Rightarrow> True | _ \<Rightarrow> False)"
| "undisturbed (MoveOperator i e) = (case si_fault e of NoFault \<Rightarrow> True | _ \<Rightarrow> False)"
| "undisturbed (ExpireRecord k) = False"
| "undisturbed (ExpireMarker k) = False"
| "undisturbed ev = True"

fun attempt_ended :: "attempt_phase \<Rightarrow> bool" where
  "attempt_ended (Finished res) = True"
| "attempt_ended Interrupted = True"
| "attempt_ended p = False"

fun operator_ended :: "reconcile_phase \<Rightarrow> bool" where
  "operator_ended (RcFinished res) = True"
| "operator_ended RcInterrupted = True"
| "operator_ended p = False"

definition unresolved_at :: "ledger_store \<Rightarrow> string \<Rightarrow> bool" where
  "unresolved_at s k = (case deliveries s k of Some (StoredRecord extra r) \<Rightarrow> is_unresolved r | _ \<Rightarrow> False)"

text \<open>The index of unresolved deliveries can miss one: there is a history without expiry and
  without a storage fault after which a key's record is unresolved, every attempt and operator has
  ended, and the key has no marker, so that no scan of the markers reports it.\<close>

theorem unresolved_marker_can_be_lost:
  "\<exists>evs w. list_all undisturbed evs \<and> w = run_ledger fraction_text evs (quiet_world empty_store) \<and>
     list_all (attempt_ended \<circ> snd) (attempts w) \<and> list_all (operator_ended \<circ> snd) (operators w) \<and>
     unresolved_at (ledger w) ''k'' \<and> markers (ledger w) ''k'' = None"
proof (intro exI conjI)
  show "list_all undisturbed lost_marker_history" by code_simp
qed (rule refl, code_simp+)

subsection \<open>The text that is hashed\<close>

primrec reorder_json :: "json \<Rightarrow> json" where
  "reorder_json JNull = JNull"
| "reorder_json (JBool b) = JBool b"
| "reorder_json (JNum n) = JNum n"
| "reorder_json (JStr s) = JStr s"
| "reorder_json (JArr vs) = JArr (map reorder_json vs)"
| "reorder_json (JObj kvs) = JObj (js_property_order (map (map_prod (\<lambda>k. k) reorder_json) kvs))"

lemma sort_key_constant: "(\<And>x. x \<in> set xs \<Longrightarrow> g x = c) \<Longrightarrow> sort_key g xs = xs"
  using sort_key_stable [of g c xs] by (metis (mono_tags, lifting) filter_True set_sort)

lemma filter_js_property_order:
  "filter (\<lambda>x. fst k = fst x) (js_property_order kvs) = filter (\<lambda>x. fst k = fst x) kvs"
proof -
  have "sort_key (digits_value \<circ> fst) (filter (\<lambda>x. fst k = fst x) xs) = filter (\<lambda>x. fst k = fst x) xs"
    for xs :: "(string \<times> 'a) list"
    by (rule sort_key_constant [where c = "digits_value (fst k)"]) auto
  moreover have "filter (\<lambda>x. is_array_index (fst x) \<and> fst k = fst x) kvs =
      (if is_array_index (fst k) then filter (\<lambda>x. fst k = fst x) kvs else [])"
    by (induction kvs) auto
  moreover have "filter (\<lambda>x. \<not> is_array_index (fst x) \<and> fst k = fst x) kvs =
      (if is_array_index (fst k) then [] else filter (\<lambda>x. fst k = fst x) kvs)"
    by (induction kvs) auto
  ultimately show ?thesis
    by (auto simp: js_property_order_def filter_sort)
qed

lemma sort_js_property_order:
  "sort_key fst (js_property_order kvs) = sort_key fst (kvs :: (string \<times> 'a) list)"
proof (rule properties_for_sort_key)
  show "mset (sort_key fst kvs) = mset (js_property_order kvs)"
    by (simp add: js_property_order_def comp_def)
  show "filter (\<lambda>x. fst k = fst x) (sort_key fst kvs) = filter (\<lambda>x. fst k = fst x) (js_property_order kvs)"
    for k :: "string \<times> 'a"
    using sort_key_stable [of fst "fst k" kvs] filter_js_property_order [of k kvs] by (simp add: eq_commute)
qed simp

lemma sort_key_map: "sort_key f (map m xs) = map m (sort_key (\<lambda>x. f (m x)) xs)"
proof -
  have "insort_key f (m x) (map m ys) = map m (insort_key (\<lambda>x. f (m x)) x ys)" for x ys
    by (induction ys) auto
  then show ?thesis by (induction xs) auto
qed

lemma map_js_property_order:
  "map (map_prod (\<lambda>k. k) h) (js_property_order kvs) = js_property_order (map (map_prod (\<lambda>k. k) h) kvs)"
  by (simp add: js_property_order_def filter_map sort_key_map comp_def)

lemma canonicalize_reorder: "canonicalize_json v = reorder_json (sort_json v)"
proof (induction v)
  case (JObj kvs)
  then have "map (map_prod (\<lambda>k. k) canonicalize_json) kvs =
      map (map_prod (\<lambda>k. k) reorder_json) (map (map_prod (\<lambda>k. k) sort_json) kvs)"
    by (force simp: map_prod_def)
  then show ?case
    by (simp add: sort_key_map_values del: map_map)
qed auto

lemma sort_json_reorder: "sort_json (reorder_json v) = sort_json v"
proof (induction v)
  case (JObj kvs)
  then have "map (map_prod (\<lambda>k. k) sort_json) (map (map_prod (\<lambda>k. k) reorder_json) kvs) =
      map (map_prod (\<lambda>k. k) sort_json) kvs"
    by (force simp: map_prod_def)
  then show ?case
    by (simp add: map_js_property_order sort_js_property_order del: map_map)
qed auto

lemma sort_json_idem: "sort_json (sort_json v) = sort_json v"
proof (induction v)
  case (JObj kvs)
  then have "map (map_prod (\<lambda>k. k) sort_json) (map (map_prod (\<lambda>k. k) sort_json) kvs) =
      map (map_prod (\<lambda>k. k) sort_json) kvs"
    by (force simp: map_prod_def)
  moreover have "sort_key fst (sort_key fst xs) = sort_key fst xs" for xs :: "(string \<times> json) list"
    by (rule sort_key_id_if_sorted) simp
  ultimately show ?case
    by (simp add: sort_key_map_values [symmetric] del: map_map)
qed auto

text \<open>The text that is hashed for a delivery's input identifies the input up to the order of
  object members: two inputs have the same text exactly when they are the same JSON value, the
  text of a number being determined by the number.\<close>

theorem hashed_text_identifies_input:
  assumes "number_text num"
  shows "ledger_stable_json num v = ledger_stable_json num w \<longleftrightarrow> jsonb_eq v w"
proof -
  have "canonicalize_json v = canonicalize_json w \<Longrightarrow> sort_json v = sort_json w"
    by (metis canonicalize_reorder sort_json_reorder sort_json_idem)
  then show ?thesis
    using canonicalize_reorder [of v] canonicalize_reorder [of w]
    by (auto simp: ledger_stable_json_def json_stringify_inject [OF assms] jsonb_eq_def)
qed

theorem hashed_text_identifies_input_witness:
  "ledger_stable_json fraction_text (JObj [(''10'', JNull), (''9'', JBool True)]) =
   ledger_stable_json fraction_text (JObj [(''9'', JBool True), (''10'', JNull)])"
  using hashed_text_identifies_input [OF fraction_text_number_text,
      of "JObj [(''10'', JNull), (''9'', JBool True)]" "JObj [(''9'', JBool True), (''10'', JNull)]"]
  by (simp add: jsonb_eq_def)

end
