(* ===== verification/DeliveryScan.thy ===== *)
theory DeliveryScan
  imports DeliveryLedger
begin

text \<open>
  The background scans of the delivery store (\<^verbatim>\<open>botCapabilityStore.ts\<close>): the backfill of the
  index of unresolved deliveries at start-up, and the metric scan that walks the index page by page
  with a carried overflow. Scanning keys is the storage's business; the in-process fallback
  (\<^verbatim>\<open>shared.ts\<close> of \<^verbatim>\<open>dfx-discord-utils\<close>) is modelled, any other backend is a parameter.
  Pages are processed one key after the other; the code does up to sixteen at a time, and they
  touch different markers.
\<close>

subsection \<open>Scanning keys\<close>

record key_scan =
  ks_cursor :: string
  ks_keys :: "string list"

definition is_js_digit :: "char \<Rightarrow> bool" where
  "is_js_digit c \<longleftrightarrow> c \<in> set ''0123456789''"

text \<open>\<open>Number.parseInt(s, 10)\<close>; \<open>None\<close> is \<open>NaN\<close>.\<close>

definition number_parse_int :: "string \<Rightarrow> int option" where
  "number_parse_int s =
     (let t = dropWhile is_js_space s;
          u = (if t \<noteq> [] \<and> hd t \<in> {CHR ''-'', CHR ''+''} then tl t else t);
          ds = takeWhile is_js_digit u
      in if ds = [] then None
         else Some (if t \<noteq> [] \<and> hd t = CHR ''-'' then - int (digits_value ds) else int (digits_value ds)))"

definition max_safe_integer :: int where
  "max_safe_integer = 9007199254740991"

definition scan_keys :: "string list \<Rightarrow> string \<Rightarrow> nat \<Rightarrow> key_scan" where
  "scan_keys keys cursor limit =
     (let offset = (case number_parse_int cursor of
            None \<Rightarrow> 0
          | Some p \<Rightarrow> if \<bar>p\<bar> \<le> max_safe_integer \<and> p \<ge> 0 then nat p else 0);
          next_offset = offset + limit
      in \<lparr>ks_cursor = (if next_offset < length keys then nat_text next_offset else ''0''),
          ks_keys = take limit (drop offset keys)\<rparr>)"

lemma digit_not_special:
  assumes "c \<in> set ''0123456789''"
  shows "\<not> is_js_space c \<and> c \<noteq> CHR ''-'' \<and> c \<noteq> CHR ''+''"
proof -
  have "list_all (\<lambda>c. \<not> is_js_space c \<and> c \<noteq> CHR ''-'' \<and> c \<noteq> CHR ''+'') ''0123456789''" by code_simp
  from this [unfolded list_all_iff] assms show ?thesis by (rule bspec)
qed

lemma number_parse_int_nat_text: "number_parse_int (nat_text n) = Some (int n)"
proof -
  obtain c r where cr: "nat_text n = c # r" by (cases "nat_text n") simp_all
  have "c \<in> set ''0123456789''"
    by (rule subsetD [OF nat_text_chars [of n]]) (simp only: cr list.set_intros)
  note c = cr this
  have "dropWhile is_js_space (nat_text n) = nat_text n"
    using digit_not_special [OF c(2)] by (simp add: cr)
  moreover have "takeWhile is_js_digit (nat_text n) = nat_text n"
    using nat_text_chars [of n] by (simp only: takeWhile_eq_all_conv is_js_digit_def subset_iff Ball_def)
  ultimately show ?thesis
    using digit_not_special [OF c(2)] c(1) digits_value_nat_text [of n] by (simp add: number_parse_int_def)
qed

subsection \<open>Backfill\<close>

definition delivery_prefix :: string where
  "delivery_prefix = ''capabilities:deliveries:''"

definition unresolved_inspection_limit :: nat where
  "unresolved_inspection_limit = 1000"

text \<open>The key schema is a parameter: a decoded delivery key is its text.\<close>

definition backfill_key :: "(string \<Rightarrow> bool) \<Rightarrow> (string \<Rightarrow> fault) \<Rightarrow> string \<Rightarrow> ledger_store \<Rightarrow> ledger_store" where
  "backfill_key valid_key fault_at record_key s =
     (let key = drop (length delivery_prefix) record_key in
      if \<not> valid_key key then s
      else case read_delivery_record (fault_at key) key s of
        Inr (Some (extra, r)) \<Rightarrow> if is_unresolved r then mark_unresolved key (record_operation r) s else s
      | _ \<Rightarrow> s)"

datatype backfill_result = BackfillCompleted (backfill_pages: nat) | BackfillStopped (backfill_pages: nat)

text \<open>
  The loop: \<open>scan\<close> is the storage (it may answer differently at every page, or fail); the
  result is the page count and the store, or the storage's error.
\<close>

partial_function (option) backfill_from ::
    "(nat \<Rightarrow> string \<Rightarrow> nat \<Rightarrow> key_scan option) \<Rightarrow> (string \<Rightarrow> ledger_store \<Rightarrow> ledger_store) \<Rightarrow>
     nat \<Rightarrow> string list \<Rightarrow> string \<Rightarrow> ledger_store \<Rightarrow> (string + backfill_result \<times> ledger_store) option" where
  "backfill_from scan process pages visited cursor s =
     (if cursor \<in> set visited then Some (Inr (BackfillStopped pages, s))
      else case scan pages cursor unresolved_inspection_limit of
        None \<Rightarrow> Some (Inl ''Bot capability storage inspection failed'')
      | Some page \<Rightarrow>
          let s' = fold process (ks_keys page) s in
          if ks_cursor page \<noteq> ''0''
          then backfill_from scan process (Suc pages) (cursor # visited) (ks_cursor page) s'
          else Some (Inr (BackfillCompleted (Suc pages), s')))"

definition backfill_delivery_reservation_index ::
    "(nat \<Rightarrow> string \<Rightarrow> nat \<Rightarrow> key_scan option) \<Rightarrow> (string \<Rightarrow> bool) \<Rightarrow> (string \<Rightarrow> fault) \<Rightarrow> ledger_store \<Rightarrow>
     (string + backfill_result \<times> ledger_store) option" where
  "backfill_delivery_reservation_index scan valid_key fault_at =
     backfill_from scan (backfill_key valid_key fault_at) 0 [] ''0''"

declare backfill_from.simps [code]

lemma backfill_step:
  "cursor \<notin> set visited \<Longrightarrow> scan pages cursor unresolved_inspection_limit = Some page \<Longrightarrow>
   backfill_from scan process pages visited cursor s =
     (if ks_cursor page = ''0''
      then Some (Inr (BackfillCompleted (Suc pages), fold process (ks_keys page) s))
      else backfill_from scan process (Suc pages) (cursor # visited) (ks_cursor page)
        (fold process (ks_keys page) s))"
  by (subst backfill_from.simps) (simp add: Let_def)

lemma backfill_from_terminates:
  assumes "finite C" and "\<forall>n c l page. scan n c l = Some page \<longrightarrow> ks_cursor page \<in> C"
    and "distinct visited" and "set visited \<subseteq> C" and "cursor \<in> C"
  shows "\<exists>res. backfill_from scan process pages visited cursor s = Some res \<and>
    (\<forall>r s'. res = Inr (r, s') \<longrightarrow> backfill_pages r + length visited \<le> pages + card C)"
  using assms(3-)
proof (induction "card C - length visited" arbitrary: pages visited cursor s rule: less_induct)
  case less
  have len: "length visited \<le> card C"
    using card_mono [OF assms(1) less.prems(2)] less.prems(1) by (simp add: distinct_card)
  show ?case
  proof (cases "cursor \<in> set visited")
    case True
    then show ?thesis using len by (subst backfill_from.simps) simp
  next
    case new: False
    have "card (set (cursor # visited)) \<le> card C"
      using less.prems assms(1) by (intro card_mono) auto
    then have len: "Suc (length visited) \<le> card C"
      using new less.prems(1) by (simp add: distinct_card)
    show ?thesis
    proof (cases "scan pages cursor unresolved_inspection_limit")
      case None
      then show ?thesis using new by (subst backfill_from.simps) simp
    next
      case (Some page)
      have "ks_cursor page \<in> C" using assms(2) Some by blast
      then show ?thesis
        using less.hyps [of "cursor # visited" "ks_cursor page" "Suc pages" "fold process (ks_keys page) s"]
          len new less.prems Some by (simp add: backfill_step)
    qed
  qed
qed

subsection \<open>Backfill over the in-process storage\<close>

definition unresolved_operation :: "ledger_store \<Rightarrow> string \<Rightarrow> string option" where
  "unresolved_operation s k =
     (case deliveries s k of
        Some (StoredRecord extra r) \<Rightarrow> if is_unresolved r then Some (record_operation r) else None
      | _ \<Rightarrow> None)"

lemma backfill_in_process:
  assumes "int (length keys) \<le> max_safe_integer" and "int offset \<le> max_safe_integer"
    and "set visited \<subseteq> nat_text ` {..<offset}"
  shows "\<exists>n. backfill_from (\<lambda>_ c l. Some (scan_keys keys c l)) process pages visited (nat_text offset) s =
    Some (Inr (BackfillCompleted n, fold process (drop offset keys) s))"
  using assms(2,3)
proof (induction "length keys - offset" arbitrary: offset pages visited s rule: less_induct)
  case less
  have new: "nat_text offset \<notin> set visited"
    using less.prems(2) by (auto simp: nat_text_inject)
  have zero: "nat_text m = ''0'' \<longleftrightarrow> m = 0" for m
  proof -
    have "nat_text 0 = ''0''" by code_simp
    then show ?thesis using nat_text_inject [of m 0] by simp
  qed
  have page: "scan_keys keys (nat_text offset) unresolved_inspection_limit =
      \<lparr>ks_cursor = (if offset + 1000 < length keys then nat_text (offset + 1000) else ''0''),
       ks_keys = take 1000 (drop offset keys)\<rparr>"
    using less.prems(1)
    by (simp add: scan_keys_def number_parse_int_nat_text unresolved_inspection_limit_def Let_def)
  show ?case
  proof (cases "offset + 1000 < length keys")
    case True
    have "set (nat_text offset # visited) \<subseteq> nat_text ` {..<offset + 1000}"
      using less.prems(2) by auto
    then have "\<exists>n. backfill_from (\<lambda>_ c l. Some (scan_keys keys c l)) process (Suc pages) (nat_text offset # visited)
        (nat_text (offset + 1000)) (fold process (take 1000 (drop offset keys)) s) =
      Some (Inr (BackfillCompleted n, fold process (drop (offset + 1000) keys)
        (fold process (take 1000 (drop offset keys)) s)))"
      using True assms(1) by (intro less.hyps) auto
    moreover have "take 1000 (drop offset keys) @ drop (offset + 1000) keys = drop offset keys"
      using append_take_drop_id [of 1000 "drop offset keys"] by (simp add: add.commute)
    then have "fold process (drop (offset + 1000) keys) (fold process (take 1000 (drop offset keys)) s) =
        fold process (drop offset keys) s"
      by (metis comp_apply fold_append)
    ultimately show ?thesis
      using new True by (subst backfill_step [OF _ refl]) (auto simp: page zero)
  next
    case False
    then show ?thesis
      using new by (subst backfill_step [OF _ refl]) (auto simp: page)
  qed
qed

lemma backfill_key_markers:
  "backfill_key valid_key (\<lambda>_. NoFault) (delivery_prefix @ k) s =
     s\<lparr>markers := (case unresolved_operation s k of
        Some op \<Rightarrow> if valid_key k then (markers s)(k \<mapsto> op) else markers s
      | None \<Rightarrow> markers s)\<rparr>"
  by (auto simp: backfill_key_def unresolved_operation_def read_delivery_record_def mark_unresolved_def
      split: option.split stored_value.split)

lemma fold_backfill_key:
  assumes "\<forall>x \<in> set xs. \<exists>k. x = delivery_prefix @ k"
  shows "fold (backfill_key valid_key (\<lambda>_. NoFault)) xs s =
    s\<lparr>markers := \<lambda>k. case unresolved_operation s k of
        Some op \<Rightarrow> if valid_key k \<and> delivery_prefix @ k \<in> set xs then Some op else markers s k
      | None \<Rightarrow> markers s k\<rparr>"
  using assms
proof (induction xs rule: rev_induct)
  case (snoc x xs)
  obtain k where k: "x = delivery_prefix @ k" using snoc.prems by auto
  define s1 where "s1 = fold (backfill_key valid_key (\<lambda>_. NoFault)) xs s"
  have s1: "s1 = s\<lparr>markers := \<lambda>k. case unresolved_operation s k of
        Some op \<Rightarrow> if valid_key k \<and> delivery_prefix @ k \<in> set xs then Some op else markers s k
      | None \<Rightarrow> markers s k\<rparr>"
    using snoc by (simp add: s1_def)
  have "unresolved_operation s1 j = unresolved_operation s j" for j
    by (simp add: s1 unresolved_operation_def)
  then have "fold (backfill_key valid_key (\<lambda>_. NoFault)) (xs @ [x]) s = s1\<lparr>markers := (case unresolved_operation s k of
        Some op \<Rightarrow> if valid_key k then (markers s1)(k \<mapsto> op) else markers s1
      | None \<Rightarrow> markers s1)\<rparr>"
    by (simp add: k backfill_key_markers flip: s1_def)
  also have "(case unresolved_operation s k of
        Some op \<Rightarrow> if valid_key k then (markers s1)(k \<mapsto> op) else markers s1
      | None \<Rightarrow> markers s1) = (\<lambda>j. case unresolved_operation s j of
        Some op \<Rightarrow> if valid_key j \<and> delivery_prefix @ j \<in> set (xs @ [x]) then Some op else markers s j
      | None \<Rightarrow> markers s j)"
    by (rule ext) (auto simp: s1 k split: option.split)
  finally show ?case by (simp add: s1)
next
  case Nil
  show ?case by (cases s) (auto simp: fun_eq_iff split: option.split)
qed

text \<open>C38: The backfill ends whatever the storage answers: if the cursors it hands out come from a
  finite set (at any time, pages and failures arbitrary), the loop returns, after at most one page
  for each possible cursor.\<close>

theorem backfill_terminates:
  assumes "finite C" and "''0'' \<in> C" and "\<forall>n c l page. scan n c l = Some page \<longrightarrow> ks_cursor page \<in> C"
  shows "\<exists>res. backfill_delivery_reservation_index scan valid_key fault_at s = Some res \<and>
    (\<forall>r s'. res = Inr (r, s') \<longrightarrow> backfill_pages r \<le> card C)"
  using backfill_from_terminates [OF assms(1,3), of "[]" "''0''"] assms(2)
  by (force simp: backfill_delivery_reservation_index_def)

theorem backfill_terminates_witness:
  "\<exists>res. backfill_delivery_reservation_index (\<lambda>n c l. Some \<lparr>ks_cursor = ''7'', ks_keys = []\<rparr>)
     (\<lambda>_. True) (\<lambda>_. NoFault) \<lparr>deliveries = Map.empty, markers = Map.empty\<rparr> = Some res"
  using backfill_terminates [of "{''0'', ''7''}" "\<lambda>n c l. Some \<lparr>ks_cursor = ''7'', ks_keys = []\<rparr>"
      "\<lambda>_. True" "\<lambda>_. NoFault" "\<lparr>deliveries = Map.empty, markers = Map.empty\<rparr>"]
  by auto

text \<open>Over the in-process storage with a stable listing the backfill completes and indexes exactly
  the unresolved deliveries: it marks every listed valid key whose record is unresolved with the
  record's operation, keeps every other marker, and changes no delivery record.\<close>

theorem backfill_marks_unresolved:
  assumes "int (length keys) \<le> max_safe_integer" and "\<forall>x \<in> set keys. \<exists>k. x = delivery_prefix @ k"
  shows "\<exists>n. backfill_delivery_reservation_index (\<lambda>_ c l. Some (scan_keys keys c l)) valid_key (\<lambda>_. NoFault) s =
    Some (Inr (BackfillCompleted n, s\<lparr>markers := \<lambda>k. case unresolved_operation s k of
        Some op \<Rightarrow> if valid_key k \<and> delivery_prefix @ k \<in> set keys then Some op else markers s k
      | None \<Rightarrow> markers s k\<rparr>))"
proof -
  have "nat_text 0 = ''0''" by code_simp
  then show ?thesis
    using backfill_in_process [OF assms(1), of 0 "[]" "backfill_key valid_key (\<lambda>_. NoFault)" 0 s]
    by (simp add: backfill_delivery_reservation_index_def fold_backfill_key [OF assms(2)] max_safe_integer_def)
qed

definition sample_store :: ledger_store where
  "sample_store = \<lparr>deliveries = [''k'' \<mapsto> StoredRecord [] (PendingRecord ''respond'' ''h'' None None None)],
     markers = Map.empty\<rparr>"

theorem backfill_marks_unresolved_witness:
  "\<exists>n s'. backfill_delivery_reservation_index (\<lambda>_ c l. Some (scan_keys [delivery_prefix @ ''k''] c l))
      (\<lambda>_. True) (\<lambda>_. NoFault) sample_store = Some (Inr (BackfillCompleted n, s')) \<and>
    markers s' ''k'' = Some ''respond''"
  using backfill_marks_unresolved [of "[delivery_prefix @ ''k'']" "\<lambda>_. True" sample_store]
  by (auto simp: max_safe_integer_def unresolved_operation_def sample_store_def)

subsection \<open>The metric scan\<close>

definition unresolved_delivery_prefix :: string where
  "unresolved_delivery_prefix = ''capabilities:unresolved-deliveries:''"

record scan_metrics =
  sm_markers :: nat
  sm_count :: nat
  sm_oldest_age :: rat
  sm_saturated :: bool

definition no_metrics :: scan_metrics where
  "no_metrics = \<lparr>sm_markers = 0, sm_count = 0, sm_oldest_age = 0, sm_saturated = False\<rparr>"

record scan_state =
  sc_cursor :: string
  sc_overflow :: "string list"
  sc_cycle :: scan_metrics
  sc_completed :: bool
  sc_published :: scan_metrics

definition initial_scan :: scan_state where
  "initial_scan = \<lparr>sc_cursor = ''0'', sc_overflow = [], sc_cycle = no_metrics, sc_completed = False,
     sc_published = no_metrics\<rparr>"

text \<open>
  Inspecting a marker: the age in seconds of the unresolved record it points to, if there is one;
  a marker of an undecodable key or of a settled or missing record is removed, errors being
  ignored. The faults of the read and of the removal are parameters.
\<close>

definition inspect_unresolved_marker ::
    "(string \<Rightarrow> bool) \<Rightarrow> (string \<Rightarrow> fault) \<Rightarrow> (string \<Rightarrow> fault) \<Rightarrow> int \<Rightarrow> string \<Rightarrow> ledger_store \<Rightarrow>
     rat option \<times> ledger_store" where
  "inspect_unresolved_marker valid_key read_fault remove_fault now marker_key s =
     (let key = drop (length unresolved_delivery_prefix) marker_key;
          removed = (if remove_fault key = FailedBefore then s else clear_unresolved key s)
      in if \<not> valid_key key then (None, removed)
         else case read_delivery_record (read_fault key) key s of
           Inl e \<Rightarrow> (None, s)
         | Inr None \<Rightarrow> (None, removed)
         | Inr (Some (extra, r)) \<Rightarrow>
             if is_unresolved r
             then (Some (of_int (effective_reservation_age_ms (record_reserved_at r) now) / 1000), s)
             else (None, removed))"

fun inspect_markers ::
    "(string \<Rightarrow> ledger_store \<Rightarrow> rat option \<times> ledger_store) \<Rightarrow> string list \<Rightarrow> ledger_store \<Rightarrow>
     rat option list \<times> ledger_store" where
  "inspect_markers inspect [] s = ([], s)"
| "inspect_markers inspect (k # ks) s =
     (case inspect k s of (age, s') \<Rightarrow>
      (case inspect_markers inspect ks s' of (ages, s'') \<Rightarrow> (age # ages, s'')))"

text \<open>The page to scan, if one has to be scanned: the cursor and the limit.\<close>

definition scan_request :: "scan_state \<Rightarrow> (string \<times> nat) option" where
  "scan_request st =
     (if sc_overflow st = [] \<or> length (sc_overflow st) < unresolved_inspection_limit \<and> sc_cursor st \<noteq> ''0''
      then Some (sc_cursor st, unresolved_inspection_limit + 1 - length (sc_overflow st))
      else None)"

definition load_unresolved_scan_page ::
    "(string \<Rightarrow> nat \<Rightarrow> key_scan option) \<Rightarrow> scan_state \<Rightarrow> (string list \<times> string) option" where
  "load_unresolved_scan_page scan st =
     (case scan_request st of
        None \<Rightarrow> Some (sc_overflow st, sc_cursor st)
      | Some (cursor, limit) \<Rightarrow>
          map_option (\<lambda>page. (sc_overflow st @ ks_keys page, ks_cursor page)) (scan cursor limit))"

definition cycle_metrics :: "scan_metrics \<Rightarrow> rat option list \<Rightarrow> nat \<Rightarrow> scan_metrics" where
  "cycle_metrics m ages remaining =
     \<lparr>sm_markers = sm_markers m + length ages,
      sm_count = sm_count m + length (filter (\<lambda>a. a \<noteq> None) ages),
      sm_oldest_age = max (sm_oldest_age m)
        (foldl (\<lambda>oldest age. case age of Some a \<Rightarrow> max oldest a | None \<Rightarrow> oldest) 0 ages),
      sm_saturated = (sm_saturated m \<or> remaining > 0)\<rparr>"

definition capture_snapshot :: "bool \<Rightarrow> scan_state \<Rightarrow> scan_state" where
  "capture_snapshot cycle_complete st =
     (if \<not> cycle_complete \<and> sc_completed st then st
      else st\<lparr>sc_published := sc_cycle st, sc_completed := sc_completed st \<or> cycle_complete\<rparr>)"

definition reset_cycle :: "bool \<Rightarrow> scan_state \<Rightarrow> scan_state" where
  "reset_cycle cycle_complete st = (if cycle_complete then st\<lparr>sc_cycle := no_metrics\<rparr> else st)"

definition refresh_delivery_reservation_metrics ::
    "(string \<Rightarrow> nat \<Rightarrow> key_scan option) \<Rightarrow> (string \<Rightarrow> ledger_store \<Rightarrow> rat option \<times> ledger_store) \<Rightarrow>
     scan_state \<Rightarrow> ledger_store \<Rightarrow> (string + unit) \<times> scan_state \<times> ledger_store" where
  "refresh_delivery_reservation_metrics scan inspect st s =
     (case load_unresolved_scan_page scan st of
        None \<Rightarrow> (Inl ''Bot capability storage inspection failed'', st, s)
      | Some (scanned, next_cursor) \<Rightarrow>
          let inspected = take unresolved_inspection_limit scanned;
              remaining = drop unresolved_inspection_limit scanned
          in case inspect_markers inspect inspected s of (ages, s') \<Rightarrow>
            let cycle_complete = (remaining = [] \<and> next_cursor = ''0'');
                st' = st\<lparr>sc_cursor := next_cursor, sc_overflow := remaining,
                  sc_cycle := cycle_metrics (sc_cycle st) ages (length remaining)\<rparr>
            in (Inr (), reset_cycle cycle_complete (capture_snapshot cycle_complete st'), s'))"

text \<open>
  Any number of refreshes, each with its own answers of the storage; the trace is what each
  refresh fetched and inspected, with the verdicts. A cycle begins where the previous one ended.
\<close>

record scan_round =
  rd_scan :: "string \<Rightarrow> nat \<Rightarrow> key_scan option"
  rd_inspect :: "string \<Rightarrow> ledger_store \<Rightarrow> rat option \<times> ledger_store"

definition refresh_round :: "scan_round \<Rightarrow> scan_state \<times> ledger_store \<Rightarrow> scan_state \<times> ledger_store" where
  "refresh_round r w = snd (refresh_delivery_reservation_metrics (rd_scan r) (rd_inspect r) (fst w) (snd w))"

definition round_page :: "scan_round \<Rightarrow> scan_state \<Rightarrow> string list" where
  "round_page r st =
     (case scan_request st of
        None \<Rightarrow> []
      | Some (cursor, limit) \<Rightarrow> (case rd_scan r cursor limit of None \<Rightarrow> [] | Some page \<Rightarrow> ks_keys page))"

definition round_failed :: "scan_round \<Rightarrow> scan_state \<Rightarrow> bool" where
  "round_failed r st \<longleftrightarrow> load_unresolved_scan_page (rd_scan r) st = None"

definition round_inspected :: "scan_round \<Rightarrow> scan_state \<Rightarrow> string list" where
  "round_inspected r st =
     (if round_failed r st then [] else take unresolved_inspection_limit (sc_overflow st @ round_page r st))"

fun fetched_keys :: "scan_round list \<Rightarrow> scan_state \<times> ledger_store \<Rightarrow> string list" where
  "fetched_keys [] w = []"
| "fetched_keys (r # rs) w = round_page r (fst w) @ fetched_keys rs (refresh_round r w)"

fun inspected_keys :: "scan_round list \<Rightarrow> scan_state \<times> ledger_store \<Rightarrow> string list" where
  "inspected_keys [] w = []"
| "inspected_keys (r # rs) w = round_inspected r (fst w) @ inspected_keys rs (refresh_round r w)"

definition run_rounds :: "scan_round list \<Rightarrow> scan_state \<times> ledger_store \<Rightarrow> scan_state \<times> ledger_store" where
  "run_rounds rs w = foldl (\<lambda>w r. refresh_round r w) w rs"

lemma refresh_round_overflow:
  "sc_overflow (fst w) @ round_page r (fst w) =
     round_inspected r (fst w) @ sc_overflow (fst (refresh_round r w))"
  by (auto simp: refresh_round_def round_page_def round_inspected_def round_failed_def
      refresh_delivery_reservation_metrics_def load_unresolved_scan_page_def capture_snapshot_def
      reset_cycle_def Let_def simp del: take_append drop_append split: option.splits prod.splits)

lemma scan_conserves_keys:
  "sc_overflow (fst w) @ fetched_keys rs w = inspected_keys rs w @ sc_overflow (fst (run_rounds rs w))"
proof (induction rs arbitrary: w)
  case (Cons r rs)
  then show ?case
    using refresh_round_overflow [of w r] by (simp add: run_rounds_def) (metis append.assoc)
qed (simp add: run_rounds_def)

text \<open>The metric scan neither loses nor repeats a marker: over any number of refreshes, with any
  answers and failures of the storage, the markers inspected followed by the carried overflow are
  exactly the markers the pages returned, in order; each refresh inspects at most a thousand, and a
  page is only requested with a limit between one and a thousand and one.\<close>

theorem metric_scan_conserves_markers:
  "fetched_keys rs (initial_scan, s) =
     inspected_keys rs (initial_scan, s) @ sc_overflow (fst (run_rounds rs (initial_scan, s))) \<and>
   (case scan_request (fst (run_rounds rs (initial_scan, s))) of
      None \<Rightarrow> True
    | Some (cursor, limit) \<Rightarrow> 1 \<le> limit \<and> limit \<le> 1001) \<and>
   length (round_inspected r st) \<le> 1000"
proof -
  have "fetched_keys rs (initial_scan, s) =
     inspected_keys rs (initial_scan, s) @ sc_overflow (fst (run_rounds rs (initial_scan, s)))"
    using scan_conserves_keys [of "(initial_scan, s)" rs] by (simp add: initial_scan_def)
  moreover have "case scan_request st of None \<Rightarrow> True | Some (cursor, limit) \<Rightarrow> 1 \<le> limit \<and> limit \<le> 1001" for st
    by (auto simp: scan_request_def unresolved_inspection_limit_def)
  ultimately show ?thesis
    by (auto simp: round_inspected_def unresolved_inspection_limit_def)
qed

end
