(* ===== verification/ResponseReferences.thy ===== *)
theory ResponseReferences
  imports Json
begin

text \<open>
  Response references (\<^verbatim>\<open>issueResponseReference\<close> and \<^verbatim>\<open>resolveResponseReference\<close> of
  \<^verbatim>\<open>botCapabilityStore.ts\<close>): a random reference under which an encrypted capability is kept until
  it expires. The cipher (AES-GCM with the reference as authenticated data) is a parameter; the
  storage keeps a value for its time to live, in milliseconds of the clock.
\<close>

record response_record =
  rr_application_id :: string
  rr_client :: json
  rr_interaction_token :: string
  rr_permitted_operations :: "string list"
  rr_expires_at :: int
  rr_workspace_id :: "string option"

datatype 'c stored_response = EncryptedResponse 'c | MalformedResponse json

record 'c response_entry =
  re_value :: "'c stored_response"
  re_until :: int

type_synonym 'c response_store = "string \<rightharpoonup> 'c response_entry"

datatype response_error = ResponseExpired string | ResponseUnavailable string

definition response_prefix :: string where
  "response_prefix = ''capabilities:responses:''"

definition response_get :: "int \<Rightarrow> string \<Rightarrow> 'c response_store \<Rightarrow> 'c stored_response option" where
  "response_get now key s =
     (case s key of None \<Rightarrow> None | Some e \<Rightarrow> if now < re_until e then Some (re_value e) else None)"

definition response_set :: "int \<Rightarrow> string \<Rightarrow> 'c stored_response \<Rightarrow> int \<Rightarrow> 'c response_store \<Rightarrow> 'c response_store" where
  "response_set now key v ttl s = s(key \<mapsto> \<lparr>re_value = v, re_until = now + ttl * 1000\<rparr>)"

definition ttl_seconds :: "int \<Rightarrow> int \<Rightarrow> int" where
  "ttl_seconds expires_at now = max 1 (\<lceil>of_int (expires_at - now) / (1000 :: rat)\<rceil>)"

definition issue_response_reference ::
    "(string \<Rightarrow> response_record \<Rightarrow> 'c) \<Rightarrow> string \<Rightarrow> int \<Rightarrow> response_record \<Rightarrow>
     (response_error, string, 'c response_store) txn" where
  "issue_response_reference encrypt uuid now inp s =
     (if rr_expires_at inp \<le> now
      then (Inl (ResponseExpired ''Cannot issue an already-expired Response Reference''), s)
      else (Inr uuid, response_set now (response_prefix @ uuid) (EncryptedResponse (encrypt uuid inp))
        (ttl_seconds (rr_expires_at inp) now) s))"

definition resolve_response_reference ::
    "(string \<Rightarrow> 'c \<Rightarrow> response_record option) \<Rightarrow> int \<Rightarrow> string \<Rightarrow>
     (response_error, response_record, 'c response_store) txn" where
  "resolve_response_reference decrypt now reference s =
     (case response_get now (response_prefix @ reference) s of
        None \<Rightarrow> (Inl (ResponseExpired ''Response Reference has expired''), s)
      | Some (MalformedResponse v) \<Rightarrow>
          (Inl (ResponseUnavailable ''Stored encrypted Response Reference is invalid''), s)
      | Some (EncryptedResponse c) \<Rightarrow>
          (case decrypt reference c of
             None \<Rightarrow> (Inl (ResponseUnavailable ''Stored Response Reference cannot be decrypted''), s)
           | Some r \<Rightarrow>
               if rr_expires_at r \<le> now
               then (Inl (ResponseExpired ''Response Reference has expired''), s(response_prefix @ reference := None))
               else (Inr r, s)))"

lemma ttl_covers: "expires_at \<le> now + ttl_seconds expires_at now * 1000"
proof -
  define x where "x = of_int (expires_at - now) / (1000 :: rat)"
  have "x \<le> of_int \<lceil>x\<rceil>" by (rule le_of_int_ceiling)
  also have "\<dots> \<le> of_int (ttl_seconds expires_at now)" by (simp add: ttl_seconds_def x_def)
  finally have "of_int (expires_at - now) \<le> (of_int (ttl_seconds expires_at now * 1000) :: rat)"
    by (simp add: x_def)
  then have "expires_at - now \<le> ttl_seconds expires_at now * 1000"
    by (simp only: of_int_le_iff)
  then show ?thesis by simp
qed

text \<open>An issued reference resolves exactly until it expires: with a cipher that decrypts what it
  encrypted under the same reference, resolving it at any instant from its issue on, other
  references having been issued or resolved in between, gives back the issued capability while
  the clock is before the expiry, and the expiry error from then on; the storage's time to live
  never ends it early.\<close>

theorem reference_resolves_until_expiry:
  assumes "\<forall>reference r. decrypt reference (encrypt reference r) = Some r"
    and "issue_response_reference encrypt uuid now inp s = (Inr reference, s1)"
    and "s2 (response_prefix @ reference) = s1 (response_prefix @ reference)"
  shows "resolve_response_reference decrypt t reference s2 =
    (if t < rr_expires_at inp then (Inr inp, s2)
     else (Inl (ResponseExpired ''Response Reference has expired''),
       if t < now + ttl_seconds (rr_expires_at inp) now * 1000 then s2(response_prefix @ reference := None) else s2))"
proof -
  have s1: "reference = uuid \<and> s2 (response_prefix @ reference) =
      Some \<lparr>re_value = EncryptedResponse (encrypt uuid inp),
        re_until = now + ttl_seconds (rr_expires_at inp) now * 1000\<rparr>"
    using assms(2,3) by (auto simp: issue_response_reference_def response_set_def split: if_splits)
  moreover have "t < rr_expires_at inp \<Longrightarrow> t < now + ttl_seconds (rr_expires_at inp) now * 1000"
    using ttl_covers [of "rr_expires_at inp" now] by linarith
  ultimately show ?thesis
    using assms(1) by (auto simp: resolve_response_reference_def response_get_def)
qed

definition sample_capability :: response_record where
  "sample_capability = \<lparr>rr_application_id = ''app'', rr_client = JNull, rr_interaction_token = ''t'',
     rr_permitted_operations = [''respond''], rr_expires_at = 1500, rr_workspace_id = None\<rparr>"

theorem reference_resolves_until_expiry_witness:
  "fst (resolve_response_reference (\<lambda>_. Some) 1499 ''u''
     (snd (issue_response_reference (\<lambda>_ r. r) ''u'' 0 sample_capability Map.empty))) = Inr sample_capability"
  using reference_resolves_until_expiry [of "\<lambda>_. Some" "\<lambda>_ r. r" "''u''" 0 sample_capability Map.empty "''u''"]
  by (simp add: issue_response_reference_def sample_capability_def)

end
