(* ===== verification/Principals.thy ===== *)
theory Principals
  imports Json
begin

text \<open>
  Who calls (\<open>sheet-auth/src/identity.ts\<close>, \<open>src/identity-server.ts\<close>): a user, with or without a linked
  Discord account, or a service with its OAuth client; how a principal is made from the claims of a
  verified token, and the key of what it owns.
\<close>

text \<open>\<open>Identifier\<close>: a trimmed text that is not empty.\<close>

definition identifier_text :: "string \<Rightarrow> bool" where
  "identifier_text s \<longleftrightarrow> s \<noteq> [] \<and> js_trim s = s"

text \<open>A user's id and Discord account; a service's id and OAuth client.\<close>

datatype effective_principal = UserPrincipal string "string option" | ServicePrincipal string string

fun effective_principal_json :: "effective_principal \<Rightarrow> json" where
  "effective_principal_json (UserPrincipal u account) =
     JObj ([(''kind'', JStr ''user''), (''userId'', JStr u)] @
       (case account of None \<Rightarrow> [] | Some a \<Rightarrow> [(''discordAccount'', JObj [(''accountId'', JStr a)])]))"
| "effective_principal_json (ServicePrincipal s c) =
     JObj [(''kind'', JStr ''service''), (''serviceId'', JStr s), (''oauthClientId'', JStr c)]"

fun owner_key_for_effective_principal :: "effective_principal \<Rightarrow> string" where
  "owner_key_for_effective_principal (UserPrincipal u _) = ''user:'' @ u"
| "owner_key_for_effective_principal (ServicePrincipal s _) = ''service:'' @ s"

lemma owner_key_cases:
  "owner_key_for_effective_principal p = owner_key_for_effective_principal q \<longleftrightarrow>
     (\<exists>u a b. p = UserPrincipal u a \<and> q = UserPrincipal u b) \<or>
     (\<exists>s a b. p = ServicePrincipal s a \<and> q = ServicePrincipal s b)"
  by (cases p; cases q) auto

subsection \<open>Principals from tokens\<close>

record legacy_identity =
  li_user_id :: string
  li_account_id :: "string option"
  li_client_id :: "string option"
  li_permissions :: "string list"

record identity_claims =
  ic_account_id :: "string option"
  ic_actor_client_id :: "string option"
  ic_actor_sub :: "string option"
  ic_client_id :: "string option"
  ic_scopes :: "string list"
  ic_sub :: "string option"

datatype identity_error = ServiceWithoutClient | NotAPrincipal | ActorsDiffer | NotAnActor

fun principal_fields :: "effective_principal \<Rightarrow> string list" where
  "principal_fields (UserPrincipal u account) = u # (case account of None \<Rightarrow> [] | Some a \<Rightarrow> [a])"
| "principal_fields (ServicePrincipal s c) = [s, c]"

definition decode_effective_principal :: "effective_principal \<Rightarrow> identity_error + effective_principal" where
  "decode_effective_principal p =
     (if list_all identifier_text (principal_fields p) then Inr p else Inl NotAPrincipal)"

definition require_service_client_id :: "string option \<Rightarrow> identity_error + string" where
  "require_service_client_id c =
     (case c of
        None \<Rightarrow> Inl ServiceWithoutClient
      | Some s \<Rightarrow> if js_trim s = [] then Inl ServiceWithoutClient else Inr s)"

definition service_principal :: "string option \<Rightarrow> identity_error + effective_principal" where
  "service_principal c =
     (case require_service_client_id c of
        Inl e \<Rightarrow> Inl e
      | Inr s \<Rightarrow> decode_effective_principal (ServicePrincipal s s))"

definition discord_service_user_id_sentinel :: string where
  "discord_service_user_id_sentinel = ''service_user''"

definition effective_principal_from_legacy_identity ::
    "legacy_identity \<Rightarrow> identity_error + effective_principal" where
  "effective_principal_from_legacy_identity i =
     (if ''service'' \<in> set (li_permissions i) \<or> li_user_id i = discord_service_user_id_sentinel \<or>
         li_account_id i = Some discord_service_user_id_sentinel
      then service_principal (li_client_id i)
      else decode_effective_principal (UserPrincipal (li_user_id i) (li_account_id i)))"

definition effective_principal_from_verified_claims ::
    "identity_claims \<Rightarrow> identity_error + effective_principal" where
  "effective_principal_from_verified_claims c =
     (case ic_sub c of
        None \<Rightarrow> service_principal (ic_client_id c)
      | Some sub \<Rightarrow>
          if ''service'' \<in> set (ic_scopes c) then service_principal (ic_client_id c)
          else decode_effective_principal (UserPrincipal sub (ic_account_id c)))"

text \<open>The service acting for the principal, when the token names one.\<close>

definition actor_provenance_from_verified_claims :: "identity_claims \<Rightarrow> identity_error + string option" where
  "actor_provenance_from_verified_claims c =
     (if ic_actor_client_id c \<noteq> None \<and> ic_actor_sub c \<noteq> None \<and> ic_actor_client_id c \<noteq> ic_actor_sub c
      then Inl ActorsDiffer
      else case (case ic_actor_client_id c of None \<Rightarrow> ic_actor_sub c | Some a \<Rightarrow> Some a) of
        None \<Rightarrow> Inr None
      | Some a \<Rightarrow> if identifier_text a then Inr (Some a) else Inl NotAnActor)"

lemma verified_service:
  assumes "effective_principal_from_verified_claims c = Inr (ServicePrincipal s client)"
  shows "s = client \<and> ic_client_id c = Some client \<and> (ic_sub c = None \<or> ''service'' \<in> set (ic_scopes c))"
  using assms by (auto simp: effective_principal_from_verified_claims_def service_principal_def
      require_service_client_id_def decode_effective_principal_def split: option.splits if_splits)

lemma verified_user:
  assumes "effective_principal_from_verified_claims c = Inr (UserPrincipal u account)"
  shows "ic_sub c = Some u \<and> ic_account_id c = account \<and> ''service'' \<notin> set (ic_scopes c)"
  using assms by (auto simp: effective_principal_from_verified_claims_def service_principal_def
      require_service_client_id_def decode_effective_principal_def split: option.splits if_splits)

end
