(* ===== verification/RolloutGate.thy ===== *)
theory RolloutGate
  imports Principals
begin

text \<open>
  Rollout gates (\<^verbatim>\<open>rolloutGate.ts\<close> and \<^verbatim>\<open>rolloutGateDecision.ts\<close> of
  \<^verbatim>\<open>sheet-workflows\<close>): which execution path an invocation takes, recorded once per invocation;
  changes of a gate, numbered by a revision and logged; retention of the records. A transaction is
  split where other transactions can intervene under PostgreSQL's read committed isolation: after
  its reads, before its write (which waits for concurrent writers of the same row and sees their
  committed row). The worlds of the last section interleave any number of such halves.
\<close>

subsection \<open>Data\<close>

datatype execution_path = LegacyPath | ReplacementPath

record gate_scope =
  gs_contract_identity :: string
  gs_contract_wire_version :: string
  gs_client_platform :: string
  gs_client_id :: string
  gs_workspace_id :: "string option"

record evaluation_input =
  ev_scope :: gate_scope
  ev_invocation_id :: string
  ev_principal :: effective_principal
  ev_actor_provenance :: "json option"

record change_input =
  ch_scope :: gate_scope
  ch_principal_key :: "string option"
  ch_path :: execution_path
  ch_reason :: string
  ch_evidence_url :: string
  ch_expected_revision :: int
  ch_changed_by :: effective_principal
  ch_actor_provenance :: "json option"

record gate_decision =
  gd_gate_key :: string
  gd_revision :: int
  gd_matched :: bool
  gd_path :: execution_path
  gd_reason :: string

record gate_control =
  gc_gate_key :: string
  gc_scope :: gate_scope
  gc_principal_key :: string
  gc_path :: execution_path
  gc_revision :: int
  gc_reason :: string
  gc_evidence_url :: string
  gc_changed_by :: json
  gc_updated_at :: int

record gate_evaluation =
  ge_evaluation_id :: string
  ge_invocation_id :: string
  ge_scope :: gate_scope
  ge_principal_key :: string
  ge_decision :: gate_decision
  ge_principal :: json
  ge_actor_provenance :: "json option"
  ge_evaluated_at :: int

record gate_log_row =
  gl_decision_id :: string
  gl_gate_key :: string
  gl_revision :: int
  gl_scope :: gate_scope
  gl_principal_key :: string
  gl_path :: execution_path
  gl_reason :: string
  gl_evidence_url :: string
  gl_changed_by :: json
  gl_actor_provenance :: "json option"
  gl_decided_at :: int

record gate_db =
  gate_controls :: "gate_control list"
  gate_evaluations :: "gate_evaluation list"
  gate_log :: "gate_log_row list"

subsection \<open>Keys\<close>

definition all_principals_key :: string where
  "all_principals_key = ''*''"

definition scope_key :: "gate_scope \<Rightarrow> string \<Rightarrow> string" where
  "scope_key sc pk = json_stringify (\<lambda>_. []) (JArr
     [JStr (gs_contract_identity sc), JStr (gs_contract_wire_version sc), JStr (gs_client_platform sc),
      JStr (gs_client_id sc), (case gs_workspace_id sc of None \<Rightarrow> JNull | Some w \<Rightarrow> JStr w), JStr pk])"

definition evaluation_control_keys :: "evaluation_input \<Rightarrow> string list" where
  "evaluation_control_keys inp =
     (let pk = owner_key_for_effective_principal (ev_principal inp);
          scopes = (case gs_workspace_id (ev_scope inp) of
              None \<Rightarrow> [ev_scope inp]
            | Some w \<Rightarrow> [ev_scope inp, (ev_scope inp)\<lparr>gs_workspace_id := None\<rparr>])
      in js_set (concat (map (\<lambda>sc. [scope_key sc pk, scope_key sc all_principals_key]) scopes)))"

subsection \<open>Evaluation\<close>

definition select_rollout_gate_decision :: "string \<Rightarrow> gate_control option \<Rightarrow> string option \<Rightarrow> gate_decision" where
  "select_rollout_gate_decision gate_key row fallback_reason =
     \<lparr>gd_gate_key = gate_key,
      gd_revision = (case row of None \<Rightarrow> 0 | Some r \<Rightarrow> gc_revision r),
      gd_matched = (row \<noteq> None),
      gd_path = (case row of None \<Rightarrow> LegacyPath | Some r \<Rightarrow> gc_path r),
      gd_reason = (case row of
          None \<Rightarrow> (case fallback_reason of None \<Rightarrow> ''unconfigured'' | Some f \<Rightarrow> f)
        | Some r \<Rightarrow> if js_trim (gc_reason r) \<noteq> [] then js_trim (gc_reason r) else ''reason-missing'')\<rparr>"

definition fallback_decision :: "evaluation_input \<Rightarrow> string \<Rightarrow> gate_decision" where
  "fallback_decision inp reason =
     select_rollout_gate_decision
       (scope_key (ev_scope inp) (owner_key_for_effective_principal (ev_principal inp))) None (Some reason)"

definition is_identifier :: "string \<Rightarrow> bool" where
  "is_identifier s \<longleftrightarrow> s \<noteq> [] \<and> js_trim s = s"

definition decode_evaluation :: "gate_decision \<Rightarrow> gate_decision option" where
  "decode_evaluation d =
     (if is_identifier (gd_gate_key d) \<and> 0 \<le> gd_revision d \<and> is_identifier (gd_reason d) then Some d else None)"

datatype gate_failure = PersistedDecisionInvalid | ControlUnavailable string

definition read_evaluation :: "string \<Rightarrow> gate_db \<Rightarrow> gate_failure + gate_decision option" where
  "read_evaluation iid db =
     (case lookup_by ge_invocation_id iid (gate_evaluations db) of
        None \<Rightarrow> Inr None
      | Some e \<Rightarrow> (case decode_evaluation (ge_decision e) of
          None \<Rightarrow> Inl PersistedDecisionInvalid
        | Some d \<Rightarrow> Inr (Some d)))"

fun first_control :: "string list \<Rightarrow> gate_control list \<Rightarrow> (string \<times> gate_control) option" where
  "first_control [] rows = None"
| "first_control (k # ks) rows =
     (case lookup_by gc_gate_key k rows of
        Some r \<Rightarrow> Some (k, r)
      | None \<Rightarrow> first_control ks rows)"

definition read_matching_control :: "evaluation_input \<Rightarrow> gate_db \<Rightarrow> (string \<times> gate_control) option" where
  "read_matching_control inp db =
     first_control (evaluation_control_keys inp)
       (filter (\<lambda>r. gc_gate_key r \<in> set (evaluation_control_keys inp)) (gate_controls db))"

definition decide :: "evaluation_input \<Rightarrow> gate_db \<Rightarrow> gate_decision" where
  "decide inp db =
     (case read_matching_control inp db of
        None \<Rightarrow> fallback_decision inp ''unconfigured''
      | Some (k, r) \<Rightarrow> select_rollout_gate_decision k (Some r) None)"

text \<open>The reads of an evaluation: an earlier decision, or the decision to record.\<close>

definition evaluate_reads :: "evaluation_input \<Rightarrow> gate_db \<Rightarrow> gate_failure + gate_decision + gate_decision" where
  "evaluate_reads inp db =
     (case read_evaluation (ev_invocation_id inp) db of
        Inl e \<Rightarrow> Inl e
      | Inr (Some d) \<Rightarrow> Inr (Inl d)
      | Inr None \<Rightarrow> Inr (Inr (decide inp db)))"

definition insert_evaluation ::
    "string \<Rightarrow> int \<Rightarrow> evaluation_input \<Rightarrow> gate_decision \<Rightarrow> (gate_failure, gate_decision option, gate_db) txn" where
  "insert_evaluation uuid now inp d db =
     (if uuid \<in> ge_evaluation_id ` set (gate_evaluations db)
      then (Inl (ControlUnavailable ''duplicate key value violates unique constraint''), db)
      else case lookup_by ge_invocation_id (ev_invocation_id inp) (gate_evaluations db) of
        Some e \<Rightarrow> (Inr None, db)
      | None \<Rightarrow> (Inr (Some d), db\<lparr>gate_evaluations := gate_evaluations db @
          [\<lparr>ge_evaluation_id = uuid, ge_invocation_id = ev_invocation_id inp, ge_scope = ev_scope inp,
            ge_principal_key = owner_key_for_effective_principal (ev_principal inp), ge_decision = d,
            ge_principal = effective_principal_json (ev_principal inp),
            ge_actor_provenance = ev_actor_provenance inp, ge_evaluated_at = now\<rparr>]\<rparr>))"

text \<open>The write of an evaluation and the read back; an error rolls the transaction back.\<close>

definition evaluate_writes ::
    "string \<Rightarrow> int \<Rightarrow> evaluation_input \<Rightarrow> gate_decision \<Rightarrow> (gate_failure, gate_decision, gate_db) txn" where
  "evaluate_writes uuid now inp d = with_transaction (\<lambda>db.
     case insert_evaluation uuid now inp d db of
       (Inl e, db') \<Rightarrow> (Inl e, db')
     | (Inr (Some d'), db') \<Rightarrow>
         (case decode_evaluation d' of
            None \<Rightarrow> (Inl PersistedDecisionInvalid, db')
          | Some d'' \<Rightarrow> (Inr d'', db'))
     | (Inr None, db') \<Rightarrow>
         (case read_evaluation (ev_invocation_id inp) db' of
            Inl e \<Rightarrow> (Inl e, db')
          | Inr None \<Rightarrow>
              (Inl (ControlUnavailable ''Rollout Gate Evaluation conflict did not return a persisted record''), db')
          | Inr (Some p) \<Rightarrow> (Inr p, db')))"

definition evaluate :: "string \<Rightarrow> int \<Rightarrow> evaluation_input \<Rightarrow> gate_db \<Rightarrow> gate_decision \<times> gate_db" where
  "evaluate uuid now inp db =
     (case evaluate_reads inp db of
        Inl e \<Rightarrow> (fallback_decision inp ''control-unavailable'', db)
      | Inr (Inl d) \<Rightarrow> (d, db)
      | Inr (Inr d) \<Rightarrow>
          (case evaluate_writes uuid now inp d db of
             (Inl e, db') \<Rightarrow> (fallback_decision inp ''control-unavailable'', db')
           | (Inr d', db') \<Rightarrow> (d', db')))"

subsection \<open>Changes\<close>

datatype change_error =
    RevisionConflict string int int
  | StorageFailure string

record change_response =
  cr_gate_key :: string
  cr_revision :: int
  cr_path :: execution_path

definition change_principal_key :: "change_input \<Rightarrow> string" where
  "change_principal_key inp = (case ch_principal_key inp of None \<Rightarrow> all_principals_key | Some k \<Rightarrow> k)"

definition change_gate_key :: "change_input \<Rightarrow> string" where
  "change_gate_key inp = scope_key (ch_scope inp) (change_principal_key inp)"

definition current_revision :: "string \<Rightarrow> gate_db \<Rightarrow> int" where
  "current_revision k db =
     (case lookup_by gc_gate_key k (gate_controls db) of None \<Rightarrow> 0 | Some r \<Rightarrow> gc_revision r)"

text \<open>The read of a change: the validation of the expected revision.\<close>

definition validate_expected_revision :: "change_input \<Rightarrow> gate_db \<Rightarrow> change_error option" where
  "validate_expected_revision inp db =
     (let k = change_gate_key inp; current = lookup_by gc_gate_key k (gate_controls db) in
      if current = None \<and> ch_expected_revision inp \<noteq> 0 \<or>
         (case current of None \<Rightarrow> False | Some r \<Rightarrow> gc_revision r \<noteq> ch_expected_revision inp)
      then Some (RevisionConflict k (ch_expected_revision inp) (current_revision k db))
      else None)"

definition max_int4 :: int where
  "max_int4 = 2147483647"

definition new_control :: "int \<Rightarrow> change_input \<Rightarrow> gate_control" where
  "new_control now inp =
     \<lparr>gc_gate_key = change_gate_key inp, gc_scope = ch_scope inp, gc_principal_key = change_principal_key inp,
      gc_path = ch_path inp, gc_revision = 1, gc_reason = ch_reason inp,
      gc_evidence_url = ch_evidence_url inp, gc_changed_by = effective_principal_json (ch_changed_by inp),
      gc_updated_at = now\<rparr>"

definition changed_control :: "int \<Rightarrow> change_input \<Rightarrow> gate_control \<Rightarrow> gate_control" where
  "changed_control now inp r =
     r\<lparr>gc_path := ch_path inp, gc_revision := gc_revision r + 1, gc_reason := ch_reason inp,
       gc_evidence_url := ch_evidence_url inp, gc_changed_by := effective_principal_json (ch_changed_by inp),
       gc_updated_at := now\<rparr>"

text \<open>The upsert; an integer overflow of the revision is an SQL error.\<close>

definition upsert_control :: "int \<Rightarrow> change_input \<Rightarrow> (change_error, gate_control option, gate_db) txn" where
  "upsert_control now inp db =
     (let k = change_gate_key inp in
      case lookup_by gc_gate_key k (gate_controls db) of
        None \<Rightarrow> (Inr (Some (new_control now inp)),
                 db\<lparr>gate_controls := gate_controls db @ [new_control now inp]\<rparr>)
      | Some r \<Rightarrow>
          if gc_revision r \<noteq> ch_expected_revision inp then (Inr None, db)
          else if gc_revision r + 1 > max_int4 then (Inl (StorageFailure ''Rollout Gate Control change failed''), db)
          else (Inr (Some (changed_control now inp r)),
                db\<lparr>gate_controls := update_where (\<lambda>g. gc_gate_key g = k) (\<lambda>_. changed_control now inp r)
                  (gate_controls db)\<rparr>))"

definition require_change_row :: "change_input \<Rightarrow> gate_control option \<Rightarrow> (change_error, gate_control, gate_db) txn" where
  "require_change_row inp row db =
     (case row of
        None \<Rightarrow> (Inl (RevisionConflict (change_gate_key inp) (ch_expected_revision inp)
                  (current_revision (change_gate_key inp) db)), db)
      | Some r \<Rightarrow> (Inr r, db))"

definition log_row :: "string \<Rightarrow> int \<Rightarrow> change_input \<Rightarrow> gate_control \<Rightarrow> gate_log_row" where
  "log_row uuid now inp row =
     \<lparr>gl_decision_id = uuid, gl_gate_key = gc_gate_key row, gl_revision = gc_revision row,
      gl_scope = ch_scope inp, gl_principal_key = change_principal_key inp, gl_path = gc_path row,
      gl_reason = ch_reason inp, gl_evidence_url = ch_evidence_url inp,
      gl_changed_by = effective_principal_json (ch_changed_by inp), gl_actor_provenance = ch_actor_provenance inp,
      gl_decided_at = now\<rparr>"

definition insert_decision ::
    "string \<Rightarrow> int \<Rightarrow> change_input \<Rightarrow> gate_control \<Rightarrow> (change_error, unit, gate_db) txn" where
  "insert_decision uuid now inp row db =
     (if uuid \<in> gl_decision_id ` set (gate_log db)
      then (Inl (StorageFailure ''Rollout Gate Control change failed''), db)
      else (Inr (), db\<lparr>gate_log := gate_log db @ [log_row uuid now inp row]\<rparr>))"

definition change_writes :: "string \<Rightarrow> int \<Rightarrow> change_input \<Rightarrow> (change_error, change_response, gate_db) txn" where
  "change_writes uuid now inp = with_transaction
     (txn_bind (upsert_control now inp) (\<lambda>row.
      txn_bind (require_change_row inp row) (\<lambda>r.
      txn_bind (insert_decision uuid now inp r) (\<lambda>_.
      txn_return \<lparr>cr_gate_key = gc_gate_key r, cr_revision = gc_revision r, cr_path = gc_path r\<rparr>))))"

definition change :: "string \<Rightarrow> int \<Rightarrow> change_input \<Rightarrow> (change_error, change_response, gate_db) txn" where
  "change uuid now inp db =
     (case validate_expected_revision inp db of
        Some e \<Rightarrow> (Inl e, db)
      | None \<Rightarrow> change_writes uuid now inp db)"

subsection \<open>Retention\<close>

definition evaluation_retention_days :: int where
  "evaluation_retention_days = 7"

definition cleanup_batch_size :: nat where
  "cleanup_batch_size = 1000"

definition cleanup_max_batches :: nat where
  "cleanup_max_batches = 10"

text \<open>Rows locked by another transaction are skipped.\<close>

definition expired_evaluations :: "(gate_evaluation \<Rightarrow> bool) \<Rightarrow> int \<Rightarrow> gate_evaluation list \<Rightarrow> gate_evaluation list" where
  "expired_evaluations locked now rows =
     filter (\<lambda>e. ge_evaluated_at e < now - evaluation_retention_days * 86400000000 \<and> \<not> locked e) rows"

definition cleanup_batch :: "(gate_evaluation \<Rightarrow> bool) \<Rightarrow> int \<Rightarrow> gate_db \<Rightarrow> nat \<times> gate_db" where
  "cleanup_batch locked now db =
     (let expired = take cleanup_batch_size
            (sort_key ge_evaluated_at (expired_evaluations locked now (gate_evaluations db)));
          ids = map ge_evaluation_id expired;
          kept = filter (\<lambda>e. ge_evaluation_id e \<notin> set ids) (gate_evaluations db)
      in (length (gate_evaluations db) - length kept, db\<lparr>gate_evaluations := kept\<rparr>))"

text \<open>\<open>Effect.repeat\<close> runs the batch once and then again until the condition holds, at most
  \<open>times\<close> times.\<close>

fun repeat_batches :: "nat \<Rightarrow> (gate_evaluation \<Rightarrow> bool) \<Rightarrow> int \<Rightarrow> gate_db \<Rightarrow> gate_db" where
  "repeat_batches again locked now db =
     (case cleanup_batch locked now db of (deleted, db') \<Rightarrow>
        (case again of
           0 \<Rightarrow> db'
         | Suc n \<Rightarrow> if deleted < cleanup_batch_size then db' else repeat_batches n locked now db'))"

declare repeat_batches.simps [simp del]

definition cleanup_expired_evaluations :: "(gate_evaluation \<Rightarrow> bool) \<Rightarrow> int \<Rightarrow> gate_db \<Rightarrow> gate_db" where
  "cleanup_expired_evaluations = repeat_batches (cleanup_max_batches - 1)"

end
