(* ===== verification/RolloutGuarantees.thy ===== *)
theory RolloutGuarantees
  imports RolloutGate
begin

text \<open>
  What rollout gates guarantee under any interleaving of evaluations, changes and cleanups: the
  decision of an invocation is fixed while its record lasts, the most specific configured gate
  decides, every revision of a gate is logged once and in order, and cleanup removes only expired
  records, a bounded number at a time.
\<close>

subsection \<open>Interleaved transactions\<close>

text \<open>
  The pending lists hold transactions between their reads and their write; the answers are the
  decisions given from the store for the invocations that are still recorded.
\<close>

record gate_world =
  gw_db :: gate_db
  gw_changes :: "change_input list"
  gw_evaluations :: "(evaluation_input \<times> gate_decision) list"
  gw_answers :: "(string \<times> gate_decision) list"

datatype gate_event =
    BeginEvaluate evaluation_input
  | FinishEvaluate nat string int
  | BeginChange change_input
  | FinishChange nat string int
  | CleanupEvaluations "gate_evaluation \<Rightarrow> bool" int

definition remove_nth :: "nat \<Rightarrow> 'a list \<Rightarrow> 'a list" where
  "remove_nth i xs = take i xs @ drop (Suc i) xs"

definition recorded :: "gate_db \<Rightarrow> string \<Rightarrow> bool" where
  "recorded db iid \<longleftrightarrow> iid \<in> ge_invocation_id ` set (gate_evaluations db)"

fun gate_step :: "gate_event \<Rightarrow> gate_world \<Rightarrow> gate_world" where
  "gate_step (BeginEvaluate inp) w =
     (case evaluate_reads inp (gw_db w) of
        Inl e \<Rightarrow> w
      | Inr (Inl d) \<Rightarrow> w\<lparr>gw_answers := (ev_invocation_id inp, d) # gw_answers w\<rparr>
      | Inr (Inr d) \<Rightarrow> w\<lparr>gw_evaluations := gw_evaluations w @ [(inp, d)]\<rparr>)"
| "gate_step (FinishEvaluate i uuid now) w =
     (if i < length (gw_evaluations w)
      then case gw_evaluations w ! i of (inp, d) \<Rightarrow>
        (case evaluate_writes uuid now inp d (gw_db w) of
           (res, db') \<Rightarrow> w\<lparr>gw_db := db', gw_evaluations := remove_nth i (gw_evaluations w),
             gw_answers := (case res of Inl e \<Rightarrow> [] | Inr d' \<Rightarrow> [(ev_invocation_id inp, d')]) @ gw_answers w\<rparr>)
      else w)"
| "gate_step (BeginChange inp) w =
     (case validate_expected_revision inp (gw_db w) of
        Some e \<Rightarrow> w
      | None \<Rightarrow> w\<lparr>gw_changes := gw_changes w @ [inp]\<rparr>)"
| "gate_step (FinishChange i uuid now) w =
     (if i < length (gw_changes w)
      then w\<lparr>gw_db := snd (change_writes uuid now (gw_changes w ! i) (gw_db w)),
             gw_changes := remove_nth i (gw_changes w)\<rparr>
      else w)"
| "gate_step (CleanupEvaluations locked now) w =
     (let db' = cleanup_expired_evaluations locked now (gw_db w) in
      w\<lparr>gw_db := db', gw_answers := filter (\<lambda>a. recorded db' (fst a)) (gw_answers w)\<rparr>)"

definition empty_gate_world :: gate_world where
  "empty_gate_world = \<lparr>gw_db = \<lparr>gate_controls = [], gate_evaluations = [], gate_log = []\<rparr>,
     gw_changes = [], gw_evaluations = [], gw_answers = []\<rparr>"

definition run_gates :: "gate_event list \<Rightarrow> gate_world" where
  "run_gates evs = foldl (\<lambda>w ev. gate_step ev w) empty_gate_world evs"

lemma run_gates_Nil [simp]: "run_gates [] = empty_gate_world"
  by (simp add: run_gates_def)

lemma run_gates_snoc [simp]: "run_gates (evs @ [ev]) = gate_step ev (run_gates evs)"
  by (simp add: run_gates_def)

subsection \<open>Transactions\<close>

lemma evaluate_writes_cases:
  assumes "evaluate_writes uuid now inp d db = (res, db')"
  obtains (failed) e where "res = Inl e" "db' = db"
  | (inserted) e where "res = Inr d" "lookup_by ge_invocation_id (ev_invocation_id inp) (gate_evaluations db) = None"
      "db' = db\<lparr>gate_evaluations := gate_evaluations db @ [e]\<rparr>"
      "ge_invocation_id e = ev_invocation_id inp" "ge_decision e = d"
  | (known) e where "res = Inr (ge_decision e)" "db' = db"
      "lookup_by ge_invocation_id (ev_invocation_id inp) (gate_evaluations db) = Some e"
proof (cases "lookup_by ge_invocation_id (ev_invocation_id inp) (gate_evaluations db)")
  case None
  then show ?thesis
    using assms failed inserted
    by (auto simp: evaluate_writes_def with_transaction_def insert_evaluation_def decode_evaluation_def
        split: if_splits)
next
  case (Some e)
  then show ?thesis
    using assms failed known
    by (auto simp: evaluate_writes_def with_transaction_def insert_evaluation_def read_evaluation_def
        decode_evaluation_def split: if_splits)
qed

definition response_of :: "gate_control \<Rightarrow> change_response" where
  "response_of r = \<lparr>cr_gate_key = gc_gate_key r, cr_revision = gc_revision r, cr_path = gc_path r\<rparr>"

definition logs :: "gate_log_row \<Rightarrow> gate_control \<Rightarrow> bool" where
  "logs l r \<longleftrightarrow> gl_gate_key l = gc_gate_key r \<and> gl_revision l = gc_revision r \<and> gl_path l = gc_path r \<and>
     gl_reason l = gc_reason r \<and> gl_evidence_url l = gc_evidence_url r \<and> gl_changed_by l = gc_changed_by r"

lemma change_writes_cases:
  assumes "change_writes uuid now inp db = (res, db')"
  obtains (failed) e where "res = Inl e" "db' = db"
  | (first) r l where "lookup_by gc_gate_key (change_gate_key inp) (gate_controls db) = None"
      "db' = db\<lparr>gate_controls := gate_controls db @ [r], gate_log := gate_log db @ [l]\<rparr>"
      "gc_gate_key r = change_gate_key inp" "gc_revision r = 1" "logs l r" "res = Inr (response_of r)"
  | (update) old r l where "lookup_by gc_gate_key (change_gate_key inp) (gate_controls db) = Some old"
      "gc_revision old = ch_expected_revision inp"
      "db' = db\<lparr>gate_controls := update_where (\<lambda>g. gc_gate_key g = change_gate_key inp) (\<lambda>_. r) (gate_controls db),
         gate_log := gate_log db @ [l]\<rparr>"
      "gc_gate_key r = change_gate_key inp" "gc_revision r = gc_revision old + 1" "logs l r"
      "res = Inr (response_of r)"
proof (cases "lookup_by gc_gate_key (change_gate_key inp) (gate_controls db)")
  case None
  have "logs (log_row uuid now inp (new_control now inp)) (new_control now inp)"
    "gc_gate_key (new_control now inp) = change_gate_key inp" "gc_revision (new_control now inp) = 1"
    by (simp_all add: logs_def log_row_def new_control_def)
  with None show ?thesis
    using assms failed first
    by (auto simp: change_writes_def with_transaction_def upsert_control_def require_change_row_def
        insert_decision_def txn_bind_def txn_return_def Let_def response_of_def split: if_splits)
next
  case (Some old)
  have "logs (log_row uuid now inp (changed_control now inp old)) (changed_control now inp old)"
    "gc_gate_key (changed_control now inp old) = change_gate_key inp"
    "gc_revision (changed_control now inp old) = gc_revision old + 1"
    using Some by (auto simp: logs_def log_row_def changed_control_def dest: lookup_by_SomeD)
  with Some show ?thesis
    using assms failed update
    by (auto simp: change_writes_def with_transaction_def upsert_control_def require_change_row_def
        insert_decision_def txn_bind_def txn_return_def Let_def response_of_def split: if_splits)
qed

subsection \<open>Invariants\<close>

definition gate_history :: "string \<Rightarrow> gate_db \<Rightarrow> gate_log_row list" where
  "gate_history k db = filter (\<lambda>l. gl_gate_key l = k) (gate_log db)"

definition history_inv :: "gate_db \<Rightarrow> string \<Rightarrow> bool" where
  "history_inv db k \<longleftrightarrow>
     (case lookup_by gc_gate_key k (gate_controls db) of
        None \<Rightarrow> gate_history k db = []
      | Some r \<Rightarrow> 1 \<le> gc_revision r \<and>
          map gl_revision (gate_history k db) = map int [1..<Suc (nat (gc_revision r))] \<and>
          (gate_history k db \<noteq> [] \<longrightarrow> logs (last (gate_history k db)) r))"

definition evaluations_inv :: "gate_db \<Rightarrow> bool" where
  "evaluations_inv db \<longleftrightarrow> unique_by ge_invocation_id (gate_evaluations db) \<and>
     unique_by ge_evaluation_id (gate_evaluations db)"

definition answers_inv :: "gate_world \<Rightarrow> bool" where
  "answers_inv w \<longleftrightarrow> (\<forall>(iid, d) \<in> set (gw_answers w).
     \<exists>e. lookup_by ge_invocation_id iid (gate_evaluations (gw_db w)) = Some e \<and> ge_decision e = d)"

definition pending_inv :: "gate_world \<Rightarrow> bool" where
  "pending_inv w \<longleftrightarrow> (\<forall>inp \<in> set (gw_changes w).
     lookup_by gc_gate_key (change_gate_key inp) (gate_controls (gw_db w)) = None \<longrightarrow> ch_expected_revision inp = 0)"

lemma set_remove_nth: "set (remove_nth i xs) \<subseteq> set xs"
  by (auto simp: remove_nth_def dest: in_set_takeD in_set_dropD)

lemma gate_history_log:
  "gate_history k (db\<lparr>gate_controls := cs, gate_log := gate_log db @ [l]\<rparr>) =
     (if gl_gate_key l = k then gate_history k db @ [l] else gate_history k db)"
  by (simp add: gate_history_def)

lemma lookup_by_replace:
  assumes "lookup_by key k rows = Some old" and "key r = k"
  shows "lookup_by key k' (update_where (\<lambda>x. key x = k) (\<lambda>_. r) rows) =
    (if k' = k then Some r else lookup_by key k' rows)"
proof (cases "lookup_by key k' rows")
  case None
  then show ?thesis using assms by (subst lookup_by_update_where) auto
next
  case (Some x)
  then have "key x = k'" by (auto dest: lookup_by_SomeD)
  with Some show ?thesis using assms by (subst lookup_by_update_where) auto
qed

lemma change_writes_history:
  assumes "change_writes uuid now inp db = (res, db')" and "\<forall>k. history_inv db k"
  shows "history_inv db' k \<and> gate_evaluations db' = gate_evaluations db \<and>
    (lookup_by gc_gate_key k (gate_controls db') = None \<longrightarrow> lookup_by gc_gate_key k (gate_controls db) = None)"
  using assms(1)
proof (cases rule: change_writes_cases)
  case failed
  then show ?thesis using assms(2) by simp
next
  case (first r l)
  then show ?thesis
    using spec [OF assms(2), of k]
    by (auto simp: history_inv_def gate_history_log lookup_by_append logs_def split: option.splits)
next
  case (update old r l)
  have h: "1 \<le> gc_revision old"
    "map gl_revision (gate_history (change_gate_key inp) db) = map int [1..<Suc (nat (gc_revision old))]"
    using spec [OF assms(2), of "change_gate_key inp"] update(1) by (simp_all add: history_inv_def)
  have range: "map int [Suc 0..<Suc (nat (gc_revision old + 1))] =
      map int [Suc 0..<Suc (nat (gc_revision old))] @ [gc_revision old + 1]"
    using h(1) by (simp add: nat_add_distrib)
  show ?thesis
  proof (cases "k = change_gate_key inp")
    case True
    then show ?thesis
      unfolding history_inv_def update(3)
      using update h
      by (simp add: gate_history_log lookup_by_replace logs_def range [simplified update(2)] del: upt_Suc)
  next
    case False
    have hist: "gate_history k db' = gate_history k db"
      unfolding update(3) using False update(4,6) by (simp add: gate_history_log logs_def)
    have look: "lookup_by gc_gate_key k (gate_controls db') = lookup_by gc_gate_key k (gate_controls db)"
      unfolding update(3) using False lookup_by_replace [OF update(1,4)] by simp
    have "gate_evaluations db' = gate_evaluations db"
      unfolding update(3) by simp
    moreover have "history_inv db' k"
      using spec [OF assms(2), of k] unfolding history_inv_def hist look .
    ultimately show ?thesis by (simp add: look)
  qed
qed

lemma evaluate_writes_keeps:
  assumes "evaluate_writes uuid now inp d db = (res, db')" and "evaluations_inv db"
  shows "evaluations_inv db' \<and> gate_controls db' = gate_controls db \<and> gate_log db' = gate_log db \<and>
    (\<forall>iid e. lookup_by ge_invocation_id iid (gate_evaluations db) = Some e \<longrightarrow>
       lookup_by ge_invocation_id iid (gate_evaluations db') = Some e) \<and>
    (\<forall>d'. res = Inr d' \<longrightarrow> (\<exists>e. lookup_by ge_invocation_id (ev_invocation_id inp) (gate_evaluations db') = Some e \<and>
       ge_decision e = d'))"
proof -
  have ids: "evaluations_inv db'"
    using assms
    by (auto simp: evaluate_writes_def with_transaction_def insert_evaluation_def evaluations_inv_def
        unique_by_append lookup_by_None split: if_splits prod.splits sum.splits option.splits)
  from assms(1) show ?thesis
    using ids by (cases rule: evaluate_writes_cases) (auto simp: lookup_by_append)
qed

lemma cleanup_batch_filters:
  assumes "evaluations_inv db" and "cleanup_batch locked now db = (n, db')"
  shows "gate_controls db' = gate_controls db \<and> gate_log db' = gate_log db \<and>
    (\<exists>P. gate_evaluations db' = filter P (gate_evaluations db) \<and>
      (\<forall>e \<in> set (gate_evaluations db). \<not> P e \<longrightarrow> e \<in> set (expired_evaluations locked now (gate_evaluations db)))) \<and>
    n = length (gate_evaluations db) - length (gate_evaluations db') \<and>
    n = min cleanup_batch_size (length (expired_evaluations locked now (gate_evaluations db)))"
proof -
  define expired where "expired = take cleanup_batch_size
    (sort_key ge_evaluated_at (expired_evaluations locked now (gate_evaluations db)))"
  have sub: "set expired \<subseteq> set (expired_evaluations locked now (gate_evaluations db))"
    by (auto simp: expired_def dest: in_set_takeD)
  have "set (expired_evaluations locked now (gate_evaluations db)) \<subseteq> set (gate_evaluations db)"
    by (auto simp: expired_evaluations_def)
  then have rows: "ge_evaluation_id e \<in> ge_evaluation_id ` set expired \<longleftrightarrow> e \<in> set expired"
    if "e \<in> set (gate_evaluations db)" for e
    using assms(1) that sub unique_byD [of ge_evaluation_id "gate_evaluations db"]
    by (auto simp: evaluations_inv_def)
  have distinct: "distinct (gate_evaluations db)"
    using assms(1) by (simp add: evaluations_inv_def unique_by_def distinct_map)
  then have dexp: "distinct expired"
    by (simp add: expired_def expired_evaluations_def)
  have "filter (\<lambda>e. ge_evaluation_id e \<notin> ge_evaluation_id ` set expired) (gate_evaluations db) =
      filter (\<lambda>e. e \<notin> set expired) (gate_evaluations db)"
    by (rule filter_cong [OF refl]) (simp only: rows)
  then have kept: "gate_evaluations db' = filter (\<lambda>e. e \<notin> set expired) (gate_evaluations db)"
    using assms(2) by (auto simp: cleanup_batch_def Let_def simp flip: expired_def)
  have sub2: "set expired \<subseteq> set (gate_evaluations db)"
    using sub by (auto simp: expired_evaluations_def)
  have "length (filter (\<lambda>e. e \<in> set expired) (gate_evaluations db)) = length expired"
  proof -
    have "set (filter (\<lambda>e. e \<in> set expired) (gate_evaluations db)) = set expired"
      using sub2 by auto
    then show ?thesis
      using distinct dexp by (metis distinct_card distinct_filter)
  qed
  then have n: "n = length expired"
    using assms(2) sum_length_filter_compl [of "\<lambda>e. e \<in> set expired" "gate_evaluations db"] kept
    by (auto simp: cleanup_batch_def Let_def)
  have tables: "gate_controls db' = gate_controls db" "gate_log db' = gate_log db"
    "n = length (gate_evaluations db) - length (gate_evaluations db')"
    using assms(2) by (auto simp: cleanup_batch_def Let_def)
  show ?thesis
    using kept sub n tables by (auto simp: expired_def)
qed

lemma cleanup_batch_expired:
  assumes "evaluations_inv db" and "cleanup_batch locked now db = (n, db')"
  shows "evaluations_inv db' \<and>
    length (expired_evaluations locked now (gate_evaluations db')) + n =
      length (expired_evaluations locked now (gate_evaluations db)) \<and>
    length (gate_evaluations db') + n = length (gate_evaluations db)"
proof -
  define old where "old e \<longleftrightarrow> ge_evaluated_at e < now - evaluation_retention_days * 86400000000 \<and> \<not> locked e" for e
  obtain P where P: "gate_evaluations db' = filter P (gate_evaluations db)"
    "\<forall>e \<in> set (gate_evaluations db). \<not> P e \<longrightarrow> old e"
    and n: "n = length (gate_evaluations db) - length (gate_evaluations db')"
    using cleanup_batch_filters [OF assms] by (auto simp: expired_evaluations_def old_def)
  have "filter (\<lambda>e. \<not> old e) (filter P (gate_evaluations db)) = filter (\<lambda>e. \<not> old e) (gate_evaluations db)"
    using P(2) by (auto intro: filter_cong)
  then have "length (filter old (gate_evaluations db')) + n = length (filter old (gate_evaluations db))"
    using sum_length_filter_compl [of old "gate_evaluations db"]
      sum_length_filter_compl [of old "gate_evaluations db'"] length_filter_le [of P "gate_evaluations db"]
    by (simp add: P(1) n)
  moreover have "evaluations_inv db'"
    using assms(1) by (auto simp: evaluations_inv_def unique_by_def P(1) distinct_map_filter)
  moreover have "length (gate_evaluations db') + n = length (gate_evaluations db)"
    using length_filter_le [of P "gate_evaluations db"] by (simp add: n P(1))
  ultimately show ?thesis
    by (simp add: expired_evaluations_def old_def [abs_def])
qed

definition cleaned :: "(gate_evaluation \<Rightarrow> bool) \<Rightarrow> int \<Rightarrow> nat \<Rightarrow> gate_db \<Rightarrow> gate_db \<Rightarrow> bool" where
  "cleaned locked now n db db' \<longleftrightarrow>
     gate_controls db' = gate_controls db \<and> gate_log db' = gate_log db \<and>
     (\<exists>P. gate_evaluations db' = filter P (gate_evaluations db) \<and>
        (\<forall>e \<in> set (gate_evaluations db). \<not> P e \<longrightarrow> e \<in> set (expired_evaluations locked now (gate_evaluations db)))) \<and>
     length (gate_evaluations db) - length (gate_evaluations db') =
       min n (length (expired_evaluations locked now (gate_evaluations db)))"

lemma batch_arith:
  "l1 - l' = min A e1 \<Longrightarrow> e1 + s = e \<Longrightarrow> l1 + s = l \<Longrightarrow> l' \<le> (l1 :: nat) \<Longrightarrow> l - l' = min (s + A) e"
  by (simp add: min_def split: if_splits)

lemma repeat_batches_cleaned:
  "evaluations_inv db \<Longrightarrow> evaluations_inv (repeat_batches again locked now db) \<and>
     cleaned locked now (Suc again * cleanup_batch_size) db (repeat_batches again locked now db)"
proof (induction again arbitrary: db)
  case 0
  obtain n db1 where b: "cleanup_batch locked now db = (n, db1)" by (metis surj_pair)
  then show ?case
    using cleanup_batch_filters [OF 0 b] cleanup_batch_expired [OF 0 b]
    by (subst (1 2) repeat_batches.simps) (simp add: cleaned_def)
next
  case (Suc again)
  obtain n db1 where b: "cleanup_batch locked now db = (n, db1)" by (metis surj_pair)
  note f = cleanup_batch_filters [OF Suc.prems b] and e = cleanup_batch_expired [OF Suc.prems b]
  have nmin: "n = min cleanup_batch_size (length (expired_evaluations locked now (gate_evaluations db)))"
    using f by blast
  have step: "repeat_batches (Suc again) locked now db =
      (if n < cleanup_batch_size then db1 else repeat_batches again locked now db1)"
    by (subst repeat_batches.simps) (simp add: b)
  show ?case
  proof (cases "n < cleanup_batch_size")
    case True
    then have "length (expired_evaluations locked now (gate_evaluations db)) = n"
      using nmin by (simp add: min_def split: if_splits)
    then show ?thesis using step f e True by (simp add: cleaned_def)
  next
    case False
    then have n: "n = cleanup_batch_size" using nmin by (simp add: min_def split: if_splits)
    obtain P where P: "gate_evaluations db1 = filter P (gate_evaluations db)"
      "\<forall>e \<in> set (gate_evaluations db). \<not> P e \<longrightarrow> e \<in> set (expired_evaluations locked now (gate_evaluations db))"
      using f by blast
    from Suc.IH [of db1] e obtain Q where Q:
      "gate_evaluations (repeat_batches again locked now db1) = filter Q (gate_evaluations db1)"
      "\<forall>e \<in> set (gate_evaluations db1). \<not> Q e \<longrightarrow> e \<in> set (expired_evaluations locked now (gate_evaluations db1))"
      by (auto simp: cleaned_def)
    have "gate_evaluations (repeat_batches again locked now db1) = filter (\<lambda>e. P e \<and> Q e) (gate_evaluations db)"
      using P(1) Q(1) by (simp add: conj_commute)
    moreover have "\<forall>e \<in> set (gate_evaluations db). \<not> (P e \<and> Q e) \<longrightarrow>
        e \<in> set (expired_evaluations locked now (gate_evaluations db))"
      using P Q(2) by (auto simp: expired_evaluations_def)
    ultimately have "\<exists>R. gate_evaluations (repeat_batches again locked now db1) = filter R (gate_evaluations db) \<and>
        (\<forall>e \<in> set (gate_evaluations db). \<not> R e \<longrightarrow> e \<in> set (expired_evaluations locked now (gate_evaluations db)))"
      by blast
    moreover have "repeat_batches (Suc again) locked now db = repeat_batches again locked now db1"
      using step False by simp
    moreover have "length (gate_evaluations (repeat_batches again locked now db1)) \<le> length (gate_evaluations db1)"
      by (simp add: Q(1))
    ultimately show ?thesis
      using Suc.IH [of db1] e f n
        batch_arith [of "length (gate_evaluations db1)" "length (gate_evaluations (repeat_batches again locked now db1))"
          "Suc again * cleanup_batch_size" "length (expired_evaluations locked now (gate_evaluations db1))" n
          "length (expired_evaluations locked now (gate_evaluations db))" "length (gate_evaluations db)"]
      by (simp add: cleaned_def)
  qed
qed

subsection \<open>Reachable worlds\<close>

definition gate_world_inv :: "gate_world \<Rightarrow> bool" where
  "gate_world_inv w \<longleftrightarrow> (\<forall>k. history_inv (gw_db w) k) \<and> evaluations_inv (gw_db w) \<and> answers_inv w \<and> pending_inv w"

lemma evaluate_reads_known:
  "evaluate_reads inp db = Inr (Inl d) \<Longrightarrow>
     \<exists>e. lookup_by ge_invocation_id (ev_invocation_id inp) (gate_evaluations db) = Some e \<and> ge_decision e = d"
  by (auto simp: evaluate_reads_def read_evaluation_def decode_evaluation_def
      split: sum.splits option.splits if_splits)

lemma validate_expected_revision_ok:
  "validate_expected_revision inp db = None \<Longrightarrow> ch_expected_revision inp = current_revision (change_gate_key inp) db"
  by (auto simp: validate_expected_revision_def current_revision_def Let_def split: option.splits if_splits)

lemma lookup_by_filter_unique:
  assumes "unique_by key rows" and "lookup_by key k rows = Some e" and "k \<in> key ` set (filter P rows)"
  shows "lookup_by key k (filter P rows) = Some e"
proof -
  obtain e' where e': "lookup_by key k (filter P rows) = Some e'" "e' \<in> set (filter P rows)"
    using lookup_by_exists [OF assms(3)] by blast
  then have "key e' = k" by (auto dest: lookup_by_SomeD)
  then have "e' = e"
    using lookup_by_SomeD [OF assms(2)] e'(2) unique_byD [OF assms(1), of e' e] by simp
  with e' show ?thesis by simp
qed

lemma history_inv_cong:
  assumes "gate_controls db' = gate_controls db" and "gate_log db' = gate_log db"
  shows "history_inv db' k = history_inv db k"
  unfolding history_inv_def gate_history_def assms ..

lemma gate_step_inv: "gate_world_inv w \<Longrightarrow> gate_world_inv (gate_step ev w)"
proof (cases ev)
  case (BeginEvaluate inp)
  assume "gate_world_inv w"
  then show ?thesis
    using evaluate_reads_known [of inp "gw_db w"]
    by (auto simp: BeginEvaluate gate_world_inv_def answers_inv_def pending_inv_def split: sum.splits)
next
  case (FinishEvaluate i uuid now)
  assume w: "gate_world_inv w"
  show ?thesis
  proof (cases "i < length (gw_evaluations w)")
    case True
    obtain inp d res db' where r: "gw_evaluations w ! i = (inp, d)" "evaluate_writes uuid now inp d (gw_db w) = (res, db')"
      by (metis surj_pair)
    have "evaluations_inv (gw_db w)" using w by (simp add: gate_world_inv_def)
    note keeps = evaluate_writes_keeps [OF r(2) this]
    have "history_inv db' k" for k
      using w keeps history_inv_cong [of db' "gw_db w" k] by (simp add: gate_world_inv_def)
    moreover have "answers_inv (gate_step ev w)"
      using w keeps True r
      by (fastforce simp: FinishEvaluate answers_inv_def gate_world_inv_def split: sum.splits)
    moreover have "pending_inv (gate_step ev w)"
      using w keeps True r by (auto simp: FinishEvaluate pending_inv_def gate_world_inv_def)
    ultimately show ?thesis
      using keeps True r by (simp add: gate_world_inv_def FinishEvaluate)
  qed (use w in \<open>simp add: FinishEvaluate\<close>)
next
  case (BeginChange inp)
  assume w: "gate_world_inv w"
  show ?thesis
    using w validate_expected_revision_ok [of inp "gw_db w"]
    by (auto simp: BeginChange gate_world_inv_def answers_inv_def pending_inv_def current_revision_def split: option.splits)
next
  case (FinishChange i uuid now)
  assume w: "gate_world_inv w"
  show ?thesis
  proof (cases "i < length (gw_changes w)")
    case True
    obtain res db' where r: "change_writes uuid now (gw_changes w ! i) (gw_db w) = (res, db')"
      by (metis surj_pair)
    have "\<forall>k. history_inv (gw_db w) k" using w by (simp add: gate_world_inv_def)
    note keeps = change_writes_history [OF r this]
    have "gate_evaluations db' = gate_evaluations (gw_db w)" using keeps by blast
    moreover have "pending_inv (gate_step ev w)"
      using w keeps True r set_remove_nth [of i "gw_changes w"]
      by (auto simp: FinishChange pending_inv_def gate_world_inv_def)
    ultimately show ?thesis
      using w keeps True r by (simp add: gate_world_inv_def FinishChange answers_inv_def evaluations_inv_def)
  qed (use w in \<open>simp add: FinishChange\<close>)
next
  case (CleanupEvaluations locked now)
  assume w: "gate_world_inv w"
  define db' where "db' = cleanup_expired_evaluations locked now (gw_db w)"
  have ev: "evaluations_inv (gw_db w)" using w by (simp add: gate_world_inv_def)
  note c = repeat_batches_cleaned [OF ev, of "cleanup_max_batches - 1" locked now,
      folded cleanup_expired_evaluations_def, folded db'_def]
  then obtain P where P: "gate_evaluations db' = filter P (gate_evaluations (gw_db w))"
    by (auto simp: cleaned_def)
  have "\<exists>e. lookup_by ge_invocation_id iid (gate_evaluations db') = Some e \<and> ge_decision e = d"
    if answer: "(iid, d) \<in> set (gw_answers w)" and kept: "recorded db' iid" for iid d
  proof -
    obtain e where "lookup_by ge_invocation_id iid (gate_evaluations (gw_db w)) = Some e" "ge_decision e = d"
      using w answer by (auto simp: gate_world_inv_def answers_inv_def)
    then show ?thesis
      using kept ev lookup_by_filter_unique [of ge_invocation_id "gate_evaluations (gw_db w)" iid e P]
      by (auto simp: recorded_def P evaluations_inv_def)
  qed
  then show ?thesis
    using w c history_inv_cong [of db' "gw_db w"]
    by (auto simp: CleanupEvaluations gate_world_inv_def answers_inv_def pending_inv_def
        cleaned_def Let_def simp flip: db'_def)
qed

lemma run_gates_inv: "gate_world_inv (run_gates evs)"
proof (induction evs rule: rev_induct)
  case Nil
  show ?case
    by (simp add: empty_gate_world_def gate_world_inv_def history_inv_def gate_history_def evaluations_inv_def
        answers_inv_def pending_inv_def lookup_by_def)
qed (simp add: gate_step_inv)

subsection \<open>Properties\<close>

text \<open>The log of a gate is complete and in order: in every reachable state a gate that was never
  changed has no log row, and a gate at revision n has exactly the log rows 1 to n, in order, the
  last one carrying the gate's execution path, reason, evidence and author.\<close>

theorem gate_revisions_are_logged:
  "case lookup_by gc_gate_key k (gate_controls (gw_db (run_gates evs))) of
     None \<Rightarrow> gate_history k (gw_db (run_gates evs)) = []
   | Some r \<Rightarrow> 1 \<le> gc_revision r \<and>
       map gl_revision (gate_history k (gw_db (run_gates evs))) = map int [1..<Suc (nat (gc_revision r))] \<and>
       gate_history k (gw_db (run_gates evs)) \<noteq> [] \<and> logs (last (gate_history k (gw_db (run_gates evs)))) r"
proof -
  have "history_inv (gw_db (run_gates evs)) k"
    using run_gates_inv [of evs] by (simp add: gate_world_inv_def)
  then show ?thesis
    by (auto simp: history_inv_def split: option.splits)
qed

text \<open>C40: A change is a compare-and-set on the revision: whatever ran between the validation of a
  change and its write, the write takes effect only if the gate is still at the expected revision,
  and then moves it to the next one; otherwise it changes nothing. So of concurrent changes that
  expect the same revision at most one succeeds.\<close>

theorem change_is_compare_and_set:
  assumes "inp \<in> set (gw_changes (run_gates evs))"
  shows "case change_writes uuid now inp (gw_db (run_gates evs)) of
      (Inl e, db') \<Rightarrow> db' = gw_db (run_gates evs)
    | (Inr resp, db') \<Rightarrow>
        current_revision (change_gate_key inp) (gw_db (run_gates evs)) = ch_expected_revision inp \<and>
        cr_revision resp = ch_expected_revision inp + 1 \<and>
        current_revision (change_gate_key inp) db' = ch_expected_revision inp + 1"
proof -
  obtain res db' where r: "change_writes uuid now inp (gw_db (run_gates evs)) = (res, db')"
    by (metis surj_pair)
  have pending: "lookup_by gc_gate_key (change_gate_key inp) (gate_controls (gw_db (run_gates evs))) = None \<longrightarrow>
      ch_expected_revision inp = 0"
    using run_gates_inv [of evs] assms by (simp add: gate_world_inv_def pending_inv_def)
  from r show ?thesis
  proof (cases rule: change_writes_cases)
    case failed
    then show ?thesis using r by simp
  next
    case (first c l)
    then show ?thesis
      using pending by (simp add: r current_revision_def lookup_by_append response_of_def)
  next
    case (update old c l)
    then show ?thesis
      by (simp add: r current_revision_def lookup_by_replace response_of_def)
  qed
qed


text \<open>Cleanup is safe and bounded: a run deletes only unlocked evaluation records older than
  seven days, exactly the smaller of ten thousand and their number, and leaves the other records
  (in their order), the gates and the log as they are.\<close>

theorem cleanup_is_bounded:
  "\<exists>P. gate_evaluations (cleanup_expired_evaluations locked now (gw_db (run_gates evs))) =
       filter P (gate_evaluations (gw_db (run_gates evs))) \<and>
     set (filter (Not \<circ> P) (gate_evaluations (gw_db (run_gates evs)))) \<subseteq>
       {e. ge_evaluated_at e < now - 7 * 24 * 60 * 60 * 1000000 \<and> \<not> locked e} \<and>
     length (filter (Not \<circ> P) (gate_evaluations (gw_db (run_gates evs)))) =
       min 10000 (length (filter (\<lambda>e. ge_evaluated_at e < now - 7 * 24 * 60 * 60 * 1000000 \<and> \<not> locked e)
         (gate_evaluations (gw_db (run_gates evs))))) \<and>
     gate_controls (cleanup_expired_evaluations locked now (gw_db (run_gates evs))) = gate_controls (gw_db (run_gates evs)) \<and>
     gate_log (cleanup_expired_evaluations locked now (gw_db (run_gates evs))) = gate_log (gw_db (run_gates evs))"
proof -
  let ?db = "gw_db (run_gates evs)"
  let ?old = "\<lambda>e. ge_evaluated_at e < now - 7 * 24 * 60 * 60 * 1000000 \<and> \<not> locked e"
  have inv: "evaluations_inv ?db"
    using run_gates_inv [of evs] by (simp add: gate_world_inv_def)
  have old: "expired_evaluations locked now rows = filter ?old rows" for rows
    by (simp add: expired_evaluations_def evaluation_retention_days_def)
  have c: "cleaned locked now 10000 ?db (cleanup_expired_evaluations locked now ?db)"
    using repeat_batches_cleaned [OF inv, of "cleanup_max_batches - 1" locked now]
    by (simp add: cleanup_expired_evaluations_def cleanup_max_batches_def cleanup_batch_size_def)
  then obtain P where P: "gate_evaluations (cleanup_expired_evaluations locked now ?db) = filter P (gate_evaluations ?db)"
    "\<forall>e \<in> set (gate_evaluations ?db). \<not> P e \<longrightarrow> ?old e"
    by (auto simp: cleaned_def old)
  have "length (filter (Not \<circ> P) (gate_evaluations ?db)) =
      length (gate_evaluations ?db) - length (filter P (gate_evaluations ?db))"
    using sum_length_filter_compl [of P "gate_evaluations ?db"] by (simp add: comp_def)
  then show ?thesis
    using P c by (intro exI [of _ P]) (auto simp: cleaned_def old)
qed

subsection \<open>The gate that decides\<close>

lemma find_js_set: "List.find P (js_set xs) = List.find P xs"
proof (induction xs rule: rev_induct)
  case (snoc x xs)
  then show ?case
    by (auto simp: js_set_snoc find_append find_None_iff split: option.split)
qed (simp add: js_set_def)

lemma lookup_by_filter_key:
  "k \<in> K \<Longrightarrow> lookup_by key k (filter (\<lambda>r. key r \<in> K) rows) = lookup_by key k rows"
  by (induction rows) (auto simp: lookup_by_def)

lemma first_control_find:
  assumes "set ks \<subseteq> K"
  shows "first_control ks (filter (\<lambda>r. gc_gate_key r \<in> K) rows) =
    (case List.find (\<lambda>k. lookup_by gc_gate_key k rows \<noteq> None) ks of
       None \<Rightarrow> None
     | Some k \<Rightarrow> Some (k, the (lookup_by gc_gate_key k rows)))"
  using assms by (induction ks) (auto simp: lookup_by_filter_key split: option.split)

definition scope_json :: "gate_scope \<Rightarrow> string \<Rightarrow> json" where
  "scope_json sc pk = JArr
     [JStr (gs_contract_identity sc), JStr (gs_contract_wire_version sc), JStr (gs_client_platform sc),
      JStr (gs_client_id sc), (case gs_workspace_id sc of None \<Rightarrow> JNull | Some w \<Rightarrow> JStr w), JStr pk]"

lemma scope_key_inject: "scope_key sc pk = scope_key sc' pk' \<longleftrightarrow> sc = sc' \<and> pk = pk'"
proof -
  have eq: "scope_key sc pk = json_stringify fraction_text (scope_json sc pk)" for sc pk
    by (simp add: scope_key_def scope_json_def split: option.split)
  have "scope_json sc pk = scope_json sc' pk' \<longleftrightarrow> sc = sc' \<and> pk = pk'"
    by (cases sc; cases sc') (auto simp: scope_json_def split: option.splits)
  then show ?thesis
    by (simp only: eq json_stringify_inject [OF fraction_text_number_text])
qed

text \<open>The most specific configured gate decides: the gate of the workspace and principal, else of
  the workspace for all principals, else of the principal in any workspace, else of all; with none
  of them the invocation takes the legacy path at revision 0. Gates of different scopes or
  principals are different rows, since the gate key determines both.\<close>

theorem most_specific_gate_decides:
  fixes db inp
  defines "sc \<equiv> ev_scope inp" and "pk \<equiv> owner_key_for_effective_principal (ev_principal inp)"
  shows "(case List.find (\<lambda>k. lookup_by gc_gate_key k (gate_controls db) \<noteq> None)
       [scope_key sc pk, scope_key sc ''*'',
        scope_key (sc\<lparr>gs_workspace_id := None\<rparr>) pk, scope_key (sc\<lparr>gs_workspace_id := None\<rparr>) ''*''] of
       None \<Rightarrow> gd_path (decide inp db) = LegacyPath \<and> gd_revision (decide inp db) = 0 \<and>
         \<not> gd_matched (decide inp db)
     | Some k \<Rightarrow> gd_gate_key (decide inp db) = k \<and> gd_matched (decide inp db) \<and>
         Some (gd_path (decide inp db)) = map_option gc_path (lookup_by gc_gate_key k (gate_controls db)) \<and>
         gd_revision (decide inp db) = current_revision k db) \<and>
    (scope_key sc' pk' = scope_key sc'' pk'' \<longleftrightarrow> sc' = sc'' \<and> pk' = pk'')"
proof -
  let ?find = "List.find (\<lambda>k. lookup_by gc_gate_key k (gate_controls db) \<noteq> None)"
  define ks where "ks = [scope_key sc pk, scope_key sc ''*'',
        scope_key (sc\<lparr>gs_workspace_id := None\<rparr>) pk, scope_key (sc\<lparr>gs_workspace_id := None\<rparr>) ''*'']"
  have "?find (evaluation_control_keys inp) = ?find ks"
  proof (cases "gs_workspace_id sc")
    case None
    then have same: "sc\<lparr>gs_workspace_id := None\<rparr> = sc" by (cases sc) simp
    show ?thesis
      using None by (simp add: same evaluation_control_keys_def find_js_set ks_def all_principals_key_def
          flip: sc_def pk_def)
  next
    case (Some w)
    then show ?thesis
      by (simp add: evaluation_control_keys_def find_js_set ks_def all_principals_key_def
          flip: sc_def pk_def)
  qed
  then have d: "decide inp db = (case ?find ks of
      None \<Rightarrow> fallback_decision inp ''unconfigured''
    | Some k \<Rightarrow> select_rollout_gate_decision k (Some (the (lookup_by gc_gate_key k (gate_controls db)))) None)"
    by (simp add: decide_def read_matching_control_def first_control_find split: option.split)
  have "?find ks = Some k \<Longrightarrow> lookup_by gc_gate_key k (gate_controls db) \<noteq> None" for k
    by (auto simp: find_Some_iff)
  then show ?thesis
    by (auto simp: d scope_key_inject fallback_decision_def select_rollout_gate_decision_def current_revision_def
        simp flip: ks_def split: option.split)
qed

subsection \<open>A concrete history\<close>

definition sample_scope :: gate_scope where
  "sample_scope = \<lparr>gs_contract_identity = ''billing'', gs_contract_wire_version = ''1'',
     gs_client_platform = ''discord'', gs_client_id = ''c'', gs_workspace_id = Some ''w''\<rparr>"

definition sample_evaluation :: evaluation_input where
  "sample_evaluation = \<lparr>ev_scope = sample_scope, ev_invocation_id = ''i1'', ev_principal = UserPrincipal ''u'' None,
     ev_actor_provenance = None\<rparr>"

definition sample_change :: change_input where
  "sample_change = \<lparr>ch_scope = sample_scope, ch_principal_key = None, ch_path = ReplacementPath,
     ch_reason = ''pilot'', ch_evidence_url = ''https://example.org'', ch_expected_revision = 0,
     ch_changed_by = ServicePrincipal ''ops'' ''ops'', ch_actor_provenance = None\<rparr>"

definition sample_gate_events :: "gate_event list" where
  "sample_gate_events = [BeginEvaluate sample_evaluation, FinishEvaluate 0 ''e1'' 5, BeginChange sample_change,
     BeginChange sample_change, FinishChange 0 ''d1'' 6, BeginEvaluate sample_evaluation]"

lemma sample_gate_world:
  "gw_changes (run_gates sample_gate_events) = [sample_change]"
  "gw_answers (run_gates sample_gate_events) =
     replicate 2 (''i1'', fallback_decision sample_evaluation ''unconfigured'')"
  by code_simp+

theorem change_is_compare_and_set_witness:
  "snd (change_writes ''d2'' 7 sample_change (gw_db (run_gates sample_gate_events))) = gw_db (run_gates sample_gate_events)"
proof -
  have "fst (change_writes ''d2'' 7 sample_change (gw_db (run_gates sample_gate_events))) =
      Inl (RevisionConflict (change_gate_key sample_change) 0 1)"
    by code_simp
  then show ?thesis
    using change_is_compare_and_set [of sample_change sample_gate_events "''d2''" 7]
    by (auto simp: sample_gate_world split: prod.splits)
qed


end
