(* ===== verification/MessageRoomOrder.thy ===== *)
theory MessageRoomOrder
  imports Prelude
begin

text \<open>
  The room-order messages of \<open>sheet-zero-api\<close>: the two tables, the timestamps that every write adds
  (\<open>src/tableAccess.ts\<close>, \<open>src/timestamps.ts\<close>), the three claims a worker takes on a message before
  it sends, re-ranks or pins it (\<open>src/claimHelpers.ts\<close>) and the sixteen mutators of
  \<open>src/api/messageRoomOrder.ts\<close>. Instants are milliseconds; every mutator gets the instant it reads
  at its start (\<open>now\<close>) and the one its writes are stamped with (\<open>stamp\<close>). A mutator runs in a
  transaction: an error leaves the tables as they were. Of the Zero write operations the model uses
  what they are documented to do: \<open>update\<close> changes the row with the primary key if there is one,
  \<open>insert\<close> fails on a duplicate key, \<open>upsert\<close> inserts or sets the columns it is given.
\<close>

named_theorems room_simps \<open>unfolding of the room-order mutators\<close>

subsection \<open>Table access\<close>

record message_key =
  mk_client_platform :: string
  mk_client_id :: string
  mk_message_id :: string

record audit =
  au_created_at :: rat
  au_updated_at :: int
  au_deleted_at :: "int option"

text \<open>\<open>upsertWithTimestamps\<close>: the creation time of the existing row, cut to whole milliseconds.\<close>

definition upsert_with_timestamps :: "int \<Rightarrow> audit option \<Rightarrow> audit" where
  "upsert_with_timestamps stamp existing =
     \<lparr>au_created_at = of_int (math_trunc
        (case existing of None \<Rightarrow> of_int stamp | Some a \<Rightarrow> au_created_at a)),
      au_updated_at = stamp, au_deleted_at = None\<rparr>"

definition update_with_timestamp :: "int \<Rightarrow> audit \<Rightarrow> audit" where
  "update_with_timestamp stamp a = a\<lparr>au_updated_at := stamp\<rparr>"

definition soft_delete :: "int \<Rightarrow> audit \<Rightarrow> audit" where
  "soft_delete stamp a = a\<lparr>au_deleted_at := Some stamp, au_updated_at := stamp\<rparr>"

definition preserve_omitted :: "'a option option \<Rightarrow> 'a option \<Rightarrow> 'a option" where
  "preserve_omitted supplied existing = (case supplied of None \<Rightarrow> existing | Some v \<Rightarrow> v)"

definition int4 :: "int \<Rightarrow> bool" where
  "int4 k \<longleftrightarrow> - 2147483648 \<le> k \<and> k \<le> 2147483647"

subsection \<open>Rows\<close>

record room_order_row =
  ro_key :: message_key
  ro_previous_fills :: "string list"
  ro_fills :: "string list"
  ro_hour :: int
  ro_rank :: int
  ro_tentative :: bool
  ro_monitor :: "string option"
  ro_workspace_id :: "string option"
  ro_conversation_id :: "string option"
  ro_created_by_user_id :: "string option"
  ro_send_claim_id :: "string option"
  ro_send_claimed_at :: "int option"
  ro_sent_message_id :: "string option"
  ro_sent_conversation_id :: "string option"
  ro_sent_at :: "int option"
  ro_update_claim_id :: "string option"
  ro_update_claimed_at :: "int option"
  ro_pin_claim_id :: "string option"
  ro_pin_claimed_at :: "int option"
  ro_pinned_at :: "int option"
  ro_audit :: audit

record room_order_entry =
  re_rank :: int
  re_position :: int
  re_hour :: int
  re_team :: string
  re_tags :: "string list"
  re_effect_value :: rat

record room_order_entry_row =
  rer_key :: message_key
  rer_entry :: room_order_entry
  rer_audit :: audit

text \<open>
  \<open>MessageRoomOrderDataInput\<close>: \<open>tentative\<close> may be omitted; \<open>monitor\<close> may be omitted (outer
  \<open>None\<close>) or null (inner \<open>None\<close>).
\<close>

record room_order_data =
  rod_previous_fills :: "string list"
  rod_fills :: "string list"
  rod_hour :: int
  rod_rank :: int
  rod_tentative :: "bool option"
  rod_monitor :: "string option option"
  rod_workspace_id :: "string option"
  rod_conversation_id :: "string option"
  rod_created_by_user_id :: "string option"

record room_order_db =
  room_orders :: "room_order_row list"
  room_order_entries :: "room_order_entry_row list"

datatype mutation_error = IntegerOutOfRange | DuplicateKey | EntriesNotUnique

type_synonym room_txn = "(mutation_error, unit, room_order_db) txn"

definition find_message_room_order :: "message_key \<Rightarrow> room_order_db \<Rightarrow> room_order_row option" where
  "find_message_room_order k db = lookup_by ro_key k (room_orders db)"

definition active_record :: "('r \<Rightarrow> audit) \<Rightarrow> 'r option \<Rightarrow> 'r option" where
  "active_record aud r =
     (case r of None \<Rightarrow> None | Some x \<Rightarrow> if au_deleted_at (aud x) = None then Some x else None)"

text \<open>\<open>getActiveByPrimaryKey\<close>: the primary key is unique, so filtering by it first is the same.\<close>

definition find_active_message_room_order :: "message_key \<Rightarrow> room_order_db \<Rightarrow> room_order_row option" where
  "find_active_message_room_order k db = active_record ro_audit (find_message_room_order k db)"

subsection \<open>Claims\<close>

definition claim_stale_ms :: int where "claim_stale_ms = 10 * 60 * 1000"

definition is_active_timestamp_claim :: "int option \<Rightarrow> int \<Rightarrow> bool" where
  "is_active_timestamp_claim claimed_at now =
     (case claimed_at of None \<Rightarrow> False | Some t \<Rightarrow> \<bar>now - t\<bar> \<le> claim_stale_ms)"

definition is_active_send_claim :: "string option \<Rightarrow> int option \<Rightarrow> int \<Rightarrow> bool" where
  "is_active_send_claim claim_id claimed_at now \<longleftrightarrow>
     claim_id \<noteq> None \<and> is_active_timestamp_claim claimed_at now"

definition has_active_send_claim :: "room_order_row \<Rightarrow> int \<Rightarrow> bool" where
  "has_active_send_claim r now = is_active_send_claim (ro_send_claim_id r) (ro_send_claimed_at r) now"

definition has_active_tentative_update_claim :: "room_order_row \<Rightarrow> int \<Rightarrow> bool" where
  "has_active_tentative_update_claim r now \<longleftrightarrow>
     ro_update_claim_id r \<noteq> None \<and> is_active_timestamp_claim (ro_update_claimed_at r) now"

definition has_active_tentative_pin_claim :: "room_order_row \<Rightarrow> int \<Rightarrow> bool" where
  "has_active_tentative_pin_claim r now \<longleftrightarrow>
     ro_pin_claim_id r \<noteq> None \<and> is_active_timestamp_claim (ro_pin_claimed_at r) now"

definition has_stale_untracked_send_claim :: "room_order_row \<Rightarrow> int \<Rightarrow> bool" where
  "has_stale_untracked_send_claim r now \<longleftrightarrow>
     ro_send_claim_id r \<noteq> None \<and> ro_sent_message_id r = None \<and>
     \<not> is_active_send_claim (ro_send_claim_id r) (ro_send_claimed_at r) now"

definition has_expected_rank_mismatch :: "room_order_row \<Rightarrow> int option \<Rightarrow> bool" where
  "has_expected_rank_mismatch r expected = (case expected of None \<Rightarrow> False | Some e \<Rightarrow> ro_rank r \<noteq> e)"

definition has_foreign_tentative_update_claim :: "room_order_row \<Rightarrow> int \<Rightarrow> string option \<Rightarrow> bool" where
  "has_foreign_tentative_update_claim r now claim \<longleftrightarrow>
     has_active_tentative_update_claim r now \<and> ro_update_claim_id r \<noteq> claim"

definition blocks_rank_change :: "room_order_row \<Rightarrow> int \<Rightarrow> int option \<Rightarrow> string option \<Rightarrow> bool" where
  "blocks_rank_change r now expected claim \<longleftrightarrow>
     ro_pinned_at r \<noteq> None \<or> has_expected_rank_mismatch r expected \<or>
     has_active_send_claim r now \<or> has_foreign_tentative_update_claim r now claim \<or>
     has_active_tentative_pin_claim r now"

definition blocks_send_claim :: "room_order_row \<Rightarrow> int \<Rightarrow> bool" where
  "blocks_send_claim r now \<longleftrightarrow>
     ro_sent_message_id r \<noteq> None \<or> ro_pinned_at r \<noteq> None \<or>
     is_active_send_claim (ro_send_claim_id r) (ro_send_claimed_at r) now \<or>
     has_active_tentative_update_claim r now \<or> has_active_tentative_pin_claim r now"

definition blocks_tentative_claim :: "room_order_row \<Rightarrow> int \<Rightarrow> bool" where
  "blocks_tentative_claim r now \<longleftrightarrow>
     ro_pinned_at r \<noteq> None \<or> has_stale_untracked_send_claim r now \<or>
     is_active_send_claim (ro_send_claim_id r) (ro_send_claimed_at r) now \<or>
     has_active_tentative_pin_claim r now \<or> has_active_tentative_update_claim r now"

subsection \<open>Mutators of the message\<close>

definition update_room_order ::
    "int \<Rightarrow> message_key \<Rightarrow> (room_order_row \<Rightarrow> room_order_row) \<Rightarrow> room_order_db \<Rightarrow> room_order_db" where
  "update_room_order stamp k f db =
     db\<lparr>room_orders := update_where (\<lambda>r. ro_key r = k)
          (\<lambda>r. (f r)\<lparr>ro_audit := update_with_timestamp stamp (ro_audit r)\<rparr>) (room_orders db)\<rparr>"

definition change_message_room_order_rank ::
    "int \<Rightarrow> int \<Rightarrow> int \<Rightarrow> message_key \<Rightarrow> int option \<Rightarrow> string option \<Rightarrow> room_txn" where
  "change_message_room_order_rank delta now stamp k expected claim db =
     (case find_active_message_room_order k db of
        None \<Rightarrow> (Inr (), db)
      | Some r \<Rightarrow>
          if blocks_rank_change r now expected claim then (Inr (), db)
          else if \<not> int4 (ro_rank r + delta) then (Inl IntegerOutOfRange, db)
          else (Inr (), update_room_order stamp k (\<lambda>x. x\<lparr>ro_rank := ro_rank r + delta\<rparr>) db))"

definition decrement_message_room_order_rank ::
    "int \<Rightarrow> int \<Rightarrow> message_key \<Rightarrow> int option \<Rightarrow> string option \<Rightarrow> room_txn" where
  "decrement_message_room_order_rank = change_message_room_order_rank (- 1)"

definition increment_message_room_order_rank ::
    "int \<Rightarrow> int \<Rightarrow> message_key \<Rightarrow> int option \<Rightarrow> string option \<Rightarrow> room_txn" where
  "increment_message_room_order_rank = change_message_room_order_rank 1"

definition claim_message_room_order_send ::
    "int \<Rightarrow> int \<Rightarrow> message_key \<Rightarrow> string \<Rightarrow> room_txn" where
  "claim_message_room_order_send now stamp k claim db =
     (case find_active_message_room_order k db of
        None \<Rightarrow> (Inr (), db)
      | Some r \<Rightarrow>
          if blocks_send_claim r now then (Inr (), db)
          else (Inr (), update_room_order stamp k (\<lambda>x. x\<lparr>
            ro_send_claim_id := Some claim, ro_send_claimed_at := Some now,
            ro_update_claim_id := None, ro_update_claimed_at := None,
            ro_pin_claim_id := None, ro_pin_claimed_at := None\<rparr>) db))"

definition complete_message_room_order_send ::
    "int \<Rightarrow> message_key \<Rightarrow> string \<Rightarrow> string \<Rightarrow> string \<Rightarrow> int \<Rightarrow> room_txn" where
  "complete_message_room_order_send stamp k claim sent_message sent_conversation sent_at db =
     (case find_active_message_room_order k db of
        None \<Rightarrow> (Inr (), db)
      | Some r \<Rightarrow>
          if ro_send_claim_id r \<noteq> Some claim then (Inr (), db)
          else (Inr (), update_room_order stamp k (\<lambda>x. x\<lparr>
            ro_send_claim_id := None, ro_send_claimed_at := None,
            ro_sent_message_id := Some sent_message,
            ro_sent_conversation_id := Some sent_conversation, ro_sent_at := Some sent_at\<rparr>) db))"

definition release_message_room_order_send_claim ::
    "int \<Rightarrow> message_key \<Rightarrow> string \<Rightarrow> room_txn" where
  "release_message_room_order_send_claim stamp k claim db =
     (case find_active_message_room_order k db of
        None \<Rightarrow> (Inr (), db)
      | Some r \<Rightarrow>
          if ro_send_claim_id r \<noteq> Some claim then (Inr (), db)
          else (Inr (), update_room_order stamp k (\<lambda>x. x\<lparr>
            ro_send_claim_id := None, ro_send_claimed_at := None\<rparr>) db))"

definition claim_message_room_order_tentative_update ::
    "int \<Rightarrow> int \<Rightarrow> message_key \<Rightarrow> string \<Rightarrow> room_txn" where
  "claim_message_room_order_tentative_update now stamp k claim db =
     (case find_active_message_room_order k db of
        None \<Rightarrow> (Inr (), db)
      | Some r \<Rightarrow>
          if blocks_tentative_claim r now then (Inr (), db)
          else (Inr (), update_room_order stamp k (\<lambda>x. x\<lparr>
            ro_send_claim_id := None, ro_send_claimed_at := None,
            ro_update_claim_id := Some claim, ro_update_claimed_at := Some now,
            ro_pin_claim_id := None, ro_pin_claimed_at := None\<rparr>) db))"

definition release_message_room_order_tentative_update_claim ::
    "int \<Rightarrow> message_key \<Rightarrow> string \<Rightarrow> room_txn" where
  "release_message_room_order_tentative_update_claim stamp k claim db =
     (case find_active_message_room_order k db of
        None \<Rightarrow> (Inr (), db)
      | Some r \<Rightarrow>
          if ro_update_claim_id r \<noteq> Some claim then (Inr (), db)
          else (Inr (), update_room_order stamp k (\<lambda>x. x\<lparr>
            ro_update_claim_id := None, ro_update_claimed_at := None\<rparr>) db))"

definition claim_message_room_order_tentative_pin ::
    "int \<Rightarrow> int \<Rightarrow> message_key \<Rightarrow> string \<Rightarrow> room_txn" where
  "claim_message_room_order_tentative_pin now stamp k claim db =
     (case find_active_message_room_order k db of
        None \<Rightarrow> (Inr (), db)
      | Some r \<Rightarrow>
          if blocks_tentative_claim r now then (Inr (), db)
          else (Inr (), update_room_order stamp k (\<lambda>x. x\<lparr>
            ro_send_claim_id := None, ro_send_claimed_at := None,
            ro_pin_claim_id := Some claim, ro_pin_claimed_at := Some now,
            ro_update_claim_id := None, ro_update_claimed_at := None\<rparr>) db))"

definition complete_message_room_order_tentative_pin ::
    "int \<Rightarrow> message_key \<Rightarrow> string \<Rightarrow> int \<Rightarrow> room_txn" where
  "complete_message_room_order_tentative_pin stamp k claim pinned_at db =
     (case find_active_message_room_order k db of
        None \<Rightarrow> (Inr (), db)
      | Some r \<Rightarrow>
          if ro_pinned_at r \<noteq> None \<or> ro_pin_claim_id r \<noteq> Some claim then (Inr (), db)
          else (Inr (), update_room_order stamp k (\<lambda>x. x\<lparr>
            ro_pin_claim_id := None, ro_pin_claimed_at := None, ro_pinned_at := Some pinned_at\<rparr>) db))"

definition release_message_room_order_tentative_pin_claim ::
    "int \<Rightarrow> message_key \<Rightarrow> string \<Rightarrow> room_txn" where
  "release_message_room_order_tentative_pin_claim stamp k claim db =
     (case find_active_message_room_order k db of
        None \<Rightarrow> (Inr (), db)
      | Some r \<Rightarrow>
          if ro_pinned_at r \<noteq> None \<or> ro_pin_claim_id r \<noteq> Some claim then (Inr (), db)
          else (Inr (), update_room_order stamp k (\<lambda>x. x\<lparr>
            ro_pin_claim_id := None, ro_pin_claimed_at := None\<rparr>) db))"

definition mark_message_room_order_tentative ::
    "int \<Rightarrow> int \<Rightarrow> message_key \<Rightarrow> string \<Rightarrow> string \<Rightarrow> room_txn" where
  "mark_message_room_order_tentative now stamp k workspace conversation db =
     (case find_active_message_room_order k db of
        None \<Rightarrow> (Inr (), db)
      | Some r \<Rightarrow>
          if blocks_tentative_claim r now \<or> blocks_send_claim r now \<or>
             ro_workspace_id r \<noteq> Some workspace \<or> ro_conversation_id r \<noteq> Some conversation
          then (Inr (), db)
          else (Inr (), update_room_order stamp k (\<lambda>x. x\<lparr>ro_tentative := True,
            ro_workspace_id := Some workspace, ro_conversation_id := Some conversation\<rparr>) db))"

subsection \<open>Writing messages and entries\<close>

definition new_room_order_row :: "int \<Rightarrow> message_key \<Rightarrow> room_order_data \<Rightarrow> room_order_row" where
  "new_room_order_row stamp k d =
     \<lparr>ro_key = k, ro_previous_fills = rod_previous_fills d, ro_fills = rod_fills d,
      ro_hour = rod_hour d, ro_rank = rod_rank d,
      ro_tentative = (case rod_tentative d of None \<Rightarrow> False | Some b \<Rightarrow> b),
      ro_monitor = (case rod_monitor d of None \<Rightarrow> None | Some m \<Rightarrow> m),
      ro_workspace_id = rod_workspace_id d, ro_conversation_id = rod_conversation_id d,
      ro_created_by_user_id = rod_created_by_user_id d,
      ro_send_claim_id = None, ro_send_claimed_at = None, ro_sent_message_id = None,
      ro_sent_conversation_id = None, ro_sent_at = None, ro_update_claim_id = None,
      ro_update_claimed_at = None, ro_pin_claim_id = None, ro_pin_claimed_at = None,
      ro_pinned_at = None, ro_audit = upsert_with_timestamps stamp None\<rparr>"

text \<open>The columns an upsert sets; the claims, the sent message and the pin are not among them.\<close>

definition upserted_room_order_row :: "int \<Rightarrow> room_order_data \<Rightarrow> room_order_row \<Rightarrow> room_order_row" where
  "upserted_room_order_row stamp d r =
     (let active = active_record ro_audit (Some r) in
      r\<lparr>ro_previous_fills := rod_previous_fills d, ro_fills := rod_fills d, ro_hour := rod_hour d,
        ro_rank := rod_rank d,
        ro_tentative := (case preserve_omitted (map_option Some (rod_tentative d)) (map_option ro_tentative active)
          of None \<Rightarrow> False | Some b \<Rightarrow> b),
        ro_monitor := preserve_omitted (rod_monitor d) (case active of None \<Rightarrow> None | Some x \<Rightarrow> ro_monitor x),
        ro_workspace_id := rod_workspace_id d, ro_conversation_id := rod_conversation_id d,
        ro_created_by_user_id := rod_created_by_user_id d,
        ro_audit := upsert_with_timestamps stamp (map_option ro_audit active)\<rparr>)"

definition upsert_room_order_record :: "int \<Rightarrow> message_key \<Rightarrow> room_order_data \<Rightarrow> room_txn" where
  "upsert_room_order_record stamp k d db =
     (if \<not> (int4 (rod_hour d) \<and> int4 (rod_rank d)) then (Inl IntegerOutOfRange, db)
      else case find_message_room_order k db of
        None \<Rightarrow> (Inr (), db\<lparr>room_orders := room_orders db @ [new_room_order_row stamp k d]\<rparr>)
      | Some r \<Rightarrow> (Inr (), db\<lparr>room_orders := update_where (\<lambda>x. ro_key x = k)
          (upserted_room_order_row stamp d) (room_orders db)\<rparr>))"

definition insert_room_order_record :: "int \<Rightarrow> message_key \<Rightarrow> room_order_data \<Rightarrow> room_txn" where
  "insert_room_order_record stamp k d db =
     (if \<not> (int4 (rod_hour d) \<and> int4 (rod_rank d)) then (Inl IntegerOutOfRange, db)
      else if find_message_room_order k db \<noteq> None then (Inl DuplicateKey, db)
      else (Inr (), db\<lparr>room_orders := room_orders db @ [new_room_order_row stamp k d]\<rparr>))"

text \<open>
  \<open>roomOrderEntryKey\<close> writes rank and position with a colon between them; two such texts are
  equal exactly when the numbers are.
\<close>

definition room_order_entry_key :: "room_order_entry \<Rightarrow> string" where
  "room_order_entry_key e = int_text (re_rank e) @ '':'' @ int_text (re_position e)"

definition entries_unique :: "room_order_entry list \<Rightarrow> bool" where
  "entries_unique es \<longleftrightarrow> distinct (map room_order_entry_key es)"

definition find_message_room_order_entries :: "message_key \<Rightarrow> room_order_db \<Rightarrow> room_order_entry_row list" where
  "find_message_room_order_entries k db = filter (\<lambda>r. rer_key r = k) (room_order_entries db)"

definition entry_primary_key :: "room_order_entry_row \<Rightarrow> message_key \<times> int \<times> int" where
  "entry_primary_key r = (rer_key r, re_rank (rer_entry r), re_position (rer_entry r))"

definition entry_in_range :: "room_order_entry \<Rightarrow> bool" where
  "entry_in_range e \<longleftrightarrow> int4 (re_rank e) \<and> int4 (re_position e) \<and> int4 (re_hour e)"

text \<open>A later entry of the list with the same text replaces an earlier one in a JavaScript \<open>Map\<close>.\<close>

definition existing_by_key :: "room_order_entry_row list \<Rightarrow> string \<Rightarrow> room_order_entry_row option" where
  "existing_by_key existing key =
     lookup_by (\<lambda>r. room_order_entry_key (rer_entry r)) key
       (rev (filter (\<lambda>r. au_deleted_at (rer_audit r) = None) existing))"

definition upsert_room_order_entry ::
    "int \<Rightarrow> message_key \<Rightarrow> room_order_entry_row list \<Rightarrow> room_order_entry \<Rightarrow> room_txn" where
  "upsert_room_order_entry stamp k existing e db =
     (let row = \<lparr>rer_key = k, rer_entry = e, rer_audit = upsert_with_timestamps stamp
           (map_option rer_audit (existing_by_key existing (room_order_entry_key e)))\<rparr> in
      if \<not> entry_in_range e then (Inl IntegerOutOfRange, db)
      else case lookup_by entry_primary_key (entry_primary_key row) (room_order_entries db) of
        None \<Rightarrow> (Inr (), db\<lparr>room_order_entries := room_order_entries db @ [row]\<rparr>)
      | Some r \<Rightarrow> (Inr (), db\<lparr>room_order_entries :=
          update_where (\<lambda>x. entry_primary_key x = entry_primary_key row) (\<lambda>_. row)
            (room_order_entries db)\<rparr>))"

fun upsert_room_order_entries ::
    "int \<Rightarrow> message_key \<Rightarrow> room_order_entry list \<Rightarrow> room_order_entry_row list \<Rightarrow> room_txn" where
  "upsert_room_order_entries stamp k [] existing = txn_return ()"
| "upsert_room_order_entries stamp k (e # es) existing =
     txn_bind (upsert_room_order_entry stamp k existing e)
       (\<lambda>_. upsert_room_order_entries stamp k es existing)"

definition insert_room_order_entry :: "int \<Rightarrow> message_key \<Rightarrow> room_order_entry \<Rightarrow> room_txn" where
  "insert_room_order_entry stamp k e db =
     (let row = \<lparr>rer_key = k, rer_entry = e, rer_audit = upsert_with_timestamps stamp None\<rparr> in
      if \<not> entry_in_range e then (Inl IntegerOutOfRange, db)
      else if lookup_by entry_primary_key (entry_primary_key row) (room_order_entries db) \<noteq> None
      then (Inl DuplicateKey, db)
      else (Inr (), db\<lparr>room_order_entries := room_order_entries db @ [row]\<rparr>))"

fun insert_room_order_entries :: "int \<Rightarrow> message_key \<Rightarrow> room_order_entry list \<Rightarrow> room_txn" where
  "insert_room_order_entries stamp k [] = txn_return ()"
| "insert_room_order_entries stamp k (e # es) =
     txn_bind (insert_room_order_entry stamp k e) (\<lambda>_. insert_room_order_entries stamp k es)"

definition soft_delete_entry :: "int \<Rightarrow> message_key \<Rightarrow> int \<Rightarrow> int \<Rightarrow> room_order_db \<Rightarrow> room_order_db" where
  "soft_delete_entry stamp k rank position db =
     db\<lparr>room_order_entries := update_where (\<lambda>r. entry_primary_key r = (k, rank, position))
          (\<lambda>r. r\<lparr>rer_audit := soft_delete stamp (rer_audit r)\<rparr>) (room_order_entries db)\<rparr>"

definition delete_unsupplied_entries ::
    "int \<Rightarrow> message_key \<Rightarrow> string list \<Rightarrow> room_order_entry_row list \<Rightarrow> room_order_db \<Rightarrow> room_order_db" where
  "delete_unsupplied_entries stamp k supplied existing db =
     foldl (\<lambda>db r.
         if au_deleted_at (rer_audit r) = None \<and> room_order_entry_key (rer_entry r) \<notin> set supplied
         then soft_delete_entry stamp k (re_rank (rer_entry r)) (re_position (rer_entry r)) db
         else db) db existing"

definition require_unique_entries :: "room_order_entry list \<Rightarrow> room_txn" where
  "require_unique_entries es = (if entries_unique es then txn_return () else txn_fail EntriesNotUnique)"

definition persist_message_room_order ::
    "int \<Rightarrow> message_key \<Rightarrow> room_order_data \<Rightarrow> room_order_entry list \<Rightarrow> room_txn" where
  "persist_message_room_order stamp k d es db =
     (let existing = find_message_room_order_entries k db in
      txn_bind (require_unique_entries es) (\<lambda>_.
      txn_bind (upsert_room_order_record stamp k d) (\<lambda>_.
      txn_bind (\<lambda>s. (Inr (), delete_unsupplied_entries stamp k (map room_order_entry_key es) existing s)) (\<lambda>_.
      upsert_room_order_entries stamp k es existing))) db)"

definition bind_message_room_order_if_absent ::
    "int \<Rightarrow> message_key \<Rightarrow> room_order_data \<Rightarrow> room_order_entry list \<Rightarrow> room_txn" where
  "bind_message_room_order_if_absent stamp k d es =
     txn_bind (require_unique_entries es) (\<lambda>_ db.
       if find_message_room_order k db \<noteq> None then (Inr (), db)
       else txn_bind (insert_room_order_record stamp k d)
         (\<lambda>_. insert_room_order_entries stamp k es) db)"

definition upsert_message_room_order_entry ::
    "int \<Rightarrow> message_key \<Rightarrow> room_order_entry list \<Rightarrow> room_txn" where
  "upsert_message_room_order_entry stamp k es db =
     txn_bind (require_unique_entries es) (\<lambda>_.
       upsert_room_order_entries stamp k es (find_message_room_order_entries k db)) db"

subsection \<open>Queries\<close>

definition get_message_room_order_entry :: "message_key \<Rightarrow> int \<Rightarrow> room_order_db \<Rightarrow> room_order_entry_row list" where
  "get_message_room_order_entry k rank db =
     sort_key (\<lambda>r. re_position (rer_entry r))
       (filter (\<lambda>r. rer_key r = k \<and> re_rank (rer_entry r) = rank \<and> au_deleted_at (rer_audit r) = None)
         (room_order_entries db))"

definition get_message_room_order_range :: "message_key \<Rightarrow> room_order_db \<Rightarrow> room_order_entry_row list" where
  "get_message_room_order_range k db =
     filter (\<lambda>r. rer_key r = k \<and> au_deleted_at (rer_audit r) = None) (room_order_entries db)"

subsection \<open>Running mutators\<close>

datatype room_mutation =
    DecrementRank message_key "int option" "string option"
  | IncrementRank message_key "int option" "string option"
  | ClaimSend message_key string
  | CompleteSend message_key string string string int
  | ReleaseSend message_key string
  | ClaimTentativeUpdate message_key string
  | ReleaseTentativeUpdate message_key string
  | ClaimTentativePin message_key string
  | CompleteTentativePin message_key string int
  | ReleaseTentativePin message_key string
  | MarkTentative message_key string string
  | UpsertRoomOrder message_key room_order_data
  | PersistRoomOrder message_key room_order_data "room_order_entry list"
  | BindRoomOrder message_key room_order_data "room_order_entry list"
  | UpsertEntries message_key "room_order_entry list"
  | RemoveEntry message_key int int

fun room_mutator :: "int \<Rightarrow> int \<Rightarrow> room_mutation \<Rightarrow> room_txn" where
  "room_mutator now stamp (DecrementRank k e c) = decrement_message_room_order_rank now stamp k e c"
| "room_mutator now stamp (IncrementRank k e c) = increment_message_room_order_rank now stamp k e c"
| "room_mutator now stamp (ClaimSend k c) = claim_message_room_order_send now stamp k c"
| "room_mutator now stamp (CompleteSend k c m v t) = complete_message_room_order_send stamp k c m v t"
| "room_mutator now stamp (ReleaseSend k c) = release_message_room_order_send_claim stamp k c"
| "room_mutator now stamp (ClaimTentativeUpdate k c) = claim_message_room_order_tentative_update now stamp k c"
| "room_mutator now stamp (ReleaseTentativeUpdate k c) =
     release_message_room_order_tentative_update_claim stamp k c"
| "room_mutator now stamp (ClaimTentativePin k c) = claim_message_room_order_tentative_pin now stamp k c"
| "room_mutator now stamp (CompleteTentativePin k c t) = complete_message_room_order_tentative_pin stamp k c t"
| "room_mutator now stamp (ReleaseTentativePin k c) = release_message_room_order_tentative_pin_claim stamp k c"
| "room_mutator now stamp (MarkTentative k w v) = mark_message_room_order_tentative now stamp k w v"
| "room_mutator now stamp (UpsertRoomOrder k d) = upsert_room_order_record stamp k d"
| "room_mutator now stamp (PersistRoomOrder k d es) = persist_message_room_order stamp k d es"
| "room_mutator now stamp (BindRoomOrder k d es) = bind_message_room_order_if_absent stamp k d es"
| "room_mutator now stamp (UpsertEntries k es) = upsert_message_room_order_entry stamp k es"
| "room_mutator now stamp (RemoveEntry k r p) = (\<lambda>db. (Inr (), soft_delete_entry stamp k r p db))"

definition run_room_mutation :: "int \<times> int \<times> room_mutation \<Rightarrow> room_order_db \<Rightarrow> room_order_db" where
  "run_room_mutation ev db =
     (case ev of (now, stamp, m) \<Rightarrow> snd (with_transaction (room_mutator now stamp m) db))"

definition run_room_mutations :: "(int \<times> int \<times> room_mutation) list \<Rightarrow> room_order_db \<Rightarrow> room_order_db" where
  "run_room_mutations evs db = foldl (\<lambda>db ev. run_room_mutation ev db) db evs"

definition no_room_orders :: room_order_db where
  "no_room_orders = \<lparr>room_orders = [], room_order_entries = []\<rparr>"

subsection \<open>The claim of a message as a state machine\<close>

text \<open>
  What the columns of a row amount to: one claim at most, what was sent, and when it was pinned.
  \<open>claim_step\<close> is the specification of the mutators on this state.
\<close>

datatype room_claim = NoClaim | SendClaim string int | UpdateClaim string int | PinClaim string int

record claim_state =
  cs_claim :: room_claim
  cs_sent :: "(string \<times> string \<times> int) option"
  cs_pinned :: "int option"

definition live_claim :: "int \<Rightarrow> room_claim \<Rightarrow> bool" where
  "live_claim now c =
     (case c of NoClaim \<Rightarrow> False | SendClaim i t \<Rightarrow> \<bar>now - t\<bar> \<le> 600000
      | UpdateClaim i t \<Rightarrow> \<bar>now - t\<bar> \<le> 600000 | PinClaim i t \<Rightarrow> \<bar>now - t\<bar> \<le> 600000)"

definition is_send_claim :: "room_claim \<Rightarrow> bool" where
  "is_send_claim c = (case c of SendClaim i t \<Rightarrow> True | _ \<Rightarrow> False)"

definition release_if :: "(room_claim \<Rightarrow> bool) \<Rightarrow> claim_state \<Rightarrow> claim_state" where
  "release_if p s = (if p (cs_claim s) then s\<lparr>cs_claim := NoClaim\<rparr> else s)"

definition holds_send :: "string \<Rightarrow> room_claim \<Rightarrow> bool" where
  "holds_send c x = (case x of SendClaim i t \<Rightarrow> i = c | _ \<Rightarrow> False)"

definition holds_update :: "string \<Rightarrow> room_claim \<Rightarrow> bool" where
  "holds_update c x = (case x of UpdateClaim i t \<Rightarrow> i = c | _ \<Rightarrow> False)"

definition holds_pin :: "string \<Rightarrow> room_claim \<Rightarrow> bool" where
  "holds_pin c x = (case x of PinClaim i t \<Rightarrow> i = c | _ \<Rightarrow> False)"

definition may_claim_tentatively :: "int \<Rightarrow> claim_state \<Rightarrow> bool" where
  "may_claim_tentatively now s \<longleftrightarrow>
     cs_pinned s = None \<and> \<not> is_send_claim (cs_claim s) \<and> \<not> live_claim now (cs_claim s)"

fun claim_step :: "int \<Rightarrow> room_mutation \<Rightarrow> claim_state \<Rightarrow> claim_state" where
  "claim_step now (ClaimSend k c) s =
     (if cs_sent s = None \<and> cs_pinned s = None \<and> \<not> live_claim now (cs_claim s)
      then s\<lparr>cs_claim := SendClaim c now\<rparr> else s)"
| "claim_step now (CompleteSend k c m v t) s =
     (if holds_send c (cs_claim s) then s\<lparr>cs_claim := NoClaim, cs_sent := Some (m, v, t)\<rparr> else s)"
| "claim_step now (ReleaseSend k c) s = release_if (holds_send c) s"
| "claim_step now (ClaimTentativeUpdate k c) s =
     (if may_claim_tentatively now s then s\<lparr>cs_claim := UpdateClaim c now\<rparr> else s)"
| "claim_step now (ReleaseTentativeUpdate k c) s = release_if (holds_update c) s"
| "claim_step now (ClaimTentativePin k c) s =
     (if may_claim_tentatively now s then s\<lparr>cs_claim := PinClaim c now\<rparr> else s)"
| "claim_step now (CompleteTentativePin k c t) s =
     (if holds_pin c (cs_claim s) then s\<lparr>cs_claim := NoClaim, cs_pinned := Some t\<rparr> else s)"
| "claim_step now (ReleaseTentativePin k c) s = release_if (holds_pin c) s"
| "claim_step now _ s = s"

fun mutation_key :: "room_mutation \<Rightarrow> message_key" where
  "mutation_key (DecrementRank k e c) = k"
| "mutation_key (IncrementRank k e c) = k"
| "mutation_key (ClaimSend k c) = k"
| "mutation_key (CompleteSend k c m v t) = k"
| "mutation_key (ReleaseSend k c) = k"
| "mutation_key (ClaimTentativeUpdate k c) = k"
| "mutation_key (ReleaseTentativeUpdate k c) = k"
| "mutation_key (ClaimTentativePin k c) = k"
| "mutation_key (CompleteTentativePin k c t) = k"
| "mutation_key (ReleaseTentativePin k c) = k"
| "mutation_key (MarkTentative k w v) = k"
| "mutation_key (UpsertRoomOrder k d) = k"
| "mutation_key (PersistRoomOrder k d es) = k"
| "mutation_key (BindRoomOrder k d es) = k"
| "mutation_key (UpsertEntries k es) = k"
| "mutation_key (RemoveEntry k r p) = k"

definition stored_claim :: "room_order_row \<Rightarrow> room_claim" where
  "stored_claim r =
     (case (ro_send_claim_id r, ro_send_claimed_at r) of
        (Some c, Some t) \<Rightarrow> SendClaim c t
      | _ \<Rightarrow> (case (ro_update_claim_id r, ro_update_claimed_at r) of
          (Some c, Some t) \<Rightarrow> UpdateClaim c t
        | _ \<Rightarrow> (case (ro_pin_claim_id r, ro_pin_claimed_at r) of
            (Some c, Some t) \<Rightarrow> PinClaim c t | _ \<Rightarrow> NoClaim)))"

definition stored_sent :: "room_order_row \<Rightarrow> (string \<times> string \<times> int) option" where
  "stored_sent r =
     (case (ro_sent_message_id r, ro_sent_conversation_id r, ro_sent_at r) of
        (Some m, Some v, Some t) \<Rightarrow> Some (m, v, t) | _ \<Rightarrow> None)"

definition claim_state :: "room_order_row \<Rightarrow> claim_state" where
  "claim_state r = \<lparr>cs_claim = stored_claim r, cs_sent = stored_sent r, cs_pinned = ro_pinned_at r\<rparr>"

text \<open>The columns a row can have: those of one claim, of a sent message, of a pin, or none.\<close>

definition columns_ok :: "room_order_row \<Rightarrow> bool" where
  "columns_ok r \<longleftrightarrow>
     (ro_send_claim_id r = None \<longleftrightarrow> ro_send_claimed_at r = None) \<and>
     (ro_update_claim_id r = None \<longleftrightarrow> ro_update_claimed_at r = None) \<and>
     (ro_pin_claim_id r = None \<longleftrightarrow> ro_pin_claimed_at r = None) \<and>
     (ro_send_claim_id r = None \<or> ro_update_claim_id r = None \<and> ro_pin_claim_id r = None) \<and>
     (ro_update_claim_id r = None \<or> ro_pin_claim_id r = None) \<and>
     (ro_sent_message_id r = None \<longleftrightarrow> ro_sent_conversation_id r = None) \<and>
     (ro_sent_message_id r = None \<longleftrightarrow> ro_sent_at r = None) \<and>
     (ro_sent_message_id r = None \<or> ro_send_claim_id r = None) \<and>
     (ro_pinned_at r = None \<or>
        ro_send_claim_id r = None \<and> ro_update_claim_id r = None \<and> ro_pin_claim_id r = None)"

definition row_ok :: "room_order_row \<Rightarrow> bool" where
  "row_ok r \<longleftrightarrow> au_deleted_at (ro_audit r) = None \<and> columns_ok r"

lemmas row_ok_defs = row_ok_def columns_ok_def

lemmas claim_defs =
  is_active_timestamp_claim_def is_active_send_claim_def has_active_send_claim_def
  has_active_tentative_update_claim_def has_active_tentative_pin_claim_def
  has_stale_untracked_send_claim_def has_foreign_tentative_update_claim_def
  blocks_send_claim_def blocks_tentative_claim_def claim_stale_ms_def

lemmas claim_state_defs =
  claim_state_def stored_claim_def stored_sent_def live_claim_def is_send_claim_def release_if_def
  holds_send_def holds_update_def holds_pin_def may_claim_tentatively_def

lemma stored_claim_send [simp]:
  "ro_send_claim_id r = Some c \<Longrightarrow> ro_send_claimed_at r = Some t \<Longrightarrow> stored_claim r = SendClaim c t"
  by (simp add: stored_claim_def)

lemma stored_claim_update [simp]:
  "ro_send_claim_id r = None \<Longrightarrow> ro_update_claim_id r = Some c \<Longrightarrow> ro_update_claimed_at r = Some t \<Longrightarrow>
     stored_claim r = UpdateClaim c t"
  by (simp add: stored_claim_def)

lemma stored_claim_pin [simp]:
  "ro_send_claim_id r = None \<Longrightarrow> ro_update_claim_id r = None \<Longrightarrow> ro_pin_claim_id r = Some c \<Longrightarrow>
     ro_pin_claimed_at r = Some t \<Longrightarrow> stored_claim r = PinClaim c t"
  by (simp add: stored_claim_def)

lemma stored_claim_none [simp]:
  "ro_send_claim_id r = None \<Longrightarrow> ro_update_claim_id r = None \<Longrightarrow> ro_pin_claim_id r = None \<Longrightarrow>
     stored_claim r = NoClaim"
  by (simp add: stored_claim_def)

lemma row_ok_cases:
  assumes "row_ok r"
  obtains (idle) "ro_send_claim_id r = None" "ro_update_claim_id r = None" "ro_pin_claim_id r = None"
      "stored_claim r = NoClaim"
    | (sending) c t where "ro_send_claim_id r = Some c" "ro_send_claimed_at r = Some t"
      "ro_update_claim_id r = None" "ro_pin_claim_id r = None" "ro_sent_message_id r = None"
      "ro_pinned_at r = None" "stored_claim r = SendClaim c t"
    | (updating) c t where "ro_send_claim_id r = None" "ro_update_claim_id r = Some c"
      "ro_update_claimed_at r = Some t" "ro_pin_claim_id r = None" "ro_pinned_at r = None"
      "stored_claim r = UpdateClaim c t"
    | (pinning) c t where "ro_send_claim_id r = None" "ro_update_claim_id r = None"
      "ro_pin_claim_id r = Some c" "ro_pin_claimed_at r = Some t" "ro_pinned_at r = None"
      "stored_claim r = PinClaim c t"
proof (cases "ro_send_claim_id r")
  case (Some c)
  with assms obtain t where "ro_send_claimed_at r = Some t" by (auto simp: row_ok_defs)
  with Some assms sending show ?thesis by (simp add: row_ok_defs)
next
  case send: None
  show ?thesis
  proof (cases "ro_update_claim_id r")
    case (Some c)
    with assms obtain t where "ro_update_claimed_at r = Some t" by (auto simp: row_ok_defs)
    with send Some assms updating show ?thesis by (simp add: row_ok_defs)
  next
    case update: None
    show ?thesis
    proof (cases "ro_pin_claim_id r")
      case (Some c)
      with assms obtain t where "ro_pin_claimed_at r = Some t" by (auto simp: row_ok_defs)
      with send update Some assms pinning show ?thesis by (simp add: row_ok_defs)
    next
      case None
      with send update idle show ?thesis by simp
    qed
  qed
qed

lemma stored_sent_None: "row_ok r \<Longrightarrow> stored_sent r = None \<longleftrightarrow> ro_sent_message_id r = None"
  by (auto simp: row_ok_defs stored_sent_def split: option.splits)

lemma blocks_send_claim_iff:
  assumes "row_ok r"
  shows "blocks_send_claim r now \<longleftrightarrow>
    \<not> (cs_sent (claim_state r) = None \<and> cs_pinned (claim_state r) = None \<and>
       \<not> live_claim now (cs_claim (claim_state r)))"
  using assms stored_sent_None [OF assms] by (cases rule: row_ok_cases)
    (auto simp: claim_defs claim_state_def live_claim_def)

lemma blocks_tentative_claim_iff:
  assumes "row_ok r"
  shows "blocks_tentative_claim r now \<longleftrightarrow> \<not> may_claim_tentatively now (claim_state r)"
  using assms by (cases rule: row_ok_cases)
    (auto simp: claim_defs claim_state_def live_claim_def may_claim_tentatively_def is_send_claim_def)

lemma holds_claim_iff:
  assumes "row_ok r"
  shows "ro_send_claim_id r = Some c \<longleftrightarrow> holds_send c (cs_claim (claim_state r))"
    and "ro_update_claim_id r = Some c \<longleftrightarrow> holds_update c (cs_claim (claim_state r))"
    and "ro_pin_claim_id r = Some c \<longleftrightarrow> holds_pin c (cs_claim (claim_state r))"
    and "ro_pin_claim_id r = Some c \<Longrightarrow> ro_pinned_at r = None"
  using assms by (cases rule: row_ok_cases;
      simp add: claim_state_def holds_send_def holds_update_def holds_pin_def)+

lemma find_update_room_order [room_simps]:
  assumes "\<And>r. ro_key (f r) = ro_key r"
  shows "find_message_room_order k (update_room_order stamp k' f db) =
    (if k = k' then map_option (\<lambda>r. (f r)\<lparr>ro_audit := update_with_timestamp stamp (ro_audit r)\<rparr>)
       (find_message_room_order k db) else find_message_room_order k db)"
proof -
  have "ro_key r = k" if "lookup_by ro_key k (room_orders db) = Some r" for r
    using lookup_by_SomeD [OF that] by simp
  then show ?thesis
    using assms by (cases "lookup_by ro_key k (room_orders db)")
      (auto simp: find_message_room_order_def update_room_order_def lookup_by_update_where)
qed

lemma find_active [room_simps]:
  "find_message_room_order k db = Some r \<Longrightarrow> row_ok r \<Longrightarrow> find_active_message_room_order k db = Some r"
  by (simp add: find_active_message_room_order_def active_record_def row_ok_def)

subsection \<open>The mutators implement the state machine\<close>

text \<open>What a mutation may make of the row with a key, and what of a key without a row.\<close>

definition row_refines :: "int \<Rightarrow> room_mutation \<Rightarrow> message_key \<Rightarrow> room_order_db \<Rightarrow> room_order_db \<Rightarrow> bool" where
  "row_refines now m k db db' \<longleftrightarrow>
     (case find_message_room_order k db of
        None \<Rightarrow> (case find_message_room_order k db' of None \<Rightarrow> True
          | Some r' \<Rightarrow> row_ok r' \<and> claim_state r' = \<lparr>cs_claim = NoClaim, cs_sent = None, cs_pinned = None\<rparr>)
      | Some r \<Rightarrow> row_ok r \<longrightarrow> (case find_message_room_order k db' of None \<Rightarrow> False
          | Some r' \<Rightarrow> row_ok r' \<and> claim_state r' =
              (if mutation_key m = k then claim_step now m (claim_state r) else claim_state r)))"

lemma row_refines_unchanged:
  assumes "find_message_room_order k db' = find_message_room_order k db"
    and "\<And>r. find_message_room_order k db = Some r \<Longrightarrow> row_ok r \<Longrightarrow> mutation_key m = k \<Longrightarrow>
      claim_step now m (claim_state r) = claim_state r"
  shows "row_refines now m k db db'"
  using assms by (simp add: row_refines_def split: option.split)

lemma claim_state_cong:
  assumes "ro_send_claim_id r = ro_send_claim_id s" "ro_send_claimed_at r = ro_send_claimed_at s"
    and "ro_update_claim_id r = ro_update_claim_id s" "ro_update_claimed_at r = ro_update_claimed_at s"
    and "ro_pin_claim_id r = ro_pin_claim_id s" "ro_pin_claimed_at r = ro_pin_claimed_at s"
    and "ro_sent_message_id r = ro_sent_message_id s" "ro_sent_conversation_id r = ro_sent_conversation_id s"
    and "ro_sent_at r = ro_sent_at s" "ro_pinned_at r = ro_pinned_at s"
  shows "claim_state r = claim_state s"
  unfolding claim_state_def stored_claim_def stored_sent_def assms ..

lemma columns_ok_audit: "columns_ok (r\<lparr>ro_audit := a\<rparr>) = columns_ok r"
  by (simp add: columns_ok_def)

lemma row_refines_update:
  assumes "\<And>r. ro_key (f r) = ro_key r"
    and "\<And>r. find_message_room_order k db = Some r \<Longrightarrow> row_ok r \<Longrightarrow> mutation_key m = k \<Longrightarrow>
      row_ok (f r) \<and> claim_state (f r) = claim_step now m (claim_state r)"
  shows "row_refines now m k db (update_room_order stamp (mutation_key m) f db)"
proof -
  have "row_ok ((f r)\<lparr>ro_audit := update_with_timestamp stamp (ro_audit r)\<rparr>)"
    if "row_ok r" "row_ok (f r)" for r
    using that by (simp add: row_ok_def update_with_timestamp_def columns_ok_audit)
  moreover have "claim_state (x\<lparr>ro_audit := a\<rparr>) = claim_state x" for x a
    by (rule claim_state_cong) simp_all
  ultimately show ?thesis
    using assms by (auto simp: row_refines_def find_update_room_order split: option.split)
qed

lemma with_transaction_snd:
  "snd (with_transaction m s) = (case m s of (Inl e, s') \<Rightarrow> s | (Inr a, s') \<Rightarrow> s')"
  by (simp add: with_transaction_def split: prod.split sum.split)

text \<open>
  Every mutator that changes claims has this form: nothing happens when the message is missing or
  the guard blocks, else the row is updated.
\<close>

lemma row_refines_guarded:
  assumes "run = (case find_active_message_room_order (mutation_key m) db of
        None \<Rightarrow> (Inr (), db)
      | Some r \<Rightarrow> if blocked r then (Inr (), db)
          else if failing r then (Inl err, db)
          else (Inr (), update_room_order stamp (mutation_key m) (f r) db))"
    and "\<And>r x. ro_key (f r x) = ro_key x"
    and "\<And>r. row_ok r \<Longrightarrow> blocked r \<Longrightarrow> claim_step now m (claim_state r) = claim_state r"
    and "\<And>r. row_ok r \<Longrightarrow> \<not> blocked r \<Longrightarrow> failing r \<Longrightarrow> claim_step now m (claim_state r) = claim_state r"
    and "\<And>r. row_ok r \<Longrightarrow> \<not> blocked r \<Longrightarrow> row_ok (f r r) \<and> claim_state (f r r) = claim_step now m (claim_state r)"
  shows "row_refines now m k db (case run of (Inl e, s') \<Rightarrow> db | (Inr a, s') \<Rightarrow> s')"
proof (cases "find_message_room_order (mutation_key m) db")
  case None
  then have "find_active_message_room_order (mutation_key m) db = None"
    by (simp add: find_active_message_room_order_def active_record_def)
  with None assms(1) show ?thesis by (auto intro!: row_refines_unchanged)
next
  case (Some r)
  show ?thesis
  proof (cases "find_active_message_room_order (mutation_key m) db")
    case None
    with Some have "\<not> row_ok r" by (auto simp: find_active)
    with Some None assms(1) show ?thesis by (auto intro!: row_refines_unchanged)
  next
    case (Some r')
    with \<open>find_message_room_order (mutation_key m) db = Some r\<close> have [simp]: "r' = r"
      by (simp add: find_active_message_room_order_def active_record_def split: if_splits)
    consider "blocked r" | "\<not> blocked r" "failing r" | "\<not> blocked r" "\<not> failing r" by blast
    then show ?thesis
    proof cases
      case 3
      with Some assms(1) have "(case run of (Inl e, s') \<Rightarrow> db | (Inr a, s') \<Rightarrow> s') =
          update_room_order stamp (mutation_key m) (f r) db" by simp
      moreover have "row_refines now m k db (update_room_order stamp (mutation_key m) (f r) db)"
        using assms(2,5) 3 \<open>find_message_room_order (mutation_key m) db = Some r\<close>
        by (intro row_refines_update) auto
      ultimately show ?thesis by simp
    qed (use Some assms(1,3,4) \<open>find_message_room_order (mutation_key m) db = Some r\<close>
        in \<open>auto intro!: row_refines_unchanged\<close>)
  qed
qed

lemma claim_state_unchanged [simp]:
  "claim_state (r\<lparr>ro_rank := n\<rparr>) = claim_state r"
  "claim_state (r\<lparr>ro_tentative := b, ro_workspace_id := w, ro_conversation_id := v\<rparr>) = claim_state r"
  "columns_ok (r\<lparr>ro_rank := n\<rparr>) = columns_ok r"
  "columns_ok (r\<lparr>ro_tentative := b, ro_workspace_id := w, ro_conversation_id := v\<rparr>) = columns_ok r"
  by (rule claim_state_cong; simp)+ (simp_all add: columns_ok_def)

lemma rank_change_refines:
  assumes "m = DecrementRank k' e c \<or> m = IncrementRank k' e c"
  shows "row_refines now m k db (snd (with_transaction (room_mutator now stamp m) db))"
  unfolding with_transaction_snd using assms
  by (intro row_refines_guarded [where err = IntegerOutOfRange and stamp = stamp
        and failing = "\<lambda>r. \<not> int4 (ro_rank r + (if m = DecrementRank k' e c then -1 else 1))"
        and blocked = "\<lambda>r. blocks_rank_change r now e c"
        and f = "\<lambda>r x. x\<lparr>ro_rank := ro_rank r + (if m = DecrementRank k' e c then -1 else 1)\<rparr>"])
    (auto simp: decrement_message_room_order_rank_def increment_message_room_order_rank_def
      change_message_room_order_rank_def row_ok_def split: option.split)

lemma row_refines_guarded_update:
  assumes "room_mutator now stamp m db = (case find_active_message_room_order (mutation_key m) db of
        None \<Rightarrow> (Inr (), db)
      | Some r \<Rightarrow> if blocked r then (Inr (), db)
          else (Inr (), update_room_order stamp (mutation_key m) f db))"
    and "\<And>r. ro_key (f r) = ro_key r"
    and "\<And>r. row_ok r \<Longrightarrow> blocked r \<Longrightarrow> claim_step now m (claim_state r) = claim_state r"
    and "\<And>r. row_ok r \<Longrightarrow> \<not> blocked r \<Longrightarrow> row_ok (f r) \<and> claim_state (f r) = claim_step now m (claim_state r)"
  shows "row_refines now m k db (snd (with_transaction (room_mutator now stamp m) db))"
  unfolding with_transaction_snd using assms
  by (intro row_refines_guarded [where err = DuplicateKey and stamp = stamp and failing = "\<lambda>_. False"
        and blocked = blocked and f = "\<lambda>_. f"]) auto

text \<open>What the updates of the mutators do to the claim of a row.\<close>

lemma stored_sent_claims [simp]:
  "stored_sent (r\<lparr>ro_send_claim_id := a, ro_send_claimed_at := t\<rparr>) = stored_sent r"
  "stored_sent (r\<lparr>ro_update_claim_id := b, ro_update_claimed_at := u\<rparr>) = stored_sent r"
  "stored_sent (r\<lparr>ro_pin_claim_id := c, ro_pin_claimed_at := v\<rparr>) = stored_sent r"
  "stored_sent (r\<lparr>ro_send_claim_id := a, ro_send_claimed_at := t, ro_update_claim_id := b,
     ro_update_claimed_at := u, ro_pin_claim_id := c, ro_pin_claimed_at := v\<rparr>) = stored_sent r"
  "stored_sent (r\<lparr>ro_pin_claim_id := c, ro_pin_claimed_at := v, ro_pinned_at := w\<rparr>) = stored_sent r"
  by (simp_all add: stored_sent_def)

definition send_claimed :: "string \<Rightarrow> int \<Rightarrow> room_order_row \<Rightarrow> room_order_row" where
  "send_claimed c t r = r\<lparr>ro_send_claim_id := Some c, ro_send_claimed_at := Some t,
     ro_update_claim_id := None, ro_update_claimed_at := None,
     ro_pin_claim_id := None, ro_pin_claimed_at := None\<rparr>"

definition update_claimed :: "string \<Rightarrow> int \<Rightarrow> room_order_row \<Rightarrow> room_order_row" where
  "update_claimed c t r = r\<lparr>ro_send_claim_id := None, ro_send_claimed_at := None,
     ro_update_claim_id := Some c, ro_update_claimed_at := Some t,
     ro_pin_claim_id := None, ro_pin_claimed_at := None\<rparr>"

definition pin_claimed :: "string \<Rightarrow> int \<Rightarrow> room_order_row \<Rightarrow> room_order_row" where
  "pin_claimed c t r = r\<lparr>ro_send_claim_id := None, ro_send_claimed_at := None,
     ro_pin_claim_id := Some c, ro_pin_claimed_at := Some t,
     ro_update_claim_id := None, ro_update_claimed_at := None\<rparr>"

lemma claimed_state:
  "claim_state (send_claimed c t r) = (claim_state r)\<lparr>cs_claim := SendClaim c t\<rparr>"
  "claim_state (update_claimed c t r) = (claim_state r)\<lparr>cs_claim := UpdateClaim c t\<rparr>"
  "claim_state (pin_claimed c t r) = (claim_state r)\<lparr>cs_claim := PinClaim c t\<rparr>"
  by (simp_all add: claim_state_def stored_sent_def send_claimed_def update_claimed_def pin_claimed_def)

lemma claimed_row_ok:
  assumes "row_ok r" and "ro_pinned_at r = None"
  shows "ro_sent_message_id r = None \<Longrightarrow> row_ok (send_claimed c t r)"
    and "row_ok (update_claimed c t r)" and "row_ok (pin_claimed c t r)"
  using assms by (auto simp: row_ok_defs send_claimed_def update_claimed_def pin_claimed_def)

lemma claim_send_refines:
  "row_refines now (ClaimSend k' c) k db (snd (with_transaction (room_mutator now stamp (ClaimSend k' c)) db))"
proof (rule row_refines_guarded_update [where blocked = "\<lambda>r. blocks_send_claim r now" and f = "send_claimed c now"])
  show "row_ok (send_claimed c now r) \<and>
      claim_state (send_claimed c now r) = claim_step now (ClaimSend k' c) (claim_state r)"
    if "row_ok r" "\<not> blocks_send_claim r now" for r
    using that blocks_send_claim_iff [of r now]
    by (auto simp: claimed_state intro!: claimed_row_ok simp: blocks_send_claim_def)
qed (auto simp: claim_message_room_order_send_def blocks_send_claim_iff send_claimed_def [abs_def] cong: option.case_cong if_cong)

lemma claim_update_refines:
  "row_refines now (ClaimTentativeUpdate k' c) k db
     (snd (with_transaction (room_mutator now stamp (ClaimTentativeUpdate k' c)) db))"
proof (rule row_refines_guarded_update
    [where blocked = "\<lambda>r. blocks_tentative_claim r now" and f = "update_claimed c now"])
  show "row_ok (update_claimed c now r) \<and>
      claim_state (update_claimed c now r) = claim_step now (ClaimTentativeUpdate k' c) (claim_state r)"
    if "row_ok r" "\<not> blocks_tentative_claim r now" for r
    using that blocks_tentative_claim_iff [of r now]
    by (auto simp: claimed_state intro!: claimed_row_ok simp: blocks_tentative_claim_def)
qed (auto simp: claim_message_room_order_tentative_update_def blocks_tentative_claim_iff update_claimed_def [abs_def] cong: option.case_cong if_cong)

lemma claim_pin_refines:
  "row_refines now (ClaimTentativePin k' c) k db
     (snd (with_transaction (room_mutator now stamp (ClaimTentativePin k' c)) db))"
proof (rule row_refines_guarded_update
    [where blocked = "\<lambda>r. blocks_tentative_claim r now" and f = "pin_claimed c now"])
  show "row_ok (pin_claimed c now r) \<and>
      claim_state (pin_claimed c now r) = claim_step now (ClaimTentativePin k' c) (claim_state r)"
    if "row_ok r" "\<not> blocks_tentative_claim r now" for r
    using that blocks_tentative_claim_iff [of r now]
    by (auto simp: claimed_state intro!: claimed_row_ok simp: blocks_tentative_claim_def)
qed (auto simp: claim_message_room_order_tentative_pin_def blocks_tentative_claim_iff pin_claimed_def [abs_def] cong: option.case_cong if_cong)

text \<open>The completions and releases, for the holder of the claim.\<close>

lemma not_holding [simp]:
  "\<not> p (cs_claim s) \<Longrightarrow> release_if p s = s"
  "p (cs_claim s) \<Longrightarrow> release_if p s = s\<lparr>cs_claim := NoClaim\<rparr>"
  by (simp_all add: release_if_def)

lemma ended_state:
  assumes "row_ok r"
  shows "ro_send_claim_id r = Some c \<Longrightarrow> claim_state (r\<lparr>ro_send_claim_id := None, ro_send_claimed_at := None\<rparr>) =
      (claim_state r)\<lparr>cs_claim := NoClaim\<rparr>"
    and "ro_send_claim_id r = Some c \<Longrightarrow> claim_state (r\<lparr>ro_send_claim_id := None, ro_send_claimed_at := None,
        ro_sent_message_id := Some m, ro_sent_conversation_id := Some v, ro_sent_at := Some t\<rparr>) =
      (claim_state r)\<lparr>cs_claim := NoClaim, cs_sent := Some (m, v, t)\<rparr>"
    and "ro_update_claim_id r = Some c \<Longrightarrow>
      claim_state (r\<lparr>ro_update_claim_id := None, ro_update_claimed_at := None\<rparr>) = (claim_state r)\<lparr>cs_claim := NoClaim\<rparr>"
    and "ro_pin_claim_id r = Some c \<Longrightarrow>
      claim_state (r\<lparr>ro_pin_claim_id := None, ro_pin_claimed_at := None\<rparr>) = (claim_state r)\<lparr>cs_claim := NoClaim\<rparr>"
    and "ro_pin_claim_id r = Some c \<Longrightarrow>
      claim_state (r\<lparr>ro_pin_claim_id := None, ro_pin_claimed_at := None, ro_pinned_at := Some t\<rparr>) =
      (claim_state r)\<lparr>cs_claim := NoClaim, cs_pinned := Some t\<rparr>"
  using assms by (cases rule: row_ok_cases; simp add: claim_state_def stored_sent_def)+

lemma ended_row_ok:
  assumes "row_ok r"
  shows "row_ok (r\<lparr>ro_send_claim_id := None, ro_send_claimed_at := None\<rparr>)"
    and "ro_send_claim_id r = Some c \<Longrightarrow> row_ok (r\<lparr>ro_send_claim_id := None, ro_send_claimed_at := None,
        ro_sent_message_id := Some m, ro_sent_conversation_id := Some v, ro_sent_at := Some t\<rparr>)"
    and "row_ok (r\<lparr>ro_update_claim_id := None, ro_update_claimed_at := None\<rparr>)"
    and "row_ok (r\<lparr>ro_pin_claim_id := None, ro_pin_claimed_at := None\<rparr>)"
    and "ro_pin_claim_id r = Some c \<Longrightarrow>
      row_ok (r\<lparr>ro_pin_claim_id := None, ro_pin_claimed_at := None, ro_pinned_at := Some t\<rparr>)"
  using assms by (auto simp: row_ok_defs)

lemma pin_guard:
  assumes "row_ok r" and "ro_pinned_at r \<noteq> None \<or> ro_pin_claim_id r \<noteq> Some c"
  shows "\<not> holds_pin c (cs_claim (claim_state r))"
  using assms holds_claim_iff(3,4) [OF assms(1), of c] by auto

lemma end_refines:
  assumes "m = CompleteSend k' c x v t \<or> m = ReleaseSend k' c \<or> m = ReleaseTentativeUpdate k' c \<or>
    m = CompleteTentativePin k' c t \<or> m = ReleaseTentativePin k' c"
  shows "row_refines now m k db (snd (with_transaction (room_mutator now stamp m) db))"
  using assms
proof (elim disjE)
  assume m: "m = CompleteSend k' c x v t"
  show ?thesis unfolding m
    by (rule row_refines_guarded_update [where blocked = "\<lambda>r. ro_send_claim_id r \<noteq> Some c" and
          f = "\<lambda>r. r\<lparr>ro_send_claim_id := None, ro_send_claimed_at := None,
            ro_sent_message_id := Some x, ro_sent_conversation_id := Some v, ro_sent_at := Some t\<rparr>"])
      (auto simp: complete_message_room_order_send_def holds_claim_iff ended_state ended_row_ok
        cong: option.case_cong if_cong)
next
  assume m: "m = ReleaseSend k' c"
  show ?thesis unfolding m
    by (rule row_refines_guarded_update [where blocked = "\<lambda>r. ro_send_claim_id r \<noteq> Some c" and
          f = "\<lambda>r. r\<lparr>ro_send_claim_id := None, ro_send_claimed_at := None\<rparr>"])
      (auto simp: release_message_room_order_send_claim_def holds_claim_iff ended_state ended_row_ok
        cong: option.case_cong if_cong)
next
  assume m: "m = ReleaseTentativeUpdate k' c"
  show ?thesis unfolding m
    by (rule row_refines_guarded_update [where blocked = "\<lambda>r. ro_update_claim_id r \<noteq> Some c" and
          f = "\<lambda>r. r\<lparr>ro_update_claim_id := None, ro_update_claimed_at := None\<rparr>"])
      (auto simp: release_message_room_order_tentative_update_claim_def holds_claim_iff ended_state ended_row_ok
        cong: option.case_cong if_cong)
next
  assume m: "m = CompleteTentativePin k' c t"
  show ?thesis unfolding m
  proof (rule row_refines_guarded_update [where
          blocked = "\<lambda>r. ro_pinned_at r \<noteq> None \<or> ro_pin_claim_id r \<noteq> Some c" and
          f = "\<lambda>r. r\<lparr>ro_pin_claim_id := None, ro_pin_claimed_at := None, ro_pinned_at := Some t\<rparr>"])
    show "claim_step now (CompleteTentativePin k' c t) (claim_state r) = claim_state r"
      if "row_ok r" "ro_pinned_at r \<noteq> None \<or> ro_pin_claim_id r \<noteq> Some c" for r
      using pin_guard [OF that] by simp
  qed (auto simp: complete_message_room_order_tentative_pin_def holds_claim_iff ended_state ended_row_ok
        cong: option.case_cong if_cong)
next
  assume m: "m = ReleaseTentativePin k' c"
  show ?thesis unfolding m
  proof (rule row_refines_guarded_update [where
          blocked = "\<lambda>r. ro_pinned_at r \<noteq> None \<or> ro_pin_claim_id r \<noteq> Some c" and
          f = "\<lambda>r. r\<lparr>ro_pin_claim_id := None, ro_pin_claimed_at := None\<rparr>"])
    show "claim_step now (ReleaseTentativePin k' c) (claim_state r) = claim_state r"
      if "row_ok r" "ro_pinned_at r \<noteq> None \<or> ro_pin_claim_id r \<noteq> Some c" for r
      using pin_guard [OF that] by simp
  qed (auto simp: release_message_room_order_tentative_pin_claim_def holds_claim_iff ended_state ended_row_ok
        cong: option.case_cong if_cong)
qed

lemma mark_tentative_refines:
  "row_refines now (MarkTentative k' w v) k db
     (snd (with_transaction (room_mutator now stamp (MarkTentative k' w v)) db))"
  by (rule row_refines_guarded_update [where blocked = "\<lambda>r. blocks_tentative_claim r now \<or>
        blocks_send_claim r now \<or> ro_workspace_id r \<noteq> Some w \<or> ro_conversation_id r \<noteq> Some v" and
        f = "\<lambda>r. r\<lparr>ro_tentative := True, ro_workspace_id := Some w, ro_conversation_id := Some v\<rparr>"])
    (auto simp: mark_message_room_order_tentative_def row_ok_def cong: option.case_cong if_cong)

text \<open>Writes of the message and its entries keep the claims.\<close>

fun keeps_claims :: "room_mutation \<Rightarrow> bool" where
  "keeps_claims (UpsertRoomOrder k d) = True"
| "keeps_claims (PersistRoomOrder k d es) = True"
| "keeps_claims (BindRoomOrder k d es) = True"
| "keeps_claims (UpsertEntries k es) = True"
| "keeps_claims (RemoveEntry k r p) = True"
| "keeps_claims _ = False"

lemma keeps_claims_step [simp]: "keeps_claims m \<Longrightarrow> claim_step now m s = s"
  by (cases m) simp_all

lemma find_of_room_orders: "room_orders db' = room_orders db \<Longrightarrow> find_message_room_order k db' = find_message_room_order k db"
  by (simp add: find_message_room_order_def)

lemma new_row_ok [simp]: "row_ok (new_room_order_row stamp k d)"
    "claim_state (new_room_order_row stamp k d) = \<lparr>cs_claim = NoClaim, cs_sent = None, cs_pinned = None\<rparr>"
    "ro_key (new_room_order_row stamp k d) = k"
  by (simp_all add: new_room_order_row_def row_ok_defs claim_state_def stored_claim_def stored_sent_def
      upsert_with_timestamps_def)

lemma upserted_row_columns [simp]:
  "ro_send_claim_id (upserted_room_order_row stamp d r) = ro_send_claim_id r"
  "ro_send_claimed_at (upserted_room_order_row stamp d r) = ro_send_claimed_at r"
  "ro_update_claim_id (upserted_room_order_row stamp d r) = ro_update_claim_id r"
  "ro_update_claimed_at (upserted_room_order_row stamp d r) = ro_update_claimed_at r"
  "ro_pin_claim_id (upserted_room_order_row stamp d r) = ro_pin_claim_id r"
  "ro_pin_claimed_at (upserted_room_order_row stamp d r) = ro_pin_claimed_at r"
  "ro_sent_message_id (upserted_room_order_row stamp d r) = ro_sent_message_id r"
  "ro_sent_conversation_id (upserted_room_order_row stamp d r) = ro_sent_conversation_id r"
  "ro_sent_at (upserted_room_order_row stamp d r) = ro_sent_at r"
  "ro_pinned_at (upserted_room_order_row stamp d r) = ro_pinned_at r"
  "ro_key (upserted_room_order_row stamp d r) = ro_key r"
  "au_deleted_at (ro_audit (upserted_room_order_row stamp d r)) = None"
  by (simp_all add: upserted_room_order_row_def Let_def upsert_with_timestamps_def)

lemma upserted_row_ok [simp]:
  "claim_state (upserted_room_order_row stamp d r) = claim_state r"
  "row_ok r \<Longrightarrow> row_ok (upserted_room_order_row stamp d r)"
  by (rule claim_state_cong; simp) (auto simp: row_ok_defs)

lemma find_upserted [room_simps]:
  assumes "upsert_room_order_record stamp k' d db = (Inr u, db')"
  shows "find_message_room_order k db' = (if k = k' then
      Some (case find_message_room_order k db of None \<Rightarrow> new_room_order_row stamp k d
        | Some r \<Rightarrow> upserted_room_order_row stamp d r)
    else find_message_room_order k db)"
proof (cases "find_message_room_order k' db")
  case None
  then have "db' = db\<lparr>room_orders := room_orders db @ [new_room_order_row stamp k' d]\<rparr>"
    using assms by (simp add: upsert_room_order_record_def split: if_splits)
  then show ?thesis
    using None by (auto simp: find_message_room_order_def lookup_by_append split: option.split)
next
  case (Some r)
  then have "db' = db\<lparr>room_orders := update_where (\<lambda>x. ro_key x = k')
      (upserted_room_order_row stamp d) (room_orders db)\<rparr>"
    using assms by (simp add: upsert_room_order_record_def split: if_splits)
  then have "find_message_room_order k db' =
      map_option (\<lambda>x. if ro_key x = k' then upserted_room_order_row stamp d x else x)
        (find_message_room_order k db)"
    by (simp add: find_message_room_order_def lookup_by_update_where)
  moreover have "map_option ro_key (find_message_room_order k db) = map_option (\<lambda>_. k) (find_message_room_order k db)"
    using lookup_by_SomeD [of ro_key k "room_orders db"]
    by (cases "find_message_room_order k db") (simp_all add: find_message_room_order_def)
  ultimately show ?thesis
    using Some by (cases "k = k'"; cases "find_message_room_order k db") simp_all
qed

lemma upsert_record_refines:
  assumes "upsert_room_order_record stamp (mutation_key m) d db = (Inr u, db1)"
    and "room_orders db' = room_orders db1" and "keeps_claims m"
  shows "row_refines now m k db db'"
proof -
  note found = find_upserted [OF assms(1), of k, folded find_of_room_orders [OF assms(2), of k]]
  show ?thesis
  proof (cases "find_message_room_order k db")
    case None
    with found show ?thesis by (cases "k = mutation_key m") (simp_all add: row_refines_def)
  next
    case (Some r)
    with found assms(3) show ?thesis by (cases "k = mutation_key m") (simp_all add: row_refines_def)
  qed
qed

text \<open>The writes of entries leave the messages alone.\<close>

lemma txn_bind_keeps:
  assumes "f (snd (m s)) = f s" and "\<And>a s'. f (snd (g a s')) = f s'"
  shows "f (snd (txn_bind m g s)) = f s"
  using assms by (cases "m s"; cases "fst (m s)") (auto simp: txn_bind_def)

lemma upsert_entry_orders: "room_orders (snd (upsert_room_order_entry stamp k existing e db)) = room_orders db"
  by (simp add: upsert_room_order_entry_def Let_def split: option.split)

lemma upsert_entries_orders: "room_orders (snd (upsert_room_order_entries stamp k es existing db)) = room_orders db"
  by (induction es arbitrary: db) (simp_all add: txn_simps txn_bind_keeps upsert_entry_orders)

lemma insert_entry_orders: "room_orders (snd (insert_room_order_entry stamp k e db)) = room_orders db"
  by (simp add: insert_room_order_entry_def Let_def)

lemma insert_entries_orders: "room_orders (snd (insert_room_order_entries stamp k es db)) = room_orders db"
  by (induction es arbitrary: db) (simp_all add: txn_simps txn_bind_keeps insert_entry_orders)

lemma delete_unsupplied_orders:
  "room_orders (delete_unsupplied_entries stamp k supplied existing db) = room_orders db"
  unfolding delete_unsupplied_entries_def
  by (induction existing arbitrary: db) (simp_all add: soft_delete_entry_def)

lemma require_unique_simps [txn_simps]:
  "require_unique_entries es db = (if entries_unique es then (Inr (), db) else (Inl EntriesNotUnique, db))"
  by (simp add: require_unique_entries_def txn_return_def txn_fail_def)

lemma insert_record_as_upsert:
  "insert_room_order_record stamp k d db = (Inr u, db') \<Longrightarrow> upsert_room_order_record stamp k d db = (Inr u, db')"
  by (auto simp: insert_room_order_record_def upsert_room_order_record_def split: if_splits option.split)

lemma unchanged_orders_refine:
  "room_orders db' = room_orders db \<Longrightarrow> keeps_claims m \<Longrightarrow> row_refines now m k db db'"
  by (rule row_refines_unchanged, erule find_of_room_orders) simp

lemma persist_okD:
  assumes "persist_message_room_order stamp k d es db = (Inr u, db')"
  obtains db1 where "entries_unique es" "upsert_room_order_record stamp k d db = (Inr (), db1)"
    "upsert_room_order_entries stamp k es (find_message_room_order_entries k db)
       (delete_unsupplied_entries stamp k (map room_order_entry_key es) (find_message_room_order_entries k db) db1) =
     (Inr (), db')"
  using assms by (auto simp: persist_message_room_order_def Let_def txn_bind_ok txn_simps split: if_splits)

lemma write_refines:
  assumes "keeps_claims m"
  shows "row_refines now m k db (snd (with_transaction (room_mutator now stamp m) db))"
proof (cases "room_mutator now stamp m db")
  case (Pair res db')
  show ?thesis
  proof (cases res)
    case (Inl e)
    with Pair show ?thesis
      using assms by (simp add: with_transaction_snd unchanged_orders_refine)
  next
    case (Inr u)
    then have snd: "snd (with_transaction (room_mutator now stamp m) db) = db'"
      using Pair by (simp add: with_transaction_snd)
    have "row_refines now m k db db'"
      using assms
    proof (cases m rule: keeps_claims.cases)
      case (1 k' d)
      then show ?thesis using Pair Inr by (auto intro: upsert_record_refines)
    next
      case (2 k' d es)
      then obtain db1 where "upsert_room_order_record stamp k' d db = (Inr (), db1)"
        "room_orders db' = room_orders db1"
        using Pair Inr upsert_entries_orders delete_unsupplied_orders
        by (metis persist_okD room_mutator.simps(13) snd_conv)
      then show ?thesis using 2 by (auto intro: upsert_record_refines)
    next
      case (3 k' d es)
      then consider "db' = db" | db1 where "insert_room_order_record stamp k' d db = (Inr (), db1)"
        "insert_room_order_entries stamp k' es db1 = (Inr (), db')"
        using Pair Inr by (auto simp: bind_message_room_order_if_absent_def txn_bind_ok txn_simps split: if_splits)
      then show ?thesis
      proof cases
        case 1
        then show ?thesis using assms by (simp add: unchanged_orders_refine)
      next
        case 2
        then have "room_orders db' = room_orders db1"
          using insert_entries_orders by (metis snd_conv)
        then show ?thesis
          using 3 insert_record_as_upsert [OF 2(1)] by (auto intro: upsert_record_refines)
      qed
    next
      case (4 k' es)
      then have "room_orders db' = room_orders db"
        using Pair Inr upsert_entries_orders [of stamp k' es "find_message_room_order_entries k' db" db]
        by (simp add: upsert_message_room_order_entry_def txn_bind_def txn_simps split: if_splits)
      then show ?thesis using assms by (rule unchanged_orders_refine)
    next
      case (5 k' r p)
      then have "room_orders db' = room_orders db"
        using Pair by (auto simp: soft_delete_entry_def)
      then show ?thesis using assms by (rule unchanged_orders_refine)
    qed simp_all
    then show ?thesis unfolding snd .
  qed
qed

lemmas mutators_refine =
  rank_change_refines [OF disjI1 [OF refl]] rank_change_refines [OF disjI2 [OF refl]]
  claim_send_refines claim_update_refines claim_pin_refines mark_tentative_refines
  end_refines [OF disjI1 [OF refl]] end_refines [OF disjI2 [OF disjI1 [OF refl]]]
  end_refines [OF disjI2 [OF disjI2 [OF disjI1 [OF refl]]]]
  end_refines [OF disjI2 [OF disjI2 [OF disjI2 [OF disjI1 [OF refl]]]]]
  end_refines [OF disjI2 [OF disjI2 [OF disjI2 [OF disjI2 [OF refl]]]]]

lemma room_mutator_refines:
  "row_refines now m k db (run_room_mutation (now, stamp, m) db)"
  unfolding run_room_mutation_def prod.case
  by (cases m) (simp_all only: mutators_refine write_refines keeps_claims.simps simp_thms)

end
