(* ===== verification/RoomOrderGuarantees.thy ===== *)
theory RoomOrderGuarantees
  imports MessageRoomOrder
begin

text \<open>
  What holds of the room-order messages over any history of mutators: the shape of the stored
  claims, that a claim in force shuts out every other one, that a message is sent and pinned once,
  when its rank may move, and what a persist makes of the entries.
\<close>

subsection \<open>Histories\<close>

lemma run_room_mutations_simps [simp]:
  "run_room_mutations [] db = db"
  "run_room_mutations (ev # evs) db = run_room_mutations evs (run_room_mutation ev db)"
  "run_room_mutations (evs @ evs') db = run_room_mutations evs' (run_room_mutations evs db)"
  by (simp_all add: run_room_mutations_def)

definition rows_ok :: "room_order_db \<Rightarrow> bool" where
  "rows_ok db \<longleftrightarrow> (\<forall>k. pred_option row_ok (find_message_room_order k db))"

lemma rows_okD: "rows_ok db \<Longrightarrow> find_message_room_order k db = Some r \<Longrightarrow> row_ok r"
  by (auto simp: rows_ok_def dest: spec [of _ k])

lemma rows_ok_step:
  assumes "rows_ok db"
  shows "rows_ok (run_room_mutation ev db)"
  unfolding rows_ok_def
proof
  fix k
  obtain now stamp m where ev: "ev = (now, stamp, m)" by (cases ev)
  have "row_refines now m k db (run_room_mutation ev db)"
    unfolding ev by (rule room_mutator_refines)
  then show "pred_option row_ok (find_message_room_order k (run_room_mutation ev db))"
    using rows_okD [OF assms, of k]
    by (cases "find_message_room_order k db"; cases "find_message_room_order k (run_room_mutation ev db)")
      (auto simp: row_refines_def)
qed

lemma rows_ok_run: "rows_ok db \<Longrightarrow> rows_ok (run_room_mutations evs db)"
  by (induction evs arbitrary: db) (simp_all add: rows_ok_step)

lemma rows_ok_initial [simp]: "rows_ok no_room_orders"
  by (simp add: rows_ok_def no_room_orders_def find_message_room_order_def lookup_by_def)

lemma reachable_rows_ok [simp]: "rows_ok (run_room_mutations evs no_room_orders)"
  by (simp add: rows_ok_run)

lemma mutation_step:
  assumes "rows_ok db" and "find_message_room_order k db = Some r"
  obtains r' where "find_message_room_order k (run_room_mutation (now, stamp, m) db) = Some r'"
    and "row_ok r'"
    and "claim_state r' = (if mutation_key m = k then claim_step now m (claim_state r) else claim_state r)"
  using room_mutator_refines [of now m k db stamp] rows_okD [OF assms] assms(2)
  by (auto simp: row_refines_def split: option.splits)

text \<open>The columns of a stored message are consistent whatever mutators ran: a claim has both its
  id and its time or neither, at most one of the send, update and pin claims is present, a sent
  message keeps no send claim and has all its three columns, and a pinned message has no claim.\<close>

theorem room_claims_well_formed:
  assumes "find_message_room_order k (run_room_mutations evs no_room_orders) = Some r"
  shows "length (filter (\<lambda>c. c \<noteq> None) [ro_send_claim_id r, ro_update_claim_id r, ro_pin_claim_id r]) \<le> 1 \<and>
    (ro_send_claim_id r = None \<longleftrightarrow> ro_send_claimed_at r = None) \<and>
    (ro_update_claim_id r = None \<longleftrightarrow> ro_update_claimed_at r = None) \<and>
    (ro_pin_claim_id r = None \<longleftrightarrow> ro_pin_claimed_at r = None) \<and>
    (ro_sent_message_id r = None \<longleftrightarrow> ro_sent_conversation_id r = None) \<and>
    (ro_sent_message_id r = None \<longleftrightarrow> ro_sent_at r = None) \<and>
    (ro_sent_message_id r = None \<or> ro_send_claim_id r = None) \<and>
    (ro_pinned_at r = None \<or>
      ro_send_claim_id r = None \<and> ro_update_claim_id r = None \<and> ro_pin_claim_id r = None)"
proof -
  have ok: "row_ok r" using rows_okD [OF reachable_rows_ok assms] .
  moreover have "length (filter (\<lambda>c. c \<noteq> None) [ro_send_claim_id r, ro_update_claim_id r, ro_pin_claim_id r]) \<le> 1"
    using ok by (cases rule: row_ok_cases) simp_all
  ultimately show ?thesis unfolding row_ok_def columns_ok_def by satx
qed

text \<open>C14: The mutators implement the claim state machine: after any history, running a mutator on a
  stored message leaves it stored, and what its columns amount to is one \<open>claim_step\<close> further, or
  the same for every message with another key.\<close>

theorem room_mutators_implement_claims:
  assumes "db = run_room_mutations evs no_room_orders" and "find_message_room_order k db = Some r"
  shows "\<exists>r'. find_message_room_order k (run_room_mutation (now, stamp, m) db) = Some r' \<and>
    claim_state r' = (if mutation_key m = k then claim_step now m (claim_state r) else claim_state r)"
proof -
  have ok: "rows_ok db" using assms(1) by simp
  show ?thesis by (rule mutation_step [OF ok assms(2), of now stamp m]) blast
qed

subsection \<open>Claims in force\<close>

text \<open>Whether a mutation ends a claim: it is the completion or the release with the claim's id.\<close>

fun ends_claim :: "message_key \<Rightarrow> room_claim \<Rightarrow> room_mutation \<Rightarrow> bool" where
  "ends_claim k c (CompleteSend k' i m v t) = (k' = k \<and> holds_send i c)"
| "ends_claim k c (ReleaseSend k' i) = (k' = k \<and> holds_send i c)"
| "ends_claim k c (ReleaseTentativeUpdate k' i) = (k' = k \<and> holds_update i c)"
| "ends_claim k c (CompleteTentativePin k' i t) = (k' = k \<and> holds_pin i c)"
| "ends_claim k c (ReleaseTentativePin k' i) = (k' = k \<and> holds_pin i c)"
| "ends_claim k c _ = False"

lemma live_claim_step:
  assumes "live_claim now (cs_claim s)" and "\<not> ends_claim k (cs_claim s) m" and "mutation_key m = k"
  shows "claim_step now m s = s"
  using assms by (cases m) (auto simp: may_claim_tentatively_def)

definition leaves_claim :: "message_key \<Rightarrow> room_claim \<Rightarrow> int \<times> int \<times> room_mutation \<Rightarrow> bool" where
  "leaves_claim k c ev = (case ev of (now, stamp, m) \<Rightarrow> live_claim now c \<and> \<not> ends_claim k c m)"

lemma live_claim_history:
  assumes "rows_ok db" and "find_message_room_order k db = Some r"
    and "list_all (leaves_claim k (stored_claim r)) evs"
  shows "\<exists>r'. find_message_room_order k (run_room_mutations evs db) = Some r' \<and> claim_state r' = claim_state r"
  using assms
proof (induction evs arbitrary: db r)
  case (Cons ev evs)
  obtain now stamp m where ev: "ev = (now, stamp, m)" by (cases ev)
  obtain r' where r': "find_message_room_order k (run_room_mutation ev db) = Some r'"
    "claim_state r' = (if mutation_key m = k then claim_step now m (claim_state r) else claim_state r)"
    unfolding ev by (rule mutation_step [OF Cons.prems(1,2)])
  have "cs_claim (claim_state r) = stored_claim r" by (simp add: claim_state_def)
  then have same: "claim_state r' = claim_state r"
    using r'(2) Cons.prems(3) live_claim_step [of now "claim_state r" k m]
    by (auto simp: ev leaves_claim_def)
  then have "stored_claim r' = stored_claim r" by (simp add: claim_state_def)
  then show ?case
    using Cons.IH [OF rows_ok_step [OF Cons.prems(1)] r'(1)] Cons.prems(3) same by simp
qed auto

text \<open>C13: A claim shuts out the others: while the clocks of the workers stay within ten minutes of the
  instant it was taken, no history of mutators, other workers' claims, completions and releases
  included, takes a claim away from its holder, sends or pins the message, unless the mutators
  contain the completion or the release of that very claim.\<close>

theorem claim_in_force_is_exclusive:
  assumes "db = run_room_mutations evs no_room_orders" and "find_message_room_order k db = Some r"
    and "stored_claim r \<noteq> NoClaim"
    and "list_all (leaves_claim k (stored_claim r)) later"
  shows "\<exists>r'. find_message_room_order k (run_room_mutations later db) = Some r' \<and>
    stored_claim r' = stored_claim r \<and> stored_sent r' = stored_sent r \<and> ro_pinned_at r' = ro_pinned_at r"
proof -
  have "rows_ok db" using assms(1) by simp
  from live_claim_history [OF this assms(2,4)] show ?thesis
    by (auto simp: claim_state_def)
qed

subsection \<open>Sent and pinned once\<close>

lemma claim_step_keeps_sent:
  assumes "row_ok r" and "stored_sent r = Some x"
  shows "cs_sent (claim_step now m (claim_state r)) = Some x"
proof -
  have "\<not> holds_send c (cs_claim (claim_state r))" for c
    using assms(1)
  proof (cases rule: row_ok_cases)
    case (sending c' t)
    with assms show ?thesis by (simp add: stored_sent_def)
  qed (simp_all add: claim_state_def holds_send_def)
  then show ?thesis
    using assms(2) by (cases m) (simp_all add: claim_state_def release_if_def)
qed

lemma claim_step_keeps_pin:
  assumes "row_ok r" and "ro_pinned_at r = Some t"
  shows "claim_step now m (claim_state r) = claim_state r"
proof -
  have "stored_claim r = NoClaim"
    using assms by (cases rule: row_ok_cases) simp_all
  then show ?thesis
    using assms(2)
    by (cases m) (simp_all add: claim_state_def release_if_def holds_send_def holds_update_def
        holds_pin_def may_claim_tentatively_def)
qed

text \<open>C15: A message is sent and pinned once: what is recorded of the sent message, and the instant of
  the pin, is never changed by a later mutator; and a pinned message is never claimed again.\<close>

theorem sent_and_pinned_once:
  assumes "db = run_room_mutations evs no_room_orders" and "find_message_room_order k db = Some r"
  shows "\<exists>r'. find_message_room_order k (run_room_mutations later db) = Some r' \<and>
    (case stored_sent r of None \<Rightarrow> True | Some x \<Rightarrow> stored_sent r' = Some x) \<and>
    (case ro_pinned_at r of None \<Rightarrow> True
      | Some t \<Rightarrow> ro_pinned_at r' = Some t \<and> stored_claim r' = NoClaim \<and> stored_sent r' = stored_sent r)"
proof -
  have "rows_ok db" using assms(1) by simp
  then show ?thesis using assms(2)
  proof (induction later arbitrary: db r)
    case Nil
    have "ro_pinned_at r \<noteq> None \<Longrightarrow> stored_claim r = NoClaim"
      using rows_okD [OF Nil] by (cases rule: row_ok_cases) simp_all
    then show ?case using Nil(2) by (simp split: option.split)
  next
    case (Cons ev later)
    obtain now stamp m where ev: "ev = (now, stamp, m)" by (cases ev)
    obtain r' where r': "find_message_room_order k (run_room_mutation ev db) = Some r'"
      "claim_state r' = (if mutation_key m = k then claim_step now m (claim_state r) else claim_state r)"
      unfolding ev by (rule mutation_step [OF Cons.prems(1,2)])
    note ok = rows_okD [OF Cons.prems]
    have sent: "stored_sent r' = Some x" if "stored_sent r = Some x" for x
      using claim_step_keeps_sent [OF ok that, of now m] r'(2) that
      by (cases "mutation_key m = k") (auto simp: claim_state_def dest: arg_cong [of _ _ cs_sent])
    have pin: "claim_state r' = claim_state r" if "ro_pinned_at r = Some t" for t
      using claim_step_keeps_pin [OF ok that] r'(2) by simp
    from Cons.IH [OF rows_ok_step [OF Cons.prems(1)] r'(1)] show ?case
      using sent pin by (auto simp: claim_state_def split: option.splits)
  qed
qed

subsection \<open>Ranks\<close>

definition rank_at :: "message_key \<Rightarrow> room_order_db \<Rightarrow> int option" where
  "rank_at k db = map_option ro_rank (find_message_room_order k db)"

lemma rank_at_update:
  assumes "\<And>r. ro_key (f r) = ro_key r" and "\<And>r. ro_rank (f r) = ro_rank r"
  shows "rank_at k (update_room_order stamp k' f db) = rank_at k db"
  using assms by (cases "k = k'"; cases "find_message_room_order k db")
    (simp_all add: rank_at_def find_update_room_order)

lemma rank_at_of_orders: "room_orders db' = room_orders db \<Longrightarrow> rank_at k db' = rank_at k db"
  by (simp add: rank_at_def find_message_room_order_def)

fun sets_rank :: "room_mutation \<Rightarrow> bool" where
  "sets_rank (DecrementRank k e c) = True"
| "sets_rank (IncrementRank k e c) = True"
| "sets_rank (UpsertRoomOrder k d) = True"
| "sets_rank (PersistRoomOrder k d es) = True"
| "sets_rank (BindRoomOrder k d es) = True"
| "sets_rank _ = False"

lemmas guarded_mutator_defs =
  claim_message_room_order_send_def complete_message_room_order_send_def
  release_message_room_order_send_claim_def claim_message_room_order_tentative_update_def
  release_message_room_order_tentative_update_claim_def claim_message_room_order_tentative_pin_def
  complete_message_room_order_tentative_pin_def release_message_room_order_tentative_pin_claim_def
  mark_message_room_order_tentative_def

lemma rank_kept:
  assumes "\<not> sets_rank m"
  shows "rank_at k (run_room_mutation (now, stamp, m) db) = rank_at k db"
  unfolding run_room_mutation_def with_transaction_snd prod.case
proof (cases m rule: room_mutation.exhaust)
  case (UpsertEntries k' es)
  have "room_orders (snd (upsert_message_room_order_entry stamp k' es db)) = room_orders db"
    by (simp add: upsert_message_room_order_entry_def txn_bind_def txn_simps upsert_entries_orders)
  then show "rank_at k (case room_mutator now stamp m db of (Inl e, s') \<Rightarrow> db | (Inr a, s') \<Rightarrow> s') = rank_at k db"
    by (auto simp: UpsertEntries intro: rank_at_of_orders split: prod.splits sum.splits)
next
  case (RemoveEntry k' n p)
  have "rank_at k (soft_delete_entry stamp k' n p db) = rank_at k db"
    by (rule rank_at_of_orders) (simp add: soft_delete_entry_def)
  then show "rank_at k (case room_mutator now stamp m db of (Inl e, s') \<Rightarrow> db | (Inr a, s') \<Rightarrow> s') = rank_at k db"
    by (simp add: RemoveEntry)
qed (use assms in \<open>simp_all add: guarded_mutator_defs rank_at_update split: option.split\<close>)

lemma bind_keeps_rank:
  assumes "find_message_room_order k db = Some r"
  shows "rank_at k (run_room_mutation (now, stamp, BindRoomOrder k' d es) db) = rank_at k db"
proof (cases "bind_message_room_order_if_absent stamp k' d es db")
  case (Pair res db')
  show ?thesis
  proof (cases res)
    case (Inl e)
    with Pair show ?thesis by (simp add: run_room_mutation_def with_transaction_snd)
  next
    case (Inr u)
    with Pair consider "db' = db" | db1 where "find_message_room_order k' db = None"
        "insert_room_order_record stamp k' d db = (Inr (), db1)"
        "insert_room_order_entries stamp k' es db1 = (Inr (), db')"
      by (auto simp: bind_message_room_order_if_absent_def txn_bind_ok txn_simps split: if_splits)
    then have "rank_at k db' = rank_at k db"
    proof cases
      case (2 db1)
      then have "k \<noteq> k'" using assms by auto
      moreover have "room_orders db' = room_orders db1"
        using 2(3) insert_entries_orders [of stamp k' es db1] by simp
      ultimately show ?thesis
        using find_upserted [OF insert_record_as_upsert [OF 2(2)], of k] rank_at_of_orders [of db' db1 k]
        by (simp add: rank_at_def)
    qed simp
    then show ?thesis using Pair Inr by (simp add: run_room_mutation_def with_transaction_snd)
  qed
qed

text \<open>When the rank of a message moves: a mutator changes it only by an increment or decrement of
  this message, by one, with the rank it expects, with no claim in force but a tentative update the
  caller holds, on a message that is not pinned; or it is an upsert or persist of this message that
  brings the new rank.\<close>

theorem rank_moves_unblocked:
  assumes "db = run_room_mutations evs no_room_orders" and "find_message_room_order k db = Some r"
    and "rank_at k (run_room_mutation (now, stamp, m) db) = Some n" and "n \<noteq> ro_rank r"
  shows "mutation_key m = k \<and>
    (case m of
       IncrementRank k' e c \<Rightarrow> n = ro_rank r + 1 \<and> e \<in> {None, Some (ro_rank r)} \<and> ro_pinned_at r = None \<and>
         (live_claim now (stored_claim r) \<longrightarrow> (\<exists>i t. stored_claim r = UpdateClaim i t \<and> c = Some i))
     | DecrementRank k' e c \<Rightarrow> n = ro_rank r - 1 \<and> e \<in> {None, Some (ro_rank r)} \<and> ro_pinned_at r = None \<and>
         (live_claim now (stored_claim r) \<longrightarrow> (\<exists>i t. stored_claim r = UpdateClaim i t \<and> c = Some i))
     | UpsertRoomOrder k' d \<Rightarrow> n = rod_rank d
     | PersistRoomOrder k' d es \<Rightarrow> n = rod_rank d
     | _ \<Rightarrow> False)"
proof -
  have ok: "row_ok r" using rows_okD [OF _ assms(2)] assms(1) by simp
  have active: "find_active_message_room_order k db = Some r"
    using find_active [OF assms(2) ok] .
  have rank: "rank_at k db = Some (ro_rank r)" by (simp add: rank_at_def assms(2))
  have free: "e \<in> {None, Some (ro_rank r)} \<and> ro_pinned_at r = None \<and>
      (live_claim now (stored_claim r) \<longrightarrow> (\<exists>i t. stored_claim r = UpdateClaim i t \<and> c = Some i))"
    if "\<not> blocks_rank_change r now e c" for e c
    using ok that by (cases rule: row_ok_cases)
      (auto simp: blocks_rank_change_def has_expected_rank_mismatch_def claim_defs live_claim_def
        split: option.splits)
  have change: "k' = k \<and> n = ro_rank r + delta \<and> \<not> blocks_rank_change r now e c"
    if "rank_at k (snd (with_transaction (change_message_room_order_rank delta now stamp k' e c) db)) = Some n"
      for delta k' e c
  proof (cases "k' = k")
    case True
    with that assms(4) active rank show ?thesis
      by (auto simp: change_message_room_order_rank_def with_transaction_snd rank_at_def
          find_update_room_order assms(2) split: if_splits)
  next
    case False
    with that assms(4) rank show ?thesis
      by (auto simp: change_message_room_order_rank_def with_transaction_snd rank_at_def
          find_update_room_order assms(2) split: if_splits option.splits)
  qed
  have written: "k' = k \<and> n = rod_rank d"
    if "upsert_room_order_record stamp k' d db = (Inr (), db1)" "rank_at k db1 = Some n" for k' d db1
    using find_upserted [OF that(1), of k] that(2) assms(2,4)
    by (auto simp: rank_at_def new_room_order_row_def upserted_room_order_row_def Let_def split: if_splits)
  have "sets_rank m" using rank_kept [of m k now stamp db] assms(3,4) rank by auto
  then show ?thesis
  proof (cases m rule: sets_rank.cases)
    case (1 k' e c)
    then show ?thesis
      using change [of "- 1" k' e c] free [of e c] assms(3)
      by (simp add: run_room_mutation_def decrement_message_room_order_rank_def)
  next
    case (2 k' e c)
    then show ?thesis
      using change [of 1 k' e c] free [of e c] assms(3)
      by (simp add: run_room_mutation_def increment_message_room_order_rank_def)
  next
    case (3 k' d)
    then show ?thesis
      using written [of k' d] assms(3,4) rank
      by (auto simp: run_room_mutation_def with_transaction_snd split: prod.splits sum.splits)
  next
    case (4 k' d es)
    show ?thesis
    proof (cases "persist_message_room_order stamp k' d es db")
      case (Pair res db')
      show ?thesis
      proof (cases res)
        case (Inl e)
        with Pair 4 assms(3,4) rank show ?thesis
          by (simp add: run_room_mutation_def with_transaction_snd)
      next
        case (Inr u)
        with Pair obtain db1 where db1: "upsert_room_order_record stamp k' d db = (Inr (), db1)"
          "upsert_room_order_entries stamp k' es (find_message_room_order_entries k' db)
             (delete_unsupplied_entries stamp k' (map room_order_entry_key es)
               (find_message_room_order_entries k' db) db1) = (Inr (), db')"
          using persist_okD by metis
        then have "room_orders db' = room_orders db1"
          using upsert_entries_orders delete_unsupplied_orders by (metis snd_conv)
        then have "rank_at k db1 = Some n"
          using Pair Inr 4 assms(3) rank_at_of_orders [of db' db1 k]
          by (simp add: run_room_mutation_def with_transaction_snd)
        then show ?thesis using written [OF db1(1)] 4 by simp
      qed
    qed
  next
    case (5 k' d es)
    then show ?thesis using bind_keeps_rank [OF assms(2)] assms(3,4) rank by simp
  qed simp_all
qed

subsection \<open>Entries\<close>

lemma entry_key_inject:
  "room_order_entry_key e = room_order_entry_key e' \<longleftrightarrow> re_rank e = re_rank e' \<and> re_position e = re_position e'"
proof -
  have "CHR '':'' \<notin> set (int_text n)" for n
    using int_text_chars [of n] by auto
  then show ?thesis
    by (simp add: room_order_entry_key_def append_separator_eq_iff int_text_inject)
qed

lemma primary_key_iff:
  "entry_primary_key r = entry_primary_key r' \<longleftrightarrow>
     rer_key r = rer_key r' \<and> room_order_entry_key (rer_entry r) = room_order_entry_key (rer_entry r')"
  by (auto simp: entry_primary_key_def entry_key_inject)

definition entries_ok :: "room_order_db \<Rightarrow> bool" where
  "entries_ok db \<longleftrightarrow> unique_by entry_primary_key (room_order_entries db)"

lemma entries_ok_same: "room_order_entries db' = room_order_entries db \<Longrightarrow> entries_ok db' = entries_ok db"
  by (simp add: entries_ok_def)

lemma entries_ok_update_orders [simp]: "entries_ok (update_room_order stamp k f db) = entries_ok db"
  by (simp add: entries_ok_def update_room_order_def)

lemma entries_ok_soft_delete [simp]: "entries_ok (soft_delete_entry stamp k n p db) = entries_ok db"
  by (simp add: entries_ok_def soft_delete_entry_def unique_by_update_where entry_primary_key_def)

lemma entries_ok_delete_unsupplied [simp]:
  "entries_ok (delete_unsupplied_entries stamp k supplied existing db) = entries_ok db"
  unfolding delete_unsupplied_entries_def by (induction existing arbitrary: db) simp_all

text \<open>An upsert of an entry puts its row in the place of the row with the same primary key.\<close>

definition put_row :: "room_order_entry_row \<Rightarrow> room_order_entry_row list \<Rightarrow> room_order_entry_row list" where
  "put_row row rows =
     (case lookup_by entry_primary_key (entry_primary_key row) rows of
        None \<Rightarrow> rows @ [row]
      | Some r \<Rightarrow> update_where (\<lambda>x. entry_primary_key x = entry_primary_key row) (\<lambda>_. row) rows)"

definition written_entry ::
    "int \<Rightarrow> message_key \<Rightarrow> room_order_entry_row list \<Rightarrow> room_order_entry \<Rightarrow> room_order_entry_row" where
  "written_entry stamp k existing e =
     \<lparr>rer_key = k, rer_entry = e, rer_audit = upsert_with_timestamps stamp
        (map_option rer_audit (existing_by_key existing (room_order_entry_key e)))\<rparr>"

lemma upsert_entry_puts:
  "upsert_room_order_entry stamp k existing e db =
     (if entry_in_range e
      then (Inr (), db\<lparr>room_order_entries := put_row (written_entry stamp k existing e) (room_order_entries db)\<rparr>)
      else (Inl IntegerOutOfRange, db))"
  by (simp add: upsert_room_order_entry_def Let_def put_row_def written_entry_def split: option.split)

lemma put_row_unique: "unique_by entry_primary_key rows \<Longrightarrow> unique_by entry_primary_key (put_row row rows)"
proof (cases "lookup_by entry_primary_key (entry_primary_key row) rows")
  case (Some r)
  assume "unique_by entry_primary_key rows"
  then show ?thesis
    using Some by (simp add: put_row_def) (subst unique_by_update_where, simp_all)
next
  case None
  then have "\<forall>r \<in> set rows. entry_primary_key r \<noteq> entry_primary_key row" by (simp add: lookup_by_None)
  moreover assume "unique_by entry_primary_key rows"
  ultimately show ?thesis using None by (simp add: put_row_def unique_by_append)
qed

lemma set_put_row: "set (put_row row rows) = insert row {x \<in> set rows. entry_primary_key x \<noteq> entry_primary_key row}"
proof (cases "lookup_by entry_primary_key (entry_primary_key row) rows")
  case None
  then have "\<forall>r \<in> set rows. entry_primary_key r \<noteq> entry_primary_key row" by (simp add: lookup_by_None)
  with None show ?thesis by (auto simp: put_row_def)
next
  case (Some r)
  then have "r \<in> set rows" "entry_primary_key r = entry_primary_key row"
    using lookup_by_SomeD [OF Some] by simp_all
  then show ?thesis
    using Some by (auto simp: put_row_def set_update_where)
qed

lemma filter_update_where_out:
  "(\<And>r. p r \<Longrightarrow> \<not> q r \<and> \<not> q (f r)) \<Longrightarrow> filter q (update_where p f rows) = filter q rows"
  by (induction rows) (auto simp: update_where_def)

lemma filter_put_row:
  assumes "\<not> q row" and "\<And>x. entry_primary_key x = entry_primary_key row \<Longrightarrow> \<not> q x"
  shows "filter q (put_row row rows) = filter q rows"
proof (cases "lookup_by entry_primary_key (entry_primary_key row) rows")
  case (Some r)
  then show ?thesis using assms by (simp add: put_row_def filter_update_where_out)
qed (simp add: put_row_def assms(1))

lemma entries_ok_upsert_entry:
  "entries_ok db \<Longrightarrow> entries_ok (snd (upsert_room_order_entry stamp k existing e db))"
  by (simp add: upsert_entry_puts entries_ok_def put_row_unique)

lemma txn_bind_preserves:
  assumes "P (snd (m s))" and "\<And>a s'. P s' \<Longrightarrow> P (snd (g a s'))"
  shows "P (snd (txn_bind m g s))"
  using assms by (cases "m s"; cases "fst (m s)") (auto simp: txn_bind_def)

lemma entries_ok_upsert_entries:
  "entries_ok db \<Longrightarrow> entries_ok (snd (upsert_room_order_entries stamp k es existing db))"
  by (induction es arbitrary: db) (simp_all add: txn_simps txn_bind_preserves entries_ok_upsert_entry)

lemma entries_ok_insert_entries:
  "entries_ok db \<Longrightarrow> entries_ok (snd (insert_room_order_entries stamp k es db))"
proof (induction es arbitrary: db)
  case (Cons e es)
  have "entries_ok (snd (insert_room_order_entry stamp k e db))"
    using Cons.prems
    by (auto simp: insert_room_order_entry_def Let_def entries_ok_def unique_by_append lookup_by_None)
  then show ?case using Cons.IH by (simp add: txn_bind_preserves)
qed (simp add: txn_simps)

lemma entries_ok_upsert_record:
  "entries_ok (snd (upsert_room_order_record stamp k d db)) = entries_ok db"
  by (simp add: upsert_room_order_record_def entries_ok_def split: option.split)

lemma entries_ok_mutator:
  assumes "entries_ok db"
  shows "entries_ok (snd (room_mutator now stamp m db))"
proof (cases m)
  case (PersistRoomOrder k d es)
  then show ?thesis
    using assms by (simp add: persist_message_room_order_def Let_def txn_bind_preserves txn_simps
        entries_ok_upsert_record entries_ok_upsert_entries)
next
  case (BindRoomOrder k d es)
  have "entries_ok (snd (insert_room_order_record stamp k d s))" if "entries_ok s" for s
    using that by (simp add: insert_room_order_record_def entries_ok_def)
  with BindRoomOrder show ?thesis
    using assms by (simp add: bind_message_room_order_if_absent_def txn_bind_preserves txn_simps
        entries_ok_insert_entries)
next
  case (UpsertEntries k es)
  then show ?thesis
    using assms by (simp add: upsert_message_room_order_entry_def txn_bind_preserves txn_simps
        entries_ok_upsert_entries)
qed (use assms in \<open>simp_all add: guarded_mutator_defs decrement_message_room_order_rank_def
    increment_message_room_order_rank_def change_message_room_order_rank_def entries_ok_upsert_record
    split: option.split\<close>)

lemma entries_ok_run: "entries_ok db \<Longrightarrow> entries_ok (run_room_mutations evs db)"
proof (induction evs arbitrary: db)
  case (Cons ev evs)
  obtain now stamp m where ev: "ev = (now, stamp, m)" by (cases ev)
  have "entries_ok (run_room_mutation ev db)"
    using entries_ok_mutator [OF Cons.prems, of now stamp m] Cons.prems
    by (auto simp: ev run_room_mutation_def with_transaction_snd split: prod.splits sum.splits)
  then show ?case using Cons.IH by simp
qed simp

lemma reachable_entries_ok [simp]: "entries_ok (run_room_mutations evs no_room_orders)"
  by (rule entries_ok_run) (simp add: entries_ok_def no_room_orders_def)

text \<open>The active entries of a message through the two loops of a persist.\<close>

definition active_rows :: "message_key \<Rightarrow> room_order_db \<Rightarrow> room_order_entry_row set" where
  "active_rows k db = set (get_message_room_order_range k db)"

lemma in_active_rows:
  "r \<in> active_rows k db \<longleftrightarrow>
     r \<in> set (room_order_entries db) \<and> rer_key r = k \<and> au_deleted_at (rer_audit r) = None"
  by (auto simp: active_rows_def get_message_room_order_range_def)

lemma written_entry_simps [simp]:
  "rer_key (written_entry stamp k existing e) = k" "rer_entry (written_entry stamp k existing e) = e"
  "au_deleted_at (rer_audit (written_entry stamp k existing e)) = None"
  by (simp_all add: written_entry_def upsert_with_timestamps_def)

lemma active_after_put:
  "active_rows k (db\<lparr>room_order_entries := put_row (written_entry stamp k existing e) (room_order_entries db)\<rparr>) =
     insert (written_entry stamp k existing e)
       {r \<in> active_rows k db. room_order_entry_key (rer_entry r) \<noteq> room_order_entry_key e}"
  by (auto simp: in_active_rows set_put_row primary_key_iff)

lemma upsert_entries_active:
  assumes "upsert_room_order_entries stamp k es existing db = (Inr u, db')" and "entries_unique es"
  shows "active_rows k db' = written_entry stamp k existing ` set es \<union>
      {r \<in> active_rows k db. room_order_entry_key (rer_entry r) \<notin> room_order_entry_key ` set es}"
  using assms
proof (induction es arbitrary: db)
  case Nil
  then show ?case by (simp add: txn_simps)
next
  case (Cons e es)
  let ?db = "db\<lparr>room_order_entries := put_row (written_entry stamp k existing e) (room_order_entries db)\<rparr>"
  have "upsert_room_order_entries stamp k es existing ?db = (Inr u, db')" and "entries_unique es"
    and "room_order_entry_key e \<notin> room_order_entry_key ` set es"
    using Cons.prems by (auto simp: txn_bind_ok upsert_entry_puts entries_unique_def split: if_splits)
  then show ?case
    by (auto simp: Cons.IH [of ?db] active_after_put)
qed

lemma upsert_entries_others:
  "filter (\<lambda>r. rer_key r \<noteq> k) (room_order_entries (snd (upsert_room_order_entries stamp k es existing db))) =
     filter (\<lambda>r. rer_key r \<noteq> k) (room_order_entries db)"
proof (induction es arbitrary: db)
  case (Cons e es)
  have "filter (\<lambda>r. rer_key r \<noteq> k) (room_order_entries (snd (upsert_room_order_entry stamp k existing e db))) =
      filter (\<lambda>r. rer_key r \<noteq> k) (room_order_entries db)"
    by (auto simp: upsert_entry_puts primary_key_iff intro!: filter_put_row)
  with Cons.IH show ?case
    unfolding upsert_room_order_entries.simps
    by (intro txn_bind_keeps [where f = "\<lambda>s. filter (\<lambda>r. rer_key r \<noteq> k) (room_order_entries s)"])
qed (simp add: txn_simps)

definition deletes_row :: "message_key \<Rightarrow> string list \<Rightarrow> room_order_entry_row list \<Rightarrow> room_order_entry_row \<Rightarrow> bool" where
  "deletes_row k supplied existing r \<longleftrightarrow> rer_key r = k \<and>
     room_order_entry_key (rer_entry r) \<notin> set supplied \<and>
     (\<exists>x \<in> set existing. au_deleted_at (rer_audit x) = None \<and>
        room_order_entry_key (rer_entry x) = room_order_entry_key (rer_entry r))"

lemma soft_deleted_rows:
  "room_order_entries (soft_delete_entry stamp k (re_rank (rer_entry x)) (re_position (rer_entry x)) db) =
     update_where (\<lambda>r. rer_key r = k \<and> room_order_entry_key (rer_entry r) = room_order_entry_key (rer_entry x))
       (\<lambda>r. r\<lparr>rer_audit := soft_delete stamp (rer_audit r)\<rparr>) (room_order_entries db)"
  by (auto simp: soft_delete_entry_def update_where_def entry_primary_key_def entry_key_inject)

lemma delete_unsupplied_snoc:
  "delete_unsupplied_entries stamp k supplied (existing @ [x]) db =
     (let s = delete_unsupplied_entries stamp k supplied existing db in
      if au_deleted_at (rer_audit x) = None \<and> room_order_entry_key (rer_entry x) \<notin> set supplied
      then soft_delete_entry stamp k (re_rank (rer_entry x)) (re_position (rer_entry x)) s else s)"
  by (simp add: delete_unsupplied_entries_def Let_def)

lemma delete_unsupplied_rows:
  "room_order_entries (delete_unsupplied_entries stamp k supplied existing db) =
     update_where (deletes_row k supplied existing)
       (\<lambda>r. r\<lparr>rer_audit := soft_delete stamp (rer_audit r)\<rparr>) (room_order_entries db)"
proof (induction existing rule: rev_induct)
  case Nil
  then show ?case by (simp add: delete_unsupplied_entries_def deletes_row_def update_where_def)
next
  case (snoc x existing)
  have "soft_delete stamp (soft_delete stamp a) = soft_delete stamp a" for a
    by (simp add: soft_delete_def)
  then show ?case
    by (auto simp: delete_unsupplied_snoc Let_def soft_deleted_rows snoc.IH update_where_def deletes_row_def)
qed

lemma active_after_delete:
  assumes "room_order_entries db1 = room_order_entries db" and "existing = find_message_room_order_entries k db"
  shows "active_rows k (delete_unsupplied_entries stamp k supplied existing db1) =
    {r \<in> active_rows k db. room_order_entry_key (rer_entry r) \<in> set supplied}"
proof -
  have "deletes_row k supplied existing r \<longleftrightarrow> room_order_entry_key (rer_entry r) \<notin> set supplied"
    if "r \<in> active_rows k db" for r
    using that assms(2) by (auto simp: deletes_row_def in_active_rows find_message_room_order_entries_def)
  then show ?thesis
    by (auto simp: in_active_rows delete_unsupplied_rows assms(1) set_update_where soft_delete_def)
qed

lemma upsert_record_entries:
  "upsert_room_order_record stamp k d db = (Inr u, db') \<Longrightarrow> room_order_entries db' = room_order_entries db"
  by (auto simp: upsert_room_order_record_def split: if_splits option.splits)

lemma existing_by_key_active:
  assumes "entries_ok db" and "r \<in> active_rows k db"
  shows "existing_by_key (find_message_room_order_entries k db) (room_order_entry_key (rer_entry r)) = Some r"
proof -
  let ?rows = "rev (filter (\<lambda>r. au_deleted_at (rer_audit r) = None) (find_message_room_order_entries k db))"
  have "inj_on (\<lambda>r. room_order_entry_key (rer_entry r)) (set ?rows)"
    using assms(1) unique_byD [of entry_primary_key "room_order_entries db"]
    by (auto simp: inj_on_def find_message_room_order_entries_def entries_ok_def primary_key_iff)
  moreover have "distinct ?rows"
    using assms(1) by (simp add: entries_ok_def unique_by_def find_message_room_order_entries_def distinct_map)
  ultimately have "unique_by (\<lambda>r. room_order_entry_key (rer_entry r)) ?rows"
    by (simp add: unique_by_def distinct_map)
  then show ?thesis
    unfolding existing_by_key_def using assms(2)
    by (intro lookup_by_unique) (auto simp: in_active_rows find_message_room_order_entries_def)
qed

lemma distinct_range:
  assumes "entries_ok db"
  shows "distinct (get_message_room_order_range k db)"
  using assms by (simp add: entries_ok_def unique_by_def get_message_room_order_range_def distinct_map)

text \<open>What persisting a message does to its entries: the stored entries of the message become
  exactly the given ones, each once; an entry that was stored before keeps its creation time (to the
  millisecond); and the entries of the other messages stay as they are.\<close>

theorem persist_replaces_entries:
  assumes "db = run_room_mutations evs no_room_orders"
    and "persist_message_room_order stamp k d es db = (Inr u, db')"
  shows "rer_entry ` set (get_message_room_order_range k db') = set es \<and>
    length (get_message_room_order_range k db') = length es \<and>
    (\<forall>r \<in> set (get_message_room_order_range k db). \<forall>r' \<in> set (get_message_room_order_range k db').
       entry_primary_key r = entry_primary_key r' \<longrightarrow>
       au_created_at (rer_audit r') = of_int (math_trunc (au_created_at (rer_audit r)))) \<and>
    filter (\<lambda>r. rer_key r \<noteq> k) (room_order_entries db') = filter (\<lambda>r. rer_key r \<noteq> k) (room_order_entries db)"
proof -
  let ?existing = "find_message_room_order_entries k db" and ?w = "written_entry stamp k (find_message_room_order_entries k db)"
  have ok: "entries_ok db" using assms(1) by simp
  obtain db1 where unique: "entries_unique es"
    and db1: "upsert_room_order_record stamp k d db = (Inr (), db1)"
    and db': "upsert_room_order_entries stamp k es ?existing
       (delete_unsupplied_entries stamp k (map room_order_entry_key es) ?existing db1) = (Inr (), db')"
    using persist_okD [OF assms(2)] .
  note same = upsert_record_entries [OF db1]
  have rows: "set (get_message_room_order_range k db') = ?w ` set es"
    using upsert_entries_active [OF db' unique] active_after_delete [OF same refl, of k stamp "map room_order_entry_key es"]
    by (auto simp: active_rows_def [symmetric])
  have "entries_ok db'"
    using entries_ok_upsert_entries [of "delete_unsupplied_entries stamp k (map room_order_entry_key es) ?existing db1"
        stamp k es ?existing] ok entries_ok_same [OF same] db' by simp
  then have "length (get_message_room_order_range k db') = card (?w ` set es)"
    using rows distinct_card [OF distinct_range] by metis
  also have "\<dots> = length es"
  proof -
    have "inj_on ?w (set es)" by (auto intro!: inj_onI dest: arg_cong [of _ _ rer_entry])
    moreover have "distinct es" using unique by (simp add: entries_unique_def distinct_map)
    ultimately show ?thesis by (simp add: card_image distinct_card)
  qed
  finally have len: "length (get_message_room_order_range k db') = length es" .
  have created: "au_created_at (rer_audit r') = of_int (math_trunc (au_created_at (rer_audit r)))"
    if r: "r \<in> set (get_message_room_order_range k db)" and r': "r' \<in> set (get_message_room_order_range k db')"
      and pk: "entry_primary_key r = entry_primary_key r'" for r r'
  proof -
    obtain e where e: "r' = ?w e" using r' rows by auto
    then have "existing_by_key ?existing (room_order_entry_key e) = Some r"
      using existing_by_key_active [OF ok, of r k] r pk by (simp add: active_rows_def primary_key_iff)
    then show ?thesis by (simp add: e written_entry_def upsert_with_timestamps_def)
  qed
  have "filter (\<lambda>r. rer_key r \<noteq> k) (update_where (deletes_row k (map room_order_entry_key es) ?existing)
        (\<lambda>r. r\<lparr>rer_audit := soft_delete stamp (rer_audit r)\<rparr>) (room_order_entries db)) =
      filter (\<lambda>r. rer_key r \<noteq> k) (room_order_entries db)"
    by (rule filter_update_where_out) (simp add: deletes_row_def)
  then have "filter (\<lambda>r. rer_key r \<noteq> k) (room_order_entries db') =
      filter (\<lambda>r. rer_key r \<noteq> k) (room_order_entries db)"
    using upsert_entries_others [of k stamp es ?existing
        "delete_unsupplied_entries stamp k (map room_order_entry_key es) ?existing db1"] db' same
    by (simp add: delete_unsupplied_rows)
  with rows len created show ?thesis by (auto simp: image_image)
qed

subsection \<open>A concrete history\<close>

text \<open>
  A message with two entries is stored, its rank moved, and a worker claims the send; another worker
  tries to pin and to move the rank meanwhile; then the send is completed and the message pinned.
\<close>

definition sample_room_key :: message_key where
  "sample_room_key = \<lparr>mk_client_platform = ''discord'', mk_client_id = ''bot'', mk_message_id = ''m1''\<rparr>"

definition sample_room_data :: room_order_data where
  "sample_room_data = \<lparr>rod_previous_fills = [], rod_fills = [''a''], rod_hour = 12, rod_rank = 1,
     rod_tentative = None, rod_monitor = None, rod_workspace_id = Some ''w'', rod_conversation_id = Some ''c'',
     rod_created_by_user_id = None\<rparr>"

definition sample_entry :: "int \<Rightarrow> room_order_entry" where
  "sample_entry n = \<lparr>re_rank = 1, re_position = n, re_hour = 12, re_team = ''team'', re_tags = [], re_effect_value = 100\<rparr>"

definition sample_claim_events :: "(int \<times> int \<times> room_mutation) list" where
  "sample_claim_events =
     [(0, 0, PersistRoomOrder sample_room_key sample_room_data [sample_entry 1, sample_entry 2]),
      (1000, 1001, IncrementRank sample_room_key (Some 1) None),
      (2000, 2001, ClaimSend sample_room_key ''s'')]"

definition sample_intruders :: "(int \<times> int \<times> room_mutation) list" where
  "sample_intruders =
     [(3000, 3001, ClaimTentativePin sample_room_key ''p''),
      (4000, 4001, DecrementRank sample_room_key None None),
      (5000, 5001, ReleaseSend sample_room_key ''other'')]"

definition sample_pin_events :: "(int \<times> int \<times> room_mutation) list" where
  "sample_pin_events = sample_claim_events @
     [(6000, 6001, CompleteSend sample_room_key ''s'' ''m2'' ''c'' 6000),
      (7000, 7001, ClaimTentativePin sample_room_key ''p''),
      (8000, 8001, CompleteTentativePin sample_room_key ''p'' 8000)]"

definition sample_claimed_row :: room_order_row where
  "sample_claimed_row =
     the (find_message_room_order sample_room_key (run_room_mutations sample_claim_events no_room_orders))"

definition sample_pinned_row :: room_order_row where
  "sample_pinned_row =
     the (find_message_room_order sample_room_key (run_room_mutations sample_pin_events no_room_orders))"

lemma sample_rows:
  "find_message_room_order sample_room_key (run_room_mutations sample_claim_events no_room_orders) = Some sample_claimed_row"
  "find_message_room_order sample_room_key (run_room_mutations sample_pin_events no_room_orders) = Some sample_pinned_row"
proof -
  have "find_message_room_order sample_room_key (run_room_mutations sample_claim_events no_room_orders) \<noteq> None"
    "find_message_room_order sample_room_key (run_room_mutations sample_pin_events no_room_orders) \<noteq> None"
    by code_simp+
  then show "find_message_room_order sample_room_key (run_room_mutations sample_claim_events no_room_orders) = Some sample_claimed_row"
    "find_message_room_order sample_room_key (run_room_mutations sample_pin_events no_room_orders) = Some sample_pinned_row"
    by (auto simp: sample_claimed_row_def sample_pinned_row_def)
qed

lemma sample_claimed: "stored_claim sample_claimed_row = SendClaim ''s'' 2000" "ro_rank sample_claimed_row = 2"
    "ro_send_claim_id sample_claimed_row = Some ''s''"
  by code_simp+

lemma sample_pinned: "ro_pinned_at sample_pinned_row = Some 8000" "stored_sent sample_pinned_row = Some (''m2'', ''c'', 6000)"
  by code_simp+

theorem room_claims_well_formed_witness:
  "ro_update_claim_id sample_claimed_row = None \<and> ro_send_claimed_at sample_claimed_row \<noteq> None"
  using room_claims_well_formed [OF sample_rows(1)] sample_claimed(3)
  by (cases "ro_update_claim_id sample_claimed_row") auto

theorem room_mutators_implement_claims_witness:
  "\<exists>r'. find_message_room_order sample_room_key (run_room_mutation (9, 9, ReleaseSend sample_room_key ''s'')
       (run_room_mutations sample_claim_events no_room_orders)) = Some r' \<and> stored_claim r' = NoClaim"
proof -
  have "cs_claim (claim_state sample_claimed_row) = SendClaim ''s'' 2000"
    by (simp add: claim_state_def sample_claimed)
  then show ?thesis
    using room_mutators_implement_claims [OF refl sample_rows(1), of 9 9 "ReleaseSend sample_room_key ''s''"]
    by (auto simp: claim_state_def holds_send_def release_if_def)
qed

theorem claim_in_force_is_exclusive_witness:
  "\<exists>r'. find_message_room_order sample_room_key
       (run_room_mutations sample_intruders (run_room_mutations sample_claim_events no_room_orders)) = Some r' \<and>
     stored_claim r' = SendClaim ''s'' 2000"
proof -
  have "list_all (leaves_claim sample_room_key (SendClaim ''s'' 2000)) sample_intruders"
    by code_simp
  then show ?thesis
    using claim_in_force_is_exclusive [OF refl sample_rows(1), of sample_intruders]
    by (auto simp: sample_claimed)
qed

theorem sent_and_pinned_once_witness:
  "\<exists>r'. find_message_room_order sample_room_key (run_room_mutations sample_claim_events
       (run_room_mutations sample_pin_events no_room_orders)) = Some r' \<and>
     stored_sent r' = Some (''m2'', ''c'', 6000) \<and> ro_pinned_at r' = Some 8000"
  using sent_and_pinned_once [OF refl sample_rows(2), of sample_claim_events] by (auto simp: sample_pinned)

theorem rank_moves_unblocked_witness:
  "live_claim 700000 (stored_claim sample_claimed_row) = False"
proof -
  have "rank_at sample_room_key (run_room_mutation (700000, 700000, DecrementRank sample_room_key None None)
      (run_room_mutations sample_claim_events no_room_orders)) = Some 1"
    by code_simp
  then show ?thesis
    using rank_moves_unblocked [OF refl sample_rows(1), of 700000 700000 "DecrementRank sample_room_key None None" 1]
    by (auto simp: sample_claimed)
qed

theorem persist_replaces_entries_witness:
  "rer_entry ` set (get_message_room_order_range sample_room_key
     (snd (persist_message_room_order 9000 sample_room_key sample_room_data [sample_entry 2]
        (run_room_mutations sample_claim_events no_room_orders)))) = {sample_entry 2}"
proof -
  have "fst (persist_message_room_order 9000 sample_room_key sample_room_data [sample_entry 2]
      (run_room_mutations sample_claim_events no_room_orders)) = Inr ()"
    by code_simp
  then have "persist_message_room_order 9000 sample_room_key sample_room_data [sample_entry 2]
      (run_room_mutations sample_claim_events no_room_orders) =
      (Inr (), snd (persist_message_room_order 9000 sample_room_key sample_room_data [sample_entry 2]
        (run_room_mutations sample_claim_events no_room_orders)))"
    by (simp add: prod_eq_iff)
  from persist_replaces_entries [OF refl this] show ?thesis by simp
qed

end
