(* ===== verification/MessageCheckin.thy ===== *)
theory MessageCheckin
  imports MessageRoomOrder Json
begin

text \<open>
  The check-in messages of \<open>sheet-zero-api\<close> (\<open>src/api/messageCheckin.ts\<close>): the table of messages, the
  table of their members with the instant and the claim of each check-in, and the mutators. The
  timestamps and keys are those of the room-order messages. The writes of the members of one mutator
  are independent of each other unless an id is repeated; they are taken in the order of the list.
\<close>

subsection \<open>Rows\<close>

record checkin_data =
  cd_initial_message :: "json list"
  cd_hour :: int
  cd_running_conversation_id :: string
  cd_role_id :: "string option option"
  cd_workspace_id :: "string option"
  cd_conversation_id :: "string option"
  cd_created_by_user_id :: "string option"

record checkin_row =
  ci_key :: message_key
  ci_initial_message :: "json list"
  ci_hour :: int
  ci_running_conversation_id :: string
  ci_role_id :: "string option"
  ci_workspace_id :: "string option"
  ci_conversation_id :: "string option"
  ci_created_by_user_id :: "string option"
  ci_audit :: audit

record member_row =
  me_key :: message_key
  me_member_id :: string
  me_checkin_at :: "int option"
  me_checkin_claim_id :: "string option"
  me_audit :: audit

record checkin_db =
  checkins :: "checkin_row list"
  members :: "member_row list"

type_synonym checkin_txn = "(mutation_error, unit, checkin_db) txn"

definition member_key :: "member_row \<Rightarrow> message_key \<times> string" where
  "member_key m = (me_key m, me_member_id m)"

definition find_member :: "message_key \<Rightarrow> string \<Rightarrow> checkin_db \<Rightarrow> member_row option" where
  "find_member k i db = lookup_by member_key (k, i) (members db)"

definition find_active_member :: "message_key \<Rightarrow> string \<Rightarrow> checkin_db \<Rightarrow> member_row option" where
  "find_active_member k i db = active_record me_audit (find_member k i db)"

subsection \<open>Mutators\<close>

definition checkin_progress :: "member_row option \<Rightarrow> int option \<times> string option" where
  "checkin_progress m = (case m of None \<Rightarrow> (None, None) | Some r \<Rightarrow> (me_checkin_at r, me_checkin_claim_id r))"

definition checkin_row_of :: "int \<Rightarrow> message_key \<Rightarrow> checkin_data \<Rightarrow> checkin_row option \<Rightarrow> checkin_row" where
  "checkin_row_of stamp k d active =
     \<lparr>ci_key = k, ci_initial_message = cd_initial_message d, ci_hour = cd_hour d,
      ci_running_conversation_id = cd_running_conversation_id d,
      ci_role_id = preserve_omitted (cd_role_id d) (case active of None \<Rightarrow> None | Some r \<Rightarrow> ci_role_id r),
      ci_workspace_id = cd_workspace_id d, ci_conversation_id = cd_conversation_id d,
      ci_created_by_user_id = cd_created_by_user_id d,
      ci_audit = upsert_with_timestamps stamp (map_option ci_audit active)\<rparr>"

definition upsert_checkin_row :: "int \<Rightarrow> message_key \<Rightarrow> checkin_data \<Rightarrow> checkin_txn" where
  "upsert_checkin_row stamp k d db =
     (let existing = lookup_by ci_key k (checkins db);
          row = checkin_row_of stamp k d (active_record ci_audit existing) in
      if \<not> int4 (cd_hour d) then (Inl IntegerOutOfRange, db)
      else case existing of
        None \<Rightarrow> (Inr (), db\<lparr>checkins := checkins db @ [row]\<rparr>)
      | Some r \<Rightarrow> (Inr (), db\<lparr>checkins := update_where (\<lambda>x. ci_key x = k) (\<lambda>_. row) (checkins db)\<rparr>))"

definition member_row_of :: "int \<Rightarrow> message_key \<Rightarrow> string \<Rightarrow> member_row option \<Rightarrow> member_row" where
  "member_row_of stamp k i active =
     \<lparr>me_key = k, me_member_id = i, me_checkin_at = fst (checkin_progress active),
      me_checkin_claim_id = snd (checkin_progress active),
      me_audit = upsert_with_timestamps stamp (map_option me_audit active)\<rparr>"

definition upsert_checkin_member :: "int \<Rightarrow> message_key \<Rightarrow> checkin_db \<Rightarrow> string \<Rightarrow> checkin_db" where
  "upsert_checkin_member stamp k db i =
     (let row = member_row_of stamp k i (find_active_member k i db) in
      case find_member k i db of
        None \<Rightarrow> db\<lparr>members := members db @ [row]\<rparr>
      | Some r \<Rightarrow> db\<lparr>members := update_where (\<lambda>x. member_key x = (k, i)) (\<lambda>_. row) (members db)\<rparr>)"

definition upsert_checkin_members :: "int \<Rightarrow> message_key \<Rightarrow> string list \<Rightarrow> checkin_txn" where
  "upsert_checkin_members stamp k ids db = (Inr (), foldl (upsert_checkin_member stamp k) db ids)"

definition persist_message_checkin ::
    "int \<Rightarrow> message_key \<Rightarrow> checkin_data \<Rightarrow> string list \<Rightarrow> checkin_txn" where
  "persist_message_checkin stamp k d ids =
     txn_bind (upsert_checkin_row stamp k d) (\<lambda>_. upsert_checkin_members stamp k ids)"

definition update_member ::
    "int \<Rightarrow> message_key \<Rightarrow> string \<Rightarrow> (member_row \<Rightarrow> member_row) \<Rightarrow> checkin_db \<Rightarrow> checkin_db" where
  "update_member stamp k i f db =
     db\<lparr>members := update_where (\<lambda>r. member_key r = (k, i))
          (\<lambda>r. (f r)\<lparr>me_audit := update_with_timestamp stamp (me_audit (f r))\<rparr>) (members db)\<rparr>"

definition set_message_checkin_member_checkin_at ::
    "int \<Rightarrow> message_key \<Rightarrow> string \<Rightarrow> int \<Rightarrow> string option \<Rightarrow> checkin_txn" where
  "set_message_checkin_member_checkin_at stamp k i t claim db =
     (Inr (), update_member stamp k i (\<lambda>r. r\<lparr>me_checkin_at := Some t, me_checkin_claim_id := claim\<rparr>) db)"

definition set_message_checkin_member_checkin_at_if_unset ::
    "int \<Rightarrow> message_key \<Rightarrow> string \<Rightarrow> int \<Rightarrow> string \<Rightarrow> checkin_txn" where
  "set_message_checkin_member_checkin_at_if_unset stamp k i t claim db =
     (case find_active_member k i db of
        None \<Rightarrow> (Inr (), db)
      | Some r \<Rightarrow>
          if me_checkin_at r \<noteq> None then (Inr (), db)
          else (Inr (), update_member stamp k i
            (\<lambda>r. r\<lparr>me_checkin_at := Some t, me_checkin_claim_id := Some claim\<rparr>) db))"

definition soft_delete_member :: "int \<Rightarrow> message_key \<Rightarrow> string \<Rightarrow> checkin_db \<Rightarrow> checkin_db" where
  "soft_delete_member stamp k i db =
     db\<lparr>members := update_where (\<lambda>r. member_key r = (k, i))
          (\<lambda>r. r\<lparr>me_audit := soft_delete stamp (me_audit r)\<rparr>) (members db)\<rparr>"

definition remove_message_checkin_member :: "int \<Rightarrow> message_key \<Rightarrow> string \<Rightarrow> checkin_txn" where
  "remove_message_checkin_member stamp k i db = (Inr (), soft_delete_member stamp k i db)"

definition get_message_checkin_members :: "message_key \<Rightarrow> checkin_db \<Rightarrow> member_row list" where
  "get_message_checkin_members k db =
     filter (\<lambda>r. me_key r = k \<and> au_deleted_at (me_audit r) = None) (members db)"

definition get_message_checkin_data :: "message_key \<Rightarrow> checkin_db \<Rightarrow> checkin_row option" where
  "get_message_checkin_data k db = active_record ci_audit (lookup_by ci_key k (checkins db))"

definition remove_message_checkin :: "int \<Rightarrow> message_key \<Rightarrow> checkin_txn" where
  "remove_message_checkin stamp k db =
     (let active = get_message_checkin_members k db;
          db' = db\<lparr>checkins := update_where (\<lambda>r. ci_key r = k)
            (\<lambda>r. r\<lparr>ci_audit := soft_delete stamp (ci_audit r)\<rparr>) (checkins db)\<rparr> in
      (Inr (), foldl (\<lambda>s r. soft_delete_member stamp (me_key r) (me_member_id r) s) db' active))"

datatype checkin_mutation =
    UpsertCheckin message_key checkin_data
  | AddMembers message_key "string list"
  | PersistCheckin message_key checkin_data "string list"
  | SetCheckinAt message_key string int "string option"
  | SetCheckinAtIfUnset message_key string int string
  | RemoveMember message_key string
  | RemoveCheckin message_key

fun checkin_mutator :: "int \<Rightarrow> checkin_mutation \<Rightarrow> checkin_txn" where
  "checkin_mutator stamp (UpsertCheckin k d) = upsert_checkin_row stamp k d"
| "checkin_mutator stamp (AddMembers k ids) = upsert_checkin_members stamp k ids"
| "checkin_mutator stamp (PersistCheckin k d ids) = persist_message_checkin stamp k d ids"
| "checkin_mutator stamp (SetCheckinAt k i t c) = set_message_checkin_member_checkin_at stamp k i t c"
| "checkin_mutator stamp (SetCheckinAtIfUnset k i t c) =
     set_message_checkin_member_checkin_at_if_unset stamp k i t c"
| "checkin_mutator stamp (RemoveMember k i) = remove_message_checkin_member stamp k i"
| "checkin_mutator stamp (RemoveCheckin k) = remove_message_checkin stamp k"

definition run_checkin_mutation :: "int \<times> checkin_mutation \<Rightarrow> checkin_db \<Rightarrow> checkin_db" where
  "run_checkin_mutation ev db = (case ev of (stamp, m) \<Rightarrow> snd (with_transaction (checkin_mutator stamp m) db))"

definition run_checkin_mutations :: "(int \<times> checkin_mutation) list \<Rightarrow> checkin_db \<Rightarrow> checkin_db" where
  "run_checkin_mutations evs db = foldl (\<lambda>db ev. run_checkin_mutation ev db) db evs"

subsection \<open>The progress of a member\<close>

text \<open>
  What a message shows of a member: nothing when it has no such (active) member, else whether and
  by which claim it checked in. \<open>progress_step\<close> specifies what the mutators do to it; a persist
  whose hour is out of range is rolled back.
\<close>

definition progress :: "message_key \<Rightarrow> string \<Rightarrow> checkin_db \<Rightarrow> (int option \<times> string option) option" where
  "progress k i db = map_option (\<lambda>r. (me_checkin_at r, me_checkin_claim_id r)) (find_active_member k i db)"

definition joined :: "(int option \<times> string option) option \<Rightarrow> (int option \<times> string option) option" where
  "joined p = (case p of None \<Rightarrow> Some (None, None) | Some x \<Rightarrow> Some x)"

fun progress_step ::
    "message_key \<Rightarrow> string \<Rightarrow> checkin_mutation \<Rightarrow> (int option \<times> string option) option \<Rightarrow>
     (int option \<times> string option) option" where
  "progress_step k i (AddMembers k' ids) p = (if k' = k \<and> i \<in> set ids then joined p else p)"
| "progress_step k i (PersistCheckin k' d ids) p =
     (if k' = k \<and> i \<in> set ids \<and> int4 (cd_hour d) then joined p else p)"
| "progress_step k i (SetCheckinAt k' i' t c) p =
     (if k' = k \<and> i' = i then map_option (\<lambda>_. (Some t, c)) p else p)"
| "progress_step k i (SetCheckinAtIfUnset k' i' t c) p =
     (if k' = k \<and> i' = i
      then map_option (\<lambda>x. if fst x = None then (Some t, Some c) else x) p else p)"
| "progress_step k i (RemoveMember k' i') p = (if k' = k \<and> i' = i then None else p)"
| "progress_step k i (RemoveCheckin k') p = (if k' = k then None else p)"
| "progress_step k i (UpsertCheckin k' d) p = p"

lemma run_checkin_mutations_simps [simp]:
  "run_checkin_mutations [] db = db"
  "run_checkin_mutations (ev # evs) db = run_checkin_mutations evs (run_checkin_mutation ev db)"
  by (simp_all add: run_checkin_mutations_def)

lemma find_member_update_where:
  assumes "\<And>r. member_key r = (k', i') \<Longrightarrow> member_key (f r) = member_key r"
  shows "find_member k i (db\<lparr>members := update_where (\<lambda>r. member_key r = (k', i')) f (members db)\<rparr>) =
    (if k' = k \<and> i' = i then map_option f (find_member k i db) else find_member k i db)"
proof -
  have "map_option member_key (find_member k i db) = map_option (\<lambda>_. (k, i)) (find_member k i db)"
    using lookup_by_SomeD [of member_key "(k, i)" "members db"]
    by (cases "find_member k i db") (simp_all add: find_member_def)
  moreover have "find_member k i (db\<lparr>members := update_where (\<lambda>r. member_key r = (k', i')) f (members db)\<rparr>) =
      map_option (\<lambda>r. if member_key r = (k', i') then f r else r) (find_member k i db)"
    by (auto simp: find_member_def intro!: lookup_by_update_where assms)
  ultimately show ?thesis by (cases "find_member k i db") auto
qed

lemma progress_of_member:
  "progress k i db = (case find_member k i db of None \<Rightarrow> None
     | Some r \<Rightarrow> if au_deleted_at (me_audit r) = None then Some (me_checkin_at r, me_checkin_claim_id r) else None)"
  by (simp add: progress_def find_active_member_def active_record_def split: option.split)

lemma progress_same_members: "members db' = members db \<Longrightarrow> progress k i db' = progress k i db"
  by (simp add: progress_of_member find_member_def)

lemma find_member_put:
  "find_member k i (upsert_checkin_member stamp k' db i') =
     (if k' = k \<and> i' = i then Some (member_row_of stamp k i (find_active_member k i db)) else find_member k i db)"
proof (cases "find_member k' i' db")
  case None
  then show ?thesis
    by (auto simp: upsert_checkin_member_def Let_def find_member_def lookup_by_append member_key_def
        member_row_of_def split: option.split)
next
  case (Some r)
  have "member_key (member_row_of stamp k' i' a) = (k', i')" for a
    by (simp add: member_key_def member_row_of_def)
  then show ?thesis
    using Some by (auto simp: upsert_checkin_member_def Let_def find_member_update_where)
qed

lemma progress_put:
  "progress k i (upsert_checkin_member stamp k' db i') =
     (if k' = k \<and> i' = i then joined (progress k i db) else progress k i db)"
  by (simp add: progress_of_member find_member_put)
    (simp add: member_row_of_def upsert_with_timestamps_def checkin_progress_def find_active_member_def
      active_record_def joined_def split: option.split)

lemma joined_idem [simp]: "joined (joined p) = joined p"
  by (simp add: joined_def split: option.split)

lemma progress_put_all:
  "progress k i (foldl (upsert_checkin_member stamp k') db ids) =
     (if k' = k \<and> i \<in> set ids then joined (progress k i db) else progress k i db)"
  by (induction ids arbitrary: db) (auto simp: progress_put)

lemma progress_update_member:
  assumes "\<And>r. me_audit (f r) = me_audit r" and "\<And>r. member_key (f r) = member_key r"
  shows "progress k i (update_member stamp k' i' f db) =
    (if k' = k \<and> i' = i then map_option (\<lambda>_. (me_checkin_at (f (the (find_member k i db))),
        me_checkin_claim_id (f (the (find_member k i db))))) (progress k i db)
     else progress k i db)"
proof -
  have "member_key (f r\<lparr>me_audit := a\<rparr>) = member_key r" for r a
    using assms(2) [of r] by (simp add: member_key_def)
  then show ?thesis
    by (auto simp: update_member_def progress_of_member find_member_update_where assms(1)
        update_with_timestamp_def split: option.split)
qed

lemma find_member_soft_delete:
  "find_member k i (soft_delete_member stamp k' i' db) =
     (if k' = k \<and> i' = i then map_option (\<lambda>r. r\<lparr>me_audit := soft_delete stamp (me_audit r)\<rparr>) (find_member k i db)
      else find_member k i db)"
  unfolding soft_delete_member_def by (rule find_member_update_where) (simp add: member_key_def)

lemma progress_soft_delete:
  "progress k i (soft_delete_member stamp k' i' db) = (if k' = k \<and> i' = i then None else progress k i db)"
  by (simp add: progress_of_member find_member_soft_delete) (simp add: soft_delete_def split: option.split)

lemma progress_soft_delete_all:
  "progress k i (foldl (\<lambda>s r. soft_delete_member stamp (me_key r) (me_member_id r) s) db rs) =
     (if (k, i) \<in> member_key ` set rs then None else progress k i db)"
  by (induction rs arbitrary: db) (auto simp: progress_soft_delete member_key_def)

lemma progress_active_member:
  "progress k i db \<noteq> None \<Longrightarrow> (k, i) \<in> member_key ` set (get_message_checkin_members k db)"
  using lookup_by_SomeD [of member_key "(k, i)" "members db"]
  by (auto simp: progress_of_member find_member_def get_message_checkin_members_def member_key_def image_iff
      split: option.splits if_splits)

lemma progress_refines:
  "progress k i (run_checkin_mutation (stamp, m) db) = progress_step k i m (progress k i db)"
proof (cases m)
  case (UpsertCheckin k' d)
  have "members (snd (with_transaction (upsert_checkin_row stamp k' d) db)) = members db"
    by (simp add: with_transaction_snd upsert_checkin_row_def Let_def split: option.split)
  then show ?thesis
    using progress_same_members [of "snd (with_transaction (upsert_checkin_row stamp k' d) db)" db k i]
    by (simp add: UpsertCheckin run_checkin_mutation_def)
next
  case (PersistCheckin k' d ids)
  have m: "members (snd (upsert_checkin_row stamp k' d db)) = members db"
    and r: "fst (upsert_checkin_row stamp k' d db) = (if int4 (cd_hour d) then Inr () else Inl IntegerOutOfRange)"
    by (simp_all add: upsert_checkin_row_def Let_def split: option.split)
  obtain res db' where e: "upsert_checkin_row stamp k' d db = (res, db')" by fastforce
  have "progress k i db' = progress k i db" using m progress_same_members [of db' db k i] by (simp add: e)
  then show ?thesis
    using r by (auto simp: PersistCheckin run_checkin_mutation_def persist_message_checkin_def with_transaction_snd
        txn_bind_def e upsert_checkin_members_def progress_put_all)
next
  case (SetCheckinAtIfUnset k' i' t c)
  show ?thesis
  proof (cases "find_active_member k' i' db")
    case None
    then have "progress k' i' db = None" by (simp add: progress_def)
    then show ?thesis
      using None by (auto simp: SetCheckinAtIfUnset run_checkin_mutation_def with_transaction_snd
          set_message_checkin_member_checkin_at_if_unset_def)
  next
    case (Some r)
    then have "progress k' i' db = Some (me_checkin_at r, me_checkin_claim_id r)" by (simp add: progress_def)
    then show ?thesis
      using Some by (auto simp: SetCheckinAtIfUnset run_checkin_mutation_def with_transaction_snd
          set_message_checkin_member_checkin_at_if_unset_def progress_update_member member_key_def)
  qed
next
  case (RemoveCheckin k')
  let ?db = "db\<lparr>checkins := update_where (\<lambda>r. ci_key r = k')
      (\<lambda>r. r\<lparr>ci_audit := soft_delete stamp (ci_audit r)\<rparr>) (checkins db)\<rparr>"
  have "progress k i ?db = progress k i db" by (rule progress_same_members) simp
  moreover have "k' = k" if "(k, i) \<in> member_key ` set (get_message_checkin_members k' db)"
    using that by (auto simp: get_message_checkin_members_def member_key_def)
  ultimately show ?thesis
    using progress_active_member [of k i db]
    by (cases "progress k i db") (auto simp: RemoveCheckin run_checkin_mutation_def with_transaction_snd remove_message_checkin_def Let_def
        progress_soft_delete_all)
qed (simp_all add: run_checkin_mutation_def with_transaction_snd upsert_checkin_members_def progress_put_all
    set_message_checkin_member_checkin_at_def progress_update_member member_key_def
    remove_message_checkin_member_def progress_soft_delete)

text \<open>The mutators implement the progress of every member: over any tables, adding or persisting
  members makes them join with no check-in or leaves those that joined as they are, a check-in
  replaces the recorded one or is ignored when one is recorded, a removal takes the member out, and
  nothing touches the members of other messages or the other members.\<close>

theorem checkin_mutators_implement_progress:
  "progress k i (run_checkin_mutation (stamp, m) db) = progress_step k i m (progress k i db)"
  by (rule progress_refines)

subsection \<open>The first check-in wins\<close>

fun resets_checkin :: "message_key \<Rightarrow> string \<Rightarrow> checkin_mutation \<Rightarrow> bool" where
  "resets_checkin k i (SetCheckinAt k' i' t c) = (k' = k \<and> i' = i)"
| "resets_checkin k i (RemoveMember k' i') = (k' = k \<and> i' = i)"
| "resets_checkin k i (RemoveCheckin k') = (k' = k)"
| "resets_checkin k i _ = False"

lemma progress_step_keeps_checkin:
  "\<not> resets_checkin k i m \<Longrightarrow> progress_step k i m (Some (Some t, c)) = Some (Some t, c)"
  by (cases m) (auto simp: joined_def)

lemma progress_run:
  "progress k i (run_checkin_mutations evs db) = foldl (\<lambda>p ev. progress_step k i (snd ev) p) (progress k i db) evs"
proof (induction evs arbitrary: db)
  case (Cons ev evs)
  have "progress k i (run_checkin_mutation ev db) = progress_step k i (snd ev) (progress k i db)"
    by (cases ev) (simp add: progress_refines)
  with Cons show ?case by simp
qed simp

text \<open>The first check-in wins: once a member's check-in is recorded, its instant and its claim stay
  whatever is persisted, added or checked in conditionally afterwards, by how many workers ever,
  until the check-in is overwritten outright or the member or the message is removed.\<close>

theorem first_checkin_wins:
  assumes "progress k i db = Some (Some t, c)"
    and "list_all (\<lambda>ev. \<not> resets_checkin k i (snd ev)) evs"
  shows "progress k i (run_checkin_mutations evs db) = Some (Some t, c)"
  unfolding progress_run assms(1) using assms(2)
  by (induction evs) (simp_all add: progress_step_keeps_checkin)

definition sample_checkin_key :: message_key where
  "sample_checkin_key = \<lparr>mk_client_platform = ''discord'', mk_client_id = ''bot'', mk_message_id = ''m7''\<rparr>"

definition sample_checkin_db :: checkin_db where
  "sample_checkin_db = run_checkin_mutations
     [(0, AddMembers sample_checkin_key [''u1'', ''u2'']),
      (10, SetCheckinAtIfUnset sample_checkin_key ''u1'' 10 ''a'')] \<lparr>checkins = [], members = []\<rparr>"

theorem first_checkin_wins_witness:
  "progress sample_checkin_key ''u1'' (run_checkin_mutations
     [(20, SetCheckinAtIfUnset sample_checkin_key ''u1'' 20 ''b''), (30, AddMembers sample_checkin_key [''u1''])]
     sample_checkin_db) = Some (Some 10, Some ''a'')"
proof (rule first_checkin_wins)
  show "progress sample_checkin_key ''u1'' sample_checkin_db = Some (Some 10, Some ''a'')"
    unfolding sample_checkin_db_def progress_run
    by (simp add: sample_checkin_key_def progress_of_member find_member_def lookup_by_def joined_def)
qed simp

end
