(* ===== verification/CalculationRange.thy ===== *)
theory CalculationRange
  imports Prelude
begin

text \<open>
  The rectangle of a sheet the calculation projection is written to
  (\<open>sheet-workflows/src/workflows/shared/calculationRange.ts\<close>): column labels, the fixed projection
  range and the range of a result with a number of rooms.
\<close>

definition calculation_projection_start_row_index :: nat where "calculation_projection_start_row_index = 29"
definition calculation_projection_start_column_index :: nat where "calculation_projection_start_column_index = 49"
definition calculation_projection_width :: nat where "calculation_projection_width = 32"
definition maximum_calculation_sheet_row :: nat where "maximum_calculation_sheet_row = 10000000"

text \<open>\<open>label_digits\<close> is the loop, on the one-based value it counts down.\<close>

fun label_loop :: "nat \<Rightarrow> string \<Rightarrow> string" where
  "label_loop value label =
     (if value = 0 then label
      else label_loop ((value - 1) div 26) (char_of (65 + (value - 1) mod 26) # label))"

declare label_loop.simps [simp del]

definition column_label :: "nat \<Rightarrow> string" where
  "column_label zero_based_index = label_loop (zero_based_index + 1) []"

definition calculation_projection_start_column :: string where
  "calculation_projection_start_column = column_label calculation_projection_start_column_index"

definition calculation_projection_end_column :: string where
  "calculation_projection_end_column =
     column_label (calculation_projection_start_column_index + calculation_projection_width - 1)"

definition calculation_projection_start_row :: nat where
  "calculation_projection_start_row = calculation_projection_start_row_index + 1"

definition calculation_projection_result_start_row :: nat where
  "calculation_projection_result_start_row = calculation_projection_start_row + 1"

definition calculation_projection_range :: string where
  "calculation_projection_range = calculation_projection_start_column @
     nat_text calculation_projection_start_row @ '':'' @ calculation_projection_end_column"

definition maximum_calculation_room_count :: nat where
  "maximum_calculation_room_count = maximum_calculation_sheet_row - calculation_projection_start_row"

text \<open>\<open>None\<close> is the thrown \<open>RangeError\<close>.\<close>

definition calculation_result_range :: "nat \<Rightarrow> string option" where
  "calculation_result_range room_count =
     (if room_count > maximum_calculation_room_count then None
      else Some (calculation_projection_start_column @ nat_text calculation_projection_result_start_row @
        '':'' @ calculation_projection_end_column @
        nat_text (max calculation_projection_result_start_row
          (calculation_projection_result_start_row + room_count - 1))))"

subsection \<open>Column labels\<close>

text \<open>The reading of a label as a number in the bijective numeral system with the letters as digits.\<close>

definition label_value :: "string \<Rightarrow> nat" where
  "label_value label = foldl (\<lambda>v c. 26 * v + (of_char c - 64)) 0 label"

lemma label_value_Cons: "foldl (\<lambda>v c. 26 * v + (of_char c - 64)) a label = a * 26 ^ length label + label_value label"
proof (induction label arbitrary: a)
  case (Cons c label)
  show ?case
    using Cons.IH [of "26 * a + (of_char c - 64)"] Cons.IH [of "of_char c - 64"]
    by (simp add: label_value_def algebra_simps)
qed (simp add: label_value_def)

lemma label_value_loop: "label_value (label_loop n label) = n * 26 ^ length label + label_value label"
proof (induction n label rule: label_loop.induct)
  case (1 n label)
  show ?case
  proof (cases "n = 0")
    case True
    then show ?thesis by (subst label_loop.simps) simp
  next
    case False
    let ?d = "(n - 1) mod 26" and ?q = "(n - 1) div 26"
    have "of_char (char_of (65 + ?d) :: char) = 65 + ?d"
      by (simp add: of_char_of)
    then have "label_value (char_of (65 + ?d) # label) = (1 + ?d) * 26 ^ length label + label_value label"
      using label_value_Cons [of "1 + ?d" label] by (simp add: label_value_def)
    then have step: "label_value (label_loop n label) =
        ?q * 26 ^ Suc (length label) + ((1 + ?d) * 26 ^ length label + label_value label)"
      using 1 [OF False] False by (subst label_loop.simps) simp
    have "?q * 26 + (1 + ?d) = n"
      using False div_mult_mod_eq [of "n - 1" 26] by simp
    then have "n * 26 ^ length label = (?q * 26 + (1 + ?d)) * 26 ^ length label" by simp
    then show ?thesis unfolding step by (simp only: power_Suc distrib_right mult.assoc add.assoc)
  qed
qed

lemma column_label_value: "label_value (column_label n) = n + 1"
  by (simp add: column_label_def label_value_loop) (simp add: label_value_def)

lemma column_label_inject: "column_label m = column_label n \<longleftrightarrow> m = n"
  by (metis add_right_cancel column_label_value)

subsection \<open>Sheet references\<close>

text \<open>
  The regular expression accepts a quoted title (two quotes stand for one) or one without quotes
  and exclamation marks, before an exclamation mark and the range in any case of letters.
\<close>

definition quote_char :: char where "quote_char = CHR 0x27"

definition ascii_upper :: "char \<Rightarrow> char" where
  "ascii_upper c = (if of_char c \<ge> (97 :: nat) \<and> of_char c \<le> (122 :: nat) then char_of (of_char c - 32 :: nat) else c)"

fun unescape_quotes :: "string \<Rightarrow> string option" where
  "unescape_quotes [] = Some []"
| "unescape_quotes (c # s) =
     (if c \<noteq> quote_char then map_option ((#) c) (unescape_quotes s)
      else case s of
        [] \<Rightarrow> None
      | c' # s' \<Rightarrow> if c' = quote_char then map_option ((#) quote_char) (unescape_quotes s') else None)"

definition escape_quotes :: "string \<Rightarrow> string" where
  "escape_quotes s = concat (map (\<lambda>c. if c = quote_char then [quote_char, quote_char] else [c]) s)"

definition is_letter_or_underscore :: "char \<Rightarrow> bool" where
  "is_letter_or_underscore c \<longleftrightarrow>
     (let n = of_char c :: nat in 65 \<le> n \<and> n \<le> 90 \<or> 97 \<le> n \<and> n \<le> 122 \<or> n = 95)"

definition is_digit :: "char \<Rightarrow> bool" where
  "is_digit c \<longleftrightarrow> (let n = of_char c :: nat in 48 \<le> n \<and> n \<le> 57)"

definition unquoted_sheet_title :: "string \<Rightarrow> bool" where
  "unquoted_sheet_title t =
     (case t of [] \<Rightarrow> False
      | c # s \<Rightarrow> is_letter_or_underscore c \<and> list_all (\<lambda>x. is_letter_or_underscore x \<or> is_digit x) s)"

definition calculation_sheet_title :: "string \<Rightarrow> bool" where
  "calculation_sheet_title t \<longleftrightarrow>
     t \<noteq> [] \<and> list_all (\<lambda>c. let n = of_char c :: nat in \<not> (n \<le> 31 \<or> 127 \<le> n \<and> n \<le> 159)) t"

definition quote_sheet_title :: "string \<Rightarrow> string" where
  "quote_sheet_title t =
     (if unquoted_sheet_title t then t else quote_char # escape_quotes t @ [quote_char])"

text \<open>The title a reference names, from what stands before the exclamation mark.\<close>

definition matched_title :: "string \<Rightarrow> string option" where
  "matched_title body =
     (if body = [] then None
      else if hd body = quote_char
      then if length body \<ge> 3 \<and> last body = quote_char then unescape_quotes (butlast (tl body)) else None
      else if list_all (\<lambda>c. c \<noteq> CHR ''!'' \<and> c \<noteq> quote_char) body then Some body else None)"

definition projection_match :: "string \<Rightarrow> string option" where
  "projection_match s =
     (let suffix = CHR ''!'' # calculation_projection_range;
          n = length s - length suffix in
      if length s \<ge> length suffix \<and> map ascii_upper (drop n s) = suffix then matched_title (take n s) else None)"

definition canonical_sheet_ref :: "string \<Rightarrow> string" where
  "canonical_sheet_ref t = quote_sheet_title t @ CHR ''!'' # calculation_projection_range"

definition canonical_calculation_sheet_ref :: "string \<Rightarrow> (string \<times> string) option" where
  "canonical_calculation_sheet_ref raw =
     (case projection_match (js_trim raw) of
        None \<Rightarrow> None
      | Some title \<Rightarrow> if calculation_sheet_title title then Some (title, canonical_sheet_ref title) else None)"

lemma projection_range_value: "calculation_projection_range = ''AX30:CC''"
  by code_simp

lemma unescape_escape: "unescape_quotes (escape_quotes t) = Some t"
  by (induction t) (auto simp: escape_quotes_def)

lemma js_trim_id:
  assumes "s \<noteq> []" and "\<not> is_js_space (hd s)" and "\<not> is_js_space (last s)"
  shows "js_trim s = s"
proof -
  have "dropWhile is_js_space s = s" using assms(1,2) by (cases s) simp_all
  moreover have "dropWhile is_js_space (rev s) = rev s"
    using assms(1,3) by (cases s rule: rev_cases) simp_all
  ultimately show ?thesis by (simp add: js_trim_def)
qed

lemma unquoted_title_chars:
  assumes "unquoted_sheet_title t" and "c \<in> set t"
  shows "c \<noteq> quote_char \<and> c \<noteq> CHR ''!'' \<and> \<not> is_js_space c"
proof -
  have "is_letter_or_underscore c \<or> is_digit c"
    using assms by (auto simp: unquoted_sheet_title_def list_all_iff split: list.splits)
  then show ?thesis
    by (auto simp: is_letter_or_underscore_def is_digit_def Let_def is_js_space_def quote_char_def)
qed

lemma matched_quote:
  assumes "t \<noteq> []"
  shows "matched_title (quote_sheet_title t) = Some t"
proof (cases "unquoted_sheet_title t")
  case True
  then have "hd t \<noteq> quote_char" and "list_all (\<lambda>c. c \<noteq> CHR ''!'' \<and> c \<noteq> quote_char) t"
    using unquoted_title_chars [OF True] assms by (auto simp: list_all_iff)
  then show ?thesis using True assms by (simp add: matched_title_def quote_sheet_title_def)
next
  case False
  have "escape_quotes t \<noteq> []" using assms by (cases t) (auto simp: escape_quotes_def)
  then have "length (escape_quotes t) \<ge> 1" by (cases "escape_quotes t") simp_all
  then show ?thesis using False by (simp add: matched_title_def quote_sheet_title_def unescape_escape)
qed

lemma canonical_ref_trimmed:
  assumes "t \<noteq> []"
  shows "js_trim (canonical_sheet_ref t) = canonical_sheet_ref t"
proof (rule js_trim_id)
  have "hd (quote_sheet_title t) = quote_char \<or> hd (quote_sheet_title t) \<in> set t \<and> unquoted_sheet_title t"
    using assms by (simp add: quote_sheet_title_def)
  moreover have "quote_sheet_title t \<noteq> []" using assms by (simp add: quote_sheet_title_def)
  moreover have "\<not> is_js_space quote_char" by (simp add: is_js_space_def quote_char_def)
  ultimately show "\<not> is_js_space (hd (canonical_sheet_ref t))"
    using unquoted_title_chars [of t] by (auto simp: canonical_sheet_ref_def)
  show "\<not> is_js_space (last (canonical_sheet_ref t))"
    by (simp add: canonical_sheet_ref_def projection_range_value is_js_space_def)
qed (simp add: canonical_sheet_ref_def)

lemma projection_match_canonical:
  assumes "t \<noteq> []"
  shows "projection_match (canonical_sheet_ref t) = Some t"
proof -
  have "map ascii_upper (CHR ''!'' # calculation_projection_range) = CHR ''!'' # calculation_projection_range"
    by code_simp
  then show ?thesis
    using matched_quote [OF assms] by (simp add: projection_match_def canonical_sheet_ref_def Let_def)
qed

text \<open>Sheet references have one canonical form: the reference a text is canonicalised to names the
  same sheet and is its own canonical form, and it is the same for two texts exactly when they name
  the same sheet. The range it ends with is the rectangle the projection is written to.\<close>

theorem canonical_ref_round_trip:
  assumes "canonical_calculation_sheet_ref raw = Some (title, ref)"
    and "canonical_calculation_sheet_ref raw' = Some (title', ref')"
  shows "canonical_calculation_sheet_ref ref = Some (title, ref) \<and>
    (ref = ref' \<longleftrightarrow> title = title') \<and> (\<exists>quoted. ref = quoted @ ''!AX30:CC'')"
proof -
  have decoded: "calculation_sheet_title t \<and> t \<noteq> [] \<and> r = canonical_sheet_ref t"
    if "canonical_calculation_sheet_ref s = Some (t, r)" for s t r
    using that by (auto simp: canonical_calculation_sheet_ref_def calculation_sheet_title_def
        split: option.splits if_splits)
  note one = decoded [OF assms(1)] and two = decoded [OF assms(2)]
  have "title = title'" if "ref = ref'"
    using that one two projection_match_canonical by (metis option.inject)
  moreover have "canonical_calculation_sheet_ref ref = Some (title, ref)"
    using one by (simp add: canonical_calculation_sheet_ref_def canonical_ref_trimmed projection_match_canonical)
  moreover have "ref = quote_sheet_title title @ ''!AX30:CC''"
    using one by (simp add: canonical_sheet_ref_def projection_range_value)
  ultimately show ?thesis using one two by blast
qed

text \<open>A reference with a quote in the title, in mixed case and with blanks around it.\<close>

definition sample_sheet_ref :: string where
  "sample_sheet_ref = '' '' @ quote_char # ''it'' @ quote_char # quote_char # ''s'' @ quote_char # ''!ax30:Cc ''"

theorem canonical_ref_round_trip_witness:
  "canonical_calculation_sheet_ref (canonical_sheet_ref (''it'' @ quote_char # ''s'')) =
     Some (''it'' @ quote_char # ''s'', canonical_sheet_ref (''it'' @ quote_char # ''s''))"
proof -
  have "canonical_calculation_sheet_ref sample_sheet_ref =
      Some (''it'' @ quote_char # ''s'', canonical_sheet_ref (''it'' @ quote_char # ''s''))"
    by code_simp
  from canonical_ref_round_trip [OF this this] show ?thesis by simp
qed

end
