(* ===== verification/RoomSearch.thy ===== *)
theory RoomSearch
  imports CalculationRange Json
begin

text \<open>
  The room calculation of \<open>sheet-workflows/src/workflows/calculations/calculation.ts\<close> on the teams and
  rooms of \<open>sheet-ingress-api/src/schemas/sheet\<close>: every player offers candidate teams, a room takes
  one team of each, and the rooms that are best for their talent are written to the sheet. Numbers
  are exact rationals; \<open>-Infinity\<close>, the starting value of the selection loops, is having selected
  nothing yet. Tags are sets.
\<close>

subsection \<open>Teams and rooms\<close>

record player_team =
  pt_type :: string
  pt_player_id :: "string option"
  pt_player_name :: "string option"
  pt_team_name :: string
  pt_lead :: rat
  pt_backline :: rat
  pt_talent :: rat
  pt_tags :: "string set"

record team =
  tm_type :: string
  tm_player_id :: "string option"
  tm_player_name :: "string option"
  tm_team_name :: "string option"
  tm_tags :: "string list"
  tm_lead :: rat
  tm_backline :: rat
  tm_talent :: "rat option"

record room =
  rm_enced :: bool
  rm_tierer_enced :: bool
  rm_healed :: nat
  rm_talent :: rat
  rm_effect_value :: rat
  rm_teams :: "player_team list"

definition get_effect_value :: "player_team \<Rightarrow> rat" where
  "get_effect_value t = pt_lead t + (pt_backline t - pt_lead t) / 5"

definition add_tags :: "string set \<Rightarrow> player_team \<Rightarrow> player_team" where
  "add_tags tags t = t\<lparr>pt_tags := pt_tags t \<union> tags\<rparr>"

definition from_team :: "bool \<Rightarrow> team \<Rightarrow> player_team option" where
  "from_team cc t =
     (let talent = (if cc then tm_talent t else (case tm_talent t of None \<Rightarrow> Some 0 | Some x \<Rightarrow> Some x)) in
      case (tm_team_name t, talent) of
        (Some name, Some x) \<Rightarrow> Some \<lparr>pt_type = tm_type t, pt_player_id = tm_player_id t,
          pt_player_name = tm_player_name t, pt_team_name = name, pt_lead = tm_lead t,
          pt_backline = tm_backline t, pt_talent = x,
          pt_tags = set (filter (\<lambda>tag. tag \<noteq> []) (tm_tags t))\<rparr>
      | _ \<Rightarrow> None)"

definition room_order :: "room \<Rightarrow> rat \<times> rat" where
  "room_order r = (rm_talent r, - rm_effect_value r)"

definition avg_talent :: "room \<Rightarrow> rat" where
  "avg_talent r = rm_talent r / of_nat (length (rm_teams r))"

definition avg_effect_value :: "room \<Rightarrow> rat" where
  "avg_effect_value r = rm_effect_value r / of_nat (length (rm_teams r))"

subsection \<open>The calculation\<close>

definition encore_factor :: rat where "encore_factor = 2"
definition maximum_calculation_room_candidates :: nat where "maximum_calculation_room_candidates = 20000"
definition maximum_calculation_room_frontier :: nat where "maximum_calculation_room_frontier = 10000"

record calculation_config =
  cfg_cc :: bool
  cfg_consider_enc :: bool
  cfg_heal_needed :: rat

record calculation_player =
  cp_name :: string
  cp_encable :: bool

record calculation_fixed_team =
  cft_name :: string
  cft_heal :: bool

record calculation_input =
  cin_hour :: rat
  cin_config :: calculation_config
  cin_players :: "calculation_player list"
  cin_fixed_teams :: "calculation_fixed_team list"

datatype calculation_failure =
    CalcAuthorizationRevoked string
  | CalcInvalidRequest string string
  | CalcConfigurationMissing string
  | CalcBusinessRuleRejected string string
  | CalcExternalOperationRejected string string string

record calculation_source_player =
  csp_name :: string
  csp_teams :: "team list"

record calculation_source =
  src_players :: "calculation_source_player list"
  src_failure :: "calculation_failure option"

datatype calculation_cell = CellString string | CellNumber rat | CellBoolean bool | CellNull

record calculation_projection =
  prj_rows :: "calculation_cell list list"
  prj_output_range :: string
  prj_room_count :: nat
  prj_failure :: "calculation_failure option"

definition invalid_source :: calculation_failure where
  "invalid_source = CalcInvalidRequest ''InvalidCalculationSource''
     ''The calculation source does not match the requested players''"

definition same_player_reference :: "player_team \<Rightarrow> player_team \<Rightarrow> bool" where
  "same_player_reference l r \<longleftrightarrow> pt_player_id l = pt_player_id r \<and> pt_player_name l = pt_player_name r"

definition fixed_teams_for :: "player_team list \<Rightarrow> player_team list" where
  "fixed_teams_for teams =
     (let fixed = map (\<lambda>t. if ''tierer_hint'' \<in> pt_tags t then add_tags {''tierer''} t else t)
        (filter (\<lambda>t. ''fixed'' \<in> pt_tags t) teams)
      in if fixed \<noteq> [] then fixed else teams)"

definition base_room :: "player_team list \<Rightarrow> room" where
  "base_room teams =
     \<lparr>rm_enced = False, rm_tierer_enced = False,
      rm_healed = foldl (\<lambda>total t. total + (if ''heal'' \<in> pt_tags t then 1 else 0)) 0 teams,
      rm_talent = foldl (\<lambda>total t. total + pt_talent t) 0 teams,
      rm_effect_value = foldl (\<lambda>total t. total + get_effect_value t) 0 teams,
      rm_teams = teams\<rparr>"

text \<open>
  \<open>select_first_best\<close> is the shape of both selection loops: the first eligible team whose value is
  greater than that of the team selected so far.
\<close>

definition select_first_best ::
    "(player_team \<Rightarrow> bool) \<Rightarrow> (player_team \<Rightarrow> rat) \<Rightarrow> player_team list \<Rightarrow> (nat \<times> player_team) option" where
  "select_first_best eligible val teams =
     foldl (\<lambda>best (i, t).
       if eligible t \<and> (case best of None \<Rightarrow> True | Some (j, u) \<Rightarrow> val t > val u) then Some (i, t) else best)
       None (List.enumerate 0 teams)"

definition tierer_talent :: "player_team list \<Rightarrow> rat" where
  "tierer_talent teams =
     (case filter (\<lambda>t. ''tierer'' \<in> pt_tags t) teams of
        [] \<Rightarrow> 0
      | t # ts \<Rightarrow> foldl (\<lambda>m u. max m (pt_talent u)) (pt_talent t) ts)"

definition encore_tags :: "bool \<Rightarrow> nat \<Rightarrow> player_team \<Rightarrow> nat \<times> player_team \<Rightarrow> player_team" where
  "encore_tags override i selected it =
     (case it of (j, t) \<Rightarrow>
        if j = i then add_tags {if override then ''tierer_enc_override'' else ''enc''} t
        else if pt_talent t \<ge> pt_talent selected \<and> ''tierer'' \<notin> pt_tags t then add_tags {''not_enc''} t
        else t)"

definition apply_encore :: "room \<Rightarrow> room" where
  "apply_encore r =
     (let teams = rm_teams r;
          best = select_first_best (\<lambda>t. ''encable'' \<in> pt_tags t \<and> pt_talent t \<ge> tierer_talent teams)
            get_effect_value teams;
          override = (best = None);
          chosen = (case best of Some x \<Rightarrow> Some x
            | None \<Rightarrow> select_first_best (\<lambda>t. ''tierer'' \<in> pt_tags t) pt_talent teams)
      in case chosen of
        None \<Rightarrow> r
      | Some (i, selected) \<Rightarrow>
          \<lparr>rm_enced = True, rm_tierer_enced = override, rm_healed = rm_healed r, rm_talent = rm_talent r,
           rm_effect_value = rm_effect_value r + encore_factor * get_effect_value selected,
           rm_teams = map (encore_tags override i selected) (List.enumerate 0 teams)\<rparr>)"

definition placeholder_team :: "string option \<Rightarrow> player_team" where
  "placeholder_team name =
     \<lparr>pt_type = ''Placeholder'', pt_player_id = None,
      pt_player_name = Some (case name of None \<Rightarrow> ''Placeholder'' | Some n \<Rightarrow> n),
      pt_team_name = (case name of None \<Rightarrow> ''Placeholder'' | Some n \<Rightarrow> n @ '' | placeholder''),
      pt_lead = 0, pt_backline = 0, pt_talent = 0, pt_tags = {''placeholder''}\<rparr>"

text \<open>The validation loop compares with a quotient, exactly as the code does.\<close>

fun candidate_product :: "nat \<Rightarrow> player_team list list \<Rightarrow> nat option" where
  "candidate_product product [] = Some product"
| "candidate_product product (slot # slots) =
     (let count = max 1 (length slot) in
      if of_nat product > of_nat maximum_calculation_room_candidates / (of_nat count :: rat) then None
      else candidate_product (product * count) slots)"

definition slot_candidates :: "player_team list \<Rightarrow> player_team list" where
  "slot_candidates slot = (if slot \<noteq> [] then slot else [placeholder_team None])"

definition slot_placeholder :: "player_team list \<Rightarrow> player_team" where
  "slot_placeholder slot = placeholder_team (pt_player_name (hd (slot_candidates slot)))"

definition permitted_teams :: "player_team list \<Rightarrow> player_team list \<Rightarrow> player_team list" where
  "permitted_teams slot product =
     (let permitted = filter (\<lambda>c. \<not> list_ex (\<lambda>t. same_player_reference t c) product) (slot_candidates slot)
      in if permitted \<noteq> [] then permitted else [slot_placeholder slot])"

definition extend_products :: "player_team list list \<Rightarrow> player_team list \<Rightarrow> player_team list list" where
  "extend_products products slot =
     concat (map (\<lambda>product. map (\<lambda>c. product @ [c]) (permitted_teams slot product)) products)"

definition cartesian_teams :: "player_team list list \<Rightarrow> player_team list list option" where
  "cartesian_teams slots =
     (if slots = [] then Some []
      else case candidate_product 1 slots of
        None \<Rightarrow> None
      | Some _ \<Rightarrow> Some (foldl extend_products [[]] slots))"

text \<open>The rooms whose effect grows along the order, the last of them first in the result.\<close>

fun increasing_rooms :: "nat \<Rightarrow> room list \<Rightarrow> room list \<Rightarrow> room list option" where
  "increasing_rooms limit selected [] = Some selected"
| "increasing_rooms limit selected (r # rs) =
     (if (case selected of [] \<Rightarrow> True | b # _ \<Rightarrow> rm_effect_value r > rm_effect_value b)
      then if length selected \<ge> limit then None else increasing_rooms limit (r # selected) rs
      else increasing_rooms limit selected rs)"

definition candidate_rooms :: "calculation_config \<Rightarrow> player_team list list \<Rightarrow> room list" where
  "candidate_rooms cfg teams =
     filter (\<lambda>r. of_nat (rm_healed r) \<ge> cfg_heal_needed cfg)
       (map (if cfg_consider_enc cfg then apply_encore else id) (map base_room teams))"

definition best_rooms :: "calculation_config \<Rightarrow> player_team list list \<Rightarrow> room list option" where
  "best_rooms cfg slots =
     (case cartesian_teams slots of
        None \<Rightarrow> None
      | Some teams \<Rightarrow>
          increasing_rooms maximum_calculation_room_frontier [] (sort_key room_order (candidate_rooms cfg teams)))"

definition room_row :: "room \<Rightarrow> calculation_cell list" where
  "room_row r =
     [CellNumber (avg_talent r), CellNumber (avg_effect_value r)] @
     concat (map (\<lambda>t. [CellString (pt_team_name t), CellNumber (pt_lead t), CellNumber (pt_backline t),
       CellNumber (get_effect_value t), CellNumber (pt_talent t),
       CellString (join_with '', '' (sorted_list_of_set (pt_tags t)))]) (rm_teams r))"

definition fixed_team_of :: "calculation_fixed_team list \<Rightarrow> string \<Rightarrow> calculation_fixed_team option" where
  "fixed_team_of fixed name = lookup_by cft_name name fixed"

definition converted_team ::
    "calculation_input \<Rightarrow> calculation_player \<Rightarrow> team \<Rightarrow> player_team list" where
  "converted_team inp player t =
     (case from_team (cfg_cc (cin_config inp)) t of
        None \<Rightarrow> []
      | Some converted \<Rightarrow>
          let fixed = fixed_team_of (cin_fixed_teams inp) (pt_team_name converted) in
          [add_tags ((if cp_encable player then {''encable''} else {}) \<union>
             (case fixed of None \<Rightarrow> {} | Some f \<Rightarrow> {''fixed''} \<union> (if cft_heal f then {''heal''} else {}))) converted])"

definition calculation_slots :: "calculation_input \<Rightarrow> calculation_source \<Rightarrow> player_team list list" where
  "calculation_slots inp source =
     map (\<lambda>(player, p). fixed_teams_for (concat (map (converted_team inp player) (csp_teams p))))
       (zip (cin_players inp) (src_players source))"

text \<open>The inner \<open>None\<close> is the defect of a result range that cannot be written.\<close>

definition calculate_projection ::
    "calculation_input \<Rightarrow> calculation_source \<Rightarrow> calculation_failure + calculation_projection option" where
  "calculate_projection inp source =
     (case src_failure source of
        Some failure \<Rightarrow> Inl failure
      | None \<Rightarrow>
          if map csp_name (src_players source) \<noteq> map cp_name (cin_players inp) then Inl invalid_source
          else if \<not> distinct (map cft_name (cin_fixed_teams inp))
          then Inl (CalcInvalidRequest ''DuplicateFixedTeam''
            ''The calculation input contains duplicate fixed team names'')
          else case best_rooms (cin_config inp) (calculation_slots inp source) of
            None \<Rightarrow> Inl (CalcBusinessRuleRejected ''CalculationSearchSpaceTooLarge''
              ''The calculation search space exceeds the supported limit'')
          | Some rooms \<Rightarrow> Inr (map_option (\<lambda>range.
              \<lparr>prj_rows = [CellNumber (cin_hour inp), CellString []] # map room_row rooms,
               prj_output_range = range, prj_room_count = length rooms, prj_failure = None\<rparr>)
              (calculation_result_range (length rooms))))"

fun failure_status :: "calculation_failure \<Rightarrow> string" where
  "failure_status (CalcAuthorizationRevoked p) = ''CALCULATION_AUTHORIZATION_REVOKED: Authorization was revoked''"
| "failure_status (CalcInvalidRequest c m) = ''CALCULATION_INVALID_REQUEST: Calculation input is invalid''"
| "failure_status (CalcConfigurationMissing c) =
     ''CALCULATION_CONFIGURATION_MISSING: Sheet configuration is incomplete''"
| "failure_status (CalcBusinessRuleRejected c m) =
     ''CALCULATION_RULE_REJECTED: Calculation rules rejected the input''"
| "failure_status (CalcExternalOperationRejected p c m) =
     ''CALCULATION_PROVIDER_REJECTED: The Sheets operation was rejected''"

definition calculation_failure_projection ::
    "rat \<Rightarrow> calculation_failure \<Rightarrow> calculation_projection option" where
  "calculation_failure_projection hour failure =
     map_option (\<lambda>range. \<lparr>prj_rows = [[CellNumber hour, CellString (failure_status failure)]],
       prj_output_range = range, prj_room_count = 0, prj_failure = Some failure\<rparr>) (calculation_result_range 0)"

end
