(* ===== verification/RoomFrontier.thy ===== *)
theory RoomFrontier
  imports RoomSearch
begin

text \<open>
  What the room calculation finds: the best rooms are the Pareto frontier of the candidate rooms
  between a low talent and a high effect, the search is bounded, every room takes one team of each
  player, and the encore goes to the best team that may have it.
\<close>

subsection \<open>The frontier\<close>

fun picks :: "rat option \<Rightarrow> room list \<Rightarrow> room list" where
  "picks b [] = []"
| "picks b (r # rs) =
     (if (case b of None \<Rightarrow> True | Some e \<Rightarrow> e < rm_effect_value r)
      then r # picks (Some (rm_effect_value r)) rs else picks b rs)"

definition best_effect :: "room list \<Rightarrow> rat option" where
  "best_effect selected = (case selected of [] \<Rightarrow> None | r # _ \<Rightarrow> Some (rm_effect_value r))"

lemma increasing_rooms_picks:
  "increasing_rooms limit selected rs =
     (if picks (best_effect selected) rs = [] \<or> length selected + length (picks (best_effect selected) rs) \<le> limit
      then Some (rev (picks (best_effect selected) rs) @ selected) else None)"
proof (induction limit selected rs rule: increasing_rooms.induct)
  case (2 limit selected r rs)
  then show ?case
    by (cases selected; cases "picks (Some (rm_effect_value r)) rs") (auto simp: best_effect_def)
qed simp

lemma picks_subset: "set (picks b rs) \<subseteq> set rs"
  by (induction b rs rule: picks.induct) auto

lemma picks_increasing:
  "sorted_wrt (\<lambda>r s. rm_effect_value r < rm_effect_value s) (picks b rs) \<and>
     (\<forall>r \<in> set (picks b rs). case b of None \<Rightarrow> True | Some e \<Rightarrow> e < rm_effect_value r)"
proof (induction b rs rule: picks.induct)
  case (2 b r rs)
  then show ?case by (auto split: option.splits intro: less_trans)
qed simp

lemma picks_talent:
  assumes "sorted (map room_order rs)"
  shows "sorted_wrt (\<lambda>r s. rm_talent r < rm_talent s) (picks b rs)"
  using assms
proof (induction b rs rule: picks.induct)
  case (2 b r rs)
  have "rm_talent r < rm_talent s" if "s \<in> set (picks (Some (rm_effect_value r)) rs)" for s
  proof -
    have "rm_effect_value r < rm_effect_value s"
      using picks_increasing [of "Some (rm_effect_value r)" rs] that by simp
    moreover have "room_order r \<le> room_order s"
      using 2(3) that picks_subset by fastforce
    ultimately show ?thesis by (auto simp: room_order_def less_eq_prod_def)
  qed
  with 2 show ?case by (auto split: option.splits)
qed simp

lemma picks_cover:
  assumes "sorted (map room_order rs)" and "c \<in> set rs"
  shows "(case b of None \<Rightarrow> False | Some e \<Rightarrow> rm_effect_value c \<le> e) \<or>
    (\<exists>r \<in> set (picks b rs). rm_talent r \<le> rm_talent c \<and> rm_effect_value c \<le> rm_effect_value r)"
  using assms
proof (induction b rs rule: picks.induct)
  case (2 b r rs)
  show ?case
  proof (cases "c = r")
    case True
    then show ?thesis by (auto split: option.splits)
  next
    case False
    then have c: "c \<in> set rs" using 2(4) by simp
    then have "room_order r \<le> room_order c" using 2(3) by simp
    then have "rm_talent r \<le> rm_talent c" by (auto simp: room_order_def less_eq_prod_def)
    then show ?thesis using 2 c by (auto split: option.splits)
  qed
qed simp

lemma picks_undominated:
  assumes "sorted (map room_order rs)" and "r \<in> set (picks None rs)" and "c \<in> set rs"
    and "rm_talent c \<le> rm_talent r"
  shows "rm_effect_value c \<le> rm_effect_value r"
proof -
  obtain s where s: "s \<in> set (picks None rs)" "rm_talent s \<le> rm_talent c" "rm_effect_value c \<le> rm_effect_value s"
    using picks_cover [OF assms(1,3), of None] by auto
  have "rm_effect_value s \<le> rm_effect_value r"
  proof (rule ccontr)
    assume "\<not> rm_effect_value s \<le> rm_effect_value r"
    moreover obtain i j where "i < length (picks None rs)" "j < length (picks None rs)"
      "picks None rs ! i = r" "picks None rs ! j = s"
      using assms(2) s(1) by (metis in_set_conv_nth)
    ultimately show False
      using picks_increasing [of None rs] picks_talent [OF assms(1), of None] s(2) assms(4)
      by (cases i j rule: linorder_cases) (force simp: sorted_wrt_iff_nth_less)+
  qed
  with s(3) show ?thesis by simp
qed

text \<open>C7: The best rooms are the Pareto frontier of the candidates: they are candidate rooms with enough
  heals, ordered by falling talent and falling effect; for every candidate room some best room has
  at most its talent and at least its effect; and no candidate with at most the talent of a best
  room has a greater effect.\<close>

theorem best_rooms_are_frontier:
  assumes "cartesian_teams slots = Some teams" and "best_rooms cfg slots = Some rooms"
  shows "sorted_wrt (\<lambda>r s. rm_talent s < rm_talent r \<and> rm_effect_value s < rm_effect_value r) rooms \<and>
    set rooms \<subseteq> set (candidate_rooms cfg teams) \<and>
    (\<forall>c \<in> set (candidate_rooms cfg teams). \<exists>r \<in> set rooms.
       rm_talent r \<le> rm_talent c \<and> rm_effect_value c \<le> rm_effect_value r) \<and>
    (\<forall>r \<in> set rooms. \<forall>c \<in> set (candidate_rooms cfg teams).
       rm_talent c \<le> rm_talent r \<longrightarrow> rm_effect_value c \<le> rm_effect_value r)"
proof -
  let ?xs = "sort_key room_order (candidate_rooms cfg teams)"
  have rooms: "rooms = rev (picks None ?xs)"
    using assms by (simp add: best_rooms_def increasing_rooms_picks best_effect_def split: if_splits)
  have sorted: "sorted (map room_order ?xs)" by simp
  have "sorted_wrt (\<lambda>r s. rm_talent s < rm_talent r \<and> rm_effect_value s < rm_effect_value r) rooms"
    using picks_increasing [of None ?xs] picks_talent [OF sorted, of None]
    by (simp add: rooms sorted_wrt_rev) (simp add: sorted_wrt_iff_nth_less)
  moreover have "set rooms \<subseteq> set (candidate_rooms cfg teams)"
    using picks_subset [of None ?xs] by (simp add: rooms)
  moreover have "\<exists>r \<in> set rooms. rm_talent r \<le> rm_talent c \<and> rm_effect_value c \<le> rm_effect_value r"
    if "c \<in> set (candidate_rooms cfg teams)" for c
    using picks_cover [OF sorted, of c None] that by (simp add: rooms)
  moreover have "rm_effect_value c \<le> rm_effect_value r"
    if "r \<in> set rooms" "c \<in> set (candidate_rooms cfg teams)" "rm_talent c \<le> rm_talent r" for r c
    using picks_undominated [OF sorted, of r c] that by (simp add: rooms)
  ultimately show ?thesis by blast
qed

subsection \<open>Bounds of the search\<close>

definition slot_size :: "player_team list \<Rightarrow> nat" where
  "slot_size slot = max 1 (length slot)"

lemma slot_size_pos: "1 \<le> slot_size slot"
  by (simp add: slot_size_def)

lemma candidate_product_step:
  "candidate_product n (slot # slots) =
     (if n * slot_size slot > maximum_calculation_room_candidates then None
      else candidate_product (n * slot_size slot) slots)"
proof -
  have "(of_nat n > of_nat maximum_calculation_room_candidates / (of_nat (slot_size slot) :: rat)) =
      (n * slot_size slot > maximum_calculation_room_candidates)"
    using slot_size_pos [of slot] by (simp add: divide_less_eq flip: of_nat_mult)
  then show ?thesis unfolding slot_size_def by (simp add: Let_def)
qed

lemma candidate_product_eq:
  assumes "n \<le> maximum_calculation_room_candidates"
  shows "candidate_product n slots =
    (if n * prod_list (map slot_size slots) \<le> maximum_calculation_room_candidates
     then Some (n * prod_list (map slot_size slots)) else None)"
  using assms
proof (induction slots arbitrary: n)
  case (Cons slot slots)
  have rest: "1 \<le> prod_list (map slot_size slots)"
    using slot_size_pos by (induction slots) (auto simp: Suc_le_eq)
  show ?case
  proof (cases "n * slot_size slot > maximum_calculation_room_candidates")
    case True
    then have "n * slot_size slot * prod_list (map slot_size slots) > maximum_calculation_room_candidates"
      using rest by (metis less_le_trans mult.right_neutral mult_le_mono2)
    then show ?thesis
      using True by (simp only: candidate_product_step) (simp add: mult.assoc)
  next
    case False
    then show ?thesis
      using Cons.IH [of "n * slot_size slot"] by (simp only: candidate_product_step) (simp add: mult.assoc)
  qed
qed simp

lemma permitted_length: "length (permitted_teams slot product) \<le> slot_size slot"
proof -
  have "length (slot_candidates slot) \<le> slot_size slot"
    by (simp add: slot_candidates_def slot_size_def)
  then have "length (filter (\<lambda>c. \<not> list_ex (\<lambda>t. same_player_reference t c) product) (slot_candidates slot)) \<le> slot_size slot"
    using length_filter_le le_trans by blast
  then show ?thesis
    using slot_size_pos [of slot] by (simp add: permitted_teams_def Let_def)
qed

lemma extend_products_length: "length (extend_products products slot) \<le> length products * slot_size slot"
proof (induction products)
  case (Cons p products)
  then show ?case using permitted_length [of slot p] by (simp add: extend_products_def)
qed (simp add: extend_products_def)

lemma fold_extend_length:
  "length (foldl extend_products products slots) \<le> length products * prod_list (map slot_size slots)"
proof (induction slots arbitrary: products)
  case (Cons slot slots)
  have "length (foldl extend_products (extend_products products slot) slots) \<le>
      length (extend_products products slot) * prod_list (map slot_size slots)"
    by (rule Cons.IH)
  also have "\<dots> \<le> length products * slot_size slot * prod_list (map slot_size slots)"
    using extend_products_length by (rule mult_le_mono1)
  finally show ?case by (simp add: mult.assoc)
qed simp

text \<open>The search is bounded: the room candidates are refused exactly when the product of the
  numbers of teams (an empty list counting as one) exceeds twenty thousand, whatever is held in
  memory is at most that product, and the result has at most ten thousand rooms.\<close>

theorem search_is_bounded:
  "(cartesian_teams slots = None \<longleftrightarrow>
      slots \<noteq> [] \<and> prod_list (map (\<lambda>slot. max 1 (length slot)) slots) > 20000) \<and>
   (case cartesian_teams slots of None \<Rightarrow> True | Some teams \<Rightarrow> length teams \<le> 20000) \<and>
   (case best_rooms cfg slots of None \<Rightarrow> True | Some rooms \<Rightarrow> length rooms \<le> 10000)"
proof -
  have eq: "candidate_product 1 slots =
      (if prod_list (map slot_size slots) \<le> 20000 then Some (prod_list (map slot_size slots)) else None)"
    using candidate_product_eq [of 1 slots] by (simp add: maximum_calculation_room_candidates_def)
  have sz: "slot_size = (\<lambda>slot. max 1 (length slot))" by (rule ext) (simp add: slot_size_def)
  have "length (foldl extend_products [[]] slots) \<le> prod_list (map slot_size slots)"
    using fold_extend_length [of "[[]]" slots] by simp
  moreover have "length rooms \<le> 10000" if "best_rooms cfg slots = Some rooms" for rooms
    using that by (auto simp: best_rooms_def increasing_rooms_picks best_effect_def
        maximum_calculation_room_frontier_def split: option.splits if_splits)
  ultimately show ?thesis
    unfolding cartesian_teams_def eq sz [symmetric] by (auto split: option.splits)
qed

subsection \<open>One team of each player\<close>

lemma permitted_in_slot:
  assumes "c \<in> set (permitted_teams slot product)"
  shows "c = slot_placeholder slot \<or>
    c \<in> set (slot_candidates slot) \<and> (\<forall>t \<in> set product. \<not> same_player_reference t c)"
  using assms by (auto simp: permitted_teams_def Let_def list_ex_iff split: if_splits)

definition fills_slots :: "player_team list list \<Rightarrow> player_team list \<Rightarrow> bool" where
  "fills_slots slots product \<longleftrightarrow>
     length product = length slots \<and>
     (\<forall>i < length slots. product ! i = slot_placeholder (slots ! i) \<or>
        product ! i \<in> set (slot_candidates (slots ! i)) \<and>
        (\<forall>j < i. \<not> same_player_reference (product ! j) (product ! i)))"

lemma fills_slots_extend:
  assumes "fills_slots slots p" and "c \<in> set (permitted_teams slot p)"
  shows "fills_slots (slots @ [slot]) (p @ [c])"
proof -
  have "length p = length slots" using assms(1) by (simp add: fills_slots_def)
  then show ?thesis
    using assms(1) permitted_in_slot [OF assms(2)]
    by (auto simp: fills_slots_def nth_append less_Suc_eq)
qed

lemma in_extend_products:
  "p \<in> set (extend_products ps slot) \<longleftrightarrow> (\<exists>q \<in> set ps. \<exists>c \<in> set (permitted_teams slot q). p = q @ [c])"
  by (auto simp: extend_products_def)

lemma fold_extend_fills:
  "p \<in> set (foldl extend_products [[]] slots) \<Longrightarrow> fills_slots slots p"
proof (induction slots arbitrary: p rule: rev_induct)
  case Nil
  then show ?case by (simp add: fills_slots_def)
next
  case (snoc slot slots)
  then obtain q c where "q \<in> set (foldl extend_products [[]] slots)" "c \<in> set (permitted_teams slot q)"
    "p = q @ [c]"
    by (auto simp: in_extend_products)
  with snoc.IH show ?case by (simp add: fills_slots_extend)
qed

text \<open>A room takes one team of each player: the teams of a candidate room correspond to the slots in
  order, each is a candidate team of its slot or the slot's placeholder, and a team that is not a
  placeholder refers to another player than all teams before it.\<close>

theorem rooms_fill_slots:
  assumes "cartesian_teams slots = Some teams" and "room \<in> set (candidate_rooms cfg teams)"
  shows "length (rm_teams room) = length slots \<and>
    (\<exists>product \<in> set teams. map pt_team_name (rm_teams room) = map pt_team_name product \<and>
       (\<forall>i < length slots. product ! i = slot_placeholder (slots ! i) \<or>
          product ! i \<in> set (slot_candidates (slots ! i)) \<and>
          (\<forall>j < i. \<not> same_player_reference (product ! j) (product ! i))))"
proof -
  have names: "map pt_team_name (rm_teams (apply_encore r)) = map pt_team_name (rm_teams r)" for r
  proof -
    have "map (pt_team_name \<circ> encore_tags ov i sel) (List.enumerate 0 (rm_teams r)) =
        map (pt_team_name \<circ> snd) (List.enumerate 0 (rm_teams r))" for ov i sel
      by (auto simp: encore_tags_def add_tags_def)
    moreover have "map (pt_team_name \<circ> snd) (List.enumerate 0 (rm_teams r)) = map pt_team_name (rm_teams r)"
      by (simp only: map_map [symmetric] map_snd_enumerate)
    ultimately show ?thesis
      by (simp add: apply_encore_def Let_def split: option.split prod.split)
  qed
  obtain p where p: "p \<in> set teams" "room = base_room p \<or> room = apply_encore (base_room p)"
    using assms(2) by (auto simp: candidate_rooms_def split: if_splits)
  then have same: "map pt_team_name (rm_teams room) = map pt_team_name p"
    using names [of "base_room p"] by (auto simp: base_room_def)
  have "fills_slots slots p"
    using assms(1) p(1) fold_extend_fills by (auto simp: cartesian_teams_def split: if_splits option.splits)
  moreover have "length (rm_teams room) = length p"
    using same by (metis length_map)
  ultimately show ?thesis
    using p(1) same by (auto simp: fills_slots_def)
qed

subsection \<open>The encore\<close>

lemma select_first_best_snoc:
  "select_first_best elig val (ts @ [t]) =
     (if elig t \<and> (case select_first_best elig val ts of None \<Rightarrow> True | Some (j, u) \<Rightarrow> val t > val u)
      then Some (length ts, t) else select_first_best elig val ts)"
  by (simp add: select_first_best_def enumerate_append_eq)

lemma select_first_best_spec:
  "case select_first_best elig val ts of
     None \<Rightarrow> \<forall>t \<in> set ts. \<not> elig t
   | Some (i, t) \<Rightarrow> i < length ts \<and> t = ts ! i \<and> elig t \<and>
       (\<forall>j < length ts. elig (ts ! j) \<longrightarrow> val (ts ! j) \<le> val t) \<and>
       (\<forall>j < i. elig (ts ! j) \<longrightarrow> val (ts ! j) < val t)"
proof (induction ts rule: rev_induct)
  case Nil
  then show ?case by (simp add: select_first_best_def)
next
  case (snoc x ts)
  show ?case
  proof (cases "select_first_best elig val ts")
    case None
    with snoc have "\<not> elig (ts ! j)" if "j < length ts" for j using that by simp
    with None snoc show ?thesis by (auto simp: select_first_best_snoc nth_append less_Suc_eq)
  next
    case (Some it)
    obtain i t where "it = (i, t)" by fastforce
    with Some have it: "select_first_best elig val ts = Some (i, t)" by simp
    with snoc have IH: "i < length ts" "t = ts ! i" "elig t"
      "\<And>j. j < length ts \<Longrightarrow> elig (ts ! j) \<Longrightarrow> val (ts ! j) \<le> val t"
      "\<And>j. j < i \<Longrightarrow> elig (ts ! j) \<Longrightarrow> val (ts ! j) < val t"
      by auto
    show ?thesis
      using IH by (auto simp: select_first_best_snoc it nth_append less_Suc_eq not_less
          intro: le_less_trans less_imp_le order_trans)
  qed
qed

lemma select_first_best_None: "select_first_best elig val ts = None \<longleftrightarrow> (\<forall>t \<in> set ts. \<not> elig t)"
  using select_first_best_spec [where elig = elig and val = val and ts = ts]
  by (auto split: option.splits)

definition may_encore :: "player_team list \<Rightarrow> player_team \<Rightarrow> bool" where
  "may_encore ts t \<longleftrightarrow> ''encable'' \<in> pt_tags t \<and>
     (\<forall>u \<in> set ts. ''tierer'' \<in> pt_tags u \<longrightarrow> pt_talent u \<le> pt_talent t) \<and>
     ((\<exists>u \<in> set ts. ''tierer'' \<in> pt_tags u) \<or> 0 \<le> pt_talent t)"

lemma tierer_talent_le:
  "tierer_talent ts \<le> x \<longleftrightarrow>
     (\<forall>u \<in> set ts. ''tierer'' \<in> pt_tags u \<longrightarrow> pt_talent u \<le> x) \<and>
     ((\<exists>u \<in> set ts. ''tierer'' \<in> pt_tags u) \<or> 0 \<le> x)"
proof (cases "filter (\<lambda>t. ''tierer'' \<in> pt_tags t) ts")
  case Nil
  then show ?thesis by (auto simp: tierer_talent_def filter_empty_conv)
next
  case (Cons t us)
  have "foldl (\<lambda>m u. max m (pt_talent u)) m us \<le> x \<longleftrightarrow> m \<le> x \<and> (\<forall>u \<in> set us. pt_talent u \<le> x)" for m
    by (induction us arbitrary: m) auto
  then have "tierer_talent ts \<le> x \<longleftrightarrow> (\<forall>u \<in> set (t # us). pt_talent u \<le> x)"
    by (simp add: tierer_talent_def Cons)
  moreover have "set (t # us) = {u \<in> set ts. ''tierer'' \<in> pt_tags u}"
    using arg_cong [OF Cons, of set] by auto
  ultimately show ?thesis by auto
qed

text \<open>The encore of a room: when some team is encable and has at least the talent of every tierer,
  the first such team with the greatest effect gets it, else the first tierer with the greatest
  talent; the room's effect grows by twice the effect of that team and by nothing else; the other
  teams get no encore tag, and without an encable team or a tierer the room stays as it is.\<close>

theorem encore_goes_to_the_best:
  "case select_first_best (may_encore ts) get_effect_value ts of
     Some (i, t) \<Rightarrow>
       i < length ts \<and> t = ts ! i \<and> may_encore ts t \<and>
       (\<forall>j < length ts. may_encore ts (ts ! j) \<longrightarrow> get_effect_value (ts ! j) \<le> get_effect_value t) \<and>
       rm_effect_value (apply_encore (base_room ts)) = rm_effect_value (base_room ts) + 2 * get_effect_value t \<and>
       rm_talent (apply_encore (base_room ts)) = rm_talent (base_room ts) \<and>
       pt_tags (rm_teams (apply_encore (base_room ts)) ! i) = pt_tags t \<union> {''enc''} \<and>
       (\<forall>j < length ts. j \<noteq> i \<longrightarrow>
          pt_tags (rm_teams (apply_encore (base_room ts)) ! j) \<subseteq> pt_tags (ts ! j) \<union> {''not_enc''})
   | None \<Rightarrow>
       (\<forall>t \<in> set ts. \<not> may_encore ts t) \<and>
       (case select_first_best (\<lambda>t. ''tierer'' \<in> pt_tags t) pt_talent ts of
          None \<Rightarrow> apply_encore (base_room ts) = base_room ts
        | Some (i, t) \<Rightarrow>
            i < length ts \<and> t = ts ! i \<and>
            (\<forall>u \<in> set ts. ''tierer'' \<in> pt_tags u \<longrightarrow> pt_talent u \<le> pt_talent t) \<and>
            rm_effect_value (apply_encore (base_room ts)) = rm_effect_value (base_room ts) + 2 * get_effect_value t \<and>
            pt_tags (rm_teams (apply_encore (base_room ts)) ! i) = pt_tags t \<union> {''tierer_enc_override''})"
proof -
  have elig: "(\<lambda>t. ''encable'' \<in> pt_tags t \<and> tierer_talent ts \<le> pt_talent t) = may_encore ts"
    by (rule ext) (simp add: may_encore_def tierer_talent_le)
  have teams: "rm_teams (base_room ts) = ts" by (simp add: base_room_def)
  have nth: "map (encore_tags ov i t) (List.enumerate 0 ts) ! j = encore_tags ov i t (j, ts ! j)"
    if "j < length ts" for ov i t j
    using that by (simp add: nth_enumerate_eq)
  show ?thesis
  proof (cases "select_first_best (may_encore ts) get_effect_value ts")
    case (Some it)
    obtain i t where "it = (i, t)" by fastforce
    with Some have it: "select_first_best (may_encore ts) get_effect_value ts = Some (i, t)" by simp
    show ?thesis
      using select_first_best_spec [where elig = "may_encore ts" and val = get_effect_value and ts = ts]
      by (auto simp: it apply_encore_def Let_def teams elig nth encore_tags_def add_tags_def encore_factor_def
          simp del: nth_map)
  next
    case None
    show ?thesis
    proof (cases "select_first_best (\<lambda>t. ''tierer'' \<in> pt_tags t) pt_talent ts")
      case (Some it)
      obtain i t where "it = (i, t)" by fastforce
      with Some have it: "select_first_best (\<lambda>t. ''tierer'' \<in> pt_tags t) pt_talent ts = Some (i, t)" by simp
      show ?thesis
        using select_first_best_spec [where elig = "\<lambda>t. ''tierer'' \<in> pt_tags t" and val = pt_talent and ts = ts] None select_first_best_None [where elig = "may_encore ts" and ts = ts]
        by (auto simp: it apply_encore_def Let_def teams elig nth encore_tags_def add_tags_def encore_factor_def
            in_set_conv_nth simp del: nth_map)
    next
      case tierer: None
      then show ?thesis
        using None select_first_best_None [where elig = "may_encore ts" and ts = ts] by (simp add: apply_encore_def Let_def teams elig)
    qed
  qed
qed

subsection \<open>A concrete calculation\<close>

definition sample_team :: "string \<Rightarrow> string \<Rightarrow> rat \<Rightarrow> rat \<Rightarrow> string set \<Rightarrow> player_team" where
  "sample_team player name skill talent tags =
     \<lparr>pt_type = ''main'', pt_player_id = Some player, pt_player_name = Some player, pt_team_name = name,
      pt_lead = skill, pt_backline = skill, pt_talent = talent, pt_tags = tags\<rparr>"

definition sample_slots :: "player_team list list" where
  "sample_slots =
     [[sample_team ''a'' ''a1'' 100 300 {''encable''}, sample_team ''a'' ''a2'' 120 350 {}],
      [sample_team ''b'' ''b1'' 90 200 {''tierer''}]]"

definition sample_config :: calculation_config where
  "sample_config = \<lparr>cfg_cc = False, cfg_consider_enc = True, cfg_heal_needed = 0\<rparr>"

definition sample_products :: "player_team list list" where
  "sample_products = foldl extend_products [[]] sample_slots"

definition sample_rooms :: "room list" where
  "sample_rooms = rev (picks None (sort_key room_order (candidate_rooms sample_config sample_products)))"

lemma sample_values: "map rm_talent sample_rooms = [500]" "map rm_effect_value sample_rooms = [390]"
  by code_simp+

lemma sample_search:
  "cartesian_teams sample_slots = Some sample_products"
  "best_rooms sample_config sample_slots = Some sample_rooms"
proof -
  show c: "cartesian_teams sample_slots = Some sample_products"
    using candidate_product_eq [of 1 sample_slots]
    by (simp add: cartesian_teams_def sample_products_def maximum_calculation_room_candidates_def
        sample_slots_def slot_size_def)
  have "length sample_rooms = 1" using arg_cong [OF sample_values(1), of length] by simp
  then show "best_rooms sample_config sample_slots = Some sample_rooms"
    by (simp add: best_rooms_def c increasing_rooms_picks best_effect_def sample_rooms_def
        maximum_calculation_room_frontier_def)
qed

theorem best_rooms_are_frontier_witness:
  "set sample_rooms \<subseteq> set (candidate_rooms sample_config sample_products) \<and>
   map rm_talent sample_rooms = [500] \<and> map rm_effect_value sample_rooms = [390]"
  using best_rooms_are_frontier [OF sample_search] sample_values by blast

theorem rooms_fill_slots_witness:
  "length (rm_teams (hd (candidate_rooms sample_config sample_products))) = 2"
proof -
  have "candidate_rooms sample_config sample_products \<noteq> []" by code_simp
  then have "hd (candidate_rooms sample_config sample_products) \<in> set (candidate_rooms sample_config sample_products)"
    by simp
  from rooms_fill_slots [OF sample_search(1) this] show ?thesis by (simp add: sample_slots_def)
qed

definition sample_encore_teams :: "player_team list" where
  "sample_encore_teams = [sample_team ''a'' ''a1'' 100 300 {''encable''}, sample_team ''b'' ''b1'' 90 200 {''tierer''}]"

lemma sample_encore:
  "select_first_best (may_encore sample_encore_teams) get_effect_value sample_encore_teams =
     Some (0, hd sample_encore_teams)"
  by code_simp

theorem encore_goes_to_the_best_witness:
  "rm_effect_value (apply_encore (base_room sample_encore_teams)) =
     rm_effect_value (base_room sample_encore_teams) + 2 * get_effect_value (hd sample_encore_teams)"
  using encore_goes_to_the_best [of sample_encore_teams] unfolding sample_encore by simp

end
