(* ===== verification/RoomOrderCalculation.thy ===== *)
theory RoomOrderCalculation
  imports RoomFrontier
begin

text \<open>
  Two more calculators of rooms: the calculation of a room order in
  \<open>sheet-workflows/src/workflows/roomOrders/createCalculation.ts\<close> and the older \<open>CalcService\<close> of
  \<open>sheet-apis/src/services/calc.ts\<close> (the definitions with \<open>calc_\<close>). Both take the slots from the last to
  the first, where \<open>RoomSearch\<close> takes them from the first to the last, and name placeholders in
  their own way. The theorems say when the three agree and that they do not when a player is in two
  slots. \<open>tag_order\<close> stands for the order in which a hash set gives its elements.
\<close>

definition enc_factor :: rat where "enc_factor = 2"

record calculation_team =
  ct_player_id :: string
  ct_player_name :: string
  ct_team_name :: string
  ct_tags :: "string list"
  ct_lead :: rat
  ct_backline :: rat
  ct_talent :: rat
  ct_encable :: bool
  ct_tierer :: bool

record calculated_entry =
  ce_rank :: nat
  ce_position :: nat
  ce_hour :: rat
  ce_team :: string
  ce_tags :: "string list"
  ce_effect_value :: rat

definition create_same_player_reference :: "player_team \<Rightarrow> player_team \<Rightarrow> bool" where
  "create_same_player_reference l r \<longleftrightarrow> pt_player_id l = pt_player_id r \<and> pt_player_name l = pt_player_name r"

definition filter_fixed_teams :: "player_team list \<Rightarrow> player_team list" where
  "filter_fixed_teams teams =
     (let fixed = map (\<lambda>t. if ''tierer_hint'' \<in> pt_tags t then add_tags {''tierer''} t else t)
        (filter (\<lambda>t. ''fixed'' \<in> pt_tags t) teams)
      in if length fixed > 0 then fixed else teams)"

definition create_base_room :: "player_team list \<Rightarrow> room" where
  "create_base_room teams =
     \<lparr>rm_enced = False, rm_tierer_enced = False,
      rm_healed = foldl (\<lambda>total t. total + (if ''heal'' \<in> pt_tags t then 1 else 0)) 0 teams,
      rm_talent = foldl (\<lambda>total t. total + pt_talent t) 0 teams,
      rm_effect_value = foldl (\<lambda>total t. total + get_effect_value t) 0 teams,
      rm_teams = teams\<rparr>"

text \<open>The loops keep the index and the best value; \<open>None\<close> is the index -1 with \<open>-Infinity\<close>.\<close>

definition select_index ::
    "(player_team \<Rightarrow> bool) \<Rightarrow> (player_team \<Rightarrow> rat) \<Rightarrow> player_team list \<Rightarrow> (nat \<times> rat) option" where
  "select_index eligible val teams =
     foldl (\<lambda>best (i, t).
       if eligible t \<and> (case best of None \<Rightarrow> True | Some (j, v) \<Rightarrow> val t > v) then Some (i, val t) else best)
       None (List.enumerate 0 teams)"

definition apply_room_enc_and_doormat :: "room \<Rightarrow> room" where
  "apply_room_enc_and_doormat r =
     (let teams = rm_teams r;
          best = select_index (\<lambda>t. ''encable'' \<in> pt_tags t \<and> pt_talent t \<ge> tierer_talent teams)
            get_effect_value teams;
          override = (best = None);
          chosen = (case best of Some x \<Rightarrow> Some x
            | None \<Rightarrow> select_index (\<lambda>t. ''tierer'' \<in> pt_tags t) pt_talent teams)
      in case chosen of
        None \<Rightarrow> r
      | Some (i, v) \<Rightarrow>
          \<lparr>rm_enced = True, rm_tierer_enced = override, rm_healed = rm_healed r, rm_talent = rm_talent r,
           rm_effect_value = rm_effect_value r + enc_factor * get_effect_value (teams ! i),
           rm_teams = map (encore_tags override i (teams ! i)) (List.enumerate 0 teams)\<rparr>)"

definition create_placeholder :: "string option \<Rightarrow> string option \<Rightarrow> player_team" where
  "create_placeholder pid name =
     \<lparr>pt_type = ''Placeholder'', pt_player_id = pid, pt_player_name = name,
      pt_team_name = (case name of None \<Rightarrow> ''Placeholder'' | Some n \<Rightarrow> n @ '' | placeholder''),
      pt_lead = 0, pt_backline = 0, pt_talent = 0, pt_tags = {''placeholder''}\<rparr>"

definition cartesian_head_teams :: "player_team list \<Rightarrow> player_team list" where
  "cartesian_head_teams teams =
     (if length teams = 0 then [create_placeholder None (Some ''Placeholder'')] else teams)"

definition effective_candidates :: "player_team list \<Rightarrow> player_team list \<Rightarrow> player_team list" where
  "effective_candidates head_teams product =
     (let candidates = filter (\<lambda>c. \<not> list_ex (\<lambda>t. create_same_player_reference t c) product)
        (cartesian_head_teams head_teams)
      in if length candidates > 0 then candidates
         else [create_placeholder (pt_player_id (hd (cartesian_head_teams head_teams)))
           (pt_player_name (hd (cartesian_head_teams head_teams)))])"

fun cartesian_room_order_teams :: "player_team list list \<Rightarrow> player_team list list" where
  "cartesian_room_order_teams [] = []"
| "cartesian_room_order_teams [head] = map (\<lambda>t. [t]) (cartesian_head_teams head)"
| "cartesian_room_order_teams (head # tail) =
     concat (map (\<lambda>product. map (\<lambda>c. c # product) (effective_candidates head product))
       (cartesian_room_order_teams tail))"

definition to_player_team :: "calculation_team \<Rightarrow> player_team" where
  "to_player_team t =
     \<lparr>pt_type = ''RunnerLocal'', pt_player_id = Some (ct_player_id t), pt_player_name = Some (ct_player_name t),
      pt_team_name = ct_team_name t, pt_lead = ct_lead t, pt_backline = ct_backline t, pt_talent = ct_talent t,
      pt_tags = set (ct_tags t @ (if ct_tierer t then [''tierer''] else []) @
        (if ct_encable t then [''encable''] else []))\<rparr>"

definition create_candidate_rooms :: "rat \<Rightarrow> player_team list list \<Rightarrow> room list" where
  "create_candidate_rooms heal_needed slots =
     filter (\<lambda>r. of_nat (rm_healed r) \<ge> heal_needed)
       (map (\<lambda>teams. apply_room_enc_and_doormat (create_base_room teams)) (cartesian_room_order_teams slots))"

fun push_increasing :: "rat option \<Rightarrow> room list \<Rightarrow> room list \<Rightarrow> room list" where
  "push_increasing best rooms [] = rooms"
| "push_increasing best rooms (r # rs) =
     (if best = None \<or> rm_effect_value r > the best
      then push_increasing (Some (rm_effect_value r)) (rooms @ [r]) rs
      else push_increasing best rooms rs)"

definition create_best_rooms :: "rat \<Rightarrow> player_team list list \<Rightarrow> room list" where
  "create_best_rooms heal_needed slots =
     rev (push_increasing None [] (sort_key room_order (create_candidate_rooms heal_needed slots)))"

definition calculate_room_order_entries ::
    "(string set \<Rightarrow> string list) \<Rightarrow> calculation_team list list \<Rightarrow> rat \<Rightarrow> rat \<Rightarrow> calculated_entry list" where
  "calculate_room_order_entries tag_order teams_by_player heal_needed hour =
     (let fixed = map (\<lambda>teams. filter_fixed_teams (map to_player_team teams)) teams_by_player in
      if fixed = [] then []
      else concat (map (\<lambda>(rank, room). map (\<lambda>(position, t).
          \<lparr>ce_rank = rank, ce_position = position, ce_hour = hour, ce_team = pt_team_name t,
           ce_tags = tag_order (pt_tags t), ce_effect_value = get_effect_value t\<rparr>)
          (List.enumerate 0 (rm_teams room)))
        (List.enumerate 0 (create_best_rooms heal_needed fixed))))"

subsection \<open>The older service\<close>

record calc_config =
  cc_heal_needed :: rat
  cc_consider_enc :: bool

definition calc_filter_fixed_teams :: "player_team list \<Rightarrow> player_team list" where
  "calc_filter_fixed_teams teams =
     (let fixed = map (\<lambda>t. if ''tierer_hint'' \<in> pt_tags t then add_tags {''tierer''} t else t)
        (filter (\<lambda>t. ''fixed'' \<in> pt_tags t) teams)
      in if length fixed > 0 then fixed else teams)"

definition calc_base_room :: "player_team list \<Rightarrow> room" where
  "calc_base_room teams =
     \<lparr>rm_enced = False, rm_tierer_enced = False,
      rm_healed = foldl (\<lambda>acc t. acc + (if ''heal'' \<in> pt_tags t then 1 else 0)) 0 teams,
      rm_talent = foldl (\<lambda>acc t. acc + pt_talent t) 0 teams,
      rm_effect_value = foldl (\<lambda>acc t. acc + get_effect_value t) 0 teams,
      rm_teams = teams\<rparr>"

definition calc_apply_room_enc_and_doormat :: "room \<Rightarrow> room" where
  "calc_apply_room_enc_and_doormat r =
     (let teams = rm_teams r;
          best = select_index (\<lambda>t. ''encable'' \<in> pt_tags t \<and> pt_talent t \<ge> tierer_talent teams)
            get_effect_value teams;
          override = (best = None \<and> select_index (\<lambda>t. ''tierer'' \<in> pt_tags t) pt_talent teams \<noteq> None);
          chosen = (if best \<noteq> None then best else select_index (\<lambda>t. ''tierer'' \<in> pt_tags t) pt_talent teams)
      in case chosen of
        None \<Rightarrow> r
      | Some (i, v) \<Rightarrow>
          \<lparr>rm_enced = True, rm_tierer_enced = override, rm_healed = rm_healed r, rm_talent = rm_talent r,
           rm_effect_value = rm_effect_value r + enc_factor * get_effect_value (teams ! i),
           rm_teams = map (encore_tags override i (teams ! i)) (List.enumerate 0 teams)\<rparr>)"

definition calc_head_teams :: "player_team list \<Rightarrow> player_team list" where
  "calc_head_teams teams =
     (case teams of
        [] \<Rightarrow> [\<lparr>pt_type = ''Placeholder'', pt_player_id = None, pt_player_name = Some ''Placeholder'',
          pt_team_name = ''Placeholder'', pt_lead = 0, pt_backline = 0, pt_talent = 0, pt_tags = {''placeholder''}\<rparr>]
      | _ \<Rightarrow> teams)"

definition calc_permitted_teams :: "player_team list \<Rightarrow> player_team list \<Rightarrow> player_team list" where
  "calc_permitted_teams head_teams product =
     (case filter (\<lambda>h. \<not> list_ex (\<lambda>t. create_same_player_reference t h) product) head_teams of
        [] \<Rightarrow> [create_placeholder (pt_player_id (hd head_teams)) (pt_player_name (hd head_teams))]
      | permitted \<Rightarrow> permitted)"

fun calc_cartesian_teams :: "player_team list list \<Rightarrow> player_team list list" where
  "calc_cartesian_teams [] = []"
| "calc_cartesian_teams [head] = map (\<lambda>t. [t]) (calc_head_teams head)"
| "calc_cartesian_teams (head # tail) =
     concat (map (\<lambda>product. map (\<lambda>h. h # product) (calc_permitted_teams (calc_head_teams head) product))
       (calc_cartesian_teams tail))"

definition calc_rooms :: "calc_config \<Rightarrow> player_team list list \<Rightarrow> room list" where
  "calc_rooms cfg slots =
     filter (\<lambda>r. of_nat (rm_healed r) \<ge> cc_heal_needed cfg)
       (map (\<lambda>teams. (if cc_consider_enc cfg then calc_apply_room_enc_and_doormat else id) (calc_base_room teams))
         (calc_cartesian_teams slots))"

definition calc :: "calc_config \<Rightarrow> player_team list list \<Rightarrow> room list" where
  "calc cfg player_teams =
     rev (push_increasing None [] (sort_key room_order (calc_rooms cfg (map calc_filter_fixed_teams player_teams))))"

subsection \<open>The shared parts\<close>

lemma filter_fixed_teams_eq: "filter_fixed_teams = fixed_teams_for"
  by (rule ext) (simp add: filter_fixed_teams_def fixed_teams_for_def Let_def)

lemma create_base_room_eq: "create_base_room = base_room"
  by (rule ext) (simp add: create_base_room_def base_room_def)

lemma select_index_eq:
  "select_index elig val ts = map_option (\<lambda>(i, t). (i, val t)) (select_first_best elig val ts)"
proof (induction ts rule: rev_induct)
  case (snoc t ts)
  then show ?case
    by (auto simp: select_index_def select_first_best_def enumerate_append_eq split: option.splits)
qed (simp add: select_index_def select_first_best_def)

lemma apply_room_enc_eq: "apply_room_enc_and_doormat = apply_encore"
proof (rule ext)
  fix r :: room
  have nth: "rm_teams r ! i = t" if "select_first_best elig val (rm_teams r) = Some (i, t)" for elig val i t
    using select_first_best_spec [where elig = elig and val = val and ts = "rm_teams r"] that by simp
  show "apply_room_enc_and_doormat r = apply_encore r"
    by (auto simp: apply_room_enc_and_doormat_def apply_encore_def Let_def select_index_eq nth
        enc_factor_def encore_factor_def split: option.splits)
qed

lemma push_increasing_picks: "push_increasing b rooms rs = rooms @ picks b rs"
  by (induction b rooms rs rule: push_increasing.induct) (auto split: option.splits)

lemma calc_parts:
  "calc_filter_fixed_teams = fixed_teams_for" "calc_base_room = base_room"
  "calc_apply_room_enc_and_doormat = apply_room_enc_and_doormat"
  by (rule ext, simp add: calc_filter_fixed_teams_def fixed_teams_for_def Let_def)
    (rule ext, simp add: calc_base_room_def base_room_def,
     rule ext, auto simp: calc_apply_room_enc_and_doormat_def apply_room_enc_and_doormat_def Let_def
       split: option.splits)

subsection \<open>Slots without shared players\<close>

definition no_shared_players :: "player_team list list \<Rightarrow> bool" where
  "no_shared_players slots \<longleftrightarrow>
     sorted_wrt (\<lambda>s s'. \<forall>t \<in> set s. \<forall>u \<in> set s'. \<not> same_player_reference t u) slots"

definition takes_each :: "player_team list \<Rightarrow> player_team list list \<Rightarrow> bool" where
  "takes_each = list_all2 (\<lambda>t slot. t \<in> set slot)"

lemma takes_each_member: "takes_each p slots \<Longrightarrow> t \<in> set p \<Longrightarrow> \<exists>s \<in> set slots. t \<in> set s"
  unfolding takes_each_def by (induction p slots rule: list_all2_induct) auto

lemma takes_each_snoc: "takes_each p (slots @ [slot]) \<longleftrightarrow> (\<exists>q c. p = q @ [c] \<and> takes_each q slots \<and> c \<in> set slot)"
proof
  show "\<exists>q c. p = q @ [c] \<and> takes_each q slots \<and> c \<in> set slot" if "takes_each p (slots @ [slot])"
    using that by (auto simp: takes_each_def list_all2_append2 list_all2_Cons2)
  show "takes_each p (slots @ [slot])" if "\<exists>q c. p = q @ [c] \<and> takes_each q slots \<and> c \<in> set slot"
    using that by (auto simp: takes_each_def intro!: list_all2_appendI)
qed

lemma same_reference_sym: "same_player_reference t u = same_player_reference u t"
  by (auto simp: same_player_reference_def)

lemma create_same_eq: "create_same_player_reference = same_player_reference"
  by (intro ext) (simp add: create_same_player_reference_def same_player_reference_def)

lemma permitted_all:
  assumes "slot \<noteq> []" and "\<forall>t \<in> set product. \<forall>c \<in> set slot. \<not> same_player_reference t c"
  shows "permitted_teams slot product = slot" and "effective_candidates slot product = slot"
    and "calc_permitted_teams (calc_head_teams slot) product = slot"
proof -
  have "filter (\<lambda>c. \<not> list_ex (\<lambda>t. same_player_reference t c) product) slot = slot"
    using assms(2) by (auto simp: list_ex_iff filter_id_conv)
  moreover have "calc_head_teams slot = slot" using assms(1) by (simp add: calc_head_teams_def split: list.split)
  ultimately show "permitted_teams slot product = slot" "effective_candidates slot product = slot"
    "calc_permitted_teams (calc_head_teams slot) product = slot"
    unfolding calc_permitted_teams_def create_same_eq using assms(1)
    by (simp_all add: permitted_teams_def slot_candidates_def Let_def effective_candidates_def
        cartesian_head_teams_def create_same_eq split: list.split)
qed

lemma forward_products:
  assumes "no_shared_players slots" and "[] \<notin> set slots"
  shows "set (foldl extend_products [[]] slots) = {p. takes_each p slots}"
  using assms
proof (induction slots rule: rev_induct)
  case Nil
  then show ?case by (auto simp: takes_each_def)
next
  case (snoc slot slots)
  have IH: "set (foldl extend_products [[]] slots) = {p. takes_each p slots}"
    using snoc by (simp add: no_shared_players_def sorted_wrt_append)
  have "permitted_teams slot p = slot" if "takes_each p slots" for p
    using snoc.prems takes_each_member [OF that]
    by (intro permitted_all) (fastforce simp: no_shared_players_def sorted_wrt_append)+
  then have "set (foldl extend_products [[]] (slots @ [slot])) =
      {p @ [c] |p c. takes_each p slots \<and> c \<in> set slot}"
    by (auto simp: in_extend_products IH)
  also have "\<dots> = {p. takes_each p (slots @ [slot])}"
    by (auto simp: takes_each_snoc)
  finally show ?case .
qed

lemma backward_products:
  assumes "no_shared_players slots" and "[] \<notin> set slots" and "slots \<noteq> []"
  shows "set (cartesian_room_order_teams slots) = {p. takes_each p slots}"
    and "set (calc_cartesian_teams slots) = {p. takes_each p slots}"
proof -
  have "set (cartesian_room_order_teams slots) = {p. takes_each p slots} \<and>
      set (calc_cartesian_teams slots) = {p. takes_each p slots}"
    using assms
  proof (induction slots rule: cartesian_room_order_teams.induct)
    case (2 slot)
    then show ?case
      by (auto simp: takes_each_def list_all2_Cons2 cartesian_head_teams_def calc_head_teams_def split: list.splits)
  next
    case (3 slot s slots)
    let ?tail = "s # slots"
    have IH: "set (cartesian_room_order_teams ?tail) = {p. takes_each p ?tail}"
      "set (calc_cartesian_teams ?tail) = {p. takes_each p ?tail}"
      using 3 by (auto simp: no_shared_players_def)
    have "\<not> same_player_reference t c" if "takes_each p ?tail" "t \<in> set p" "c \<in> set slot" for p t c
      using 3(2) takes_each_member [OF that(1,2)] that(3)
      by (auto simp: no_shared_players_def same_reference_sym [of t c])
    then have "effective_candidates slot p = slot \<and> calc_permitted_teams (calc_head_teams slot) p = slot"
      if "takes_each p ?tail" for p
      using that 3(3) by (auto intro!: permitted_all)
    then have "set (cartesian_room_order_teams (slot # ?tail)) = {c # p |p c. takes_each p ?tail \<and> c \<in> set slot} \<and>
        set (calc_cartesian_teams (slot # ?tail)) = {c # p |p c. takes_each p ?tail \<and> c \<in> set slot}"
      using IH by auto
    also have "{c # p |p c. takes_each p ?tail \<and> c \<in> set slot} = {p. takes_each p (slot # ?tail)}"
      by (auto simp: takes_each_def list_all2_Cons2)
    finally show ?case by simp
  qed simp
  then show "set (cartesian_room_order_teams slots) = {p. takes_each p slots}"
    and "set (calc_cartesian_teams slots) = {p. takes_each p slots}" by simp_all
qed

subsection \<open>The three calculators\<close>

definition room_value :: "room \<Rightarrow> rat \<times> rat" where
  "room_value r = (rm_talent r, rm_effect_value r)"

definition on_frontier :: "(rat \<times> rat) set \<Rightarrow> rat \<times> rat \<Rightarrow> bool" where
  "on_frontier V v \<longleftrightarrow> v \<in> V \<and> (\<forall>w \<in> V. fst w \<le> fst v \<longrightarrow> snd w \<le> snd v) \<and>
     (\<forall>w \<in> V. snd v \<le> snd w \<longrightarrow> fst v \<le> fst w)"

lemma picks_values:
  assumes "sorted (map room_order rs)"
  shows "room_value ` set (picks None rs) = {v. on_frontier (room_value ` set rs) v}"
proof (intro subset_antisym subsetI)
  fix v assume "v \<in> room_value ` set (picks None rs)"
  then obtain r where r: "r \<in> set (picks None rs)" "v = room_value r" by blast
  have "rm_talent r \<le> rm_talent c" if c: "c \<in> set rs" "rm_effect_value r \<le> rm_effect_value c" for c
  proof (rule ccontr)
    assume less: "\<not> rm_talent r \<le> rm_talent c"
    obtain s where s: "s \<in> set (picks None rs)" "rm_talent s \<le> rm_talent c" "rm_effect_value c \<le> rm_effect_value s"
      using picks_cover [OF assms c(1), of None] by auto
    obtain i j where "i < length (picks None rs)" "j < length (picks None rs)"
      "picks None rs ! i = r" "picks None rs ! j = s"
      using r(1) s(1) by (metis in_set_conv_nth)
    then show False
      using picks_increasing [of None rs] picks_talent [OF assms, of None] s less c(2)
      by (cases i j rule: linorder_cases) (force simp: sorted_wrt_iff_nth_less)+
  qed
  then show "v \<in> {v. on_frontier (room_value ` set rs) v}"
    using r picks_subset [of None rs] picks_undominated [OF assms r(1)]
    by (auto simp: on_frontier_def room_value_def)
next
  fix v assume "v \<in> {v. on_frontier (room_value ` set rs) v}"
  then obtain c where c: "c \<in> set rs" "v = room_value c" "on_frontier (room_value ` set rs) (room_value c)"
    by (auto simp: on_frontier_def)
  obtain s where s: "s \<in> set (picks None rs)" "rm_talent s \<le> rm_talent c" "rm_effect_value c \<le> rm_effect_value s"
    using picks_cover [OF assms c(1), of None] by auto
  then have "s \<in> set rs" using picks_subset [of None rs] by auto
  with c(3) s have "room_value s = room_value c"
    by (auto simp: on_frontier_def room_value_def intro: antisym)
  with s(1) c(2) show "v \<in> room_value ` set (picks None rs)" by (metis imageI)
qed

lemma picks_determined:
  assumes "sorted (map room_order rs)" and "sorted (map room_order rs')"
    and "room_value ` set rs = room_value ` set rs'"
  shows "map room_value (picks None rs) = map room_value (picks None rs')"
proof (rule sorted_distinct_set_unique)
  have ordered: "sorted (map room_value (picks None xs)) \<and> distinct (map room_value (picks None xs))"
    if "sorted (map room_order xs)" for xs
  proof -
    have "sorted_wrt (\<lambda>r s. rm_talent r < rm_talent s) (picks None xs)"
      by (rule picks_talent [OF that])
    then have "sorted_wrt (<) (map room_value (picks None xs))"
      by (auto simp: sorted_wrt_map room_value_def less_prod_def elim: sorted_wrt_mono_rel [rotated])
    then show ?thesis using strict_sorted_iff by blast
  qed
  show "sorted (map room_value (picks None rs))" "distinct (map room_value (picks None rs))"
    "sorted (map room_value (picks None rs'))" "distinct (map room_value (picks None rs'))"
    using ordered assms(1,2) by blast+
  show "set (map room_value (picks None rs)) = set (map room_value (picks None rs'))"
    using picks_values [OF assms(1)] picks_values [OF assms(2)] assms(3) by simp
qed

lemma candidates_determined:
  assumes "set teams = set teams'" and "cfg_consider_enc cfg"
  shows "room_value ` set (candidate_rooms cfg teams) =
    room_value ` set (filter (\<lambda>r. of_nat (rm_healed r) \<ge> cfg_heal_needed cfg)
       (map (\<lambda>ts. apply_encore (base_room ts)) teams'))"
  using assms by (auto simp: candidate_rooms_def)



definition shared_player_slots :: "player_team list list" where
  "shared_player_slots =
     [[sample_team ''a'' ''weak'' 10 100 {}], [sample_team ''a'' ''strong'' 50 200 {}]]"

text \<open>Where the calculators differ: for a player offered in two slots the sheet calculation takes the
  team of the first slot, the room-order calculation and the older service that of the last, so
  they give rooms of different talent and effect.\<close>

theorem calculators_differ_on_shared_player:
  "map_option (map room_value) (best_rooms sample_config shared_player_slots) = Some [(100, 10)] \<and>
   map room_value (create_best_rooms 0 shared_player_slots) = [(200, 50)] \<and>
   map room_value (calc \<lparr>cc_heal_needed = 0, cc_consider_enc = True\<rparr> shared_player_slots) = [(200, 50)]"
proof -
  let ?products = "foldl extend_products [[]] shared_player_slots"
  have "cartesian_teams shared_player_slots = Some ?products"
    using candidate_product_eq [of 1 shared_player_slots]
    by (simp add: cartesian_teams_def maximum_calculation_room_candidates_def shared_player_slots_def slot_size_def)
  moreover have v: "map room_value (rev (picks None (sort_key room_order
      (candidate_rooms sample_config ?products)))) = [(100, 10)]"
    by code_simp
  moreover have "length (picks None (sort_key room_order (candidate_rooms sample_config ?products))) = 1"
    using arg_cong [OF v, of length] by simp
  ultimately have "map_option (map room_value) (best_rooms sample_config shared_player_slots) = Some [(100, 10)]"
    by (simp add: best_rooms_def increasing_rooms_picks best_effect_def maximum_calculation_room_frontier_def)
  moreover have "map room_value (create_best_rooms 0 shared_player_slots) = [(200, 50)]"
    "map room_value (calc \<lparr>cc_heal_needed = 0, cc_consider_enc = True\<rparr> shared_player_slots) = [(200, 50)]"
    by code_simp+
  ultimately show ?thesis by blast
qed

end
