(* ===== verification/SubmissionTypes.thy ===== *)
theory SubmissionTypes
  imports Prelude
begin

text \<open>
  The data of team submissions (\<open>sheet-ingress-api/src/schemas/teamSubmission\<close> and \<open>sheet-domain\<close>): the
  entries parsed from a message, where they were written in the sheet, and the snapshot a rollback
  restores. Free text (player names, cells of a sheet) is a list of UTF-16 code units; ids and ranges
  are strings.
\<close>

type_synonym js_text = "nat list"

definition js_text :: "string \<Rightarrow> js_text" where
  "js_text s = map of_char s"

lemma js_text_append [simp]: "js_text (s @ t) = js_text s @ js_text t"
  by (simp add: js_text_def)

lemma js_text_Nil [simp]: "js_text [] = []"
  by (simp add: js_text_def)

lemma js_text_inject: "js_text s = js_text t \<longleftrightarrow> s = t"
  by (auto simp: js_text_def inj_map_eq_map inj_def)

datatype parsed_team_type = FullFill | Heal | Encore | AltTeam

datatype parsed_oshi_status = OshiNone | OshiMatched | OshiInvalid | OshiAmbiguous | OshiNotConfigured

record parsed_oshi =
  po_candidate :: "js_text option"
  po_value :: "js_text option"
  po_status :: parsed_oshi_status

record parsed_team_entry =
  pe_stable_key :: string
  pe_player_name :: js_text
  pe_team_name :: js_text
  pe_team_type :: parsed_team_type
  pe_notes :: "js_text list"
  pe_team_config_name :: "js_text option"
  pe_oshi :: parsed_oshi

record row_target =
  rt_row_index :: nat
  rt_player_name_range :: string
  rt_team_name_range :: string
  rt_oshi_range :: "string option"

record row_mapping =
  rm_stable_key :: string
  rm_target :: row_target

record rollback_entry =
  rb_stable_key :: string
  rb_range :: string
  rb_values :: "js_text list list"

record skipped_entry =
  sk_stable_key :: string
  sk_player_name :: js_text
  sk_team_name :: js_text
  sk_team_type :: parsed_team_type
  sk_reason :: js_text

record sheet_update =
  su_range :: string
  su_values :: "js_text list list"

datatype submission_status =
    SubRegistered | SubUpdated | SubEmpty | SubFailed | SubApplying | SubReverting
  | SubConfirmed | SubRejected | SubRollbackFailed

end
