(* ===== verification/Regex.thy ===== *)
theory Regex
  imports Main
begin

text \<open>
  The regular expressions of JavaScript, as far as the code uses them: a backtracking matcher that
  lists the ways to match at a position in the order the language tries them, so that the head of
  the list is the match \<open>exec\<close> returns. Greedy and lazy iteration are kept apart, an iteration that
  consumes nothing is abandoned, and assertions (\<open>^\<close>, \<open>$\<close>, \<open>\b\<close>, a lookahead on one character) see the
  characters around the position. A capture group inside an iteration, which the language resets,
  does not occur in the code. Characters are of any type.
\<close>

subsection \<open>Expressions\<close>

datatype 'c rx =
    RxEmpty
  | RxChar "'c \<Rightarrow> bool"
  | RxAt "'c option \<Rightarrow> 'c option \<Rightarrow> bool"
  | RxSeq "'c rx" "'c rx"
  | RxAlt "'c rx" "'c rx"
  | RxStar "'c rx"
  | RxLazy "'c rx"
  | RxGroup nat "'c rx"

definition rx_is :: "'c \<Rightarrow> 'c rx" where "rx_is c = RxChar (\<lambda>x. x = c)"
definition rx_any :: "'c rx" where "rx_any = RxChar (\<lambda>_. True)"
definition rx_plus :: "'c rx \<Rightarrow> 'c rx" where "rx_plus r = RxSeq r (RxStar r)"
definition rx_lazy_plus :: "'c rx \<Rightarrow> 'c rx" where "rx_lazy_plus r = RxSeq r (RxLazy r)"
definition rx_optional :: "'c rx \<Rightarrow> 'c rx" where "rx_optional r = RxAlt r RxEmpty"
definition rx_start :: "'c rx" where "rx_start = RxAt (\<lambda>p n. p = None)"
definition rx_end :: "'c rx" where "rx_end = RxAt (\<lambda>p n. n = None)"

fun rx_seq :: "'c rx list \<Rightarrow> 'c rx" where
  "rx_seq [] = RxEmpty"
| "rx_seq [r] = r"
| "rx_seq (r # rs) = RxSeq r (rx_seq rs)"

fun rx_alt :: "'c rx list \<Rightarrow> 'c rx" where
  "rx_alt [] = RxChar (\<lambda>_. False)"
| "rx_alt [r] = r"
| "rx_alt (r # rs) = RxAlt r (rx_alt rs)"

fun rx_between :: "nat \<Rightarrow> nat \<Rightarrow> 'c rx \<Rightarrow> 'c rx" where
  "rx_between (Suc m) n r = RxSeq r (rx_between m (n - 1) r)"
| "rx_between 0 (Suc n) r = rx_optional (RxSeq r (rx_between 0 n r))"
| "rx_between 0 0 r = RxEmpty"

subsection \<open>Matching\<close>

text \<open>A position: the character before it, the text after it, and the groups captured so far.\<close>

type_synonym 'c rx_groups = "(nat \<times> 'c list) list"
type_synonym 'c rx_position = "'c option \<times> 'c list \<times> 'c rx_groups"

function rx_run :: "'c rx \<Rightarrow> 'c rx_position \<Rightarrow> 'c rx_position list" where
  "rx_run RxEmpty (p, s, g) = [(p, s, g)]"
| "rx_run (RxChar f) (p, s, g) =
     (case s of [] \<Rightarrow> [] | c # t \<Rightarrow> if f c then [(Some c, t, g)] else [])"
| "rx_run (RxAt f) (p, s, g) =
     (if f p (case s of [] \<Rightarrow> None | c # _ \<Rightarrow> Some c) then [(p, s, g)] else [])"
| "rx_run (RxSeq a b) (p, s, g) = concat (map (rx_run b) (rx_run a (p, s, g)))"
| "rx_run (RxAlt a b) (p, s, g) = rx_run a (p, s, g) @ rx_run b (p, s, g)"
| "rx_run (RxStar r) (p, s, g) =
     concat (map (\<lambda>(p', s', g'). if length s' < length s then rx_run (RxStar r) (p', s', g') else [])
       (rx_run r (p, s, g))) @ [(p, s, g)]"
| "rx_run (RxLazy r) (p, s, g) =
     (p, s, g) # concat (map (\<lambda>(p', s', g'). if length s' < length s then rx_run (RxLazy r) (p', s', g') else [])
       (rx_run r (p, s, g)))"
| "rx_run (RxGroup n r) (p, s, g) =
     map (\<lambda>(p', s', g'). (p', s', (n, take (length s - length s') s) # g')) (rx_run r (p, s, g))"
  by pat_completeness auto
termination
  by (relation "measures [\<lambda>(r, _). size r, \<lambda>(_, _, s, _). length s]") auto

declare rx_run.simps(6,7) [simp del]

text \<open>
  \<open>exec\<close> without flags, from a position on: what is skipped, what is matched, the groups, and the rest.
\<close>

type_synonym 'c rx_found = "'c list \<times> 'c list \<times> 'c rx_groups \<times> 'c list"

definition rx_here :: "'c rx \<Rightarrow> 'c option \<Rightarrow> 'c list \<Rightarrow> 'c rx_found option" where
  "rx_here r p s =
     (case rx_run r (p, s, []) of
        [] \<Rightarrow> None
      | (_, t, g) # _ \<Rightarrow> Some ([], take (length s - length t) s, g, t))"

fun rx_search :: "'c rx \<Rightarrow> 'c option \<Rightarrow> 'c list \<Rightarrow> 'c rx_found option" where
  "rx_search r p [] = rx_here r p []"
| "rx_search r p (c # s) =
     (case rx_here r p (c # s) of
        Some m \<Rightarrow> Some m
      | None \<Rightarrow> map_option (\<lambda>(skipped, m, g, rest). (c # skipped, m, g, rest)) (rx_search r (Some c) s))"

definition rx_exec :: "'c rx \<Rightarrow> 'c list \<Rightarrow> 'c rx_found option" where
  "rx_exec r s = rx_search r None s"

definition rx_test :: "'c rx \<Rightarrow> 'c list \<Rightarrow> bool" where
  "rx_test r s \<longleftrightarrow> rx_exec r s \<noteq> None"

definition rx_group :: "'c rx_groups \<Rightarrow> nat \<Rightarrow> 'c list option" where
  "rx_group g n = map_of g n"

subsection \<open>What a match is\<close>

lemma in_rx_star:
  "x \<in> set (rx_run (RxStar r) (p, s, g)) \<longleftrightarrow> x = (p, s, g) \<or>
     (\<exists>p' s' g'. (p', s', g') \<in> set (rx_run r (p, s, g)) \<and> length s' < length s \<and>
        x \<in> set (rx_run (RxStar r) (p', s', g')))"
  by (subst rx_run.simps(6)) (auto split: if_splits)

lemma in_rx_lazy:
  "x \<in> set (rx_run (RxLazy r) (p, s, g)) \<longleftrightarrow> x = (p, s, g) \<or>
     (\<exists>p' s' g'. (p', s', g') \<in> set (rx_run r (p, s, g)) \<and> length s' < length s \<and>
        x \<in> set (rx_run (RxLazy r) (p', s', g')))"
  by (subst rx_run.simps(7)) (auto split: if_splits)

lemma rx_run_suffix:
  "(p', s', g') \<in> set (rx_run r (p, s, g)) \<Longrightarrow>
     \<exists>m. s = m @ s' \<and> p' = (if m = [] then p else Some (last m))"
proof (induction r "(p, s, g)" arbitrary: p s g p' s' g' rule: rx_run.induct)
  case (4 a b p s g)
  then obtain p1 s1 g1 where a: "(p1, s1, g1) \<in> set (rx_run a (p, s, g))"
    and b: "(p', s', g') \<in> set (rx_run b (p1, s1, g1))" by auto
  from 4(1) [OF a] obtain m where m: "s = m @ s1" "p1 = (if m = [] then p else Some (last m))" by blast
  from 4(2) [OF a b] obtain n where n: "s1 = n @ s'" "p' = (if n = [] then p1 else Some (last n))" by blast
  have "s = (m @ n) @ s'" "p' = (if m @ n = [] then p else Some (last (m @ n)))"
    using m n by auto
  then show ?case by blast
next
  case (6 r p s g)
  show ?case
  proof (cases "(p', s', g') = (p, s, g)")
    case False
    with iffD1 [OF in_rx_star 6(3)] obtain p1 s1 g1 where a: "(p1, s1, g1) \<in> set (rx_run r (p, s, g))" "length s1 < length s"
      and b: "(p', s', g') \<in> set (rx_run (RxStar r) (p1, s1, g1))"
      by blast
    from 6(1) [OF a(1)] obtain m where m: "s = m @ s1" "p1 = (if m = [] then p else Some (last m))" by blast
    from 6(2) [OF a(1) refl _ a(2) b] obtain n where n: "s1 = n @ s'" "p' = (if n = [] then p1 else Some (last n))"
      by blast
    have "s = (m @ n) @ s'" "p' = (if m @ n = [] then p else Some (last (m @ n)))"
      using m n by auto
    then show ?thesis by blast
  qed auto
next
  case (7 r p s g)
  show ?case
  proof (cases "(p', s', g') = (p, s, g)")
    case False
    with iffD1 [OF in_rx_lazy 7(3)] obtain p1 s1 g1 where a: "(p1, s1, g1) \<in> set (rx_run r (p, s, g))" "length s1 < length s"
      and b: "(p', s', g') \<in> set (rx_run (RxLazy r) (p1, s1, g1))"
      by blast
    from 7(1) [OF a(1)] obtain m where m: "s = m @ s1" "p1 = (if m = [] then p else Some (last m))" by blast
    from 7(2) [OF a(1) refl _ a(2) b] obtain n where n: "s1 = n @ s'" "p' = (if n = [] then p1 else Some (last n))"
      by blast
    have "s = (m @ n) @ s'" "p' = (if m @ n = [] then p else Some (last (m @ n)))"
      using m n by auto
    then show ?thesis by blast
  qed auto
next
  case (8 n r p s g)
  from 8(2) obtain g1 where "(p', s', g1) \<in> set (rx_run r (p, s, g))" by auto
  then show ?case by (rule 8(1))
next
  case (5 a b p s g)
  then show ?case by (metis UnE rx_run.simps(5) set_append)
next
  case (2 f p s g)
  then show ?case by (cases s) (auto split: if_splits intro!: exI [of _ "[hd s]"])
qed (simp_all split: if_splits)

lemma rx_here_parts: "rx_here r p s = Some (skipped, m, g, rest) \<Longrightarrow> s = skipped @ m @ rest"
proof -
  assume a: "rx_here r p s = Some (skipped, m, g, rest)"
  then obtain q t x xs where r: "rx_run r (p, s, []) = (q, t, x) # xs"
    and m: "skipped = []" "m = take (length s - length t) s" "rest = t"
    by (auto simp: rx_here_def split: list.splits)
  from r have "(q, t, x) \<in> set (rx_run r (p, s, []))" by simp
  from rx_run_suffix [OF this] obtain u where "s = u @ t" by blast
  then show ?thesis using m by simp
qed

lemma rx_search_parts: "rx_search r p s = Some (skipped, m, g, rest) \<Longrightarrow> s = skipped @ m @ rest"
proof (induction s arbitrary: p skipped)
  case Nil
  then show ?case by (auto dest: rx_here_parts)
next
  case (Cons c s)
  then show ?case by (fastforce split: option.splits dest: rx_here_parts)
qed

subsection \<open>Replacing and splitting\<close>

text \<open>\<open>replace\<close> without flags replaces the first match; with the flag \<open>g\<close> all matches.\<close>

definition rx_replace :: "'c rx \<Rightarrow> ('c list \<Rightarrow> 'c rx_groups \<Rightarrow> 'c list) \<Rightarrow> 'c list \<Rightarrow> 'c list" where
  "rx_replace r f s =
     (case rx_exec r s of None \<Rightarrow> s | Some (skipped, m, g, rest) \<Rightarrow> skipped @ f m g @ rest)"

function rx_replace_from :: "'c rx \<Rightarrow> ('c list \<Rightarrow> 'c rx_groups \<Rightarrow> 'c list) \<Rightarrow> 'c option \<Rightarrow> 'c list \<Rightarrow> 'c list" where
  "rx_replace_from r f p s =
     (case rx_search r p s of
        None \<Rightarrow> s
      | Some (skipped, m, g, rest) \<Rightarrow>
          skipped @ f m g @
          (if m \<noteq> [] then rx_replace_from r f (Some (last m)) rest
           else case rest of [] \<Rightarrow> [] | c # t \<Rightarrow> c # rx_replace_from r f (Some c) t))"
  by pat_completeness auto
termination
  by (relation "measure (\<lambda>(_, _, _, s). length s)") (auto dest!: rx_search_parts)

declare rx_replace_from.simps [simp del]

definition rx_replace_all :: "'c rx \<Rightarrow> ('c list \<Rightarrow> 'c rx_groups \<Rightarrow> 'c list) \<Rightarrow> 'c list \<Rightarrow> 'c list" where
  "rx_replace_all r f s = rx_replace_from r f None s"

text \<open>\<open>matchAll\<close>: the matched texts with their groups, from left to right.\<close>

function rx_all_from :: "'c rx \<Rightarrow> 'c option \<Rightarrow> 'c list \<Rightarrow> ('c list \<times> 'c rx_groups) list" where
  "rx_all_from r p s =
     (case rx_search r p s of
        None \<Rightarrow> []
      | Some (skipped, m, g, rest) \<Rightarrow>
          (m, g) #
          (if m \<noteq> [] then rx_all_from r (Some (last m)) rest
           else case rest of [] \<Rightarrow> [] | c # t \<Rightarrow> rx_all_from r (Some c) t))"
  by pat_completeness auto
termination
  by (relation "measure (\<lambda>(_, _, s). length s)") (auto dest!: rx_search_parts)

declare rx_all_from.simps [simp del]

definition rx_match_all :: "'c rx \<Rightarrow> 'c list \<Rightarrow> ('c list \<times> 'c rx_groups) list" where
  "rx_match_all r s = rx_all_from r None s"

text \<open>\<open>split\<close> by an expression that never matches the empty text.\<close>

function rx_split_from :: "'c rx \<Rightarrow> 'c option \<Rightarrow> 'c list \<Rightarrow> 'c list list" where
  "rx_split_from r p s =
     (case rx_search r p s of
        None \<Rightarrow> [s]
      | Some (skipped, m, g, rest) \<Rightarrow>
          if m = [] then [s] else skipped # rx_split_from r (Some (last m)) rest)"
  by pat_completeness auto
termination
  by (relation "measure (\<lambda>(_, _, s). length s)") (auto dest!: rx_search_parts)

declare rx_split_from.simps [simp del]

definition rx_split :: "'c rx \<Rightarrow> 'c list \<Rightarrow> 'c list list" where
  "rx_split r s = rx_split_from r None s"

subsection \<open>All matches\<close>

lemma in_rx_seq: "z \<in> set (rx_run (RxSeq a b) x) \<longleftrightarrow> (\<exists>y \<in> set (rx_run a x). z \<in> set (rx_run b y))"
  by (cases x) auto

lemma in_rx_alt: "z \<in> set (rx_run (RxAlt a b) x) \<longleftrightarrow> z \<in> set (rx_run a x) \<or> z \<in> set (rx_run b x)"
  by (cases x) auto

lemma in_rx_star_chars:
  "(p', s', g') \<in> set (rx_run (RxStar (RxChar f)) (p, s, g)) \<Longrightarrow> g' = g \<and> (\<exists>m. s = m @ s' \<and> list_all f m)"
proof (induction s arbitrary: p)
  case Nil
  from iffD1 [OF in_rx_star Nil] show ?case by simp
next
  case (Cons c s)
  show ?case
  proof (cases "(p', s', g') = (p, c # s, g)")
    case False
    with iffD1 [OF in_rx_star Cons.prems] have c: "f c"
      and "(p', s', g') \<in> set (rx_run (RxStar (RxChar f)) (Some c, s, g))"
      by (auto split: if_splits)
    from Cons.IH [OF this(2)] obtain m where "g' = g" "s = m @ s'" "list_all f m" by blast
    then show ?thesis using c by (intro conjI exI [of _ "c # m"]) auto
  qed auto
qed

lemma in_rx_plus_chars:
  "(p', s', g') \<in> set (rx_run (rx_plus (RxChar f)) (p, s, g)) \<Longrightarrow>
     g' = g \<and> (\<exists>m. s = m @ s' \<and> m \<noteq> [] \<and> list_all f m)"
  unfolding rx_plus_def in_rx_seq
  by (fastforce split: list.splits if_splits dest: in_rx_star_chars)

lemma rx_here_run: "rx_here r p s = Some (skipped, m, g, rest) \<Longrightarrow> \<exists>q. (q, rest, g) \<in> set (rx_run r (p, s, []))"
  by (auto simp: rx_here_def split: list.splits)

lemma rx_search_run:
  "rx_search r p s = Some (skipped, m, g, rest) \<Longrightarrow> \<exists>q p' s'. (q, rest, g) \<in> set (rx_run r (p', s', []))"
proof (induction s arbitrary: p skipped)
  case Nil
  then show ?case using rx_here_run by fastforce
next
  case (Cons c s)
  then show ?case using rx_here_run [of r p "c # s"] by (fastforce split: option.splits)
qed

lemma rx_exec_run:
  "rx_exec r s = Some (skipped, m, g, rest) \<Longrightarrow> \<exists>q p' s'. (q, rest, g) \<in> set (rx_run r (p', s', []))"
  unfolding rx_exec_def by (rule rx_search_run)

subsection \<open>First matches\<close>

text \<open>\<open>first_run r x y\<close>: the match tried first from \<open>x\<close> ends at \<open>y\<close>.\<close>

definition first_run :: "'c rx \<Rightarrow> 'c rx_position \<Rightarrow> 'c rx_position \<Rightarrow> bool" where
  "first_run r x y \<longleftrightarrow> (\<exists>ys. rx_run r x = y # ys)"

lemma first_run_here:
  "first_run r (p, s, []) (q, t, g) \<Longrightarrow> rx_here r p s = Some ([], take (length s - length t) s, g, t)"
  by (auto simp: first_run_def rx_here_def)

lemma first_run_exec:
  "first_run r (None, s, []) (q, t, g) \<Longrightarrow> rx_exec r s = Some ([], take (length s - length t) s, g, t)"
  unfolding rx_exec_def by (cases s) (simp_all add: first_run_here)

lemma first_run_empty: "first_run RxEmpty (p, s, g) (p, s, g)"
  by (simp add: first_run_def)

lemma first_run_char: "f c \<Longrightarrow> first_run (RxChar f) (p, c # s, g) (Some c, s, g)"
  by (simp add: first_run_def)

lemma first_run_is: "first_run (rx_is c) (p, c # s, g) (Some c, s, g)"
  by (simp add: first_run_def rx_is_def)

lemma first_run_start: "first_run rx_start (None, s, g) (None, s, g)"
  by (simp add: first_run_def rx_start_def)

lemma first_run_end: "first_run rx_end (p, [], g) (p, [], g)"
  by (simp add: first_run_def rx_end_def)

lemma first_run_seq:
  "first_run a x y \<Longrightarrow> first_run b y z \<Longrightarrow> first_run (RxSeq a b) x z"
  by (cases x) (auto simp: first_run_def)

lemma first_run_left: "first_run a x y \<Longrightarrow> first_run (RxAlt a b) x y"
  by (cases x) (auto simp: first_run_def)

lemma first_run_right: "rx_run a x = [] \<Longrightarrow> first_run b x y \<Longrightarrow> first_run (RxAlt a b) x y"
  by (cases x) (auto simp: first_run_def)

lemma first_run_group:
  "first_run r (p, s, g) (p', t, g') \<Longrightarrow>
     first_run (RxGroup n r) (p, s, g) (p', t, (n, take (length s - length t) s) # g')"
  by (auto simp: first_run_def)

lemma first_run_star_stop: "rx_run r (p, s, g) = [] \<Longrightarrow> first_run (RxStar r) (p, s, g) (p, s, g)"
  by (simp add: first_run_def rx_run.simps(6))

lemma first_run_star_step:
  "first_run r (p, s, g) (p', s', g') \<Longrightarrow> length s' < length s \<Longrightarrow>
   first_run (RxStar r) (p', s', g') z \<Longrightarrow> first_run (RxStar r) (p, s, g) z"
  unfolding first_run_def by (subst rx_run.simps(6)) auto

text \<open>A greedy iteration of one character class takes all it can.\<close>

lemma first_run_star_chars:
  "list_all f m \<Longrightarrow> (case s of [] \<Rightarrow> True | c # _ \<Rightarrow> \<not> f c) \<Longrightarrow>
   first_run (RxStar (RxChar f)) (p, m @ s, g) (if m = [] then p else Some (last m), s, g)"
proof (induction m arbitrary: p)
  case Nil
  then show ?case by (cases s) (auto intro!: first_run_star_stop)
next
  case (Cons c m)
  have "first_run (RxStar (RxChar f)) (Some c, m @ s, g) (if m = [] then Some c else Some (last m), s, g)"
    using Cons by simp
  then show ?case
    using Cons.prems by (auto intro!: first_run_star_step [OF first_run_char [of f c]])
qed

lemma first_run_plus_chars:
  assumes "list_all f m" and "m \<noteq> []" and "case s of [] \<Rightarrow> True | c # _ \<Rightarrow> \<not> f c"
  shows "first_run (rx_plus (RxChar f)) (p, m @ s, g) (Some (last m), s, g)"
proof (cases m)
  case (Cons c m')
  have "first_run (RxStar (RxChar f)) (Some c, m' @ s, g) (if m' = [] then Some c else Some (last m'), s, g)"
    by (rule first_run_star_chars) (use assms Cons in auto)
  then have "first_run (RxSeq (RxChar f) (RxStar (RxChar f))) (p, c # m' @ s, g)
      (if m' = [] then Some c else Some (last m'), s, g)"
    using assms(1) Cons by (intro first_run_seq [OF first_run_char]) auto
  then show ?thesis using Cons by (auto simp: rx_plus_def split: if_splits)
qed (use assms in simp)

end
