(* ===== verification/SubmissionText.thy ===== *)
theory SubmissionText
  imports SubmissionTypes Regex "HOL-Library.Sublist"
begin

text \<open>
  Reading teams from the text of a message (\<open>sheet-workflows/src/workflows/teamSubmissions/pure.ts\<close>).
  Text is a list of UTF-16 code units; the expressions without the flag \<open>u\<close> match code units and the
  ones with it code points. What depends on the Unicode tables (lower case, NFKC, the classes of
  letters, numbers and pictographs) is a parameter.
\<close>

record unicode =
  un_lower :: "js_text \<Rightarrow> js_text"
  un_nfkc :: "js_text \<Rightarrow> js_text"
  un_letter_or_number :: "nat \<Rightarrow> bool"
  un_pictographic :: "nat \<Rightarrow> bool"

subsection \<open>Characters\<close>

definition js_spaces :: "nat list" where
  "js_spaces = [9, 10, 11, 12, 13, 32, 160, 5760, 8192, 8193, 8194, 8195, 8196, 8197, 8198, 8199, 8200,
     8201, 8202, 8232, 8233, 8239, 8287, 12288, 65279]"

definition is_space :: "nat \<Rightarrow> bool" where
  "is_space c \<longleftrightarrow> c \<in> set js_spaces"

definition text_trim :: "js_text \<Rightarrow> js_text" where
  "text_trim s = rev (dropWhile is_space (rev (dropWhile is_space s)))"

definition between :: "char \<Rightarrow> char \<Rightarrow> nat \<Rightarrow> bool" where
  "between a b c \<longleftrightarrow> of_char a \<le> c \<and> c \<le> of_char b"

definition is_word :: "nat \<Rightarrow> bool" where
  "is_word c \<longleftrightarrow> between CHR ''a'' CHR ''z'' c \<or> between CHR ''A'' CHR ''Z'' c \<or> between CHR ''0'' CHR ''9'' c \<or> c = 95"

definition ascii_lower :: "nat \<Rightarrow> nat" where
  "ascii_lower c = (if between CHR ''A'' CHR ''Z'' c then c + 32 else c)"

definition rx_space :: "nat rx" where "rx_space = RxChar is_space"
definition rx_digit :: "nat rx" where "rx_digit = RxChar (between CHR ''0'' CHR ''9'')"
definition rx_dot :: "nat rx" where "rx_dot = RxChar (\<lambda>c. c \<notin> {10, 13, 8232, 8233})"
definition rx_one_of :: "string \<Rightarrow> nat rx" where "rx_one_of s = RxChar (\<lambda>c. c \<in> set (js_text s))"
definition rx_none_of :: "string \<Rightarrow> nat rx" where "rx_none_of s = RxChar (\<lambda>c. c \<notin> set (js_text s))"

definition rx_literal :: "string \<Rightarrow> nat rx" where
  "rx_literal s = rx_seq (map (\<lambda>c. rx_is (of_char c)) s)"

text \<open>A literal under the flag \<open>i\<close>; only ASCII letters have a case in the expressions of the code.\<close>

definition rx_caseless :: "string \<Rightarrow> nat rx" where
  "rx_caseless s = rx_seq (map (\<lambda>c. RxChar (\<lambda>x. ascii_lower x = ascii_lower (of_char c))) s)"

definition rx_word_boundary :: "nat rx" where
  "rx_word_boundary = RxAt (\<lambda>p n. (case p of None \<Rightarrow> False | Some c \<Rightarrow> is_word c) \<noteq>
     (case n of None \<Rightarrow> False | Some c \<Rightarrow> is_word c))"

definition white_star :: "nat rx" where "white_star = RxStar rx_space"
definition white_plus :: "nat rx" where "white_plus = rx_plus rx_space"

definition rx_words :: "string list \<Rightarrow> nat rx" where
  "rx_words ws = rx_seq [rx_word_boundary, rx_alt (map rx_caseless ws), rx_word_boundary]"

definition group_text :: "nat \<Rightarrow> js_text \<Rightarrow> nat rx_groups \<Rightarrow> js_text" where
  "group_text n m g = (case rx_group g n of None \<Rightarrow> [] | Some t \<Rightarrow> t)"

fun code_points :: "js_text \<Rightarrow> nat list" where
  "code_points (h # l # s) =
     (if 55296 \<le> h \<and> h \<le> 56319 \<and> 56320 \<le> l \<and> l \<le> 57343
      then (65536 + (h - 55296) * 1024 + (l - 56320)) # code_points s
      else h # code_points (l # s))"
| "code_points s = s"

subsection \<open>Lines and labels\<close>

definition normalize_line :: "js_text \<Rightarrow> js_text" where
  "normalize_line s = rx_replace_all white_plus (\<lambda>_ _. js_text '' '') (text_trim s)"

definition normalize_section_alias :: "unicode \<Rightarrow> js_text \<Rightarrow> js_text" where
  "normalize_section_alias U s =
     (let s = text_trim s;
          s = rx_replace_all (rx_seq [RxGroup 1 (RxChar (between CHR ''a'' CHR ''z'')),
                RxGroup 2 (RxChar (between CHR ''A'' CHR ''Z''))])
              (\<lambda>m g. group_text 1 m g @ js_text '' '' @ group_text 2 m g) s;
          s = rx_replace_all (rx_plus (rx_one_of ''_-'')) (\<lambda>_ _. js_text '' '') s;
          s = rx_replace_all white_plus (\<lambda>_ _. js_text '' '') s
      in un_lower U s)"

definition star_sign :: nat where "star_sign = 9734"

fun team_type_aliases :: "parsed_team_type \<Rightarrow> js_text list" where
  "team_type_aliases FullFill = map js_text [''fullFill'', ''full fill'', ''fullfill'', ''fill'', ''ff'', ''main'']"
| "team_type_aliases Heal =
     map js_text [''heal'', ''healer'', ''h'', ''4* heal''] @ [js_text ''4'' @ [star_sign] @ js_text '' heal''] @
     map js_text [''4-star heal'', ''birthday heal'', ''bday heal'', ''bd heal'']"
| "team_type_aliases Encore = map js_text [''encore'', ''enc'']"
| "team_type_aliases AltTeam = map js_text [''alt'', ''alts'', ''alternative'']"

definition section_alias_lookup :: "unicode \<Rightarrow> js_text \<Rightarrow> parsed_team_type option" where
  "section_alias_lookup U =
     map_of (rev (concat (map (\<lambda>ty. map (\<lambda>alias. (normalize_section_alias U alias, ty)) (team_type_aliases ty))
       [FullFill, Heal, Encore, AltTeam])))"

definition line_type :: "unicode \<Rightarrow> js_text \<Rightarrow> parsed_team_type option" where
  "line_type U label = section_alias_lookup U (normalize_section_alias U label)"

definition parenthetical_notes :: "js_text \<Rightarrow> js_text list" where
  "parenthetical_notes s =
     map (\<lambda>(m, g). text_trim (group_text 1 m g))
       (rx_match_all (rx_seq [rx_literal ''('', RxGroup 1 (rx_plus (rx_none_of '')'')), rx_literal '')'']) s)"

definition star_rx :: "nat rx" where
  "star_rx = rx_seq [RxAlt rx_start (RxChar (\<lambda>c. is_space c \<or> c = of_char CHR ''('')), rx_literal ''4'',
     white_star, RxAlt (rx_literal ''*'') (rx_is star_sign),
     RxAt (\<lambda>p n. case n of None \<Rightarrow> True | Some c \<Rightarrow> is_space c \<or> c = of_char CHR '')'')]"

definition semantic_notes :: "js_text \<Rightarrow> js_text list" where
  "semantic_notes s =
     (if rx_test (rx_words [''bd'', ''bday'', ''birthday'']) s then [js_text ''birthday''] else []) @
     (if rx_test (RxAlt star_rx (rx_words [''4-star''])) s then [js_text ''4-star''] else []) @
     (if rx_test (rx_words [''uncapped'']) s then [js_text ''uncapped''] else [])"

definition split_team_options :: "js_text \<Rightarrow> js_text list" where
  "split_team_options s =
     filter (\<lambda>t. t \<noteq> []) (map normalize_line
       (rx_split (RxAlt (rx_seq [white_plus, RxAlt (rx_caseless ''or'') (rx_caseless ''/or''), white_plus])
          (rx_seq [rx_literal '';'', white_star])) s))"

record parsed_line =
  pl_type :: parsed_team_type
  pl_team_name :: js_text
  pl_notes :: "js_text list"

definition parsed_lines_for_value :: "parsed_team_type \<Rightarrow> js_text \<Rightarrow> parsed_line list" where
  "parsed_lines_for_value ty s =
     map (\<lambda>name. \<lparr>pl_type = ty, pl_team_name = name,
         pl_notes = js_set (parenthetical_notes name @ semantic_notes name)\<rparr>)
       (filter (\<lambda>t. t \<noteq> [])
         (if ty \<in> {FullFill, Heal, AltTeam} then split_team_options s else [normalize_line s]))"

definition starts_with :: "js_text \<Rightarrow> js_text \<Rightarrow> bool" where
  "starts_with p s \<longleftrightarrow> prefix p s"

definition ends_with :: "js_text \<Rightarrow> js_text \<Rightarrow> bool" where
  "ends_with p s \<longleftrightarrow> suffix p s"

text \<open>\<open>None\<close> is the null of a quoted line.\<close>

definition strip_line_formatting :: "js_text \<Rightarrow> js_text option" where
  "strip_line_formatting line =
     (let v = text_trim line in
      if starts_with (js_text ''>'') v then None
      else
        (let bars = js_text ''||'';
             v = (if starts_with bars v \<and> ends_with bars v \<and> length v \<ge> 4
                  then text_trim (drop 2 (take (length v - 2) v)) else v);
             v = rx_replace (rx_seq [rx_start, rx_between 1 6 (rx_literal ''#''), white_plus]) (\<lambda>_ _. []) v;
             v = rx_replace (rx_seq [rx_start, RxAlt (rx_one_of ''-+*'') (rx_seq [rx_plus rx_digit, rx_one_of ''.)'']),
                   white_plus]) (\<lambda>_ _. []) v;
             v = rx_replace_all (rx_seq [rx_literal ''**'', RxGroup 1 (rx_lazy_plus rx_dot), rx_literal ''**'']) (group_text 1) v;
             v = rx_replace_all (rx_seq [rx_literal ''__'', RxGroup 1 (rx_lazy_plus rx_dot), rx_literal ''__'']) (group_text 1) v;
             v = rx_replace (rx_seq [rx_start, rx_literal [CHR 0x60], RxGroup 1 (rx_plus (rx_none_of [CHR 0x60])),
                   rx_literal [CHR 0x60], rx_end]) (group_text 1) v
         in Some (normalize_line v)))"

definition slash_between :: "string \<Rightarrow> string \<Rightarrow> nat rx" where
  "slash_between a b = rx_seq [rx_caseless a, white_star, rx_literal ''/'', white_star, rx_caseless b]"

definition normalized_label :: "nat rx" where
  "normalized_label = rx_alt (
     [slash_between ''alt'' ''enc'', slash_between ''enc'' ''alt'',
      rx_seq [rx_literal ''4'', rx_alt [rx_literal ''*'', rx_is star_sign, rx_caseless ''-star''], white_plus, rx_caseless ''heal''],
      rx_seq [rx_caseless ''birthday'', white_plus, rx_caseless ''heal''],
      rx_seq [rx_caseless ''bday'', white_plus, rx_caseless ''heal''],
      rx_seq [rx_caseless ''bd'', white_plus, rx_caseless ''heal''],
      rx_seq [rx_caseless ''full'', white_plus, rx_caseless ''fill'']] @
     map rx_caseless [''fullfill'', ''alternative'', ''healer'', ''encore'', ''alts'', ''main'', ''fill'', ''heal'',
       ''ff'', ''enc'', ''alt'', ''h''])"

definition explicit_label_pattern :: "nat rx" where
  "explicit_label_pattern = rx_seq [rx_start, RxGroup 1 normalized_label, white_star, rx_literal '':'', white_star,
     RxGroup 2 (RxStar rx_dot), rx_end]"

definition inline_label_pattern :: "nat rx" where
  "inline_label_pattern = rx_seq [rx_start, RxGroup 1 normalized_label, white_plus, RxGroup 2 (rx_plus rx_dot), rx_end]"

definition heading_label_pattern :: "nat rx" where
  "heading_label_pattern = rx_seq [rx_start, RxGroup 1 normalized_label, white_star, rx_optional (rx_literal '':''), rx_end]"

definition power_pair_pattern :: "nat rx" where
  "power_pair_pattern = rx_seq [rx_word_boundary, rx_between 2 3 rx_digit, white_star, rx_literal ''/'', white_star,
     rx_between 3 3 rx_digit, rx_word_boundary]"

text \<open>The label expression of \<open>labelType\<close> has no flag \<open>i\<close>.\<close>

definition label_type :: "unicode \<Rightarrow> js_text \<Rightarrow> parsed_team_type option" where
  "label_type U label =
     (let normalized = normalize_section_alias U label;
          slash = (\<lambda>a b. rx_seq [rx_literal a, white_star, rx_literal ''/'', white_star, rx_literal b])
      in if rx_test (rx_seq [rx_start, RxAlt (slash ''alt'' ''enc'') (slash ''enc'' ''alt''), rx_end]) normalized
         then Some AltTeam else line_type U normalized)"

record team_label =
  el_type :: parsed_team_type
  el_value :: js_text
  el_notes :: "js_text list"

definition explicit_team_label_for :: "unicode \<Rightarrow> js_text \<Rightarrow> js_text \<Rightarrow> team_label option" where
  "explicit_team_label_for U label v =
     map_option (\<lambda>ty. \<lparr>el_type = ty, el_value = normalize_line v,
         el_notes = (if rx_test (rx_literal ''/'') label then [js_text ''encore''] else semantic_notes label)\<rparr>)
       (label_type U label)"

definition rx_groups_of :: "nat rx \<Rightarrow> js_text \<Rightarrow> nat rx_groups option" where
  "rx_groups_of r s = map_option (\<lambda>(_, _, g, _). g) (rx_exec r s)"

text \<open>A group counts as present when it is captured and not empty, as in \<open>if (match?.[1])\<close>.\<close>

definition captured :: "nat rx_groups option \<Rightarrow> nat \<Rightarrow> js_text option" where
  "captured g n = (case Option.bind g (\<lambda>g. rx_group g n) of Some (c # t) \<Rightarrow> Some (c # t) | _ \<Rightarrow> None)"

definition explicit_team_label :: "unicode \<Rightarrow> js_text \<Rightarrow> team_label option" where
  "explicit_team_label U line =
     (let colon = rx_groups_of explicit_label_pattern line;
          inline = rx_groups_of inline_label_pattern line;
          heading = rx_groups_of heading_label_pattern line
      in case captured colon 1 of
           Some label \<Rightarrow> explicit_team_label_for U label (case captured colon 2 of None \<Rightarrow> [] | Some v \<Rightarrow> v)
         | None \<Rightarrow>
             (case (captured inline 1, captured inline 2) of
                (Some label, Some v) \<Rightarrow>
                  if rx_test power_pair_pattern v then explicit_team_label_for U label v
                  else (case captured heading 1 of None \<Rightarrow> None | Some h \<Rightarrow> explicit_team_label_for U h [])
              | _ \<Rightarrow> (case captured heading 1 of None \<Rightarrow> None | Some h \<Rightarrow> explicit_team_label_for U h [])))"

subsection \<open>Emoji and supporters\<close>

definition custom_emoji :: "nat rx" where
  "custom_emoji = rx_seq [rx_literal ''<'', rx_optional (rx_literal ''a''), rx_literal '':'', rx_plus (RxChar is_word),
     rx_literal '':'', rx_plus rx_digit, rx_literal ''>'']"

definition contains_emoji :: "unicode \<Rightarrow> js_text \<Rightarrow> bool" where
  "contains_emoji U s \<longleftrightarrow> rx_test custom_emoji s \<or> list_ex (un_pictographic U) (code_points s)"

definition is_emoji_only :: "unicode \<Rightarrow> js_text \<Rightarrow> bool" where
  "is_emoji_only U s \<longleftrightarrow>
     contains_emoji U s \<and>
     filter (\<lambda>c. \<not> (un_pictographic U c \<or> c = 65039 \<or> c = 8205 \<or> is_space c \<or> c \<in> set (js_text '',./|_-'')))
       (code_points (rx_replace_all custom_emoji (\<lambda>_ _. []) s)) = []"

definition explicit_oshi_candidate :: "js_text \<Rightarrow> js_text option" where
  "explicit_oshi_candidate line =
     (let lead = rx_optional (rx_seq [white_plus, rx_caseless ''lead'']);
          prefixed = rx_groups_of (rx_seq [rx_start, rx_caseless ''oshi'', lead, white_star, rx_literal '':'', white_star,
            RxGroup 1 (rx_plus rx_dot), rx_end]) line;
          suffixed = rx_groups_of (rx_seq [rx_start, RxGroup 1 (rx_lazy_plus rx_dot), white_plus, rx_caseless ''oshi'',
            lead, rx_end]) line
      in case captured prefixed 1 of
           Some t \<Rightarrow> Some (normalize_line t)
         | None \<Rightarrow> map_option normalize_line (captured suffixed 1))"

definition inline_team_type :: "js_text \<Rightarrow> team_label option" where
  "inline_team_type line =
     (let alts = [''alt'', ''alts'', ''alternative''];
          suffix_alt = rx_groups_of (rx_seq [rx_start, RxGroup 1 (RxLazy rx_dot), white_plus, rx_words alts,
            rx_optional (rx_seq [white_plus, RxGroup 2 (RxStar rx_dot)]), rx_end]) line;
          label = (\<lambda>ty. Some \<lparr>el_type = ty, el_value = line, el_notes = semantic_notes line\<rparr>);
          otherwise = (if rx_test (rx_words alts) line then label AltTeam
            else if rx_test (rx_words [''enc'', ''encore'']) line then label Encore
            else if rx_test (rx_words [''heal'', ''healer'', ''birthday'', ''bday'', ''bd'']) line \<or> rx_test star_rx line
            then label Heal
            else if rx_test (rx_seq [rx_word_boundary,
                RxAlt (rx_seq [rx_caseless ''full'', white_star, rx_caseless ''fill''])
                  (rx_alt (map rx_caseless [''fill'', ''ff'', ''main''])), rx_word_boundary]) line
            then label FullFill else None)
      in case captured suffix_alt 1 of
           None \<Rightarrow> otherwise
         | Some t \<Rightarrow>
             if rx_test power_pair_pattern t
             then Some \<lparr>el_type = AltTeam,
               el_value = normalize_line (case captured suffix_alt 2 of None \<Rightarrow> t | Some u \<Rightarrow> t @ js_text '' '' @ u),
               el_notes = semantic_notes line\<rparr>
             else otherwise)"

definition is_terminal_name_only :: "unicode \<Rightarrow> js_text \<Rightarrow> bool" where
  "is_terminal_name_only U s \<longleftrightarrow>
     (let word = rx_plus (RxChar (\<lambda>c. un_letter_or_number U c \<or> c \<in> set (js_text ''_-''))) in
      length s \<le> 40 \<and>
      rx_test (rx_seq [rx_start, word, rx_between 0 3 (rx_seq [white_plus, word]), rx_end]) (code_points s) \<and>
      \<not> rx_test (rx_words [''will'', ''added'', ''updated'', ''update'', ''updates'', ''thanks'', ''thank'', ''format'',
          ''example'']) s)"

definition is_instructional_value :: "js_text \<Rightarrow> bool" where
  "is_instructional_value s \<longleftrightarrow>
     \<not> rx_test power_pair_pattern s \<and>
     rx_test (rx_seq [rx_word_boundary, rx_alt [rx_caseless ''then'',
         rx_seq [rx_caseless ''followed'', white_plus, rx_caseless ''by''], rx_caseless ''format'', rx_caseless ''example'',
         rx_caseless ''template'', rx_caseless ''instructions'', rx_caseless ''instruction''], rx_word_boundary]) s"

subsection \<open>The scanner\<close>

definition inferred_types :: "parsed_team_type list" where
  "inferred_types = [FullFill, Heal, Encore]"

definition cursor_after :: "nat \<Rightarrow> parsed_team_type \<Rightarrow> nat" where
  "cursor_after cursor ty = max cursor (case ty of FullFill \<Rightarrow> 1 | Heal \<Rightarrow> 2 | Encore \<Rightarrow> 3 | AltTeam \<Rightarrow> cursor)"

record scanner =
  sc_inferred_index :: nat
  sc_parsed_lines :: "parsed_line list"
  sc_oshi_candidates :: "js_text list"
  sc_pending_type :: "team_label option"

definition add_notes :: "js_text list \<Rightarrow> parsed_line list \<Rightarrow> parsed_line list" where
  "add_notes notes ls = map (\<lambda>l. l\<lparr>pl_notes := js_set (pl_notes l @ notes)\<rparr>) ls"

definition push_label :: "team_label \<Rightarrow> js_text \<Rightarrow> scanner \<Rightarrow> scanner" where
  "push_label label v s =
     s\<lparr>sc_parsed_lines := sc_parsed_lines s @ add_notes (el_notes label) (parsed_lines_for_value (el_type label) v),
       sc_inferred_index := cursor_after (sc_inferred_index s) (el_type label), sc_pending_type := None\<rparr>"

definition scan_unlabelled_line :: "unicode \<Rightarrow> js_text \<Rightarrow> bool \<Rightarrow> scanner \<Rightarrow> scanner" where
  "scan_unlabelled_line U line final_line s =
     (if \<not> rx_test power_pair_pattern line
      then (if sc_parsed_lines s \<noteq> [] \<and> final_line \<and> is_terminal_name_only U line
            then s\<lparr>sc_oshi_candidates := sc_oshi_candidates s @ [line], sc_pending_type := None\<rparr>
            else s\<lparr>sc_pending_type := None\<rparr>)
      else case inline_team_type line of
          Some label \<Rightarrow> push_label label (el_value label) s
        | None \<Rightarrow>
            (let ty = inferred_types ! min (sc_inferred_index s) (length inferred_types - 1) in
             s\<lparr>sc_parsed_lines := sc_parsed_lines s @ parsed_lines_for_value ty line,
               sc_inferred_index := sc_inferred_index s + 1, sc_pending_type := None\<rparr>))"

definition scan_submission_line :: "unicode \<Rightarrow> js_text option \<Rightarrow> bool \<Rightarrow> scanner \<Rightarrow> scanner" where
  "scan_submission_line U l final_line s =
     (case l of
        None \<Rightarrow> s\<lparr>sc_pending_type := None\<rparr>
      | Some line \<Rightarrow>
          if line = [] then s
          else case explicit_team_label U line of
            Some explicit \<Rightarrow>
              if el_value explicit = [] then s\<lparr>sc_pending_type := Some explicit\<rparr>
              else if \<not> is_instructional_value (el_value explicit) then push_label explicit (el_value explicit) s
              else s\<lparr>sc_pending_type := None\<rparr>
          | None \<Rightarrow>
              (let explicit_oshi = explicit_oshi_candidate line;
                   unlabelled = sc_parsed_lines s \<noteq> [] \<and> \<not> rx_test power_pair_pattern line \<and> length line \<le> 80 \<and>
                     (is_emoji_only U line \<or> contains_emoji U line)
               in if explicit_oshi \<noteq> None \<or> unlabelled
                  then s\<lparr>sc_oshi_candidates := sc_oshi_candidates s @
                           [case explicit_oshi of Some o' \<Rightarrow> o' | None \<Rightarrow> line], sc_pending_type := None\<rparr>
                  else case sc_pending_type s of
                    Some label \<Rightarrow>
                      if rx_test power_pair_pattern line then push_label label line s
                      else scan_unlabelled_line U line final_line s
                  | None \<Rightarrow> scan_unlabelled_line U line final_line s))"

subsection \<open>Stable keys\<close>

definition hex_digit :: "nat \<Rightarrow> char" where
  "hex_digit n = ''0123456789ABCDEF'' ! (n mod 16)"

definition percent_byte :: "nat \<Rightarrow> string" where
  "percent_byte b = [CHR ''%'', hex_digit (b div 16), hex_digit b]"

definition uri_unreserved :: "nat \<Rightarrow> bool" where
  "uri_unreserved c \<longleftrightarrow> is_word c \<or> c \<in> set (js_text (''-.!~*()'' @ [CHR 0x27]))"

definition utf8_bytes :: "nat \<Rightarrow> nat list" where
  "utf8_bytes c =
     (if c < 128 then [c]
      else if c < 2048 then [192 + c div 64, 128 + c mod 64]
      else if c < 65536 then [224 + c div 4096, 128 + c div 64 mod 64, 128 + c mod 64]
      else [240 + c div 262144, 128 + c div 4096 mod 64, 128 + c div 64 mod 64, 128 + c mod 64])"

text \<open>\<open>encodeURIComponent\<close> raises an error on a surrogate that is not part of a pair.\<close>

definition encode_uri_component :: "js_text \<Rightarrow> string option" where
  "encode_uri_component s =
     (let cs = code_points s in
      if list_ex (\<lambda>c. 55296 \<le> c \<and> c \<le> 57343) cs then None
      else Some (concat (map (\<lambda>c. if uri_unreserved c then [char_of c] else concat (map percent_byte (utf8_bytes c))) cs)))"

fun team_type_text :: "parsed_team_type \<Rightarrow> string" where
  "team_type_text FullFill = ''fullFill''"
| "team_type_text Heal = ''heal''"
| "team_type_text Encore = ''encore''"
| "team_type_text AltTeam = ''alt''"

definition strip_note :: "js_text \<Rightarrow> js_text \<Rightarrow> js_text" where
  "strip_note note name =
     (let bracketed = js_text ''('' @ note @ js_text '')'' in
      if ends_with bracketed name then normalize_line (take (length name - length bracketed) name) else name)"

definition stable_entry_identity :: "unicode \<Rightarrow> parsed_team_type \<Rightarrow> js_text \<Rightarrow> js_text list \<Rightarrow> string option" where
  "stable_entry_identity U ty name notes =
     map_option (\<lambda>encoded. team_type_text ty @ '':'' @ encoded)
       (encode_uri_component (un_lower U (foldl (\<lambda>n note. strip_note note n) (normalize_line name) (rev notes))))"

subsection \<open>Messages\<close>

datatype disposition = Accepted | NotSubmission | OshiOnly

record parsed_message =
  pm_entries :: "parsed_team_entry list"
  pm_oshi_candidate :: "js_text option"
  pm_disposition :: disposition

definition fence_line :: "js_text \<Rightarrow> bool" where
  "fence_line s = rx_test (rx_seq [rx_start, white_star, rx_literal [CHR 0x60, CHR 0x60, CHR 0x60]]) s"

fun normalized_lines :: "bool \<Rightarrow> js_text list \<Rightarrow> js_text option list" where
  "normalized_lines in_fence [] = []"
| "normalized_lines in_fence (l # ls) =
     (if fence_line l then None # normalized_lines (\<not> in_fence) ls
      else (if in_fence then None else strip_line_formatting l) # normalized_lines in_fence ls)"

definition last_truthy_index :: "js_text option list \<Rightarrow> nat option" where
  "last_truthy_index ls =
     foldl (\<lambda>found (i, l). if l \<notin> {None, Some []} then Some i else found) None (List.enumerate 0 ls)"

definition scan_lines :: "unicode \<Rightarrow> js_text option list \<Rightarrow> scanner" where
  "scan_lines U ls =
     foldl (\<lambda>s (i, l). scan_submission_line U l (last_truthy_index ls = Some i) s)
       \<lparr>sc_inferred_index = 0, sc_parsed_lines = [], sc_oshi_candidates = [], sc_pending_type = None\<rparr>
       (List.enumerate 0 ls)"

definition parsed_entry_from_line ::
    "parsed_line \<Rightarrow> nat \<Rightarrow> nat \<Rightarrow> js_text \<Rightarrow> js_text option \<Rightarrow> string \<Rightarrow> parsed_team_entry" where
  "parsed_entry_from_line line index full_fills base_player_name oshi_candidate stable_key =
     \<lparr>pe_stable_key = stable_key,
      pe_player_name = base_player_name @
        (if pl_type line = AltTeam then js_text ('' (alt '' @ nat_text index @ '')'')
         else if pl_type line = FullFill \<and> full_fills > 1 then js_text ('' (full fill '' @ nat_text index @ '')'')
         else []),
      pe_team_name = pl_team_name line, pe_team_type = pl_type line, pe_notes = pl_notes line,
      pe_team_config_name = None,
      pe_oshi = \<lparr>po_candidate = oshi_candidate, po_value = None, po_status = OshiNotConfigured\<rparr>\<rparr>"

definition numbered_key :: "string \<Rightarrow> nat \<Rightarrow> string" where
  "numbered_key ident occurrence = (if occurrence = 1 then ident else ident @ '':'' @ nat_text occurrence)"

text \<open>
  The entries, with the lines before each: the counts of a type and of an identity are those among the
  lines up to the entry. \<open>None\<close> is the error of \<open>encodeURIComponent\<close>.
\<close>

definition line_identity :: "unicode \<Rightarrow> parsed_line \<Rightarrow> string option" where
  "line_identity U l = stable_entry_identity U (pl_type l) (pl_team_name l) (pl_notes l)"

fun entries_from_lines ::
    "unicode \<Rightarrow> nat \<Rightarrow> js_text \<Rightarrow> js_text option \<Rightarrow> (parsed_team_type \<Rightarrow> nat) \<Rightarrow> (string \<Rightarrow> nat) \<Rightarrow>
     parsed_line list \<Rightarrow> parsed_team_entry list option" where
  "entries_from_lines U fulls base oshi types idents [] = Some []"
| "entries_from_lines U fulls base oshi types idents (l # ls) =
     (case line_identity U l of
        None \<Rightarrow> None
      | Some i \<Rightarrow>
          (let index = types (pl_type l) + 1; occurrence = idents i + 1;
               e = parsed_entry_from_line l index fulls base oshi (numbered_key i occurrence)
           in map_option ((#) e)
                (entries_from_lines U fulls base oshi (types(pl_type l := index)) (idents(i := occurrence)) ls)))"

fun join_text :: "js_text \<Rightarrow> js_text list \<Rightarrow> js_text" where
  "join_text sep [] = []"
| "join_text sep [x] = x"
| "join_text sep (x # y # xs) = x @ sep @ join_text sep (y # xs)"

definition parse_team_submission_message :: "unicode \<Rightarrow> js_text \<Rightarrow> js_text \<Rightarrow> parsed_message option" where
  "parse_team_submission_message U content base_player_name =
     (let lines = normalized_lines False (rx_split (rx_seq [rx_optional (rx_is 13), rx_is 10]) content);
          s = scan_lines U lines;
          candidates = js_set (map normalize_line (sc_oshi_candidates s));
          oshi = (if candidates = [] then None else Some (join_text (js_text '' / '') candidates));
          fulls = length (filter (\<lambda>l. pl_type l = FullFill) (sc_parsed_lines s))
      in map_option (\<lambda>entries. \<lparr>pm_entries = entries, pm_oshi_candidate = oshi,
             pm_disposition = (if entries \<noteq> [] then Accepted else if oshi = None then NotSubmission else OshiOnly)\<rparr>)
           (entries_from_lines U fulls base_player_name oshi (\<lambda>_. 0) (\<lambda>_. 0) (sc_parsed_lines s)))"

end
