(* ===== verification/SheetRanges.thy ===== *)
theory SheetRanges
  imports SubmissionTypes CalculationRange Regex
begin

text \<open>
  Ranges of a sheet in A1 notation (\<open>sheet-ingress-api/src/schemas/teamSubmission/ranges.ts\<close>): reading
  the first cell of a range, column labels, the rectangle a rollback writes and the row an apptext \<open>Both conversions are bijective numeration in base twenty-six.\<close>

lemma number_loop_label: "number_loop (int n) column = label_loop n column"
proof (induction n column rule: label_loop.induct)
  case (1 n column)
  show ?case
  proof (cases "n = 0")
    case False
    let ?m = "(int n - 1) mod 26"
    have m: "?m = int ((n - 1) mod 26)" using False by (simp add: of_nat_diff zmod_int)
    have "int n - ?m = 26 * ((int n - 1) div 26) + 1"
      using div_mult_mod_eq [of "int n - 1" 26] by (simp add: algebra_simps)
    then have d: "(int n - ?m) div 26 = int ((n - 1) div 26)"
      using False by (simp add: of_nat_diff zdiv_int)
    have "number_loop (int n) column = number_loop (int ((n - 1) div 26)) (char_of (65 + (n - 1) mod 26) # column)"
      using False by (subst number_loop.simps) (simp add: Let_def d, simp add: m nat_add_distrib)
    then show ?thesis using 1 [OF False] False by (simp add: label_loop.simps [of n column])
  qed (simp add: number_loop.simps label_loop.simps)
qed

end
  writes. The options of a function are the ones the two callers pass.
\<close>

subsection \<open>Cells\<close>

record a1_cell =
  a1_sheet :: string
  a1_column :: string
  a1_row :: nat

record a1_range_options =
  allow_missing_row :: bool
  allow_open_ended_end_range :: bool
  infer_end_row_from_values :: bool

definition default_range_options :: a1_range_options where
  "default_range_options = \<lparr>allow_missing_row = False, allow_open_ended_end_range = False,
     infer_end_row_from_values = False\<rparr>"

definition is_latin_letter :: "char \<Rightarrow> bool" where
  "is_latin_letter c \<longleftrightarrow> (let n = of_char c :: nat in 65 \<le> n \<and> n \<le> 90 \<or> 97 \<le> n \<and> n \<le> 122)"

text \<open>\<open>a1RangeRegex\<close>; the groups are the quoted sheet (1), the sheet (2), the column (3) and the row (4).\<close>

definition a1_range_regex :: "char rx" where
  "a1_range_regex = rx_seq [
     rx_start,
     rx_alt [
       rx_seq [rx_is quote_char,
         RxGroup 1 (RxStar (RxAlt (RxChar (\<lambda>c. c \<noteq> quote_char)) (RxSeq (rx_is quote_char) (rx_is quote_char)))),
         rx_is quote_char],
       RxGroup 2 (rx_plus (RxChar (\<lambda>c. c \<noteq> CHR ''!'')))],
     rx_is CHR ''!'',
     RxStar (RxChar is_js_space),
     RxGroup 3 (rx_plus (RxChar is_latin_letter)),
     rx_optional (RxGroup 4 (rx_plus (RxChar is_digit)))]"

fun collapse_quotes :: "string \<Rightarrow> string" where
  "collapse_quotes (c # d # s) =
     (if c = quote_char \<and> d = quote_char then quote_char # collapse_quotes s else c # collapse_quotes (d # s))"
| "collapse_quotes s = s"

definition parse_a1_start :: "a1_range_options \<Rightarrow> string \<Rightarrow> a1_cell option" where
  "parse_a1_start opts rng =
     (case rx_exec a1_range_regex (js_trim rng) of
        None \<Rightarrow> None
      | Some (_, _, groups, _) \<Rightarrow>
          (let sheet = (case rx_group groups 1 of
                  Some q \<Rightarrow> Some (collapse_quotes q)
                | None \<Rightarrow> map_option js_trim (rx_group groups 2));
               column = rx_group groups 3;
               row = rx_group groups 4
           in if sheet \<in> {None, Some []} \<or> column \<in> {None, Some []} \<or>
                 row \<in> {None, Some []} \<and> \<not> allow_missing_row opts
              then None
              else Some \<lparr>a1_sheet = the sheet, a1_column = map ascii_upper (the column),
                a1_row = (case row of None \<Rightarrow> 1 | Some r \<Rightarrow> digits_value r)\<rparr>))"

definition quoted_sheet :: "string \<Rightarrow> string" where
  "quoted_sheet sheet = quote_char # escape_quotes sheet @ [quote_char]"

definition cell_for_row :: "a1_range_options \<Rightarrow> string \<Rightarrow> nat \<Rightarrow> string option" where
  "cell_for_row opts rng row =
     (case parse_a1_start opts rng of
        None \<Rightarrow> None
      | Some start \<Rightarrow> Some (quoted_sheet (a1_sheet start) @ ''!'' @ a1_column start @ nat_text row))"

subsection \<open>Columns\<close>

definition column_to_number :: "string \<Rightarrow> int" where
  "column_to_number column = foldl (\<lambda>v c. v * 26 + of_char c - 64) 0 (map ascii_upper column)"

function number_loop :: "int \<Rightarrow> string \<Rightarrow> string" where
  "number_loop remaining column =
     (if remaining > 0
      then let m = (remaining - 1) mod 26
           in number_loop ((remaining - m) div 26) (char_of (65 + nat m) # column)
      else column)"
  by pat_completeness auto
termination
proof (relation "measure (\<lambda>(r, _). nat r)", goal_cases)
  case (2 r c m)
  have "0 \<le> m" using 2(2) by simp
  then have "(r - m) div 26 \<le> r div 26" by (intro zdiv_mono1) auto
  also have "r div 26 < r" using 2(1) by (intro int_div_less_self) auto
  finally show ?case using 2(1) by simp
qed simp

declare number_loop.simps [simp del]

definition number_to_column :: "int \<Rightarrow> string" where
  "number_to_column v = number_loop v []"

text \<open>Both conversions are bijective numeration in base twenty-six.\<close>

lemma number_loop_label: "number_loop (int n) column = label_loop n column"
proof (induction n column rule: label_loop.induct)
  case (1 n column)
  show ?case
  proof (cases "n = 0")
    case False
    let ?m = "(int n - 1) mod 26"
    have m: "?m = int ((n - 1) mod 26)" using False by (simp add: of_nat_diff zmod_int)
    have "int n - ?m = 26 * ((int n - 1) div 26) + 1"
      using div_mult_mod_eq [of "int n - 1" 26] by (simp add: algebra_simps)
    then have d: "(int n - ?m) div 26 = int ((n - 1) div 26)"
      using False by (simp add: of_nat_diff zdiv_int)
    have "number_loop (int n) column = number_loop (int ((n - 1) div 26)) (char_of (65 + (n - 1) mod 26) # column)"
      using False by (subst number_loop.simps) (simp add: Let_def d, simp add: m nat_add_distrib)
    then show ?thesis using 1 [OF False] False by (simp add: label_loop.simps [of n column])
  qed (simp add: number_loop.simps label_loop.simps)
qed

definition is_capital :: "char \<Rightarrow> bool" where
  "is_capital c \<longleftrightarrow> (let n = of_char c :: nat in 65 \<le> n \<and> n \<le> 90)"

lemma ascii_upper_capital [simp]: "is_capital c \<Longrightarrow> ascii_upper c = c"
  by (simp add: is_capital_def ascii_upper_def Let_def)

lemma ascii_upper_letter: "is_latin_letter c \<Longrightarrow> is_capital (ascii_upper c)"
  by (auto simp: is_latin_letter_def is_capital_def ascii_upper_def Let_def of_char_of)

lemma capital_letter: "is_capital c \<Longrightarrow> is_latin_letter c"
  by (simp add: is_latin_letter_def is_capital_def Let_def)

lemma map_upper_capital: "list_all is_capital s \<Longrightarrow> map ascii_upper s = s"
  by (induction s) auto

lemma int_of_char: "(of_char c :: int) = int (of_char c)"
  by (simp add: of_nat_of_char)

lemma column_to_number_capital:
  assumes "list_all is_capital s"
  shows "column_to_number s = int (label_value s)"
proof -
  have "foldl (\<lambda>v c. v * 26 + of_char c - 64) (int a) s = int (foldl (\<lambda>v c. 26 * v + (of_char c - 64)) a s)"
    if "list_all is_capital s" for a and s :: string
    using that
  proof (induction s arbitrary: a)
    case (Cons c s)
    then have step: "int a * 26 + of_char c - 64 = int (26 * a + (of_char c - 64))"
      by (simp add: is_capital_def Let_def int_of_char of_nat_diff)
    show ?case unfolding foldl_Cons step using Cons.prems by (intro Cons.IH) simp
  qed simp
  from this [OF assms, of 0] show ?thesis
    by (simp add: column_to_number_def label_value_def map_upper_capital assms)
qed

lemma label_loop_capital: "list_all is_capital s \<Longrightarrow> list_all is_capital (label_loop n s)"
proof (induction n s rule: label_loop.induct)
  case (1 n s)
  have "is_capital (char_of (65 + (n - 1) mod 26))"
    using mod_less_divisor [of 26 "n - 1"] by (simp add: is_capital_def Let_def of_char_of)
  then show ?case using 1 by (subst label_loop.simps) simp
qed

lemma label_loop_value: "list_all is_capital s \<Longrightarrow> label_loop (label_value s) t = s @ t"
proof (induction s arbitrary: t rule: rev_induct)
  case Nil
  then show ?case by (simp add: label_value_def label_loop.simps)
next
  case (snoc c s)
  let ?d = "(of_char c :: nat) - 65"
  have d: "?d < 26" "of_char c - 64 = ?d + (1 :: nat)" "char_of (65 + ?d) = c"
    using snoc.prems by (auto simp: is_capital_def Let_def)
  have v: "label_value (s @ [c]) = 26 * label_value s + ?d + 1"
    using d(2) by (simp add: label_value_def)
  have q: "(label_value (s @ [c]) - 1) div 26 = label_value s" "(label_value (s @ [c]) - 1) mod 26 = ?d"
    "label_value (s @ [c]) \<noteq> 0"
    unfolding v using d(1) by simp_all
  have "label_loop (label_value (s @ [c])) t = label_loop (label_value s) (c # t)"
    by (subst label_loop.simps) (simp only: q d(3) if_False)
  then show ?case using snoc by simp
qed

lemma column_of_number:
  assumes "0 \<le> v"
  shows "column_to_number (number_to_column v) = v" and "list_all is_capital (number_to_column v)"
proof -
  obtain n where v: "v = int n" using assms by (metis nonneg_int_cases)
  then have c: "number_to_column v = label_loop n []"
    by (simp add: number_to_column_def number_loop_label)
  then show capital: "list_all is_capital (number_to_column v)"
    by (simp add: label_loop_capital)
  show "column_to_number (number_to_column v) = v"
    using label_value_loop [of n "[]"] column_to_number_capital [OF capital]
    by (simp add: c) (simp add: v label_value_def)
qed

lemma number_of_column:
  "list_all is_latin_letter s \<Longrightarrow> number_to_column (column_to_number s) = map ascii_upper s"
proof -
  assume "list_all is_latin_letter s"
  then have c: "list_all is_capital (map ascii_upper s)"
    by (auto simp: list_all_iff ascii_upper_letter)
  then have "map ascii_upper (map ascii_upper s) = map ascii_upper s"
    by (rule map_upper_capital)
  then have "column_to_number s = column_to_number (map ascii_upper s)"
    unfolding column_to_number_def by (simp only:)
  also have "\<dots> = int (label_value (map ascii_upper s))"
    by (rule column_to_number_capital [OF c])
  finally show ?thesis
    using label_loop_value [OF c, of "[]"] by (simp add: number_to_column_def number_loop_label)
qed

subsection \<open>Rollback values\<close>

definition end_pattern :: "a1_range_options \<Rightarrow> char rx" where
  "end_pattern opts =
     (let row = RxGroup 2 (rx_plus (RxChar is_digit)) in
      rx_seq [rx_is CHR '':'', RxGroup 1 (rx_plus (RxChar is_latin_letter)),
        (if allow_open_ended_end_range opts then rx_optional row else row), rx_end])"

definition cell_at :: "js_text list list \<Rightarrow> nat \<Rightarrow> nat \<Rightarrow> js_text" where
  "cell_at values row column =
     (if row < length values \<and> column < length (values ! row) then values ! row ! column else [])"

definition rollback_values_for_range :: "a1_range_options \<Rightarrow> string \<Rightarrow> js_text list list \<Rightarrow> js_text list list" where
  "rollback_values_for_range opts rng vals =
     (let end_match = (case rx_exec (end_pattern opts) (js_trim rng) of None \<Rightarrow> None | Some (_, _, g, _) \<Rightarrow> Some g) in
      case parse_a1_start opts rng of
        None \<Rightarrow> if vals = [] then [[[]]] else vals
      | Some start \<Rightarrow>
          (let end_column = (case Option.bind end_match (\<lambda>g. rx_group g 1) of
                  None \<Rightarrow> a1_column start | Some c \<Rightarrow> c);
               end_row = (case Option.bind end_match (\<lambda>g. rx_group g 2) of
                  Some r \<Rightarrow> int (digits_value r)
                | None \<Rightarrow> if infer_end_row_from_values opts then int (a1_row start) + max 0 (int (length vals) - 1)
                    else int (a1_row start));
               width = max 1 (column_to_number end_column - column_to_number (a1_column start) + 1);
               height = max 1 (end_row - int (a1_row start) + 1)
           in map (\<lambda>row. map (\<lambda>column. cell_at vals row column) [0..<nat width]) [0..<nat height]))"

subsection \<open>Appended rows\<close>

record append_range =
  ar_range :: string
  ar_start_column :: int
  ar_end_column :: int
  ar_player_column :: int
  ar_team_column :: int
  ar_oshi_column :: "int option"

definition append_range_for_cells ::
    "a1_range_options \<Rightarrow> string \<Rightarrow> string \<Rightarrow> string option \<Rightarrow> append_range option" where
  "append_range_for_cells opts player_range team_range oshi_range =
     (let cells = map (parse_a1_start opts)
            ([player_range, team_range] @ (case oshi_range of None \<Rightarrow> [] | Some r \<Rightarrow> [r]));
          parsed = List.map_filter id cells
      in if length parsed \<noteq> length cells then None
         else let sheet = a1_sheet (hd parsed) in
           if sheet = [] \<or> list_ex (\<lambda>c. a1_sheet c \<noteq> sheet) parsed then None
           else let columns = map (\<lambda>c. column_to_number (a1_column c)) parsed in
             if card (set columns) \<noteq> length columns then None
             else let start = Min (set columns); stop = Max (set columns) in
               Some \<lparr>ar_range = quoted_sheet sheet @ ''!'' @ number_to_column start @ '':'' @ number_to_column stop,
                 ar_start_column = start, ar_end_column = stop,
                 ar_player_column = columns ! 0, ar_team_column = columns ! 1,
                 ar_oshi_column = (if oshi_range = None then None else Some (columns ! 2))\<rparr>)"

definition append_row_values :: "append_range \<Rightarrow> parsed_team_entry \<Rightarrow> parsed_oshi \<Rightarrow> js_text list" where
  "append_row_values ar entry oshi =
     (let row = replicate (nat (ar_end_column ar - ar_start_column ar + 1)) [];
          row = row[nat (ar_player_column ar - ar_start_column ar) := pe_player_name entry];
          row = row[nat (ar_team_column ar - ar_start_column ar) := pe_team_name entry]
      in case ar_oshi_column ar of
           None \<Rightarrow> row
         | Some c \<Rightarrow> row[nat (c - ar_start_column ar) := (case po_value oshi of None \<Rightarrow> [] | Some v \<Rightarrow> v)])"

definition appended_row_target :: "a1_range_options \<Rightarrow> row_target \<Rightarrow> row_target option" where
  "appended_row_target opts t =
     (let player = cell_for_row opts (rt_player_name_range t) (rt_row_index t);
          team = cell_for_row opts (rt_team_name_range t) (rt_row_index t);
          oshi = Option.bind (rt_oshi_range t) (\<lambda>r. cell_for_row opts r (rt_row_index t))
      in if player = None \<or> team = None \<or> rt_oshi_range t \<noteq> None \<and> oshi = None then None
         else Some \<lparr>rt_row_index = rt_row_index t, rt_player_name_range = the player,
           rt_team_name_range = the team, rt_oshi_range = oshi\<rparr>)"

subsection \<open>Reading the ranges the code writes\<close>

lemma escape_Nil [simp]: "escape_quotes [] = []"
  by (simp add: escape_quotes_def)

lemma escape_Cons [simp]:
  "escape_quotes (c # s) = (if c = quote_char then quote_char # quote_char # escape_quotes s else c # escape_quotes s)"
  by (simp add: escape_quotes_def)

lemma collapse_escape: "collapse_quotes (escape_quotes s) = s"
proof (induction s)
  case (Cons c s)
  then show ?case by (cases "escape_quotes s") auto
qed simp

lemma first_run_quoted:
  "c \<noteq> quote_char \<Longrightarrow> \<exists>q. first_run
     (RxStar (RxAlt (RxChar (\<lambda>c. c \<noteq> quote_char)) (RxSeq (rx_is quote_char) (rx_is quote_char))))
     (p, escape_quotes sheet @ quote_char # c # t, g) (q, quote_char # c # t, g)"
proof (induction sheet arbitrary: p)
  case Nil
  then show ?case by (auto intro!: exI first_run_star_stop simp: rx_is_def)
next
  case (Cons d sheet)
  let ?q = "if d = quote_char then Some quote_char else Some d"
  have step: "first_run (RxAlt (RxChar (\<lambda>c. c \<noteq> quote_char)) (RxSeq (rx_is quote_char) (rx_is quote_char)))
      (p, escape_quotes (d # sheet) @ quote_char # c # t, g) (?q, escape_quotes sheet @ quote_char # c # t, g)"
    by (simp add: first_run_def rx_is_def)
  from Cons obtain q where q: "first_run
     (RxStar (RxAlt (RxChar (\<lambda>c. c \<noteq> quote_char)) (RxSeq (rx_is quote_char) (rx_is quote_char))))
     (?q, escape_quotes sheet @ quote_char # c # t, g) (q, quote_char # c # t, g)" by blast
  show ?case
    by (rule exI, rule first_run_star_step [OF step _ q]) simp
qed

definition range_text :: "string \<Rightarrow> string \<Rightarrow> string \<Rightarrow> string \<Rightarrow> string" where
  "range_text sheet column digits rest = quoted_sheet sheet @ ''!'' @ column @ digits @ rest"

lemma exec_range_text:
  assumes column: "column \<noteq> []" "list_all is_latin_letter column"
    and digits: "list_all is_digit digits"
    and rest: "case rest of [] \<Rightarrow> True | c # _ \<Rightarrow> \<not> is_digit c \<and> (digits = [] \<longrightarrow> \<not> is_latin_letter c)"
  shows "\<exists>g r. rx_exec a1_range_regex (range_text sheet column digits rest) = Some ([], r, g, rest) \<and>
           rx_group g 1 = Some (escape_quotes sheet) \<and> rx_group g 2 = None \<and> rx_group g 3 = Some column \<and>
           rx_group g 4 = (if digits = [] then None else Some digits)"
proof -
  let ?t = "column @ digits @ rest"
  let ?g1 = "[(1, escape_quotes sheet)]" and ?g3 = "[(3, column), (1, escape_quotes sheet)]"
  let ?g = "if digits = [] then ?g3 else (4, digits) # ?g3"
  let ?inner = "RxStar (RxAlt (RxChar (\<lambda>c. c \<noteq> quote_char)) (RxSeq (rx_is quote_char) (rx_is quote_char)))"
  have space: "\<not> is_js_space (hd column)"
    using column by (cases column) (auto simp: is_latin_letter_def is_js_space_def Let_def)
  obtain q where "first_run ?inner (Some quote_char, escape_quotes sheet @ quote_char # CHR ''!'' # ?t, [])
      (q, quote_char # CHR ''!'' # ?t, [])"
    using first_run_quoted [of "CHR ''!''" "Some quote_char" sheet ?t "[]"] by (auto simp: quote_char_def)
  from first_run_group [OF this, of 1]
  have group1: "first_run (RxGroup 1 ?inner) (Some quote_char, escape_quotes sheet @ quote_char # CHR ''!'' # ?t, [])
      (q, quote_char # CHR ''!'' # ?t, ?g1)" by simp
  have quoted: "first_run (rx_seq [rx_is quote_char, RxGroup 1 ?inner, rx_is quote_char])
      (None, quote_char # escape_quotes sheet @ quote_char # CHR ''!'' # ?t, []) (Some quote_char, CHR ''!'' # ?t, ?g1)"
    unfolding rx_seq.simps by (rule first_run_seq [OF first_run_is] first_run_seq [OF group1] first_run_is)+
  have mid: "case digits @ rest of [] \<Rightarrow> True | c # _ \<Rightarrow> \<not> is_latin_letter c"
    using digits rest by (cases digits) (auto simp: is_digit_def is_latin_letter_def Let_def split: list.splits)
  have group3: "first_run (RxGroup 3 (rx_plus (RxChar is_latin_letter))) (Some CHR ''!'', ?t, ?g1)
      (Some (last column), digits @ rest, ?g3)"
    using first_run_group [OF first_run_plus_chars [OF column(2) column(1) mid], of 3 "Some CHR ''!''" ?g1] by simp
  have spaces: "first_run (RxStar (RxChar is_js_space)) (Some CHR ''!'', ?t, ?g1) (Some CHR ''!'', ?t, ?g1)"
    using first_run_star_chars [of is_js_space "[]" ?t "Some CHR ''!''" ?g1] space column(1) by (cases column) auto
  have group4: "\<exists>q. first_run (rx_optional (RxGroup 4 (rx_plus (RxChar is_digit))))
      (Some (last column), digits @ rest, ?g3) (q, rest, ?g)"
  proof (cases "digits = []")
    case True
    then have "rx_run (RxGroup 4 (rx_plus (RxChar is_digit))) (Some (last column), rest, ?g3) = []"
      using rest by (cases rest) (auto simp: rx_plus_def)
    then show ?thesis
      using True by (auto simp: rx_optional_def intro!: exI first_run_right first_run_empty)
  next
    case False
    have stop: "case rest of [] \<Rightarrow> True | c # _ \<Rightarrow> \<not> is_digit c"
      using rest by (auto split: list.splits)
    show ?thesis
      using first_run_group [OF first_run_plus_chars [OF digits False stop], of 4 "Some (last column)" ?g3] False
      by (auto simp: rx_optional_def intro!: exI first_run_left)
  qed
  then obtain q' where group4: "first_run (rx_optional (RxGroup 4 (rx_plus (RxChar is_digit))))
      (Some (last column), digits @ rest, ?g3) (q', rest, ?g)" by blast
  have "first_run a1_range_regex (None, range_text sheet column digits rest, []) (q', rest, ?g)"
    unfolding a1_range_regex_def rx_seq.simps rx_alt.simps range_text_def quoted_sheet_def append.simps append_assoc
    by (rule first_run_seq [OF first_run_start] first_run_seq [OF first_run_left]
          quoted [unfolded rx_seq.simps] first_run_seq [OF first_run_is] first_run_seq [OF spaces]
          first_run_seq [OF group3] group4)+
  from first_run_exec [OF this] show ?thesis
    by (auto simp: rx_group_def)
qed

lemma parse_range_text:
  assumes "sheet \<noteq> []" "column \<noteq> []" "list_all is_latin_letter column" "list_all is_digit digits"
    and "case rest of [] \<Rightarrow> True | c # _ \<Rightarrow> \<not> is_digit c \<and> (digits = [] \<longrightarrow> \<not> is_latin_letter c)"
    and trim: "js_trim (range_text sheet column digits rest) = range_text sheet column digits rest"
  shows "parse_a1_start opts (range_text sheet column digits rest) =
           (if digits = [] \<and> \<not> allow_missing_row opts then None
            else Some \<lparr>a1_sheet = sheet, a1_column = map ascii_upper column,
              a1_row = (if digits = [] then 1 else digits_value digits)\<rparr>)"
  using exec_range_text [OF assms(2-5), of sheet] assms(1,2)
  by (auto simp: parse_a1_start_def trim collapse_escape)

lemma js_trim_ends:
  assumes "s \<noteq> []" and "\<not> is_js_space (hd s)" and "\<not> is_js_space (last s)"
  shows "js_trim s = s"
proof -
  have "dropWhile is_js_space s = s" using assms by (cases s) auto
  moreover have "dropWhile is_js_space (rev s) = rev s"
    using assms by (cases s rule: rev_cases) auto
  ultimately show ?thesis by (simp add: js_trim_def)
qed

lemma digit_letter_no_space: "is_digit c \<or> is_latin_letter c \<Longrightarrow> \<not> is_js_space c"
  by (auto simp: is_latin_letter_def is_digit_def is_js_space_def Let_def)

lemma list_all_digits: "list_all is_digit (nat_text n)"
proof -
  have "is_digit c" if "c \<in> set ''0123456789''" for c
    using that by (auto simp: is_digit_def Let_def)
  then show ?thesis using nat_text_chars [of n] by (auto simp: list_all_iff)
qed

lemma trim_range_text:
  assumes "column \<noteq> []" "list_all is_latin_letter column" "list_all is_digit digits"
    and "rest = [] \<or> \<not> is_js_space (last rest)"
  shows "js_trim (range_text sheet column digits rest) = range_text sheet column digits rest"
proof (rule js_trim_ends)
  have "\<not> is_js_space (last column)" "digits \<noteq> [] \<longrightarrow> \<not> is_js_space (last digits)"
    using assms by (auto simp: list_all_iff intro!: digit_letter_no_space)
  then show "\<not> is_js_space (last (range_text sheet column digits rest))"
    using assms by (auto simp: range_text_def last_append)
qed (auto simp: range_text_def quoted_sheet_def quote_char_def is_js_space_def)

text \<open>A cell the code writes reads back as the sheet, the column and the row it was made of.\<close>

lemma parse_cell_text:
  assumes "sheet \<noteq> []" "column \<noteq> []" "list_all is_latin_letter column"
  shows "parse_a1_start opts (quoted_sheet sheet @ ''!'' @ column @ nat_text n) =
           Some \<lparr>a1_sheet = sheet, a1_column = map ascii_upper column, a1_row = n\<rparr>"
  using parse_range_text [of sheet column "nat_text n" "[]" opts] trim_range_text [of column "nat_text n" "[]" sheet]
    assms list_all_digits [of n]
  by (simp add: range_text_def digits_value_nat_text)

subsection \<open>What a range reads as\<close>

lemma parse_a1_start_parts:
  assumes "parse_a1_start opts rng = Some start"
  shows "a1_sheet start \<noteq> []" "a1_column start \<noteq> []" "list_all is_capital (a1_column start)"
proof -
  from assms obtain skipped m g rest where exec: "rx_exec a1_range_regex (js_trim rng) = Some (skipped, m, g, rest)"
    by (auto simp: parse_a1_start_def split: option.splits)
  note start = assms [unfolded parse_a1_start_def exec option.case prod.case Let_def]
  from rx_exec_run [OF exec] obtain q p s where "(q, rest, g) \<in> set (rx_run a1_range_regex (p, s, []))"
    by blast
  then obtain y z where y: "y \<in> set (rx_run (RxGroup 3 (rx_plus (RxChar is_latin_letter))) z)"
    and g: "(q, rest, g) \<in> set (rx_run (rx_optional (RxGroup 4 (rx_plus (RxChar is_digit)))) y)"
    unfolding a1_range_regex_def rx_seq.simps in_rx_seq by blast
  obtain q1 t1 g1 where z: "z = (q1, t1, g1)" by (cases z)
  from y obtain q2 t2 where t2: "(q2, t2, g1) \<in> set (rx_run (rx_plus (RxChar is_latin_letter)) (q1, t1, g1))"
    and y2: "y = (q2, t2, (3, take (length t1 - length t2) t1) # g1)"
    using in_rx_plus_chars unfolding z by fastforce
  from in_rx_plus_chars [OF t2] have column: "list_all is_latin_letter (take (length t1 - length t2) t1)" by auto
  have "rx_group g 3 = Some (take (length t1 - length t2) t1)"
    using g unfolding y2 rx_optional_def in_rx_alt
    by (auto simp: rx_group_def dest!: in_rx_plus_chars)
  with start column show "a1_sheet start \<noteq> []" "a1_column start \<noteq> []" "list_all is_capital (a1_column start)"
    by (auto simp: list_all_iff ascii_upper_letter split: if_splits)
qed

lemma capital_letters: "list_all is_capital s \<Longrightarrow> list_all is_latin_letter s"
  by (auto simp: list_all_iff capital_letter)

lemma parse_cell_for_row:
  assumes "parse_a1_start opts rng = Some start" and "cell_for_row opts rng n = Some cell"
  shows "parse_a1_start opts' cell = Some (start\<lparr>a1_row := n\<rparr>)"
proof -
  have cell: "cell = quoted_sheet (a1_sheet start) @ ''!'' @ a1_column start @ nat_text n"
    using assms by (simp add: cell_for_row_def)
  show ?thesis
    unfolding cell using parse_a1_start_parts [OF assms(1)]
    by (subst parse_cell_text) (auto simp: capital_letters map_upper_capital)
qed

text \<open>C32: Cell addresses round-trip: whatever way a range is written (quoted or not, any case, with or
  without spaces around it), the cell the code derives from it for a row reads back, under any
  options, as the range's own sheet and column with that row; deriving once more gives the same
  text.\<close>

theorem cell_address_round_trip:
  assumes "parse_a1_start opts rng = Some start"
  shows "\<exists>cell. cell_for_row opts rng n = Some cell \<and>
           parse_a1_start opts' cell = Some (start\<lparr>a1_row := n\<rparr>) \<and> cell_for_row opts' cell n = Some cell"
proof -
  from assms obtain cell where cell: "cell_for_row opts rng n = Some cell"
    by (simp add: cell_for_row_def)
  from parse_cell_for_row [OF assms cell] cell assms show ?thesis
    by (auto simp: cell_for_row_def)
qed

text \<open>Column labels and column numbers are inverse to each other: every positive number has
  exactly one label of capital letters, and every label, in any case, is the label of its number.\<close>

theorem column_labels_round_trip:
  assumes "0 \<le> v" and "list_all is_latin_letter label"
  shows "column_to_number (number_to_column v) = v \<and>
         number_to_column (column_to_number label) = map ascii_upper label"
  using column_of_number(1) [OF assms(1)] number_of_column [OF assms(2)] by simp

theorem column_labels_round_trip_witness:
  "column_to_number (number_to_column 703) = 703 \<and> number_to_column (column_to_number ''aBc'') = ''ABC''"
proof -
  have "list_all is_latin_letter ''aBc''" and upper: "map ascii_upper ''aBc'' = ''ABC''" by code_simp+
  from column_labels_round_trip [OF _ this(1), of 703] show ?thesis unfolding upper by simp
qed

theorem cell_address_round_trip_witness:
  "\<exists>cell. cell_for_row default_range_options (quoted_sheet ''my team'' @ ''!'' @ ''B'' @ nat_text 7) 9 = Some cell \<and>
     parse_a1_start default_range_options cell = Some \<lparr>a1_sheet = ''my team'', a1_column = ''B'', a1_row = 9\<rparr>"
proof -
  have "parse_a1_start default_range_options (quoted_sheet ''my team'' @ ''!'' @ ''B'' @ nat_text 7) =
      Some \<lparr>a1_sheet = ''my team'', a1_column = ''B'', a1_row = 7\<rparr>"
    using parse_cell_text [of "''my team''" "''B''" default_range_options 7] by code_simp
  from cell_address_round_trip [OF this, of 9 default_range_options] show ?thesis by auto
qed

end
