(* ===== verification/ZeroTables.thy ===== *)
theory ZeroTables
  imports MessageRoomOrder
begin

text \<open>
  Rows of a table by primary key, written the way Zero's \<open>upsert\<close>, \<open>update\<close>, \<open>insert\<close> and \<open>delete\<close>
  are documented to write them, with what a lookup returns afterwards.
\<close>

definition zero_upsert :: "('r \<Rightarrow> 'k) \<Rightarrow> 'r \<Rightarrow> 'r list \<Rightarrow> 'r list" where
  "zero_upsert key row rows =
     (if lookup_by key (key row) rows = None then rows @ [row]
      else update_where (\<lambda>r. key r = key row) (\<lambda>_. row) rows)"

definition zero_update :: "('r \<Rightarrow> 'k) \<Rightarrow> 'k \<Rightarrow> ('r \<Rightarrow> 'r) \<Rightarrow> 'r list \<Rightarrow> 'r list" where
  "zero_update key k f rows = update_where (\<lambda>r. key r = k) f rows"

definition zero_delete :: "('r \<Rightarrow> 'k) \<Rightarrow> 'k \<Rightarrow> 'r list \<Rightarrow> 'r list" where
  "zero_delete key k rows = filter (\<lambda>r. key r \<noteq> k) rows"

named_theorems zero_simps \<open>lookups after writes by primary key\<close>

lemma lookup_update_by_key:
  assumes "\<And>r. key r = k' \<Longrightarrow> key (f r) = k'"
  shows "lookup_by key k (update_where (\<lambda>r. key r = k') f rows) =
           (if k = k' then map_option f (lookup_by key k rows) else lookup_by key k rows)"
  using assms by (induction rows) (auto simp: lookup_by_def update_where_def)

lemma unique_update_by_key:
  assumes "\<And>r. key r = k \<Longrightarrow> key (f r) = k"
  shows "unique_by key (update_where (\<lambda>r. key r = k) f rows) = unique_by key rows"
  using assms by (intro unique_by_update_where) auto

lemma lookup_zero_upsert [zero_simps]:
  "lookup_by key k (zero_upsert key row rows) = (if k = key row then Some row else lookup_by key k rows)"
  by (auto simp: zero_upsert_def lookup_update_by_key lookup_by_append split: option.splits)

lemma lookup_zero_update [zero_simps]:
  "(\<And>r. key r = k' \<Longrightarrow> key (f r) = k') \<Longrightarrow> lookup_by key k (zero_update key k' f rows) =
     (if k = k' then map_option f (lookup_by key k rows) else lookup_by key k rows)"
  unfolding zero_update_def by (rule lookup_update_by_key)

lemma lookup_zero_delete [zero_simps]:
  "lookup_by key k (zero_delete key k' rows) = (if k = k' then None else lookup_by key k rows)"
  by (induction rows) (auto simp: zero_delete_def lookup_by_def)

lemma unique_zero_upsert [zero_simps]: "unique_by key (zero_upsert key row rows) = unique_by key rows"
  using unique_update_by_key [of key "key row" "\<lambda>_. row" rows]
  by (auto simp: zero_upsert_def unique_by_append lookup_by_None)

lemma unique_zero_update [zero_simps]:
  "(\<And>r. key r = k \<Longrightarrow> key (f r) = k) \<Longrightarrow> unique_by key (zero_update key k f rows) = unique_by key rows"
  unfolding zero_update_def by (rule unique_update_by_key)

lemma set_zero_upsert: "set (zero_upsert key row rows) \<subseteq> insert row (set rows)"
  by (auto simp: zero_upsert_def set_update_where)

lemma set_zero_update: "set (zero_update key k f rows) \<subseteq> set rows \<union> f ` {r \<in> set rows. key r = k}"
  by (auto simp: zero_update_def set_update_where)

lemma list_all_zero_upsert: "list_all P rows \<Longrightarrow> P row \<Longrightarrow> list_all P (zero_upsert key row rows)"
  using set_zero_upsert [of key row rows] by (auto simp: list_all_iff)

lemma list_all_zero_update:
  "list_all P rows \<Longrightarrow> (\<And>r. r \<in> set rows \<Longrightarrow> key r = k \<Longrightarrow> P (f r)) \<Longrightarrow> list_all P (zero_update key k f rows)"
  using set_zero_update [of key k f rows] by (auto simp: list_all_iff)

lemma lookup_list_all: "list_all P rows \<Longrightarrow> lookup_by key k rows = Some r \<Longrightarrow> P r"
  by (auto simp: list_all_iff dest: lookup_by_SomeD)

end
