(* ===== verification/MessageTeamSubmission.thy ===== *)
theory MessageTeamSubmission
  imports SubmissionTypes ZeroTables
begin

text \<open>
  The stored team submissions (\<open>sheet-zero-api/src/api/messageTeamSubmission.ts\<close>): one row per source
  message with a version that every upsert raises, and an upsert that can be made conditional on the
  version it expects. The JSON columns are held decoded. A mutator is a transaction: an error changes
  nothing.
\<close>

record submission_key =
  sm_workspace_id :: string
  sm_conversation_id :: string
  sm_message_id :: string

record submission_row =
  ts_key :: submission_key
  ts_client_platform :: string
  ts_client_id :: string
  ts_discord_guild_id :: string
  ts_discord_channel_id :: string
  ts_discord_author_id :: string
  ts_sheet_id :: string
  ts_confirmation_message_id :: "string option"
  ts_parsed_submission :: "parsed_team_entry list"
  ts_row_mappings :: "row_mapping list"
  ts_rollback_snapshot :: "rollback_entry list option"
  ts_version :: int
  ts_status :: submission_status
  ts_audit :: audit

record submission_args =
  ua_key :: submission_key
  ua_client_platform :: string
  ua_client_id :: string
  ua_discord_guild_id :: string
  ua_discord_channel_id :: string
  ua_discord_author_id :: string
  ua_sheet_id :: string
  ua_confirmation_message_id :: "string option option"
  ua_parsed_submission :: "parsed_team_entry list"
  ua_row_mappings :: "row_mapping list"
  ua_rollback_snapshot :: "rollback_entry list option option"
  ua_expected_version :: "int option"
  ua_status :: submission_status

type_synonym submission_db = "submission_row list"

datatype submission_error = VersionConflict | VersionOutOfRange | DiscordMessageTaken

definition find_submission :: "submission_key \<Rightarrow> submission_db \<Rightarrow> submission_row option" where
  "find_submission k db = lookup_by ts_key k db"

text \<open>\<open>getMessageTeamSubmission\<close>.\<close>

definition get_message_team_submission :: "submission_key \<Rightarrow> submission_db \<Rightarrow> submission_row option" where
  "get_message_team_submission k db = active_record ts_audit (find_submission k db)"

definition get_submission_by_discord_message ::
    "string \<Rightarrow> string \<Rightarrow> string \<Rightarrow> submission_db \<Rightarrow> submission_row option" where
  "get_submission_by_discord_message guild channel message db =
     List.find (\<lambda>r. ts_discord_guild_id r = guild \<and> ts_discord_channel_id r = channel \<and>
       sm_message_id (ts_key r) = message \<and> au_deleted_at (ts_audit r) = None) db"

definition submission_row_of :: "int \<Rightarrow> submission_args \<Rightarrow> submission_row option \<Rightarrow> submission_row" where
  "submission_row_of stamp a active =
     \<lparr>ts_key = ua_key a, ts_client_platform = ua_client_platform a, ts_client_id = ua_client_id a,
      ts_discord_guild_id = ua_discord_guild_id a, ts_discord_channel_id = ua_discord_channel_id a,
      ts_discord_author_id = ua_discord_author_id a, ts_sheet_id = ua_sheet_id a,
      ts_confirmation_message_id = preserve_omitted (ua_confirmation_message_id a)
        (Option.bind active ts_confirmation_message_id),
      ts_parsed_submission = ua_parsed_submission a, ts_row_mappings = ua_row_mappings a,
      ts_rollback_snapshot = preserve_omitted (ua_rollback_snapshot a)
        (Option.bind active ts_rollback_snapshot),
      ts_version = (case active of None \<Rightarrow> 1 | Some r \<Rightarrow> ts_version r + 1),
      ts_status = ua_status a,
      ts_audit = upsert_with_timestamps stamp (map_option ts_audit active)\<rparr>"

text \<open>The unique index on the Discord message.\<close>

definition discord_message :: "submission_row \<Rightarrow> string \<times> string \<times> string" where
  "discord_message r = (ts_discord_guild_id r, ts_discord_channel_id r, sm_message_id (ts_key r))"

definition upsert_message_team_submission ::
    "int \<Rightarrow> submission_args \<Rightarrow> (submission_error, unit, submission_db) txn" where
  "upsert_message_team_submission stamp a db =
     (let existing = find_submission (ua_key a) db;
          active = active_record ts_audit existing;
          row = submission_row_of stamp a active
      in if ua_expected_version a \<noteq> None \<and> map_option ts_version active \<noteq> ua_expected_version a
         then (Inl VersionConflict, db)
         else if \<not> int4 (ts_version row) then (Inl VersionOutOfRange, db)
         else if list_ex (\<lambda>r. ts_key r \<noteq> ua_key a \<and> discord_message r = discord_message row) db
         then (Inl DiscordMessageTaken, db)
         else (Inr (), zero_upsert ts_key row db))"

definition set_message_team_submission_confirmation ::
    "int \<Rightarrow> submission_key \<Rightarrow> string \<Rightarrow> (submission_error, unit, submission_db) txn" where
  "set_message_team_submission_confirmation stamp k message db =
     (case get_message_team_submission k db of
        None \<Rightarrow> (Inr (), db)
      | Some _ \<Rightarrow> (Inr (), zero_update ts_key k
          (\<lambda>r. r\<lparr>ts_confirmation_message_id := Some message,
                 ts_audit := update_with_timestamp stamp (ts_audit r)\<rparr>) db))"

subsection \<open>Histories\<close>

datatype submission_mutation =
    UpsertSubmission int submission_args
  | SetConfirmation int submission_key string

fun run_submission_mutation :: "submission_mutation \<Rightarrow> (submission_error, unit, submission_db) txn" where
  "run_submission_mutation (UpsertSubmission stamp a) = upsert_message_team_submission stamp a"
| "run_submission_mutation (SetConfirmation stamp k m) = set_message_team_submission_confirmation stamp k m"

definition run_submission_mutations :: "submission_mutation list \<Rightarrow> submission_db \<Rightarrow> submission_db" where
  "run_submission_mutations ms db = foldl (\<lambda>s m. snd (run_submission_mutation m s)) db ms"

text \<open>The number of upserts of a key that succeed in a history.\<close>

fun successful_upserts :: "submission_key \<Rightarrow> submission_mutation list \<Rightarrow> submission_db \<Rightarrow> nat" where
  "successful_upserts k [] db = 0"
| "successful_upserts k (m # ms) db =
     (case m of
        UpsertSubmission stamp a \<Rightarrow>
          if ua_key a = k \<and> fst (run_submission_mutation m db) = Inr () then 1 else 0
      | SetConfirmation _ _ _ \<Rightarrow> 0) + successful_upserts k ms (snd (run_submission_mutation m db))"

definition rows_live :: "submission_db \<Rightarrow> bool" where
  "rows_live db \<longleftrightarrow> unique_by ts_key db \<and> (\<forall>r \<in> set db. au_deleted_at (ts_audit r) = None)"

definition version_at :: "submission_key \<Rightarrow> submission_db \<Rightarrow> int" where
  "version_at k db = (case find_submission k db of None \<Rightarrow> 0 | Some r \<Rightarrow> ts_version r)"

lemma find_live: "rows_live db \<Longrightarrow> get_message_team_submission k db = find_submission k db"
  by (auto simp: get_message_team_submission_def active_record_def rows_live_def find_submission_def
      dest: lookup_by_SomeD split: option.splits)

lemma submission_row_key [simp]: "ts_key (submission_row_of stamp a active) = ua_key a"
  by (simp add: submission_row_of_def)

lemma find_upserted_submission:
  assumes "upsert_message_team_submission stamp a db = (Inr (), db')"
  shows "find_submission k db' = (if k = ua_key a
           then Some (submission_row_of stamp a (get_message_team_submission k db)) else find_submission k db)"
  using assms
  by (auto simp: upsert_message_team_submission_def Let_def get_message_team_submission_def find_submission_def
      lookup_zero_upsert split: if_splits)

lemma find_confirmed_submission:
  "snd (set_message_team_submission_confirmation stamp k' m db) = db' \<Longrightarrow>
   find_submission k db' = (if k = k' \<and> get_message_team_submission k db \<noteq> None
     then map_option (\<lambda>r. r\<lparr>ts_confirmation_message_id := Some m,
            ts_audit := update_with_timestamp stamp (ts_audit r)\<rparr>) (find_submission k db)
     else find_submission k db)"
  by (auto simp: set_message_team_submission_confirmation_def find_submission_def lookup_zero_update
      split: option.splits)

lemma upsert_error_unchanged: "upsert_message_team_submission stamp a db = (Inl e, db') \<Longrightarrow> db' = db"
  by (auto simp: upsert_message_team_submission_def Let_def split: if_splits)

lemma rows_live_mutation: "rows_live db \<Longrightarrow> rows_live (snd (run_submission_mutation m db))"
proof (cases m)
  case (UpsertSubmission stamp a)
  assume live: "rows_live db"
  define row where "row = submission_row_of stamp a (active_record ts_audit (find_submission (ua_key a) db))"
  have row: "au_deleted_at (ts_audit row) = None"
    by (simp add: row_def submission_row_of_def upsert_with_timestamps_def)
  have "snd (run_submission_mutation m db) = db \<or> snd (run_submission_mutation m db) = zero_upsert ts_key row db"
    by (auto simp: UpsertSubmission upsert_message_team_submission_def Let_def row_def)
  with live row show ?thesis
    using set_zero_upsert [of ts_key row db] by (auto simp: rows_live_def unique_zero_upsert)
next
  case (SetConfirmation stamp k m)
  assume live: "rows_live db"
  then show ?thesis
    using SetConfirmation
    by (auto simp: set_message_team_submission_confirmation_def rows_live_def unique_zero_update
        update_with_timestamp_def split: option.splits dest!: set_zero_update [THEN subsetD])
qed

lemma version_mutation:
  assumes "rows_live db"
  shows "version_at k (snd (run_submission_mutation m db)) =
           version_at k db + int (successful_upserts k [m] db)"
proof (cases m)
  case (UpsertSubmission stamp a)
  show ?thesis
  proof (cases "upsert_message_team_submission stamp a db")
    case (Pair out db')
    show ?thesis
    proof (cases out)
      case (Inl e)
      then show ?thesis using Pair upsert_error_unchanged UpsertSubmission by fastforce
    next
      case (Inr u)
      then show ?thesis
        using find_upserted_submission [of stamp a db db' k] Pair UpsertSubmission find_live [OF assms]
        by (auto simp: version_at_def submission_row_of_def split: option.splits)
    qed
  qed
next
  case (SetConfirmation stamp k' m')
  then show ?thesis
    using find_confirmed_submission [OF refl, of k stamp k' m' db]
    by (auto simp: version_at_def split: option.splits)
qed

lemma run_submission_mutations_simps [simp]:
  "run_submission_mutations [] db = db"
  "run_submission_mutations (m # ms) db = run_submission_mutations ms (snd (run_submission_mutation m db))"
  by (simp_all add: run_submission_mutations_def)

lemma rows_live_history: "rows_live db \<Longrightarrow> rows_live (run_submission_mutations ms db)"
  by (induction ms arbitrary: db) (auto simp: rows_live_mutation)

lemma version_history:
  "rows_live db \<Longrightarrow> version_at k (run_submission_mutations ms db) = version_at k db + int (successful_upserts k ms db)"
proof (induction ms arbitrary: db)
  case (Cons m ms)
  show ?case
    using Cons.IH [OF rows_live_mutation [OF Cons.prems, of m]] version_mutation [OF Cons.prems, of k m]
    by simp
qed simp

lemma find_mutation_kept:
  assumes "rows_live db" and "find_submission k db \<noteq> None"
  shows "find_submission k (snd (run_submission_mutation m db)) \<noteq> None"
proof (cases m)
  case (UpsertSubmission stamp a)
  then show ?thesis
    using assms find_upserted_submission [of stamp a db _ k] upsert_error_unchanged [of stamp a db]
    by (cases "upsert_message_team_submission stamp a db"; cases "fst (upsert_message_team_submission stamp a db)") auto
next
  case (SetConfirmation stamp k' m')
  then show ?thesis
    using assms find_confirmed_submission [OF refl, of k stamp k' m' db] by auto
qed

text \<open>C30: The version of a stored submission counts its successful upserts, and an upsert that
  expects a version is a compare-and-set: of two upserts of one submission that expect the same
  version at most one succeeds, whatever ran in between, and the one that fails changes nothing.\<close>

theorem submission_version_is_compare_and_set:
  assumes "rows_live db" and "ua_key a = k" and "ua_key b = k"
    and "ua_expected_version a = Some v" and "ua_expected_version b = Some v"
    and "upsert_message_team_submission s a db = (Inr (), db1)"
  shows "version_at k db1 = v + 1 \<and>
         version_at k (run_submission_mutations ms db1) = v + 1 + int (successful_upserts k ms db1) \<and>
         upsert_message_team_submission t b (run_submission_mutations ms db1) =
           (Inl VersionConflict, run_submission_mutations ms db1)"
proof -
  from assms obtain r where r: "find_submission k db = Some r" "ts_version r = v"
    by (auto simp: upsert_message_team_submission_def Let_def active_record_def split: if_splits option.splits)
  have m: "snd (run_submission_mutation (UpsertSubmission s a) db) = db1" using assms(6) by simp
  have live: "rows_live db1"
    using rows_live_mutation [OF assms(1), of "UpsertSubmission s a"] by (simp add: assms(6))
  have one: "version_at k db1 = v + 1"
    using version_mutation [OF assms(1), of k "UpsertSubmission s a"] assms r by (simp add: version_at_def)
  let ?db = "run_submission_mutations ms db1"
  have later: "version_at k ?db = v + 1 + int (successful_upserts k ms db1)"
    using version_history [OF live] one by simp
  have "map_option ts_version (get_message_team_submission k ?db) \<noteq> Some v"
    using later find_live [OF rows_live_history [OF live, of ms], of k]
    by (auto simp: version_at_def)
  then have "upsert_message_team_submission t b ?db = (Inl VersionConflict, ?db)"
    using assms by (simp add: upsert_message_team_submission_def get_message_team_submission_def Let_def)
  with one later show ?thesis by blast
qed

definition sample_submission_args :: "int option \<Rightarrow> submission_args" where
  "sample_submission_args v =
     \<lparr>ua_key = \<lparr>sm_workspace_id = ''w'', sm_conversation_id = ''c'', sm_message_id = ''m''\<rparr>,
      ua_client_platform = ''discord'', ua_client_id = ''bot'', ua_discord_guild_id = ''w'',
      ua_discord_channel_id = ''c'', ua_discord_author_id = ''u'', ua_sheet_id = ''s'',
      ua_confirmation_message_id = Some None, ua_parsed_submission = [], ua_row_mappings = [],
      ua_rollback_snapshot = Some (Some []), ua_expected_version = v, ua_status = SubApplying\<rparr>"

definition sample_submissions :: submission_db where
  "sample_submissions = snd (upsert_message_team_submission 1 (sample_submission_args None) [])"

theorem submission_version_is_compare_and_set_witness:
  "upsert_message_team_submission 3 (sample_submission_args (Some 1))
     (snd (upsert_message_team_submission 2 (sample_submission_args (Some 1)) sample_submissions)) =
   (Inl VersionConflict, snd (upsert_message_team_submission 2 (sample_submission_args (Some 1)) sample_submissions))"
proof -
  have "rows_live sample_submissions" by code_simp
  moreover have "fst (upsert_message_team_submission 2 (sample_submission_args (Some 1)) sample_submissions) = Inr ()"
    by code_simp
  ultimately show ?thesis
    using submission_version_is_compare_and_set [where ms = "[]" and db = sample_submissions and s = 2 and t = 3 and
        k = "ua_key (sample_submission_args None)" and v = 1 and
        a = "sample_submission_args (Some 1)" and b = "sample_submission_args (Some 1)"]
    by (cases "upsert_message_team_submission 2 (sample_submission_args (Some 1)) sample_submissions")
      (simp add: sample_submission_args_def)
qed

end
