(* ===== verification/SubmissionEntries.thy ===== *)
theory SubmissionEntries
  imports SubmissionText SheetRanges MessageTeamSubmission
begin

text \<open>
  The entries of a submission (\<open>pure.ts\<close> and the pure helpers of \<open>operations.ts\<close> in
  \<open>sheet-workflows/src/workflows/teamSubmissions\<close>): matching the supporter and the team configuration,
  keeping the keys of entries over edits, the cells to blank and to restore, and the text of the
  confirmation.
\<close>

definition workflow_range_options :: a1_range_options where
  "workflow_range_options = \<lparr>allow_missing_row = True, allow_open_ended_end_range = True,
     infer_end_row_from_values = True\<rparr>"

definition pending_append_rollback_range :: string where
  "pending_append_rollback_range = []"

definition actionable_submission_statuses :: "submission_status set" where
  "actionable_submission_statuses = {SubRegistered, SubUpdated}"

definition editable_submission_statuses :: "submission_status set" where
  "editable_submission_statuses = {SubRegistered, SubUpdated, SubEmpty, SubApplying}"

definition appended_row_index :: "string \<Rightarrow> nat option" where
  "appended_row_index updated_range =
     (if updated_range = [] then None
      else map_option a1_row (parse_a1_start workflow_range_options updated_range))"

text \<open>Trailing empty cells and rows may be missing from what was read.\<close>

definition actual_matches_expected_cells :: "js_text list list \<Rightarrow> js_text list list \<Rightarrow> bool" where
  "actual_matches_expected_cells actual expected \<longleftrightarrow>
     length actual \<le> length expected \<and>
     (\<forall>i < length actual. length (actual ! i) \<le> length (expected ! i)) \<and>
     (\<forall>i < length expected. \<forall>j < length (expected ! i). expected ! i ! j = cell_at actual i j)"

subsection \<open>Supporters\<close>

definition normalized_oshi_text :: "unicode \<Rightarrow> js_text \<Rightarrow> js_text" where
  "normalized_oshi_text U s =
     (let blank = (\<lambda>_ _. js_text '' '');
          s = un_nfkc U s;
          s = rx_replace_all (rx_seq [rx_literal ''<'', rx_optional (rx_literal ''a''), rx_literal '':'',
                RxGroup 1 (rx_plus (RxChar is_word)), rx_literal '':'', rx_plus rx_digit, rx_literal ''>''])
              (\<lambda>m g. js_text '' '' @ group_text 1 m g @ js_text '' '') s;
          s = rx_replace_all (rx_seq [rx_literal ''<@'', rx_optional (rx_one_of ''!&''), rx_plus rx_digit, rx_literal ''>'']) blank s;
          s = rx_replace_all (rx_seq [rx_literal ''<#'', rx_plus rx_digit, rx_literal ''>'']) blank s;
          s = rx_replace_all (rx_plus (RxChar (\<lambda>c. is_space c \<or> c \<in> set (js_text (''*_~|>#'' @ [CHR 0x60]))))) blank s
      in un_lower U (text_trim s))"

text \<open>The loop over the occurrences: one that is no part of a longer word.\<close>

fun whole_occurrence :: "(nat \<Rightarrow> bool) \<Rightarrow> nat option \<Rightarrow> js_text \<Rightarrow> js_text \<Rightarrow> bool" where
  "whole_occurrence wordy prev needle s =
     (prefix needle s \<and> \<not> (case prev of None \<Rightarrow> False | Some c \<Rightarrow> wordy c) \<and>
        \<not> (case drop (length needle) s of [] \<Rightarrow> False | c # _ \<Rightarrow> wordy c) \<or>
      (case s of [] \<Rightarrow> False | c # t \<Rightarrow> whole_occurrence wordy (Some c) needle t))"

declare whole_occurrence.simps [simp del]

definition oshi_values :: "unicode \<Rightarrow> js_text list \<Rightarrow> (js_text \<times> js_text) list" where
  "oshi_values U valid =
     foldl (\<lambda>acc oshi. let n = normalized_oshi_text U oshi in
       if n \<noteq> [] \<and> n \<notin> fst ` set acc then acc @ [(n, oshi)] else acc) [] valid"

definition matching_oshis :: "unicode \<Rightarrow> js_text \<Rightarrow> js_text list \<Rightarrow> js_text list" where
  "matching_oshis U candidate valid =
     (let needle = normalized_oshi_text U candidate; vs = oshi_values U valid in
      case map_of vs needle of
        Some exact \<Rightarrow> [exact]
      | None \<Rightarrow> map snd (filter (\<lambda>(n, _). whole_occurrence (un_letter_or_number U) None n needle) vs))"

definition match_oshi :: "unicode \<Rightarrow> js_text option \<Rightarrow> js_text list \<Rightarrow> parsed_oshi" where
  "match_oshi U candidate valid =
     (case candidate of
        None \<Rightarrow> \<lparr>po_candidate = None, po_value = None, po_status = OshiNone\<rparr>
      | Some c \<Rightarrow>
          if valid = [] then \<lparr>po_candidate = candidate, po_value = None, po_status = OshiNotConfigured\<rparr>
          else (case matching_oshis U c valid of
              [m] \<Rightarrow> \<lparr>po_candidate = candidate, po_value = Some m, po_status = OshiMatched\<rparr>
            | [] \<Rightarrow> \<lparr>po_candidate = candidate, po_value = None, po_status = OshiInvalid\<rparr>
            | _ \<Rightarrow> \<lparr>po_candidate = candidate, po_value = None, po_status = OshiAmbiguous\<rparr>))"

subsection \<open>Team configurations\<close>

datatype tags_config = TagsConstants "js_text list" | TagsRange string

record team_config =
  tc_name :: "js_text option"
  tc_sheet :: "js_text option"
  tc_player_name_range :: "string option"
  tc_team_name_range :: "string option"
  tc_tags_config :: "tags_config option"
  tc_oshi_range :: "string option"

record team_config_lookup =
  lk_config :: team_config
  lk_tags :: "js_text list"
  lk_oshis :: "js_text list"

definition flatten_range_values :: "js_text list list \<Rightarrow> js_text list" where
  "flatten_range_values vals = map text_trim (concat vals)"

definition is_usable_team_config :: "team_config \<Rightarrow> bool" where
  "is_usable_team_config c \<longleftrightarrow> tc_name c \<noteq> None \<and> tc_sheet c \<noteq> None \<and> tc_player_name_range c \<noteq> None"

definition choose_named_team_config :: "team_config_lookup list \<Rightarrow> js_text option \<Rightarrow> team_config_lookup option" where
  "choose_named_team_config configs named =
     (if named \<in> {None, Some []} then None
      else List.find (\<lambda>l. tc_name (lk_config l) = named)
        (filter (\<lambda>l. is_usable_team_config (lk_config l)) configs))"

definition text_includes :: "js_text \<Rightarrow> js_text \<Rightarrow> bool" where
  "text_includes s needle \<longleftrightarrow> list_ex (prefix needle) (suffixes s)"

definition tag_matches_entry :: "unicode \<Rightarrow> js_text \<Rightarrow> parsed_team_entry \<Rightarrow> bool" where
  "tag_matches_entry U tag e \<longleftrightarrow>
     (let n = text_trim (un_lower U tag) in
      n \<in> set (map (un_lower U) (team_type_aliases (pe_team_type e))) \<or>
      n \<in> set (map (un_lower U) (pe_notes e)) \<or>
      n \<noteq> [] \<and> text_includes (un_lower U (pe_team_name e)) n)"

definition choose_team_config ::
    "unicode \<Rightarrow> team_config_lookup list \<Rightarrow> parsed_team_entry \<Rightarrow> js_text option \<Rightarrow> team_config_lookup option" where
  "choose_team_config U configs e named =
     (case choose_named_team_config configs named of
        Some l \<Rightarrow> Some l
      | None \<Rightarrow>
          (let usable = filter (\<lambda>l. is_usable_team_config (lk_config l)) configs;
               score = (\<lambda>l. length (filter (\<lambda>tag. tag_matches_entry U tag e) (lk_tags l)));
               matched = sort_key (\<lambda>l. - int (score l)) (filter (\<lambda>l. score l > 0) usable)
           in case matched of
                l # _ \<Rightarrow> Some l
              | [] \<Rightarrow> (case usable of [l] \<Rightarrow> Some l | _ \<Rightarrow> None)))"

definition writable_ranges :: "team_config \<Rightarrow> (string \<times> string) option" where
  "writable_ranges c =
     (case (tc_player_name_range c, tc_team_name_range c) of
        (Some p, Some t) \<Rightarrow> if p \<noteq> [] \<and> t \<noteq> [] \<and> t \<noteq> ''auto'' then Some (p, t) else None
      | _ \<Rightarrow> None)"

subsection \<open>Keys over edits\<close>

text \<open>The map from an identity (or, for old rows, a type) to the keys that are still free.\<close>

type_synonym available_keys = "(string \<times> string list) list"

definition push_key :: "string \<Rightarrow> string \<Rightarrow> available_keys \<Rightarrow> available_keys" where
  "push_key k v m =
     (case map_of m k of
        None \<Rightarrow> m @ [(k, [v])]
      | Some vs \<Rightarrow> map (\<lambda>(k', vs'). if k' = k then (k', vs' @ [v]) else (k', vs')) m)"

definition drop_key :: "string \<Rightarrow> available_keys \<Rightarrow> available_keys" where
  "drop_key k m = map (\<lambda>(k', vs). if k' = k then (k', tl vs) else (k', vs)) m"

definition entry_identity :: "unicode \<Rightarrow> parsed_team_entry \<Rightarrow> string option" where
  "entry_identity U e = stable_entry_identity U (pe_team_type e) (pe_team_name e) (pe_notes e)"

fun keys_by_identity :: "unicode \<Rightarrow> parsed_team_entry list \<Rightarrow> available_keys \<Rightarrow> available_keys option" where
  "keys_by_identity U [] m = Some m"
| "keys_by_identity U (e # es) m =
     (case entry_identity U e of None \<Rightarrow> None | Some i \<Rightarrow> keys_by_identity U es (push_key i (pe_stable_key e) m))"

definition mapping_type :: "row_mapping \<Rightarrow> string" where
  "mapping_type m = takeWhile (\<lambda>c. c \<noteq> CHR '':'') (rm_stable_key m)"

definition keys_by_type :: "row_mapping list \<Rightarrow> available_keys" where
  "keys_by_type ms =
     foldl (\<lambda>acc m. if mapping_type m \<noteq> [] then push_key (mapping_type m) (rm_stable_key m) acc else acc) [] ms"

fun take_keys :: "unicode \<Rightarrow> available_keys \<Rightarrow> parsed_team_entry list \<Rightarrow> parsed_team_entry list option" where
  "take_keys U m [] = Some []"
| "take_keys U m (e # es) =
     (case entry_identity U e of
        None \<Rightarrow> None
      | Some i \<Rightarrow>
          (let source = (if map_of m i \<noteq> None then i else team_type_text (pe_team_type e)) in
           case map_of m source of
             Some (key # _) \<Rightarrow>
               map_option ((#) (e\<lparr>pe_stable_key := key\<rparr>)) (take_keys U (drop_key source m) es)
           | _ \<Rightarrow> map_option ((#) e) (take_keys U m es)))"

definition preserve_existing_stable_keys ::
    "unicode \<Rightarrow> submission_row \<Rightarrow> parsed_team_entry list \<Rightarrow> parsed_team_entry list option" where
  "preserve_existing_stable_keys U existing entries =
     (case keys_by_identity U (ts_parsed_submission existing) [] of
        None \<Rightarrow> None
      | Some m \<Rightarrow> take_keys U (if m = [] then keys_by_type (ts_row_mappings existing) else m) entries)"

definition existing_mappings :: "submission_row option \<Rightarrow> row_mapping list" where
  "existing_mappings s = (case s of None \<Rightarrow> [] | Some r \<Rightarrow> ts_row_mappings r)"

definition existing_mapping_by_key :: "submission_row option \<Rightarrow> string \<Rightarrow> row_mapping option" where
  "existing_mapping_by_key s k = List.find (\<lambda>m. rm_stable_key m = k) (rev (existing_mappings s))"

definition existing_team_keys :: "submission_row option \<Rightarrow> string list" where
  "existing_team_keys s = js_set (map rm_stable_key (existing_mappings s))"

subsection \<open>Cells to write and to restore\<close>

record processed_entry =
  pr_appended :: bool
  pr_duplicate_targets :: "row_target list"
  pr_entry :: parsed_team_entry
  pr_mapping :: row_mapping
  pr_updates :: "sheet_update list"

definition ranges_for_target :: "row_target \<Rightarrow> string list" where
  "ranges_for_target t =
     [rt_player_name_range t, rt_team_name_range t] @ (case rt_oshi_range t of None \<Rightarrow> [] | Some r \<Rightarrow> [r])"

definition blank_for_target :: "row_target \<Rightarrow> sheet_update list" where
  "blank_for_target t = map (\<lambda>r. \<lparr>su_range = r, su_values = [[[]]]\<rparr>) (ranges_for_target t)"

definition update_for_mapping :: "row_target \<Rightarrow> parsed_team_entry \<Rightarrow> sheet_update list" where
  "update_for_mapping t e =
     [\<lparr>su_range = rt_player_name_range t, su_values = [[pe_player_name e]]\<rparr>,
      \<lparr>su_range = rt_team_name_range t, su_values = [[pe_team_name e]]\<rparr>] @
     (case rt_oshi_range t of
        None \<Rightarrow> []
      | Some r \<Rightarrow> [\<lparr>su_range = r, su_values = [[case po_value (pe_oshi e) of None \<Rightarrow> [] | Some v \<Rightarrow> v]]\<rparr>])"

definition mapping_from_target :: "parsed_team_entry \<Rightarrow> row_target \<Rightarrow> row_mapping" where
  "mapping_from_target e t = \<lparr>rm_stable_key = pe_stable_key e, rm_target = t\<rparr>"

definition blank_removed_rows ::
    "string list \<Rightarrow> string set \<Rightarrow> (string \<Rightarrow> row_mapping option) \<Rightarrow> sheet_update list" where
  "blank_removed_rows previous_keys next_keys previous_mappings =
     concat (map (\<lambda>k. case previous_mappings k of None \<Rightarrow> [] | Some m \<Rightarrow> blank_for_target (rm_target m))
       (filter (\<lambda>k. k \<notin> next_keys) previous_keys))"

definition blank_rollback_snapshot_for_appended_rows :: "processed_entry list \<Rightarrow> rollback_entry list" where
  "blank_rollback_snapshot_for_appended_rows entries =
     concat (map (\<lambda>e. concat (map (\<lambda>t.
         map (\<lambda>r. \<lparr>rb_stable_key = rm_stable_key (pr_mapping e), rb_range = r, rb_values = []\<rparr>) (ranges_for_target t))
       (rm_target (pr_mapping e) # pr_duplicate_targets e)))
     (filter pr_appended entries))"

definition marked_player_name :: "js_text \<Rightarrow> string \<Rightarrow> js_text" where
  "marked_player_name name append_identity =
     name @ [8291] @ js_text (''tiara:'' @ append_identity) @ [8291]"

subsection \<open>The confirmation\<close>

fun oshi_status_text :: "parsed_oshi_status \<Rightarrow> string" where
  "oshi_status_text OshiNone = ''none''"
| "oshi_status_text OshiMatched = ''matched''"
| "oshi_status_text OshiInvalid = ''invalid''"
| "oshi_status_text OshiAmbiguous = ''ambiguous''"
| "oshi_status_text OshiNotConfigured = ''notConfigured''"

definition confirmation_line_for_entry :: "parsed_team_entry \<Rightarrow> js_text" where
  "confirmation_line_for_entry e =
     (let oshi = (if po_status (pe_oshi e) = OshiMatched
            then js_text '' | oshi: '' @ (case po_value (pe_oshi e) of None \<Rightarrow> js_text ''null'' | Some v \<Rightarrow> v)
            else (case po_candidate (pe_oshi e) of
                Some (c # t) \<Rightarrow> js_text '' | oshi: '' @ (c # t) @
                  js_text ('' ('' @ oshi_status_text (po_status (pe_oshi e)) @ '', not assigned)'')
              | _ \<Rightarrow> []))
      in js_text ''- '' @ pe_player_name e @ js_text ('' | '' @ team_type_text (pe_team_type e) @ '' | '') @ pe_team_name e @
         (if pe_notes e \<noteq> [] then js_text '' | notes: '' @ join_text (js_text '', '') (pe_notes e) else []) @ oshi)"

definition confirmation_line_for_skipped_entry :: "skipped_entry \<Rightarrow> js_text" where
  "confirmation_line_for_skipped_entry e =
     js_text ''- skipped '' @ sk_player_name e @ js_text ('' | '' @ team_type_text (sk_team_type e) @ '' | '') @
     sk_team_name e @ js_text '' | reason: '' @ sk_reason e"

definition source_url :: "submission_key \<Rightarrow> string" where
  "source_url k = ''https://discord.com/channels/'' @ sm_workspace_id k @ ''/'' @ sm_conversation_id k @ ''/'' @ sm_message_id k"

definition omitted_summary :: "nat \<Rightarrow> js_text" where
  "omitted_summary n = js_text ''- '' @ [8230] @ js_text ('' and '' @ nat_text n @ '' more'')"

text \<open>The loop: the lines included so far, the rendered length, and the lines not yet looked at.\<close>

fun include_lines :: "nat \<Rightarrow> js_text list \<Rightarrow> js_text list \<Rightarrow> js_text list" where
  "include_lines len included [] = included"
| "include_lines len included (l # ls) =
     (let summary = 1 + length (omitted_summary (Suc (length ls))) in
      if len + 1 + length l + summary > 2000 then included
      else include_lines (len + 1 + length l) (included @ [l]) ls)"

definition render_confirmation :: "submission_key \<Rightarrow> parsed_team_entry list \<Rightarrow> skipped_entry list \<Rightarrow> js_text" where
  "render_confirmation k entries skipped =
     (let url = source_url k in
      if entries = [] \<and> skipped = [] then js_text (''No teams could be parsed from '' @ url @ ''.'')
      else
        (let header = js_text ((if entries = [] then ''Skipped teams from '' else ''Registered teams from '') @ url @ '':'');
             lines = map confirmation_line_for_entry entries @ map confirmation_line_for_skipped_entry skipped;
             included = include_lines (length header) [] lines;
             omitted = length lines - length included
         in join_text [10] ([header] @ included @ (if omitted > 0 then [omitted_summary omitted] else []))))"

end
