(* ===== verification/SubmissionProvider.thy ===== *)
theory SubmissionProvider
  imports SubmissionEntries
begin

text \<open>
  Reading and writing a spreadsheet (\<open>sheet-workflows/src/workflows/teamSubmissions/provider.ts\<close> and
  \<open>readSheetsValueRanges\<close> of \<open>shared/runnerLocalSheets.ts\<close>). The calls of the Google client are functions
  of a state of the outside world; a call returns, fails with a cause, times out after thirty seconds
  or is interrupted. The waits between attempts are not modelled.
\<close>

subsection \<open>The client\<close>

record call_cause =
  cause_quota_reasons :: "string list option"
  cause_status :: "int option"
  cause_code :: "string option"

datatype 'a call_result = CallOk 'a | CallFailed call_cause | CallTimedOut | CallInterrupted

text \<open>A cell as the client returns it; the text of a number is the one \<open>String\<close> gives.\<close>

datatype sheet_cell = CellText js_text | CellNumber js_text | CellBoolean bool | CellMissing

type_synonym raw_value_range = "sheet_cell list list option"

text \<open>\<open>None\<close> is a response without value ranges; a response of another shape is malformed.\<close>

datatype get_response = ValueRanges "raw_value_range list option" | MalformedResponse

record 'w sheets_client =
  client_batch_get :: "string \<Rightarrow> string list \<Rightarrow> 'w \<Rightarrow> get_response call_result \<times> 'w"
  client_batch_update :: "string \<Rightarrow> sheet_update list \<Rightarrow> 'w \<Rightarrow> unit call_result \<times> 'w"
  client_append :: "string \<Rightarrow> string \<Rightarrow> js_text list list \<Rightarrow> 'w \<Rightarrow> string option call_result \<times> 'w"

subsection \<open>Reading\<close>

record value_range =
  vr_range :: string
  vr_values :: "js_text list list"

datatype provider_failure = ReadFailed | WriteFailed bool | ProviderInterrupted

definition transient_sheets_network_codes :: "string set" where
  "transient_sheets_network_codes = {''EAI_AGAIN'', ''ECONNREFUSED'', ''ECONNRESET'', ''ENOTFOUND'', ''ETIMEDOUT''}"

definition is_retryable_read_failure :: "call_cause \<Rightarrow> bool" where
  "is_retryable_read_failure c \<longleftrightarrow>
     (case cause_status c of None \<Rightarrow> False | Some s \<Rightarrow> s = 408 \<or> s = 429 \<or> s \<ge> 500 \<and> s < 600) \<or>
     (case cause_code c of None \<Rightarrow> False | Some k \<Rightarrow> k \<in> transient_sheets_network_codes)"

text \<open>The attempts of a batch read: the first and at most two more.\<close>

fun batch_get_attempts :: "'w sheets_client \<Rightarrow> string \<Rightarrow> string list \<Rightarrow> nat \<Rightarrow> 'w \<Rightarrow> (provider_failure + get_response) \<times> 'w" where
  "batch_get_attempts client sheet ranges retries w =
     (case client_batch_get client sheet ranges w of
        (CallOk r, w') \<Rightarrow> (Inr r, w')
      | (CallInterrupted, w') \<Rightarrow> (Inl ProviderInterrupted, w')
      | (CallFailed c, w') \<Rightarrow>
          (case retries of
             Suc n \<Rightarrow> if is_retryable_read_failure c then batch_get_attempts client sheet ranges n w' else (Inl ReadFailed, w')
           | 0 \<Rightarrow> (Inl ReadFailed, w'))
      | (CallTimedOut, w') \<Rightarrow>
          (case retries of Suc n \<Rightarrow> batch_get_attempts client sheet ranges n w' | 0 \<Rightarrow> (Inl ReadFailed, w')))"

declare batch_get_attempts.simps [simp del]

definition read_sheets_value_ranges ::
    "'w sheets_client \<Rightarrow> string \<Rightarrow> string list \<Rightarrow> 'w \<Rightarrow> (provider_failure + raw_value_range list) \<times> 'w" where
  "read_sheets_value_ranges client sheet ranges w =
     (case batch_get_attempts client sheet ranges 2 w of
        (Inl e, w') \<Rightarrow> (Inl e, w')
      | (Inr MalformedResponse, w') \<Rightarrow> (Inl ReadFailed, w')
      | (Inr (ValueRanges r), w') \<Rightarrow>
          (let received = (case r of None \<Rightarrow> [] | Some rs \<Rightarrow> rs) in
           (if length received = length ranges then Inr received else Inl ReadFailed, w')))"

fun cell_string :: "sheet_cell \<Rightarrow> js_text" where
  "cell_string (CellText s) = s"
| "cell_string (CellNumber s) = s"
| "cell_string (CellBoolean b) = js_text (if b then ''true'' else ''false'')"
| "cell_string CellMissing = []"

definition value_range_rows :: "raw_value_range \<Rightarrow> js_text list list" where
  "value_range_rows r = map (map cell_string) (case r of None \<Rightarrow> [] | Some rows \<Rightarrow> rows)"

definition provider_read ::
    "'w sheets_client \<Rightarrow> string \<Rightarrow> string list \<Rightarrow> 'w \<Rightarrow> (provider_failure + value_range list) \<times> 'w" where
  "provider_read client sheet ranges w =
     (if ranges = [] then (Inr [], w)
      else case read_sheets_value_ranges client sheet ranges w of
        (Inl e, w') \<Rightarrow> (Inl e, w')
      | (Inr rs, w') \<Rightarrow> (Inr (map2 (\<lambda>range r. \<lparr>vr_range = range, vr_values = value_range_rows r\<rparr>) ranges rs), w'))"

subsection \<open>Writing\<close>

definition has_ambiguous_google_quota_reason :: "call_cause \<Rightarrow> bool" where
  "has_ambiguous_google_quota_reason c =
     (case cause_quota_reasons c of
        None \<Rightarrow> False
      | Some rs \<Rightarrow> list_ex (\<lambda>r. r = ''rateLimitExceeded'' \<or> r = ''userRateLimitExceeded'') rs)"

definition is_ambiguous_response_status :: "int option \<Rightarrow> bool" where
  "is_ambiguous_response_status s = (case s of None \<Rightarrow> False | Some n \<Rightarrow> n \<in> {403, 408, 429} \<or> n \<ge> 500)"

definition is_deterministic_response_status :: "int option \<Rightarrow> bool" where
  "is_deterministic_response_status s = (case s of None \<Rightarrow> False | Some n \<Rightarrow> n \<in> {400, 401, 404})"

definition is_deterministic_transport_failure :: "call_cause \<Rightarrow> bool" where
  "is_deterministic_transport_failure c =
     (case cause_code c of None \<Rightarrow> False | Some k \<Rightarrow> k \<in> {''ECONNREFUSED'', ''ENOTFOUND''})"

definition is_ambiguous_write_cause :: "call_cause \<Rightarrow> bool" where
  "is_ambiguous_write_cause c =
     (if has_ambiguous_google_quota_reason c then True
      else if is_ambiguous_response_status (cause_status c) then True
      else if is_deterministic_response_status (cause_status c) then False
      else \<not> is_deterministic_transport_failure c)"

definition write_failure :: "'a call_result \<Rightarrow> provider_failure" where
  "write_failure r =
     (case r of CallFailed c \<Rightarrow> WriteFailed (is_ambiguous_write_cause c) | CallTimedOut \<Rightarrow> WriteFailed True
      | _ \<Rightarrow> ProviderInterrupted)"

definition write_once ::
    "'w sheets_client \<Rightarrow> string \<Rightarrow> sheet_update list \<Rightarrow> 'w \<Rightarrow> (provider_failure + unit) \<times> 'w" where
  "write_once client sheet updates w =
     (case client_batch_update client sheet updates w of
        (CallOk _, w') \<Rightarrow> (Inr (), w')
      | (r, w') \<Rightarrow> (Inl (write_failure r), w'))"

definition updates_match :: "sheet_update list \<Rightarrow> value_range list \<Rightarrow> bool" where
  "updates_match updates live \<longleftrightarrow>
     (\<forall>i < length updates. actual_matches_expected_cells
        (if i < length live then vr_values (live ! i) else []) (su_values (updates ! i)))"

text \<open>
  After an ambiguous failure the ranges are read back; the write is repeated, once, unless they hold
  what was written. \<open>Effect.exit\<close> does not recover the interruption of the workflow itself.
\<close>

definition provider_write ::
    "'w sheets_client \<Rightarrow> string \<Rightarrow> sheet_update list \<Rightarrow> 'w \<Rightarrow> (provider_failure + unit) \<times> 'w" where
  "provider_write client sheet updates w =
     (if updates = [] then (Inr (), w)
      else case write_once client sheet updates w of
        (Inr u, w') \<Rightarrow> (Inr u, w')
      | (Inl e, w') \<Rightarrow>
          if e \<noteq> WriteFailed True then (Inl e, w')
          else case provider_read client sheet (map su_range updates) w' of
            (Inl ProviderInterrupted, w'') \<Rightarrow> (Inl ProviderInterrupted, w'')
          | (Inr live, w'') \<Rightarrow>
              if updates_match updates live then (Inr (), w'') else write_once client sheet updates w''
          | (Inl _, w'') \<Rightarrow> write_once client sheet updates w'')"

definition append_reconciliation_row_limit :: nat where
  "append_reconciliation_row_limit = 1000"

definition end_column_pattern :: "char rx" where
  "end_column_pattern = rx_seq [rx_is CHR '':'', RxGroup 1 (rx_plus (RxChar is_latin_letter)),
     rx_optional (rx_plus (RxChar is_digit)), rx_end]"

definition bounded_append_read_range :: "string \<Rightarrow> string" where
  "bounded_append_read_range rng =
     (case parse_a1_start workflow_range_options rng of
        None \<Rightarrow> rng
      | Some start \<Rightarrow>
          (let end_column = (case rx_exec end_column_pattern (js_trim rng) of
               None \<Rightarrow> a1_column start
             | Some (_, _, g, _) \<Rightarrow> (case rx_group g 1 of None \<Rightarrow> a1_column start | Some c \<Rightarrow> c))
           in quoted_sheet (a1_sheet start) @ ''!'' @ a1_column start @ nat_text (a1_row start) @ '':'' @ end_column @
              nat_text (a1_row start + append_reconciliation_row_limit - 1)))"

definition append_once ::
    "'w sheets_client \<Rightarrow> string \<Rightarrow> string \<Rightarrow> js_text list list \<Rightarrow> 'w \<Rightarrow> (provider_failure + string) \<times> 'w" where
  "append_once client sheet rng vals w =
     (case client_append client sheet rng vals w of
        (CallOk updated, w') \<Rightarrow> (Inr (case updated of None \<Rightarrow> [] | Some r \<Rightarrow> r), w')
      | (r, w') \<Rightarrow> (Inl (write_failure r), w'))"

definition matching_rows :: "js_text list list \<Rightarrow> js_text list list \<Rightarrow> nat list" where
  "matching_rows live vals = filter (\<lambda>i. actual_matches_expected_cells [live ! i] vals) [0..<length live]"

definition provider_append ::
    "'w sheets_client \<Rightarrow> string \<Rightarrow> string \<Rightarrow> js_text list list \<Rightarrow> 'w \<Rightarrow> (provider_failure + string) \<times> 'w" where
  "provider_append client sheet rng vals w =
     (case append_once client sheet rng vals w of
        (Inr updated, w') \<Rightarrow> (Inr updated, w')
      | (Inl e, w') \<Rightarrow>
          if e \<noteq> WriteFailed True then (Inl e, w')
          else (case provider_read client sheet [bounded_append_read_range rng] w' of
              (Inl ProviderInterrupted, w'') \<Rightarrow> (Inl ProviderInterrupted, w'')
            | (Inl _, w'') \<Rightarrow> (Inl e, w'')
            | (Inr live, w'') \<Rightarrow>
                (case parse_a1_start workflow_range_options rng of
                   None \<Rightarrow> (Inl e, w'')
                 | Some start \<Rightarrow>
                     (let rows = (case live of [] \<Rightarrow> [] | v # _ \<Rightarrow> vr_values v) in
                      if length vals = 1 \<and> length (matching_rows rows vals) = 1
                      then (Inr (quoted_sheet (a1_sheet start) @ ''!'' @ a1_column start @
                              nat_text (a1_row start + hd (matching_rows rows vals))), w'')
                      else (Inl e, w'')))))"

record 'w provider =
  pv_read :: "string \<Rightarrow> string list \<Rightarrow> 'w \<Rightarrow> (provider_failure + value_range list) \<times> 'w"
  pv_write :: "string \<Rightarrow> sheet_update list \<Rightarrow> 'w \<Rightarrow> (provider_failure + unit) \<times> 'w"
  pv_append :: "string \<Rightarrow> string \<Rightarrow> js_text list list \<Rightarrow> 'w \<Rightarrow> (provider_failure + string) \<times> 'w"

definition make_team_submission_provider :: "'w sheets_client \<Rightarrow> 'w provider" where
  "make_team_submission_provider client =
     \<lparr>pv_read = provider_read client, pv_write = provider_write client, pv_append = provider_append client\<rparr>"

end
