(* ===== verification/MessageRefs.thy ===== *)
theory MessageRefs
  imports Json
begin

text \<open>
  References to a message of a conversation of a workspace of a client
  (\<open>sheet-bot-api/src/references.ts\<close>), and the parts of a message's text (\<open>src/message.ts\<close>).
\<close>

record message_ref =
  mr_platform :: string
  mr_client_id :: string
  mr_workspace_id :: string
  mr_conversation_id :: string
  mr_message_id :: string

definition member_of :: "string \<Rightarrow> json \<Rightarrow> json option" where
  "member_of name v = (case v of JObj members \<Rightarrow> map_of members name | _ \<Rightarrow> None)"

definition text_of :: "json option \<Rightarrow> string option" where
  "text_of v = (case v of Some (JStr s) \<Rightarrow> Some s | _ \<Rightarrow> None)"

text \<open>The reference a JSON value that decodes as one stands for.\<close>

definition message_ref_of_json :: "json \<Rightarrow> message_ref option" where
  "message_ref_of_json v =
     (let conversation = member_of ''conversation'' v;
          workspace = Option.bind conversation (member_of ''workspace'');
          client = Option.bind workspace (member_of ''client'') in
      case (text_of (Option.bind client (member_of ''platform'')), text_of (Option.bind client (member_of ''clientId'')),
            text_of (Option.bind workspace (member_of ''workspaceId'')),
            text_of (Option.bind conversation (member_of ''conversationId'')), text_of (member_of ''messageId'' v)) of
        (Some platform, Some client_id, Some workspace_id, Some conversation_id, Some message_id) \<Rightarrow>
          Some \<lparr>mr_platform = platform, mr_client_id = client_id, mr_workspace_id = workspace_id,
            mr_conversation_id = conversation_id, mr_message_id = message_id\<rparr>
      | _ \<Rightarrow> None)"

end
