(* ===== verification/WorkflowFailures.thy ===== *)
theory WorkflowFailures
  imports Prelude
begin

text \<open>
  How a step of a workflow ends other than with a value: with a failure its contract declares, with
  another error, with a defect, or interrupted (\<open>sheet-workflow-contracts/src/failures.ts\<close>); the errors of
  the bot (\<open>sheet-bot-api/src/errors.ts\<close>) and the failures they are declared as
  (\<open>sheet-workflows/src/workflows/shared/interactive.ts\<close>). A step works on a state of any type; a failure
  leaves what the step had done.
\<close>

subsection \<open>Failures\<close>

text \<open>\<open>InteractiveDeclaredFailure\<close>, which is also \<open>AutonomousDeclaredFailure\<close>.\<close>

datatype declared_failure =
    AuthorizationRevoked string
  | InvalidRequest string string
  | ResourceNotFound string "string option"
  | ConfigurationMissing string
  | BusinessRuleRejected string string
  | ExternalOperationRejected string string string
  | DeliveryRejected string string "string option" bool

datatype flow_error = Declared declared_failure | Undeclared | Died | Interrupted

text \<open>\<open>BotTransportFailed\<close> also stands for an answer that did not come in time.\<close>

datatype bot_error =
    BotUnauthenticated
  | BotAdmissionDenied
  | BotResourceNotFound
  | BotResponseExpired
  | BotRequestRejected
  | BotRateLimited
  | BotDependencyUnavailable string
  | BotTransportFailed

text \<open>What asking another service, and writing to the store, can come to.\<close>

datatype 'a lookup = Found 'a | LookupFailed | LookupInterrupted

datatype persist_fault = PersistArrives | LostBeforeCommit | LostAfterCommit | InterruptedBeforeCommit | InterruptedAfterCommit

subsection \<open>Steps\<close>

type_synonym ('a, 's) flow_step = "(flow_error, 'a, 's) txn"

text \<open>\<open>Effect.catch\<close>, \<open>Effect.catchCause\<close> (which also sees defects) and \<open>Effect.mapError\<close>.\<close>

definition txn_catch :: "('a, 's) flow_step \<Rightarrow> (flow_error \<Rightarrow> ('a, 's) flow_step) \<Rightarrow> ('a, 's) flow_step" where
  "txn_catch m h s =
     (case m s of
        (Inl e, s') \<Rightarrow> (if e \<in> {Died, Interrupted} then (Inl e, s') else h e s')
      | (Inr a, s') \<Rightarrow> (Inr a, s'))"

definition txn_catch_cause :: "('a, 's) flow_step \<Rightarrow> (flow_error \<Rightarrow> ('a, 's) flow_step) \<Rightarrow> ('a, 's) flow_step" where
  "txn_catch_cause m h s =
     (case m s of
        (Inl e, s') \<Rightarrow> (if e = Interrupted then (Inl e, s') else h e s')
      | (Inr a, s') \<Rightarrow> (Inr a, s'))"

definition map_error :: "(flow_error \<Rightarrow> flow_error) \<Rightarrow> ('a, 's) flow_step \<Rightarrow> ('a, 's) flow_step" where
  "map_error f m = txn_catch m (\<lambda>e. txn_fail (f e))"

text \<open>\<open>Effect.exit\<close>: how a step ended, as a value; an interruption still ends everything.\<close>

definition txn_exit :: "('a, 's) flow_step \<Rightarrow> (flow_error + 'a, 's) flow_step" where
  "txn_exit m s = (case m s of (Inl Interrupted, s') \<Rightarrow> (Inl Interrupted, s') | (r, s') \<Rightarrow> (Inr r, s'))"

fun txn_fold :: "('b \<Rightarrow> 'a \<Rightarrow> ('b, 's) flow_step) \<Rightarrow> 'b \<Rightarrow> 'a list \<Rightarrow> ('b, 's) flow_step" where
  "txn_fold f b [] = txn_return b"
| "txn_fold f b (x # xs) = txn_bind (f b x) (\<lambda>b'. txn_fold f b' xs)"

text \<open>\<open>preserveInteractiveDeclaredFailure\<close>: an error that is not declared becomes a defect.\<close>

definition preserve_declared_failure :: "('a, 's) flow_step \<Rightarrow> ('a, 's) flow_step" where
  "preserve_declared_failure m = map_error (\<lambda>e. case e of Declared f \<Rightarrow> Declared f | _ \<Rightarrow> Died) m"

subsection \<open>The bot's errors as declared failures\<close>

definition map_bot_authorization_failure :: "string \<Rightarrow> bot_error \<Rightarrow> declared_failure option" where
  "map_bot_authorization_failure pol e =
     (if e \<in> {BotUnauthenticated, BotAdmissionDenied} then Some (AuthorizationRevoked pol) else None)"

definition map_bot_admission_or_resource_failure :: "string \<Rightarrow> string \<Rightarrow> bot_error \<Rightarrow> declared_failure option" where
  "map_bot_admission_or_resource_failure pol res e =
     (case map_bot_authorization_failure pol e of
        Some f \<Rightarrow> Some f
      | None \<Rightarrow> if e = BotResourceNotFound then Some (ResourceNotFound res None) else None)"

definition map_bot_known_request_failure ::
    "string \<Rightarrow> string \<Rightarrow> bot_error \<Rightarrow> declared_failure \<Rightarrow> declared_failure option" where
  "map_bot_known_request_failure pol res e on_rejected =
     (case map_bot_admission_or_resource_failure pol res e of
        Some f \<Rightarrow> Some f
      | None \<Rightarrow> if e = BotRequestRejected then Some on_rejected else None)"

definition map_bot_cache_failure :: "string \<Rightarrow> string \<Rightarrow> bot_error \<Rightarrow> flow_error" where
  "map_bot_cache_failure pol res e =
     (case map_bot_known_request_failure pol res e
         (InvalidRequest ''ProviderRequestRejected'' (''The '' @ res @ '' request was rejected'')) of
        Some f \<Rightarrow> Declared f | None \<Rightarrow> Undeclared)"

definition map_delivery_failure ::
    "string \<Rightarrow> string \<Rightarrow> string \<Rightarrow> bool \<Rightarrow> string \<Rightarrow> string option \<Rightarrow> bot_error \<Rightarrow> flow_error" where
  "map_delivery_failure pol operation res recovery_required rejected_message committed e =
     (if e = BotResponseExpired
      then Declared (DeliveryRejected operation ''The response is no longer available'' committed recovery_required)
      else case map_bot_known_request_failure pol res e
          (DeliveryRejected operation rejected_message committed recovery_required) of
        Some f \<Rightarrow> Declared f | None \<Rightarrow> Undeclared)"

end
