(* ===== verification/SubmissionFlow.thy ===== *)
theory SubmissionFlow
  imports SubmissionProvider MessageRefs WorkflowFailures
begin

text \<open>
  The processing of a submission message (\<open>process\<close> of
  \<open>sheet-workflows/src/workflows/teamSubmissions/operations.ts\<close>). The state holds the stored submissions,
  the outside world (the sheet, the bot, the network) and the calls made so far, in order, with what
  came of them. The answers of the other services are functions of the world. A call to the store may
  be lost before or after it takes effect. Logging is left out.
\<close>

subsection \<open>Failures\<close>

definition external_failure :: "string \<Rightarrow> flow_error \<Rightarrow> flow_error" where
  "external_failure operation e =
     (case e of
        Declared f \<Rightarrow> Declared f
      | Undeclared \<Rightarrow> Declared (ExternalOperationRejected operation ''ProviderUnavailable''
          ''The team-submission workflow dependency was unavailable'')
      | other \<Rightarrow> other)"

subsection \<open>State and services\<close>

definition submission_key_of :: "message_ref \<Rightarrow> submission_key" where
  "submission_key_of m = \<lparr>sm_workspace_id = mr_workspace_id m, sm_conversation_id = mr_conversation_id m,
     sm_message_id = mr_message_id m\<rparr>"

datatype message_content =
    ProgressMessage message_ref
  | ResultMessage js_text bool
  | WriteFailureMessage
  | RollbackFailedMessage string
  | ResponseMessage string

datatype delivery =
    SendMessage message_ref message_content
  | EditMessage message_ref message_content
  | DeleteMessage message_ref
  | SetReaction message_ref bool
  | Respond string message_content

record receipt =
  rc_delivery_key :: string
  rc_message :: message_ref

datatype delivery_outcome = Delivered receipt | NotDelivered | DeliveryInterrupted

datatype authorization = Authorized | Unauthorized | AuthorizationLookupFailed | AuthorizationInterrupted

record submission_channel =
  ch_destination_team_config_name :: "js_text option"
  ch_require_valid_oshi :: bool

record 'w services =
  sv_unicode :: unicode
  sv_hash_suffix :: "string \<Rightarrow> string"
  sv_sheet_bot_client_id :: string
  sv_provider :: "'w provider"
  sv_authorize_process :: "message_ref \<Rightarrow> 'w \<Rightarrow> authorization \<times> 'w"
  sv_authorize_decide :: "message_ref \<Rightarrow> 'w \<Rightarrow> authorization \<times> 'w"
  sv_feature_flags :: "string \<Rightarrow> 'w \<Rightarrow> string list lookup \<times> 'w"
  sv_sheet_id :: "string \<Rightarrow> 'w \<Rightarrow> string option lookup \<times> 'w"
  sv_channel :: "string \<Rightarrow> string \<Rightarrow> 'w \<Rightarrow> submission_channel option lookup \<times> 'w"
  sv_get_fault :: "'w \<Rightarrow> unit lookup \<times> 'w"
  sv_oshis_range :: "string \<Rightarrow> 'w \<Rightarrow> string option lookup \<times> 'w"
  sv_team_configs :: "string \<Rightarrow> 'w \<Rightarrow> team_config list lookup \<times> 'w"
  sv_persist_fault :: "'w \<Rightarrow> (int \<times> persist_fault) \<times> 'w"
  sv_deliver :: "string \<Rightarrow> delivery \<Rightarrow> 'w \<Rightarrow> delivery_outcome \<times> 'w"

datatype call =
    CallUpsert submission_args bool
  | CallConfirmation submission_key string bool
  | CallRead string "string list" "value_range list option"
  | CallWrite string "sheet_update list" bool
  | CallAppend string string "js_text list"
  | CallDeliver string delivery

record 'w flow =
  fl_submissions :: submission_db
  fl_world :: 'w
  fl_calls :: "call list"

type_synonym ('a, 'w) step = "(flow_error, 'a, 'w flow) txn"

definition log_call :: "call \<Rightarrow> 'w flow \<Rightarrow> 'w flow" where
  "log_call c s = s\<lparr>fl_calls := fl_calls s @ [c]\<rparr>"

definition look_up :: "('w \<Rightarrow> 'a lookup \<times> 'w) \<Rightarrow> ('a, 'w) step" where
  "look_up f s =
     (case f (fl_world s) of
        (Found a, w) \<Rightarrow> (Inr a, s\<lparr>fl_world := w\<rparr>)
      | (LookupFailed, w) \<Rightarrow> (Inl Undeclared, s\<lparr>fl_world := w\<rparr>)
      | (LookupInterrupted, w) \<Rightarrow> (Inl Interrupted, s\<lparr>fl_world := w\<rparr>))"

definition provider_error :: "provider_failure \<Rightarrow> flow_error" where
  "provider_error e = (if e = ProviderInterrupted then Interrupted else Undeclared)"

definition provider_step ::
    "('w \<Rightarrow> (provider_failure + 'a) \<times> 'w) \<Rightarrow> ('a option \<Rightarrow> call) \<Rightarrow> ('a, 'w) step" where
  "provider_step f c s =
     (case f (fl_world s) of
        (Inl e, w) \<Rightarrow> (Inl (provider_error e), log_call (c None) (s\<lparr>fl_world := w\<rparr>))
      | (Inr a, w) \<Rightarrow> (Inr a, log_call (c (Some a)) (s\<lparr>fl_world := w\<rparr>)))"

definition read_ranges :: "'w services \<Rightarrow> string \<Rightarrow> string list \<Rightarrow> (value_range list, 'w) step" where
  "read_ranges S sheet ranges = provider_step (pv_read (sv_provider S) sheet ranges) (CallRead sheet ranges)"

definition write_updates :: "'w services \<Rightarrow> string \<Rightarrow> sheet_update list \<Rightarrow> (unit, 'w) step" where
  "write_updates S sheet updates =
     provider_step (pv_write (sv_provider S) sheet updates) (\<lambda>r. CallWrite sheet updates (r \<noteq> None))"

definition append_row :: "'w services \<Rightarrow> string \<Rightarrow> string \<Rightarrow> js_text list \<Rightarrow> (string, 'w) step" where
  "append_row S sheet rng row =
     provider_step (pv_append (sv_provider S) sheet rng [row]) (\<lambda>_. CallAppend sheet rng row)"

text \<open>A mutation sent to the store: it commits unless it is lost before or rejected.\<close>

definition mutate_store ::
    "'w services \<Rightarrow> (int \<Rightarrow> (submission_error, unit, submission_db) txn) \<Rightarrow> (bool \<Rightarrow> call) \<Rightarrow> (unit, 'w) step" where
  "mutate_store S m c s =
     (case sv_persist_fault S (fl_world s) of
        ((stamp, fault), w) \<Rightarrow>
          (if fault \<in> {LostBeforeCommit, InterruptedBeforeCommit}
           then (Inl (if fault = LostBeforeCommit then Undeclared else Interrupted),
             log_call (c False) (s\<lparr>fl_world := w\<rparr>))
           else case m stamp (fl_submissions s) of
             (Inl e, db) \<Rightarrow> (Inl Undeclared, log_call (c False) (s\<lparr>fl_world := w, fl_submissions := db\<rparr>))
           | (Inr u, db) \<Rightarrow>
               (if fault = PersistArrives then Inr () else Inl (if fault = LostAfterCommit then Undeclared else Interrupted),
                log_call (c True) (s\<lparr>fl_world := w, fl_submissions := db\<rparr>))))"

definition upsert_submission :: "'w services \<Rightarrow> submission_args \<Rightarrow> (unit, 'w) step" where
  "upsert_submission S a = mutate_store S (\<lambda>stamp. upsert_message_team_submission stamp a) (CallUpsert a)"

definition set_confirmation :: "'w services \<Rightarrow> submission_key \<Rightarrow> string \<Rightarrow> (unit, 'w) step" where
  "set_confirmation S k m =
     mutate_store S (\<lambda>stamp. set_message_team_submission_confirmation stamp k m) (CallConfirmation k m)"

definition get_submission :: "'w services \<Rightarrow> message_ref \<Rightarrow> (submission_row option, 'w) step" where
  "get_submission S m = txn_bind (look_up (sv_get_fault S))
     (\<lambda>_ s. (Inr (get_message_team_submission (submission_key_of m) (fl_submissions s)), s))"

definition deliver :: "'w services \<Rightarrow> string \<Rightarrow> delivery \<Rightarrow> (receipt, 'w) step" where
  "deliver S key d s =
     (case sv_deliver S key d (fl_world s) of
        (Delivered r, w) \<Rightarrow> (Inr r, log_call (CallDeliver key d) (s\<lparr>fl_world := w\<rparr>))
      | (NotDelivered, w) \<Rightarrow> (Inl Undeclared, log_call (CallDeliver key d) (s\<lparr>fl_world := w\<rparr>))
      | (DeliveryInterrupted, w) \<Rightarrow> (Inl Interrupted, log_call (CallDeliver key d) (s\<lparr>fl_world := w\<rparr>)))"

subsection \<open>Delivery keys\<close>

text \<open>\<open>hash_suffix\<close> stands for the SHA-256 of the JSON text of the suffix in base64url.\<close>

datatype action_identity =
    ActProcess | ActDecide | ActProgress | ActReaction | ActConfirmation | ActWriteFailure
  | ActConfirmationControls | ActCleanup | ActRollback

fun action_text :: "action_identity \<Rightarrow> string" where
  "action_text ActProcess = ''process''"
| "action_text ActDecide = ''decide''"
| "action_text ActProgress = ''progress''"
| "action_text ActReaction = ''reaction''"
| "action_text ActConfirmation = ''confirmation''"
| "action_text ActWriteFailure = ''write-failure''"
| "action_text ActConfirmationControls = ''confirmation-controls''"
| "action_text ActCleanup = ''cleanup''"
| "action_text ActRollback = ''rollback''"

definition delivery_key :: "(string \<Rightarrow> string) \<Rightarrow> string \<Rightarrow> action_identity \<Rightarrow> string option \<Rightarrow> string" where
  "delivery_key hash_suffix invocation act suff =
     ''teamSubmissions:1:1:'' @ invocation @ '':'' @ action_text act @
     (case suff of None \<Rightarrow> [] | Some x \<Rightarrow> '':'' @ hash_suffix x)"

end
