(* ===== verification/SubmissionProcess.thy ===== *)
theory SubmissionProcess
  imports SubmissionFlow
begin

text \<open>
  \<open>process\<close> of \<open>operations.ts\<close>: what a message becomes in the sheet. Every value of the surrounding
  closure that the handler changes is a field of \<open>run\<close>. The handler resolves the row of each entry
  (appending one at the end of the sheet when there is none), stores a snapshot for a rollback, writes
  the cells and reports in the conversation.
\<close>

subsection \<open>The store\<close>

definition source_record ::
    "message_ref \<Rightarrow> string \<Rightarrow> string \<Rightarrow> string option \<Rightarrow> parsed_team_entry list \<Rightarrow> row_mapping list \<Rightarrow>
     rollback_entry list option \<Rightarrow> submission_status \<Rightarrow> int option \<Rightarrow> submission_args" where
  "source_record source author sheet confirmation entries mappings snapshot status expected =
     \<lparr>ua_key = submission_key_of source, ua_client_platform = mr_platform source,
      ua_client_id = mr_client_id source, ua_discord_guild_id = mr_workspace_id source,
      ua_discord_channel_id = mr_conversation_id source, ua_discord_author_id = author,
      ua_sheet_id = sheet, ua_confirmation_message_id = Some confirmation,
      ua_parsed_submission = entries, ua_row_mappings = mappings,
      ua_rollback_snapshot = Some snapshot, ua_expected_version = expected, ua_status = status\<rparr>"

record process_input =
  pi_source_message :: message_ref
  pi_author_id :: string
  pi_author_display_name :: js_text
  pi_content :: js_text

record process_execution =
  px_invocation_id :: string
  px_input :: process_input

record run =
  rn_version :: int
  rn_persisted :: bool
  rn_interim_mappings :: "row_mapping list"
  rn_recovery_snapshot :: "rollback_entry list"
  rn_registered :: "processed_entry list"
  rn_skipped :: "skipped_entry list"

text \<open>What the handler has read before it starts to write.\<close>

record run_context =
  cx_input :: process_input
  cx_sheet_id :: string
  cx_existing :: "submission_row option"
  cx_channel :: submission_channel
  cx_team_configs :: "team_config_lookup list"
  cx_parsed_oshi_candidate :: "js_text option"
  cx_parsed_entries :: "parsed_team_entry list"

definition persist_current ::
    "'w services \<Rightarrow> run_context \<Rightarrow> run \<Rightarrow> parsed_team_entry list \<Rightarrow> row_mapping list \<Rightarrow> rollback_entry list \<Rightarrow>
     submission_status \<Rightarrow> (run, 'w) step" where
  "persist_current S cx run entries mappings snapshot status =
     txn_bind (upsert_submission S (source_record (pi_source_message (cx_input cx)) (pi_author_id (cx_input cx))
         (cx_sheet_id cx) (Option.bind (cx_existing cx) ts_confirmation_message_id) entries mappings (Some snapshot) status
         (if rn_persisted run then Some (rn_version run) else None)))
       (\<lambda>_. txn_return (run\<lparr>rn_version := (if rn_persisted run then rn_version run + 1 else 1), rn_persisted := True\<rparr>))"

definition before_append :: "'w services \<Rightarrow> run_context \<Rightarrow> run \<Rightarrow> row_mapping \<Rightarrow> (run, 'w) step" where
  "before_append S cx run m =
     persist_current S cx run
       (map pr_entry (rn_registered run) @ filter (\<lambda>e. pe_stable_key e = rm_stable_key m) (cx_parsed_entries cx))
       (rn_interim_mappings run @ [m])
       (filter (\<lambda>r. rb_stable_key r \<noteq> rm_stable_key m) (rn_recovery_snapshot run) @
          [\<lparr>rb_stable_key = rm_stable_key m, rb_range = pending_append_rollback_range, rb_values = []\<rparr>])
       SubApplying"

subsection \<open>The row of an entry\<close>

record resolved_target =
  rs_target :: row_target
  rs_duplicate_targets :: "row_target list"
  rs_appended :: bool

definition base_row :: "append_range \<Rightarrow> nat" where
  "base_row ar = (case parse_a1_start workflow_range_options (ar_range ar) of None \<Rightarrow> 1 | Some c \<Rightarrow> a1_row c)"

definition matches_marked :: "js_text list \<Rightarrow> js_text list \<Rightarrow> bool" where
  "matches_marked expected row = actual_matches_expected_cells [row] [expected]"

definition matches_expected :: "js_text list \<Rightarrow> js_text list \<Rightarrow> js_text list \<Rightarrow> bool" where
  "matches_expected expected clean_expected row \<longleftrightarrow>
     actual_matches_expected_cells [row] [expected] \<or> actual_matches_expected_cells [row] [clean_expected]"

definition first_values :: "value_range list \<Rightarrow> js_text list list" where
  "first_values ranges = (case ranges of [] \<Rightarrow> [] | r # _ \<Rightarrow> vr_values r)"

definition resolve_reconciled_target ::
    "append_range \<Rightarrow> js_text list \<Rightarrow> js_text list \<Rightarrow> row_target \<Rightarrow> value_range list \<Rightarrow> resolved_target option" where
  "resolve_reconciled_target ar expected clean_expected blueprint ranges =
     (let rows = first_values ranges;
          indices = (\<lambda>p. filter (\<lambda>i. p (rows ! i)) [0..<length rows]);
          marked = indices (matches_marked expected);
          matches = (if marked \<noteq> [] then marked else take 1 (indices (matches_expected expected clean_expected)));
          targets = List.map_filter (\<lambda>i. appended_row_target workflow_range_options
            (blueprint\<lparr>rt_row_index := base_row ar + i\<rparr>)) matches
      in case targets of
           [] \<Rightarrow> None
         | t # ts \<Rightarrow> Some \<lparr>rs_target = t, rs_duplicate_targets = ts, rs_appended = True\<rparr>)"

definition resolve_existing_mapping ::
    "append_range \<Rightarrow> js_text list \<Rightarrow> js_text list \<Rightarrow> row_target \<Rightarrow> row_mapping \<Rightarrow> value_range list \<Rightarrow> resolved_target" where
  "resolve_existing_mapping ar expected clean_expected blueprint m ranges =
     (let rows = first_values ranges; mapped = rt_row_index (rm_target m);
          unchanged = \<lparr>rs_target = rm_target m, rs_duplicate_targets = [], rs_appended = False\<rparr>
      in if base_row ar \<le> mapped \<and> mapped - base_row ar < length rows \<and>
            matches_expected expected clean_expected (rows ! (mapped - base_row ar))
         then unchanged
         else case resolve_reconciled_target ar expected clean_expected blueprint ranges of
           Some r \<Rightarrow> r
         | None \<Rightarrow> unchanged)"

definition reconciliation_failed :: "string \<Rightarrow> string \<Rightarrow> flow_error" where
  "reconciliation_failed code message = Declared (ExternalOperationRejected ''teamSubmissions.process.append'' code message)"

definition append_fresh_row ::
    "'w services \<Rightarrow> run_context \<Rightarrow> run \<Rightarrow> parsed_team_entry \<Rightarrow> append_range \<Rightarrow> js_text list \<Rightarrow> js_text list \<Rightarrow>
     row_target \<Rightarrow> (resolved_target \<times> run, 'w) step" where
  "append_fresh_row S cx run e ar expected clean_expected blueprint =
     txn_bind (before_append S cx run \<lparr>rm_stable_key = pe_stable_key e, rm_target = blueprint\<lparr>rt_row_index := 0\<rparr>\<rparr>) (\<lambda>run'.
     txn_bind (append_row S (cx_sheet_id cx) (ar_range ar) expected) (\<lambda>updated.
       case Option.bind (appended_row_index updated)
              (\<lambda>i. appended_row_target workflow_range_options (blueprint\<lparr>rt_row_index := i\<rparr>)) of
         Some t \<Rightarrow> txn_return (\<lparr>rs_target = t, rs_duplicate_targets = [], rs_appended = True\<rparr>, run')
       | None \<Rightarrow>
           txn_bind (read_ranges S (cx_sheet_id cx) [ar_range ar]) (\<lambda>ranges.
             case resolve_reconciled_target ar expected clean_expected blueprint ranges of
               Some r \<Rightarrow> txn_return (r, run')
             | None \<Rightarrow> txn_fail (reconciliation_failed ''AppendReconciliationFailed''
                 ''The appended team row could not be reconciled''))))"

definition resolve_append_target ::
    "'w services \<Rightarrow> run_context \<Rightarrow> run \<Rightarrow> string \<Rightarrow> parsed_team_entry \<Rightarrow> parsed_oshi \<Rightarrow> string \<Rightarrow> string \<Rightarrow> string option \<Rightarrow>
     row_mapping option \<Rightarrow> (resolved_target \<times> run, 'w) step" where
  "resolve_append_target S cx run append_identity e oshi player_range team_range oshi_range previous =
     (case append_range_for_cells workflow_range_options player_range team_range oshi_range of
        None \<Rightarrow> txn_fail (Declared (InvalidRequest ''InvalidTeamConfig''
          ''The configured team ranges cannot be appended as one row''))
      | Some ar \<Rightarrow>
          (let marked = e\<lparr>pe_player_name := marked_player_name (pe_player_name e) append_identity\<rparr>;
               expected = append_row_values ar marked oshi;
               clean_expected = append_row_values ar e oshi;
               blueprint = \<lparr>rt_row_index = 0, rt_player_name_range = player_range,
                 rt_team_name_range = team_range, rt_oshi_range = oshi_range\<rparr>
           in case previous of
                None \<Rightarrow> append_fresh_row S cx run e ar expected clean_expected blueprint
              | Some m \<Rightarrow>
                  txn_bind (read_ranges S (cx_sheet_id cx) [ar_range ar]) (\<lambda>ranges.
                    if rt_row_index (rm_target m) > 0
                    then txn_return (resolve_existing_mapping ar expected clean_expected blueprint m ranges, run)
                    else case resolve_reconciled_target ar expected clean_expected blueprint ranges of
                      Some r \<Rightarrow> txn_return (r, run)
                    | None \<Rightarrow> txn_fail (reconciliation_failed ''AppendPendingReconciliation''
                        ''A pending team row append could not be reconciled safely''))))"

subsection \<open>The entries\<close>

definition skip_entry :: "parsed_team_entry \<Rightarrow> js_text \<Rightarrow> run \<Rightarrow> run" where
  "skip_entry e reason run =
     run\<lparr>rn_skipped := rn_skipped run @ [\<lparr>sk_stable_key = pe_stable_key e, sk_player_name = pe_player_name e,
       sk_team_name = pe_team_name e, sk_team_type = pe_team_type e, sk_reason = reason\<rparr>]\<rparr>"

text \<open>\<open>Map.set\<close> keeps the place of a key that is there.\<close>

definition set_mapping :: "row_mapping \<Rightarrow> row_mapping list \<Rightarrow> row_mapping list" where
  "set_mapping m ms =
     (if list_ex (\<lambda>x. rm_stable_key x = rm_stable_key m) ms
      then map (\<lambda>x. if rm_stable_key x = rm_stable_key m then m else x) ms else ms @ [m])"

definition append_identity_of :: "message_ref \<Rightarrow> string \<Rightarrow> string" where
  "append_identity_of m key =
     mr_workspace_id m @ '':'' @ mr_conversation_id m @ '':'' @ mr_message_id m @ '':'' @ key"

definition process_entry :: "'w services \<Rightarrow> run_context \<Rightarrow> run \<Rightarrow> parsed_team_entry \<Rightarrow> (run, 'w) step" where
  "process_entry S cx run e =
     (let selected = choose_team_config (sv_unicode S) (cx_team_configs cx) e
            (ch_destination_team_config_name (cx_channel cx))
      in case (selected, Option.bind selected (\<lambda>l. writable_ranges (lk_config l))) of
        (Some l, Some (player_range, team_range)) \<Rightarrow>
          (let candidate = (case po_candidate (pe_oshi e) of Some c \<Rightarrow> Some c | None \<Rightarrow> cx_parsed_oshi_candidate cx);
               oshi = match_oshi (sv_unicode S) candidate (lk_oshis l)
           in if ch_require_valid_oshi (cx_channel cx) \<and> po_status oshi \<noteq> OshiMatched
              then txn_return (skip_entry e (case candidate of None \<Rightarrow> js_text ''Oshi is required''
                     | Some c \<Rightarrow> js_text ''Oshi '' @ c @ js_text '' is not valid'') run)
              else
                txn_bind (resolve_append_target S cx run
                    (append_identity_of (pi_source_message (cx_input cx)) (pe_stable_key e)) e oshi
                    player_range team_range (tc_oshi_range (lk_config l))
                    (existing_mapping_by_key (cx_existing cx) (pe_stable_key e)))
                  (\<lambda>(r, run).
                    let e' = e\<lparr>pe_team_config_name := tc_name (lk_config l), pe_oshi := oshi\<rparr>;
                        p = \<lparr>pr_appended = rs_appended r, pr_duplicate_targets = rs_duplicate_targets r, pr_entry = e',
                             pr_mapping = mapping_from_target e (rs_target r),
                             pr_updates = update_for_mapping (rs_target r) e'\<rparr>;
                        run = run\<lparr>rn_registered := rn_registered run @ [p],
                                  rn_interim_mappings := set_mapping (pr_mapping p) (rn_interim_mappings run)\<rparr>
                    in if \<not> pr_appended p then txn_return run
                       else
                         (let run = run\<lparr>rn_recovery_snapshot :=
                                filter (\<lambda>r. rb_stable_key r \<noteq> rm_stable_key (pr_mapping p)) (rn_recovery_snapshot run) @
                                blank_rollback_snapshot_for_appended_rows [p]\<rparr>
                          in persist_current S cx run (map pr_entry (rn_registered run)) (rn_interim_mappings run)
                               (rn_recovery_snapshot run) SubApplying)))
      | _ \<Rightarrow> txn_return (skip_entry e (js_text ''No writable team config matched this team'') run))"

subsection \<open>The configuration of a workspace\<close>

definition team_config_tags :: "team_config \<Rightarrow> string option \<times> js_text list" where
  "team_config_tags c =
     (case tc_tags_config c of
        None \<Rightarrow> (None, [])
      | Some (TagsRange r) \<Rightarrow> (Some r, [])
      | Some (TagsConstants ts) \<Rightarrow> (None, ts))"

definition values_by_requested_range :: "value_range list \<Rightarrow> string list \<Rightarrow> string \<Rightarrow> js_text list list option" where
  "values_by_requested_range ranges requested r =
     map_of (rev (map (\<lambda>(i, r). (r, if i < length ranges then vr_values (ranges ! i) else []))
       (List.enumerate 0 requested))) r"

definition make_team_config_lookups ::
    "string option \<Rightarrow> team_config list \<Rightarrow> (string \<Rightarrow> js_text list list option) \<Rightarrow> team_config_lookup list" where
  "make_team_config_lookups oshis_range configs values_of =
     (let texts = (\<lambda>r. flatten_range_values (case values_of r of None \<Rightarrow> [] | Some v \<Rightarrow> v));
          valid = (case oshis_range of None \<Rightarrow> [] | Some r \<Rightarrow> texts r)
      in map (\<lambda>c. \<lparr>lk_config = c,
           lk_tags = (case team_config_tags c of (None, ts) \<Rightarrow> ts | (Some r, _) \<Rightarrow> texts r),
           lk_oshis = valid\<rparr>) configs)"

definition load_team_configs :: "'w services \<Rightarrow> string \<Rightarrow> string \<Rightarrow> (team_config_lookup list, 'w) step" where
  "load_team_configs S workspace sheet =
     txn_bind (look_up (sv_oshis_range S workspace)) (\<lambda>oshis_range.
     txn_bind (look_up (sv_team_configs S workspace)) (\<lambda>configs.
       let tag_ranges = List.map_filter (\<lambda>c. fst (team_config_tags c)) configs;
           requested = js_set ((case oshis_range of None \<Rightarrow> [] | Some r \<Rightarrow> [r]) @ tag_ranges)
       in txn_bind (read_ranges S sheet requested) (\<lambda>vals.
            txn_return (make_team_config_lookups oshis_range configs (values_by_requested_range vals requested)))))"

text \<open>The snapshot of the cells about to be written.\<close>

definition read_snapshot ::
    "'w services \<Rightarrow> string \<Rightarrow> sheet_update list \<Rightarrow> (string \<Rightarrow> string option) \<Rightarrow> (rollback_entry list, 'w) step" where
  "read_snapshot S sheet updates stable_key_by_range =
     (let requested = js_set (map su_range updates) in
      if requested = [] then txn_return []
      else txn_bind (read_ranges S sheet requested) (\<lambda>ranges.
        txn_return (concat (map (\<lambda>(i, r).
          (let resolved = (if vr_range r \<noteq> [] then vr_range r
                 else if i < length requested then requested ! i else [])
           in if resolved = [] then []
              else [\<lparr>rb_stable_key = (case stable_key_by_range resolved of None \<Rightarrow> resolved | Some k \<Rightarrow> k),
                     rb_range = resolved, rb_values = vr_values r\<rparr>])) (List.enumerate 0 ranges)))))"

definition stable_key_by_range :: "processed_entry list \<Rightarrow> string \<Rightarrow> string option" where
  "stable_key_by_range registered =
     map_of (rev (concat (map (\<lambda>p. map (\<lambda>r. (r, rm_stable_key (pr_mapping p)))
       (concat (map ranges_for_target (rm_target (pr_mapping p) # pr_duplicate_targets p)))) registered)))"

subsection \<open>Deliveries\<close>

definition process_key :: "'w services \<Rightarrow> process_execution \<Rightarrow> action_identity \<Rightarrow> string" where
  "process_key S x act = delivery_key (sv_hash_suffix S) (px_invocation_id x) act None"

definition deliver_progress :: "'w services \<Rightarrow> process_execution \<Rightarrow> message_ref \<Rightarrow> (receipt \<times> receipt option, 'w) step" where
  "deliver_progress S x source =
     txn_bind (map_error (\<lambda>_. Declared (DeliveryRejected ''teamSubmissions.process.progress''
         ''The team-submission progress message was rejected'' None False))
       (deliver S (process_key S x ActProgress) (SendMessage source (ProgressMessage source)))) (\<lambda>progress.
     txn_bind (txn_catch
         (txn_bind (deliver S (process_key S x ActReaction) (SetReaction source True)) (\<lambda>r. txn_return (Some r)))
         (\<lambda>_. txn_return None))
       (\<lambda>reaction. txn_return (progress, reaction)))"

definition edit_progress ::
    "'w services \<Rightarrow> process_execution \<Rightarrow> message_ref \<Rightarrow> message_content \<Rightarrow> action_identity \<Rightarrow> (receipt, 'w) step" where
  "edit_progress S x m content act =
     map_error (\<lambda>_. Declared (DeliveryRejected ''teamSubmissions.process.confirmation''
         ''The team-submission confirmation message could not be delivered'' (Some (mr_message_id m)) True))
       (deliver S (process_key S x act) (EditMessage m content))"

definition report_process_write_failure ::
    "'w services \<Rightarrow> process_execution \<Rightarrow> message_ref \<Rightarrow> flow_error \<Rightarrow> ('a, 'w) step" where
  "report_process_write_failure S x m e =
     txn_bind (txn_catch (txn_bind (edit_progress S x m WriteFailureMessage ActWriteFailure) (\<lambda>_. txn_return ()))
         (\<lambda>_. txn_return ()))
       (\<lambda>_. txn_fail e)"

subsection \<open>The handler\<close>

fun submission_status_text :: "submission_status \<Rightarrow> string" where
  "submission_status_text SubRegistered = ''registered''"
| "submission_status_text SubUpdated = ''updated''"
| "submission_status_text SubEmpty = ''empty''"
| "submission_status_text SubFailed = ''failed''"
| "submission_status_text SubApplying = ''applying''"
| "submission_status_text SubReverting = ''reverting''"
| "submission_status_text SubConfirmed = ''confirmed''"
| "submission_status_text SubRejected = ''rejected''"
| "submission_status_text SubRollbackFailed = ''rollbackFailed''"

record process_result =
  px_source_message :: message_ref
  px_confirmation_message :: "message_ref option"
  px_parsed_team_count :: nat
  px_skipped_team_count :: nat
  px_status :: submission_status
  px_delivery_receipts :: "receipt list"

definition empty_process_result :: "message_ref \<Rightarrow> process_result" where
  "empty_process_result m =
     \<lparr>px_source_message = m, px_confirmation_message = None, px_parsed_team_count = 0,
      px_skipped_team_count = 0, px_status = SubEmpty, px_delivery_receipts = []\<rparr>"

definition authorize_with :: "('w \<Rightarrow> authorization \<times> 'w) \<Rightarrow> string \<Rightarrow> string \<Rightarrow> (unit, 'w) step" where
  "authorize_with f policy operation s =
     (case f (fl_world s) of
        (Authorized, w) \<Rightarrow> (Inr (), s\<lparr>fl_world := w\<rparr>)
      | (Unauthorized, w) \<Rightarrow> (Inl (Declared (AuthorizationRevoked policy)), s\<lparr>fl_world := w\<rparr>)
      | (AuthorizationLookupFailed, w) \<Rightarrow> (Inl (external_failure operation Undeclared), s\<lparr>fl_world := w\<rparr>)
      | (AuthorizationInterrupted, w) \<Rightarrow> (Inl Interrupted, s\<lparr>fl_world := w\<rparr>))"

text \<open>The cells of an execution: the rows of its entries, the surplus rows, and the rows it gives up.\<close>

definition sheet_data :: "run_context \<Rightarrow> run \<Rightarrow> sheet_update list" where
  "sheet_data cx run =
     concat (map pr_updates (rn_registered run)) @
     concat (map (\<lambda>p. concat (map blank_for_target (pr_duplicate_targets p))) (rn_registered run)) @
     blank_removed_rows (existing_team_keys (cx_existing cx))
       (set (map (\<lambda>p. rm_stable_key (pr_mapping p)) (rn_registered run)))
       (existing_mapping_by_key (cx_existing cx))"

definition final_snapshot :: "run_context \<Rightarrow> run \<Rightarrow> rollback_entry list \<Rightarrow> rollback_entry list" where
  "final_snapshot cx run before_write =
     (if map_option ts_status (cx_existing cx) = Some SubApplying then rn_recovery_snapshot run
      else filter (\<lambda>r. rb_stable_key r \<notin>
             set (map (\<lambda>p. rm_stable_key (pr_mapping p)) (filter pr_appended (rn_registered run)))) before_write @
           blank_rollback_snapshot_for_appended_rows (rn_registered run))"

definition final_status :: "run_context \<Rightarrow> run \<Rightarrow> submission_status" where
  "final_status cx run =
     (if rn_registered run = [] then SubEmpty else if cx_existing cx = None then SubRegistered else SubUpdated)"

text \<open>Everything from the snapshot to the stored result; \<open>reporting\<close> tells the conversation of a failed write.\<close>

definition write_sheet ::
    "'w services \<Rightarrow> run_context \<Rightarrow> (flow_error \<Rightarrow> (unit, 'w) step) \<Rightarrow> run \<Rightarrow> (unit, 'w) step" where
  "write_sheet S cx reporting run =
     (let entries = map pr_entry (rn_registered run); mappings = map pr_mapping (rn_registered run);
          data = sheet_data cx run
      in txn_bind (read_snapshot S (cx_sheet_id cx) data (stable_key_by_range (rn_registered run))) (\<lambda>before_write.
           let snapshot = final_snapshot cx run before_write in
           txn_bind
             (if data = [] then txn_return run
              else txn_bind (map_error (external_failure ''teamSubmissions.process.persist'')
                  (persist_current S cx run entries mappings snapshot SubApplying)) (\<lambda>run.
                txn_bind (txn_catch (write_updates S (cx_sheet_id cx) data)
                    (\<lambda>e. reporting (external_failure ''teamSubmissions.process.sheet-write'' e)))
                  (\<lambda>_. txn_return run)))
             (\<lambda>run. txn_bind (map_error (external_failure ''teamSubmissions.process.persist-terminal'')
                 (persist_current S cx run entries mappings snapshot (final_status cx run)))
               (\<lambda>_. txn_return ()))))"

definition initial_run :: "submission_row option \<Rightarrow> run" where
  "initial_run existing =
     \<lparr>rn_version = (case existing of None \<Rightarrow> 0 | Some r \<Rightarrow> ts_version r),
      rn_persisted = (existing \<noteq> None),
      rn_interim_mappings = foldl (\<lambda>ms m. set_mapping m ms) [] (existing_mappings existing),
      rn_recovery_snapshot = (case Option.bind existing ts_rollback_snapshot of None \<Rightarrow> [] | Some s \<Rightarrow> s),
      rn_registered = [], rn_skipped = []\<rparr>"

definition process_submission ::
    "'w services \<Rightarrow> process_execution \<Rightarrow> run_context \<Rightarrow> (process_result, 'w) step" where
  "process_submission S x cx =
     (let source = pi_source_message (cx_input cx) in
      txn_bind (deliver_progress S x source) (\<lambda>(progress, reaction).
        let progress_message = rc_message progress in txn_bind (txn_catch (txn_fold (process_entry S cx) (initial_run (cx_existing cx)) (cx_parsed_entries cx))
               (report_process_write_failure S x progress_message)) (\<lambda>run.
             let entries = map pr_entry (rn_registered run);
                 report = (\<lambda>disabled. ResultMessage
                   (render_confirmation (submission_key_of source) entries (rn_skipped run)) disabled)
             in txn_bind (write_sheet S cx (report_process_write_failure S x progress_message) run) (\<lambda>_.
                txn_bind (edit_progress S x progress_message (report True) ActConfirmation) (\<lambda>confirmation.
                  let confirmation_message = rc_message confirmation; confirmation_id = mr_message_id confirmation_message in
                  txn_bind (map_error (\<lambda>_. Declared (DeliveryRejected ''teamSubmissions.process.confirmation-persistence''
                      ''The sheet write committed but confirmation state could not be persisted''
                      (Some confirmation_id) True))
                    (set_confirmation S (submission_key_of source) confirmation_id)) (\<lambda>_.
                  txn_bind (edit_progress S x confirmation_message (report False) ActConfirmationControls) (\<lambda>controls.
                    txn_return \<lparr>px_source_message = source, px_confirmation_message = Some confirmation_message,
                      px_parsed_team_count = length entries, px_skipped_team_count = length (rn_skipped run),
                      px_status = final_status cx run,
                      px_delivery_receipts = [progress] @ (case reaction of None \<Rightarrow> [] | Some r \<Rightarrow> [r]) @
                        [confirmation, controls]\<rparr>)))))))"

definition team_submission_feature_flag :: string where
  "team_submission_feature_flag = ''team-submission-confirmations''"

definition is_team_submission_enabled :: "string list \<Rightarrow> bool" where
  "is_team_submission_enabled flags = list_ex (\<lambda>f. f = team_submission_feature_flag) flags"

definition same_config_client :: "message_ref \<Rightarrow> string \<Rightarrow> bool" where
  "same_config_client m client = (mr_platform m = ''discord'' \<and> mr_client_id m = client)"

text \<open>The rest of the handler, once the message, the sheet, the channel and the stored submission are known.\<close>

definition process_accepted ::
    "'w services \<Rightarrow> process_execution \<Rightarrow> parsed_message \<Rightarrow> string \<Rightarrow> submission_channel \<Rightarrow> submission_row option \<Rightarrow>
     (process_result, 'w) step" where
  "process_accepted S x parsed sheet_id ch existing =
     (if (case existing of None \<Rightarrow> False | Some r \<Rightarrow> ts_status r \<notin> editable_submission_statuses)
      then txn_fail (Declared (BusinessRuleRejected ''SubmissionNotEditable''
        (''Team submission is already '' @ submission_status_text (ts_status (the existing)) @
         '' and cannot be changed'')))
      else
        txn_bind (load_team_configs S (mr_workspace_id (pi_source_message (px_input x))) sheet_id) (\<lambda>configs.
          case (case existing of None \<Rightarrow> Some (pm_entries parsed)
                | Some r \<Rightarrow> preserve_existing_stable_keys (sv_unicode S) r (pm_entries parsed)) of
            None \<Rightarrow> txn_fail Died
          | Some entries \<Rightarrow>
              process_submission S x \<lparr>cx_input = px_input x, cx_sheet_id = sheet_id, cx_existing = existing,
                cx_channel = ch, cx_team_configs = configs,
                cx_parsed_oshi_candidate = pm_oshi_candidate parsed, cx_parsed_entries = entries\<rparr>))"

definition process_steps :: "'w services \<Rightarrow> process_execution \<Rightarrow> (process_result, 'w) step" where
  "process_steps S x =
     (let input = px_input x; source = pi_source_message input; workspace = mr_workspace_id source in
      txn_bind (authorize_with (sv_authorize_process S source) ''sheet.workflow.teamSubmissions.process.invoke'' ''teamSubmissions.process.authorization'') (\<lambda>_.
      txn_bind (look_up (sv_feature_flags S workspace)) (\<lambda>flags.
        if \<not> is_team_submission_enabled flags \<or> \<not> same_config_client source (sv_sheet_bot_client_id S)
        then txn_return (empty_process_result source)
        else case parse_team_submission_message (sv_unicode S) (pi_content input) (pi_author_display_name input) of
          None \<Rightarrow> txn_fail Died
        | Some parsed \<Rightarrow>
            if pm_disposition parsed \<noteq> Accepted then txn_return (empty_process_result source)
            else
              txn_bind (look_up (sv_sheet_id S workspace)) (\<lambda>sheet. case sheet of
                None \<Rightarrow> txn_fail (Declared (ConfigurationMissing ''workspace.sheetId''))
              | Some sheet_id \<Rightarrow>
                  txn_bind (look_up (sv_channel S workspace (mr_conversation_id source))) (\<lambda>channel. case channel of
                    None \<Rightarrow> txn_fail (Declared (ConfigurationMissing ''teamSubmissionChannel''))
                  | Some ch \<Rightarrow> txn_bind (get_submission S source) (process_accepted S x parsed sheet_id ch))))))"

definition process :: "'w services \<Rightarrow> process_execution \<Rightarrow> (process_result, 'w) step" where
  "process S x = map_error (external_failure ''teamSubmissions.process.execute'') (process_steps S x)"

end
