(* ===== verification/SubmissionDecide.thy ===== *)
theory SubmissionDecide
  imports SubmissionProcess Principals
begin

text \<open>
  \<open>decide\<close> of \<open>operations.ts\<close>: the submitter confirms a submission, or rejects it, which restores the
  stored snapshot of the sheet. The persisted decision is the commit point; what is delivered after it
  is best effort.
\<close>

datatype decision = Confirm | Reject

record decide_input =
  di_response_reference :: string
  di_source_message :: message_ref
  di_confirmation_message :: message_ref
  di_decision :: decision

record decide_execution =
  dx_invocation_id :: string
  dx_input :: decide_input
  dx_principal :: effective_principal

record decide_result =
  dr_source_message :: message_ref
  dr_status :: submission_status
  dr_delivery_receipts :: "receipt list"

definition principal_user_id :: "effective_principal \<Rightarrow> string option" where
  "principal_user_id p = (case p of ServicePrincipal _ _ \<Rightarrow> None | UserPrincipal _ account \<Rightarrow> account)"

definition require_actionable_for_decision :: "submission_row \<Rightarrow> (unit, 'w) step" where
  "require_actionable_for_decision r =
     (if ts_status r \<in> actionable_submission_statuses then txn_return ()
      else txn_fail (Declared (BusinessRuleRejected ''SubmissionNotActionable''
        (''Team submission is already '' @ submission_status_text (ts_status r)))))"

subsection \<open>After the commit\<close>

definition best_effort_delivery :: "'w services \<Rightarrow> string \<Rightarrow> delivery \<Rightarrow> (receipt option, 'w) step" where
  "best_effort_delivery S key d =
     txn_catch (txn_bind (deliver S key d) (\<lambda>r. txn_return (Some r))) (\<lambda>_. txn_return None)"

definition decide_key :: "'w services \<Rightarrow> decide_execution \<Rightarrow> action_identity \<Rightarrow> string option \<Rightarrow> string" where
  "decide_key S x act suff = delivery_key (sv_hash_suffix S) (dx_invocation_id x) act suff"

definition present :: "'a option \<Rightarrow> 'a list" where
  "present r = (case r of None \<Rightarrow> [] | Some x \<Rightarrow> [x])"

definition cleanup_confirmation ::
    "'w services \<Rightarrow> decide_execution \<Rightarrow> string \<Rightarrow> bool \<Rightarrow> (receipt list, 'w) step" where
  "cleanup_confirmation S x response_text delete_confirmation =
     txn_bind (best_effort_delivery S (decide_key S x ActConfirmation None)
         (Respond (di_response_reference (dx_input x)) (ResponseMessage response_text))) (\<lambda>response.
     txn_bind (if delete_confirmation
         then best_effort_delivery S (decide_key S x ActCleanup (Some ''delete''))
           (DeleteMessage (di_confirmation_message (dx_input x)))
         else txn_return None) (\<lambda>deleted.
     txn_bind (best_effort_delivery S (decide_key S x ActCleanup (Some ''reaction''))
         (SetReaction (di_source_message (dx_input x)) False)) (\<lambda>reaction.
       txn_return (present response @ present deleted @ present reaction))))"

subsection \<open>The rollback\<close>

definition rollback_updates :: "rollback_entry list \<Rightarrow> sheet_update list" where
  "rollback_updates snapshot =
     map (\<lambda>r. \<lparr>su_range = rb_range r,
         su_values = rollback_values_for_range workflow_range_options (rb_range r) (rb_values r)\<rparr>)
       (filter (\<lambda>r. rb_range r \<noteq> pending_append_rollback_range) snapshot)"

definition reconcile_rollback :: "'w services \<Rightarrow> string \<Rightarrow> rollback_entry list \<Rightarrow> (bool, 'w) step" where
  "reconcile_rollback S sheet snapshot =
     (let updates = rollback_updates snapshot in
      if updates = [] then txn_return False
      else txn_catch (txn_bind (write_updates S sheet updates) (\<lambda>_. txn_return True))
        (\<lambda>_. txn_catch
          (txn_bind (read_ranges S sheet (map su_range updates)) (\<lambda>ranges. txn_return (updates_match updates ranges)))
          (\<lambda>_. txn_return False)))"

definition pending_append_ranges :: "submission_row \<Rightarrow> string list" where
  "pending_append_ranges r =
     js_set (concat (map (\<lambda>m. ranges_for_target (rm_target m))
       (filter (\<lambda>m. rt_row_index (rm_target m) = 0) (ts_row_mappings r))))"

fun join_strings :: "string \<Rightarrow> string list \<Rightarrow> string" where
  "join_strings sep [] = []"
| "join_strings sep [x] = x"
| "join_strings sep (x # y # xs) = x @ sep @ join_strings sep (y # xs)"

definition rollback_failure_detail :: "submission_row \<Rightarrow> rollback_entry list \<Rightarrow> string" where
  "rollback_failure_detail r snapshot =
     (if pending_append_ranges r \<noteq> [] \<and> list_ex (\<lambda>e. rb_range e = pending_append_rollback_range) snapshot
      then ''Rollback failed: pending team row append could not be reconciled; affected ranges: '' @
        join_strings '', '' (pending_append_ranges r) @ ''. Other changes may also remain unreverted.''
      else ''Rollback failed: Tiara could not restore the sheet.'')"

subsection \<open>The handler\<close>

text \<open>
  \<open>persistStatus\<close> with the version the handler expects. The handler also tracks the stored status in
  \<open>currentStatus\<close>; it is read again only where the version tells it has changed.
\<close>

definition persist_status ::
    "'w services \<Rightarrow> decide_execution \<Rightarrow> submission_row \<Rightarrow> string \<Rightarrow> int \<Rightarrow> submission_status \<Rightarrow> (unit, 'w) step" where
  "persist_status S x r confirmation version status =
     upsert_submission S (source_record (di_source_message (dx_input x)) (ts_discord_author_id r) (ts_sheet_id r)
       (Some confirmation) (ts_parsed_submission r) (ts_row_mappings r) (ts_rollback_snapshot r) status (Some version))"

definition commit_status ::
    "'w services \<Rightarrow> decide_execution \<Rightarrow> submission_row \<Rightarrow> string \<Rightarrow> string \<Rightarrow> int \<Rightarrow> submission_status \<Rightarrow> (unit, 'w) step" where
  "commit_status S x r confirmation operation version status =
     map_error (external_failure (''teamSubmissions.decide.'' @ operation))
       (persist_status S x r confirmation version status)"

definition decide_done ::
    "'w services \<Rightarrow> decide_execution \<Rightarrow> submission_status \<Rightarrow> string \<Rightarrow> (decide_result, 'w) step" where
  "decide_done S x status response_text =
     txn_bind (cleanup_confirmation S x response_text True) (\<lambda>receipts.
       txn_return \<lparr>dr_source_message = di_source_message (dx_input x), dr_status = status, dr_delivery_receipts = receipts\<rparr>)"

definition decide_rollback_failed :: "'w services \<Rightarrow> decide_execution \<Rightarrow> string \<Rightarrow> (decide_result, 'w) step" where
  "decide_rollback_failed S x detail =
     txn_bind (best_effort_delivery S (decide_key S x ActRollback None)
         (EditMessage (di_confirmation_message (dx_input x)) (RollbackFailedMessage detail))) (\<lambda>edited.
     txn_bind (cleanup_confirmation S x ''Rollback failed. The persisted snapshot is retained for recovery.'' False)
       (\<lambda>response. txn_return \<lparr>dr_source_message = di_source_message (dx_input x),
         dr_status = SubRollbackFailed, dr_delivery_receipts = present edited @ response\<rparr>))"

definition decide_confirm :: "'w services \<Rightarrow> decide_execution \<Rightarrow> submission_row \<Rightarrow> string \<Rightarrow> (decide_result, 'w) step" where
  "decide_confirm S x r confirmation =
     (if ts_status r = SubConfirmed then decide_done S x SubConfirmed ''Team submission confirmed.''
      else txn_bind (require_actionable_for_decision r) (\<lambda>_.
           txn_bind (commit_status S x r confirmation ''confirm'' (ts_version r) SubConfirmed) (\<lambda>_.
             decide_done S x SubConfirmed ''Team submission confirmed.'')))"

definition can_resume_rollback :: "submission_row \<Rightarrow> bool" where
  "can_resume_rollback r \<longleftrightarrow>
     ts_status r = SubEmpty \<and> ts_rollback_snapshot r \<notin> {None, Some []} \<or>
     ts_status r \<in> {SubApplying, SubReverting, SubRollbackFailed}"

definition decide_reject :: "'w services \<Rightarrow> decide_execution \<Rightarrow> submission_row \<Rightarrow> string \<Rightarrow> (decide_result, 'w) step" where
  "decide_reject S x r confirmation =
     (let v = ts_version r; status = ts_status r in
      if status = SubRejected then decide_done S x SubRejected ''Team submission rejected and rolled back.''
      else case ts_rollback_snapshot r of
        Some (e # es) \<Rightarrow>
          txn_bind (if status = SubReverting then txn_return v
              else txn_bind (if can_resume_rollback r then txn_return () else require_actionable_for_decision r) (\<lambda>_.
                   txn_bind (commit_status S x r confirmation ''reverting'' v SubReverting) (\<lambda>_. txn_return (v + 1))))
            (\<lambda>v. txn_bind (reconcile_rollback S (ts_sheet_id r) (e # es)) (\<lambda>restored.
              if restored
              then txn_bind (commit_status S x r confirmation ''rejected'' v SubRejected) (\<lambda>_.
                decide_done S x SubRejected ''Team submission rejected and rolled back.'')
              else txn_bind (commit_status S x r confirmation ''rollback-failed'' v SubRollbackFailed) (\<lambda>_.
                decide_rollback_failed S x (rollback_failure_detail r (e # es)))))
      | _ \<Rightarrow>
          if status = SubEmpty \<or> ts_row_mappings r = []
          then txn_bind (if status \<noteq> SubEmpty \<and> \<not> can_resume_rollback r
                 then require_actionable_for_decision r else txn_return ()) (\<lambda>_.
               txn_bind (commit_status S x r confirmation ''rejected'' v SubRejected) (\<lambda>_.
                 decide_done S x SubRejected ''Team submission rejected.''))
          else txn_bind (if can_resume_rollback r then txn_return () else require_actionable_for_decision r) (\<lambda>_.
               txn_bind (if status = SubRollbackFailed then txn_return ()
                 else commit_status S x r confirmation ''rollback-state'' v SubRollbackFailed) (\<lambda>_.
                 decide_rollback_failed S x ''Rollback failed: no rollback snapshot is available.'')))"

definition same_message :: "message_ref \<Rightarrow> message_ref \<Rightarrow> bool" where
  "same_message a b \<longleftrightarrow>
     mr_message_id a = mr_message_id b \<and> mr_conversation_id a = mr_conversation_id b \<and>
     mr_workspace_id a = mr_workspace_id b \<and> mr_platform a = mr_platform b \<and> mr_client_id a = mr_client_id b"

definition confirmation_mismatch :: flow_error where
  "confirmation_mismatch = Declared (InvalidRequest ''ConfirmationMessageMismatch''
     ''The confirmation message does not match the persisted team submission'')"

definition decide_found :: "'w services \<Rightarrow> decide_execution \<Rightarrow> submission_row \<Rightarrow> (decide_result, 'w) step" where
  "decide_found S x r =
     (let source = di_source_message (dx_input x); confirmation = di_confirmation_message (dx_input x) in
      if principal_user_id (dx_principal x) \<noteq> Some (ts_discord_author_id r)
      then txn_fail (Declared (BusinessRuleRejected ''OriginalSubmitterOnly''
        ''Only the original submitter can decide this team submission''))
      else (case ts_confirmation_message_id r of
          Some persisted \<Rightarrow>
            if persisted = mr_message_id confirmation \<and> same_message confirmation (source\<lparr>mr_message_id := persisted\<rparr>)
            then (case di_decision (dx_input x) of
                Confirm \<Rightarrow> decide_confirm S x r persisted | Reject \<Rightarrow> decide_reject S x r persisted)
            else txn_fail confirmation_mismatch
        | None \<Rightarrow> txn_fail confirmation_mismatch))"

definition decide_steps :: "'w services \<Rightarrow> decide_execution \<Rightarrow> (decide_result, 'w) step" where
  "decide_steps S x =
     (let source = di_source_message (dx_input x) in
      txn_bind (authorize_with (sv_authorize_decide S source) ''sheet.workflow.teamSubmissions.decide.invoke''
          ''teamSubmissions.decide.authorization'') (\<lambda>_.
      txn_bind (get_submission S source) (\<lambda>existing. case existing of
        None \<Rightarrow> txn_fail (Declared (ResourceNotFound ''team submission'' (Some (mr_message_id source))))
      | Some r \<Rightarrow> decide_found S x r)))"

definition decide :: "'w services \<Rightarrow> decide_execution \<Rightarrow> (decide_result, 'w) step" where
  "decide S x = map_error (external_failure ''teamSubmissions.decide.execute'') (decide_steps S x)"

end
