(* ===== verification/TxnLogic.thy ===== *)
theory TxnLogic
  imports WorkflowFailures
begin

text \<open>
  A logic for the steps of workflows: a triple has a condition for the normal end and one for every
  failure, since what was stored and called before a failure stays.
\<close>

definition triple ::
    "('s \<Rightarrow> bool) \<Rightarrow> ('a, 's) flow_step \<Rightarrow> ('a \<Rightarrow> 's \<Rightarrow> bool) \<Rightarrow> ('s \<Rightarrow> bool) \<Rightarrow> bool" where
  "triple P m Q E \<longleftrightarrow> (\<forall>s. P s \<longrightarrow> (case m s of (Inl _, t) \<Rightarrow> E t | (Inr a, t) \<Rightarrow> Q a t))"

lemma tripleI:
  "(\<And>s e t. P s \<Longrightarrow> m s = (Inl e, t) \<Longrightarrow> E t) \<Longrightarrow> (\<And>s a t. P s \<Longrightarrow> m s = (Inr a, t) \<Longrightarrow> Q a t) \<Longrightarrow> triple P m Q E"
  by (auto simp: triple_def split: prod.splits sum.splits)

lemma tripleD:
  assumes "triple P m Q E" and "P s"
  shows "m s = (Inl e, t) \<Longrightarrow> E t" and "m s = (Inr a, t) \<Longrightarrow> Q a t"
  using assms by (auto simp: triple_def dest: spec [of _ s])

lemma triple_always:
  assumes "triple P m (\<lambda>_. E) E" and "P s"
  shows "E (snd (m s))"
  using assms by (cases "m s") (auto simp: triple_def dest!: spec [of _ s] split: sum.splits)

lemma triple_pre: "triple P' m Q E \<Longrightarrow> (\<And>s. P s \<Longrightarrow> P' s) \<Longrightarrow> triple P m Q E"
  by (simp add: triple_def)

lemma triple_post:
  assumes "triple P m Q' E'" and "\<And>a s. Q' a s \<Longrightarrow> Q a s" and "\<And>s. E' s \<Longrightarrow> E s"
  shows "triple P m Q E"
  by (rule tripleI) (use assms(2,3) tripleD [OF assms(1)] in blast)+

lemma triple_if: "(b \<Longrightarrow> triple P m Q E) \<Longrightarrow> (\<not> b \<Longrightarrow> triple P m' Q E) \<Longrightarrow> triple P (if b then m else m') Q E"
  by simp

lemma triple_const: "(b \<Longrightarrow> triple P m Q E) \<Longrightarrow> triple (\<lambda>s. P s \<and> b) m Q E"
  by (auto simp: triple_def)

lemma triple_return: "(\<And>s. P s \<Longrightarrow> Q a s) \<Longrightarrow> triple P (txn_return a) Q E"
  by (simp add: triple_def txn_return_def)

lemma triple_fail: "(\<And>s. P s \<Longrightarrow> E s) \<Longrightarrow> triple P (txn_fail e) Q E"
  by (simp add: triple_def txn_fail_def)

lemma triple_bind:
  "triple P m Q E \<Longrightarrow> (\<And>a. triple (Q a) (f a) R E) \<Longrightarrow> triple P (txn_bind m f) R E"
  unfolding triple_def txn_bind_def by (fastforce split: prod.splits sum.splits)

lemma triple_catch:
  assumes "triple P m Q F" and "\<And>e. triple F (h e) Q E" and "\<And>s. F s \<Longrightarrow> E s"
  shows "triple P (txn_catch m h) Q E"
  unfolding triple_def
proof (intro allI impI)
  fix s assume s: "P s"
  show "case txn_catch m h s of (Inl _, t) \<Rightarrow> E t | (Inr a, t) \<Rightarrow> Q a t"
  proof (cases "m s")
    case (Pair r t)
    show ?thesis
    proof (cases r)
      case (Inl e)
      then have "F t" using tripleD(1) [OF assms(1) s] Pair by simp
      then show ?thesis using Inl Pair assms(2) [of e] assms(3) by (simp add: txn_catch_def triple_def)
    next
      case (Inr a)
      then show ?thesis using tripleD(2) [OF assms(1) s] Pair by (simp add: txn_catch_def)
    qed
  qed
qed

lemma triple_map_error: "triple P m Q E \<Longrightarrow> triple P (map_error f m) Q E"
  unfolding map_error_def by (rule triple_catch) (auto intro: triple_fail)

lemma txn_bind_return [simp]: "txn_bind (txn_return a) f = f a"
  by (auto simp: txn_bind_def txn_return_def)

lemma keeps_bind: "triple I m (\<lambda>_. I) I \<Longrightarrow> (\<And>a. triple I (f a) (\<lambda>_. I) I) \<Longrightarrow> triple I (txn_bind m f) (\<lambda>_. I) I"
  by (rule triple_bind)

lemma keeps_catch: "triple I m (\<lambda>_. I) I \<Longrightarrow> (\<And>e. triple I (h e) (\<lambda>_. I) I) \<Longrightarrow> triple I (txn_catch m h) (\<lambda>_. I) I"
  by (rule triple_catch)

lemma keeps_return: "triple I (txn_return a) (\<lambda>_. I) I"
  by (rule triple_return)

lemma triple_fold: "(\<And>b x. triple (P b) (f b x) P E) \<Longrightarrow> triple (P b) (txn_fold f b xs) P E"
  by (induction xs arbitrary: b) (auto intro: triple_return triple_bind)

lemma triple_catch_cause:
  assumes "triple P m Q F" and "\<And>e. triple F (h e) Q E" and "\<And>s. F s \<Longrightarrow> E s"
  shows "triple P (txn_catch_cause m h) Q E"
proof (rule tripleI)
  show "E t" if "P s" "txn_catch_cause m h s = (Inl e, t)" for s e t
    using that tripleD(1) [OF assms(1) that(1)] assms(3) tripleD(1) [OF assms(2)]
    by (auto simp: txn_catch_cause_def split: prod.splits sum.splits if_splits)
  show "Q a t" if "P s" "txn_catch_cause m h s = (Inr a, t)" for s a t
    using that tripleD [OF assms(1) that(1)] tripleD(2) [OF assms(2)]
    by (auto simp: txn_catch_cause_def split: prod.splits sum.splits if_splits)
qed

lemma triple_exit:
  assumes "triple P m Q E"
  shows "triple P (txn_exit m) (\<lambda>r s. case r of Inl _ \<Rightarrow> E s | Inr a \<Rightarrow> Q a s) E"
  by (rule tripleI) (use tripleD [OF assms] in \<open>auto simp: txn_exit_def split: prod.splits sum.splits flow_error.splits\<close>)

lemma triple_preserve: "triple P m Q E \<Longrightarrow> triple P (preserve_declared_failure m) Q E"
  unfolding preserve_declared_failure_def by (rule triple_map_error)

end
