(* ===== verification/SubmissionLogic.thy ===== *)
theory SubmissionLogic
  imports SubmissionDecide TxnLogic
begin

text \<open>
  The invariants of the call log and of the stored submissions that the steps of a submission keep.
\<close>

subsection \<open>Invariants over the call log\<close>

text \<open>
  An invariant that the outside world does not change and that keeps under the calls in \<open>harmless\<close>: every
  step that only asks, reads or reports keeps it.
\<close>

locale flow_invariant =
  fixes I :: "'w flow \<Rightarrow> bool" and harmless :: "call \<Rightarrow> bool"
  assumes keeps_world: "I s \<Longrightarrow> I (s\<lparr>fl_world := w\<rparr>)"
    and keeps_call: "I s \<Longrightarrow> harmless c \<Longrightarrow> I (log_call c s)"
begin

lemma keeps_look_up: "triple I (look_up f) (\<lambda>_. I) I"
  by (rule tripleI) (auto simp: look_up_def keeps_world split: prod.splits lookup.splits)

lemma keeps_get: "triple I (get_submission S m)
    (\<lambda>r s. I s \<and> r = get_message_team_submission (submission_key_of m) (fl_submissions s)) I"
  unfolding get_submission_def by (rule triple_bind [OF keeps_look_up], rule tripleI) auto

lemma keeps_authorize: "triple I (authorize_with f policy operation) (\<lambda>_. I) I"
  by (rule tripleI) (auto simp: authorize_with_def keeps_world split: prod.splits authorization.splits)

lemma keeps_provider: "(\<And>r. harmless (c r)) \<Longrightarrow> triple I (provider_step f c) (\<lambda>_. I) I"
  by (rule tripleI) (auto simp: provider_step_def intro!: keeps_world keeps_call split: prod.splits sum.splits)

lemma keeps_read: "(\<And>r. harmless (CallRead sheet ranges r)) \<Longrightarrow> triple I (read_ranges S sheet ranges) (\<lambda>_. I) I"
  unfolding read_ranges_def by (rule keeps_provider)

lemma keeps_deliver: "harmless (CallDeliver key d) \<Longrightarrow> triple I (deliver S key d) (\<lambda>_. I) I"
  by (rule tripleI)
    (auto simp: deliver_def intro!: keeps_world keeps_call split: prod.splits delivery_outcome.splits)

lemma keeps_best_effort: "harmless (CallDeliver key d) \<Longrightarrow> triple I (best_effort_delivery S key d) (\<lambda>_. I) I"
  unfolding best_effort_delivery_def
  by (intro keeps_catch keeps_bind keeps_deliver keeps_return)

end

text \<open>An invariant of the stored submissions alone.\<close>

definition stored :: "(submission_db \<Rightarrow> bool) \<Rightarrow> 'w flow \<Rightarrow> bool" where
  "stored P s \<longleftrightarrow> P (fl_submissions s)"

lemma fl_submissions_log [simp]: "fl_submissions (log_call c s) = fl_submissions s"
  by (simp add: log_call_def)

lemma fl_world_log [simp]: "fl_world (log_call c s) = fl_world s"
  by (simp add: log_call_def)

lemma fl_calls_log [simp]: "fl_calls (log_call c s) = fl_calls s @ [c]"
  by (simp add: log_call_def)

interpretation stored: flow_invariant "stored P" "\<lambda>_. True" for P
  by unfold_locales (auto simp: stored_def)

text \<open>A mutation that an error leaves undone either changes nothing or commits, and says which.\<close>

lemma triple_mutate:
  assumes "\<And>stamp e db db'. m stamp db = (Inl e, db') \<Longrightarrow> db' = db"
    and lost: "\<And>s w. P s \<Longrightarrow> E (log_call (c False) (s\<lparr>fl_world := w\<rparr>))"
    and commits: "\<And>s w stamp db. P s \<Longrightarrow> m stamp (fl_submissions s) = (Inr (), db) \<Longrightarrow>
      Q () (log_call (c True) (s\<lparr>fl_world := w, fl_submissions := db\<rparr>)) \<and>
      E (log_call (c True) (s\<lparr>fl_world := w, fl_submissions := db\<rparr>))"
  shows "triple P (mutate_store S m c) Q E"
  unfolding triple_def
proof (intro allI impI)
  fix s assume "P s"
  obtain stamp fault w where w: "sv_persist_fault S (fl_world s) = ((stamp, fault), w)"
    by (metis surj_pair)
  show "case mutate_store S m c s of (Inl _, t) \<Rightarrow> E t | (Inr a, t) \<Rightarrow> Q a t"
  proof (cases "fault \<in> {LostBeforeCommit, InterruptedBeforeCommit}")
    case True
    then show ?thesis using lost [OF \<open>P s\<close>] by (simp add: mutate_store_def w)
  next
    case False
    show ?thesis
    proof (cases "m stamp (fl_submissions s)")
      case (Pair r db)
      show ?thesis
      proof (cases r)
        case (Inl e)
        then have "db = fl_submissions s" using assms(1) Pair by blast
        then show ?thesis using Inl Pair False lost [OF \<open>P s\<close>, of w] by (simp add: mutate_store_def w)
      next
        case (Inr u)
        then show ?thesis using Pair False commits [OF \<open>P s\<close>, of stamp db w]
          by (simp add: mutate_store_def w)
      qed
    qed
  qed
qed

lemma triple_upsert:
  assumes "\<And>s w. P s \<Longrightarrow> E (log_call (CallUpsert a False) (s\<lparr>fl_world := w\<rparr>))"
    and "\<And>s w stamp db. P s \<Longrightarrow> upsert_message_team_submission stamp a (fl_submissions s) = (Inr (), db) \<Longrightarrow>
      Q () (log_call (CallUpsert a True) (s\<lparr>fl_world := w, fl_submissions := db\<rparr>)) \<and>
      E (log_call (CallUpsert a True) (s\<lparr>fl_world := w, fl_submissions := db\<rparr>))"
  shows "triple P (upsert_submission S a) Q E"
  unfolding upsert_submission_def
  by (rule triple_mutate) (use assms upsert_error_unchanged in blast)+

lemma set_confirmation_succeeds:
  "fst (set_message_team_submission_confirmation stamp k m db) = Inr ()"
  by (simp add: set_message_team_submission_confirmation_def split: option.splits)

lemma triple_confirmation:
  assumes "\<And>s w. P s \<Longrightarrow> E (log_call (CallConfirmation k m False) (s\<lparr>fl_world := w\<rparr>))"
    and "\<And>s w stamp db. P s \<Longrightarrow> snd (set_message_team_submission_confirmation stamp k m (fl_submissions s)) = db \<Longrightarrow>
      Q () (log_call (CallConfirmation k m True) (s\<lparr>fl_world := w, fl_submissions := db\<rparr>)) \<and>
      E (log_call (CallConfirmation k m True) (s\<lparr>fl_world := w, fl_submissions := db\<rparr>))"
  shows "triple P (set_confirmation S k m) Q E"
  unfolding set_confirmation_def
proof (rule triple_mutate)
  show "db' = db" if "set_message_team_submission_confirmation stamp k m db = (Inl e, db')" for stamp e db db'
    using that set_confirmation_succeeds [of stamp k m db] by simp
  show "Q () (log_call (CallConfirmation k m True) (s\<lparr>fl_world := w, fl_submissions := db\<rparr>)) \<and>
      E (log_call (CallConfirmation k m True) (s\<lparr>fl_world := w, fl_submissions := db\<rparr>))"
    if "P s" and "set_message_team_submission_confirmation stamp k m (fl_submissions s) = (Inr (), db)" for s w stamp db
    using assms(2) [OF that(1), of stamp db w] that(2) by simp
qed (rule assms(1))

end
