(* ===== verification/SubmissionGuarantees.thy ===== *)
theory SubmissionGuarantees
  imports SubmissionLogic
begin

text \<open>
  What holds of every execution of a submission, whatever the other services answer, fail or lose: what
  a decision makes of the stored submission, and the order of the calls of a processing.
\<close>

subsection \<open>Decisions\<close>

definition submission_content ::
    "submission_row \<Rightarrow> string \<times> string \<times> string option \<times> parsed_team_entry list \<times> row_mapping list \<times> rollback_entry list option" where
  "submission_content r = (ts_discord_author_id r, ts_sheet_id r, ts_confirmation_message_id r,
     ts_parsed_submission r, ts_row_mappings r, ts_rollback_snapshot r)"

text \<open>The stored submissions are \<open>db0\<close> but for the status and the version of one row.\<close>

definition decided_as ::
    "submission_db \<Rightarrow> submission_key \<Rightarrow> submission_row \<Rightarrow> submission_status \<Rightarrow> int \<Rightarrow> submission_db \<Rightarrow> bool" where
  "decided_as db0 k r st v db \<longleftrightarrow>
     rows_live db \<and> (\<forall>k'. k' \<noteq> k \<longrightarrow> find_submission k' db = find_submission k' db0) \<and>
     (\<exists>r'. find_submission k db = Some r' \<and> submission_content r' = submission_content r \<and>
        ts_status r' = st \<and> ts_version r' = v)"

definition has_snapshot :: "submission_row \<Rightarrow> bool" where
  "has_snapshot r \<longleftrightarrow> ts_rollback_snapshot r \<notin> {None, Some []}"

text \<open>The calls show that the sheet holds the snapshot: it was written, or read back.\<close>

definition shows_restored :: "string \<Rightarrow> rollback_entry list \<Rightarrow> call \<Rightarrow> bool" where
  "shows_restored sheet snapshot c \<longleftrightarrow>
     (case c of
        CallWrite sh us ok \<Rightarrow> sh = sheet \<and> us = rollback_updates snapshot \<and> ok
      | CallRead sh rngs (Some vs) \<Rightarrow> sh = sheet \<and> rngs = map su_range (rollback_updates snapshot) \<and>
          updates_match (rollback_updates snapshot) vs
      | _ \<Rightarrow> False)"

definition restored :: "submission_row \<Rightarrow> call list \<Rightarrow> bool" where
  "restored r calls \<longleftrightarrow>
     list_ex (shows_restored (ts_sheet_id r) (case ts_rollback_snapshot r of None \<Rightarrow> [] | Some es \<Rightarrow> es)) calls"

definition decision_reaches :: "decision \<Rightarrow> submission_row \<Rightarrow> call list \<Rightarrow> submission_status \<Rightarrow> bool" where
  "decision_reaches d r calls st \<longleftrightarrow>
     st = ts_status r \<or>
     d = Confirm \<and> ts_status r \<in> {SubRegistered, SubUpdated} \<and> st = SubConfirmed \<or>
     d = Reject \<and> ts_status r \<notin> {SubConfirmed, SubRejected, SubFailed} \<and>
       (st \<in> {SubReverting, SubRollbackFailed} \<or> st = SubRejected \<and> (\<not> has_snapshot r \<or> restored r calls))"

lemma decided_as_start:
  "rows_live db \<Longrightarrow> find_submission k db = Some r \<Longrightarrow> decided_as db k r (ts_status r) (ts_version r) db"
  by (auto simp: decided_as_def)

lemma rows_live_upsert:
  "rows_live db \<Longrightarrow> upsert_message_team_submission stamp a db = (Inr (), db') \<Longrightarrow> rows_live db'"
  using rows_live_mutation [of db "UpsertSubmission stamp a"] by simp

lemma decided_as_upsert:
  assumes "decided_as db0 k r st v db" and "upsert_message_team_submission stamp a db = (Inr (), db')"
    and "ua_key a = k" and "ua_status a = st'"
    and "ts_discord_author_id r = ua_discord_author_id a" "ts_sheet_id r = ua_sheet_id a"
      "ua_confirmation_message_id a = Some (ts_confirmation_message_id r)"
      "ts_parsed_submission r = ua_parsed_submission a" "ts_row_mappings r = ua_row_mappings a"
      "ua_rollback_snapshot a = Some (ts_rollback_snapshot r)"
  shows "decided_as db0 k r st' (v + 1) db'"
proof -
  from assms(1) obtain r' where r': "find_submission k db = Some r'" "ts_version r' = v" and "rows_live db"
    by (auto simp: decided_as_def)
  then have "get_message_team_submission k db = Some r'" by (simp add: find_live)
  then show ?thesis
    using assms find_upserted_submission [OF assms(2)] rows_live_upsert [OF \<open>rows_live db\<close> assms(2)] r'(2)
    by (auto simp: decided_as_def submission_row_of_def submission_content_def preserve_omitted_def)
qed

text \<open>A decision, from what it read to what it commits.\<close>

definition decision_state ::
    "decide_execution \<Rightarrow> submission_db \<Rightarrow> submission_row \<Rightarrow> submission_status \<Rightarrow> int \<Rightarrow> 'w flow \<Rightarrow> bool" where
  "decision_state x db0 r st v =
     stored (decided_as db0 (submission_key_of (di_source_message (dx_input x))) r st v)"

definition decision_end :: "decide_execution \<Rightarrow> submission_db \<Rightarrow> submission_row \<Rightarrow> submission_status \<Rightarrow> 'w flow \<Rightarrow> bool" where
  "decision_end x db0 r st s \<longleftrightarrow>
     (\<exists>v. decision_state x db0 r st v s) \<and> decision_reaches (di_decision (dx_input x)) r (fl_calls s) st"

lemma restored_append: "restored r calls \<Longrightarrow> restored r (calls @ cs)"
  by (auto simp: restored_def)

lemma decision_reaches_append: "decision_reaches d r calls st \<Longrightarrow> decision_reaches d r (calls @ cs) st"
  by (auto simp: decision_reaches_def restored_append)

interpretation decision_state: flow_invariant "decision_state x db0 r st v" "\<lambda>_. True" for x db0 r st v
  unfolding decision_state_def by unfold_locales (auto simp: stored_def)

interpretation decision_end: flow_invariant "decision_end x db0 r st" "\<lambda>_. True" for x db0 r st
  by unfold_locales
    (auto simp: decision_end_def decision_state_def stored_def decision_reaches_append)

definition decision_fails :: "decide_execution \<Rightarrow> submission_db \<Rightarrow> submission_row \<Rightarrow> 'w flow \<Rightarrow> bool" where
  "decision_fails x db0 r s \<longleftrightarrow> (\<exists>st. decision_end x db0 r st s)"

lemma decision_failsI: "decision_end x db0 r st s \<Longrightarrow> decision_fails x db0 r s"
  by (auto simp: decision_fails_def)

lemma commit_ends:
  assumes "ts_confirmation_message_id r = Some confirmation"
    and "\<And>s. P s \<Longrightarrow> decision_state x db0 r st v s \<and> decision_reaches (di_decision (dx_input x)) r (fl_calls s) st"
    and "\<And>s cs. P s \<Longrightarrow> decision_reaches (di_decision (dx_input x)) r (fl_calls s @ cs) st'"
  shows "triple P (commit_status S x r confirmation operation v st')
     (\<lambda>_ s. decision_end x db0 r st' s \<and> decision_state x db0 r st' (v + 1) s) (decision_fails x db0 r)"
  unfolding commit_status_def persist_status_def
proof (rule triple_map_error, rule triple_upsert)
  fix s :: "'a flow" and w
  assume "P s"
  then show "decision_fails x db0 r (log_call (CallUpsert (source_record (di_source_message (dx_input x))
      (ts_discord_author_id r) (ts_sheet_id r) (Some confirmation) (ts_parsed_submission r) (ts_row_mappings r)
      (ts_rollback_snapshot r) st' (Some v)) False) (s\<lparr>fl_world := w\<rparr>))"
    using assms(2) by (intro decision_failsI [of _ _ _ st] decision_end.keeps_call decision_end.keeps_world)
      (auto simp: decision_end_def)
next
  fix s :: "'a flow" and w stamp db
  let ?a = "source_record (di_source_message (dx_input x))
      (ts_discord_author_id r) (ts_sheet_id r) (Some confirmation) (ts_parsed_submission r) (ts_row_mappings r)
      (ts_rollback_snapshot r) st' (Some v)"
  assume "P s" and "upsert_message_team_submission stamp ?a (fl_submissions s) = (Inr (), db)"
  then have "decision_state x db0 r st' (v + 1) (log_call (CallUpsert ?a True) (s\<lparr>fl_world := w, fl_submissions := db\<rparr>))"
    using assms(2) [OF \<open>P s\<close>]
    by (auto simp: decision_state_def stored_def source_record_def assms(1) intro: decided_as_upsert)
  moreover from this have "decision_end x db0 r st' (log_call (CallUpsert ?a True) (s\<lparr>fl_world := w, fl_submissions := db\<rparr>))"
    using assms(3) [OF \<open>P s\<close>] by (auto simp: decision_end_def)
  ultimately show "(decision_end x db0 r st' (log_call (CallUpsert ?a True) (s\<lparr>fl_world := w, fl_submissions := db\<rparr>)) \<and>
      decision_state x db0 r st' (v + 1) (log_call (CallUpsert ?a True) (s\<lparr>fl_world := w, fl_submissions := db\<rparr>))) \<and>
      decision_fails x db0 r (log_call (CallUpsert ?a True) (s\<lparr>fl_world := w, fl_submissions := db\<rparr>))"
    using decision_failsI by blast
qed

text \<open>What comes after a commit.\<close>

definition decision_result ::
    "decide_execution \<Rightarrow> submission_db \<Rightarrow> submission_row \<Rightarrow> decide_result \<Rightarrow> 'w flow \<Rightarrow> bool" where
  "decision_result x db0 r res s \<longleftrightarrow> decision_end x db0 r (dr_status res) s"

lemma cleanup_triple:
  "triple (decision_end x db0 r st) (cleanup_confirmation S x response_text del)
     (\<lambda>_. decision_end x db0 r st) (decision_fails x db0 r)"
  unfolding cleanup_confirmation_def
  by (rule triple_post [of "decision_end x db0 r st" _ "\<lambda>_. decision_end x db0 r st" "decision_end x db0 r st"],
      intro keeps_bind triple_if keeps_return decision_end.keeps_best_effort) (auto intro: decision_failsI)

lemma done_triple:
  "triple (decision_end x db0 r st) (decide_done S x st response_text) (decision_result x db0 r) (decision_fails x db0 r)"
  unfolding decide_done_def
  by (rule triple_bind [OF cleanup_triple], rule triple_return) (simp add: decision_result_def)

lemma rollback_failed_triple:
  "triple (decision_end x db0 r SubRollbackFailed) (decide_rollback_failed S x detail)
     (decision_result x db0 r) (decision_fails x db0 r)"
  unfolding decide_rollback_failed_def
proof (rule triple_bind)
  show "triple (decision_end x db0 r SubRollbackFailed)
      (best_effort_delivery S (decide_key S x ActRollback None)
        (EditMessage (di_confirmation_message (dx_input x)) (RollbackFailedMessage detail)))
      (\<lambda>_. decision_end x db0 r SubRollbackFailed) (decision_fails x db0 r)"
    by (rule triple_post [OF decision_end.keeps_best_effort]) (auto intro: decision_failsI)
qed (rule triple_bind [OF cleanup_triple], rule triple_return, simp add: decision_result_def)

lemma requires_actionable_triple:
  assumes "\<And>s. P s \<Longrightarrow> E s"
  shows "triple P (require_actionable_for_decision r)
     (\<lambda>_ s. P s \<and> ts_status r \<in> {SubRegistered, SubUpdated}) E"
  using assms unfolding require_actionable_for_decision_def actionable_submission_statuses_def
  by (auto intro!: triple_return triple_fail)

lemma confirm_triple:
  assumes "ts_confirmation_message_id r = Some confirmation" and "di_decision (dx_input x) = Confirm"
  shows "triple (decision_state x db0 r (ts_status r) (ts_version r)) (decide_confirm S x r confirmation)
     (decision_result x db0 r) (decision_fails x db0 r)"
proof -
  have start: "decision_end x db0 r (ts_status r) s" if "decision_state x db0 r (ts_status r) (ts_version r) s"
    for s :: "'a flow"
    using that by (auto simp: decision_end_def decision_reaches_def)
  show ?thesis
    unfolding decide_confirm_def
    apply (rule triple_if)
     apply (rule triple_pre [OF done_triple], use start in force)
    apply (rule triple_bind [OF requires_actionable_triple], use start decision_failsI in blast)
    apply (rule triple_bind)
     apply (rule commit_ends [OF assms(1)])
      apply (auto simp: decision_reaches_def assms(2)) [2]
    apply (rule triple_pre [OF done_triple], simp)
    done
qed

text \<open>The answer of the rollback is \<open>true\<close> only with the evidence in the calls.\<close>

lemma write_logged:
  "triple (decision_state x db0 r st v) (write_updates S sheet us)
     (\<lambda>_ s. decision_state x db0 r st v s \<and> CallWrite sheet us True \<in> set (fl_calls s)) (decision_state x db0 r st v)"
  unfolding write_updates_def
  by (rule tripleI)
    (auto simp: provider_step_def intro!: decision_state.keeps_call decision_state.keeps_world split: prod.splits sum.splits)

lemma read_logged:
  "triple (decision_state x db0 r st v) (read_ranges S sheet rngs)
     (\<lambda>vs s. decision_state x db0 r st v s \<and> CallRead sheet rngs (Some vs) \<in> set (fl_calls s)) (decision_state x db0 r st v)"
  unfolding read_ranges_def
  by (rule tripleI)
    (auto simp: provider_step_def intro!: decision_state.keeps_call decision_state.keeps_world split: prod.splits sum.splits)

lemma shows_restoredI:
  "CallWrite sheet (rollback_updates snapshot) True \<in> set calls \<Longrightarrow> list_ex (shows_restored sheet snapshot) calls"
  "CallRead sheet (map su_range (rollback_updates snapshot)) (Some vs) \<in> set calls \<Longrightarrow>
     updates_match (rollback_updates snapshot) vs \<Longrightarrow> list_ex (shows_restored sheet snapshot) calls"
  by (force simp: list_ex_iff shows_restored_def)+

lemma reconcile_triple:
  "triple (decision_state x db0 r st v) (reconcile_rollback S sheet snapshot)
     (\<lambda>done s. decision_state x db0 r st v s \<and> (done \<longrightarrow> list_ex (shows_restored sheet snapshot) (fl_calls s)))
     (decision_state x db0 r st v)"
  unfolding reconcile_rollback_def Let_def
proof (intro triple_if)
  let ?I = "decision_state x db0 r st v"
  let ?Q = "\<lambda>done s. ?I s \<and> (done \<longrightarrow> list_ex (shows_restored sheet snapshot) (fl_calls s))"
  have reread: "triple ?I (txn_bind (read_ranges S sheet (map su_range (rollback_updates snapshot)))
      (\<lambda>ranges. txn_return (updates_match (rollback_updates snapshot) ranges))) ?Q ?I"
    by (rule triple_bind [OF read_logged], rule triple_return) (auto intro: shows_restoredI)
  show "triple ?I (txn_catch (txn_bind (write_updates S sheet (rollback_updates snapshot)) (\<lambda>_. txn_return True))
      (\<lambda>_. txn_catch (txn_bind (read_ranges S sheet (map su_range (rollback_updates snapshot)))
        (\<lambda>ranges. txn_return (updates_match (rollback_updates snapshot) ranges))) (\<lambda>_. txn_return False))) ?Q ?I"
    by (rule triple_catch [where F = ?I], rule triple_bind [OF write_logged], rule triple_return)
      (auto intro: shows_restoredI triple_catch [OF reread] triple_return)
qed (auto intro: triple_return)

lemma reject_triple:
  fixes S :: "'w services"
  assumes conf: "ts_confirmation_message_id r = Some confirmation" and reject: "di_decision (dx_input x) = Reject"
  shows "triple (decision_state x db0 r (ts_status r) (ts_version r)) (decide_reject S x r confirmation)
     (decision_result x db0 r) (decision_fails x db0 r)"
proof -
  let ?start = "decision_state x db0 r (ts_status r) (ts_version r) :: 'w flow \<Rightarrow> bool"
  let ?open = "ts_status r \<notin> {SubConfirmed, SubRejected, SubFailed}"
  let ?E = "decision_fails x db0 r :: 'w flow \<Rightarrow> bool"
  let ?resume = "if can_resume_rollback r then txn_return () else require_actionable_for_decision r"
  note reaches = decision_reaches_def reject
  have start: "decision_end x db0 r (ts_status r) s" if "?start s" for s
    using that by (auto simp: decision_end_def decision_reaches_def)
  have failed: "?E s" if "?start s" for s
    using start [OF that] by (rule decision_failsI)
  have resume: "triple ?start ?resume (\<lambda>_ s. ?start s \<and> ?open) ?E"
    by (intro triple_if triple_return triple_post [OF requires_actionable_triple [where P = ?start and E = ?E]])
      (auto simp: can_resume_rollback_def intro: failed)
  have to_rejected: "triple (\<lambda>s. decision_state x db0 r st v s \<and> ?open \<and> st \<in> {ts_status r, SubReverting} \<and>
        (has_snapshot r \<longrightarrow> restored r (fl_calls s)))
      (txn_bind (commit_status S x r confirmation operation v SubRejected) (\<lambda>_. decide_done S x SubRejected answer))
      (decision_result x db0 r) ?E" for st v operation answer
    by (rule triple_bind, rule commit_ends [OF conf, where st = st])
      (auto simp: reaches restored_append intro: triple_pre [OF done_triple])
  have to_failed: "triple (\<lambda>s. decision_state x db0 r st v s \<and> ?open \<and> st \<in> {ts_status r, SubReverting})
      (txn_bind (commit_status S x r confirmation operation v SubRollbackFailed) (\<lambda>_. decide_rollback_failed S x detail))
      (decision_result x db0 r) ?E" for st v operation detail
    by (rule triple_bind, rule commit_ends [OF conf, where st = st])
      (auto simp: reaches intro: triple_pre [OF rollback_failed_triple])
  show ?thesis
  proof (cases "ts_rollback_snapshot r \<in> {None, Some []}")
    case True
    then have bare: "\<not> has_snapshot r" by (simp add: has_snapshot_def)
    have closing: "triple ?start (if ts_status r \<noteq> SubEmpty \<and> \<not> can_resume_rollback r
        then require_actionable_for_decision r else txn_return ()) (\<lambda>_ s. ?start s \<and> ?open) ?E"
      by (intro triple_if triple_return triple_post [OF requires_actionable_triple [where P = ?start and E = ?E]])
        (auto simp: can_resume_rollback_def intro: failed)
    have "triple ?start
        (txn_bind (if ts_status r \<noteq> SubEmpty \<and> \<not> can_resume_rollback r
             then require_actionable_for_decision r else txn_return ()) (\<lambda>_.
           txn_bind (commit_status S x r confirmation ''rejected'' (ts_version r) SubRejected) (\<lambda>_.
             decide_done S x SubRejected ''Team submission rejected.'')))
        (decision_result x db0 r) ?E"
      by (rule triple_bind [OF closing], rule triple_pre [OF to_rejected]) (auto simp: bare)
    moreover have "triple ?start
        (txn_bind ?resume (\<lambda>_. txn_bind (if ts_status r = SubRollbackFailed then txn_return ()
             else commit_status S x r confirmation ''rollback-state'' (ts_version r) SubRollbackFailed) (\<lambda>_.
           decide_rollback_failed S x ''Rollback failed: no rollback snapshot is available.'')))
        (decision_result x db0 r) ?E"
    proof (rule triple_bind [OF resume], cases "ts_status r = SubRollbackFailed")
      case True
      then show "triple (\<lambda>s. ?start s \<and> ?open) (txn_bind (if ts_status r = SubRollbackFailed then txn_return ()
             else commit_status S x r confirmation ''rollback-state'' (ts_version r) SubRollbackFailed) (\<lambda>_.
           decide_rollback_failed S x ''Rollback failed: no rollback snapshot is available.''))
          (decision_result x db0 r) ?E"
        using start by (simp, intro triple_pre [OF rollback_failed_triple]) auto
    next
      case False
      then show "triple (\<lambda>s. ?start s \<and> ?open) (txn_bind (if ts_status r = SubRollbackFailed then txn_return ()
             else commit_status S x r confirmation ''rollback-state'' (ts_version r) SubRollbackFailed) (\<lambda>_.
           decide_rollback_failed S x ''Rollback failed: no rollback snapshot is available.''))
          (decision_result x db0 r) ?E"
        by (simp, intro triple_pre [OF to_failed]) auto
    qed
    ultimately show ?thesis
      using True triple_pre [OF done_triple, OF start]
      by (auto simp: decide_reject_def Let_def)
  next
    case False
    then obtain e es where snap: "ts_rollback_snapshot r = Some (e # es)" by (cases "ts_rollback_snapshot r") (auto simp: neq_Nil_conv)
    let ?mark = "if ts_status r = SubReverting then txn_return (ts_version r)
        else txn_bind ?resume (\<lambda>_. txn_bind (commit_status S x r confirmation ''reverting'' (ts_version r) SubReverting)
          (\<lambda>_. txn_return (ts_version r + 1)))"
    have marked: "triple ?start ?mark (\<lambda>v s. decision_state x db0 r SubReverting v s \<and> ?open) ?E"
    proof (intro triple_if triple_bind [OF resume])
      show "triple (\<lambda>s. ?start s \<and> ?open)
          (txn_bind (commit_status S x r confirmation ''reverting'' (ts_version r) SubReverting)
            (\<lambda>_. txn_return (ts_version r + 1))) (\<lambda>v s. decision_state x db0 r SubReverting v s \<and> ?open) ?E"
        by (rule triple_bind, rule commit_ends [OF conf, where st = "ts_status r"])
          (auto simp: reaches decision_end_def intro!: triple_return)
    qed (auto intro!: triple_return)
    have "triple ?start (txn_bind ?mark (\<lambda>v. txn_bind (reconcile_rollback S (ts_sheet_id r) (e # es)) (\<lambda>done.
        if done
        then txn_bind (commit_status S x r confirmation ''rejected'' v SubRejected) (\<lambda>_.
          decide_done S x SubRejected ''Team submission rejected and rolled back.'')
        else txn_bind (commit_status S x r confirmation ''rollback-failed'' v SubRollbackFailed) (\<lambda>_.
          decide_rollback_failed S x (rollback_failure_detail r (e # es))))))
      (decision_result x db0 r) ?E"
    proof (rule triple_bind [OF marked])
      fix v
      show "triple (\<lambda>s. decision_state x db0 r SubReverting v s \<and> ?open)
        (txn_bind (reconcile_rollback S (ts_sheet_id r) (e # es)) (\<lambda>done.
          if done
          then txn_bind (commit_status S x r confirmation ''rejected'' v SubRejected) (\<lambda>_.
            decide_done S x SubRejected ''Team submission rejected and rolled back.'')
          else txn_bind (commit_status S x r confirmation ''rollback-failed'' v SubRollbackFailed) (\<lambda>_.
            decide_rollback_failed S x (rollback_failure_detail r (e # es)))))
        (decision_result x db0 r) ?E"
      proof (cases ?open)
        case True
        have undecided: "?E s" if "decision_state x db0 r SubReverting v s" for s
          using that True by (intro decision_failsI [of _ _ _ SubReverting]) (auto simp: decision_end_def reaches)
        show ?thesis
          by (rule triple_bind [where Q = "\<lambda>done s. decision_state x db0 r SubReverting v s \<and>
                (done \<longrightarrow> list_ex (shows_restored (ts_sheet_id r) (e # es)) (fl_calls s))"],
              rule triple_pre [OF triple_post [OF reconcile_triple]])
            (use True snap in \<open>auto simp: restored_def undecided
              intro!: triple_pre [OF to_rejected] triple_pre [OF to_failed]\<close>)
      next
        case False
        then show ?thesis by (simp add: triple_def)
      qed
    qed
    then show ?thesis
      using snap triple_pre [OF done_triple, OF start]
      by (auto simp: decide_reject_def Let_def)
  qed
qed

definition may_decide :: "decide_execution \<Rightarrow> submission_row \<Rightarrow> bool" where
  "may_decide x r \<longleftrightarrow> principal_user_id (dx_principal x) = Some (ts_discord_author_id r) \<and>
     ts_confirmation_message_id r = Some (mr_message_id (di_confirmation_message (dx_input x)))"

lemma unchanged_ends:
  assumes "rows_live db0"
    and "find_submission (submission_key_of (di_source_message (dx_input x))) db0 = Some r"
    and "stored (\<lambda>db. db = db0) s"
  shows "decision_end x db0 r (ts_status r) s"
  using decided_as_start [OF assms(1,2)] assms(3)
  by (auto simp: decision_end_def decision_state_def stored_def decision_reaches_def)

lemma found_triple:
  fixes S :: "'w services"
  assumes live: "rows_live db0"
    and row: "find_submission (submission_key_of (di_source_message (dx_input x))) db0 = Some r"
  shows "triple (stored (\<lambda>db. db = db0)) (decide_found S x r)
     (\<lambda>res s. decision_result x db0 r res s \<and> may_decide x r)
     (\<lambda>s. if may_decide x r then decision_fails x db0 r s else stored (\<lambda>db. db = db0) s)"
    (is "triple ?P _ ?Q ?E")
proof (cases "may_decide x r \<and> same_message (di_confirmation_message (dx_input x))
    (di_source_message (dx_input x)\<lparr>mr_message_id := mr_message_id (di_confirmation_message (dx_input x))\<rparr>)")
  case True
  then obtain p where p: "ts_confirmation_message_id r = Some p"
    and found: "decide_found S x r = (case di_decision (dx_input x) of
      Confirm \<Rightarrow> decide_confirm S x r p | Reject \<Rightarrow> decide_reject S x r p)"
    by (auto simp: decide_found_def may_decide_def Let_def)
  have start: "decision_state x db0 r (ts_status r) (ts_version r) s" if "?P s" for s :: "'w flow"
    using that live row by (auto simp: decision_state_def stored_def intro: decided_as_start)
  show ?thesis
  proof (cases "di_decision (dx_input x)")
    case Confirm
    show ?thesis
      by (simp only: found Confirm decision.case, rule triple_pre [OF triple_post [OF confirm_triple [OF p Confirm]]])
        (use start True in auto)
  next
    case Reject
    show ?thesis
      by (simp only: found Reject decision.case, rule triple_pre [OF triple_post [OF reject_triple [OF p Reject]]])
        (use start True in auto)
  qed
next
  case False
  have "?E s" if "?P s" for s :: "'w flow"
    using that decision_failsI [OF unchanged_ends [OF live row that]] by simp
  moreover have "decide_found S x r = txn_fail (if principal_user_id (dx_principal x) \<noteq> Some (ts_discord_author_id r)
      then Declared (BusinessRuleRejected ''OriginalSubmitterOnly''
        ''Only the original submitter can decide this team submission'') else confirmation_mismatch)"
    using False by (cases "ts_confirmation_message_id r") (auto simp: decide_found_def may_decide_def Let_def)
  ultimately show ?thesis by (simp add: triple_fail)
qed

lemma decide_triple:
  fixes S :: "'w services"
  assumes live: "rows_live db0"
    and row: "find_submission (submission_key_of (di_source_message (dx_input x))) db0 = Some r"
  shows "triple (stored (\<lambda>db. db = db0)) (decide S x)
     (\<lambda>res s. decision_result x db0 r res s \<and> may_decide x r)
     (\<lambda>s. if may_decide x r then decision_fails x db0 r s else stored (\<lambda>db. db = db0) s)"
    (is "triple ?P _ ?Q ?E")
proof -
  have unchanged: "?E s" if "?P s" for s :: "'w flow"
    using that decision_failsI [OF unchanged_ends [OF live row that]] by simp
  let ?source = "di_source_message (dx_input x)"
  have get: "triple ?P (get_submission S ?source) (\<lambda>existing s. ?P s \<and> existing = Some r) ?E"
    by (rule triple_post [OF stored.keeps_get]) (use unchanged find_live [OF live] row in \<open>auto simp: stored_def\<close>)
  have rest: "triple (\<lambda>s. ?P s \<and> existing = Some r) (case existing of
      None \<Rightarrow> txn_fail (Declared (ResourceNotFound ''team submission'' (Some (mr_message_id ?source))))
    | Some r \<Rightarrow> decide_found S x r) ?Q ?E" for existing
    using found_triple [OF live row, of S] by (cases "existing = Some r") (auto simp: triple_def)
  show ?thesis
    unfolding decide_def decide_steps_def Let_def
    by (rule triple_map_error, rule triple_bind [OF triple_post [OF stored.keeps_authorize]],
        assumption, rule unchanged, assumption, rule triple_bind [OF get rest])
qed

text \<open>C9: Whatever the other services answer, fail or lose, a decision changes nothing in the stored
  submissions but the status and version of the one it is about, and that only for its submitter and the
  stored confirmation message. A confirmation takes it from registered or updated to confirmed; a
  rejection never moves a confirmed, rejected or failed one, and stores \<open>rejected\<close> over a snapshot only
  after the calls of this very execution wrote the snapshot to the sheet or read it back there. The
  status a decision reports is the stored one.\<close>

theorem decision_moves_its_submission:
  assumes "rows_live (fl_submissions s)"
    and "find_submission (submission_key_of (di_source_message (dx_input x))) (fl_submissions s) = Some r"
    and "decide S x (s\<lparr>fl_calls := []\<rparr>) = (res, t)"
  shows "(if may_decide x r
          then \<exists>st v. decided_as (fl_submissions s) (submission_key_of (di_source_message (dx_input x))) r st v (fl_submissions t) \<and>
             decision_reaches (di_decision (dx_input x)) r (fl_calls t) st \<and>
             (case res of Inl _ \<Rightarrow> True | Inr a \<Rightarrow> dr_status a = st)
          else isl res \<and> fl_submissions t = fl_submissions s)"
proof (cases res)
  case (Inl e)
  then show ?thesis
    using tripleD(1) [OF decide_triple [OF assms(1,2)], of "s\<lparr>fl_calls := []\<rparr>" S e t] assms(3)
    by (auto simp: stored_def decision_fails_def decision_end_def decision_state_def)
next
  case (Inr a)
  then show ?thesis
    using tripleD(2) [OF decide_triple [OF assms(1,2)], of "s\<lparr>fl_calls := []\<rparr>" S a t] assms(3)
    by (auto simp: stored_def decision_result_def decision_end_def decision_state_def)
qed

end
