(* ===== verification/SubmissionWriteAhead.thy ===== *)
theory SubmissionWriteAhead
  imports SubmissionLogic
begin

text \<open>
  The order of the calls of a processing: a row is appended, and cells are written, only directly after
  the store has acknowledged a submission in state \<open>applying\<close> that tells how to find or restore them.
\<close>

subsection \<open>Announced calls\<close>

definition announces_append :: "submission_row option \<Rightarrow> submission_args \<Rightarrow> string \<Rightarrow> bool" where
  "announces_append existing a sheet \<longleftrightarrow>
     ua_status a = SubApplying \<and> ua_sheet_id a = sheet \<and> ua_row_mappings a \<noteq> [] \<and>
     rt_row_index (rm_target (last (ua_row_mappings a))) = 0 \<and>
     existing_mapping_by_key existing (rm_stable_key (last (ua_row_mappings a))) = None \<and>
     (case ua_rollback_snapshot a of
        Some (Some es) \<Rightarrow> es \<noteq> [] \<and> last es = \<lparr>rb_stable_key = rm_stable_key (last (ua_row_mappings a)),
          rb_range = pending_append_rollback_range, rb_values = []\<rparr>
      | _ \<Rightarrow> False)"

text \<open>The snapshot of a submission holds a range, or the range is the key of an entry (no range is).\<close>

definition covers_range :: "submission_args \<Rightarrow> string \<Rightarrow> bool" where
  "covers_range a rng \<longleftrightarrow> rng = [] \<or> rng \<in> set (map rm_stable_key (ua_row_mappings a)) \<or>
     (case ua_rollback_snapshot a of Some (Some es) \<Rightarrow> rng \<in> set (map rb_range es) | _ \<Rightarrow> False)"

definition announces_write :: "submission_row option \<Rightarrow> submission_args \<Rightarrow> string \<Rightarrow> sheet_update list \<Rightarrow> bool" where
  "announces_write existing a sheet updates \<longleftrightarrow>
     ua_status a = SubApplying \<and> ua_sheet_id a = sheet \<and>
     (map_option ts_status existing = Some SubApplying \<or>
      \<not> distinct (map pe_stable_key (ua_parsed_submission a)) \<or>
      list_all (\<lambda>u. covers_range a (su_range u)) updates)"

definition follows :: "submission_row option \<Rightarrow> call option \<Rightarrow> call \<Rightarrow> bool" where
  "follows existing p c \<longleftrightarrow>
     (case c of
        CallAppend sheet _ _ \<Rightarrow> (case p of Some (CallUpsert a True) \<Rightarrow> announces_append existing a sheet | _ \<Rightarrow> False)
      | CallWrite sheet us _ \<Rightarrow> (case p of Some (CallUpsert a True) \<Rightarrow> announces_write existing a sheet us | _ \<Rightarrow> False)
      | _ \<Rightarrow> True)"

fun written_ahead :: "submission_row option \<Rightarrow> call option \<Rightarrow> call list \<Rightarrow> bool" where
  "written_ahead existing p [] = True"
| "written_ahead existing p (c # cs) = (follows existing p c \<and> written_ahead existing (Some c) cs)"

definition asks_or_reports :: "call \<Rightarrow> bool" where
  "asks_or_reports c \<longleftrightarrow> (case c of CallAppend _ _ _ \<Rightarrow> False | CallWrite _ _ _ \<Rightarrow> False | _ \<Rightarrow> True)"

lemma written_ahead_snoc:
  "written_ahead existing p (cs @ [c]) \<longleftrightarrow>
     written_ahead existing p cs \<and> follows existing (if cs = [] then p else Some (last cs)) c"
  by (induction cs arbitrary: p) auto

lemma asks_or_reports_follows: "asks_or_reports c \<Longrightarrow> follows existing p c"
  by (auto simp: asks_or_reports_def follows_def split: call.splits)

lemma asks_or_reports_simps [simp]:
  "asks_or_reports (CallUpsert a ok)" "asks_or_reports (CallConfirmation k m ok)"
  "asks_or_reports (CallRead sheet rngs r)" "asks_or_reports (CallDeliver key d)"
  "\<not> asks_or_reports (CallAppend sheet rng row)" "\<not> asks_or_reports (CallWrite sheet us ok)"
  by (simp_all add: asks_or_reports_def)

definition ahead :: "submission_row option \<Rightarrow> 'w flow \<Rightarrow> bool" where
  "ahead existing s \<longleftrightarrow> written_ahead existing None (fl_calls s)"

interpretation ahead: flow_invariant "ahead existing" asks_or_reports for existing
  by unfold_locales (auto simp: ahead_def written_ahead_snoc asks_or_reports_follows)

text \<open>Directly after an acknowledged upsert.\<close>

definition ahead_of :: "submission_row option \<Rightarrow> (submission_args \<Rightarrow> bool) \<Rightarrow> 'w flow \<Rightarrow> bool" where
  "ahead_of existing A s \<longleftrightarrow> ahead existing s \<and> fl_calls s \<noteq> [] \<and> (\<exists>a. last (fl_calls s) = CallUpsert a True \<and> A a)"

lemma ahead_of_ahead: "ahead_of existing A s \<Longrightarrow> ahead existing s"
  by (simp add: ahead_of_def)

lemma ahead_upsert:
  assumes "A a"
  shows "triple (ahead existing) (upsert_submission S a) (\<lambda>_. ahead_of existing A) (ahead existing)"
  by (rule triple_upsert)
    (use assms in \<open>auto simp: ahead_of_def ahead_def written_ahead_snoc asks_or_reports_follows\<close>)

lemma ahead_persist:
  assumes "A (source_record (pi_source_message (cx_input cx)) (pi_author_id (cx_input cx)) (cx_sheet_id cx)
      (Option.bind (cx_existing cx) ts_confirmation_message_id) entries mappings (Some snapshot) status
      (if rn_persisted run then Some (rn_version run) else None))"
  shows "triple (ahead existing) (persist_current S cx run entries mappings snapshot status)
    (\<lambda>run' s. ahead_of existing A s \<and> rn_registered run' = rn_registered run) (ahead existing)"
  unfolding persist_current_def
  by (rule triple_bind [OF ahead_upsert [where A = A]], rule assms, rule triple_return) simp

lemma ahead_confirmation: "triple (ahead existing) (set_confirmation S k m) (\<lambda>_. ahead existing) (ahead existing)"
  by (rule triple_confirmation) (auto simp: ahead_def written_ahead_snoc asks_or_reports_follows)

subsection \<open>Appending\<close>

lemma ahead_append_row:
  assumes "\<And>a. A a \<Longrightarrow> announces_append existing a sheet"
  shows "triple (ahead_of existing A) (append_row S sheet rng row) (\<lambda>_. ahead existing) (ahead existing)"
  unfolding append_row_def
  by (rule tripleI)
    (use assms in \<open>auto simp: provider_step_def ahead_of_def ahead_def written_ahead_snoc follows_def
      split: prod.splits sum.splits\<close>)

lemma ahead_before_append:
  assumes "existing_mapping_by_key existing (rm_stable_key m) = None" and "rt_row_index (rm_target m) = 0"
  shows "triple (ahead existing) (before_append S cx run m)
    (\<lambda>run' s. ahead_of existing (\<lambda>a. announces_append existing a (cx_sheet_id cx)) s \<and>
       rn_registered run' = rn_registered run) (ahead existing)"
  unfolding before_append_def
  by (rule ahead_persist) (use assms in \<open>simp add: announces_append_def source_record_def\<close>)

lemma ahead_append_fresh:
  assumes "existing_mapping_by_key existing (pe_stable_key e) = None"
  shows "triple (ahead existing) (append_fresh_row S cx run e ar expected clean_expected blueprint)
    (\<lambda>(t, run') s. ahead existing s \<and> rn_registered run' = rn_registered run) (ahead existing)"
  unfolding append_fresh_row_def
proof (rule triple_bind [OF ahead_before_append], goal_cases)
  case (3 run')
  let ?Q = "\<lambda>(t, run'') s. ahead existing s \<and> rn_registered run'' = rn_registered run"
  show ?case
  proof (rule triple_const, rule triple_bind [OF ahead_append_row], assumption, goal_cases)
    case kept: (1 updated)
    have answer: "triple (ahead existing) (case resolve_reconciled_target ar expected clean_expected blueprint ranges of
        Some r \<Rightarrow> txn_return (r, run')
      | None \<Rightarrow> txn_fail (reconciliation_failed ''AppendReconciliationFailed''
          ''The appended team row could not be reconciled'')) ?Q (ahead existing)" for ranges
      using kept by (auto intro!: triple_return triple_fail split: option.split)
    have read: "triple (ahead existing) (read_ranges S (cx_sheet_id cx) [ar_range ar]) (\<lambda>_. ahead existing) (ahead existing)"
      by (rule ahead.keeps_read) simp
    show ?case
      using kept by (auto intro!: triple_return triple_bind [OF read answer] split: option.split)
  qed
qed (use assms in simp_all)

lemma ahead_resolve:
  assumes "previous = existing_mapping_by_key existing (pe_stable_key e)"
  shows "triple (ahead existing) (resolve_append_target S cx run append_identity e oshi p t oshi_range previous)
    (\<lambda>(r, run') s. ahead existing s \<and> rn_registered run' = rn_registered run) (ahead existing)"
proof -
  let ?Q = "\<lambda>(r, run') s. ahead existing s \<and> rn_registered run' = rn_registered run"
  have fresh: "triple (ahead existing) (append_fresh_row S cx run e ar x y b) ?Q (ahead existing)"
    if "previous = None" for ar x y b
    by (rule ahead_append_fresh) (use that assms in simp)
  have read: "triple (ahead existing) (read_ranges S (cx_sheet_id cx) rngs) (\<lambda>_. ahead existing) (ahead existing)" for rngs
    by (rule ahead.keeps_read) simp
  show ?thesis
    unfolding resolve_append_target_def Let_def
    by (auto intro!: triple_fail triple_return fresh triple_bind [OF read] split: option.split)
qed

subsection \<open>The entries\<close>

definition keyed :: "run \<Rightarrow> bool" where
  "keyed run \<longleftrightarrow> list_all (\<lambda>p. rm_stable_key (pr_mapping p) = pe_stable_key (pr_entry p)) (rn_registered run)"

definition ahead_run :: "submission_row option \<Rightarrow> run \<Rightarrow> 'w flow \<Rightarrow> bool" where
  "ahead_run existing run s \<longleftrightarrow> ahead existing s \<and> keyed run"

lemma keyed_register:
  "keyed run \<Longrightarrow> rn_registered run' = rn_registered run @ [p] \<Longrightarrow>
   rm_stable_key (pr_mapping p) = pe_stable_key (pr_entry p) \<Longrightarrow> keyed run'"
  by (simp add: keyed_def)

lemma ahead_process_entry:
  assumes "cx_existing cx = existing"
  shows "triple (ahead_run existing run) (process_entry S cx run e) (ahead_run existing) (ahead existing)"
proof (cases "keyed run")
  case True
  have resolve: "triple (ahead existing) (resolve_append_target S cx run append_identity e oshi p t oshi_range
        (existing_mapping_by_key (cx_existing cx) (pe_stable_key e)))
      (\<lambda>(r, run') s. ahead existing s \<and> rn_registered run' = rn_registered run) (ahead existing)"
    for append_identity oshi p t oshi_range
    by (rule ahead_resolve) (simp add: assms)
  have persist: "triple (ahead existing) (persist_current S cx run' es ms sn st) (ahead_run existing) (ahead existing)"
    if "keyed run'" for run' es ms sn st
    by (rule triple_post [OF ahead_persist [where A = "\<lambda>_. True"]])
      (use that in \<open>auto simp: ahead_run_def keyed_def dest: ahead_of_ahead\<close>)
  have "triple (ahead existing) (process_entry S cx run e) (ahead_run existing) (ahead existing)"
    unfolding process_entry_def Let_def
    using True
    by (auto intro!: triple_return triple_bind [OF resolve] triple_const triple_if persist
        simp: ahead_run_def keyed_def skip_entry_def mapping_from_target_def split: option.split prod.split)
  then show ?thesis
    by (rule triple_pre) (simp add: ahead_run_def)
next
  case False
  then show ?thesis by (simp add: triple_def ahead_run_def)
qed

subsection \<open>The snapshot\<close>

lemma provider_read_ranges:
  "provider_read client sheet rngs w = (Inr rs, w') \<Longrightarrow> map vr_range rs = rngs"
  by (auto simp: provider_read_def read_sheets_value_ranges_def Let_def map2_map_map comp_def
      intro!: nth_equalityI split: if_splits prod.splits sum.splits get_response.splits option.splits)

definition snapshot_of :: "string list \<Rightarrow> (string \<Rightarrow> string option) \<Rightarrow> rollback_entry list \<Rightarrow> bool" where
  "snapshot_of requested keys snapshot \<longleftrightarrow>
     map rb_range snapshot = filter (\<lambda>r. r \<noteq> []) requested \<and>
     (\<forall>x \<in> set snapshot. rb_stable_key x = (case keys (rb_range x) of None \<Rightarrow> rb_range x | Some k \<Rightarrow> k))"

lemma snapshot_of_read:
  assumes "map vr_range rs = requested"
  shows "snapshot_of requested keys (concat (map (\<lambda>(i, r).
          (let resolved = (if vr_range r \<noteq> [] then vr_range r
                 else if i < length requested then requested ! i else [])
           in if resolved = [] then []
              else [\<lparr>rb_stable_key = (case keys resolved of None \<Rightarrow> resolved | Some k \<Rightarrow> k),
                     rb_range = resolved, rb_values = vr_values r\<rparr>])) (List.enumerate 0 rs)))"
proof -
  let ?g = "\<lambda>r. if vr_range r = [] then []
      else [\<lparr>rb_stable_key = (case keys (vr_range r) of None \<Rightarrow> vr_range r | Some k \<Rightarrow> k),
             rb_range = vr_range r, rb_values = vr_values r\<rparr>]"
  have "map (\<lambda>(i, r).
          (let resolved = (if vr_range r \<noteq> [] then vr_range r
                 else if i < length requested then requested ! i else [])
           in if resolved = [] then []
              else [\<lparr>rb_stable_key = (case keys resolved of None \<Rightarrow> resolved | Some k \<Rightarrow> k),
                     rb_range = resolved, rb_values = vr_values r\<rparr>])) (List.enumerate 0 rs)
      = map (?g \<circ> snd) (List.enumerate 0 rs)"
    by (rule map_cong) (auto simp: in_set_enumerate_eq Let_def assms [symmetric] split: option.split)
  also have "concat \<dots> = concat (map ?g rs)"
    by (simp flip: map_map)
  finally have eq: "concat (map (\<lambda>(i, r).
          (let resolved = (if vr_range r \<noteq> [] then vr_range r
                 else if i < length requested then requested ! i else [])
           in if resolved = [] then []
              else [\<lparr>rb_stable_key = (case keys resolved of None \<Rightarrow> resolved | Some k \<Rightarrow> k),
                     rb_range = resolved, rb_values = vr_values r\<rparr>])) (List.enumerate 0 rs)) = concat (map ?g rs)" .
  have "map rb_range (concat (map ?g rs)) = filter (\<lambda>r. r \<noteq> []) (map vr_range rs)"
    by (induction rs) auto
  then show ?thesis
    unfolding snapshot_of_def eq by (auto simp: assms split: option.split)
qed

lemma ahead_snapshot:
  assumes "sv_provider S = make_team_submission_provider client"
  shows "triple (ahead existing) (read_snapshot S sheet updates keys)
    (\<lambda>b s. ahead existing s \<and> snapshot_of (js_set (map su_range updates)) keys b) (ahead existing)"
proof -
  have read: "triple (ahead existing) (read_ranges S sheet rngs)
      (\<lambda>rs s. ahead existing s \<and> map vr_range rs = rngs) (ahead existing)" for rngs
    unfolding read_ranges_def
    by (rule tripleI)
      (auto simp: provider_step_def assms make_team_submission_provider_def intro!: ahead.keeps_call ahead.keeps_world
        dest: provider_read_ranges split: prod.splits sum.splits)
  show ?thesis
  proof (cases "js_set (map su_range updates) = []")
    case True
    then show ?thesis by (auto simp: read_snapshot_def snapshot_of_def intro: triple_return)
  next
    case False
    show ?thesis
      unfolding read_snapshot_def
      apply (subst Let_def)
      apply (simp only: False if_False)
      apply (rule triple_bind [OF read], rule triple_return, erule conjE, rule conjI, assumption)
      apply (erule snapshot_of_read)
      done
  qed
qed

text \<open>Every cell that is about to be written is in the snapshot, when the keys of the entries differ.\<close>

lemma stable_key_by_range_Some:
  assumes "stable_key_by_range ps rng = Some k"
  shows "\<exists>p \<in> set ps. rm_stable_key (pr_mapping p) = k \<and>
    (\<exists>t \<in> set (rm_target (pr_mapping p) # pr_duplicate_targets p). rng \<in> set (ranges_for_target t))"
  using map_of_SomeD [OF assms [unfolded stable_key_by_range_def]] by auto

lemma blank_snapshot_ranges:
  "p \<in> set ps \<Longrightarrow> pr_appended p \<Longrightarrow> t \<in> set (rm_target (pr_mapping p) # pr_duplicate_targets p) \<Longrightarrow>
   rng \<in> set (ranges_for_target t) \<Longrightarrow> rng \<in> rb_range ` set (blank_rollback_snapshot_for_appended_rows ps)"
  unfolding blank_rollback_snapshot_for_appended_rows_def by (force simp: image_iff)

lemma distinct_keys_same:
  "distinct (map f xs) \<Longrightarrow> x \<in> set xs \<Longrightarrow> y \<in> set xs \<Longrightarrow> f x = f y \<Longrightarrow> x = y"
  by (auto simp: distinct_map inj_on_def)

lemma final_snapshot_covers:
  assumes snap: "snapshot_of (js_set (map su_range (sheet_data cx run))) (stable_key_by_range (rn_registered run)) before"
    and "keyed run" and "distinct (map (\<lambda>p. pe_stable_key (pr_entry p)) (rn_registered run))"
    and "map_option ts_status (cx_existing cx) \<noteq> Some SubApplying"
    and u: "u \<in> set (sheet_data cx run)" and "su_range u \<noteq> []"
    and nokey: "su_range u \<notin> (\<lambda>p. rm_stable_key (pr_mapping p)) ` set (rn_registered run)"
  shows "su_range u \<in> rb_range ` set (final_snapshot cx run before)"
proof -
  let ?ps = "rn_registered run"
  have "su_range u \<in> set (map rb_range before)"
    using snap u assms(6) by (auto simp: snapshot_of_def)
  then obtain b where b: "b \<in> set before" "rb_range b = su_range u" by auto
  show ?thesis
  proof (cases "rb_stable_key b \<in> set (map (\<lambda>p. rm_stable_key (pr_mapping p)) (filter pr_appended ?ps))")
    case False
    then have "b \<in> set (final_snapshot cx run before)"
      using b assms(4) by (auto simp: final_snapshot_def)
    then show ?thesis using b(2) by force
  next
    case True
    then obtain q where q: "q \<in> set ?ps" "pr_appended q" "rm_stable_key (pr_mapping q) = rb_stable_key b" by auto
    have "rb_stable_key b = (case stable_key_by_range ?ps (su_range u) of None \<Rightarrow> su_range u | Some k \<Rightarrow> k)"
      using snap b by (auto simp: snapshot_of_def split: option.split)
    moreover have "rb_stable_key b \<noteq> su_range u" using q nokey by force
    ultimately obtain k where "stable_key_by_range ?ps (su_range u) = Some k" "rb_stable_key b = k"
      by (auto split: option.splits)
    then obtain p t where p: "p \<in> set ?ps" "rm_stable_key (pr_mapping p) = rm_stable_key (pr_mapping q)"
        "t \<in> set (rm_target (pr_mapping p) # pr_duplicate_targets p)" "su_range u \<in> set (ranges_for_target t)"
      using stable_key_by_range_Some [of ?ps "su_range u" k] q by auto
    have "pe_stable_key (pr_entry p) = pe_stable_key (pr_entry q)"
      using p(1,2) q(1) \<open>keyed run\<close> by (auto simp: keyed_def list_all_iff)
    then have "p = q" using distinct_keys_same [OF assms(3) p(1) q(1)] by simp
    then have "su_range u \<in> rb_range ` set (blank_rollback_snapshot_for_appended_rows ?ps)"
      using blank_snapshot_ranges [OF p(1) _ p(3,4)] q(2) by simp
    then show ?thesis using assms(4) by (auto simp: final_snapshot_def)
  qed
qed

subsection \<open>The handler\<close>

lemma ahead_write_updates:
  assumes "\<And>a. A a \<Longrightarrow> announces_write existing a sheet us"
  shows "triple (ahead_of existing A) (write_updates S sheet us) (\<lambda>_. ahead existing) (ahead existing)"
  unfolding write_updates_def
  by (rule tripleI)
    (use assms in \<open>auto simp: provider_step_def ahead_of_def ahead_def written_ahead_snoc follows_def
      split: prod.splits sum.splits\<close>)

lemma ahead_write_sheet:
  assumes provider: "sv_provider S = make_team_submission_provider client" and "cx_existing cx = existing"
    and reporting: "\<And>e. triple (ahead existing) (reporting e) (\<lambda>_. ahead existing) (ahead existing)"
    and "keyed run"
  shows "triple (ahead existing) (write_sheet S cx reporting run) (\<lambda>_. ahead existing) (ahead existing)"
proof -
  let ?entries = "map pr_entry (rn_registered run)" and ?mappings = "map pr_mapping (rn_registered run)"
  let ?data = "sheet_data cx run"
  have terminal: "triple (ahead existing)
      (txn_bind (map_error f (persist_current S cx run' ?entries ?mappings snapshot st)) (\<lambda>_. txn_return ()))
      (\<lambda>_. ahead existing) (ahead existing)" for f run' snapshot st
    by (rule triple_bind [OF triple_map_error [OF ahead_persist [where A = "\<lambda>_. True"]]])
      (auto intro: triple_return dest: ahead_of_ahead)
  have announced: "announces_write existing (source_record (pi_source_message (cx_input cx)) (pi_author_id (cx_input cx))
      (cx_sheet_id cx) (Option.bind (cx_existing cx) ts_confirmation_message_id) ?entries ?mappings
      (Some (final_snapshot cx run before)) SubApplying v) (cx_sheet_id cx) ?data"
    if "snapshot_of (js_set (map su_range ?data)) (stable_key_by_range (rn_registered run)) before" for before v
    using final_snapshot_covers [OF that \<open>keyed run\<close>] assms(2)
    by (auto simp: announces_write_def source_record_def covers_range_def list_all_iff image_comp comp_def)
  have writing: "triple (ahead existing)
      (txn_bind (map_error f (persist_current S cx run ?entries ?mappings (final_snapshot cx run before) SubApplying)) (\<lambda>run'.
        txn_bind (txn_catch (write_updates S (cx_sheet_id cx) ?data) (\<lambda>e. reporting (g e))) (\<lambda>_. txn_return run')))
      (\<lambda>_. ahead existing) (ahead existing)"
    if "snapshot_of (js_set (map su_range ?data)) (stable_key_by_range (rn_registered run)) before" for before f g
  proof (rule triple_bind [OF triple_map_error [OF ahead_persist
        [where A = "\<lambda>a. announces_write existing a (cx_sheet_id cx) ?data"]]])
    show "triple (\<lambda>s. ahead_of existing (\<lambda>a. announces_write existing a (cx_sheet_id cx) ?data) s \<and>
          rn_registered run' = rn_registered run)
        (txn_bind (txn_catch (write_updates S (cx_sheet_id cx) ?data) (\<lambda>e. reporting (g e))) (\<lambda>_. txn_return run'))
        (\<lambda>_. ahead existing) (ahead existing)" for run'
      by (rule triple_const, rule triple_bind [OF triple_catch [OF ahead_write_updates reporting]])
        (auto intro: triple_return)
  qed (rule announced [OF that])
  show ?thesis
    unfolding write_sheet_def Let_def
    by (rule triple_bind [OF ahead_snapshot [OF provider]], rule triple_const, rule keeps_bind, rule triple_if)
      (auto intro: triple_return writing terminal)
qed

lemma ahead_edit: "triple (ahead existing) (edit_progress S x m c act) (\<lambda>_. ahead existing) (ahead existing)"
  unfolding edit_progress_def by (rule triple_map_error, rule ahead.keeps_deliver) simp

lemma ahead_report:
  "triple (ahead existing) (report_process_write_failure S x m e) Q (ahead existing)"
  unfolding report_process_write_failure_def
  by (rule triple_bind [where Q = "\<lambda>_. ahead existing"], intro keeps_catch keeps_bind keeps_return ahead_edit)
    (rule triple_fail)

lemma ahead_submission:
  assumes "sv_provider S = make_team_submission_provider client" and "cx_existing cx = existing"
  shows "triple (ahead existing) (process_submission S x cx) (\<lambda>_. ahead existing) (ahead existing)"
proof -
  have progress: "triple (ahead existing) (deliver_progress S x source) (\<lambda>_. ahead existing) (ahead existing)" for source
    unfolding deliver_progress_def
    by (intro keeps_bind keeps_catch keeps_return triple_map_error ahead.keeps_deliver) auto
  have rows: "triple (ahead existing)
      (txn_catch (txn_fold (process_entry S cx) (initial_run (cx_existing cx)) (cx_parsed_entries cx))
        (report_process_write_failure S x m)) (ahead_run existing) (ahead existing)" for m
    by (rule triple_catch [where F = "ahead existing"],
        rule triple_pre [OF triple_fold [where P = "ahead_run existing", OF ahead_process_entry [OF assms(2)]]])
      (auto simp: ahead_run_def keyed_def initial_run_def intro: ahead_report)
  show ?thesis
    unfolding process_submission_def Let_def
    apply (rule triple_bind [OF progress], clarsimp split: prod.split)
    apply (rule triple_bind [OF rows], unfold ahead_run_def, rule triple_const)
    apply (intro keeps_bind ahead_write_sheet [OF assms] ahead_report ahead_edit triple_map_error
        ahead_confirmation keeps_return)
    apply assumption
    done
qed

text \<open>What a processing has read of its own submission.\<close>

definition stored_before :: "process_execution \<Rightarrow> submission_db \<Rightarrow> submission_row option" where
  "stored_before x db = get_message_team_submission (submission_key_of (pi_source_message (px_input x))) db"

interpretation unread: flow_invariant "\<lambda>s. ahead existing s \<and> fl_submissions s = db" asks_or_reports for existing db
  by unfold_locales (auto intro: ahead.keeps_world ahead.keeps_call)

lemma ahead_process:
  assumes "sv_provider S = make_team_submission_provider client"
  shows "triple (\<lambda>s. ahead (stored_before x db) s \<and> fl_submissions s = db) (process S x)
    (\<lambda>_. ahead (stored_before x db)) (ahead (stored_before x db))"
proof -
  let ?e = "stored_before x db"
  let ?I = "\<lambda>s. ahead ?e s \<and> fl_submissions s = db"
  let ?source = "pi_source_message (px_input x)"
  have found: "triple ?I (get_submission S ?source) (\<lambda>existing s. ?I s \<and> existing = ?e) (ahead ?e)"
    by (rule triple_post [OF unread.keeps_get]) (auto simp: stored_before_def)
  have look: "triple ?I (look_up f) (\<lambda>_. ?I) (ahead ?e)" for f :: "'a \<Rightarrow> 'b lookup \<times> 'a"
    by (rule triple_post [OF unread.keeps_look_up]) auto
  have read: "triple ?I (read_ranges S sheet rngs) (\<lambda>_. ?I) (ahead ?e)" for sheet rngs
    by (rule triple_post [OF unread.keeps_read]) auto
  have authorize: "triple ?I (authorize_with f policy operation) (\<lambda>_. ?I) (ahead ?e)" for f policy operation
    by (rule triple_post [OF unread.keeps_authorize]) auto
  have configs: "triple ?I (load_team_configs S workspace sheet) (\<lambda>_. ?I) (ahead ?e)" for workspace sheet
    unfolding load_team_configs_def Let_def by (intro triple_bind [OF look] triple_bind [OF read] triple_return)
  have submission: "triple (\<lambda>s. ahead e s \<and> fl_submissions s = db) (process_submission S x cx)
      (\<lambda>_. ahead e) (ahead e)" if "cx_existing cx = e" for cx e
    by (rule triple_pre [OF ahead_submission [OF assms that]]) simp
  have accepted: "triple (\<lambda>s. ?I s \<and> existing = ?e) (process_accepted S x parsed sheet_id ch existing)
      (\<lambda>_. ahead ?e) (ahead ?e)" for parsed sheet_id ch existing
    unfolding process_accepted_def
    by (rule triple_const, rule triple_if, rule triple_fail, simp, rule triple_bind [OF configs])
      (auto intro: submission triple_fail split: option.splits)
  show ?thesis
    unfolding process_def process_steps_def Let_def
    by (rule triple_map_error, rule triple_bind [OF authorize], rule triple_bind [OF look])
      (auto intro!: triple_return triple_fail triple_bind [OF look] triple_bind [OF found accepted] split: option.split)
qed



end
