(* ===== verification/SubmissionEdits.thy ===== *)
theory SubmissionEdits
  imports SubmissionLogic
begin

text \<open>
  What a processing makes of the stored submissions: only its own row, only through the states of an
  edit, and a reported result is the stored one.
\<close>

definition process_submission_key :: "process_execution \<Rightarrow> submission_key" where
  "process_submission_key x = submission_key_of (pi_source_message (px_input x))"

text \<open>The stored submissions are \<open>db0\<close> but for the row of \<open>k\<close>, of which \<open>P\<close> holds.\<close>

definition edits :: "submission_key \<Rightarrow> submission_db \<Rightarrow> (submission_row option \<Rightarrow> bool) \<Rightarrow> submission_db \<Rightarrow> bool" where
  "edits k db0 P db \<longleftrightarrow> rows_live db \<and>
     (\<forall>k'. k' \<noteq> k \<longrightarrow> find_submission k' db = find_submission k' db0) \<and> P (find_submission k db)"

definition in_state :: "submission_status \<Rightarrow> submission_row option \<Rightarrow> bool" where
  "in_state st r \<longleftrightarrow> map_option ts_status r = Some st"

definition in_edit :: "submission_row option \<Rightarrow> submission_row option \<Rightarrow> bool" where
  "in_edit before r \<longleftrightarrow> map_option ts_status r \<in>
     {map_option ts_status before, Some SubApplying, Some SubRegistered, Some SubUpdated, Some SubEmpty}"

lemma edits_weaken: "edits k db0 P db \<Longrightarrow> (\<And>r. P r \<Longrightarrow> Q r) \<Longrightarrow> edits k db0 Q db"
  by (auto simp: edits_def)

lemma edits_upsert:
  assumes "edits k db0 P db" and "upsert_message_team_submission stamp a db = (Inr (), db')" and "ua_key a = k"
  shows "edits k db0 (in_state (ua_status a)) db'"
  using assms rows_live_mutation [of db "UpsertSubmission stamp a"] find_upserted_submission [OF assms(2)]
  by (auto simp: edits_def in_state_def submission_row_of_def)

lemma edits_confirmation:
  assumes "edits k db0 (in_state st) db" and "snd (set_message_team_submission_confirmation stamp k m db) = db'"
  shows "edits k db0 (\<lambda>r. in_state st r \<and> Option.bind r ts_confirmation_message_id = Some m) db'"
  using assms rows_live_mutation [of db "SetConfirmation stamp k m"] find_confirmed_submission [OF assms(2)] find_live [of db k]
  by (auto simp: edits_def in_state_def)

definition edited :: "process_execution \<Rightarrow> submission_db \<Rightarrow> 'w flow \<Rightarrow> bool" where
  "edited x db0 = stored (edits (process_submission_key x) db0 (in_edit (find_submission (process_submission_key x) db0)))"

definition edited_to :: "process_execution \<Rightarrow> submission_db \<Rightarrow> submission_status \<Rightarrow> 'w flow \<Rightarrow> bool" where
  "edited_to x db0 st = stored (edits (process_submission_key x) db0 (in_state st))"

definition edit_status :: "submission_status \<Rightarrow> bool" where
  "edit_status st \<longleftrightarrow> st \<in> {SubApplying, SubRegistered, SubUpdated, SubEmpty}"

lemma edited_to_edited: "edited_to x db0 st s \<Longrightarrow> edit_status st \<Longrightarrow> edited x db0 s"
  unfolding edited_def edited_to_def stored_def
  by (erule edits_weaken) (auto simp: in_state_def in_edit_def edit_status_def)

interpretation edited: flow_invariant "edited x db0" "\<lambda>_. True" for x db0
  unfolding edited_def by unfold_locales (auto simp: stored_def)

interpretation edited_to: flow_invariant "edited_to x db0 st" "\<lambda>_. True" for x db0 st
  unfolding edited_to_def by unfold_locales (auto simp: stored_def)

definition own_context :: "process_execution \<Rightarrow> run_context \<Rightarrow> bool" where
  "own_context x cx \<longleftrightarrow> submission_key_of (pi_source_message (cx_input cx)) = process_submission_key x"

lemma persist_edit:
  assumes "own_context x cx" and "edit_status st"
  shows "triple (edited x db0) (persist_current S cx run es ms sn st)
    (\<lambda>run' s. edited_to x db0 st s \<and> rn_registered run' = rn_registered run) (edited x db0)"
proof -
  have upsert: "triple (edited x db0) (upsert_submission S a) (\<lambda>_. edited_to x db0 st) (edited x db0)"
    if "ua_key a = process_submission_key x" "ua_status a = st" for a
  proof (rule triple_upsert)
    fix s :: "'a flow" and w stamp db
    assume "edited x db0 s" and "upsert_message_team_submission stamp a (fl_submissions s) = (Inr (), db)"
    then have "edited_to x db0 st (log_call (CallUpsert a True) (s\<lparr>fl_world := w, fl_submissions := db\<rparr>))"
      using that edits_upsert by (auto simp: edited_def edited_to_def stored_def)
    then show "edited_to x db0 st (log_call (CallUpsert a True) (s\<lparr>fl_world := w, fl_submissions := db\<rparr>)) \<and>
        edited x db0 (log_call (CallUpsert a True) (s\<lparr>fl_world := w, fl_submissions := db\<rparr>))"
      using edited_to_edited assms(2) by blast
  qed (simp add: edited_def stored_def)
  show ?thesis
    unfolding persist_current_def
    by (rule triple_bind [OF upsert])
      (use assms(1) in \<open>auto simp: source_record_def own_context_def intro!: triple_return\<close>)
qed

lemma persist_keeps:
  assumes "own_context x cx" and "edit_status st"
  shows "triple (edited x db0) (persist_current S cx run es ms sn st) (\<lambda>_. edited x db0) (edited x db0)"
  by (rule triple_post [OF persist_edit [OF assms]]) (use assms(2) edited_to_edited in blast)+

lemma edited_read: "triple (edited x db0) (read_ranges S sheet rngs) (\<lambda>_. edited x db0) (edited x db0)"
  by (rule edited.keeps_read) simp

lemma edited_provider: "triple (edited x db0) (provider_step f c) (\<lambda>_. edited x db0) (edited x db0)"
  by (rule edited.keeps_provider) simp

lemma edited_process_entry:
  assumes "own_context x cx"
  shows "triple (edited x db0) (process_entry S cx run e) (\<lambda>_. edited x db0) (edited x db0)"
proof -
  have applying: "edit_status SubApplying" by (simp add: edit_status_def)
  have fresh: "triple (edited x db0) (append_fresh_row S cx run e ar a b c) (\<lambda>_. edited x db0) (edited x db0)"
    for run e ar a b c
    unfolding append_fresh_row_def before_append_def append_row_def
    by (auto intro!: keeps_bind persist_keeps [OF assms applying] edited_provider edited_read triple_return triple_fail
        split: option.split)
  have resolve: "triple (edited x db0) (resolve_append_target S cx run i e oshi p t r previous) (\<lambda>_. edited x db0) (edited x db0)"
    for run i e oshi p t r previous
    unfolding resolve_append_target_def Let_def
    by (auto intro!: keeps_bind fresh edited_read triple_return triple_fail split: option.split)
  show ?thesis
    unfolding process_entry_def Let_def
    by (auto intro!: triple_return keeps_bind resolve persist_keeps [OF assms applying] split: option.split prod.split)
qed

lemma edited_report: "triple (edited x db0) (report_process_write_failure S y m e) Q (edited x db0)"
  unfolding report_process_write_failure_def edit_progress_def
  by (rule triple_bind [where Q = "\<lambda>_. edited x db0"],
      intro keeps_catch keeps_bind keeps_return triple_map_error edited.keeps_deliver)
    (auto intro: triple_fail)

lemma final_status_registered: "rn_registered run' = rn_registered run \<Longrightarrow> final_status cx run' = final_status cx run"
  by (simp add: final_status_def)

lemma edit_status_final: "edit_status (final_status cx run)"
  by (simp add: final_status_def edit_status_def)

lemma edited_write_sheet:
  assumes own: "own_context x cx" and reporting: "\<And>e. triple (edited x db0) (reporting e) (\<lambda>_. edited x db0) (edited x db0)"
  shows "triple (edited x db0) (write_sheet S cx reporting run)
    (\<lambda>_. edited_to x db0 (final_status cx run)) (edited x db0)"
proof -
  let ?entries = "map pr_entry (rn_registered run)" and ?mappings = "map pr_mapping (rn_registered run)"
  have applying: "edit_status SubApplying" by (simp add: edit_status_def)
  have snapshot: "triple (edited x db0) (read_snapshot S sheet us keys) (\<lambda>_. edited x db0) (edited x db0)" for sheet us keys
    unfolding read_snapshot_def Let_def by (intro triple_if triple_return keeps_bind edited_read)
  have terminal: "triple (edited x db0)
      (txn_bind (map_error f (persist_current S cx run' ?entries ?mappings sn (final_status cx run'))) (\<lambda>_. txn_return ()))
      (\<lambda>_. edited_to x db0 (final_status cx run)) (edited x db0)"
    if "rn_registered run' = rn_registered run" for f run' sn
    using that final_status_registered [OF that]
    by (auto intro!: triple_bind [OF triple_map_error [OF persist_edit [OF own edit_status_final]]] triple_return)
  have writing: "triple (edited x db0)
      (txn_bind (map_error f (persist_current S cx run ?entries ?mappings sn SubApplying)) (\<lambda>run'.
        txn_bind (txn_catch (write_updates S (cx_sheet_id cx) us) (\<lambda>e. reporting (g e))) (\<lambda>_. txn_return run')))
      (\<lambda>run' s. edited x db0 s \<and> rn_registered run' = rn_registered run) (edited x db0)" for f sn us g
  proof (rule triple_bind [OF triple_map_error [OF persist_edit [OF own applying]]], rule triple_const)
    fix run'
    assume "rn_registered run' = rn_registered run"
    then show "triple (edited_to x db0 SubApplying)
        (txn_bind (txn_catch (write_updates S (cx_sheet_id cx) us) (\<lambda>e. reporting (g e))) (\<lambda>_. txn_return run'))
        (\<lambda>run' s. edited x db0 s \<and> rn_registered run' = rn_registered run) (edited x db0)"
      using edited_to_edited [OF _ applying] edited_provider
      by (intro triple_pre [OF triple_bind [OF triple_catch [OF _ reporting]], of "edited x db0"])
        (auto simp: write_updates_def intro: triple_return)
  qed
  show ?thesis
    unfolding write_sheet_def Let_def
    by (rule triple_bind [OF snapshot], rule triple_bind [where Q = "\<lambda>run' s. edited x db0 s \<and> rn_registered run' = rn_registered run"])
      (auto intro!: triple_if triple_return writing triple_const terminal)
qed

text \<open>A result that names a confirmation message is the stored state of the submission.\<close>

definition reported :: "process_execution \<Rightarrow> submission_db \<Rightarrow> process_result \<Rightarrow> 'w flow \<Rightarrow> bool" where
  "reported x db0 res s \<longleftrightarrow> edited x db0 s \<and>
     (case px_confirmation_message res of
        None \<Rightarrow> True
      | Some m \<Rightarrow>
          map_option (\<lambda>r. (ts_status r, ts_confirmation_message_id r))
            (find_submission (process_submission_key x) (fl_submissions s)) = Some (px_status res, Some (mr_message_id m)))"

definition confirmed_as :: "process_execution \<Rightarrow> submission_db \<Rightarrow> submission_status \<Rightarrow> string \<Rightarrow> 'w flow \<Rightarrow> bool" where
  "confirmed_as x db0 st m = stored (edits (process_submission_key x) db0
     (\<lambda>r. in_state st r \<and> Option.bind r ts_confirmation_message_id = Some m))"

interpretation confirmed_as: flow_invariant "confirmed_as x db0 st m" "\<lambda>_. True" for x db0 st m
  unfolding confirmed_as_def by unfold_locales (auto simp: stored_def)

lemma confirmed_as_edited: "confirmed_as x db0 st m s \<Longrightarrow> edited_to x db0 st s"
  unfolding confirmed_as_def edited_to_def stored_def by (erule edits_weaken) simp

lemma confirmation_commits:
  assumes "k = process_submission_key x" and "edit_status st"
  shows "triple (edited_to x db0 st) (set_confirmation S k m) (\<lambda>_. confirmed_as x db0 st m) (edited x db0)"
proof (rule triple_confirmation)
  fix s :: "'a flow" and w
  assume "edited_to x db0 st s"
  then have "edited x db0 s" using edited_to_edited assms(2) by blast
  then show "edited x db0 (log_call (CallConfirmation k m False) (s\<lparr>fl_world := w\<rparr>))"
    by (simp add: edited_def stored_def)
next
  fix s :: "'a flow" and w and stamp :: int and db
  let ?t = "log_call (CallConfirmation k m True) (s\<lparr>fl_world := w, fl_submissions := db\<rparr>)"
  assume "edited_to x db0 st s"
    and "snd (set_message_team_submission_confirmation stamp k m (fl_submissions s)) = db"
  then have "confirmed_as x db0 st m ?t"
    using edits_confirmation assms(1) by (auto simp: edited_to_def confirmed_as_def stored_def)
  then show "confirmed_as x db0 st m ?t \<and> edited x db0 ?t"
    using confirmed_as_edited edited_to_edited assms(2) by blast
qed

lemma edited_submission:
  assumes own: "own_context x cx" and input: "cx_input cx = px_input x"
  shows "triple (edited x db0) (process_submission S x cx) (reported x db0) (edited x db0)"
proof -
  have progress: "triple (edited x db0) (deliver_progress S x source) (\<lambda>_. edited x db0) (edited x db0)" for source
    unfolding deliver_progress_def
    by (intro keeps_bind keeps_catch keeps_return triple_map_error edited.keeps_deliver) auto
  have rows: "triple (edited x db0)
      (txn_catch (txn_fold (process_entry S cx) (initial_run (cx_existing cx)) (cx_parsed_entries cx))
        (report_process_write_failure S x m)) (\<lambda>_. edited x db0) (edited x db0)" for m
    by (intro keeps_catch edited_report triple_fold [where P = "\<lambda>_. edited x db0"] edited_process_entry own)
  have report: "triple (edited_to x db0 st) (edit_progress S x m c act) (\<lambda>_. edited_to x db0 st) (edited x db0)"
    if "edit_status st" for m c act st
    unfolding edit_progress_def
    by (rule triple_map_error, rule triple_post [OF edited_to.keeps_deliver]) (use that edited_to_edited in auto)
  have controls: "triple (confirmed_as x db0 st n) (edit_progress S x m c act) (\<lambda>_. confirmed_as x db0 st n) (edited x db0)"
    if "edit_status st" for m c act st n
    unfolding edit_progress_def
    by (rule triple_map_error, rule triple_post [OF confirmed_as.keeps_deliver])
      (use that confirmed_as_edited edited_to_edited in blast)+
  have result: "reported x db0 res s"
    if "confirmed_as x db0 st (mr_message_id m) s" "edit_status st" "px_confirmation_message res = Some m" "px_status res = st"
    for res s st m
    using that edited_to_edited [OF confirmed_as_edited [OF that(1)] that(2)]
    by (auto simp: reported_def confirmed_as_def stored_def edits_def in_state_def)
  show ?thesis
    unfolding process_submission_def Let_def
    apply (rule triple_bind [OF progress], clarsimp split: prod.split)
    apply (rule triple_bind [OF rows], rule triple_bind [OF edited_write_sheet [OF own edited_report]])
    apply (rule triple_bind [OF report [OF edit_status_final]])
    apply (rule triple_bind [OF triple_map_error [OF confirmation_commits]])
      apply (simp add: input process_submission_key_def)
     apply (rule edit_status_final)
    apply (rule triple_bind [OF controls [OF edit_status_final]], rule triple_return)
    apply (erule result, rule edit_status_final, simp_all)
    done
qed

lemma edited_process:
  assumes live: "rows_live db0"
  shows "triple (stored (\<lambda>db. db = db0)) (process S x) (reported x db0) (edited x db0)"
proof -
  have start: "edited x db0 s" if "stored (\<lambda>db. db = db0) s" for s :: "'a flow"
    using that live by (auto simp: edited_def stored_def edits_def in_edit_def)
  have look: "triple (edited x db0) (look_up f) (\<lambda>_. edited x db0) (edited x db0)" for f :: "'a \<Rightarrow> 'b lookup \<times> 'a"
    by (rule edited.keeps_look_up)
  have configs: "triple (edited x db0) (load_team_configs S workspace sheet) (\<lambda>_. edited x db0) (edited x db0)"
    for workspace sheet
    unfolding load_team_configs_def Let_def by (intro keeps_bind look edited_read keeps_return)
  have accepted: "triple (edited x db0) (process_accepted S x parsed sheet_id ch existing) (reported x db0) (edited x db0)"
    for parsed sheet_id ch existing
    unfolding process_accepted_def
    by (rule triple_if, rule triple_fail, assumption, rule triple_bind [OF configs])
      (auto intro!: edited_submission triple_fail simp: own_context_def process_submission_key_def split: option.splits)
  have found: "triple (edited x db0) (get_submission S m) (\<lambda>_. edited x db0) (edited x db0)" for m
    by (rule triple_post [OF edited.keeps_get]) auto
  have "triple (edited x db0) (process S x) (reported x db0) (edited x db0)"
    unfolding process_def process_steps_def Let_def
    by (rule triple_map_error, rule triple_bind [OF edited.keeps_authorize], rule triple_bind [OF look])
      (auto intro!: triple_return triple_fail triple_bind [OF look] triple_bind [OF found accepted]
        simp: reported_def empty_process_result_def split: option.split)
  then show ?thesis by (rule triple_pre) (rule start)
qed

text \<open>A submission that is no longer editable.\<close>

definition untouched :: "submission_db \<Rightarrow> 'w flow \<Rightarrow> bool" where
  "untouched db0 s \<longleftrightarrow> fl_submissions s = db0 \<and> fl_calls s = []"

lemma closed_process:
  assumes live: "rows_live db0" and row: "find_submission (process_submission_key x) db0 = Some r"
    and closed: "ts_status r \<notin> editable_submission_statuses"
  shows "triple (untouched db0) (process S x)
    (\<lambda>res s. untouched db0 s \<and> res = empty_process_result (pi_source_message (px_input x))) (untouched db0)"
proof -
  have look: "triple (untouched db0) (look_up f) (\<lambda>_. untouched db0) (untouched db0)" for f :: "'a \<Rightarrow> 'b lookup \<times> 'a"
    by (rule tripleI) (auto simp: look_up_def untouched_def split: prod.splits lookup.splits)
  have authorize: "triple (untouched db0) (authorize_with f policy operation) (\<lambda>_. untouched db0) (untouched db0)"
    for f policy operation
    by (rule tripleI) (auto simp: authorize_with_def untouched_def split: prod.splits authorization.splits)
  have found: "triple (untouched db0) (get_submission S (pi_source_message (px_input x)))
      (\<lambda>existing s. untouched db0 s \<and> existing = Some r) (untouched db0)"
    unfolding get_submission_def
    by (rule triple_bind [OF look], rule tripleI)
      (use row find_live [OF live] in \<open>auto simp: untouched_def process_submission_key_def\<close>)
  have accepted: "triple (\<lambda>s. untouched db0 s \<and> existing = Some r) (process_accepted S x parsed sheet_id ch existing)
      Q (untouched db0)" for parsed sheet_id ch existing Q
    using closed by (auto intro!: triple_const triple_fail simp: process_accepted_def)
  show ?thesis
    unfolding process_def process_steps_def Let_def
    by (rule triple_map_error, rule triple_bind [OF authorize], rule triple_bind [OF look])
      (auto intro!: triple_return triple_fail triple_bind [OF look] triple_bind [OF found accepted] split: option.split)
qed

text \<open>C10: Whatever the other services do, processing a message changes at most the row of that message, which
  it can only put in the states of an edit: one that is being decided, confirmed, rejected or failed is left as
  it is, and neither the sheet nor the conversation hears of it. When the processing reports a confirmation
  message, the stored row is in the reported state and names that message.\<close>

theorem processing_edits_its_submission:
  assumes "rows_live (fl_submissions s)" and "process S x (s\<lparr>fl_calls := []\<rparr>) = (res, t)"
  shows "edits (process_submission_key x) (fl_submissions s)
           (in_edit (find_submission (process_submission_key x) (fl_submissions s))) (fl_submissions t) \<and>
         (case res of
            Inl _ \<Rightarrow> True
          | Inr result \<Rightarrow> (case px_confirmation_message result of
              None \<Rightarrow> True
            | Some m \<Rightarrow> map_option (\<lambda>r. (ts_status r, ts_confirmation_message_id r))
                (find_submission (process_submission_key x) (fl_submissions t)) =
                Some (px_status result, Some (mr_message_id m)))) \<and>
         (case find_submission (process_submission_key x) (fl_submissions s) of
            None \<Rightarrow> True
          | Some r \<Rightarrow> ts_status r \<in> editable_submission_statuses \<or>
              fl_submissions t = fl_submissions s \<and> fl_calls t = [])"
proof -
  let ?s = "s\<lparr>fl_calls := []\<rparr>"
  have start: "stored (\<lambda>db. db = fl_submissions s) ?s" "untouched (fl_submissions s) ?s"
    by (simp_all add: stored_def untouched_def)
  note edit = tripleD [OF edited_process [OF assms(1)] start(1), of S x]
  have "fl_submissions t = fl_submissions s \<and> fl_calls t = []"
    if "find_submission (process_submission_key x) (fl_submissions s) = Some r"
      and "ts_status r \<notin> editable_submission_statuses" for r
    using tripleD [OF closed_process [OF assms(1) that] start(2), of S] assms(2)
    by (cases res) (auto simp: untouched_def)
  then show ?thesis
    using edit assms(2)
    by (cases res) (auto simp: reported_def edited_def stored_def split: option.splits)
qed

end
