(* ===== verification/SubmissionKeys.thy ===== *)
theory SubmissionKeys
  imports SubmissionEntries
begin

text \<open>
  The keys of the entries of a message: those of one message differ; those an edit keeps from the stored
  submission can coincide. And the bound on the text of a confirmation.
\<close>

subsection \<open>The keys of a message\<close>

definition colons :: "string \<Rightarrow> nat" where
  "colons s = length (filter (\<lambda>c. c = CHR '':'') s)"

lemma colons_simps [simp]:
  "colons [] = 0" "colons (c # s) = (if c = CHR '':'' then Suc (colons s) else colons s)"
  "colons (s @ t) = colons s + colons t"
  by (simp_all add: colons_def)

lemma colons_0: "colons s = 0 \<longleftrightarrow> CHR '':'' \<notin> set s"
  by (auto simp: colons_def filter_empty_conv)

lemma colons_nat_text [simp]: "colons (nat_text n) = 0"
  using nat_text_chars [of n] by (auto simp: colons_0)

lemma colons_team_type [simp]: "colons (team_type_text ty) = 0"
  by (cases ty) simp_all

lemma hex_digit_no_colon: "hex_digit n \<noteq> CHR '':''"
proof -
  have "hex_digit n \<in> set ''0123456789ABCDEF''"
    unfolding hex_digit_def by (rule nth_mem) simp
  then show ?thesis by auto
qed

lemma uri_unreserved_no_colon: "uri_unreserved c \<Longrightarrow> char_of c \<noteq> CHR '':''"
proof
  assume c: "uri_unreserved c" and "char_of c = CHR '':''"
  then have "of_char (char_of c :: char) = (58 :: nat)" by simp
  then have "c mod 256 = 58" by (simp only: of_char_of)
  moreover have "c < 128 \<and> c \<noteq> 58"
    using c by (auto simp: uri_unreserved_def is_word_def between_def js_text_def)
  ultimately show False by simp
qed

lemma encoded_no_colon: "encode_uri_component s = Some t \<Longrightarrow> colons t = 0"
  using hex_digit_no_colon uri_unreserved_no_colon
  by (fastforce simp: encode_uri_component_def Let_def colons_0 percent_byte_def split: if_splits)

lemma identity_colons: "line_identity U l = Some i \<Longrightarrow> colons i = 1"
  by (auto simp: line_identity_def stable_entry_identity_def dest: encoded_no_colon)

lemma split_last_colon:
  "a @ CHR '':'' # x = b @ CHR '':'' # y \<Longrightarrow> colons x = 0 \<Longrightarrow> colons y = 0 \<Longrightarrow> a = b \<and> x = y"
  by (auto simp: append_eq_append_conv2 Cons_eq_append_conv colons_0 append_eq_Cons_conv)

lemma numbered_key_inject:
  assumes "colons i = 1" "colons j = 1"
  shows "numbered_key i m = numbered_key j n \<longleftrightarrow> i = j \<and> m = n"
proof
  assume eq: "numbered_key i m = numbered_key j n"
  then have "colons (numbered_key i m) = colons (numbered_key j n)" by simp
  then have "m = 1 \<longleftrightarrow> n = 1"
    using assms by (auto simp: numbered_key_def split: if_splits)
  then show "i = j \<and> m = n"
    using eq split_last_colon [of i "nat_text m" j "nat_text n"]
    by (auto simp: numbered_key_def nat_text_inject split: if_splits)
qed simp

lemma keys_of_lines:
  assumes "entries_from_lines U fulls base oshi types idents ls = Some es"
  shows "distinct (map pe_stable_key es) \<and>
    (\<forall>e \<in> set es. \<exists>i n. colons i = 1 \<and> n > idents i \<and> pe_stable_key e = numbered_key i n)"
  using assms
proof (induction ls arbitrary: types idents es)
  case (Cons l ls)
  then obtain i es' where i: "line_identity U l = Some i"
    and es': "entries_from_lines U fulls base oshi (types(pl_type l := types (pl_type l) + 1))
        (idents(i := idents i + 1)) ls = Some es'"
    and es: "es = parsed_entry_from_line l (types (pl_type l) + 1) fulls base oshi (numbered_key i (idents i + 1)) # es'"
    by (auto simp: Let_def split: option.splits)
  note IH = Cons.IH [OF es']
  have one: "colons i = 1" by (rule identity_colons [OF i])
  have "numbered_key i (idents i + 1) \<noteq> pe_stable_key e" if e: "e \<in> set es'" for e
  proof -
    from IH e obtain j n where j: "colons j = 1" "n > (idents(i := idents i + 1)) j" "pe_stable_key e = numbered_key j n"
      by blast
    then show ?thesis
      using one numbered_key_inject [OF one j(1)] by (auto split: if_splits)
  qed
  then have fresh: "numbered_key i (idents i + 1) \<notin> set (map pe_stable_key es')" by auto
  have key: "pe_stable_key (parsed_entry_from_line l n fulls base oshi k) = k" for n k
    by (simp add: parsed_entry_from_line_def)
  have "\<exists>j n. colons j = 1 \<and> n > idents j \<and> pe_stable_key e = numbered_key j n" if "e \<in> set es" for e
  proof (cases "e \<in> set es'")
    case True
    with IH obtain j n where "colons j = 1" "n > (idents(i := idents i + 1)) j" "pe_stable_key e = numbered_key j n"
      by blast
    then have "n > idents j" by (auto split: if_splits)
    then show ?thesis using \<open>colons j = 1\<close> \<open>pe_stable_key e = numbered_key j n\<close> by blast
  next
    case False
    with that es have "pe_stable_key e = numbered_key i (idents i + 1)" by (auto simp: key)
    then show ?thesis using one by (metis less_add_one)
  qed
  then show ?case
    using IH fresh es by (auto simp: key)
qed simp

text \<open>The entries of a message have different keys, whatever the message says.\<close>

theorem parsed_keys_differ:
  "case parse_team_submission_message U content name of
     None \<Rightarrow> True
   | Some parsed \<Rightarrow> distinct (map pe_stable_key (pm_entries parsed))"
  using keys_of_lines by (auto simp: parse_team_submission_message_def Let_def split: option.split)

subsection \<open>The keys after an edit\<close>

definition ascii_unicode :: unicode where
  "ascii_unicode = \<lparr>un_lower = map ascii_lower, un_nfkc = (\<lambda>s. s),
     un_letter_or_number = (\<lambda>c. is_word c \<and> c \<noteq> 95), un_pictographic = (\<lambda>_. False)\<rparr>"

text \<open>Two full-fill teams of one name.\<close>

definition twin_entries :: "parsed_team_entry list" where
  "twin_entries = (let l = \<lparr>pl_type = FullFill, pl_team_name = js_text ''A'', pl_notes = []\<rparr> in
     case entries_from_lines ascii_unicode 2 (js_text ''P'') None (\<lambda>_. 0) (\<lambda>_. 0) [l, l] of
       None \<Rightarrow> [] | Some es \<Rightarrow> es)"

text \<open>The stored submission when the first of them was skipped.\<close>

definition twin_row :: submission_row where
  "twin_row = (submission_row_of 1 (sample_submission_args None) None)\<lparr>ts_parsed_submission := drop 1 twin_entries\<rparr>"

lemma encoded_a: "encode_uri_component (map ascii_lower (js_text ''A'')) = Some ''a''"
proof -
  have "map ascii_lower (js_text ''A'') = [97]" by code_simp
  moreover have "uri_unreserved 97" "char_of (97 :: nat) = CHR ''a''" by code_simp+
  ultimately show ?thesis by (simp add: encode_uri_component_def Let_def)
qed

lemma is_space_small [code]:
  "is_space c \<longleftrightarrow> (if c < 128 then 9 \<le> c \<and> c \<le> 13 \<or> c = 32 else c \<in> set js_spaces)"
  by (auto simp: is_space_def js_spaces_def)

lemma normalized_A: "normalize_line (js_text ''A'') = js_text ''A''"
  by code_simp

lemma twin_identity: "stable_entry_identity ascii_unicode FullFill (js_text ''A'') [] = Some ''fullFill:a''"
  using encoded_a by (simp add: stable_entry_identity_def normalized_A ascii_unicode_def)

text \<open>An edit can give two entries one key: when the stored submission has the second of two teams with
  one name but not the first, which was skipped, the first takes the stored key and the second keeps its
  own, which is the same.\<close>

theorem edited_entries_can_share_a_key:
  "map pe_stable_key twin_entries = [''fullFill:a'', ''fullFill:a:2''] \<and>
   map_option (map pe_stable_key) (preserve_existing_stable_keys ascii_unicode twin_row twin_entries) =
     Some [''fullFill:a:2'', ''fullFill:a:2'']"
proof -
  have two: "nat_text (Suc (Suc 0)) = ''2''" by code_simp
  have twins: "twin_entries =
      [parsed_entry_from_line \<lparr>pl_type = FullFill, pl_team_name = js_text ''A'', pl_notes = []\<rparr> 1 2 (js_text ''P'') None ''fullFill:a'',
       parsed_entry_from_line \<lparr>pl_type = FullFill, pl_team_name = js_text ''A'', pl_notes = []\<rparr> 2 2 (js_text ''P'') None ''fullFill:a:2'']"
    by (simp add: twin_entries_def line_identity_def twin_identity numbered_key_def two Let_def numeral_2_eq_2)
  show ?thesis
    unfolding preserve_existing_stable_keys_def twin_row_def twins
    by (simp add: entry_identity_def parsed_entry_from_line_def twin_identity push_key_def drop_key_def)
qed

subsection \<open>The confirmation\<close>

definition joined_length :: "js_text list \<Rightarrow> nat" where
  "joined_length ls = sum_list (map (\<lambda>l. 1 + length l) ls)"

lemma length_join_text: "length (join_text [c] (x # xs)) = length x + joined_length xs"
  by (induction xs arbitrary: x) (auto simp: joined_length_def)

lemma nat_text_length_mono: "m \<le> n \<Longrightarrow> length (nat_text m) \<le> length (nat_text n)"
proof (induction n arbitrary: m rule: nat_text.induct)
  case (1 n)
  show ?case
  proof (cases "n < 10")
    case False
    then have "length (nat_text (m div 10)) \<le> length (nat_text (n div 10))" if "\<not> m < 10"
      using 1 by (simp add: div_le_mono)
    with False show ?thesis by (subst (1 2) nat_text.simps) auto
  qed (use 1 in \<open>simp add: nat_text.simps\<close>)
qed

definition summary_length :: "nat \<Rightarrow> nat" where
  "summary_length n = 1 + length (omitted_summary n)"

lemma summary_length: "summary_length n = 14 + length (nat_text n)"
  by (simp add: summary_length_def omitted_summary_def js_text_def)

lemma summary_length_mono: "m \<le> n \<Longrightarrow> summary_length m \<le> summary_length n"
  by (simp add: summary_length nat_text_length_mono)

lemma include_lines_bound:
  "\<exists>k \<le> length ls. include_lines len included ls = included @ take k ls \<and>
     len + joined_length (take k ls) + (if k < length ls then summary_length (length ls - k) else 0)
       \<le> max 2000 (len + summary_length (length ls))"
proof (induction ls arbitrary: len included)
  case (Cons l ls)
  show ?case
  proof (cases "len + 1 + length l + summary_length (Suc (length ls)) > 2000")
    case True
    then show ?thesis by (intro exI [of _ 0]) (simp add: summary_length_def joined_length_def)
  next
    case False
    obtain k where k: "k \<le> length ls"
      "include_lines (len + 1 + length l) (included @ [l]) ls = (included @ [l]) @ take k ls"
      "len + 1 + length l + joined_length (take k ls) + (if k < length ls then summary_length (length ls - k) else 0)
        \<le> max 2000 (len + 1 + length l + summary_length (length ls))"
      using Cons.IH by blast
    have "len + 1 + length l + summary_length (length ls) \<le> 2000"
      using False summary_length_mono [of "length ls" "Suc (length ls)"] by simp
    with k False show ?thesis
      by (intro exI [of _ "Suc k"]) (auto simp: summary_length_def joined_length_def Let_def split: if_splits)
  qed
qed (simp add: joined_length_def)

text \<open>C31: The confirmation has at most 2,000 code units, Discord's limit, whatever the players and teams are
  called, as long as the ids of its link leave room for the header and the count of what is omitted.\<close>

theorem confirmation_fits:
  "length (render_confirmation k entries skipped) \<le>
     max 2000 (68 + length (sm_workspace_id k) + length (sm_conversation_id k) + length (sm_message_id k) +
       length (nat_text (length entries + length skipped)))"
proof (cases "entries = [] \<and> skipped = []")
  case True
  then show ?thesis by (simp add: render_confirmation_def source_url_def js_text_def)
next
  case False
  let ?ids = "length (sm_workspace_id k) + length (sm_conversation_id k) + length (sm_message_id k)"
  define lines where "lines = map confirmation_line_for_entry entries @ map confirmation_line_for_skipped_entry skipped"
  have count: "length lines = length entries + length skipped" by (simp add: lines_def)
  define header where "header = js_text ((if entries = [] then ''Skipped teams from '' else ''Registered teams from '') @ source_url k @ '':'')"
  have header: "length header \<le> 54 + ?ids"
    by (simp add: header_def source_url_def js_text_def)
  obtain n where n: "n \<le> length lines" "include_lines (length header) [] lines = take n lines"
    "length header + joined_length (take n lines) + (if n < length lines then summary_length (length lines - n) else 0)
      \<le> max 2000 (length header + summary_length (length lines))"
    using include_lines_bound [of lines "length header" "[]"] by auto
  have "render_confirmation k entries skipped = join_text [10] ([header] @ include_lines (length header) [] lines @
      (if length lines - length (include_lines (length header) [] lines) > 0
       then [omitted_summary (length lines - length (include_lines (length header) [] lines))] else []))"
    by (simp only: render_confirmation_def header_def lines_def Let_def False if_False)
  then have "render_confirmation k entries skipped = join_text [10] (header # take n lines @
      (if n < length lines then [omitted_summary (length lines - n)] else []))"
    using n(1) by (simp add: n(2) min_absorb2)
  then have "length (render_confirmation k entries skipped) = length header + joined_length (take n lines) +
      (if n < length lines then summary_length (length lines - n) else 0)"
    by (simp add: length_join_text joined_length_def summary_length_def)
  with n(3) header show ?thesis by (simp add: summary_length count)
qed

end
