(* ===== verification/SubmissionSamples.thy ===== *)
theory SubmissionSamples
  imports SubmissionGuarantees SubmissionWriteAhead SubmissionEdits SubmissionKeys
begin

text \<open>
  Concrete services, submissions and executions to which the theorems on team submissions apply.
\<close>

definition sample_client :: "unit sheets_client" where
  "sample_client = \<lparr>client_batch_get = (\<lambda>_ ranges w. (CallOk (ValueRanges (Some (map (\<lambda>_. None) ranges))), w)),
     client_batch_update = (\<lambda>_ _ w. (CallOk (), w)),
     client_append = (\<lambda>_ _ _ w. (CallOk (Some ''Teams!A2''), w))\<rparr>"

definition sample_message :: "string \<Rightarrow> message_ref" where
  "sample_message m = \<lparr>mr_platform = ''discord'', mr_client_id = ''bot'', mr_workspace_id = ''w'',
     mr_conversation_id = ''c'', mr_message_id = m\<rparr>"

definition sample_team_config :: team_config where
  "sample_team_config = \<lparr>tc_name = Some (js_text ''Main''), tc_sheet = Some (js_text ''Teams''),
     tc_player_name_range = Some ''Teams!A2:A'', tc_team_name_range = Some ''Teams!B2:B'',
     tc_tags_config = None, tc_oshi_range = None\<rparr>"

definition sample_services :: "unit services" where
  "sample_services = \<lparr>sv_unicode = ascii_unicode, sv_hash_suffix = (\<lambda>s. s), sv_sheet_bot_client_id = ''bot'',
     sv_provider = make_team_submission_provider sample_client,
     sv_authorize_process = (\<lambda>_ w. (Authorized, w)), sv_authorize_decide = (\<lambda>_ w. (Authorized, w)),
     sv_feature_flags = (\<lambda>_ w. (Found [team_submission_feature_flag], w)),
     sv_sheet_id = (\<lambda>_ w. (Found (Some ''s''), w)),
     sv_channel = (\<lambda>_ _ w. (Found (Some \<lparr>ch_destination_team_config_name = None, ch_require_valid_oshi = False\<rparr>), w)),
     sv_get_fault = (\<lambda>w. (Found (), w)),
     sv_oshis_range = (\<lambda>_ w. (Found None, w)),
     sv_team_configs = (\<lambda>_ w. (Found [sample_team_config], w)),
     sv_persist_fault = (\<lambda>w. ((5, PersistArrives), w)),
     sv_deliver = (\<lambda>key _ w. (Delivered \<lparr>rc_delivery_key = key, rc_message = sample_message ''p''\<rparr>, w))\<rparr>"

text \<open>A registered submission with a snapshot, and one that has been confirmed.\<close>

definition sample_submission :: "submission_status \<Rightarrow> submission_row" where
  "sample_submission st = (submission_row_of 1 (sample_submission_args None) None)
     \<lparr>ts_status := st, ts_confirmation_message_id := Some ''p'',
      ts_rollback_snapshot := Some [\<lparr>rb_stable_key = ''k'', rb_range = ''Teams!A2:A2'', rb_values = []\<rparr>]\<rparr>"

definition sample_flow :: "submission_status \<Rightarrow> unit flow" where
  "sample_flow st = \<lparr>fl_submissions = [sample_submission st], fl_world = (), fl_calls = []\<rparr>"

definition sample_decide :: "decision \<Rightarrow> decide_execution" where
  "sample_decide d = \<lparr>dx_invocation_id = ''i'',
     dx_input = \<lparr>di_response_reference = ''r'', di_source_message = sample_message ''m'',
       di_confirmation_message = sample_message ''p'', di_decision = d\<rparr>,
     dx_principal = UserPrincipal ''user'' (Some ''u'')\<rparr>"

definition sample_process :: process_execution where
  "sample_process = \<lparr>px_invocation_id = ''i'',
     px_input = \<lparr>pi_source_message = sample_message ''m'', pi_author_id = ''u'',
       pi_author_display_name = js_text ''P'', pi_content = js_text ''fill: 170/720''\<rparr>\<rparr>"

lemma sample_rows_live: "rows_live (fl_submissions (sample_flow st))"
  by (cases st) code_simp+

lemma sample_found:
  "find_submission (submission_key_of (sample_message ''m'')) (fl_submissions (sample_flow st)) = Some (sample_submission st)"
  by (simp add: find_submission_def lookup_by_def sample_flow_def sample_submission_def sample_submission_args_def
      submission_key_of_def sample_message_def)

lemma sample_calls: "sample_flow st\<lparr>fl_calls := []\<rparr> = sample_flow st"
  by (simp add: sample_flow_def)

lemma sample_may_decide: "may_decide (sample_decide d) (sample_submission st)"
  by (simp add: may_decide_def sample_decide_def sample_submission_def principal_user_id_def sample_message_def
      submission_row_of_def sample_submission_args_def)

lemma sample_decide_source: "di_source_message (dx_input (sample_decide d)) = sample_message ''m''"
  by (simp add: sample_decide_def)

lemma sample_rejected:
  "case fst (decide sample_services (sample_decide Reject) (sample_flow SubRegistered)) of
     Inl _ \<Rightarrow> False | Inr a \<Rightarrow> dr_status a = SubRejected"
  by code_simp

text \<open>A rejection of the sample: the stored status is the one it reports.\<close>

theorem decision_moves_its_submission_witness:
  "\<exists>st v. decided_as (fl_submissions (sample_flow SubRegistered)) (submission_key_of (sample_message ''m''))
      (sample_submission SubRegistered) st v
      (fl_submissions (snd (decide sample_services (sample_decide Reject) (sample_flow SubRegistered)))) \<and>
    decision_reaches Reject (sample_submission SubRegistered)
      (fl_calls (snd (decide sample_services (sample_decide Reject) (sample_flow SubRegistered)))) st \<and>
    (case fst (decide sample_services (sample_decide Reject) (sample_flow SubRegistered)) of
       Inl _ \<Rightarrow> False | Inr a \<Rightarrow> dr_status a = st \<and> st = SubRejected)"
  using sample_rejected decision_moves_its_submission [OF sample_rows_live [of SubRegistered],
      of "sample_decide Reject" "sample_submission SubRegistered" sample_services
        "fst (decide sample_services (sample_decide Reject) (sample_flow SubRegistered))"
        "snd (decide sample_services (sample_decide Reject) (sample_flow SubRegistered))"]
  by (simp add: sample_found sample_calls sample_may_decide sample_decide_source split: sum.splits)
    (auto simp: sample_decide_def)


theorem processing_edits_its_submission_witness:
  "edits (process_submission_key sample_process) (fl_submissions (sample_flow SubConfirmed))
     (in_edit (find_submission (process_submission_key sample_process) (fl_submissions (sample_flow SubConfirmed))))
     (fl_submissions (snd (process sample_services sample_process (sample_flow SubConfirmed)))) \<and>
   fl_submissions (snd (process sample_services sample_process (sample_flow SubConfirmed))) =
     fl_submissions (sample_flow SubConfirmed) \<and>
   fl_calls (snd (process sample_services sample_process (sample_flow SubConfirmed))) = []"
proof -
  have key: "process_submission_key sample_process = submission_key_of (sample_message ''m'')"
    by (simp add: process_submission_key_def sample_process_def)
  have "ts_status (sample_submission SubConfirmed) \<notin> editable_submission_statuses"
    by (simp add: sample_submission_def editable_submission_statuses_def)
  moreover note processing_edits_its_submission [OF sample_rows_live [of SubConfirmed],
      of sample_services sample_process
        "fst (process sample_services sample_process (sample_flow SubConfirmed))"
        "snd (process sample_services sample_process (sample_flow SubConfirmed))",
      unfolded sample_calls key sample_found option.case, OF prod.collapse [symmetric]]
  ultimately show ?thesis
    unfolding key sample_found by blast
qed

subsection \<open>A pending append and a rejection\<close>

text \<open>A submission whose processing stopped between announcing its second row and learning of it.\<close>

definition pending_submission :: submission_row where
  "pending_submission = (sample_submission SubApplying)
     \<lparr>ts_row_mappings := [\<lparr>rm_stable_key = ''k2'', rm_target = \<lparr>rt_row_index = 0,
          rt_player_name_range = ''Teams!A2:A'', rt_team_name_range = ''Teams!B2:B'', rt_oshi_range = None\<rparr>\<rparr>],
      ts_rollback_snapshot := Some [\<lparr>rb_stable_key = ''k'', rb_range = ''Teams!A2:A2'', rb_values = []\<rparr>,
        \<lparr>rb_stable_key = ''k2'', rb_range = pending_append_rollback_range, rb_values = []\<rparr>]\<rparr>"


end
