(* ===== verification/WorkspaceConfig.thy ===== *)
theory WorkspaceConfig
  imports ZeroTables
begin

text \<open>
  The workspace configuration (\<open>sheet-zero-api/src/api/workspaceConfig.ts\<close>): the six tables of a
  workspace (its settings, monitor roles, feature flags, announcement deliveries, conversations and
  team-submission channels), every query and every mutator of the group. A mutator is a transaction.
  An omitted argument is \<open>None\<close>, a null one \<open>Some None\<close>. Where a revived row leaves a column
  \<open>undefined\<close>, \<open>clears\<close> says whether Zero's \<open>upsert\<close> resets the column or leaves it as it was.
\<close>

named_theorems workspace_simps \<open>reads of the workspace tables after a mutator\<close>

subsection \<open>Rows\<close>

record config_workspace_row =
  cw_workspace_id :: string
  cw_sheet_id :: "string option"
  cw_auto_checkin :: "bool option"
  cw_monitor_conversation_id :: "string option"
  cw_audit :: audit

record monitor_role_row =
  mr_workspace_id :: string
  mr_role_id :: string
  mr_audit :: audit

record feature_flag_row =
  ff_workspace_id :: string
  ff_flag_name :: string
  ff_audit :: audit

record announcement_delivery_row =
  ad_workspace_id :: string
  ad_announcement_id :: string
  ad_published_at :: rat
  ad_delivered_at :: rat
  ad_conversation_id :: string
  ad_message_id :: string
  ad_audit :: audit

record conversation_row =
  cc_workspace_id :: string
  cc_conversation_id :: string
  cc_name :: "string option"
  cc_running :: "bool option"
  cc_role_id :: "string option"
  cc_checkin_conversation_id :: "string option"
  cc_audit :: audit

datatype team_submission_write_mode = WriteUpsert
datatype team_submission_removed_row_strategy = RemovedBlank

record channel_row =
  ch_workspace_id :: string
  ch_conversation_id :: string
  ch_destination_team_config_name :: "string option"
  ch_write_mode :: team_submission_write_mode
  ch_removed_row_strategy :: team_submission_removed_row_strategy
  ch_require_valid_oshi :: bool
  ch_audit :: audit

record workspace_db =
  wd_workspaces :: "config_workspace_row list"
  wd_roles :: "monitor_role_row list"
  wd_flags :: "feature_flag_row list"
  wd_deliveries :: "announcement_delivery_row list"
  wd_conversations :: "conversation_row list"
  wd_channels :: "channel_row list"

datatype workspace_error = MonitorIsRunning

type_synonym workspace_txn = "(workspace_error, unit, workspace_db) txn"

text \<open>The primary keys.\<close>

definition role_key :: "monitor_role_row \<Rightarrow> string \<times> string" where
  "role_key r = (mr_workspace_id r, mr_role_id r)"

definition flag_key :: "feature_flag_row \<Rightarrow> string \<times> string" where
  "flag_key r = (ff_workspace_id r, ff_flag_name r)"

definition announcement_key :: "announcement_delivery_row \<Rightarrow> string \<times> string" where
  "announcement_key r = (ad_workspace_id r, ad_announcement_id r)"

definition conversation_key :: "conversation_row \<Rightarrow> string \<times> string" where
  "conversation_key r = (cc_workspace_id r, cc_conversation_id r)"

definition channel_key :: "channel_row \<Rightarrow> string \<times> string" where
  "channel_key r = (ch_workspace_id r, ch_conversation_id r)"

text \<open>What an upsert leaves in a nullable column of an existing row.\<close>

definition zero_column :: "bool \<Rightarrow> 'a option \<Rightarrow> 'a option option \<Rightarrow> 'a option" where
  "zero_column clears old new = (case new of Some v \<Rightarrow> v | None \<Rightarrow> if clears then None else old)"

text \<open>\<open>preserveOmitted\<close> over an optional record: without one the value stays \<open>undefined\<close>.\<close>

definition preserve_from :: "'r option \<Rightarrow> ('r \<Rightarrow> 'a option) \<Rightarrow> 'a option option \<Rightarrow> 'a option option" where
  "preserve_from active field supplied =
     (case supplied of Some v \<Rightarrow> Some v | None \<Rightarrow> map_option field active)"

text \<open>\<open>listActiveWhere\<close>, and \<open>upsertRevivingSoftDeleted\<close> for rows by primary key.\<close>

definition list_active_where :: "('r \<Rightarrow> audit) \<Rightarrow> ('r \<Rightarrow> bool) \<Rightarrow> 'r list \<Rightarrow> 'r list" where
  "list_active_where aud p rows = filter (\<lambda>r. p r \<and> au_deleted_at (aud r) = None) rows"

definition upsert_reviving_soft_deleted :: "('r \<Rightarrow> 'k) \<Rightarrow> bool \<Rightarrow> 'r \<Rightarrow> 'r list \<Rightarrow> 'r list" where
  "upsert_reviving_soft_deleted key is_deleted row rows =
     (if is_deleted then zero_delete key (key row) rows @ [row] else zero_upsert key row rows)"

subsection \<open>Queries\<close>

definition get_auto_checkin_workspaces :: "workspace_db \<Rightarrow> config_workspace_row list" where
  "get_auto_checkin_workspaces db =
     list_active_where cw_audit (\<lambda>r. cw_auto_checkin r = Some True) (wd_workspaces db)"

definition get_workspace_config :: "string \<Rightarrow> workspace_db \<Rightarrow> config_workspace_row option" where
  "get_workspace_config w db = active_record cw_audit (lookup_by cw_workspace_id w (wd_workspaces db))"

definition get_workspace_monitor_roles :: "string \<Rightarrow> workspace_db \<Rightarrow> monitor_role_row list" where
  "get_workspace_monitor_roles w db = list_active_where mr_audit (\<lambda>r. mr_workspace_id r = w) (wd_roles db)"

definition get_workspace_feature_flags :: "string \<Rightarrow> workspace_db \<Rightarrow> feature_flag_row list" where
  "get_workspace_feature_flags w db = list_active_where ff_audit (\<lambda>r. ff_workspace_id r = w) (wd_flags db)"

definition get_workspaces_for_feature_flag :: "string \<Rightarrow> workspace_db \<Rightarrow> feature_flag_row list" where
  "get_workspaces_for_feature_flag flag db =
     list_active_where ff_audit (\<lambda>r. ff_flag_name r = flag) (wd_flags db)"

definition get_workspace_feature_flag :: "string \<Rightarrow> string \<Rightarrow> workspace_db \<Rightarrow> feature_flag_row option" where
  "get_workspace_feature_flag w flag db = active_record ff_audit (lookup_by flag_key (w, flag) (wd_flags db))"

definition get_workspace_update_announcement_delivery ::
    "string \<Rightarrow> string \<Rightarrow> workspace_db \<Rightarrow> announcement_delivery_row option" where
  "get_workspace_update_announcement_delivery w a db =
     active_record ad_audit (lookup_by announcement_key (w, a) (wd_deliveries db))"

definition with_running_filter :: "bool option \<Rightarrow> conversation_row list \<Rightarrow> conversation_row list" where
  "with_running_filter running rows =
     (case running of None \<Rightarrow> rows | Some b \<Rightarrow> filter (\<lambda>r. cc_running r = Some b) rows)"

definition get_workspace_conversations :: "string \<Rightarrow> bool option \<Rightarrow> workspace_db \<Rightarrow> conversation_row list" where
  "get_workspace_conversations w running db = with_running_filter running
     (list_active_where cc_audit (\<lambda>r. cc_workspace_id r = w) (wd_conversations db))"

definition first_row :: "'r list \<Rightarrow> 'r option" where
  "first_row rows = (case rows of [] \<Rightarrow> None | r # _ \<Rightarrow> Some r)"

definition get_workspace_conversation_by_id ::
    "string \<Rightarrow> string \<Rightarrow> bool option \<Rightarrow> workspace_db \<Rightarrow> conversation_row option" where
  "get_workspace_conversation_by_id w c running db = first_row (with_running_filter running
     (list_active_where cc_audit (\<lambda>r. cc_workspace_id r = w \<and> cc_conversation_id r = c) (wd_conversations db)))"

definition get_workspace_conversation_by_name ::
    "string \<Rightarrow> string \<Rightarrow> bool option \<Rightarrow> workspace_db \<Rightarrow> conversation_row option" where
  "get_workspace_conversation_by_name w n running db = first_row (with_running_filter running
     (list_active_where cc_audit (\<lambda>r. cc_workspace_id r = w \<and> cc_name r = Some n) (wd_conversations db)))"

definition get_team_submission_channel :: "string \<Rightarrow> string \<Rightarrow> workspace_db \<Rightarrow> channel_row option" where
  "get_team_submission_channel w c db = active_record ch_audit (lookup_by channel_key (w, c) (wd_channels db))"

definition get_team_submission_channels_for_workspace :: "string \<Rightarrow> workspace_db \<Rightarrow> channel_row list" where
  "get_team_submission_channels_for_workspace w db =
     list_active_where ch_audit (\<lambda>r. ch_workspace_id r = w) (wd_channels db)"

subsection \<open>Announcement deliveries\<close>

definition pending_conversation_id :: string where
  "pending_conversation_id = ''__pending_update_announcement_delivery__''"

definition claim_lease_ms :: int where "claim_lease_ms = 5 * 60 * 1000"

text \<open>\<open>new Date(n).getTime()\<close>: a whole number of milliseconds within the range of dates.\<close>

definition date_time :: "rat \<Rightarrow> int option" where
  "date_time n = (if \<bar>n\<bar> \<le> 8640000000000000 then Some (math_trunc n) else None)"

definition has_active_delivery :: "announcement_delivery_row option \<Rightarrow> int \<Rightarrow> bool" where
  "has_active_delivery delivery now =
     (case delivery of
        None \<Rightarrow> False
      | Some d \<Rightarrow> au_deleted_at (ad_audit d) = None \<and>
          (ad_conversation_id d \<noteq> pending_conversation_id \<or>
           (case date_time (ad_delivered_at d) of None \<Rightarrow> False | Some t \<Rightarrow> t + claim_lease_ms > now)))"

definition has_deleted_delivery :: "announcement_delivery_row option \<Rightarrow> bool" where
  "has_deleted_delivery delivery =
     (case delivery of None \<Rightarrow> False | Some d \<Rightarrow> au_deleted_at (ad_audit d) \<noteq> None)"

definition matches_pending_delivery_claim :: "announcement_delivery_row option \<Rightarrow> string \<Rightarrow> bool" where
  "matches_pending_delivery_claim delivery token =
     (case delivery of
        None \<Rightarrow> False
      | Some d \<Rightarrow> au_deleted_at (ad_audit d) = None \<and>
          ad_conversation_id d = pending_conversation_id \<and> ad_message_id d = token)"

record delivery_args =
  da_workspace_id :: string
  da_announcement_id :: string
  da_published_at :: rat
  da_delivered_at :: rat
  da_conversation_id :: string
  da_message_id :: string
  da_claim_token :: string

definition record_workspace_update_announcement_delivery :: "int \<Rightarrow> delivery_args \<Rightarrow> workspace_txn" where
  "record_workspace_update_announcement_delivery stamp a db =
     (let existing = lookup_by announcement_key (da_workspace_id a, da_announcement_id a) (wd_deliveries db)
      in if \<not> matches_pending_delivery_claim existing (da_claim_token a) then (Inr (), db)
         else (Inr (), db\<lparr>wd_deliveries := zero_upsert announcement_key
           \<lparr>ad_workspace_id = da_workspace_id a, ad_announcement_id = da_announcement_id a,
            ad_published_at = da_published_at a, ad_delivered_at = da_delivered_at a,
            ad_conversation_id = da_conversation_id a, ad_message_id = da_message_id a,
            ad_audit = upsert_with_timestamps stamp (map_option ad_audit existing)\<rparr> (wd_deliveries db)\<rparr>))"

definition claim_workspace_update_announcement_delivery ::
    "int \<Rightarrow> int \<Rightarrow> int \<Rightarrow> string \<Rightarrow> string \<Rightarrow> rat \<Rightarrow> string \<Rightarrow> workspace_txn" where
  "claim_workspace_update_announcement_delivery now claimed stamp w a published token db =
     (let existing = lookup_by announcement_key (w, a) (wd_deliveries db)
      in if has_active_delivery existing now then (Inr (), db)
         else (Inr (), db\<lparr>wd_deliveries := upsert_reviving_soft_deleted announcement_key (has_deleted_delivery existing)
           \<lparr>ad_workspace_id = w, ad_announcement_id = a, ad_published_at = published,
            ad_delivered_at = of_int claimed, ad_conversation_id = pending_conversation_id,
            ad_message_id = token,
            ad_audit = upsert_with_timestamps stamp (map_option ad_audit existing)\<rparr> (wd_deliveries db)\<rparr>))"

definition release_workspace_update_announcement_delivery_claim ::
    "int \<Rightarrow> string \<Rightarrow> string \<Rightarrow> string \<Rightarrow> workspace_txn" where
  "release_workspace_update_announcement_delivery_claim stamp w a token db =
     (if matches_pending_delivery_claim (lookup_by announcement_key (w, a) (wd_deliveries db)) token
      then (Inr (), db\<lparr>wd_deliveries := zero_update announcement_key (w, a)
             (\<lambda>d. d\<lparr>ad_audit := soft_delete stamp (ad_audit d)\<rparr>) (wd_deliveries db)\<rparr>)
      else (Inr (), db))"

subsection \<open>Settings and conversations\<close>

record workspace_args =
  wa_workspace_id :: string
  wa_sheet_id :: "string option option"
  wa_auto_checkin :: "bool option option"
  wa_monitor_conversation_id :: "string option option"

definition config_workspace_row_of ::
    "bool \<Rightarrow> int \<Rightarrow> workspace_args \<Rightarrow> config_workspace_row option \<Rightarrow> config_workspace_row" where
  "config_workspace_row_of clears stamp a existing =
     (let active = active_record cw_audit existing
      in \<lparr>cw_workspace_id = wa_workspace_id a,
          cw_sheet_id = zero_column clears (Option.bind existing cw_sheet_id)
            (preserve_from active cw_sheet_id (wa_sheet_id a)),
          cw_auto_checkin = zero_column clears (Option.bind existing cw_auto_checkin)
            (preserve_from active cw_auto_checkin (wa_auto_checkin a)),
          cw_monitor_conversation_id = zero_column clears (Option.bind existing cw_monitor_conversation_id)
            (preserve_from active cw_monitor_conversation_id (wa_monitor_conversation_id a)),
          cw_audit = upsert_with_timestamps stamp (map_option cw_audit active)\<rparr>)"

text \<open>The conversation the settings would monitor is an active running one.\<close>

definition monitors_running_conversation :: "string \<Rightarrow> string option option \<Rightarrow> workspace_db \<Rightarrow> bool" where
  "monitors_running_conversation w monitor db =
     (case monitor of
        Some (Some m) \<Rightarrow>
          Option.bind (active_record cc_audit (lookup_by conversation_key (w, m) (wd_conversations db)))
            cc_running = Some True
      | _ \<Rightarrow> False)"

definition upsert_workspace_config :: "bool \<Rightarrow> int \<Rightarrow> workspace_args \<Rightarrow> workspace_txn" where
  "upsert_workspace_config clears stamp a db =
     (let existing = lookup_by cw_workspace_id (wa_workspace_id a) (wd_workspaces db);
          monitor = preserve_from (active_record cw_audit existing) cw_monitor_conversation_id
            (wa_monitor_conversation_id a)
      in if monitors_running_conversation (wa_workspace_id a) monitor db then (Inl MonitorIsRunning, db)
         else (Inr (), db\<lparr>wd_workspaces := zero_upsert cw_workspace_id
                (config_workspace_row_of clears stamp a existing) (wd_workspaces db)\<rparr>))"

record conversation_args =
  ca_workspace_id :: string
  ca_conversation_id :: string
  ca_name :: "string option option"
  ca_running :: "bool option option"
  ca_role_id :: "string option option"
  ca_checkin_conversation_id :: "string option option"

definition conversation_row_of ::
    "bool \<Rightarrow> int \<Rightarrow> conversation_args \<Rightarrow> conversation_row option \<Rightarrow> conversation_row" where
  "conversation_row_of clears stamp a existing =
     (let active = active_record cc_audit existing
      in \<lparr>cc_workspace_id = ca_workspace_id a, cc_conversation_id = ca_conversation_id a,
          cc_name = zero_column clears (Option.bind existing cc_name) (preserve_from active cc_name (ca_name a)),
          cc_running = zero_column clears (Option.bind existing cc_running)
            (preserve_from active cc_running (ca_running a)),
          cc_role_id = zero_column clears (Option.bind existing cc_role_id)
            (preserve_from active cc_role_id (ca_role_id a)),
          cc_checkin_conversation_id = zero_column clears (Option.bind existing cc_checkin_conversation_id)
            (preserve_from active cc_checkin_conversation_id (ca_checkin_conversation_id a)),
          cc_audit = upsert_with_timestamps stamp (map_option cc_audit active)\<rparr>)"

definition upsert_workspace_conversation_config :: "bool \<Rightarrow> int \<Rightarrow> conversation_args \<Rightarrow> workspace_txn" where
  "upsert_workspace_conversation_config clears stamp a db =
     (let existing = lookup_by conversation_key (ca_workspace_id a, ca_conversation_id a) (wd_conversations db);
          running = preserve_from (active_record cc_audit existing) cc_running (ca_running a)
      in if running = Some (Some True) \<and>
            Option.bind (active_record cw_audit (lookup_by cw_workspace_id (ca_workspace_id a) (wd_workspaces db)))
              cw_monitor_conversation_id = Some (ca_conversation_id a)
         then (Inl MonitorIsRunning, db)
         else (Inr (), db\<lparr>wd_conversations := zero_upsert conversation_key
                (conversation_row_of clears stamp a existing) (wd_conversations db)\<rparr>))"

subsection \<open>Roles, flags and channels\<close>

definition add_workspace_monitor_role :: "int \<Rightarrow> string \<Rightarrow> string \<Rightarrow> workspace_db \<Rightarrow> workspace_db" where
  "add_workspace_monitor_role stamp w role db =
     db\<lparr>wd_roles := zero_upsert role_key
       \<lparr>mr_workspace_id = w, mr_role_id = role,
        mr_audit = upsert_with_timestamps stamp
          (map_option mr_audit (lookup_by role_key (w, role) (wd_roles db)))\<rparr> (wd_roles db)\<rparr>"

definition remove_workspace_monitor_role :: "int \<Rightarrow> string \<Rightarrow> string \<Rightarrow> workspace_db \<Rightarrow> workspace_db" where
  "remove_workspace_monitor_role stamp w role db =
     db\<lparr>wd_roles := zero_update role_key (w, role)
       (\<lambda>r. r\<lparr>mr_audit := soft_delete stamp (mr_audit r)\<rparr>) (wd_roles db)\<rparr>"

definition add_workspace_feature_flag :: "int \<Rightarrow> string \<Rightarrow> string \<Rightarrow> workspace_db \<Rightarrow> workspace_db" where
  "add_workspace_feature_flag stamp w flag db =
     (let existing = lookup_by flag_key (w, flag) (wd_flags db)
      in db\<lparr>wd_flags := upsert_reviving_soft_deleted flag_key
           (case existing of None \<Rightarrow> False | Some f \<Rightarrow> au_deleted_at (ff_audit f) \<noteq> None)
           \<lparr>ff_workspace_id = w, ff_flag_name = flag,
            ff_audit = upsert_with_timestamps stamp (map_option ff_audit existing)\<rparr> (wd_flags db)\<rparr>)"

definition remove_workspace_feature_flag :: "int \<Rightarrow> string \<Rightarrow> string \<Rightarrow> workspace_db \<Rightarrow> workspace_db" where
  "remove_workspace_feature_flag stamp w flag db =
     db\<lparr>wd_flags := zero_update flag_key (w, flag)
       (\<lambda>r. r\<lparr>ff_audit := soft_delete stamp (ff_audit r)\<rparr>) (wd_flags db)\<rparr>"

record channel_args =
  ka_workspace_id :: string
  ka_conversation_id :: string
  ka_destination_team_config_name :: "string option option"
  ka_write_mode :: team_submission_write_mode
  ka_removed_row_strategy :: team_submission_removed_row_strategy
  ka_require_valid_oshi :: "bool option"

definition upsert_team_submission_channel :: "bool \<Rightarrow> int \<Rightarrow> channel_args \<Rightarrow> workspace_db \<Rightarrow> workspace_db" where
  "upsert_team_submission_channel clears stamp a db =
     (let existing = lookup_by channel_key (ka_workspace_id a, ka_conversation_id a) (wd_channels db);
          active = active_record ch_audit existing
      in db\<lparr>wd_channels := zero_upsert channel_key
           \<lparr>ch_workspace_id = ka_workspace_id a, ch_conversation_id = ka_conversation_id a,
            ch_destination_team_config_name =
              zero_column clears (Option.bind existing ch_destination_team_config_name)
                (preserve_from active ch_destination_team_config_name (ka_destination_team_config_name a)),
            ch_write_mode = ka_write_mode a, ch_removed_row_strategy = ka_removed_row_strategy a,
            ch_require_valid_oshi =
              (case ka_require_valid_oshi a of
                 Some b \<Rightarrow> b
               | None \<Rightarrow> (case active of Some c \<Rightarrow> ch_require_valid_oshi c | None \<Rightarrow> False)),
            ch_audit = upsert_with_timestamps stamp (map_option ch_audit active)\<rparr> (wd_channels db)\<rparr>)"

definition remove_team_submission_channel :: "int \<Rightarrow> string \<Rightarrow> string \<Rightarrow> workspace_db \<Rightarrow> workspace_db" where
  "remove_team_submission_channel stamp w c db =
     db\<lparr>wd_channels := zero_update channel_key (w, c)
       (\<lambda>r. r\<lparr>ch_audit := soft_delete stamp (ch_audit r)\<rparr>) (wd_channels db)\<rparr>"

subsection \<open>Histories\<close>

datatype workspace_mutation =
    UpsertWorkspaceConfig int workspace_args
  | AddMonitorRole int string string
  | RemoveMonitorRole int string string
  | AddFeatureFlag int string string
  | RemoveFeatureFlag int string string
  | RecordDelivery int delivery_args
  | ClaimDelivery int int int string string rat string
  | ReleaseDelivery int string string string
  | UpsertConversation int conversation_args
  | UpsertChannel int channel_args
  | RemoveChannel int string string

fun run_workspace_mutation :: "bool \<Rightarrow> workspace_mutation \<Rightarrow> workspace_db \<Rightarrow> workspace_db" where
  "run_workspace_mutation z (UpsertWorkspaceConfig stamp a) db = snd (upsert_workspace_config z stamp a db)"
| "run_workspace_mutation z (AddMonitorRole stamp w r) db = add_workspace_monitor_role stamp w r db"
| "run_workspace_mutation z (RemoveMonitorRole stamp w r) db = remove_workspace_monitor_role stamp w r db"
| "run_workspace_mutation z (AddFeatureFlag stamp w f) db = add_workspace_feature_flag stamp w f db"
| "run_workspace_mutation z (RemoveFeatureFlag stamp w f) db = remove_workspace_feature_flag stamp w f db"
| "run_workspace_mutation z (RecordDelivery stamp a) db =
     snd (record_workspace_update_announcement_delivery stamp a db)"
| "run_workspace_mutation z (ClaimDelivery now claimed stamp w a p t) db =
     snd (claim_workspace_update_announcement_delivery now claimed stamp w a p t db)"
| "run_workspace_mutation z (ReleaseDelivery stamp w a t) db =
     snd (release_workspace_update_announcement_delivery_claim stamp w a t db)"
| "run_workspace_mutation z (UpsertConversation stamp a) db =
     snd (upsert_workspace_conversation_config z stamp a db)"
| "run_workspace_mutation z (UpsertChannel stamp a) db = upsert_team_submission_channel z stamp a db"
| "run_workspace_mutation z (RemoveChannel stamp w c) db = remove_team_submission_channel stamp w c db"

primrec run_workspace_mutations :: "bool \<Rightarrow> workspace_mutation list \<Rightarrow> workspace_db \<Rightarrow> workspace_db" where
  "run_workspace_mutations z [] db = db"
| "run_workspace_mutations z (m # ms) db = run_workspace_mutations z ms (run_workspace_mutation z m db)"

end
