(* ===== verification/WorkspaceGuarantees.thy ===== *)
theory WorkspaceGuarantees
  imports WorkspaceConfig
begin

text \<open>
  What the mutators of the workspace configuration keep: the monitor channel is never an active running
  channel, the soft-deleted tables behave as the sets of what was added and not removed since, and an
  announcement is delivered under one claim at a time and recorded once.
\<close>

subsection \<open>Tables with soft deletion are sets\<close>

text \<open>The specification: a set of keys that a step adds to, removes from or leaves alone.\<close>

definition set_step :: "('m \<Rightarrow> 'k option) \<Rightarrow> ('m \<Rightarrow> 'k option) \<Rightarrow> 'm \<Rightarrow> 'k set \<Rightarrow> 'k set" where
  "set_step adds removes m A = (case adds m of Some k \<Rightarrow> insert k A
     | None \<Rightarrow> (case removes m of Some k \<Rightarrow> A - {k} | None \<Rightarrow> A))"

text \<open>A step adds one key, removes one key or leaves the live keys alone.\<close>

locale soft_set =
  fixes live :: "'s \<Rightarrow> 'k set"
    and step :: "'m \<Rightarrow> 's \<Rightarrow> 's"
    and adds :: "'m \<Rightarrow> 'k option"
    and removes :: "'m \<Rightarrow> 'k option"
  assumes live_step: "live (step m s) = set_step adds removes m (live s)"
begin

lemma live_history: "live (fold step ms s) = fold (set_step adds removes) ms (live s)"
  by (induction ms arbitrary: s) (simp_all add: live_step)

text \<open>A key is live exactly when the last step that names it added it.\<close>

lemma live_after_add:
  assumes "adds m = Some k" and "\<forall>m' \<in> set ms. removes m' \<noteq> Some k"
  shows "k \<in> live (fold step ms (step m s))"
proof -
  have "k \<in> live t \<Longrightarrow> \<forall>m' \<in> set ms. removes m' \<noteq> Some k \<Longrightarrow> k \<in> live (fold step ms t)" for t
  proof (induction ms arbitrary: t)
    case (Cons m' ms)
    have "k \<in> live (step m' t)"
      using Cons.prems by (auto simp: live_step set_step_def split: option.splits)
    with Cons show ?case by simp
  qed simp
  with assms show ?thesis by (simp add: live_step set_step_def)
qed

lemma live_after_remove:
  assumes "removes m = Some k" and "adds m = None" and "\<forall>m' \<in> set ms. adds m' \<noteq> Some k"
  shows "k \<notin> live (fold step ms (step m s))"
proof -
  have "k \<notin> live t \<Longrightarrow> \<forall>m' \<in> set ms. adds m' \<noteq> Some k \<Longrightarrow> k \<notin> live (fold step ms t)" for t
  proof (induction ms arbitrary: t)
    case (Cons m' ms)
    have "k \<notin> live (step m' t)"
      using Cons.prems by (auto simp: live_step set_step_def split: option.splits)
    with Cons show ?case by simp
  qed simp
  with assms show ?thesis by (simp add: live_step set_step_def)
qed

end

lemma run_workspace_mutations_fold: "run_workspace_mutations z ms db = fold (run_workspace_mutation z) ms db"
  by (induction ms arbitrary: db) simp_all

definition live_keys :: "('r \<Rightarrow> audit) \<Rightarrow> ('r \<Rightarrow> 'k) \<Rightarrow> 'r list \<Rightarrow> 'k set" where
  "live_keys aud key rows = {k. active_record aud (lookup_by key k rows) \<noteq> None}"

lemma active_record_Some:
  "active_record aud r = Some x \<longleftrightarrow> r = Some x \<and> au_deleted_at (aud x) = None"
  by (auto simp: active_record_def split: option.splits)

lemma active_record_None:
  "active_record aud r = None \<longleftrightarrow> (\<forall>x. r = Some x \<longrightarrow> au_deleted_at (aud x) \<noteq> None)"
  by (auto simp: active_record_def split: option.splits)

lemma live_keys_upsert [workspace_simps]:
  "au_deleted_at (aud row) = None \<Longrightarrow>
     live_keys aud key (zero_upsert key row rows) = insert (key row) (live_keys aud key rows)"
  by (auto simp: live_keys_def lookup_zero_upsert active_record_def)

lemma live_keys_soft_delete [workspace_simps]:
  assumes "\<And>r. key r = k \<Longrightarrow> key (f r) = k" and "\<And>r. \<exists>t. au_deleted_at (aud (f r)) = Some t"
  shows "live_keys aud key (zero_update key k f rows) = live_keys aud key rows - {k}"
proof -
  have "active_record aud (map_option f x) = None" for x
    using assms(2) [of "the x"] by (cases x) (auto simp: active_record_def)
  then show ?thesis
    by (auto simp: live_keys_def lookup_zero_update assms(1))
qed

lemma lookup_reviving [zero_simps]:
  "lookup_by key k (upsert_reviving_soft_deleted key d row rows) =
     (if k = key row then Some row else lookup_by key k rows)"
  by (auto simp: upsert_reviving_soft_deleted_def lookup_zero_upsert lookup_by_append lookup_zero_delete
      split: option.splits)

lemma live_keys_reviving [workspace_simps]:
  "au_deleted_at (aud row) = None \<Longrightarrow>
     live_keys aud key (upsert_reviving_soft_deleted key d row rows) = insert (key row) (live_keys aud key rows)"
  by (auto simp: live_keys_def lookup_reviving active_record_def)

lemma upsert_with_timestamps_live [simp]: "au_deleted_at (upsert_with_timestamps stamp a) = None"
  by (simp add: upsert_with_timestamps_def)

lemma soft_delete_dead [simp]: "au_deleted_at (soft_delete stamp a) = Some stamp"
  by (simp add: soft_delete_def)

lemma keys_of_rows [simp]:
  "role_key (r\<lparr>mr_audit := a\<rparr>) = role_key r"
  "flag_key (f\<lparr>ff_audit := a\<rparr>) = flag_key f"
  "channel_key (c\<lparr>ch_audit := a\<rparr>) = channel_key c"
  "announcement_key (d\<lparr>ad_audit := a\<rparr>) = announcement_key d"
  by (simp_all add: role_key_def flag_key_def channel_key_def announcement_key_def)

lemma keys_of_new_rows [simp]:
  "role_key \<lparr>mr_workspace_id = w, mr_role_id = x, mr_audit = a\<rparr> = (w, x)"
  "flag_key \<lparr>ff_workspace_id = w, ff_flag_name = x, ff_audit = a\<rparr> = (w, x)"
  "channel_key \<lparr>ch_workspace_id = w, ch_conversation_id = x, ch_destination_team_config_name = n,
     ch_write_mode = m, ch_removed_row_strategy = s, ch_require_valid_oshi = b, ch_audit = a\<rparr> = (w, x)"
  "announcement_key \<lparr>ad_workspace_id = w, ad_announcement_id = x, ad_published_at = p,
     ad_delivered_at = t, ad_conversation_id = c, ad_message_id = k, ad_audit = a\<rparr> = (w, x)"
  by (simp_all add: role_key_def flag_key_def channel_key_def announcement_key_def)

definition monitor_roles :: "workspace_db \<Rightarrow> (string \<times> string) set" where
  "monitor_roles db = live_keys mr_audit role_key (wd_roles db)"

definition feature_flags :: "workspace_db \<Rightarrow> (string \<times> string) set" where
  "feature_flags db = live_keys ff_audit flag_key (wd_flags db)"

definition submission_channels :: "workspace_db \<Rightarrow> (string \<times> string) set" where
  "submission_channels db = live_keys ch_audit channel_key (wd_channels db)"

fun adds_role :: "workspace_mutation \<Rightarrow> (string \<times> string) option" where
  "adds_role (AddMonitorRole _ w r) = Some (w, r)" | "adds_role _ = None"

fun removes_role :: "workspace_mutation \<Rightarrow> (string \<times> string) option" where
  "removes_role (RemoveMonitorRole _ w r) = Some (w, r)" | "removes_role _ = None"

fun adds_flag :: "workspace_mutation \<Rightarrow> (string \<times> string) option" where
  "adds_flag (AddFeatureFlag _ w f) = Some (w, f)" | "adds_flag _ = None"

fun removes_flag :: "workspace_mutation \<Rightarrow> (string \<times> string) option" where
  "removes_flag (RemoveFeatureFlag _ w f) = Some (w, f)" | "removes_flag _ = None"

fun adds_channel :: "workspace_mutation \<Rightarrow> (string \<times> string) option" where
  "adds_channel (UpsertChannel _ a) = Some (ka_workspace_id a, ka_conversation_id a)" | "adds_channel _ = None"

fun removes_channel :: "workspace_mutation \<Rightarrow> (string \<times> string) option" where
  "removes_channel (RemoveChannel _ w c) = Some (w, c)" | "removes_channel _ = None"

lemmas workspace_mutator_defs =
  upsert_workspace_config_def add_workspace_monitor_role_def remove_workspace_monitor_role_def
  add_workspace_feature_flag_def remove_workspace_feature_flag_def
  record_workspace_update_announcement_delivery_def claim_workspace_update_announcement_delivery_def
  release_workspace_update_announcement_delivery_claim_def upsert_workspace_conversation_config_def
  upsert_team_submission_channel_def remove_team_submission_channel_def Let_def

lemma roles_step:
  "monitor_roles (run_workspace_mutation z m db) = set_step adds_role removes_role m (monitor_roles db)"
  by (cases m) (auto simp: set_step_def monitor_roles_def workspace_mutator_defs workspace_simps)

lemma flags_step:
  "feature_flags (run_workspace_mutation z m db) = set_step adds_flag removes_flag m (feature_flags db)"
  by (cases m) (auto simp: set_step_def feature_flags_def workspace_mutator_defs workspace_simps)

lemma channels_step:
  "submission_channels (run_workspace_mutation z m db) = set_step adds_channel removes_channel m (submission_channels db)"
  by (cases m) (auto simp: set_step_def submission_channels_def workspace_mutator_defs workspace_simps)

interpretation roles: soft_set monitor_roles "run_workspace_mutation z" adds_role removes_role for z
  by unfold_locales (rule roles_step)

interpretation flags: soft_set feature_flags "run_workspace_mutation z" adds_flag removes_flag for z
  by unfold_locales (rule flags_step)

interpretation channels: soft_set submission_channels "run_workspace_mutation z" adds_channel removes_channel for z
  by unfold_locales (rule channels_step)

text \<open>The queries list exactly these sets.\<close>

definition workspace_keys_unique :: "workspace_db \<Rightarrow> bool" where
  "workspace_keys_unique db \<longleftrightarrow>
     unique_by role_key (wd_roles db) \<and> unique_by flag_key (wd_flags db) \<and> unique_by channel_key (wd_channels db)"

lemma set_list_active_where:
  assumes "unique_by key rows" and "\<And>r. p r \<longleftrightarrow> q (key r)"
  shows "key ` set (list_active_where aud p rows) = {k \<in> live_keys aud key rows. q k}"
proof -
  have "r \<in> set rows \<longleftrightarrow> lookup_by key (key r) rows = Some r" for r
    using assms(1) by (auto simp: lookup_by_unique dest: lookup_by_SomeD)
  then show ?thesis
    using assms(2)
    by (auto simp: list_active_where_def live_keys_def active_record_Some image_iff) (metis lookup_by_SomeD)+
qed

lemma unique_reviving: "unique_by key rows \<Longrightarrow> unique_by key (upsert_reviving_soft_deleted key d row rows)"
proof -
  assume "unique_by key rows"
  then have "unique_by key (zero_delete key (key row) rows)"
    by (auto simp: zero_delete_def unique_by_def distinct_map inj_on_def)
  then have "unique_by key (zero_delete key (key row) rows @ [row])"
    by (auto simp: unique_by_append zero_delete_def)
  with \<open>unique_by key rows\<close> show ?thesis
    by (simp add: upsert_reviving_soft_deleted_def unique_zero_upsert)
qed

lemma keys_unique_step: "workspace_keys_unique db \<Longrightarrow> workspace_keys_unique (run_workspace_mutation z m db)"
  by (cases m) (auto simp: workspace_keys_unique_def workspace_mutator_defs unique_zero_upsert unique_reviving
      unique_zero_update)

lemma keys_unique_history:
  "workspace_keys_unique db \<Longrightarrow> workspace_keys_unique (run_workspace_mutations z ms db)"
  by (induction ms arbitrary: db) (auto simp: keys_unique_step)

lemma listed_sets:
  assumes "workspace_keys_unique db"
  shows "flag_key ` set (get_workspace_feature_flags w db) = {k \<in> feature_flags db. fst k = w}"
    and "flag_key ` set (get_workspaces_for_feature_flag n db) = {k \<in> feature_flags db. snd k = n}"
    and "role_key ` set (get_workspace_monitor_roles w db) = {k \<in> monitor_roles db. fst k = w}"
    and "channel_key ` set (get_team_submission_channels_for_workspace w db) =
           {k \<in> submission_channels db. fst k = w}"
  unfolding get_workspace_feature_flags_def feature_flags_def
    get_workspaces_for_feature_flag_def get_workspace_monitor_roles_def monitor_roles_def
    get_team_submission_channels_for_workspace_def submission_channels_def
  by ((rule set_list_active_where, insert assms, simp add: workspace_keys_unique_def,
      simp add: flag_key_def role_key_def channel_key_def)+)

text \<open>C28: Monitor roles, feature flags and team-submission channels behave as sets: over any history
  the queries of a workspace list exactly the keys added and not removed since, each once.\<close>

theorem workspace_sets_follow_history:
  assumes "workspace_keys_unique db"
  shows "flag_key ` set (get_workspace_feature_flags w (run_workspace_mutations z ms db)) =
           {k \<in> fold (set_step adds_flag removes_flag) ms (feature_flags db). fst k = w}
       \<and> role_key ` set (get_workspace_monitor_roles w (run_workspace_mutations z ms db)) =
           {k \<in> fold (set_step adds_role removes_role) ms (monitor_roles db). fst k = w}
       \<and> channel_key ` set (get_team_submission_channels_for_workspace w (run_workspace_mutations z ms db)) =
           {k \<in> fold (set_step adds_channel removes_channel) ms (submission_channels db). fst k = w}
       \<and> unique_by flag_key (get_workspace_feature_flags w (run_workspace_mutations z ms db))"
proof -
  have u: "workspace_keys_unique (run_workspace_mutations z ms db)"
    using assms by (rule keys_unique_history)
  then have "unique_by flag_key (get_workspace_feature_flags w (run_workspace_mutations z ms db))"
    by (auto simp: workspace_keys_unique_def get_workspace_feature_flags_def list_active_where_def unique_by_def
        distinct_map inj_on_def)
  then show ?thesis
    unfolding listed_sets [OF u] unfolding run_workspace_mutations_fold
      flags.live_history roles.live_history channels.live_history by blast
qed

definition empty_workspaces :: workspace_db where
  "empty_workspaces = \<lparr>wd_workspaces = [], wd_roles = [], wd_flags = [], wd_deliveries = [],
     wd_conversations = [], wd_channels = []\<rparr>"

theorem workspace_sets_follow_history_witness:
  "flag_key ` set (get_workspace_feature_flags ''w'' (run_workspace_mutations True
     [AddFeatureFlag 1 ''w'' ''f'', RemoveFeatureFlag 2 ''w'' ''f'', AddFeatureFlag 3 ''w'' ''f'',
      AddFeatureFlag 4 ''w'' ''g'', RemoveFeatureFlag 5 ''w'' ''g''] empty_workspaces)) = {(''w'', ''f'')}"
proof -
  have "workspace_keys_unique empty_workspaces" "feature_flags empty_workspaces = {}"
    by (auto simp: workspace_keys_unique_def empty_workspaces_def feature_flags_def live_keys_def lookup_by_def
        active_record_def)
  then show ?thesis
    by (subst workspace_sets_follow_history [THEN conjunct1]) (auto simp: set_step_def)
qed

subsection \<open>The monitor channel\<close>

definition settings_live :: "workspace_db \<Rightarrow> bool" where
  "settings_live db \<longleftrightarrow> list_all (\<lambda>r. au_deleted_at (cw_audit r) = None) (wd_workspaces db) \<and>
     list_all (\<lambda>r. au_deleted_at (cc_audit r) = None) (wd_conversations db)"

definition monitor_of :: "workspace_db \<Rightarrow> string \<Rightarrow> string option" where
  "monitor_of db w = Option.bind (get_workspace_config w db) cw_monitor_conversation_id"

definition running_in :: "workspace_db \<Rightarrow> string \<Rightarrow> string \<Rightarrow> bool option" where
  "running_in db w c =
     Option.bind (active_record cc_audit (lookup_by conversation_key (w, c) (wd_conversations db))) cc_running"

definition monitor_apart :: "workspace_db \<Rightarrow> bool" where
  "monitor_apart db \<longleftrightarrow> (\<forall>w c. monitor_of db w = Some c \<longrightarrow> running_in db w c \<noteq> Some True)"

lemma active_live:
  "list_all (\<lambda>r. au_deleted_at (aud r) = None) rows \<Longrightarrow>
     active_record aud (lookup_by key k rows) = lookup_by key k rows"
  by (cases "lookup_by key k rows") (auto simp: active_record_def list_all_iff dest: lookup_by_SomeD)

lemma zero_column_preserved:
  "zero_column z (Option.bind e f) (preserve_from e f supplied) = Option.bind (preserve_from e f supplied) id"
  by (cases e; cases supplied) (auto simp: zero_column_def preserve_from_def)

lemma settings_live_step: "settings_live db \<Longrightarrow> settings_live (run_workspace_mutation z m db)"
  by (cases m) (auto simp: settings_live_def workspace_mutator_defs config_workspace_row_of_def
      conversation_row_of_def intro!: list_all_zero_upsert)

lemma config_row_parts [simp]:
  "cw_workspace_id (config_workspace_row_of z s a e) = wa_workspace_id a"
  "cw_audit (config_workspace_row_of z s a e) = upsert_with_timestamps s (map_option cw_audit (active_record cw_audit e))"
  by (simp_all add: config_workspace_row_of_def Let_def)

lemma conversation_row_parts [simp]:
  "conversation_key (conversation_row_of z s a e) = (ca_workspace_id a, ca_conversation_id a)"
  "cc_audit (conversation_row_of z s a e) = upsert_with_timestamps s (map_option cc_audit (active_record cc_audit e))"
  by (simp_all add: conversation_row_of_def conversation_key_def Let_def)

lemma monitor_after_upsert:
  assumes "settings_live db" and "upsert_workspace_config z s a db = (Inr (), db')"
  shows "monitor_of db' w = (if w = wa_workspace_id a
           then Option.bind (preserve_from (get_workspace_config w db) cw_monitor_conversation_id
                  (wa_monitor_conversation_id a)) id
           else monitor_of db w)"
    and "running_in db' = running_in db"
    and "w = wa_workspace_id a \<Longrightarrow> monitor_of db' w = Some c \<Longrightarrow> running_in db w c \<noteq> Some True"
proof -
  let ?e = "lookup_by cw_workspace_id (wa_workspace_id a) (wd_workspaces db)"
  have act: "active_record cw_audit ?e = ?e"
    using assms(1) by (simp add: settings_live_def active_live)
  have db': "db' = db\<lparr>wd_workspaces := zero_upsert cw_workspace_id (config_workspace_row_of z s a ?e) (wd_workspaces db)\<rparr>"
    and free: "\<not> monitors_running_conversation (wa_workspace_id a)
      (preserve_from ?e cw_monitor_conversation_id (wa_monitor_conversation_id a)) db"
    using assms(2) act by (auto simp: upsert_workspace_config_def Let_def split: if_splits)
  have mon: "cw_monitor_conversation_id (config_workspace_row_of z s a ?e) =
      Option.bind (preserve_from ?e cw_monitor_conversation_id (wa_monitor_conversation_id a)) id"
    by (simp add: config_workspace_row_of_def Let_def act zero_column_preserved)
  show new: "monitor_of db' w = (if w = wa_workspace_id a
      then Option.bind (preserve_from (get_workspace_config w db) cw_monitor_conversation_id
             (wa_monitor_conversation_id a)) id
      else monitor_of db w)"
    by (auto simp: monitor_of_def get_workspace_config_def db' lookup_zero_upsert act mon)
      (simp add: active_record_def mon)
  show "running_in db' = running_in db"
    by (simp add: running_in_def db' fun_eq_iff)
  show "running_in db w c \<noteq> Some True" if "w = wa_workspace_id a" "monitor_of db' w = Some c"
    using that new free act
    by (auto simp: monitors_running_conversation_def running_in_def get_workspace_config_def split: option.splits)
qed

lemma running_after_upsert:
  assumes "settings_live db" and "upsert_workspace_conversation_config z s a db = (Inr (), db')"
  shows "running_in db' w c = (if (w, c) = (ca_workspace_id a, ca_conversation_id a)
           then Option.bind (preserve_from (lookup_by conversation_key (w, c) (wd_conversations db)) cc_running
                  (ca_running a)) id
           else running_in db w c)"
    and "monitor_of db' = monitor_of db"
    and "monitor_of db (ca_workspace_id a) = Some (ca_conversation_id a) \<Longrightarrow>
           running_in db' (ca_workspace_id a) (ca_conversation_id a) \<noteq> Some True"
proof -
  let ?k = "(ca_workspace_id a, ca_conversation_id a)"
  let ?e = "lookup_by conversation_key ?k (wd_conversations db)"
  have act: "active_record cc_audit ?e = ?e"
    using assms(1) by (simp add: settings_live_def active_live)
  have db': "db' = db\<lparr>wd_conversations := zero_upsert conversation_key (conversation_row_of z s a ?e) (wd_conversations db)\<rparr>"
    and free: "preserve_from ?e cc_running (ca_running a) = Some (Some True) \<Longrightarrow>
      monitor_of db (ca_workspace_id a) \<noteq> Some (ca_conversation_id a)"
    using assms(2) act
    by (auto simp: upsert_workspace_conversation_config_def Let_def monitor_of_def get_workspace_config_def
        split: if_splits)
  have run: "cc_running (conversation_row_of z s a ?e) =
      Option.bind (preserve_from ?e cc_running (ca_running a)) id"
    by (simp add: conversation_row_of_def Let_def act zero_column_preserved)
  show new: "running_in db' w c = (if (w, c) = ?k
      then Option.bind (preserve_from (lookup_by conversation_key (w, c) (wd_conversations db)) cc_running
             (ca_running a)) id
      else running_in db w c)" for w c
    by (auto simp: running_in_def db' lookup_zero_upsert run active_record_def)
  show "monitor_of db' = monitor_of db"
    by (simp add: monitor_of_def get_workspace_config_def db' fun_eq_iff)
  show "running_in db' (ca_workspace_id a) (ca_conversation_id a) \<noteq> Some True"
    if "monitor_of db (ca_workspace_id a) = Some (ca_conversation_id a)"
    using that free unfolding new by (auto split: option.splits simp: bind_eq_Some_conv)
qed

lemma monitor_apart_step:
  assumes "settings_live db" and "monitor_apart db"
  shows "monitor_apart (run_workspace_mutation z m db)"
proof (cases m)
  case (UpsertWorkspaceConfig s a)
  show ?thesis
  proof (cases "upsert_workspace_config z s a db")
    case (Pair out db')
    show ?thesis
    proof (cases out)
      case (Inr u)
      then have ok: "upsert_workspace_config z s a db = (Inr (), db')" using Pair by simp
      show ?thesis
        using monitor_after_upsert [OF assms(1) ok] assms(2)
        by (auto simp: UpsertWorkspaceConfig ok monitor_apart_def)
    next
      case (Inl e)
      then show ?thesis
        using Pair assms by (auto simp: UpsertWorkspaceConfig upsert_workspace_config_def Let_def split: if_splits)
    qed
  qed
next
  case (UpsertConversation s a)
  show ?thesis
  proof (cases "upsert_workspace_conversation_config z s a db")
    case (Pair out db')
    show ?thesis
    proof (cases out)
      case (Inr u)
      then have ok: "upsert_workspace_conversation_config z s a db = (Inr (), db')" using Pair by simp
      show ?thesis
        using running_after_upsert [OF assms(1) ok] assms(2)
        by (auto simp: UpsertConversation ok monitor_apart_def)
    next
      case (Inl e)
      then show ?thesis
        using Pair assms
        by (auto simp: UpsertConversation upsert_workspace_conversation_config_def Let_def split: if_splits)
    qed
  qed
qed (use assms in \<open>auto simp: monitor_apart_def monitor_of_def running_in_def get_workspace_config_def
        workspace_mutator_defs\<close>)

text \<open>C27: The monitor channel of a workspace is never one of its active running channels: every history
  of mutators keeps them apart, whichever of the two a request changes, and a request that would bring
  them together is refused with an argument error and changes nothing.\<close>

theorem monitor_is_never_running:
  assumes "settings_live db" and "monitor_apart db"
  shows "monitor_apart (run_workspace_mutations z ms db) \<and>
         (running_in db (wa_workspace_id a) c = Some True \<and> wa_monitor_conversation_id a = Some (Some c) \<longrightarrow>
            upsert_workspace_config z s a db = (Inl MonitorIsRunning, db)) \<and>
         (monitor_of db (ca_workspace_id b) = Some (ca_conversation_id b) \<and> ca_running b = Some (Some True) \<longrightarrow>
            upsert_workspace_conversation_config z s b db = (Inl MonitorIsRunning, db))"
proof -
  have "settings_live (run_workspace_mutations z ms db) \<and> monitor_apart (run_workspace_mutations z ms db)"
    using assms by (induction ms arbitrary: db) (auto simp: settings_live_step monitor_apart_step)
  then show ?thesis
    by (auto simp: upsert_workspace_config_def upsert_workspace_conversation_config_def Let_def
        preserve_from_def monitors_running_conversation_def running_in_def monitor_of_def get_workspace_config_def)
qed

definition sample_workspace_args :: workspace_args where
  "sample_workspace_args = \<lparr>wa_workspace_id = ''w'', wa_sheet_id = None, wa_auto_checkin = Some (Some True),
     wa_monitor_conversation_id = Some (Some ''c'')\<rparr>"

definition sample_conversation_args :: conversation_args where
  "sample_conversation_args = \<lparr>ca_workspace_id = ''w'', ca_conversation_id = ''c'', ca_name = None,
     ca_running = Some (Some True), ca_role_id = None, ca_checkin_conversation_id = None\<rparr>"

theorem monitor_is_never_running_witness:
  "upsert_workspace_conversation_config True 2 sample_conversation_args
     (run_workspace_mutations True [UpsertWorkspaceConfig 1 sample_workspace_args] empty_workspaces) =
   (Inl MonitorIsRunning,
    run_workspace_mutations True [UpsertWorkspaceConfig 1 sample_workspace_args] empty_workspaces)"
proof -
  let ?db = "run_workspace_mutations True [UpsertWorkspaceConfig 1 sample_workspace_args] empty_workspaces"
  have live: "settings_live ?db" by code_simp
  have mon: "monitor_of ?db ''w'' = Some ''c''" by code_simp
  have "wd_conversations ?db = []" by code_simp
  then have "monitor_apart ?db"
    by (simp add: monitor_apart_def running_in_def lookup_by_def active_record_def)
  from monitor_is_never_running [OF live this, where b = sample_conversation_args] mon
  show ?thesis by (simp add: sample_conversation_args_def)
qed

subsection \<open>Announcement deliveries\<close>

definition announcement_at :: "string \<times> string \<Rightarrow> workspace_db \<Rightarrow> announcement_delivery_row option" where
  "announcement_at k db = lookup_by announcement_key k (wd_deliveries db)"

text \<open>A delivery is held by a claim token since an instant, or recorded for good.\<close>

definition held_by :: "string \<Rightarrow> int \<Rightarrow> announcement_delivery_row \<Rightarrow> bool" where
  "held_by token since d \<longleftrightarrow> au_deleted_at (ad_audit d) = None \<and>
     ad_conversation_id d = pending_conversation_id \<and> ad_message_id d = token \<and>
     date_time (ad_delivered_at d) = Some since"

definition recorded :: "announcement_delivery_row \<Rightarrow> bool" where
  "recorded d \<longleftrightarrow> au_deleted_at (ad_audit d) = None \<and> ad_conversation_id d \<noteq> pending_conversation_id"

text \<open>The mutations of others while a claim is in force: no record or release with its token, and
  claims only before its lease ends.\<close>

fun foreign_until :: "string \<times> string \<Rightarrow> string \<Rightarrow> int \<Rightarrow> workspace_mutation \<Rightarrow> bool" where
  "foreign_until k token end (RecordDelivery _ a) \<longleftrightarrow>
     (da_workspace_id a, da_announcement_id a) \<noteq> k \<or> da_claim_token a \<noteq> token"
| "foreign_until k token end (ReleaseDelivery _ w a t) \<longleftrightarrow> (w, a) \<noteq> k \<or> t \<noteq> token"
| "foreign_until k token end (ClaimDelivery now _ _ w a _ _) \<longleftrightarrow> (w, a) \<noteq> k \<or> now < end"
| "foreign_until k token end _ \<longleftrightarrow> True"

lemma announcement_step:
  "announcement_at k (run_workspace_mutation z m db) =
     (case m of
        RecordDelivery stamp a \<Rightarrow>
          if k = (da_workspace_id a, da_announcement_id a) \<and>
             matches_pending_delivery_claim (announcement_at k db) (da_claim_token a)
          then Some \<lparr>ad_workspace_id = da_workspace_id a, ad_announcement_id = da_announcement_id a,
            ad_published_at = da_published_at a, ad_delivered_at = da_delivered_at a,
            ad_conversation_id = da_conversation_id a, ad_message_id = da_message_id a,
            ad_audit = upsert_with_timestamps stamp (map_option ad_audit (announcement_at k db))\<rparr>
          else announcement_at k db
      | ClaimDelivery now claimed stamp w a published token \<Rightarrow>
          if k = (w, a) \<and> \<not> has_active_delivery (announcement_at k db) now
          then Some \<lparr>ad_workspace_id = w, ad_announcement_id = a, ad_published_at = published,
            ad_delivered_at = of_int claimed, ad_conversation_id = pending_conversation_id,
            ad_message_id = token,
            ad_audit = upsert_with_timestamps stamp (map_option ad_audit (announcement_at k db))\<rparr>
          else announcement_at k db
      | ReleaseDelivery stamp w a token \<Rightarrow>
          if k = (w, a) \<and> matches_pending_delivery_claim (announcement_at k db) token
          then map_option (\<lambda>d. d\<lparr>ad_audit := soft_delete stamp (ad_audit d)\<rparr>) (announcement_at k db)
          else announcement_at k db
      | _ \<Rightarrow> announcement_at k db)"
proof -
  have upd: "lookup_by announcement_key j (zero_update announcement_key k'
      (\<lambda>d. d\<lparr>ad_audit := soft_delete s (ad_audit d)\<rparr>) rows) =
    (if j = k' then map_option (\<lambda>d. d\<lparr>ad_audit := soft_delete s (ad_audit d)\<rparr>) (lookup_by announcement_key j rows)
     else lookup_by announcement_key j rows)" for j k' s rows
    by (rule lookup_zero_update) simp
  show ?thesis
    by (cases m) (auto simp: announcement_at_def workspace_mutator_defs lookup_zero_upsert lookup_reviving upd)
qed

lemma held_step:
  assumes "announcement_at k db = Some d" and "held_by token since d"
    and "foreign_until k token (since + claim_lease_ms) m"
  shows "announcement_at k (run_workspace_mutation z m db) = Some d"
  using assms unfolding announcement_step
  by (cases m) (auto simp: held_by_def has_active_delivery_def matches_pending_delivery_claim_def)

lemma recorded_step:
  "announcement_at k db = Some d \<Longrightarrow> recorded d \<Longrightarrow> announcement_at k (run_workspace_mutation z m db) = Some d"
  unfolding announcement_step by (cases m) (auto simp: recorded_def has_active_delivery_def matches_pending_delivery_claim_def)

lemma recorded_history:
  "announcement_at k db = Some d \<Longrightarrow> recorded d \<Longrightarrow> announcement_at k (run_workspace_mutations z ms db) = Some d"
  by (induction ms arbitrary: db) (auto simp: recorded_step)

lemma held_history:
  assumes "announcement_at k db = Some d" and "held_by token since d"
    and "list_all (foreign_until k token (since + claim_lease_ms)) ms"
  shows "announcement_at k (run_workspace_mutations z ms db) = Some d"
  using assms by (induction ms arbitrary: db) (auto simp: held_step)

text \<open>C26: One worker delivers an announcement. While a claim's five minutes last, nothing but a record or
  a release with its own token changes the delivery; the holder's record then stores the delivery it
  reports, and a stored delivery never changes again, so that later claims, records and releases are
  without effect.\<close>

theorem announcement_claim_is_exclusive:
  assumes "announcement_at k db = Some d" and "held_by token since d"
    and "list_all (foreign_until k token (since + claim_lease_ms)) ms"
    and "k = (da_workspace_id a, da_announcement_id a)" and "da_claim_token a = token"
    and "da_conversation_id a \<noteq> pending_conversation_id"
  shows "announcement_at k (run_workspace_mutations z ms db) = Some d \<and>
         (\<exists>r. announcement_at k (run_workspace_mutations z (ms @ RecordDelivery stamp a # ms') db) = Some r \<and>
            recorded r \<and> ad_conversation_id r = da_conversation_id a \<and> ad_message_id r = da_message_id a \<and>
            ad_delivered_at r = da_delivered_at a)"
proof -
  define db1 where "db1 = run_workspace_mutations z ms db"
  have held: "announcement_at k db1 = Some d"
    using assms(1-3) unfolding db1_def by (rule held_history)
  define r where "r = \<lparr>ad_workspace_id = da_workspace_id a, ad_announcement_id = da_announcement_id a,
            ad_published_at = da_published_at a, ad_delivered_at = da_delivered_at a,
            ad_conversation_id = da_conversation_id a, ad_message_id = da_message_id a,
            ad_audit = upsert_with_timestamps stamp (Some (ad_audit d))\<rparr>"
  have "announcement_at k (run_workspace_mutation z (RecordDelivery stamp a) db1) = Some r"
    unfolding announcement_step
    using assms held by (simp add: held_by_def matches_pending_delivery_claim_def r_def)
  moreover have "recorded r"
    using assms(6) by (simp add: recorded_def r_def)
  ultimately have "announcement_at k (run_workspace_mutations z (RecordDelivery stamp a # ms') db1) = Some r"
    by (simp add: recorded_history)
  moreover have "run_workspace_mutations z (ms @ RecordDelivery stamp a # ms') db =
      run_workspace_mutations z (RecordDelivery stamp a # ms') db1"
    by (simp add: run_workspace_mutations_fold db1_def)
  ultimately show ?thesis
    using held \<open>recorded r\<close> by (auto simp: db1_def r_def)
qed

definition sample_delivery_args :: delivery_args where
  "sample_delivery_args = \<lparr>da_workspace_id = ''w'', da_announcement_id = ''a'', da_published_at = 0,
     da_delivered_at = 7, da_conversation_id = ''c'', da_message_id = ''m'', da_claim_token = ''t''\<rparr>"

theorem announcement_claim_is_exclusive_witness:
  "\<exists>r. announcement_at (''w'', ''a'') (run_workspace_mutations True
     ([ClaimDelivery 300000 300000 300000 ''w'' ''a'' 0 ''u''] @ RecordDelivery 5 sample_delivery_args #
      [ClaimDelivery 900000 900000 900000 ''w'' ''a'' 0 ''u''])
     (run_workspace_mutation True (ClaimDelivery 1 1 1 ''w'' ''a'' 0 ''t'') empty_workspaces)) = Some r \<and>
   recorded r \<and> ad_message_id r = ''m''"
proof -
  let ?db = "run_workspace_mutation True (ClaimDelivery 1 1 1 ''w'' ''a'' 0 ''t'') empty_workspaces"
  obtain d where d: "announcement_at (''w'', ''a'') ?db = Some d" "held_by ''t'' 1 d"
    by (simp add: announcement_at_def claim_workspace_update_announcement_delivery_def empty_workspaces_def
        has_active_delivery_def has_deleted_delivery_def upsert_reviving_soft_deleted_def zero_upsert_def
        lookup_by_def held_by_def date_time_def math_trunc_def)
  have c: "da_conversation_id sample_delivery_args \<noteq> pending_conversation_id"
    by (simp add: sample_delivery_args_def pending_conversation_id_def)
  have m: "list_all (foreign_until (''w'', ''a'') ''t'' (1 + claim_lease_ms))
      [ClaimDelivery 300000 300000 300000 ''w'' ''a'' 0 ''u'']"
    by (simp add: claim_lease_ms_def)
  from announcement_claim_is_exclusive [OF d m _ _ c, where z = True and stamp = 5 and
      ms' = "[ClaimDelivery 900000 900000 900000 ''w'' ''a'' 0 ''u'']"]
  show ?thesis by (fastforce simp: sample_delivery_args_def simp del: run_workspace_mutations.simps
      run_workspace_mutation.simps append.simps)
qed

definition claimable :: "int \<Rightarrow> announcement_delivery_row option \<Rightarrow> bool" where
  "claimable now delivery \<longleftrightarrow>
     (case delivery of
        None \<Rightarrow> True
      | Some d \<Rightarrow> au_deleted_at (ad_audit d) \<noteq> None \<or>
          ad_conversation_id d = pending_conversation_id \<and>
          (case date_time (ad_delivered_at d) of None \<Rightarrow> True | Some since \<Rightarrow> since + claim_lease_ms \<le> now))"

text \<open>A claim takes hold of an announcement that nobody has claimed, that was released, or whose claim is
  at least five minutes old; on any other it changes nothing.\<close>

theorem announcement_claim_takes_hold:
  assumes "\<bar>claimed\<bar> \<le> 8640000000000000"
  shows "if claimable now (announcement_at (w, a) db)
         then \<exists>d. announcement_at (w, a) (snd (claim_workspace_update_announcement_delivery now claimed stamp w a p token db)) = Some d
                \<and> held_by token claimed d
         else claim_workspace_update_announcement_delivery now claimed stamp w a p token db = (Inr (), db)"
proof (cases "claimable now (announcement_at (w, a) db)")
  case True
  then have "\<not> has_active_delivery (announcement_at (w, a) db) now"
    by (auto simp: claimable_def has_active_delivery_def split: option.splits)
  moreover have "\<bar>rat_of_int claimed\<bar> \<le> 8640000000000000"
    using assms by linarith
  ultimately show ?thesis
    using announcement_step [of "(w, a)" True "ClaimDelivery now claimed stamp w a p token" db] True
    by (simp add: held_by_def date_time_def math_trunc_def)
next
  case False
  then show ?thesis
    by (auto simp: claimable_def has_active_delivery_def announcement_at_def
        claim_workspace_update_announcement_delivery_def Let_def split: option.splits)
qed

theorem announcement_claim_takes_hold_witness:
  "\<exists>d. announcement_at (''w'', ''a'') (snd (claim_workspace_update_announcement_delivery 300001 300001 300001 ''w'' ''a'' 0 ''u''
     (run_workspace_mutation True (ClaimDelivery 1 1 1 ''w'' ''a'' 0 ''t'') empty_workspaces))) = Some d \<and>
   held_by ''u'' 300001 d"
proof -
  let ?db = "run_workspace_mutation True (ClaimDelivery 1 1 1 ''w'' ''a'' 0 ''t'') empty_workspaces"
  have "claimable 300001 (announcement_at (''w'', ''a'') ?db)"
    by (simp add: announcement_at_def claim_workspace_update_announcement_delivery_def empty_workspaces_def
        has_active_delivery_def has_deleted_delivery_def upsert_reviving_soft_deleted_def zero_upsert_def
        lookup_by_def claimable_def date_time_def math_trunc_def claim_lease_ms_def)
  then show ?thesis
    using announcement_claim_takes_hold [of 300001 300001 "''w''" "''a''" ?db 300001 0 "''u''"] by simp
qed

end
