(* ===== verification/UserConfig.thy ===== *)
theory UserConfig
  imports WorkspaceGuarantees
begin

text \<open>
  The notification preferences of users (\<open>sheet-zero-api/src/api/userConfig.ts\<close>) and the slot messages
  (\<open>src/api/messageSlot.ts\<close>): their queries and mutators, and the invariant that a user with direct
  messages enabled has a client to receive them.
\<close>

subsection \<open>User preferences\<close>

record user_config_row =
  uc_platform :: string
  uc_user_id :: string
  uc_default_client_id :: "string option"
  uc_checkin_dm_enabled :: bool
  uc_monitor_dm_enabled :: bool
  uc_audit :: audit

record user_config_args =
  xa_platform :: string
  xa_user_id :: string
  xa_checkin_dm_enabled :: "bool option"
  xa_monitor_dm_enabled :: "bool option"
  xa_default_client_id :: "string option option"

datatype user_config_error = DefaultClientRequired

definition user_config_key :: "user_config_row \<Rightarrow> string \<times> string" where
  "user_config_key r = (uc_platform r, uc_user_id r)"

definition resolve_dm_enabled :: "bool option \<Rightarrow> bool option \<Rightarrow> bool" where
  "resolve_dm_enabled requested existing =
     (case requested of Some b \<Rightarrow> b | None \<Rightarrow> (case existing of Some b \<Rightarrow> b | None \<Rightarrow> False))"

definition validate_dm_preferences :: "bool \<Rightarrow> bool \<Rightarrow> string option option \<Rightarrow> user_config_error + unit" where
  "validate_dm_preferences checkin_dm monitor_dm client =
     (if (checkin_dm \<or> monitor_dm) \<and> (client = None \<or> client = Some None)
      then Inl DefaultClientRequired else Inr ())"

definition enabled_user_configs_query ::
    "(user_config_row \<Rightarrow> bool) \<Rightarrow> string \<Rightarrow> string list \<Rightarrow> user_config_row list \<Rightarrow> user_config_row list" where
  "enabled_user_configs_query field platform user_ids rows =
     list_active_where uc_audit
       (\<lambda>r. uc_platform r = platform \<and> uc_user_id r \<in> set user_ids \<and> field r \<and> uc_default_client_id r \<noteq> None) rows"

definition get_checkin_dm_enabled_user_configs ::
    "string \<Rightarrow> string list \<Rightarrow> user_config_row list \<Rightarrow> user_config_row list" where
  "get_checkin_dm_enabled_user_configs = enabled_user_configs_query uc_checkin_dm_enabled"

definition get_monitor_dm_enabled_user_configs ::
    "string \<Rightarrow> string list \<Rightarrow> user_config_row list \<Rightarrow> user_config_row list" where
  "get_monitor_dm_enabled_user_configs = enabled_user_configs_query uc_monitor_dm_enabled"

definition get_user_platform_config :: "string \<Rightarrow> string \<Rightarrow> user_config_row list \<Rightarrow> user_config_row option" where
  "get_user_platform_config platform user rows =
     active_record uc_audit (lookup_by user_config_key (platform, user) rows)"

definition upsert_user_platform_config ::
    "bool \<Rightarrow> int \<Rightarrow> user_config_args \<Rightarrow> (user_config_error, unit, user_config_row list) txn" where
  "upsert_user_platform_config clears stamp a rows =
     (let existing = lookup_by user_config_key (xa_platform a, xa_user_id a) rows;
          active = active_record uc_audit existing;
          checkin_dm = resolve_dm_enabled (xa_checkin_dm_enabled a) (map_option uc_checkin_dm_enabled active);
          monitor_dm = resolve_dm_enabled (xa_monitor_dm_enabled a) (map_option uc_monitor_dm_enabled active);
          client = preserve_from active uc_default_client_id (xa_default_client_id a)
      in case validate_dm_preferences checkin_dm monitor_dm client of
           Inl e \<Rightarrow> (Inl e, rows)
         | Inr _ \<Rightarrow> (Inr (), zero_upsert user_config_key
             \<lparr>uc_platform = xa_platform a, uc_user_id = xa_user_id a,
              uc_default_client_id = zero_column clears (Option.bind existing uc_default_client_id) client,
              uc_checkin_dm_enabled = checkin_dm, uc_monitor_dm_enabled = monitor_dm,
              uc_audit = upsert_with_timestamps stamp (map_option uc_audit active)\<rparr> rows))"

definition run_user_upserts ::
    "bool \<Rightarrow> (int \<times> user_config_args) list \<Rightarrow> user_config_row list \<Rightarrow> user_config_row list" where
  "run_user_upserts clears =
     fold (\<lambda>(stamp, a) rows. snd (upsert_user_platform_config clears stamp a rows))"

definition dm_reachable :: "user_config_row \<Rightarrow> bool" where
  "dm_reachable r \<longleftrightarrow> (uc_checkin_dm_enabled r \<or> uc_monitor_dm_enabled r \<longrightarrow> uc_default_client_id r \<noteq> None)"

lemma dm_reachable_upsert:
  "list_all dm_reachable rows \<Longrightarrow> list_all dm_reachable (snd (upsert_user_platform_config z s a rows))"
  by (auto simp: upsert_user_platform_config_def Let_def validate_dm_preferences_def dm_reachable_def
      zero_column_def split: sum.splits if_splits option.splits intro!: list_all_zero_upsert)

lemma dm_reachable_history:
  "list_all dm_reachable rows \<Longrightarrow> list_all dm_reachable (run_user_upserts z us rows)"
  unfolding run_user_upserts_def by (induction us arbitrary: rows) (auto simp: dm_reachable_upsert)


definition sample_user_args :: "bool option \<Rightarrow> string option option \<Rightarrow> user_config_args" where
  "sample_user_args dm client = \<lparr>xa_platform = ''discord'', xa_user_id = ''u'', xa_checkin_dm_enabled = dm,
     xa_monitor_dm_enabled = None, xa_default_client_id = client\<rparr>"


subsection \<open>Slot messages\<close>

record slot_row =
  sl_key :: message_key
  sl_day :: rat
  sl_workspace_id :: "string option"
  sl_conversation_id :: "string option"
  sl_created_by_user_id :: "string option"
  sl_audit :: audit

record slot_args =
  sa_key :: message_key
  sa_day :: rat
  sa_workspace_id :: "string option"
  sa_conversation_id :: "string option"
  sa_created_by_user_id :: "string option"

definition get_message_slot_data :: "message_key \<Rightarrow> slot_row list \<Rightarrow> slot_row option" where
  "get_message_slot_data k rows = active_record sl_audit (lookup_by sl_key k rows)"

definition upsert_message_slot_data :: "int \<Rightarrow> slot_args \<Rightarrow> slot_row list \<Rightarrow> slot_row list" where
  "upsert_message_slot_data stamp a rows =
     zero_upsert sl_key
       \<lparr>sl_key = sa_key a, sl_day = sa_day a, sl_workspace_id = sa_workspace_id a,
        sl_conversation_id = sa_conversation_id a, sl_created_by_user_id = sa_created_by_user_id a,
        sl_audit = upsert_with_timestamps stamp
          (map_option sl_audit (active_record sl_audit (lookup_by sl_key (sa_key a) rows)))\<rparr> rows"

lemma slot_read_back:
  "get_message_slot_data k (upsert_message_slot_data stamp a rows) =
     (if k = sa_key a
      then Some \<lparr>sl_key = k, sl_day = sa_day a, sl_workspace_id = sa_workspace_id a,
        sl_conversation_id = sa_conversation_id a, sl_created_by_user_id = sa_created_by_user_id a,
        sl_audit = upsert_with_timestamps stamp (map_option sl_audit (get_message_slot_data k rows))\<rparr>
      else get_message_slot_data k rows)"
  by (auto simp: get_message_slot_data_def upsert_message_slot_data_def lookup_zero_upsert active_record_def)

end
