(* ===== verification/ContractSchemas.thy ===== *)
theory ContractSchemas
  imports Principals
begin

text \<open>
  The input schemas of the workflow contracts (\<open>sheet-workflow-contracts/src/values.ts\<close>, with the
  references of \<open>sheet-bot-api/src/references.ts\<close>) and what it means for a JSON value to decode
  against one. Which texts the runtime accepts as a date is the parameter \<open>date_ok\<close>.
\<close>

datatype schema =
    SString
  | SIdentifier
  | SNumber
  | SBool
  | SDate
  | SLiterals "string list"
  | SNullOr schema
  | SArray "(nat \<times> nat) option" schema
  | SStruct "(string \<times> bool \<times> schema) list"

text \<open>
  A struct decodes when every required field is there and every field that is there decodes; with
  \<open>onExcessProperty: "error"\<close> (\<open>strict\<close>) it has no other field.
\<close>

definition struct_decodes :: "bool \<Rightarrow> (string \<times> bool \<times> (json \<Rightarrow> bool)) list \<Rightarrow> json \<Rightarrow> bool" where
  "struct_decodes strict fs v =
     (case v of
        JObj members \<Rightarrow>
          list_all (\<lambda>(name, required, p). case map_of members name of None \<Rightarrow> \<not> required | Some x \<Rightarrow> p x) fs \<and>
          (strict \<longrightarrow> list_all (\<lambda>(name, _). name \<in> set (map fst fs)) members)
      | _ \<Rightarrow> False)"

primrec decodes :: "(string \<Rightarrow> bool) \<Rightarrow> bool \<Rightarrow> schema \<Rightarrow> json \<Rightarrow> bool" where
  "decodes date_ok strict SString = (\<lambda>v. case v of JStr _ \<Rightarrow> True | _ \<Rightarrow> False)"
| "decodes date_ok strict SIdentifier = (\<lambda>v. case v of JStr s \<Rightarrow> identifier_text s | _ \<Rightarrow> False)"
| "decodes date_ok strict SNumber = (\<lambda>v. case v of JNum _ \<Rightarrow> True | _ \<Rightarrow> False)"
| "decodes date_ok strict SBool = (\<lambda>v. case v of JBool _ \<Rightarrow> True | _ \<Rightarrow> False)"
| "decodes date_ok strict SDate = (\<lambda>v. case v of JStr s \<Rightarrow> date_ok s | _ \<Rightarrow> False)"
| "decodes date_ok strict (SLiterals ls) = (\<lambda>v. case v of JStr s \<Rightarrow> s \<in> set ls | _ \<Rightarrow> False)"
| "decodes date_ok strict (SNullOr t) = (\<lambda>v. v = JNull \<or> decodes date_ok strict t v)"
| "decodes date_ok strict (SArray bounds t) = (\<lambda>v. case v of
     JArr vs \<Rightarrow> list_all (decodes date_ok strict t) vs \<and>
       (case bounds of None \<Rightarrow> True | Some (lo, hi) \<Rightarrow> lo \<le> length vs \<and> length vs \<le> hi)
   | _ \<Rightarrow> False)"
| "decodes date_ok strict (SStruct fs) =
     struct_decodes strict (map (map_prod (\<lambda>n. n) (map_prod (\<lambda>r. r) (decodes date_ok strict))) fs)"

text \<open>\<open>stringFieldFromInput\<close>: a field of an undecoded input that is a text.\<close>

definition string_field_from_input :: "json \<Rightarrow> string \<Rightarrow> string option" where
  "string_field_from_input v name =
     (case v of
        JObj members \<Rightarrow> (case map_of members name of Some (JStr s) \<Rightarrow> Some s | _ \<Rightarrow> None)
      | _ \<Rightarrow> None)"

lemma struct_field:
  assumes "decodes date_ok strict (SStruct fs) v" and "(name, True, SIdentifier) \<in> set fs"
  shows "\<exists>s. string_field_from_input v name = Some s \<and> identifier_text s"
proof (cases v)
  case (JObj members)
  then have "case map_of members name of None \<Rightarrow> False | Some x \<Rightarrow> decodes date_ok strict SIdentifier x"
    using assms by (fastforce simp: struct_decodes_def list_all_iff split: option.splits)
  then show ?thesis
    using JObj by (auto simp: string_field_from_input_def split: option.splits json.splits)
qed (use assms in \<open>simp_all add: struct_decodes_def\<close>)

subsection \<open>References\<close>

definition client_ref_schema :: schema where
  "client_ref_schema = SStruct [(''platform'', True, SIdentifier), (''clientId'', True, SIdentifier)]"

definition workspace_ref_schema :: schema where
  "workspace_ref_schema = SStruct [(''client'', True, client_ref_schema), (''workspaceId'', True, SString)]"

definition conversation_ref_schema :: schema where
  "conversation_ref_schema =
     SStruct [(''workspace'', True, workspace_ref_schema), (''conversationId'', True, SString)]"

definition message_ref_schema :: schema where
  "message_ref_schema =
     SStruct [(''conversation'', True, conversation_ref_schema), (''messageId'', True, SString)]"

subsection \<open>Parts of a text\<close>

text \<open>The kinds of parts without parts of their own, with their fields.\<close>

definition plain_text_parts :: "(string \<times> (string \<times> bool \<times> schema) list) list" where
  "plain_text_parts =
     [(''text'', [(''text'', True, SString)]),
      (''userMention'', [(''userId'', True, SString)]),
      (''conversationMention'', [(''conversation'', True, conversation_ref_schema)]),
      (''roleMention'', [(''workspace'', True, workspace_ref_schema), (''roleId'', True, SString)]),
      (''messageLink'', [(''message'', True, message_ref_schema), (''label'', False, SString)]),
      (''timestamp'', [(''epochMs'', True, SNumber), (''style'', False,
         SLiterals [''shortTime'', ''longTime'', ''shortDate'', ''longDate'', ''relative''])]),
      (''inlineCode'', [(''text'', True, SString)]),
      (''externalLink'', [(''url'', True, SString), (''label'', False, SString)]),
      (''clientTerm'', [(''term'', True, SLiterals [''workspace'', ''conversation'', ''runDestination'',
         ''checkinDestination'', ''monitorRole'', ''lockdownRole'', ''message'', ''testRun'']),
         (''form'', False, SLiterals [''singular'', ''plural'']),
         (''casing'', False, SLiterals [''lower'', ''sentence''])])]"

text \<open>Whether a value is a part, and whether it is an array of parts.\<close>

primrec text_shape :: "json \<Rightarrow> bool \<times> bool" where
  "text_shape JNull = (False, False)"
| "text_shape (JBool b) = (False, False)"
| "text_shape (JNum n) = (False, False)"
| "text_shape (JStr s) = (False, False)"
| "text_shape (JArr vs) = (False, list_all fst (map text_shape vs))"
| "text_shape (JObj members) =
     (case map_of members ''type'' of
        Some (JStr tag) \<Rightarrow>
          if tag \<in> {''strong'', ''strikethrough'', ''subtle''}
          then (case map_of (map (map_prod (\<lambda>n. n) text_shape) members) ''parts'' of
                  Some (_, parts) \<Rightarrow> parts | None \<Rightarrow> False)
          else (case map_of plain_text_parts tag of
                  Some fs \<Rightarrow> decodes (\<lambda>_. True) False (SStruct fs) (JObj members) | None \<Rightarrow> False)
      | _ \<Rightarrow> False, False)"

definition is_text_part :: "json \<Rightarrow> bool" where
  "is_text_part v = fst (text_shape v)"

subsection \<open>Inputs\<close>

definition workspace_fields :: "(string \<times> bool \<times> schema) list" where
  "workspace_fields = [(''workspaceId'', True, SIdentifier)]"

definition response_fields :: "(string \<times> bool \<times> schema) list" where
  "response_fields = [(''responseReference'', True, SIdentifier)]"

definition slot_list_message_type :: schema where
  "slot_list_message_type = SLiterals [''persistent'', ''ephemeral'']"

definition preference_kind :: schema where
  "preference_kind = SLiterals [''checkin'', ''monitor'']"

definition team_submission_decision :: schema where
  "team_submission_decision = SLiterals [''confirm'', ''reject'']"

definition announcement_schema :: schema where
  "announcement_schema = SStruct [(''id'', True, SString), (''publishedAt'', True, SDate), (''title'',
     True, SString), (''description'', True, SString), (''color'', False, SNumber)]"

definition calculation_config_schema :: schema where
  "calculation_config_schema = SStruct [(''cc'', True, SBool), (''considerEnc'', True, SBool),
     (''healNeeded'', True, SNumber)]"

definition calculation_player_schema :: schema where
  "calculation_player_schema = SStruct [(''name'', True, SString), (''encable'', True, SBool)]"

definition calculation_fixed_team_schema :: schema where
  "calculation_fixed_team_schema = SStruct [(''name'', True, SString), (''heal'', True, SBool)]"

definition room_order_message_fields :: "(string \<times> bool \<times> schema) list" where
  "room_order_message_fields = workspace_fields @ response_fields @ [(''messageId'', True, SString),
     (''messageConversationId'', True, SString), (''messageContent'', False, SNullOr SString)]"

definition empty_input :: schema where
  "empty_input = SStruct []"

definition workspace_input :: schema where
  "workspace_input = SStruct workspace_fields"

definition notifications_load_supported_clients_input :: schema where
  "notifications_load_supported_clients_input = SStruct [(''platform'', True, SIdentifier)]"

definition checkins_open_input :: schema where
  "checkins_open_input = SStruct (workspace_fields @ [(''responseReference'', False, SIdentifier),
     (''conversationId'', False, SString), (''conversationName'', False, SString), (''hour'', False,
     SNumber), (''template'', False, SString)])"

definition checkins_test_auto_input :: schema where
  "checkins_test_auto_input = SStruct (workspace_fields @ response_fields @ [(''anchorConversationId'',
     True, SString)])"

definition checkins_respond_input :: schema where
  "checkins_respond_input = SStruct (response_fields @ [(''messageId'', True, SString)])"

definition room_orders_create_input :: schema where
  "room_orders_create_input = SStruct (workspace_fields @ response_fields @ [(''conversationId'', False,
     SString), (''conversationName'', False, SString), (''hour'', False, SNumber), (''healNeeded'',
     False, SNumber)])"

definition room_orders_navigate_input :: schema where
  "room_orders_navigate_input = SStruct (room_order_message_fields @ [(''direction'', True, SLiterals
     [''previous'', ''next''])])"

definition room_orders_send_input :: schema where
  "room_orders_send_input = SStruct room_order_message_fields"

definition room_orders_pin_tentative_input :: schema where
  "room_orders_pin_tentative_input = SStruct room_order_message_fields"

definition slots_deliver_list_input :: schema where
  "slots_deliver_list_input = SStruct (workspace_fields @ response_fields @ [(''day'', True, SNumber),
     (''messageType'', True, slot_list_message_type)])"

definition slots_publish_button_input :: schema where
  "slots_publish_button_input = SStruct (workspace_fields @ response_fields @ [(''conversationId'',
     True, SString), (''day'', True, SNumber)])"

definition slots_open_input :: schema where
  "slots_open_input = SStruct (response_fields @ [(''messageId'', True, SString)])"

definition members_kick_input :: schema where
  "members_kick_input = SStruct (workspace_fields @ [(''responseReference'', False, SIdentifier),
     (''conversationId'', False, SString), (''conversationName'', False, SString), (''hour'', False,
     SNumber)])"

definition preferences_deliver_status_input :: schema where
  "preferences_deliver_status_input = SStruct (response_fields @ [(''kind'', True, preference_kind),
     (''platform'', False, SIdentifier)])"

definition preferences_update_and_deliver_input :: schema where
  "preferences_update_and_deliver_input = SStruct (response_fields @ [(''platform'', True, SIdentifier),
     (''checkinDmEnabled'', False, SBool), (''monitorDmEnabled'', False, SBool), (''defaultClientId'',
     False, SNullOr SString)])"

definition workspaces_deliver_config_input :: schema where
  "workspaces_deliver_config_input = SStruct (workspace_fields @ response_fields)"

definition workspaces_update_config_and_deliver_input :: schema where
  "workspaces_update_config_and_deliver_input = SStruct (workspace_fields @ response_fields @
     [(''patch'', True, (SStruct [(''spreadsheetId'', False, SNullOr SIdentifier), (''autoCheckin'',
     False, SBool), (''monitorConversationId'', False, SNullOr SString)]))])"

definition workspaces_set_monitor_role_and_deliver_input :: schema where
  "workspaces_set_monitor_role_and_deliver_input = SStruct (workspace_fields @ response_fields @
     [(''roleId'', True, SString), (''enabled'', True, SBool)])"

definition workspaces_deliver_welcome_input :: schema where
  "workspaces_deliver_welcome_input = SStruct (workspace_fields @ [(''workspaceName'', True, SString),
     (''joinedAt'', True, SDate), (''systemConversationId'', False, SString)])"

definition workspaces_feature_flags_set_and_deliver_input :: schema where
  "workspaces_feature_flags_set_and_deliver_input = SStruct (workspace_fields @ [(''responseReference'',
     False, SIdentifier), (''flagName'', True, SIdentifier), (''enabled'', True, SBool),
     (''systemConversationId'', False, SString)])"

definition conversations_deliver_config_input :: schema where
  "conversations_deliver_config_input = SStruct (workspace_fields @ response_fields @
     [(''conversationId'', True, SString)])"

definition conversations_update_config_and_deliver_input :: schema where
  "conversations_update_config_and_deliver_input = SStruct (workspace_fields @ response_fields @
     [(''conversationId'', True, SString), (''patch'', True, (SStruct [(''running'', False, SBool),
     (''name'', False, SNullOr SString), (''roleId'', False, SNullOr SString),
     (''checkinConversationId'', False, SNullOr SString)]))])"

definition conversations_set_lockdown_input :: schema where
  "conversations_set_lockdown_input = SStruct (workspace_fields @ response_fields @
     [(''conversationId'', True, SString), (''enabled'', True, SBool)])"

definition teams_deliver_list_input :: schema where
  "teams_deliver_list_input = SStruct (workspace_fields @ response_fields @ [(''targetUserId'', True,
     SString), (''targetUsername'', True, SString)])"

definition schedules_deliver_user_schedule_input :: schema where
  "schedules_deliver_user_schedule_input = SStruct (workspace_fields @ response_fields @ [(''day'',
     True, SNumber), (''targetUserId'', True, SString), (''targetUsername'', True, SString)])"

definition screenshots_capture_and_deliver_input :: schema where
  "screenshots_capture_and_deliver_input = SStruct (workspace_fields @ response_fields @
     [(''conversationName'', True, SString), (''day'', True, SNumber)])"

definition services_deliver_status_input :: schema where
  "services_deliver_status_input = SStruct response_fields"

definition team_submissions_process_input :: schema where
  "team_submissions_process_input = SStruct [(''sourceMessage'', True, message_ref_schema),
     (''authorId'', True, SString), (''authorDisplayName'', True, SString), (''content'', True,
     SString), (''editedAt'', False, SNullOr SDate)]"

definition team_submissions_decide_input :: schema where
  "team_submissions_decide_input = SStruct (response_fields @ [(''sourceMessage'', True,
     message_ref_schema), (''confirmationMessage'', True, message_ref_schema), (''decision'', True,
     team_submission_decision)])"

definition announcements_deliver_update_input :: schema where
  "announcements_deliver_update_input = SStruct (workspace_fields @ [(''workspaceName'', True, SString),
     (''joinedAt'', True, SDate), (''systemConversationId'', False, SString), (''announcement'', True,
     announcement_schema)])"

definition calculations_recalculate_sheet_input :: schema where
  "calculations_recalculate_sheet_input = SStruct [(''spreadsheetId'', True, SIdentifier),
     (''sheetRef'', True, SIdentifier), (''hour'', True, SNumber), (''config'', True,
     calculation_config_schema), (''players'', True, (SArray (Some (5, 5)) calculation_player_schema)),
     (''fixedTeams'', True, SArray None calculation_fixed_team_schema)]"

end
