(* ===== verification/ContractCatalog.thy ===== *)
theory ContractCatalog
  imports ContractSchemas
begin

text \<open>
  The catalog of the workflow contracts and the authorization policy of each
  (\<open>sheet-workflow-contracts/src/catalog.ts\<close>, \<open>src/policy.ts\<close>). The schemas of successes and the
  members of the declared-failure unions are left out; which union a contract has is its \<open>kind\<close>.
\<close>

datatype principal_kind = UserKind | ServiceKind

datatype capability =
    CapSelf | CapMember | CapMonitor | CapManage | CapParticipant | CapApplicationOwner | CapServiceAllowed

datatype resource = ResSelf | ResWorkspace | ResMessage | ResSubmission | ResSpreadsheet | ResSystem

datatype user_rule = TargetUserOrMonitorOrOwner

record policy_input =
  pi_principal_kinds :: "principal_kind list"
  pi_required_capabilities :: "capability list"
  pi_resource :: resource
  pi_resource_field :: "string option"
  pi_service_rule :: "string option"
  pi_target_user_field :: "string option"
  pi_user_rule :: "user_rule option"

record policy_metadata =
  po_policy :: string
  po_version :: string
  po_input :: policy_input
  po_revalidate_before_effects :: bool

datatype contract_kind = DataAcquisition | Interactive | Autonomous | Calculation

record contract =
  ct_identity :: string
  ct_wire_version :: string
  ct_input :: schema
  ct_kind :: contract_kind
  ct_policy :: policy_metadata

definition policy_input :: "principal_kind list \<Rightarrow> capability list \<Rightarrow> resource \<Rightarrow> policy_input" where
  "policy_input kinds capabilities res =
     \<lparr>pi_principal_kinds = kinds, pi_required_capabilities = capabilities, pi_resource = res,
      pi_resource_field = None, pi_service_rule = None, pi_target_user_field = None, pi_user_rule = None\<rparr>"

definition authorization_policy :: "string \<Rightarrow> policy_input \<Rightarrow> string \<Rightarrow> policy_metadata" where
  "authorization_policy identity inp version =
     \<lparr>po_policy = ''sheet.workflow.'' @ identity @ ''.invoke'', po_version = version, po_input = inp,
      po_revalidate_before_effects = True\<rparr>"

definition define_contract ::
    "contract_kind \<Rightarrow> string \<Rightarrow> schema \<Rightarrow> string \<Rightarrow> policy_input \<Rightarrow> contract" where
  "define_contract kind identity inp version pol =
     \<lparr>ct_identity = identity, ct_wire_version = ''1'', ct_input = inp, ct_kind = kind,
      ct_policy = authorization_policy identity pol version\<rparr>"

definition data_acquisition :: "string \<Rightarrow> schema \<Rightarrow> string \<Rightarrow> policy_input \<Rightarrow> contract" where
  "data_acquisition = define_contract DataAcquisition"

definition interactive :: "string \<Rightarrow> schema \<Rightarrow> string \<Rightarrow> policy_input \<Rightarrow> contract" where
  "interactive = define_contract Interactive"

definition autonomous :: "string \<Rightarrow> schema \<Rightarrow> string \<Rightarrow> policy_input \<Rightarrow> contract" where
  "autonomous = define_contract Autonomous"

definition calculation :: "string \<Rightarrow> schema \<Rightarrow> string \<Rightarrow> policy_input \<Rightarrow> contract" where
  "calculation = define_contract Calculation"

subsection \<open>The contracts\<close>

definition discord_load_profile :: contract where
  "discord_load_profile = data_acquisition ''discord.loadProfile'' empty_input ''1''
     (policy_input [UserKind] [CapSelf] ResSelf)"

definition discord_load_workspace_channels :: contract where
  "discord_load_workspace_channels = data_acquisition ''discord.loadWorkspaceChannels'' workspace_input ''1''
     ((policy_input [UserKind] [CapMember] ResWorkspace)\<lparr>pi_resource_field := Some
        ''workspaceId''\<rparr>)"

definition discord_load_workspace_roles :: contract where
  "discord_load_workspace_roles = data_acquisition ''discord.loadWorkspaceRoles'' workspace_input ''1''
     ((policy_input [UserKind] [CapMember] ResWorkspace)\<lparr>pi_resource_field := Some
        ''workspaceId''\<rparr>)"

definition authorization_load_workspace_capabilities :: contract where
     "authorization_load_workspace_capabilities = data_acquisition
        ''authorization.loadWorkspaceCapabilities'' workspace_input ''1''
     ((policy_input [UserKind] [] ResWorkspace)\<lparr>pi_resource_field := Some ''workspaceId''\<rparr>)"

definition schedules_load_workspace :: contract where
  "schedules_load_workspace = data_acquisition ''schedules.loadWorkspace'' workspace_input ''1''
     ((policy_input [UserKind] [CapMember] ResWorkspace)\<lparr>pi_resource_field := Some
        ''workspaceId''\<rparr>)"

definition notifications_load_supported_clients :: contract where
     "notifications_load_supported_clients = data_acquisition ''notifications.loadSupportedClients''
        notifications_load_supported_clients_input ''1''
     (policy_input [UserKind] [CapSelf] ResSelf)"

definition checkins_open :: contract where
  "checkins_open = interactive ''checkins.open'' checkins_open_input ''1''
     ((policy_input [UserKind, ServiceKind] [CapMember] ResWorkspace)\<lparr>pi_resource_field := Some
        ''workspaceId'', pi_service_rule := Some ''auto-checkin''\<rparr>)"

definition checkins_test_auto :: contract where
  "checkins_test_auto = interactive ''checkins.testAuto'' checkins_test_auto_input ''1''
     ((policy_input [UserKind] [CapManage] ResWorkspace)\<lparr>pi_resource_field := Some
        ''workspaceId''\<rparr>)"

definition checkins_respond :: contract where
  "checkins_respond = interactive ''checkins.respond'' checkins_respond_input ''1''
     ((policy_input [UserKind] [CapParticipant] ResMessage)\<lparr>pi_resource_field := Some
        ''messageId''\<rparr>)"

definition room_orders_create :: contract where
  "room_orders_create = interactive ''roomOrders.create'' room_orders_create_input ''1''
     ((policy_input [UserKind] [CapMember] ResWorkspace)\<lparr>pi_resource_field := Some
        ''workspaceId''\<rparr>)"

definition room_orders_navigate :: contract where
  "room_orders_navigate = interactive ''roomOrders.navigate'' room_orders_navigate_input ''2''
     ((policy_input [UserKind] [CapMonitor] ResMessage)\<lparr>pi_resource_field := Some ''messageId''\<rparr>)"

definition room_orders_send :: contract where
  "room_orders_send = interactive ''roomOrders.send'' room_orders_send_input ''2''
     ((policy_input [UserKind] [CapMonitor] ResMessage)\<lparr>pi_resource_field := Some ''messageId''\<rparr>)"

definition room_orders_pin_tentative :: contract where
  "room_orders_pin_tentative = interactive ''roomOrders.pinTentative'' room_orders_pin_tentative_input ''2''
     ((policy_input [UserKind] [CapMonitor] ResMessage)\<lparr>pi_resource_field := Some ''messageId''\<rparr>)"

definition slots_deliver_list :: contract where
  "slots_deliver_list = interactive ''slots.deliverList'' slots_deliver_list_input ''1''
     ((policy_input [UserKind] [CapMember] ResWorkspace)\<lparr>pi_resource_field := Some
        ''workspaceId''\<rparr>)"

definition slots_publish_button :: contract where
  "slots_publish_button = interactive ''slots.publishButton'' slots_publish_button_input ''1''
     ((policy_input [UserKind] [CapMonitor] ResWorkspace)\<lparr>pi_resource_field := Some
        ''workspaceId''\<rparr>)"

definition slots_open :: contract where
  "slots_open = interactive ''slots.open'' slots_open_input ''2''
     ((policy_input [UserKind] [CapMember] ResMessage)\<lparr>pi_resource_field := Some ''messageId''\<rparr>)"

definition members_kick :: contract where
  "members_kick = interactive ''members.kick'' members_kick_input ''1''
     ((policy_input [UserKind, ServiceKind] [CapMonitor] ResWorkspace)\<lparr>pi_resource_field := Some
        ''workspaceId'', pi_service_rule := Some ''auto-role-cleanup''\<rparr>)"

definition preferences_deliver_status :: contract where
  "preferences_deliver_status = interactive ''preferences.deliverStatus'' preferences_deliver_status_input ''1''
     (policy_input [UserKind] [CapSelf] ResSelf)"

definition preferences_update_and_deliver :: contract where
     "preferences_update_and_deliver = interactive ''preferences.updateAndDeliver''
        preferences_update_and_deliver_input ''1''
     (policy_input [UserKind] [CapSelf] ResSelf)"

definition workspaces_deliver_config :: contract where
  "workspaces_deliver_config = interactive ''workspaces.deliverConfig'' workspaces_deliver_config_input ''1''
     ((policy_input [UserKind] [CapManage] ResWorkspace)\<lparr>pi_resource_field := Some
        ''workspaceId''\<rparr>)"

definition workspaces_update_config_and_deliver :: contract where
     "workspaces_update_config_and_deliver = interactive ''workspaces.updateConfigAndDeliver''
        workspaces_update_config_and_deliver_input ''1''
     ((policy_input [UserKind] [CapManage] ResWorkspace)\<lparr>pi_resource_field := Some
        ''workspaceId''\<rparr>)"

definition workspaces_set_monitor_role_and_deliver :: contract where
     "workspaces_set_monitor_role_and_deliver = interactive ''workspaces.setMonitorRoleAndDeliver''
        workspaces_set_monitor_role_and_deliver_input ''1''
     ((policy_input [UserKind] [CapManage] ResWorkspace)\<lparr>pi_resource_field := Some
        ''workspaceId''\<rparr>)"

definition workspaces_deliver_welcome :: contract where
  "workspaces_deliver_welcome = autonomous ''workspaces.deliverWelcome'' workspaces_deliver_welcome_input ''1''
     ((policy_input [ServiceKind] [CapServiceAllowed] ResWorkspace)\<lparr>pi_resource_field := Some
        ''workspaceId'', pi_service_rule := Some ''sheet-bot.gateway''\<rparr>)"

definition workspaces_feature_flags_set_and_deliver :: contract where
     "workspaces_feature_flags_set_and_deliver = interactive ''workspaces.featureFlags.setAndDeliver''
        workspaces_feature_flags_set_and_deliver_input ''1''
     ((policy_input [UserKind, ServiceKind] [CapManage] ResWorkspace)\<lparr>pi_resource_field := Some
        ''workspaceId'', pi_service_rule := Some ''sheet-bot.gateway''\<rparr>)"

definition conversations_deliver_config :: contract where
     "conversations_deliver_config = interactive ''conversations.deliverConfig''
        conversations_deliver_config_input ''1''
     ((policy_input [UserKind] [CapManage] ResWorkspace)\<lparr>pi_resource_field := Some
        ''workspaceId''\<rparr>)"

definition conversations_update_config_and_deliver :: contract where
     "conversations_update_config_and_deliver = interactive ''conversations.updateConfigAndDeliver''
        conversations_update_config_and_deliver_input ''1''
     ((policy_input [UserKind] [CapManage] ResWorkspace)\<lparr>pi_resource_field := Some
        ''workspaceId''\<rparr>)"

definition conversations_set_lockdown :: contract where
  "conversations_set_lockdown = interactive ''conversations.setLockdown'' conversations_set_lockdown_input ''1''
     ((policy_input [UserKind] [CapManage] ResWorkspace)\<lparr>pi_resource_field := Some
        ''workspaceId''\<rparr>)"

definition teams_deliver_list :: contract where
  "teams_deliver_list = interactive ''teams.deliverList'' teams_deliver_list_input ''2''
     ((policy_input [UserKind] [] ResWorkspace)\<lparr>pi_resource_field := Some ''workspaceId'',
        pi_target_user_field := Some ''targetUserId'', pi_user_rule := Some
        TargetUserOrMonitorOrOwner\<rparr>)"

definition schedules_deliver_user_schedule :: contract where
     "schedules_deliver_user_schedule = interactive ''schedules.deliverUserSchedule''
        schedules_deliver_user_schedule_input ''2''
     ((policy_input [UserKind] [] ResWorkspace)\<lparr>pi_resource_field := Some ''workspaceId'',
        pi_target_user_field := Some ''targetUserId'', pi_user_rule := Some
        TargetUserOrMonitorOrOwner\<rparr>)"

definition screenshots_capture_and_deliver :: contract where
     "screenshots_capture_and_deliver = interactive ''screenshots.captureAndDeliver''
        screenshots_capture_and_deliver_input ''2''
     ((policy_input [UserKind] [CapMonitor] ResWorkspace)\<lparr>pi_resource_field := Some
        ''workspaceId''\<rparr>)"

definition services_deliver_status :: contract where
  "services_deliver_status = interactive ''services.deliverStatus'' services_deliver_status_input ''1''
     (policy_input [UserKind] [CapApplicationOwner] ResSystem)"

definition team_submissions_process :: contract where
  "team_submissions_process = autonomous ''teamSubmissions.process'' team_submissions_process_input ''1''
     ((policy_input [ServiceKind] [CapServiceAllowed] ResSubmission)\<lparr>pi_resource_field := Some
        ''sourceMessage'', pi_service_rule := Some ''sheet-bot.gateway''\<rparr>)"

definition team_submissions_decide :: contract where
  "team_submissions_decide = interactive ''teamSubmissions.decide'' team_submissions_decide_input ''1''
     ((policy_input [UserKind] [CapParticipant] ResSubmission)\<lparr>pi_resource_field := Some
        ''sourceMessage''\<rparr>)"

definition announcements_deliver_update :: contract where
     "announcements_deliver_update = autonomous ''announcements.deliverUpdate''
        announcements_deliver_update_input ''1''
     ((policy_input [ServiceKind] [CapServiceAllowed] ResWorkspace)\<lparr>pi_resource_field := Some
        ''workspaceId'', pi_service_rule := Some ''sheet-bot.gateway''\<rparr>)"

definition calculations_recalculate_sheet :: contract where
     "calculations_recalculate_sheet = calculation ''calculations.recalculateSheet''
        calculations_recalculate_sheet_input ''1''
     ((policy_input [ServiceKind] [CapServiceAllowed] ResSpreadsheet)\<lparr>pi_resource_field := Some
        ''spreadsheetId'', pi_service_rule := Some ''apps-script.installation''\<rparr>)"

definition sheet_workflow_contract_catalog :: "contract list" where
  "sheet_workflow_contract_catalog =
     [discord_load_profile, discord_load_workspace_channels, discord_load_workspace_roles,
      authorization_load_workspace_capabilities, schedules_load_workspace,
      notifications_load_supported_clients, checkins_open, checkins_test_auto, checkins_respond,
      room_orders_create, room_orders_navigate, room_orders_send, room_orders_pin_tentative,
      slots_deliver_list, slots_publish_button, slots_open, members_kick,
      preferences_deliver_status, preferences_update_and_deliver, workspaces_deliver_config,
      workspaces_update_config_and_deliver, workspaces_set_monitor_role_and_deliver,
      workspaces_deliver_welcome, workspaces_feature_flags_set_and_deliver,
      conversations_deliver_config, conversations_update_config_and_deliver,
      conversations_set_lockdown, teams_deliver_list, schedules_deliver_user_schedule,
      screenshots_capture_and_deliver, services_deliver_status, team_submissions_process,
      team_submissions_decide, announcements_deliver_update, calculations_recalculate_sheet]"

end
