(* ===== verification/Authorization.thy ===== *)
theory Authorization
  imports ContractCatalog MessageRefs WorkflowFailures CalculationRange MessageCheckin MessageTeamSubmission WorkspaceConfig UserConfig
    "HOL-Library.Word"
begin

text \<open>
  Who may start which workflow (\<open>sheet-workflows/src/workflows/readOnly/authorization.ts\<close>). What the
  bot's cache and the store answer during one authorization are functions of the question; lookups the
  code makes concurrently fail with the error of the first one listed. Logging is left out.
\<close>

unbundle bit_operations_syntax

subsection \<open>Configuration and answers\<close>

datatype authorization_error = NotAuthorized | BotLookupFailed bot_error | StoreLookupFailed string

record auth_config =
  cf_client_id :: string
  cf_gateway_service_id :: string
  cf_gateway_oauth_client_id :: string
  cf_cleanup_service_id :: string
  cf_cleanup_oauth_client_id :: string
  cf_auto_checkin_identity :: "(string \<times> string) option"
  cf_date_ok :: "string \<Rightarrow> bool"

record auth_answers =
  an_application_owner :: "bot_error + string"
  an_application_in_time :: bool
  an_member_roles :: "string \<Rightarrow> string \<Rightarrow> bot_error + string list"
  an_roles :: "string \<Rightarrow> bot_error + (string \<times> string) list"
  an_workspace_owner :: "string \<Rightarrow> bot_error + string"
  an_monitor_roles :: "string \<Rightarrow> string + monitor_role_row list"
  an_slot :: "message_key \<Rightarrow> string + slot_row option"
  an_checkin :: "message_key \<Rightarrow> string + checkin_row option"
  an_checkin_members :: "message_key \<Rightarrow> string + member_row list"
  an_room_order :: "message_key \<Rightarrow> string + room_order_row option"
  an_submission :: "submission_key \<Rightarrow> string + submission_row option"

text \<open>Answers read from the tables, when no query fails.\<close>

definition answers_from_tables ::
    "workspace_db \<Rightarrow> slot_row list \<Rightarrow> checkin_db \<Rightarrow> room_order_db \<Rightarrow> submission_db \<Rightarrow> auth_answers \<Rightarrow> auth_answers" where
  "answers_from_tables workspaces slots checkin_tables room_tables submissions A =
     A\<lparr>an_monitor_roles := \<lambda>w. Inr (get_workspace_monitor_roles w workspaces),
       an_slot := \<lambda>k. Inr (get_message_slot_data k slots),
       an_checkin := \<lambda>k. Inr (get_message_checkin_data k checkin_tables),
       an_checkin_members := \<lambda>k. Inr (get_message_checkin_members k checkin_tables),
       an_room_order := \<lambda>k. Inr (find_active_message_room_order k room_tables),
       an_submission := \<lambda>k. Inr (get_message_team_submission k submissions)\<rparr>"

type_synonym 'a authorized = "authorization_error + 'a"

definition and_then :: "'a authorized \<Rightarrow> ('a \<Rightarrow> 'b authorized) \<Rightarrow> 'b authorized" where
  "and_then r f = (case r of Inl e \<Rightarrow> Inl e | Inr a \<Rightarrow> f a)"

definition filter_or_fail :: "('a \<Rightarrow> bool) \<Rightarrow> 'a authorized \<Rightarrow> 'a authorized" where
  "filter_or_fail p r = and_then r (\<lambda>a. if p a then Inr a else Inl NotAuthorized)"

definition as_void :: "'a authorized \<Rightarrow> unit authorized" where
  "as_void r = and_then r (\<lambda>_. Inr ())"

definition ask_bot :: "bot_error + 'a \<Rightarrow> 'a authorized" where
  "ask_bot r = map_sum BotLookupFailed (\<lambda>a. a) r"

definition ask_store :: "string + 'a \<Rightarrow> 'a authorized" where
  "ask_store r = map_sum StoreLookupFailed (\<lambda>a. a) r"

definition principal_kind_of :: "effective_principal \<Rightarrow> principal_kind" where
  "principal_kind_of p = (case p of UserPrincipal _ _ \<Rightarrow> UserKind | ServicePrincipal _ _ \<Rightarrow> ServiceKind)"

definition field_or :: "string option \<Rightarrow> string \<Rightarrow> string" where
  "field_or field default_field = (case field of None \<Rightarrow> default_field | Some f \<Rightarrow> f)"

definition discord_key :: "auth_config \<Rightarrow> string \<Rightarrow> message_key" where
  "discord_key C m = \<lparr>mk_client_platform = ''discord'', mk_client_id = cf_client_id C, mk_message_id = m\<rparr>"

subsection \<open>Capabilities in a workspace\<close>

record capability_snapshot =
  cs_member :: bool
  cs_monitor :: bool
  cs_manage :: bool
  cs_participant :: bool
  cs_app_owner :: bool

definition no_workspace_capabilities :: capability_snapshot where
  "no_workspace_capabilities = \<lparr>cs_member = False, cs_monitor = False, cs_manage = False,
     cs_participant = False, cs_app_owner = False\<rparr>"

text \<open>\<open>BigInt\<close> of a text: decimal with an optional sign, or a prefix and hexadecimal, octal or binary digits.\<close>

definition radix_value :: "nat \<Rightarrow> string \<Rightarrow> int option" where
  "radix_value base s =
     (let digit = (\<lambda>c. let n = of_char c :: nat in
            if 48 \<le> n \<and> n \<le> 57 then n - 48 else if 97 \<le> n \<and> n \<le> 102 then n - 87
            else if 65 \<le> n \<and> n \<le> 70 then n - 55 else 16) in
      if s \<noteq> [] \<and> list_all (\<lambda>c. digit c < base) s
      then Some (foldl (\<lambda>v c. v * int base + int (digit c)) 0 s) else None)"

definition big_int :: "string \<Rightarrow> int option" where
  "big_int raw =
     (let s = js_trim raw; prefix = take 2 s; body = drop 2 s in
      if s = [] then Some 0
      else if prefix = ''0x'' \<or> prefix = ''0X'' then radix_value 16 body
      else if prefix = ''0o'' \<or> prefix = ''0O'' then radix_value 8 body
      else if prefix = ''0b'' \<or> prefix = ''0B'' then radix_value 2 body
      else if hd s = CHR ''-'' then map_option uminus (radix_value 10 (tl s))
      else if hd s = CHR ''+'' then radix_value 10 (tl s)
      else radix_value 10 s)"

definition has_manage_workspace :: "string \<Rightarrow> bool" where
  "has_manage_workspace permissions =
     (case big_int permissions of None \<Rightarrow> False | Some v \<Rightarrow> v \<ge> 0 \<and> v AND 32 = 32)"

definition workspace_capabilities ::
    "auth_answers \<Rightarrow> effective_principal \<Rightarrow> string \<Rightarrow> capability_snapshot authorized" where
  "workspace_capabilities A p w =
     (case p of
        ServicePrincipal _ _ \<Rightarrow> Inr no_workspace_capabilities
      | UserPrincipal _ None \<Rightarrow> Inr no_workspace_capabilities
      | UserPrincipal _ (Some account) \<Rightarrow>
          and_then (ask_bot (an_application_owner A)) (\<lambda>owner.
          and_then (case an_member_roles A w account of
              Inl BotResourceNotFound \<Rightarrow> Inr None
            | other \<Rightarrow> map_sum BotLookupFailed Some other) (\<lambda>member.
          case member of
            None \<Rightarrow> Inr (no_workspace_capabilities\<lparr>cs_app_owner := owner = account\<rparr>)
          | Some role_ids \<Rightarrow>
              and_then (ask_bot (an_roles A w)) (\<lambda>roles.
              and_then (ask_bot (an_workspace_owner A w)) (\<lambda>workspace_owner.
              and_then (ask_store (an_monitor_roles A w)) (\<lambda>monitor_roles.
              Inr \<lparr>cs_member = True,
                   cs_monitor = list_ex (\<lambda>i. i \<in> set (map mr_role_id monitor_roles)) role_ids,
                   cs_manage = (workspace_owner = account \<or>
                     list_ex (\<lambda>(i, permissions). i \<in> set role_ids \<and> has_manage_workspace permissions) roles),
                   cs_participant = False, cs_app_owner = (owner = account)\<rparr>))))))"

fun has_capability :: "capability_snapshot \<Rightarrow> capability \<Rightarrow> bool" where
  "has_capability cs CapMember = cs_member cs"
| "has_capability cs CapMonitor = cs_monitor cs"
| "has_capability cs CapManage = cs_manage cs"
| "has_capability cs CapParticipant = cs_participant cs"
| "has_capability cs CapApplicationOwner = cs_app_owner cs"
| "has_capability cs CapSelf = False"
| "has_capability cs CapServiceAllowed = False"

definition has_required_capabilities :: "capability list \<Rightarrow> capability_snapshot \<Rightarrow> bool" where
  "has_required_capabilities required cs = list_all (has_capability cs) required"

subsection \<open>Policies\<close>

definition has_same_policy_values :: "'a list \<Rightarrow> 'a list \<Rightarrow> bool" where
  "has_same_policy_values actual expected =
     (if length (js_set actual) \<noteq> length actual then False
      else if length (js_set expected) \<noteq> length expected then False
      else if length (js_set actual) \<noteq> length (js_set expected) then False
      else list_all (\<lambda>v. v \<in> set actual) (js_set expected))"

definition policy_matches :: "policy_input \<Rightarrow> policy_input \<Rightarrow> bool" where
  "policy_matches pol expected \<longleftrightarrow>
     has_same_policy_values (pi_principal_kinds pol) (pi_principal_kinds expected) \<and>
     has_same_policy_values (pi_required_capabilities pol) (pi_required_capabilities expected) \<and>
     pi_resource pol = pi_resource expected \<and> pi_resource_field pol = pi_resource_field expected \<and>
     pi_service_rule pol = pi_service_rule expected \<and> pi_user_rule pol = pi_user_rule expected"

definition contract_policy :: "contract \<Rightarrow> policy_input" where
  "contract_policy c = po_input (ct_policy c)"

definition is_forbidden_empty_workspace_policy :: "string \<Rightarrow> policy_input \<Rightarrow> bool" where
  "is_forbidden_empty_workspace_policy identity pol \<longleftrightarrow>
     pi_resource pol = ResWorkspace \<and> pi_required_capabilities pol = [] \<and> pi_user_rule pol = None \<and>
     identity \<noteq> ct_identity authorization_load_workspace_capabilities"

definition authorize_target_user ::
    "auth_answers \<Rightarrow> effective_principal \<Rightarrow> json \<Rightarrow> policy_input \<Rightarrow> string \<Rightarrow> unit authorized" where
  "authorize_target_user A p inp pol w =
     (case string_field_from_input inp (field_or (pi_target_user_field pol) ''targetUserId'') of
        None \<Rightarrow> Inl NotAuthorized
      | Some target \<Rightarrow>
          (case p of
             ServicePrincipal _ _ \<Rightarrow> Inl NotAuthorized
           | UserPrincipal _ account \<Rightarrow>
               if account = Some target then Inr ()
               else as_void (filter_or_fail (\<lambda>cs. cs_app_owner cs \<or> cs_monitor cs)
                      (workspace_capabilities A p w))))"

definition starts_with :: "string \<Rightarrow> string \<Rightarrow> bool" where
  "starts_with prefix s \<longleftrightarrow> take (length prefix) s = prefix"

definition installation_spreadsheet_id_from_client_id :: "string \<Rightarrow> string \<Rightarrow> string option" where
  "installation_spreadsheet_id_from_client_id client_id rule =
     (let prefix = rule @ '':'' in
      if \<not> starts_with prefix client_id then None
      else let spreadsheet_id = drop (length prefix) client_id in
           if length spreadsheet_id > 0 then Some spreadsheet_id else None)"

definition authorize_apps_script_installation ::
    "auth_config \<Rightarrow> effective_principal \<Rightarrow> json \<Rightarrow> policy_input \<Rightarrow> unit authorized" where
  "authorize_apps_script_installation C p inp pol =
     (if CapServiceAllowed \<notin> set (pi_required_capabilities pol) \<or>
         ServiceKind \<notin> set (pi_principal_kinds pol) \<or>
         pi_service_rule pol \<noteq> Some ''apps-script.installation''
      then Inl NotAuthorized
      else if \<not> decodes (cf_date_ok C) True (ct_input calculations_recalculate_sheet) inp then Inl NotAuthorized
      else case (string_field_from_input inp ''spreadsheetId'', string_field_from_input inp ''sheetRef'') of
        (Some spreadsheet_id, Some sheet_ref) \<Rightarrow>
          (if canonical_calculation_sheet_ref sheet_ref = None then Inl NotAuthorized
           else
             let rule = ''apps-script.installation''; expected = rule @ '':'' @ spreadsheet_id in
             case p of
               UserPrincipal _ _ \<Rightarrow> Inl NotAuthorized
             | ServicePrincipal service_id client_id \<Rightarrow>
                 if installation_spreadsheet_id_from_client_id client_id rule = Some spreadsheet_id \<and>
                    service_id = expected \<and> client_id = expected
                 then Inr () else Inl NotAuthorized)
      | _ \<Rightarrow> Inl NotAuthorized)"

subsection \<open>Stored messages\<close>

record slot_open_context =
  so_key :: message_key
  so_workspace_id :: string
  so_conversation_id :: string
  so_day :: rat

record checkin_respond_context =
  cr_key :: message_key
  cr_workspace_id :: string
  cr_conversation_id :: string
  cr_member_id :: string
  cr_running_conversation_id :: string
  cr_role_id :: "string option"
  cr_initial_message :: "json list"

record navigate_context =
  nv_key :: message_key
  nv_workspace_id :: string
  nv_conversation_id :: string
  nv_previous_fills :: "string list"
  nv_fills :: "string list"
  nv_hour :: int
  nv_rank :: int
  nv_tentative :: bool
  nv_monitor :: "string option"

record send_context = navigate_context +
  sx_send_claim_id :: "string option"
  sx_sent_message_id :: "string option"
  sx_sent_conversation_id :: "string option"
  sx_update_claim_id :: "string option"
  sx_pin_claim_id :: "string option"
  sx_pinned_at :: "int option"

text \<open>The account of a user the policy admits and the message the input names.\<close>

definition user_with_message :: "policy_input \<Rightarrow> effective_principal \<Rightarrow> json \<Rightarrow> (string \<times> string) option" where
  "user_with_message pol p inp =
     (case (p, string_field_from_input inp (field_or (pi_resource_field pol) ''messageId'')) of
        (UserPrincipal _ (Some account), Some m) \<Rightarrow>
          if principal_kind_of p \<in> set (pi_principal_kinds pol) then Some (account, m) else None
      | _ \<Rightarrow> None)"

definition authorize_slot_open ::
    "auth_config \<Rightarrow> auth_answers \<Rightarrow> effective_principal \<Rightarrow> json \<Rightarrow> slot_open_context authorized" where
  "authorize_slot_open C A p inp =
     (case user_with_message (contract_policy slots_open) p inp of
        None \<Rightarrow> Inl NotAuthorized
      | Some (_, m) \<Rightarrow>
          and_then (ask_store (an_slot A (discord_key C m))) (\<lambda>slot. case slot of
            None \<Rightarrow> Inl NotAuthorized
          | Some r \<Rightarrow>
              if sl_key r \<noteq> discord_key C m then Inl NotAuthorized
              else case (sl_workspace_id r, sl_conversation_id r) of
                (Some w, Some conversation) \<Rightarrow>
                  if \<not> identifier_text w then Inl NotAuthorized
                  else and_then (filter_or_fail cs_member (workspace_capabilities A p w)) (\<lambda>_.
                    Inr \<lparr>so_key = discord_key C m, so_workspace_id = w, so_conversation_id = conversation,
                      so_day = sl_day r\<rparr>)
              | _ \<Rightarrow> Inl NotAuthorized))"

definition is_canonical_checkin_participant :: "message_key \<Rightarrow> string \<Rightarrow> member_row \<Rightarrow> bool" where
  "is_canonical_checkin_participant k i r \<longleftrightarrow>
     me_key r = k \<and> me_member_id r = i \<and> au_deleted_at (me_audit r) = None"

text \<open>The initial message is kept as it is stored.\<close>

definition authorized_checkin_context ::
    "message_key \<Rightarrow> string \<Rightarrow> checkin_row \<Rightarrow> member_row list \<Rightarrow> checkin_respond_context option" where
  "authorized_checkin_context k i row ms =
     (case (ci_workspace_id row, ci_conversation_id row, ci_created_by_user_id row,
            List.find (\<lambda>r. me_member_id r = i) ms) of
        (Some w, Some conversation, Some _, Some participant) \<Rightarrow>
          if identifier_text w \<and> list_all is_text_part (ci_initial_message row) \<and> ci_key row = k \<and>
             length (ci_running_conversation_id row) > 0 \<and> is_canonical_checkin_participant k i participant
          then Some \<lparr>cr_key = k, cr_workspace_id = w, cr_conversation_id = conversation, cr_member_id = i,
            cr_running_conversation_id = ci_running_conversation_id row, cr_role_id = ci_role_id row,
            cr_initial_message = ci_initial_message row\<rparr>
          else None
      | _ \<Rightarrow> None)"

definition authorize_checkin_respond ::
    "auth_config \<Rightarrow> auth_answers \<Rightarrow> effective_principal \<Rightarrow> json \<Rightarrow> checkin_respond_context authorized" where
  "authorize_checkin_respond C A p inp =
     (case user_with_message (contract_policy checkins_respond) p inp of
        None \<Rightarrow> Inl NotAuthorized
      | Some (account, m) \<Rightarrow>
          and_then (ask_store (an_checkin A (discord_key C m))) (\<lambda>checkin.
          and_then (ask_store (an_checkin_members A (discord_key C m))) (\<lambda>ms.
          case Option.bind checkin (\<lambda>row. authorized_checkin_context (discord_key C m) account row ms) of
            None \<Rightarrow> Inl NotAuthorized
          | Some x \<Rightarrow> and_then (filter_or_fail cs_member (workspace_capabilities A p (cr_workspace_id x)))
              (\<lambda>_. Inr x))))"

definition authorize_room_order ::
    "auth_config \<Rightarrow> auth_answers \<Rightarrow> effective_principal \<Rightarrow> json \<Rightarrow> policy_input \<Rightarrow>
     (message_key \<times> string \<times> string \<times> room_order_row) authorized" where
  "authorize_room_order C A p inp pol =
     (case user_with_message pol p inp of
        None \<Rightarrow> Inl NotAuthorized
      | Some (_, m) \<Rightarrow>
          and_then (ask_store (an_room_order A (discord_key C m))) (\<lambda>order. case order of
            None \<Rightarrow> Inl NotAuthorized
          | Some r \<Rightarrow>
              if ro_key r \<noteq> discord_key C m \<or> au_deleted_at (ro_audit r) \<noteq> None then Inl NotAuthorized
              else case (ro_workspace_id r, ro_conversation_id r) of
                (Some w, Some conversation) \<Rightarrow>
                  if \<not> identifier_text w then Inl NotAuthorized
                  else and_then (filter_or_fail (has_required_capabilities (pi_required_capabilities pol))
                      (workspace_capabilities A p w)) (\<lambda>_. Inr (discord_key C m, w, conversation, r))
              | _ \<Rightarrow> Inl NotAuthorized))"

definition navigate_context_of :: "message_key \<times> string \<times> string \<times> room_order_row \<Rightarrow> navigate_context" where
  "navigate_context_of = (\<lambda>(k, w, conversation, r).
     \<lparr>nv_key = k, nv_workspace_id = w, nv_conversation_id = conversation,
      nv_previous_fills = ro_previous_fills r, nv_fills = ro_fills r, nv_hour = ro_hour r, nv_rank = ro_rank r,
      nv_tentative = ro_tentative r, nv_monitor = ro_monitor r\<rparr>)"

definition send_context_of :: "message_key \<times> string \<times> string \<times> room_order_row \<Rightarrow> send_context" where
  "send_context_of = (\<lambda>(k, w, conversation, r).
     \<lparr>nv_key = k, nv_workspace_id = w, nv_conversation_id = conversation,
      nv_previous_fills = ro_previous_fills r, nv_fills = ro_fills r, nv_hour = ro_hour r, nv_rank = ro_rank r,
      nv_tentative = ro_tentative r, nv_monitor = ro_monitor r, sx_send_claim_id = ro_send_claim_id r,
      sx_sent_message_id = ro_sent_message_id r, sx_sent_conversation_id = ro_sent_conversation_id r,
      sx_update_claim_id = ro_update_claim_id r, sx_pin_claim_id = ro_pin_claim_id r,
      sx_pinned_at = ro_pinned_at r\<rparr>)"

definition authorize_room_orders_navigate ::
    "auth_config \<Rightarrow> auth_answers \<Rightarrow> effective_principal \<Rightarrow> json \<Rightarrow> navigate_context authorized" where
  "authorize_room_orders_navigate C A p inp =
     and_then (authorize_room_order C A p inp (contract_policy room_orders_navigate))
       (\<lambda>x. Inr (navigate_context_of x))"

definition authorize_room_order_send_shape ::
    "auth_config \<Rightarrow> auth_answers \<Rightarrow> effective_principal \<Rightarrow> json \<Rightarrow> policy_input \<Rightarrow> send_context authorized" where
  "authorize_room_order_send_shape C A p inp pol =
     and_then (filter_or_fail
         (\<lambda>(_, _, _, r). (ro_sent_message_id r = None) = (ro_sent_conversation_id r = None))
         (authorize_room_order C A p inp pol))
       (\<lambda>x. Inr (send_context_of x))"

definition authorize_room_orders_send ::
    "auth_config \<Rightarrow> auth_answers \<Rightarrow> effective_principal \<Rightarrow> json \<Rightarrow> send_context authorized" where
  "authorize_room_orders_send C A p inp =
     authorize_room_order_send_shape C A p inp (contract_policy room_orders_send)"

definition authorize_room_orders_pin_tentative ::
    "auth_config \<Rightarrow> auth_answers \<Rightarrow> effective_principal \<Rightarrow> json \<Rightarrow> send_context authorized" where
  "authorize_room_orders_pin_tentative C A p inp =
     authorize_room_order_send_shape C A p inp (contract_policy room_orders_pin_tentative)"

subsection \<open>Services and the owner of the application\<close>

definition authorize_checkins_open ::
    "auth_config \<Rightarrow> auth_answers \<Rightarrow> effective_principal \<Rightarrow> json \<Rightarrow> unit authorized" where
  "authorize_checkins_open C A p inp =
     (let pol = contract_policy checkins_open;
          field = string_field_from_input inp;
          has_name = (case field ''conversationName'' of None \<Rightarrow> False | Some s \<Rightarrow> js_trim s \<noteq> []);
          has_reference = (field ''responseReference'' \<noteq> None) in
      if principal_kind_of p \<notin> set (pi_principal_kinds pol) then Inl NotAuthorized
      else if \<not> decodes (cf_date_ok C) True (ct_input checkins_open) inp then Inl NotAuthorized
      else case field ''workspaceId'' of
        None \<Rightarrow> Inl NotAuthorized
      | Some w \<Rightarrow>
          (case p of
             UserPrincipal _ account \<Rightarrow>
               if has_reference \<and> (field ''conversationId'' \<noteq> None) \<noteq> has_name \<and> account \<noteq> None
               then as_void (filter_or_fail (has_required_capabilities (pi_required_capabilities pol))
                      (workspace_capabilities A p w))
               else Inl NotAuthorized
           | ServicePrincipal service_id client_id \<Rightarrow>
               if has_name \<and> field ''conversationId'' = None \<and> \<not> has_reference \<and> field ''template'' = None \<and>
                  pi_service_rule pol = Some ''auto-checkin''
               then (case cf_auto_checkin_identity C of
                       None \<Rightarrow> Inl NotAuthorized
                     | Some (auto_service_id, auto_client_id) \<Rightarrow>
                         if service_id = auto_service_id \<and> client_id = auto_client_id then Inr ()
                         else Inl NotAuthorized)
               else Inl NotAuthorized))"

definition authorize_application_owner :: "auth_answers \<Rightarrow> effective_principal \<Rightarrow> unit authorized" where
  "authorize_application_owner A p =
     (case p of
        UserPrincipal _ (Some account) \<Rightarrow>
          if \<not> an_application_in_time A
          then Inl (BotLookupFailed (BotDependencyUnavailable ''Bot application cache lookup timed out''))
          else (case an_application_owner A of
                  Inl BotResourceNotFound \<Rightarrow> Inl NotAuthorized
                | Inl e \<Rightarrow> Inl (BotLookupFailed e)
                | Inr owner \<Rightarrow> if owner = account then Inr () else Inl NotAuthorized)
      | _ \<Rightarrow> Inl NotAuthorized)"

definition is_configured_gateway_service :: "auth_config \<Rightarrow> string \<Rightarrow> string \<Rightarrow> bool" where
  "is_configured_gateway_service C service_id client_id \<longleftrightarrow>
     service_id = cf_gateway_service_id C \<and> client_id = cf_gateway_oauth_client_id C"

definition authorize_configured_sheet_bot_gateway ::
    "auth_config \<Rightarrow> effective_principal \<Rightarrow> json \<Rightarrow> policy_input \<Rightarrow> unit authorized" where
  "authorize_configured_sheet_bot_gateway C p inp pol =
     (if pi_service_rule pol \<noteq> Some ''sheet-bot.gateway'' \<or>
         string_field_from_input inp (field_or (pi_resource_field pol) ''workspaceId'') = None
      then Inl NotAuthorized
      else case p of
        UserPrincipal _ _ \<Rightarrow> Inl NotAuthorized
      | ServicePrincipal s c \<Rightarrow> if is_configured_gateway_service C s c then Inr () else Inl NotAuthorized)"

definition is_configured_message_ref :: "auth_config \<Rightarrow> message_ref \<Rightarrow> bool" where
  "is_configured_message_ref C m \<longleftrightarrow>
     mr_platform m = ''discord'' \<and> mr_client_id m = cf_client_id C \<and> length (message_ref.mr_workspace_id m) > 0 \<and>
     length (mr_conversation_id m) > 0 \<and> length (mr_message_id m) > 0"

definition input_message_ref :: "json \<Rightarrow> string \<Rightarrow> message_ref option" where
  "input_message_ref inp field = Option.bind (member_of field inp) message_ref_of_json"

definition authorize_team_submissions_process ::
    "auth_config \<Rightarrow> effective_principal \<Rightarrow> json \<Rightarrow> unit authorized" where
  "authorize_team_submissions_process C p inp =
     (if \<not> decodes (cf_date_ok C) True (ct_input team_submissions_process) inp then Inl NotAuthorized
      else case input_message_ref inp ''sourceMessage'' of
        None \<Rightarrow> Inl NotAuthorized
      | Some source \<Rightarrow>
          if \<not> is_configured_message_ref C source then Inl NotAuthorized
          else if \<not> policy_matches (contract_policy team_submissions_process)
            ((policy_input [ServiceKind] [CapServiceAllowed] ResSubmission)
               \<lparr>pi_resource_field := Some ''sourceMessage'', pi_service_rule := Some ''sheet-bot.gateway''\<rparr>)
          then Inl NotAuthorized
          else (case p of
             UserPrincipal _ _ \<Rightarrow> Inl NotAuthorized
           | ServicePrincipal s c \<Rightarrow>
               if is_configured_gateway_service C s c then Inr () else Inl NotAuthorized))"

definition is_decidable_submission_for :: "submission_row \<Rightarrow> auth_config \<Rightarrow> string \<Rightarrow> string \<Rightarrow> bool" where
  "is_decidable_submission_for r C account confirmation \<longleftrightarrow>
     ts_client_platform r = ''discord'' \<and> ts_client_id r = cf_client_id C \<and>
     au_deleted_at (ts_audit r) = None \<and> ts_discord_author_id r = account \<and>
     ts_confirmation_message_id r = Some confirmation"

definition submission_key_of_ref :: "message_ref \<Rightarrow> submission_key" where
  "submission_key_of_ref m = \<lparr>sm_workspace_id = message_ref.mr_workspace_id m,
     sm_conversation_id = mr_conversation_id m, sm_message_id = mr_message_id m\<rparr>"

definition authorize_team_submissions_decide ::
    "auth_config \<Rightarrow> auth_answers \<Rightarrow> effective_principal \<Rightarrow> json \<Rightarrow> unit authorized" where
  "authorize_team_submissions_decide C A p inp =
     (if \<not> decodes (cf_date_ok C) True (ct_input team_submissions_decide) inp then Inl NotAuthorized
      else case (input_message_ref inp ''sourceMessage'', input_message_ref inp ''confirmationMessage'') of
        (Some source, Some confirmation) \<Rightarrow>
          if \<not> policy_matches (contract_policy team_submissions_decide)
               ((policy_input [UserKind] [CapParticipant] ResSubmission)\<lparr>pi_resource_field := Some ''sourceMessage''\<rparr>) \<or>
             \<not> is_configured_message_ref C source \<or> \<not> is_configured_message_ref C confirmation \<or>
             message_ref.mr_workspace_id confirmation \<noteq> message_ref.mr_workspace_id source \<or>
             mr_conversation_id confirmation \<noteq> mr_conversation_id source
          then Inl NotAuthorized
          else (case p of
             UserPrincipal _ (Some account) \<Rightarrow>
               and_then (ask_store (an_submission A (submission_key_of_ref source))) (\<lambda>submission.
               case submission of
                 None \<Rightarrow> Inl NotAuthorized
               | Some r \<Rightarrow>
                   if \<not> is_decidable_submission_for r C account (mr_message_id confirmation)
                   then Inl NotAuthorized
                   else as_void (filter_or_fail cs_member
                     (workspace_capabilities A p (message_ref.mr_workspace_id source))))
           | _ \<Rightarrow> Inl NotAuthorized)
      | _ \<Rightarrow> Inl NotAuthorized)"

definition authorize_sheet_bot_gateway ::
    "auth_config \<Rightarrow> effective_principal \<Rightarrow> json \<Rightarrow> policy_input \<Rightarrow> unit authorized" where
  "authorize_sheet_bot_gateway C p inp pol =
     (if CapServiceAllowed \<in> set (pi_required_capabilities pol)
      then authorize_configured_sheet_bot_gateway C p inp pol else Inl NotAuthorized)"

definition authorize_workspace_feature_flag ::
    "auth_config \<Rightarrow> auth_answers \<Rightarrow> effective_principal \<Rightarrow> json \<Rightarrow> policy_input \<Rightarrow> unit authorized" where
  "authorize_workspace_feature_flag C A p inp pol =
     (case string_field_from_input inp (field_or (pi_resource_field pol) ''workspaceId'') of
        None \<Rightarrow> Inl NotAuthorized
      | Some w \<Rightarrow>
          (case p of
             ServicePrincipal _ _ \<Rightarrow> authorize_configured_sheet_bot_gateway C p inp pol
           | UserPrincipal _ _ \<Rightarrow>
               as_void (filter_or_fail (has_required_capabilities (pi_required_capabilities pol))
                 (workspace_capabilities A p w))))"

definition authorize_member_kick ::
    "auth_config \<Rightarrow> auth_answers \<Rightarrow> effective_principal \<Rightarrow> json \<Rightarrow> policy_input \<Rightarrow> unit authorized" where
  "authorize_member_kick C A p inp pol =
     (case string_field_from_input inp (field_or (pi_resource_field pol) ''workspaceId'') of
        None \<Rightarrow> Inl NotAuthorized
      | Some w \<Rightarrow>
          if pi_service_rule pol \<noteq> Some ''auto-role-cleanup'' then Inl NotAuthorized
          else (case p of
             ServicePrincipal s c \<Rightarrow>
               if s = cf_cleanup_service_id C \<and> c = cf_cleanup_oauth_client_id C then Inr () else Inl NotAuthorized
           | UserPrincipal _ _ \<Rightarrow> as_void (filter_or_fail cs_monitor (workspace_capabilities A p w))))"

subsection \<open>The authorization of a contract\<close>

definition authorize_workspace ::
    "auth_answers \<Rightarrow> effective_principal \<Rightarrow> json \<Rightarrow> policy_input \<Rightarrow> unit authorized" where
  "authorize_workspace A p inp pol =
     (case string_field_from_input inp (field_or (pi_resource_field pol) ''workspaceId'') of
        None \<Rightarrow> Inl NotAuthorized
      | Some w \<Rightarrow>
          (case pi_user_rule pol of
             Some TargetUserOrMonitorOrOwner \<Rightarrow> authorize_target_user A p inp pol w
           | None \<Rightarrow> as_void (filter_or_fail (has_required_capabilities (pi_required_capabilities pol))
               (workspace_capabilities A p w))))"

definition authorize ::
    "auth_config \<Rightarrow> auth_answers \<Rightarrow> contract \<Rightarrow> effective_principal \<Rightarrow> json \<Rightarrow> unit authorized" where
  "authorize C A c p inp =
     (let pol = contract_policy c; i = ct_identity c in
      if principal_kind_of p \<notin> set (pi_principal_kinds pol) then Inl NotAuthorized
      else if i = ct_identity slots_open then as_void (authorize_slot_open C A p inp)
      else if i = ct_identity checkins_respond then as_void (authorize_checkin_respond C A p inp)
      else if i = ct_identity checkins_open then authorize_checkins_open C A p inp
      else if i = ct_identity team_submissions_process then authorize_team_submissions_process C p inp
      else if i = ct_identity team_submissions_decide then authorize_team_submissions_decide C A p inp
      else if i = ct_identity room_orders_navigate then as_void (authorize_room_orders_navigate C A p inp)
      else if i = ct_identity room_orders_send then as_void (authorize_room_orders_send C A p inp)
      else if i = ct_identity room_orders_pin_tentative then as_void (authorize_room_orders_pin_tentative C A p inp)
      else if i = ct_identity services_deliver_status then authorize_application_owner A p
      else if i = ct_identity members_kick then authorize_member_kick C A p inp pol
      else if i = ct_identity workspaces_deliver_welcome then authorize_sheet_bot_gateway C p inp pol
      else if i = ct_identity announcements_deliver_update then authorize_sheet_bot_gateway C p inp pol
      else if i = ct_identity workspaces_feature_flags_set_and_deliver
      then authorize_workspace_feature_flag C A p inp pol
      else if i = ct_identity calculations_recalculate_sheet then authorize_apps_script_installation C p inp pol
      else if is_forbidden_empty_workspace_policy i pol then Inl NotAuthorized
      else if pi_resource pol = ResSelf
      then (case p of UserPrincipal _ (Some _) \<Rightarrow> Inr () | _ \<Rightarrow> Inl NotAuthorized)
      else if pi_resource pol \<noteq> ResWorkspace then Inl NotAuthorized
      else authorize_workspace A p inp pol)"

text \<open>
  The authorization of a registered workflow (\<open>shared/registration.ts\<close>): the owner the run is filed under
  is the principal's own, and a lookup that fails is reported as a transport that may be retried.
\<close>

datatype enqueue_refusal = RefusedUnauthorized | RefusedUnavailable

definition owner_matches_principal :: "string \<Rightarrow> effective_principal \<Rightarrow> bool" where
  "owner_matches_principal owner p \<longleftrightarrow> owner = owner_key_for_effective_principal p"

definition registration_authorize ::
    "auth_config \<Rightarrow> auth_answers \<Rightarrow> contract \<Rightarrow> string \<Rightarrow> effective_principal \<Rightarrow> json \<Rightarrow> enqueue_refusal option" where
  "registration_authorize C A c owner p inp =
     (if \<not> owner_matches_principal owner p then Some RefusedUnauthorized
      else case authorize C A c p inp of
        Inr _ \<Rightarrow> None
      | Inl NotAuthorized \<Rightarrow> Some RefusedUnauthorized
      | Inl _ \<Rightarrow> Some RefusedUnavailable)"

end
