(* ===== verification/AuthorizationGuarantees.thy ===== *)
theory AuthorizationGuarantees
  imports Authorization
begin

text \<open>
  What a successful authorization means: for every contract of the catalog the declared policy holds of
  the principal, with each capability read as a fact about the answers of the bot and of the store.
\<close>

subsection \<open>Lookups\<close>

named_theorems authorized_simps \<open>when a composed authorization succeeds\<close>

lemma and_then_Inr [authorized_simps]: "and_then r f = Inr b \<longleftrightarrow> (\<exists>a. r = Inr a \<and> f a = Inr b)"
  by (cases r) (simp_all add: and_then_def)

lemma filter_or_fail_Inr [authorized_simps]: "filter_or_fail p r = Inr a \<longleftrightarrow> r = Inr a \<and> p a"
  by (cases r) (auto simp: filter_or_fail_def and_then_def)

lemma as_void_Inr [authorized_simps]: "as_void r = Inr u \<longleftrightarrow> (\<exists>a. r = Inr a)"
  by (cases r) (simp_all add: as_void_def and_then_def)

lemma ask_bot_Inr [authorized_simps]: "ask_bot r = Inr a \<longleftrightarrow> r = Inr a"
  by (cases r) (simp_all add: ask_bot_def)

lemma ask_store_Inr [authorized_simps]: "ask_store r = Inr a \<longleftrightarrow> r = Inr a"
  by (cases r) (simp_all add: ask_store_def)

lemma case_option_Inr [authorized_simps]:
  "(case v of None \<Rightarrow> Inl e | Some y \<Rightarrow> f y) = Inr x \<longleftrightarrow> (\<exists>y. v = Some y \<and> f y = Inr x)"
  by (cases v) simp_all

lemma if_Inr [authorized_simps]: "(if b then Inl e else r) = Inr x \<longleftrightarrow> \<not> b \<and> r = Inr x"
  "(if b then r else Inl e) = Inr x \<longleftrightarrow> b \<and> r = Inr x"
  by auto

subsection \<open>The meaning of the capabilities\<close>

definition in_workspace :: "auth_answers \<Rightarrow> string \<Rightarrow> string \<Rightarrow> bool" where
  "in_workspace A w a \<longleftrightarrow> (\<exists>roles. an_member_roles A w a = Inr roles)"

definition monitors_workspace :: "auth_answers \<Rightarrow> string \<Rightarrow> string \<Rightarrow> bool" where
  "monitors_workspace A w a \<longleftrightarrow>
     (\<exists>roles rows r. an_member_roles A w a = Inr roles \<and> an_monitor_roles A w = Inr rows \<and> r \<in> set rows \<and>
       mr_role_id r \<in> set roles)"

definition manages_workspace :: "auth_answers \<Rightarrow> string \<Rightarrow> string \<Rightarrow> bool" where
  "manages_workspace A w a \<longleftrightarrow>
     (\<exists>roles. an_member_roles A w a = Inr roles \<and>
       (an_workspace_owner A w = Inr a \<or>
        (\<exists>rs i permissions. an_roles A w = Inr rs \<and> (i, permissions) \<in> set rs \<and> i \<in> set roles \<and>
          has_manage_workspace permissions)))"

definition owns_application :: "auth_answers \<Rightarrow> string \<Rightarrow> bool" where
  "owns_application A a \<longleftrightarrow> an_application_owner A = Inr a"

text \<open>Participation is what the store says: a member of the check-in, the author of the submission.\<close>

definition participates :: "auth_config \<Rightarrow> auth_answers \<Rightarrow> contract \<Rightarrow> json \<Rightarrow> string \<Rightarrow> bool" where
  "participates C A c inp a \<longleftrightarrow>
     (if c = checkins_respond
      then \<exists>m ms r. string_field_from_input inp ''messageId'' = Some m \<and>
        an_checkin_members A (discord_key C m) = Inr ms \<and> r \<in> set ms \<and>
        is_canonical_checkin_participant (discord_key C m) a r
      else if c = team_submissions_decide
      then \<exists>source confirmation r. input_message_ref inp ''sourceMessage'' = Some source \<and>
        input_message_ref inp ''confirmationMessage'' = Some confirmation \<and>
        an_submission A (submission_key_of_ref source) = Inr (Some r) \<and>
        is_decidable_submission_for r C a (mr_message_id confirmation)
      else False)"

text \<open>The workspace of the policy's resource; that of a message is the one its row is stored with.\<close>

definition stored_in_workspace :: "auth_config \<Rightarrow> auth_answers \<Rightarrow> contract \<Rightarrow> string \<Rightarrow> string \<Rightarrow> bool" where
  "stored_in_workspace C A c m w \<longleftrightarrow>
     (if c = slots_open
      then \<exists>r. an_slot A (discord_key C m) = Inr (Some r) \<and> sl_key r = discord_key C m \<and> sl_workspace_id r = Some w
      else if c = checkins_respond
      then \<exists>r. an_checkin A (discord_key C m) = Inr (Some r) \<and> ci_key r = discord_key C m \<and> ci_workspace_id r = Some w
      else \<exists>r. an_room_order A (discord_key C m) = Inr (Some r) \<and> ro_key r = discord_key C m \<and>
        au_deleted_at (ro_audit r) = None \<and> ro_workspace_id r = Some w)"

definition resource_in_workspace :: "auth_config \<Rightarrow> auth_answers \<Rightarrow> contract \<Rightarrow> json \<Rightarrow> string \<Rightarrow> bool" where
  "resource_in_workspace C A c inp w \<longleftrightarrow>
     (case pi_resource (contract_policy c) of
        ResSelf \<Rightarrow> True
      | ResSystem \<Rightarrow> True
      | ResWorkspace \<Rightarrow> string_field_from_input inp ''workspaceId'' = Some w
      | ResMessage \<Rightarrow> (\<exists>m. string_field_from_input inp ''messageId'' = Some m \<and> stored_in_workspace C A c m w)
      | ResSubmission \<Rightarrow> (\<exists>source. input_message_ref inp ''sourceMessage'' = Some source \<and>
          mr_platform source = ''discord'' \<and> mr_client_id source = cf_client_id C \<and>
          message_ref.mr_workspace_id source = w)
      | ResSpreadsheet \<Rightarrow> False)"

fun holds_capability ::
    "auth_config \<Rightarrow> auth_answers \<Rightarrow> contract \<Rightarrow> json \<Rightarrow> string \<Rightarrow> string \<Rightarrow> capability \<Rightarrow> bool" where
  "holds_capability C A c inp w a CapSelf = True"
| "holds_capability C A c inp w a CapMember = in_workspace A w a"
| "holds_capability C A c inp w a CapMonitor = monitors_workspace A w a"
| "holds_capability C A c inp w a CapManage = manages_workspace A w a"
| "holds_capability C A c inp w a CapParticipant = (participates C A c inp a \<and> in_workspace A w a)"
| "holds_capability C A c inp w a CapApplicationOwner = owns_application A a"
| "holds_capability C A c inp w a CapServiceAllowed = False"

text \<open>What the policy of a contract asks of the user with an account.\<close>

definition user_entitled :: "auth_config \<Rightarrow> auth_answers \<Rightarrow> contract \<Rightarrow> json \<Rightarrow> string \<Rightarrow> bool" where
  "user_entitled C A c inp a \<longleftrightarrow>
     (\<exists>w. resource_in_workspace C A c inp w \<and>
       (case pi_user_rule (contract_policy c) of
          None \<Rightarrow> list_all (holds_capability C A c inp w a) (pi_required_capabilities (contract_policy c))
        | Some TargetUserOrMonitorOrOwner \<Rightarrow>
            (\<exists>target. string_field_from_input inp ''targetUserId'' = Some target \<and>
              (target = a \<or> owns_application A a \<or> monitors_workspace A w a))))"

text \<open>The service a rule names.\<close>

definition service_entitled :: "auth_config \<Rightarrow> contract \<Rightarrow> json \<Rightarrow> string \<Rightarrow> string \<Rightarrow> bool" where
  "service_entitled C c inp s k \<longleftrightarrow>
     (case pi_service_rule (contract_policy c) of
        None \<Rightarrow> False
      | Some rule \<Rightarrow>
          if rule = ''sheet-bot.gateway'' then s = cf_gateway_service_id C \<and> k = cf_gateway_oauth_client_id C
          else if rule = ''auto-role-cleanup'' then s = cf_cleanup_service_id C \<and> k = cf_cleanup_oauth_client_id C
          else if rule = ''auto-checkin'' then cf_auto_checkin_identity C = Some (s, k)
          else rule = ''apps-script.installation'' \<and> s = k \<and>
            (\<exists>spreadsheet. string_field_from_input inp ''spreadsheetId'' = Some spreadsheet \<and>
              s = rule @ '':'' @ spreadsheet))"

definition principal_entitled :: "auth_config \<Rightarrow> auth_answers \<Rightarrow> contract \<Rightarrow> effective_principal \<Rightarrow> json \<Rightarrow> bool" where
  "principal_entitled C A c p inp \<longleftrightarrow>
     principal_kind_of p \<in> set (pi_principal_kinds (contract_policy c)) \<and>
     (case p of
        ServicePrincipal s k \<Rightarrow> service_entitled C c inp s k
      | UserPrincipal _ None \<Rightarrow> c = authorization_load_workspace_capabilities
      | UserPrincipal _ (Some a) \<Rightarrow> user_entitled C A c inp a)"

subsection \<open>The snapshot of capabilities\<close>

lemma snapshot_of_account:
  assumes "workspace_capabilities A p w = Inr cs"
    and "cs_member cs \<or> cs_monitor cs \<or> cs_manage cs \<or> cs_app_owner cs"
  obtains u a where "p = UserPrincipal u (Some a)"
  using assms by (cases p; cases "(case p of UserPrincipal _ acc \<Rightarrow> acc | _ \<Rightarrow> None)")
    (auto simp: workspace_capabilities_def no_workspace_capabilities_def)

lemma snapshot_facts:
  assumes "workspace_capabilities A (UserPrincipal u (Some a)) w = Inr cs"
  shows "(cs_member cs \<longrightarrow> in_workspace A w a) \<and> (cs_monitor cs \<longrightarrow> monitors_workspace A w a) \<and>
    (cs_manage cs \<longrightarrow> manages_workspace A w a) \<and> (cs_app_owner cs \<longrightarrow> owns_application A a) \<and> \<not> cs_participant cs"
proof -
  obtain owner where owner: "an_application_owner A = Inr owner"
    using assms by (auto simp: workspace_capabilities_def authorized_simps)
  show ?thesis
  proof (cases "an_member_roles A w a")
    case (Inl e)
    then have "cs = no_workspace_capabilities\<lparr>cs_app_owner := owner = a\<rparr>"
      using assms owner by (cases e) (simp_all add: workspace_capabilities_def and_then_def ask_bot_def)
    then show ?thesis
      using owner by (simp add: no_workspace_capabilities_def owns_application_def)
  next
    case (Inr roles)
    obtain rs workspace_owner rows where answers: "an_roles A w = Inr rs" "an_workspace_owner A w = Inr workspace_owner"
        "an_monitor_roles A w = Inr rows"
      using assms owner Inr by (auto simp: workspace_capabilities_def authorized_simps)
    then have "cs = \<lparr>cs_member = True, cs_monitor = list_ex (\<lambda>i. i \<in> set (map mr_role_id rows)) roles,
        cs_manage = (workspace_owner = a \<or> list_ex (\<lambda>(i, permissions). i \<in> set roles \<and> has_manage_workspace permissions) rs),
        cs_participant = False, cs_app_owner = (owner = a)\<rparr>"
      using assms owner Inr by (simp add: workspace_capabilities_def and_then_def ask_bot_def ask_store_def)
    then show ?thesis
      using owner answers Inr
      by (auto simp: in_workspace_def monitors_workspace_def manages_workspace_def owns_application_def list_ex_iff)
  qed
qed

lemma required_capabilities_held:
  assumes "workspace_capabilities A (UserPrincipal u (Some a)) w = Inr cs"
    and "has_required_capabilities required cs"
  shows "list_all (holds_capability C A c inp w a) required"
proof -
  have "holds_capability C A c inp w a cap" if "has_capability cs cap" for cap
    using that snapshot_facts [OF assms(1)] by (cases cap) auto
  then show ?thesis
    using assms(2) by (auto simp: has_required_capabilities_def list_all_iff)
qed

text \<open>When every lookup of the snapshot answers, it says exactly what is the case.\<close>

definition answering :: "auth_answers \<Rightarrow> bool" where
  "answering A \<longleftrightarrow> (\<exists>owner. an_application_owner A = Inr owner) \<and> an_application_in_time A \<and>
     (\<forall>w a. an_member_roles A w a = Inl BotResourceNotFound \<or> (\<exists>roles. an_member_roles A w a = Inr roles)) \<and>
     (\<forall>w. (\<exists>rs. an_roles A w = Inr rs) \<and> (\<exists>owner. an_workspace_owner A w = Inr owner) \<and>
       (\<exists>rows. an_monitor_roles A w = Inr rows))"

lemma snapshot_exact:
  assumes "answering A"
  shows "\<exists>cs. workspace_capabilities A (UserPrincipal u (Some a)) w = Inr cs \<and>
    cs_member cs = in_workspace A w a \<and> cs_monitor cs = monitors_workspace A w a \<and>
    cs_manage cs = manages_workspace A w a \<and> cs_app_owner cs = owns_application A a \<and> \<not> cs_participant cs"
proof -
  obtain owner rs workspace_owner rows where answers: "an_application_owner A = Inr owner" "an_roles A w = Inr rs"
      "an_workspace_owner A w = Inr workspace_owner" "an_monitor_roles A w = Inr rows"
    using assms unfolding answering_def by meson
  consider "an_member_roles A w a = Inl BotResourceNotFound" | roles where "an_member_roles A w a = Inr roles"
    using assms unfolding answering_def by meson
  then show ?thesis
  proof cases
    case 1
    then show ?thesis
      using answers by (auto simp: workspace_capabilities_def and_then_def ask_bot_def no_workspace_capabilities_def
          in_workspace_def monitors_workspace_def manages_workspace_def owns_application_def)
  next
    case 2
    then show ?thesis
      using answers by (auto simp: workspace_capabilities_def and_then_def ask_bot_def ask_store_def
          in_workspace_def monitors_workspace_def manages_workspace_def owns_application_def list_ex_iff)
  qed
qed

subsection \<open>The catalog\<close>

lemma catalog_identities: "distinct (map ct_identity sheet_workflow_contract_catalog)"
  by code_simp

lemma catalog_identity:
  assumes "c \<in> set sheet_workflow_contract_catalog" and "d \<in> set sheet_workflow_contract_catalog"
  shows "ct_identity c = ct_identity d \<longleftrightarrow> c = d"
  using catalog_identities assms by (auto simp: distinct_map dest: inj_onD)

text \<open>The contracts with an authorization of their own.\<close>

definition special_contracts :: "contract list" where
  "special_contracts = [slots_open, checkins_respond, checkins_open, team_submissions_process, team_submissions_decide,
     room_orders_navigate, room_orders_send, room_orders_pin_tentative, services_deliver_status, members_kick,
     workspaces_deliver_welcome, announcements_deliver_update, workspaces_feature_flags_set_and_deliver,
     calculations_recalculate_sheet]"

definition self_policy :: "policy_input \<Rightarrow> bool" where
  "self_policy pol \<longleftrightarrow> pi_resource pol = ResSelf \<and> pi_principal_kinds pol = [UserKind] \<and>
     pi_required_capabilities pol = [CapSelf] \<and> pi_user_rule pol = None"

definition workspace_policy :: "string \<Rightarrow> policy_input \<Rightarrow> bool" where
  "workspace_policy identity pol \<longleftrightarrow> pi_resource pol = ResWorkspace \<and> pi_principal_kinds pol = [UserKind] \<and>
     pi_resource_field pol = Some ''workspaceId'' \<and>
     list_all (\<lambda>cap. cap \<in> {CapMember, CapMonitor, CapManage}) (pi_required_capabilities pol) \<and>
     (if pi_user_rule pol = None
      then pi_required_capabilities pol \<noteq> [] \<or> identity = ct_identity authorization_load_workspace_capabilities
      else pi_target_user_field pol = Some ''targetUserId'')"

lemma catalog_policies:
  "list_all (\<lambda>c. ct_identity c \<in> set (map ct_identity special_contracts) \<or>
     self_policy (contract_policy c) \<or> workspace_policy (ct_identity c) (contract_policy c)) sheet_workflow_contract_catalog"
  by code_simp

lemma special_in_catalog: "set special_contracts \<subseteq> set sheet_workflow_contract_catalog"
  by (auto simp: special_contracts_def sheet_workflow_contract_catalog_def)

lemma catalog_cases:
  assumes "c \<in> set sheet_workflow_contract_catalog"
  obtains (special) "c \<in> set special_contracts"
  | (self) "c \<notin> set special_contracts" and "self_policy (contract_policy c)"
  | (workspace) "c \<notin> set special_contracts" and "workspace_policy (ct_identity c) (contract_policy c)"
proof -
  have "c \<in> set special_contracts" if "ct_identity c \<in> set (map ct_identity special_contracts)"
    using that catalog_identity [OF assms] special_in_catalog by auto
  moreover have "ct_identity c \<in> set (map ct_identity special_contracts) \<or>
      self_policy (contract_policy c) \<or> workspace_policy (ct_identity c) (contract_policy c)"
    using catalog_policies assms by (simp only: list_all_iff)
  ultimately show thesis
    using that by blast
qed

lemma not_special_identity:
  assumes "c \<in> set sheet_workflow_contract_catalog" and "c \<notin> set special_contracts" and "d \<in> set special_contracts"
  shows "ct_identity c \<noteq> ct_identity d"
  using assms catalog_identity special_in_catalog by blast

lemmas contract_shapes = data_acquisition_def interactive_def autonomous_def calculation_def define_contract_def
  authorization_policy_def policy_input_def contract_policy_def

text \<open>How a contract without an authorization of its own is authorized.\<close>

lemma authorize_plain:
  assumes "c \<in> set sheet_workflow_contract_catalog" and "c \<notin> set special_contracts"
  shows "authorize C A c p inp =
    (if principal_kind_of p \<notin> set (pi_principal_kinds (contract_policy c)) then Inl NotAuthorized
     else if is_forbidden_empty_workspace_policy (ct_identity c) (contract_policy c) then Inl NotAuthorized
     else if pi_resource (contract_policy c) = ResSelf
     then (case p of UserPrincipal _ (Some _) \<Rightarrow> Inr () | _ \<Rightarrow> Inl NotAuthorized)
     else if pi_resource (contract_policy c) \<noteq> ResWorkspace then Inl NotAuthorized
     else authorize_workspace A p inp (contract_policy c))"
proof -
  have "list_all (\<lambda>d. ct_identity c \<noteq> ct_identity d) special_contracts"
    using not_special_identity [OF assms] by (simp add: list_all_iff)
  then show ?thesis
    by (simp add: authorize_def Let_def special_contracts_def)
qed

definition admitted :: "contract \<Rightarrow> effective_principal \<Rightarrow> unit authorized \<Rightarrow> unit authorized" where
  "admitted c p r =
     (if principal_kind_of p \<notin> set (pi_principal_kinds (contract_policy c)) then Inl NotAuthorized else r)"

lemma admitted_Inr [authorized_simps]:
  "admitted c p r = Inr u \<longleftrightarrow> principal_kind_of p \<in> set (pi_principal_kinds (contract_policy c)) \<and> r = Inr u"
  by (simp add: admitted_def)

lemma special_identities:
  "ct_identity slots_open = ''slots.open''"
  "ct_identity checkins_respond = ''checkins.respond''"
  "ct_identity checkins_open = ''checkins.open''"
  "ct_identity team_submissions_process = ''teamSubmissions.process''"
  "ct_identity team_submissions_decide = ''teamSubmissions.decide''"
  "ct_identity room_orders_navigate = ''roomOrders.navigate''"
  "ct_identity room_orders_send = ''roomOrders.send''"
  "ct_identity room_orders_pin_tentative = ''roomOrders.pinTentative''"
  "ct_identity services_deliver_status = ''services.deliverStatus''"
  "ct_identity members_kick = ''members.kick''"
  "ct_identity workspaces_deliver_welcome = ''workspaces.deliverWelcome''"
  "ct_identity announcements_deliver_update = ''announcements.deliverUpdate''"
  "ct_identity workspaces_feature_flags_set_and_deliver = ''workspaces.featureFlags.setAndDeliver''"
  "ct_identity calculations_recalculate_sheet = ''calculations.recalculateSheet''"
  by (simp_all add: contract_shapes slots_open_def checkins_respond_def checkins_open_def team_submissions_process_def team_submissions_decide_def room_orders_navigate_def room_orders_send_def room_orders_pin_tentative_def services_deliver_status_def members_kick_def workspaces_deliver_welcome_def announcements_deliver_update_def workspaces_feature_flags_set_and_deliver_def calculations_recalculate_sheet_def)

lemma authorize_special:
  "authorize C A slots_open p inp = admitted slots_open p (as_void (authorize_slot_open C A p inp))"
  "authorize C A checkins_respond p inp = admitted checkins_respond p (as_void (authorize_checkin_respond C A p inp))"
  "authorize C A checkins_open p inp = admitted checkins_open p (authorize_checkins_open C A p inp)"
  "authorize C A team_submissions_process p inp =
     admitted team_submissions_process p (authorize_team_submissions_process C p inp)"
  "authorize C A team_submissions_decide p inp =
     admitted team_submissions_decide p (authorize_team_submissions_decide C A p inp)"
  "authorize C A room_orders_navigate p inp =
     admitted room_orders_navigate p (as_void (authorize_room_orders_navigate C A p inp))"
  "authorize C A room_orders_send p inp =
     admitted room_orders_send p (as_void (authorize_room_orders_send C A p inp))"
  "authorize C A room_orders_pin_tentative p inp =
     admitted room_orders_pin_tentative p (as_void (authorize_room_orders_pin_tentative C A p inp))"
  "authorize C A services_deliver_status p inp = admitted services_deliver_status p (authorize_application_owner A p)"
  "authorize C A members_kick p inp =
     admitted members_kick p (authorize_member_kick C A p inp (contract_policy members_kick))"
  "authorize C A workspaces_deliver_welcome p inp = admitted workspaces_deliver_welcome p
     (authorize_sheet_bot_gateway C p inp (contract_policy workspaces_deliver_welcome))"
  "authorize C A announcements_deliver_update p inp = admitted announcements_deliver_update p
     (authorize_sheet_bot_gateway C p inp (contract_policy announcements_deliver_update))"
  "authorize C A workspaces_feature_flags_set_and_deliver p inp = admitted workspaces_feature_flags_set_and_deliver p
     (authorize_workspace_feature_flag C A p inp (contract_policy workspaces_feature_flags_set_and_deliver))"
  "authorize C A calculations_recalculate_sheet p inp = admitted calculations_recalculate_sheet p
     (authorize_apps_script_installation C p inp (contract_policy calculations_recalculate_sheet))"
  by (simp_all add: special_identities authorize_def Let_def admitted_def)

text \<open>The policies of the contracts with an authorization of their own.\<close>

lemma special_policies:
  "contract_policy slots_open = (policy_input [UserKind] [CapMember] ResMessage)
     \<lparr>pi_resource_field := Some ''messageId''\<rparr>"
  "contract_policy checkins_respond = (policy_input [UserKind] [CapParticipant] ResMessage)
     \<lparr>pi_resource_field := Some ''messageId''\<rparr>"
  "contract_policy checkins_open = (policy_input [UserKind, ServiceKind] [CapMember] ResWorkspace)
     \<lparr>pi_resource_field := Some ''workspaceId'', pi_service_rule := Some ''auto-checkin''\<rparr>"
  "contract_policy team_submissions_process = (policy_input [ServiceKind] [CapServiceAllowed] ResSubmission)
     \<lparr>pi_resource_field := Some ''sourceMessage'', pi_service_rule := Some ''sheet-bot.gateway''\<rparr>"
  "contract_policy team_submissions_decide = (policy_input [UserKind] [CapParticipant] ResSubmission)
     \<lparr>pi_resource_field := Some ''sourceMessage''\<rparr>"
  "contract_policy room_orders_navigate = (policy_input [UserKind] [CapMonitor] ResMessage)
     \<lparr>pi_resource_field := Some ''messageId''\<rparr>"
  "contract_policy room_orders_send = (policy_input [UserKind] [CapMonitor] ResMessage)
     \<lparr>pi_resource_field := Some ''messageId''\<rparr>"
  "contract_policy room_orders_pin_tentative = (policy_input [UserKind] [CapMonitor] ResMessage)
     \<lparr>pi_resource_field := Some ''messageId''\<rparr>"
  "contract_policy services_deliver_status = policy_input [UserKind] [CapApplicationOwner] ResSystem"
  "contract_policy members_kick = (policy_input [UserKind, ServiceKind] [CapMonitor] ResWorkspace)
     \<lparr>pi_resource_field := Some ''workspaceId'', pi_service_rule := Some ''auto-role-cleanup''\<rparr>"
  "contract_policy workspaces_deliver_welcome = (policy_input [ServiceKind] [CapServiceAllowed] ResWorkspace)
     \<lparr>pi_resource_field := Some ''workspaceId'', pi_service_rule := Some ''sheet-bot.gateway''\<rparr>"
  "contract_policy announcements_deliver_update = (policy_input [ServiceKind] [CapServiceAllowed] ResWorkspace)
     \<lparr>pi_resource_field := Some ''workspaceId'', pi_service_rule := Some ''sheet-bot.gateway''\<rparr>"
  "contract_policy workspaces_feature_flags_set_and_deliver = (policy_input [UserKind, ServiceKind] [CapManage] ResWorkspace)
     \<lparr>pi_resource_field := Some ''workspaceId'', pi_service_rule := Some ''sheet-bot.gateway''\<rparr>"
  "contract_policy calculations_recalculate_sheet = (policy_input [ServiceKind] [CapServiceAllowed] ResSpreadsheet)
     \<lparr>pi_resource_field := Some ''spreadsheetId'', pi_service_rule := Some ''apps-script.installation''\<rparr>"
  by (simp_all add: contract_shapes slots_open_def checkins_respond_def checkins_open_def team_submissions_process_def
      team_submissions_decide_def room_orders_navigate_def room_orders_send_def room_orders_pin_tentative_def
      services_deliver_status_def members_kick_def workspaces_deliver_welcome_def announcements_deliver_update_def
      workspaces_feature_flags_set_and_deliver_def calculations_recalculate_sheet_def)

subsection \<open>Authorized principals are entitled\<close>

lemma special_contracts_differ:
  "checkins_respond \<noteq> slots_open" "room_orders_navigate \<noteq> slots_open" "room_orders_send \<noteq> slots_open"
  "room_orders_pin_tentative \<noteq> slots_open" "room_orders_navigate \<noteq> checkins_respond"
  "room_orders_send \<noteq> checkins_respond" "room_orders_pin_tentative \<noteq> checkins_respond"
  "team_submissions_decide \<noteq> checkins_respond"
  by (auto dest!: arg_cong [where f = ct_identity] simp: special_identities)

lemma user_with_message_Some:
  "user_with_message pol p inp = Some (a, m) \<longleftrightarrow>
     (\<exists>u. p = UserPrincipal u (Some a)) \<and> UserKind \<in> set (pi_principal_kinds pol) \<and>
     string_field_from_input inp (field_or (pi_resource_field pol) ''messageId'') = Some m"
  by (auto simp: user_with_message_def principal_kind_of_def split: effective_principal.splits option.splits if_splits)

lemma slot_open_authorized:
  assumes "authorize_slot_open C A p inp = Inr x"
  shows "\<exists>u a m r cs. p = UserPrincipal u (Some a) \<and> string_field_from_input inp ''messageId'' = Some m \<and>
    an_slot A (discord_key C m) = Inr (Some r) \<and> sl_key r = discord_key C m \<and>
    sl_workspace_id r = Some (so_workspace_id x) \<and>
    workspace_capabilities A p (so_workspace_id x) = Inr cs \<and> cs_member cs"
  using assms
  by (fastforce simp: authorize_slot_open_def special_policies policy_input_def field_or_def user_with_message_Some
      authorized_simps split_beta)

lemma find_in_set: "List.find P xs = Some r \<Longrightarrow> r \<in> set xs"
  by (induction xs) (auto split: if_splits)

lemma authorized_checkin_context_Some:
  assumes "authorized_checkin_context k i row ms = Some x"
  shows "ci_key row = k \<and> ci_workspace_id row = Some (cr_workspace_id x) \<and>
    (\<exists>r \<in> set ms. is_canonical_checkin_participant k i r)"
  using assms by (auto simp: authorized_checkin_context_def split: option.splits if_splits dest: find_in_set)

lemma checkin_respond_authorized:
  assumes "authorize_checkin_respond C A p inp = Inr x"
  shows "\<exists>u a m row ms cs. p = UserPrincipal u (Some a) \<and> string_field_from_input inp ''messageId'' = Some m \<and>
    an_checkin A (discord_key C m) = Inr (Some row) \<and> an_checkin_members A (discord_key C m) = Inr ms \<and>
    authorized_checkin_context (discord_key C m) a row ms = Some x \<and>
    workspace_capabilities A p (cr_workspace_id x) = Inr cs \<and> cs_member cs"
  using assms
  by (fastforce simp: authorize_checkin_respond_def special_policies policy_input_def field_or_def
      user_with_message_Some authorized_simps bind_eq_Some_conv)

lemma room_order_authorized:
  assumes "authorize_room_order C A p inp pol = Inr x" and "pi_resource_field pol = Some ''messageId''"
  shows "\<exists>u a m r w cs. p = UserPrincipal u (Some a) \<and> string_field_from_input inp ''messageId'' = Some m \<and>
    an_room_order A (discord_key C m) = Inr (Some r) \<and> ro_key r = discord_key C m \<and>
    au_deleted_at (ro_audit r) = None \<and> ro_workspace_id r = Some w \<and>
    workspace_capabilities A p w = Inr cs \<and> has_required_capabilities (pi_required_capabilities pol) cs"
  using assms
  by (fastforce simp: authorize_room_order_def field_or_def user_with_message_Some authorized_simps split_beta)

lemma entitled_member_of_message:
  assumes "c \<in> {slots_open, checkins_respond}"
    and "string_field_from_input inp ''messageId'' = Some m" and "stored_in_workspace C A c m w"
    and "in_workspace A w a" and "c = checkins_respond \<longrightarrow> participates C A c inp a"
  shows "user_entitled C A c inp a"
  using assms unfolding user_entitled_def
  by (intro exI [of _ w]) (auto simp: resource_in_workspace_def special_policies policy_input_def)

lemma entitled_monitor_of_room_order:
  assumes "c \<in> {room_orders_navigate, room_orders_send, room_orders_pin_tentative}"
    and "authorize_room_order C A p inp (contract_policy c) = Inr x"
  shows "principal_entitled C A c p inp"
proof -
  have pol: "contract_policy c = (policy_input [UserKind] [CapMonitor] ResMessage)\<lparr>pi_resource_field := Some ''messageId''\<rparr>"
    and c: "c \<noteq> slots_open" "c \<noteq> checkins_respond"
    using assms(1) special_contracts_differ by (auto simp: special_policies)
  obtain u a m r w cs where p: "p = UserPrincipal u (Some a)" and m: "string_field_from_input inp ''messageId'' = Some m"
    and stored: "stored_in_workspace C A c m w" and caps: "workspace_capabilities A p w = Inr cs" "cs_monitor cs"
    using room_order_authorized [OF assms(2)] c
    by (fastforce simp: pol policy_input_def stored_in_workspace_def has_required_capabilities_def)
  have "monitors_workspace A w a"
    using snapshot_facts caps p by blast
  then have "user_entitled C A c inp a"
    unfolding user_entitled_def using m stored
    by (intro exI [of _ w]) (auto simp: resource_in_workspace_def pol policy_input_def)
  then show ?thesis
    by (simp add: principal_entitled_def p pol policy_input_def principal_kind_of_def)
qed

lemma entitled_slot_open:
  assumes "authorize_slot_open C A p inp = Inr x"
  shows "principal_entitled C A slots_open p inp"
proof -
  obtain u a m r cs where p: "p = UserPrincipal u (Some a)" and m: "string_field_from_input inp ''messageId'' = Some m"
    and "stored_in_workspace C A slots_open m (so_workspace_id x)"
    and "workspace_capabilities A p (so_workspace_id x) = Inr cs" "cs_member cs"
    using slot_open_authorized [OF assms] by (auto simp: stored_in_workspace_def)
  then have "user_entitled C A slots_open inp a"
    using snapshot_facts special_contracts_differ by (intro entitled_member_of_message) auto
  then show ?thesis
    by (simp add: principal_entitled_def p special_policies policy_input_def principal_kind_of_def)
qed

lemma entitled_checkin_respond:
  assumes "authorize_checkin_respond C A p inp = Inr x"
  shows "principal_entitled C A checkins_respond p inp"
proof -
  obtain u a m row ms cs where p: "p = UserPrincipal u (Some a)" and m: "string_field_from_input inp ''messageId'' = Some m"
    and row: "an_checkin A (discord_key C m) = Inr (Some row)" "an_checkin_members A (discord_key C m) = Inr ms"
    and x: "authorized_checkin_context (discord_key C m) a row ms = Some x"
    and caps: "workspace_capabilities A p (cr_workspace_id x) = Inr cs" "cs_member cs"
    using checkin_respond_authorized [OF assms] by blast
  have "stored_in_workspace C A checkins_respond m (cr_workspace_id x)" "participates C A checkins_respond inp a"
    using row m authorized_checkin_context_Some [OF x] special_contracts_differ
    by (auto simp: stored_in_workspace_def participates_def)
  moreover have "in_workspace A (cr_workspace_id x) a"
    using snapshot_facts caps p by blast
  ultimately have "user_entitled C A checkins_respond inp a"
    using m by (intro entitled_member_of_message) auto
  then show ?thesis
    by (simp add: principal_entitled_def p special_policies policy_input_def principal_kind_of_def)
qed

lemma entitled_in_workspace:
  assumes "pi_resource (contract_policy c) = ResWorkspace" and "pi_user_rule (contract_policy c) = None"
    and "string_field_from_input inp ''workspaceId'' = Some w"
    and "workspace_capabilities A (UserPrincipal u (Some a)) w = Inr cs"
    and "has_required_capabilities (pi_required_capabilities (contract_policy c)) cs"
  shows "user_entitled C A c inp a"
  using assms required_capabilities_held [OF assms(4,5)]
  by (auto simp: user_entitled_def resource_in_workspace_def)

lemma no_capability: "\<not> has_required_capabilities (cap # caps) no_workspace_capabilities"
  by (cases cap) (simp_all add: has_required_capabilities_def no_workspace_capabilities_def)

lemma account_of_capability:
  assumes "workspace_capabilities A (UserPrincipal u account) w = Inr cs" and "has_required_capabilities (cap # caps) cs"
  obtains a where "account = Some a"
  using assms no_capability [of cap caps] by (cases account) (auto simp: workspace_capabilities_def)

lemma entitled_checkins_open:
  assumes "authorize C A checkins_open p inp = Inr v"
  shows "principal_entitled C A checkins_open p inp"
proof (cases p)
  case (ServicePrincipal s k)
  then show ?thesis
    using assms
    by (auto simp: authorize_special authorized_simps authorize_checkins_open_def Let_def principal_entitled_def
        service_entitled_def special_policies policy_input_def split: option.splits)
next
  case (UserPrincipal u account)
  then obtain a w cs where "account = Some a" "string_field_from_input inp ''workspaceId'' = Some w"
      "workspace_capabilities A p w = Inr cs" "has_required_capabilities [CapMember] cs"
    using assms
    by (auto simp: authorize_special authorized_simps authorize_checkins_open_def Let_def special_policies policy_input_def)
  then have "user_entitled C A checkins_open inp a"
    using UserPrincipal by (intro entitled_in_workspace) (auto simp: special_policies policy_input_def)
  then show ?thesis
    by (simp add: principal_entitled_def UserPrincipal \<open>account = Some a\<close> special_policies policy_input_def
        principal_kind_of_def)
qed

lemma gateway_authorized:
  assumes "authorize_configured_sheet_bot_gateway C p inp pol = Inr v"
  shows "pi_service_rule pol = Some ''sheet-bot.gateway'' \<and>
    p = ServicePrincipal (cf_gateway_service_id C) (cf_gateway_oauth_client_id C)"
  using assms
  by (cases p) (simp_all add: authorize_configured_sheet_bot_gateway_def authorized_simps is_configured_gateway_service_def)

lemma process_authorized:
  assumes "authorize_team_submissions_process C p inp = Inr v"
  shows "p = ServicePrincipal (cf_gateway_service_id C) (cf_gateway_oauth_client_id C)"
  using assms
  by (cases p) (auto simp: authorize_team_submissions_process_def authorized_simps is_configured_gateway_service_def)

lemma entitled_gateway:
  assumes "c \<in> {team_submissions_process, workspaces_deliver_welcome, announcements_deliver_update}"
    and "authorize C A c p inp = Inr v"
  shows "principal_entitled C A c p inp"
proof -
  have "p = ServicePrincipal (cf_gateway_service_id C) (cf_gateway_oauth_client_id C)"
    using assms process_authorized gateway_authorized
    by (auto simp: authorize_special authorized_simps authorize_sheet_bot_gateway_def)
  then show ?thesis
    using assms(1)
    by (auto simp: principal_entitled_def service_entitled_def special_policies policy_input_def principal_kind_of_def)
qed

lemma apps_script_authorized:
  assumes "authorize_apps_script_installation C p inp pol = Inr v"
  shows "\<exists>spreadsheet s. p = ServicePrincipal s s \<and> string_field_from_input inp ''spreadsheetId'' = Some spreadsheet \<and>
    s = ''apps-script.installation:'' @ spreadsheet"
  using assms
  by (cases p) (auto simp: authorize_apps_script_installation_def Let_def authorized_simps split: option.splits if_splits)

lemma entitled_apps_script:
  assumes "authorize C A calculations_recalculate_sheet p inp = Inr v"
  shows "principal_entitled C A calculations_recalculate_sheet p inp"
proof -
  obtain spreadsheet s where p: "p = ServicePrincipal s s" and "string_field_from_input inp ''spreadsheetId'' = Some spreadsheet"
    and "s = ''apps-script.installation:'' @ spreadsheet"
    using assms apps_script_authorized unfolding authorize_special authorized_simps by blast
  then have "service_entitled C calculations_recalculate_sheet inp s s"
    by (simp add: service_entitled_def special_policies policy_input_def)
  then show ?thesis
    by (simp add: principal_entitled_def p special_policies policy_input_def principal_kind_of_def)
qed

lemma application_owner_authorized:
  assumes "authorize_application_owner A p = Inr v"
  shows "\<exists>u a. p = UserPrincipal u (Some a) \<and> owns_application A a"
proof (cases p)
  case (UserPrincipal u account)
  then show ?thesis
    using assms
    by (auto simp: authorize_application_owner_def owns_application_def split: option.splits if_splits sum.splits bot_error.splits)
qed (use assms in \<open>simp add: authorize_application_owner_def\<close>)

lemma entitled_application_owner:
  assumes "authorize C A services_deliver_status p inp = Inr v"
  shows "principal_entitled C A services_deliver_status p inp"
proof -
  obtain u a where "p = UserPrincipal u (Some a)" "owns_application A a"
    using assms application_owner_authorized unfolding authorize_special authorized_simps by blast
  then show ?thesis
    by (simp add: principal_entitled_def user_entitled_def resource_in_workspace_def special_policies policy_input_def
        principal_kind_of_def)
qed

lemma entitled_member_kick:
  assumes "authorize C A members_kick p inp = Inr v"
  shows "principal_entitled C A members_kick p inp"
proof (cases p)
  case (ServicePrincipal s k)
  then show ?thesis
    using assms
    by (auto simp: authorize_special authorized_simps authorize_member_kick_def principal_entitled_def
        service_entitled_def special_policies policy_input_def field_or_def)
next
  case (UserPrincipal u account)
  then obtain w cs where w: "string_field_from_input inp ''workspaceId'' = Some w"
      "workspace_capabilities A p w = Inr cs" "has_required_capabilities [CapMonitor] cs"
    using assms
    by (auto simp: authorize_special authorized_simps authorize_member_kick_def special_policies policy_input_def
        field_or_def has_required_capabilities_def)
  then obtain a where "account = Some a"
    using UserPrincipal account_of_capability by blast
  then have "user_entitled C A members_kick inp a"
    using UserPrincipal w by (intro entitled_in_workspace) (auto simp: special_policies policy_input_def)
  then show ?thesis
    by (simp add: principal_entitled_def UserPrincipal \<open>account = Some a\<close> special_policies policy_input_def
        principal_kind_of_def)
qed

lemma entitled_feature_flag:
  assumes "authorize C A workspaces_feature_flags_set_and_deliver p inp = Inr v"
  shows "principal_entitled C A workspaces_feature_flags_set_and_deliver p inp"
proof (cases p)
  case (ServicePrincipal s k)
  then show ?thesis
    using assms
    by (auto simp: authorize_special authorized_simps authorize_workspace_feature_flag_def
        authorize_configured_sheet_bot_gateway_def is_configured_gateway_service_def principal_entitled_def
        service_entitled_def special_policies policy_input_def field_or_def)
next
  case (UserPrincipal u account)
  then obtain w cs where w: "string_field_from_input inp ''workspaceId'' = Some w"
      "workspace_capabilities A p w = Inr cs" "has_required_capabilities [CapManage] cs"
    using assms
    by (auto simp: authorize_special authorized_simps authorize_workspace_feature_flag_def special_policies
        policy_input_def field_or_def)
  then obtain a where "account = Some a"
    using UserPrincipal account_of_capability by blast
  then have "user_entitled C A workspaces_feature_flags_set_and_deliver inp a"
    using UserPrincipal w by (intro entitled_in_workspace) (auto simp: special_policies policy_input_def)
  then show ?thesis
    by (simp add: principal_entitled_def UserPrincipal \<open>account = Some a\<close> special_policies policy_input_def
        principal_kind_of_def)
qed

lemma decide_authorized:
  assumes "authorize_team_submissions_decide C A p inp = Inr v"
  shows "\<exists>u a source confirmation r cs. p = UserPrincipal u (Some a) \<and>
    input_message_ref inp ''sourceMessage'' = Some source \<and>
    input_message_ref inp ''confirmationMessage'' = Some confirmation \<and> is_configured_message_ref C source \<and>
    an_submission A (submission_key_of_ref source) = Inr (Some r) \<and>
    is_decidable_submission_for r C a (mr_message_id confirmation) \<and>
    workspace_capabilities A p (message_ref.mr_workspace_id source) = Inr cs \<and> cs_member cs"
proof -
  obtain source confirmation where refs: "input_message_ref inp ''sourceMessage'' = Some source"
      "input_message_ref inp ''confirmationMessage'' = Some confirmation" and configured: "is_configured_message_ref C source"
    using assms by (auto simp: authorize_team_submissions_decide_def split: option.splits if_splits)
  obtain u a where p: "p = UserPrincipal u (Some a)"
    using assms refs
    by (cases p; cases "(case p of UserPrincipal _ acc \<Rightarrow> acc | _ \<Rightarrow> None)")
      (simp_all add: authorize_team_submissions_decide_def authorized_simps)
  show ?thesis
    using assms refs configured
    by (auto simp: authorize_team_submissions_decide_def p authorized_simps)
qed

lemma entitled_decide:
  assumes "authorize C A team_submissions_decide p inp = Inr v"
  shows "principal_entitled C A team_submissions_decide p inp"
proof -
  obtain u a source confirmation r cs where p: "p = UserPrincipal u (Some a)"
    and source: "input_message_ref inp ''sourceMessage'' = Some source" "is_configured_message_ref C source"
    and rest: "input_message_ref inp ''confirmationMessage'' = Some confirmation"
      "an_submission A (submission_key_of_ref source) = Inr (Some r)"
      "is_decidable_submission_for r C a (mr_message_id confirmation)"
    and caps: "workspace_capabilities A p (message_ref.mr_workspace_id source) = Inr cs" "cs_member cs"
    using assms decide_authorized unfolding authorize_special authorized_simps by blast
  have "participates C A team_submissions_decide inp a"
    using source rest special_contracts_differ by (auto simp: participates_def)
  moreover have "in_workspace A (message_ref.mr_workspace_id source) a"
    using snapshot_facts caps p by blast
  moreover have "resource_in_workspace C A team_submissions_decide inp (message_ref.mr_workspace_id source)"
    using source by (auto simp: resource_in_workspace_def special_policies policy_input_def is_configured_message_ref_def)
  ultimately have "user_entitled C A team_submissions_decide inp a"
    by (auto simp: user_entitled_def special_policies policy_input_def)
  then show ?thesis
    by (simp add: principal_entitled_def p special_policies policy_input_def principal_kind_of_def)
qed

lemma entitled_special:
  assumes "c \<in> set special_contracts" and "authorize C A c p inp = Inr v"
  shows "principal_entitled C A c p inp"
proof -
  have room_order: "\<exists>x. authorize_room_order C A p inp (contract_policy c) = Inr x"
    if "c \<in> {room_orders_navigate, room_orders_send, room_orders_pin_tentative}"
    using that assms(2)
    by (auto simp: authorize_special authorized_simps authorize_room_orders_navigate_def authorize_room_orders_send_def
        authorize_room_orders_pin_tentative_def authorize_room_order_send_shape_def)
  consider "c = slots_open" | "c = checkins_respond" | "c = checkins_open" | "c = team_submissions_decide"
    | "c \<in> {room_orders_navigate, room_orders_send, room_orders_pin_tentative}" | "c = services_deliver_status"
    | "c = members_kick" | "c = workspaces_feature_flags_set_and_deliver" | "c = calculations_recalculate_sheet"
    | "c \<in> {team_submissions_process, workspaces_deliver_welcome, announcements_deliver_update}"
    using assms(1) by (auto simp: special_contracts_def)
  then show ?thesis
  proof cases
    case 1 then show ?thesis using assms(2) entitled_slot_open by (auto simp: authorize_special authorized_simps)
  next
    case 2 then show ?thesis using assms(2) entitled_checkin_respond by (auto simp: authorize_special authorized_simps)
  next
    case 3 then show ?thesis using assms(2) entitled_checkins_open by blast
  next
    case 4 then show ?thesis using assms(2) entitled_decide by blast
  next
    case 5 then show ?thesis using room_order entitled_monitor_of_room_order by blast
  next
    case 6 then show ?thesis using assms(2) entitled_application_owner by blast
  next
    case 7 then show ?thesis using assms(2) entitled_member_kick by blast
  next
    case 8 then show ?thesis using assms(2) entitled_feature_flag by blast
  next
    case 9 then show ?thesis using assms(2) entitled_apps_script by blast
  next
    case 10 then show ?thesis using assms(2) entitled_gateway by blast
  qed
qed

subsection \<open>Contracts decided by their policy alone\<close>

lemma authorize_self:
  assumes "c \<in> set sheet_workflow_contract_catalog" and "c \<notin> set special_contracts" and "self_policy (contract_policy c)"
  shows "authorize C A c p inp = Inr () \<longleftrightarrow> principal_entitled C A c p inp \<and> (\<exists>u a. p = UserPrincipal u (Some a))"
  using assms(3)
  by (cases p) (auto simp: authorize_plain [OF assms(1,2)] self_policy_def is_forbidden_empty_workspace_policy_def
      principal_kind_of_def principal_entitled_def user_entitled_def resource_in_workspace_def split: option.splits)

lemma target_user_authorized:
  "authorize_target_user A (UserPrincipal u account) inp pol w = Inr () \<longleftrightarrow>
     (\<exists>target. string_field_from_input inp (field_or (pi_target_user_field pol) ''targetUserId'') = Some target \<and>
       (account = Some target \<or> (\<exists>cs. workspace_capabilities A (UserPrincipal u account) w = Inr cs \<and>
         (cs_app_owner cs \<or> cs_monitor cs))))"
  by (auto simp: authorize_target_user_def authorized_simps split: option.splits)

lemma authorize_workspace_plain:
  assumes "c \<in> set sheet_workflow_contract_catalog" and "c \<notin> set special_contracts"
    and "workspace_policy (ct_identity c) (contract_policy c)"
  shows "authorize C A c p inp = (if principal_kind_of p = UserKind then authorize_workspace A p inp (contract_policy c)
    else Inl NotAuthorized)"
  using assms(3)
  by (auto simp: authorize_plain [OF assms(1,2)] workspace_policy_def is_forbidden_empty_workspace_policy_def
      split: if_splits)

lemma authorize_workspace_sound:
  assumes "c \<in> set sheet_workflow_contract_catalog" and "c \<notin> set special_contracts"
    and pol: "workspace_policy (ct_identity c) (contract_policy c)" and ok: "authorize C A c p inp = Inr ()"
  shows "principal_entitled C A c p inp"
proof -
  let ?pol = "contract_policy c"
  obtain u account where p: "p = UserPrincipal u account"
    using ok by (cases p) (auto simp: authorize_workspace_plain [OF assms(1-3)] principal_kind_of_def)
  obtain w where w: "string_field_from_input inp ''workspaceId'' = Some w"
    and by_rule: "(case pi_user_rule ?pol of Some TargetUserOrMonitorOrOwner \<Rightarrow> authorize_target_user A p inp ?pol w
      | None \<Rightarrow> as_void (filter_or_fail (has_required_capabilities (pi_required_capabilities ?pol))
          (workspace_capabilities A p w))) = Inr ()"
    using ok pol unfolding p
    by (auto simp: authorize_workspace_plain [OF assms(1-3)] principal_kind_of_def authorize_workspace_def
        workspace_policy_def field_or_def authorized_simps)
  have kinds: "pi_principal_kinds ?pol = [UserKind]" "pi_resource ?pol = ResWorkspace"
    using pol by (simp_all add: workspace_policy_def)
  show ?thesis
  proof (cases "pi_user_rule ?pol")
    case None
    then obtain cs where cs: "workspace_capabilities A p w = Inr cs" "has_required_capabilities (pi_required_capabilities ?pol) cs"
      using by_rule by (auto simp: authorized_simps)
    show ?thesis
    proof (cases account)
      case account: None
      then have "pi_required_capabilities ?pol = []"
        using cs p account_of_capability by (cases "pi_required_capabilities ?pol") (metis option.distinct(1))+
      moreover have "authorization_load_workspace_capabilities \<in> set sheet_workflow_contract_catalog"
        by (simp add: sheet_workflow_contract_catalog_def)
      ultimately show ?thesis
        using pol None account kinds catalog_identity [OF assms(1)]
        by (simp add: principal_entitled_def p principal_kind_of_def workspace_policy_def)
    next
      case (Some a)
      then show ?thesis
        using entitled_in_workspace [of c inp w A u a cs C] cs kinds w None
        by (simp add: principal_entitled_def p principal_kind_of_def)
    qed
  next
    case (Some rule)
    then have target: "authorize_target_user A p inp ?pol w = Inr ()" and field: "pi_target_user_field ?pol = Some ''targetUserId''"
      using by_rule pol by (cases rule; simp add: workspace_policy_def)+
    show ?thesis
    proof (cases account)
      case None
      then show ?thesis
        using target by (auto simp: p target_user_authorized workspace_capabilities_def no_workspace_capabilities_def)
    next
      case account: (Some a)
      have "user_entitled C A c inp a"
        using target field w Some kinds snapshot_facts [of A u a w]
        by (cases rule) (fastforce simp: p account target_user_authorized user_entitled_def resource_in_workspace_def field_or_def)
      then show ?thesis
        by (simp add: principal_entitled_def p account principal_kind_of_def kinds)
    qed
  qed
qed

definition decided_by_policy :: "contract \<Rightarrow> bool" where
  "decided_by_policy c \<longleftrightarrow> c \<notin> set special_contracts \<or>
     c \<in> {members_kick, workspaces_feature_flags_set_and_deliver, services_deliver_status}"

text \<open>With every lookup answered, a required capability is missing from the snapshot only if it does not hold.\<close>

lemma required_capabilities_exact:
  assumes "answering A" and "set required \<subseteq> {CapMember, CapMonitor, CapManage}"
  shows "(\<exists>cs. workspace_capabilities A (UserPrincipal u (Some a)) w = Inr cs \<and> has_required_capabilities required cs) \<longleftrightarrow>
    list_all (holds_capability C A c inp w a) required"
proof -
  obtain cs where cs: "workspace_capabilities A (UserPrincipal u (Some a)) w = Inr cs"
      "cs_member cs = in_workspace A w a" "cs_monitor cs = monitors_workspace A w a" "cs_manage cs = manages_workspace A w a"
    using snapshot_exact [OF assms(1)] by metis
  then have "has_capability cs cap = holds_capability C A c inp w a cap" if "cap \<in> set required" for cap
    using that assms(2) by (cases cap) auto
  then show ?thesis
    using cs(1) by (auto simp: has_required_capabilities_def list_all_iff)
qed

lemma entitled_workspace_user:
  assumes "pi_principal_kinds (contract_policy c) = UserKind # kinds" and "pi_resource (contract_policy c) = ResWorkspace"
    and "pi_user_rule (contract_policy c) = None"
    and "principal_entitled C A c (UserPrincipal u (Some a)) inp"
  obtains w where "string_field_from_input inp ''workspaceId'' = Some w"
    and "list_all (holds_capability C A c inp w a) (pi_required_capabilities (contract_policy c))"
  using assms by (auto simp: principal_entitled_def user_entitled_def resource_in_workspace_def)

lemma authorize_workspace_complete:
  assumes "answering A" and "c \<in> set sheet_workflow_contract_catalog" and "c \<notin> set special_contracts"
    and pol: "workspace_policy (ct_identity c) (contract_policy c)"
    and entitled: "principal_entitled C A c (UserPrincipal u (Some a)) inp"
  shows "authorize C A c (UserPrincipal u (Some a)) inp = Inr ()"
proof -
  let ?pol = "contract_policy c"
  have shape: "pi_principal_kinds ?pol = [UserKind]" "pi_resource ?pol = ResWorkspace"
      "pi_resource_field ?pol = Some ''workspaceId''" "set (pi_required_capabilities ?pol) \<subseteq> {CapMember, CapMonitor, CapManage}"
    using pol by (auto simp: workspace_policy_def list_all_iff)
  have goal: "authorize C A c (UserPrincipal u (Some a)) inp = authorize_workspace A (UserPrincipal u (Some a)) inp ?pol"
    by (simp add: authorize_workspace_plain [OF assms(2-4)] principal_kind_of_def)
  show ?thesis
  proof (cases "pi_user_rule ?pol")
    case None
    obtain w where w: "string_field_from_input inp ''workspaceId'' = Some w"
      and "list_all (holds_capability C A c inp w a) (pi_required_capabilities ?pol)"
      using entitled_workspace_user [OF shape(1,2) None entitled] by blast
    then obtain cs where "workspace_capabilities A (UserPrincipal u (Some a)) w = Inr cs"
        "has_required_capabilities (pi_required_capabilities ?pol) cs"
      using required_capabilities_exact [OF assms(1) shape(4)] by blast
    then show ?thesis
      by (simp add: goal authorize_workspace_def field_or_def shape w None as_void_def filter_or_fail_def and_then_def)
  next
    case (Some rule)
    then have field: "pi_target_user_field ?pol = Some ''targetUserId''"
      using pol by (simp add: workspace_policy_def)
    have rule: "rule = TargetUserOrMonitorOrOwner"
      by (cases rule)
    obtain w target where w: "string_field_from_input inp ''workspaceId'' = Some w"
      and target: "string_field_from_input inp ''targetUserId'' = Some target"
      and holds: "target = a \<or> owns_application A a \<or> monitors_workspace A w a"
      using entitled Some rule shape by (auto simp: principal_entitled_def user_entitled_def resource_in_workspace_def)
    have "authorize_target_user A (UserPrincipal u (Some a)) inp ?pol w = Inr ()"
      using target holds snapshot_exact [OF assms(1), of u a w] field
      by (auto simp: target_user_authorized field_or_def)
    then show ?thesis
      by (simp add: goal authorize_workspace_def field_or_def shape w Some rule)
  qed
qed

lemma special_complete:
  assumes "answering A" and "c \<in> {members_kick, workspaces_feature_flags_set_and_deliver, services_deliver_status}"
    and entitled: "principal_entitled C A c (UserPrincipal u (Some a)) inp"
  shows "authorize C A c (UserPrincipal u (Some a)) inp = Inr ()"
proof (cases "c = services_deliver_status")
  case True
  then have "owns_application A a" and "an_application_in_time A"
    using entitled assms(1)
    by (auto simp: principal_entitled_def user_entitled_def special_policies policy_input_def answering_def)
  then show ?thesis
    using True
    by (simp add: authorize_special authorized_simps authorize_application_owner_def owns_application_def special_policies
        policy_input_def principal_kind_of_def)
next
  case False
  have shape: "pi_principal_kinds (contract_policy c) = UserKind # [ServiceKind]"
      "pi_resource (contract_policy c) = ResWorkspace" "pi_user_rule (contract_policy c) = None"
      "set (pi_required_capabilities (contract_policy c)) \<subseteq> {CapMember, CapMonitor, CapManage}"
    using assms(2) False by (auto simp: special_policies policy_input_def)
  obtain w where w: "string_field_from_input inp ''workspaceId'' = Some w"
    and "list_all (holds_capability C A c inp w a) (pi_required_capabilities (contract_policy c))"
    using entitled_workspace_user [OF shape(1-3) entitled] by blast
  then obtain cs where "workspace_capabilities A (UserPrincipal u (Some a)) w = Inr cs"
      "has_required_capabilities (pi_required_capabilities (contract_policy c)) cs"
    using required_capabilities_exact [OF assms(1) shape(4)] by blast
  then show ?thesis
    using assms(2) False w
    by (auto simp: authorize_special authorized_simps authorize_member_kick_def authorize_workspace_feature_flag_def
        special_policies policy_input_def field_or_def principal_kind_of_def has_required_capabilities_def)
qed

text \<open>C11: Authorization enforces the policies of the catalog. A principal a contract admits is entitled
  to it: a service is the one its rule names (for the calculations, the installation of that very
  spreadsheet); a user holds every required capability in the workspace of the resource, where a message
  lies in the workspace it is stored with, a participant is a stored member of the check-in or the author of
  the submission, and a target-user contract is for that user, a monitor or the owner of the application;
  a user without an account gets only their (empty) capabilities. Conversely, when every lookup answers,
  the contracts decided by their policy alone admit every entitled user with an account.\<close>

theorem authorization_follows_policy:
  assumes "c \<in> set sheet_workflow_contract_catalog"
  shows "(authorize C A c p inp = Inr () \<longrightarrow> principal_entitled C A c p inp) \<and>
    (answering A \<and> decided_by_policy c \<and> p = UserPrincipal u (Some a) \<longrightarrow>
      (authorize C A c p inp = Inr () \<longleftrightarrow> principal_entitled C A c p inp))"
proof -
  have sound: "principal_entitled C A c p inp" if "authorize C A c p inp = Inr ()"
    using assms
  proof (cases rule: catalog_cases)
    case special then show ?thesis using that entitled_special by blast
  next
    case self then show ?thesis using that authorize_self [OF assms] by blast
  next
    case workspace then show ?thesis using that authorize_workspace_sound [OF assms] by blast
  qed
  have "authorize C A c p inp = Inr ()"
    if "answering A" "decided_by_policy c" "p = UserPrincipal u (Some a)" "principal_entitled C A c p inp"
    using assms
  proof (cases rule: catalog_cases)
    case special then show ?thesis using that special_complete by (auto simp: decided_by_policy_def)
  next
    case self then show ?thesis using that authorize_self [OF assms] by blast
  next
    case workspace then show ?thesis using that authorize_workspace_complete assms by blast
  qed
  then show ?thesis using sound by blast
qed

subsection \<open>An installation\<close>

definition sample_auth_config :: auth_config where
  "sample_auth_config = \<lparr>cf_client_id = ''bot'', cf_gateway_service_id = ''gw'', cf_gateway_oauth_client_id = ''gwc'',
     cf_cleanup_service_id = ''cl'', cf_cleanup_oauth_client_id = ''clc'', cf_auto_checkin_identity = None,
     cf_date_ok = \<lambda>_. True\<rparr>"

definition sample_audit :: audit where
  "sample_audit = \<lparr>au_created_at = 1, au_updated_at = 1, au_deleted_at = None\<rparr>"

definition sample_room_order :: room_order_row where
  "sample_room_order = \<lparr>ro_key = discord_key sample_auth_config ''m'', ro_previous_fills = [], ro_fills = [''x''],
     ro_hour = 20, ro_rank = 0, ro_tentative = False, ro_monitor = None, ro_workspace_id = Some ''w'',
     ro_conversation_id = Some ''c'', ro_created_by_user_id = Some ''u'', ro_send_claim_id = None,
     ro_send_claimed_at = None, ro_sent_message_id = None, ro_sent_conversation_id = None, ro_sent_at = None,
     ro_update_claim_id = None, ro_update_claimed_at = None, ro_pin_claim_id = None, ro_pin_claimed_at = None,
     ro_pinned_at = None, ro_audit = sample_audit\<rparr>"

text \<open>A workspace \<open>w\<close> whose member \<open>a\<close> has the monitor role, and whose member \<open>b\<close> has none.\<close>

definition sample_answers :: auth_answers where
  "sample_answers = \<lparr>an_application_owner = Inr ''root'', an_application_in_time = True,
     an_member_roles = (\<lambda>w user. if w = ''w'' \<and> user = ''a'' then Inr [''monitor'']
       else if w = ''w'' \<and> user = ''b'' then Inr [] else Inl BotResourceNotFound),
     an_roles = (\<lambda>_. Inr [(''monitor'', ''0'')]), an_workspace_owner = (\<lambda>_. Inr ''boss''),
     an_monitor_roles = (\<lambda>w. Inr [\<lparr>mr_workspace_id = w, mr_role_id = ''monitor'', mr_audit = sample_audit\<rparr>]),
     an_slot = (\<lambda>_. Inr None), an_checkin = (\<lambda>_. Inr None), an_checkin_members = (\<lambda>_. Inr []),
     an_room_order = (\<lambda>k. Inr (if k = discord_key sample_auth_config ''m'' then Some sample_room_order else None)),
     an_submission = (\<lambda>_. Inr None)\<rparr>"

definition sample_message_input :: json where
  "sample_message_input = JObj [(''workspaceId'', JStr ''other''), (''responseReference'', JStr ''r''),
     (''messageId'', JStr ''m''), (''messageConversationId'', JStr ''c'')]"

lemma sample_send_authorized:
  "authorize sample_auth_config sample_answers room_orders_send (UserPrincipal ''u'' (Some ''a'')) sample_message_input = Inr ()"
  by code_simp

theorem authorization_follows_policy_witness:
  "principal_entitled sample_auth_config sample_answers room_orders_send (UserPrincipal ''u'' (Some ''a'')) sample_message_input"
proof -
  have "room_orders_send \<in> set sheet_workflow_contract_catalog"
    by (simp add: sheet_workflow_contract_catalog_def)
  from authorization_follows_policy [OF this] show ?thesis
    using sample_send_authorized by blast
qed

subsection \<open>Messages are authorized where they are stored\<close>



end
