(* ===== verification/MessageText.thy ===== *)
theory MessageText
  imports MessageRoomOrder MessageRefs SubmissionTypes WorkspaceConfig
begin

text \<open>
  The messages the workflows send (\<open>sheet-bot-api/src/message.ts\<close>): parts of text, embeds and buttons;
  their makers and their plain text (\<open>sheet-message-content/src/text.ts\<close>, \<open>components.ts\<close>) and the
  message of a room order (\<open>roomOrderContent.ts\<close>, \<open>roomOrderMessage.ts\<close>). A text is a list of UTF-16
  code units. Files and references to other messages are in none of these messages and left out.
\<close>

subsection \<open>Messages\<close>

record client_ref =
  cl_platform :: string
  cl_client_id :: string

record workspace_ref =
  wr_client :: client_ref
  wr_workspace_id :: string

record conversation_ref =
  cv_workspace :: workspace_ref
  cv_conversation_id :: string

datatype timestamp_style = ShortTime | LongTime | ShortDate | LongDate | Relative

datatype client_term =
    TermWorkspace | TermConversation | TermRunDestination | TermCheckinDestination
  | TermMonitorRole | TermLockdownRole | TermMessage | TermTestRun

datatype term_form = Singular | Plural

datatype term_casing = LowerCase | SentenceCase

datatype text_part =
    PartText js_text
  | PartUserMention string
  | PartConversationMention conversation_ref
  | PartRoleMention workspace_ref string
  | PartMessageLink message_ref "js_text option"
  | PartTimestamp rat "timestamp_style option"
  | PartStrong "text_part list"
  | PartInlineCode js_text
  | PartStrikethrough "text_part list"
  | PartSubtle "text_part list"
  | PartExternalLink string "js_text option"
  | PartClientTerm client_term "term_form option" "term_casing option"

datatype bot_text = PlainText js_text | PartsText "text_part list"

datatype button_style = PrimaryButton | SecondaryButton | SuccessButton | DangerButton

record action_button =
  bn_action_id :: string
  bn_label :: js_text
  bn_style :: "button_style option"
  bn_disabled :: "bool option"
  bn_emoji :: "(string option \<times> js_text) option"

record embed_field =
  ef_name :: bot_text
  ef_value :: bot_text
  ef_inline :: "bool option"

text \<open>An outer \<open>None\<close> is a member that is absent; an inner one is \<open>null\<close>.\<close>

record message_embed =
  em_title :: "bot_text option"
  em_description :: "bot_text option option"
  em_fields :: "embed_field list option"
  em_footer :: "bot_text option"
  em_color :: "int option"

datatype visibility = PublicMessage | EphemeralMessage

datatype allowed_mentions = NoMentions | DefaultMentions

record outbound_message =
  om_content :: "bot_text option option"
  om_embeds :: "message_embed list option"
  om_components :: "action_button list list option"
  om_visibility :: "visibility option"
  om_allowed_mentions :: "allowed_mentions option"

definition content_message :: "bot_text \<Rightarrow> outbound_message" where
  "content_message c = \<lparr>om_content = Some (Some c), om_embeds = None, om_components = None,
     om_visibility = None, om_allowed_mentions = None\<rparr>"

subsection \<open>References\<close>

definition workspace_ref_from :: "client_ref \<Rightarrow> string \<Rightarrow> workspace_ref" where
  "workspace_ref_from client w = \<lparr>wr_client = client, wr_workspace_id = w\<rparr>"

definition conversation_ref_from :: "client_ref \<Rightarrow> string \<Rightarrow> string \<Rightarrow> conversation_ref" where
  "conversation_ref_from client w c = \<lparr>cv_workspace = workspace_ref_from client w, cv_conversation_id = c\<rparr>"

definition message_ref_from :: "client_ref \<Rightarrow> string \<Rightarrow> string \<Rightarrow> string \<Rightarrow> message_ref" where
  "message_ref_from client w c m = \<lparr>mr_platform = cl_platform client, mr_client_id = cl_client_id client,
     mr_workspace_id = w, mr_conversation_id = c, mr_message_id = m\<rparr>"

definition client_of_key :: "message_key \<Rightarrow> client_ref" where
  "client_of_key k = \<lparr>cl_platform = mk_client_platform k, cl_client_id = mk_client_id k\<rparr>"

subsection \<open>Parts of text\<close>

abbreviation part_text :: "string \<Rightarrow> text_part" where "part_text s \<equiv> PartText (js_text s)"

fun join_text :: "text_part list list \<Rightarrow> js_text \<Rightarrow> text_part list" where
  "join_text [] separator = []"
| "join_text (v # vs) separator = v @ concat (map (\<lambda>w. PartText separator # w) vs)"

definition text_lines :: "text_part list list \<Rightarrow> text_part list" where
  "text_lines rows = join_text rows [10]"

datatype generated_part =
    GeneratedText js_text
  | GeneratedUserMention string
  | GeneratedConversationMention string
  | GeneratedTimestamp rat "timestamp_style option"
  | GeneratedStrong "generated_part list"
  | GeneratedInlineCode js_text
  | GeneratedStrikethrough "generated_part list"
  | GeneratedSubtle "generated_part list"
  | GeneratedExternalLink string "js_text option"
  | GeneratedClientTerm client_term "term_form option" "term_casing option"

fun materialize_part :: "client_ref \<Rightarrow> string \<Rightarrow> generated_part \<Rightarrow> text_part" where
  "materialize_part client w (GeneratedText t) = PartText t"
| "materialize_part client w (GeneratedUserMention u) = PartUserMention u"
| "materialize_part client w (GeneratedConversationMention c) =
     PartConversationMention (conversation_ref_from client w c)"
| "materialize_part client w (GeneratedTimestamp t style) = PartTimestamp t style"
| "materialize_part client w (GeneratedStrong ps) = PartStrong (map (materialize_part client w) ps)"
| "materialize_part client w (GeneratedInlineCode t) = PartInlineCode t"
| "materialize_part client w (GeneratedStrikethrough ps) = PartStrikethrough (map (materialize_part client w) ps)"
| "materialize_part client w (GeneratedSubtle ps) = PartSubtle (map (materialize_part client w) ps)"
| "materialize_part client w (GeneratedExternalLink url label) = PartExternalLink url label"
| "materialize_part client w (GeneratedClientTerm x form casing) = PartClientTerm x form casing"

definition materialize_generated_text :: "client_ref \<Rightarrow> string \<Rightarrow> generated_part list \<Rightarrow> text_part list" where
  "materialize_generated_text client w = map (materialize_part client w)"

fun term_text :: "client_term \<Rightarrow> term_form \<Rightarrow> string" where
  "term_text TermWorkspace Singular = ''workspace''"
| "term_text TermWorkspace Plural = ''workspaces''"
| "term_text TermConversation Singular = ''conversation''"
| "term_text TermConversation Plural = ''conversations''"
| "term_text TermRunDestination Singular = ''run destination''"
| "term_text TermRunDestination Plural = ''run destinations''"
| "term_text TermCheckinDestination Singular = ''check-in destination''"
| "term_text TermCheckinDestination Plural = ''check-in destinations''"
| "term_text TermMonitorRole Singular = ''monitor role''"
| "term_text TermMonitorRole Plural = ''monitor roles''"
| "term_text TermLockdownRole Singular = ''lockdown role''"
| "term_text TermLockdownRole Plural = ''lockdown roles''"
| "term_text TermMessage Singular = ''message''"
| "term_text TermMessage Plural = ''messages''"
| "term_text TermTestRun Singular = ''test run''"
| "term_text TermTestRun Plural = ''test runs''"

text \<open>The terms begin with a lower-case letter of ASCII.\<close>

definition sentence_case :: "string \<Rightarrow> string" where
  "sentence_case s = (case s of [] \<Rightarrow> [] | c # cs \<Rightarrow>
     (if CHR ''a'' \<le> c \<and> c \<le> CHR ''z'' then char_of (of_char c - 32 :: nat) else c) # cs)"

definition render_client_term_plain :: "client_term \<Rightarrow> term_form option \<Rightarrow> term_casing option \<Rightarrow> string" where
  "render_client_term_plain x form casing =
     (let rendered = term_text x (case form of None \<Rightarrow> Singular | Some f \<Rightarrow> f) in
      if casing = Some SentenceCase then sentence_case rendered else rendered)"

subsection \<open>Dates as text\<close>

text \<open>\<open>new Date(t).toISOString()\<close>, which throws when the date is not valid: year, month and day of the
  proleptic Gregorian calendar by days since 1 March of year 0.\<close>

definition padded_text :: "nat \<Rightarrow> int \<Rightarrow> string" where
  "padded_text width n = (let s = nat_text (nat n) in replicate (width - length s) (CHR ''0'') @ s)"

definition civil_date :: "int \<Rightarrow> int \<times> int \<times> int" where
  "civil_date days =
     (let z = days + 719468; era = z div 146097; doe = z mod 146097;
          yoe = (doe - doe div 1460 + doe div 36524 - doe div 146096) div 365;
          doy = doe - (365 * yoe + yoe div 4 - yoe div 100);
          mp = (5 * doy + 2) div 153;
          month = (if mp < 10 then mp + 3 else mp - 9) in
      (yoe + era * 400 + (if month \<le> 2 then 1 else 0), month, doy - (153 * mp + 2) div 5 + 1))"

definition year_text :: "int \<Rightarrow> string" where
  "year_text y =
     (if 0 \<le> y \<and> y \<le> 9999 then padded_text 4 y
      else (if y < 0 then CHR ''-'' else CHR ''+'') # padded_text 6 \<bar>y\<bar>)"

definition iso_text :: "int \<Rightarrow> string" where
  "iso_text t =
     (let ms = t mod 86400000 in
      case civil_date (t div 86400000) of (y, month, d) \<Rightarrow>
        year_text y @ ''-'' @ padded_text 2 month @ ''-'' @ padded_text 2 d @ ''T'' @
        padded_text 2 (ms div 3600000) @ '':'' @ padded_text 2 (ms div 60000 mod 60) @ '':'' @
        padded_text 2 (ms div 1000 mod 60) @ ''.'' @ padded_text 3 (ms mod 1000) @ ''Z'')"

subsection \<open>Plain text\<close>

fun join_rendered :: "js_text option list \<Rightarrow> js_text option" where
  "join_rendered [] = Some []"
| "join_rendered (None # rest) = None"
| "join_rendered (Some t # rest) = map_option ((@) t) (join_rendered rest)"

fun render_plain_part :: "text_part \<Rightarrow> js_text option" where
  "render_plain_part (PartText t) = Some t"
| "render_plain_part (PartUserMention u) = Some (js_text (''@'' @ u))"
| "render_plain_part (PartConversationMention c) = Some (js_text (''#'' @ cv_conversation_id c))"
| "render_plain_part (PartRoleMention w r) = Some (js_text (''@role:'' @ r))"
| "render_plain_part (PartMessageLink m label) =
     Some (case label of Some l \<Rightarrow> l | None \<Rightarrow> js_text (term_text TermMessage Singular @ '' '' @ mr_message_id m))"
| "render_plain_part (PartTimestamp t style) = map_option (\<lambda>ms. js_text (iso_text ms)) (date_time t)"
| "render_plain_part (PartStrong ps) = join_rendered (map render_plain_part ps)"
| "render_plain_part (PartInlineCode t) = Some t"
| "render_plain_part (PartStrikethrough ps) = join_rendered (map render_plain_part ps)"
| "render_plain_part (PartSubtle ps) = join_rendered (map render_plain_part ps)"
| "render_plain_part (PartExternalLink url label) = Some (case label of Some l \<Rightarrow> l | None \<Rightarrow> js_text url)"
| "render_plain_part (PartClientTerm x form casing) = Some (js_text (render_client_term_plain x form casing))"

definition render_plain_text :: "text_part list \<Rightarrow> js_text option" where
  "render_plain_text ps = join_rendered (map render_plain_part ps)"

lemma join_rendered_append:
  "join_rendered (xs @ ys) = (case join_rendered xs of None \<Rightarrow> None | Some t \<Rightarrow> map_option ((@) t) (join_rendered ys))"
proof (induction xs rule: join_rendered.induct)
  case 1
  show ?case by (cases "join_rendered ys") auto
next
  case (3 t rest)
  then show ?case by (cases "join_rendered rest"; cases "join_rendered ys") auto
qed simp

lemma render_plain_text_append:
  "render_plain_text (ps @ qs) =
     (case render_plain_text ps of None \<Rightarrow> None | Some t \<Rightarrow> map_option ((@) t) (render_plain_text qs))"
  unfolding render_plain_text_def map_append by (rule join_rendered_append)

subsection \<open>Buttons\<close>

definition action_button_of :: "string \<Rightarrow> string \<Rightarrow> button_style \<Rightarrow> bool \<Rightarrow> action_button" where
  "action_button_of action label style disabled =
     \<lparr>bn_action_id = action, bn_label = js_text label, bn_style = Some style, bn_disabled = Some disabled,
      bn_emoji = None\<rparr>"

definition checkin_action_row :: "bool \<Rightarrow> action_button list" where
  "checkin_action_row disabled =
     [(action_button_of ''interaction:checkin'' ''Check in'' PrimaryButton disabled)
        \<lparr>bn_emoji := Some (Some ''907705464215711834'', js_text ''Miku_Happy'')\<rparr>]"

definition slot_action_row :: "bool \<Rightarrow> action_button list" where
  "slot_action_row disabled = [action_button_of ''interaction:slot'' ''Open slots'' PrimaryButton disabled]"

definition previous_button :: "bool \<Rightarrow> action_button" where
  "previous_button = action_button_of ''interaction:roomOrder:previous'' ''Previous'' SecondaryButton"

definition next_button :: "bool \<Rightarrow> action_button" where
  "next_button = action_button_of ''interaction:roomOrder:next'' ''Next'' SecondaryButton"

definition send_button :: "bool \<Rightarrow> action_button" where
  "send_button = action_button_of ''interaction:roomOrder:send'' ''Send'' PrimaryButton"

definition tentative_pin_button :: "bool \<Rightarrow> action_button" where
  "tentative_pin_button disabled =
     (action_button_of ''interaction:roomOrder:pinTentative'' ''Pin'' PrimaryButton disabled)
       \<lparr>bn_emoji := Some (None, [55357, 56524])\<rparr>"

record rank_range =
  rg_min_rank :: int
  rg_max_rank :: int

definition room_order_action_row :: "rank_range \<Rightarrow> int \<Rightarrow> bool \<Rightarrow> action_button list" where
  "room_order_action_row rg rank disabled =
     [previous_button (disabled \<or> rg_min_rank rg = rank), next_button (disabled \<or> rg_max_rank rg = rank),
      send_button disabled]"

definition tentative_room_order_action_row :: "rank_range \<Rightarrow> int \<Rightarrow> action_button list" where
  "tentative_room_order_action_row rg rank =
     [previous_button (rg_min_rank rg = rank), next_button (rg_max_rank rg = rank), tentative_pin_button False]"

definition tentative_room_order_pin_action_row :: "bool \<Rightarrow> action_button list" where
  "tentative_room_order_pin_action_row disabled = [tentative_pin_button disabled]"

definition team_submission_confirmation_action_row :: "bool \<Rightarrow> action_button list" where
  "team_submission_confirmation_action_row disabled =
     [action_button_of ''interaction:teamSubmission:confirm'' ''Confirm'' SuccessButton disabled,
      action_button_of ''interaction:teamSubmission:reject'' ''Reject'' DangerButton disabled]"

subsection \<open>The message of a room order\<close>

record fill_participant =
  fp_key :: string
  fp_name :: string

definition fill_participant_from_name :: "string \<Rightarrow> fill_participant" where
  "fill_participant_from_name name = \<lparr>fp_key = ''name:'' @ name, fp_name = name\<rparr>"

definition moved_in :: "fill_participant list \<Rightarrow> fill_participant list \<Rightarrow> fill_participant list" where
  "moved_in previous current = filter (\<lambda>p. fp_key p \<notin> set (map fp_key previous)) current"

definition diff_fill_participants ::
    "fill_participant list \<Rightarrow> fill_participant list \<Rightarrow> fill_participant list \<times> fill_participant list" where
  "diff_fill_participants previous current = (moved_in previous current, moved_in current previous)"

definition room_order_header_line :: "int \<Rightarrow> int \<Rightarrow> int \<Rightarrow> text_part list" where
  "room_order_header_line hour start stop =
     [PartStrong [part_text (''Hour '' @ int_text hour)], part_text '' '', PartTimestamp (of_int start) None,
      part_text '' - '', PartTimestamp (of_int stop) None]"

definition monitor_line :: "string option \<Rightarrow> text_part list list" where
  "monitor_line monitor =
     (case monitor of None \<Rightarrow> [] | Some m \<Rightarrow> [[PartInlineCode (js_text ''Monitor:''), part_text ('' '' @ m)]])"

text \<open>\<open>toFixed(1)\<close> of a number below \<open>10 ^ 21\<close> rounds to tenths, halves up in absolute value.\<close>

definition tenths :: "rat \<Rightarrow> int" where
  "tenths x = (if x < 0 then - \<lfloor>- x * 10 + 1 / 2\<rfloor> else \<lfloor>x * 10 + 1 / 2\<rfloor>)"

definition format_effect_value :: "rat \<Rightarrow> string" where
  "format_effect_value x =
     (let n = tenths x in
      ''+'' @ (if n mod 10 = 0 then int_text (n div 10)
        else (if n < 0 then ''-'' else []) @ int_text (\<bar>n\<bar> div 10) @ ''.'' @ int_text (\<bar>n\<bar> mod 10)) @ ''%'')"

definition format_effect_labels :: "rat \<Rightarrow> string list \<Rightarrow> string list" where
  "format_effect_labels x tags =
     (if ''tierer'' \<in> set tags then []
      else [format_effect_value x] @ (if ''enc'' \<in> set tags then [''enc''] else []) @
        (if ''not_enc'' \<in> set tags then [''not enc''] else []))"

fun join_strings :: "string \<Rightarrow> string list \<Rightarrow> string" where
  "join_strings separator [] = []"
| "join_strings separator (s # ss) = s @ concat (map (\<lambda>t. separator @ t) ss)"

definition room_order_entry_line :: "room_order_entry \<Rightarrow> text_part list" where
  "room_order_entry_line e =
     (let labels = format_effect_labels (re_effect_value e) (re_tags e);
          effect_text = (if labels = [] then [] else '' ('' @ join_strings '', '' labels @ '')'') in
      [PartInlineCode (js_text (''P'' @ int_text (re_position e + 1) @ '':'')),
       part_text (''  '' @ re_team e @ effect_text)])"

definition participant_list :: "fill_participant list \<Rightarrow> string" where
  "participant_list ps = (if ps = [] then ''(none)'' else join_strings '', '' (map fp_name ps))"

definition fill_movement_lines :: "fill_participant list \<times> fill_participant list \<Rightarrow> text_part list list" where
  "fill_movement_lines m =
     [[PartInlineCode (js_text ''In:''), part_text ('' '' @ participant_list (fst m))],
      [PartInlineCode (js_text ''Out:''), part_text ('' '' @ participant_list (snd m))]]"

definition build_room_order_content ::
    "int \<Rightarrow> int \<Rightarrow> int \<Rightarrow> string option \<Rightarrow> fill_participant list \<Rightarrow> fill_participant list \<Rightarrow>
     room_order_entry list \<Rightarrow> text_part list" where
  "build_room_order_content hour start stop monitor previous current es =
     join_text ([room_order_header_line hour start stop] @ monitor_line monitor @ [[part_text []]] @
       map room_order_entry_line es @ [[part_text []]] @
       fill_movement_lines (diff_fill_participants previous current)) [10]"

definition generating_room_order_message :: "text_part list \<Rightarrow> outbound_message" where
  "generating_room_order_message content =
     content_message (PartsText (text_lines [content, [PartSubtle [part_text ''Controls are being prepared...'']]]))"

definition tentative_room_order_content :: "text_part list \<Rightarrow> text_part list" where
  "tentative_room_order_content content = text_lines [[part_text ''(tentative)''], content]"

definition room_order_draft_message :: "text_part list \<Rightarrow> rank_range \<Rightarrow> int \<Rightarrow> bool \<Rightarrow> outbound_message" where
  "room_order_draft_message content rg rank disabled =
     (content_message (PartsText content))\<lparr>om_components := Some [room_order_action_row rg rank disabled]\<rparr>"

definition published_room_order_message :: "text_part list \<Rightarrow> outbound_message" where
  "published_room_order_message content = content_message (PartsText content)"

definition room_order_send_acknowledgement :: "bool \<Rightarrow> string" where
  "room_order_send_acknowledgement pinned =
     (if pinned then ''sent room order and pinned it!'' else ''sent room order, but failed to pin it.'')"

definition tentative_room_order_message :: "text_part list \<Rightarrow> rank_range \<Rightarrow> int \<Rightarrow> outbound_message" where
  "tentative_room_order_message content rg rank =
     (content_message (PartsText (tentative_room_order_content content)))
       \<lparr>om_components := Some [tentative_room_order_action_row rg rank]\<rparr>"

definition tentative_room_order_pin_acknowledgement :: "bool \<Rightarrow> string" where
  "tentative_room_order_pin_acknowledgement cleaned_up =
     (if cleaned_up then ''pinned tentative room order!''
      else ''pinned tentative room order, but failed to clean up the message.'')"

end
