(* ===== verification/RoomOrderFlow.thy ===== *)
theory RoomOrderFlow
  imports MessageText Authorization TxnLogic RoomOrderGuarantees
begin

text \<open>
  What the workflows of room-order messages share (\<open>sheet-workflows/src/workflows/roomOrders\<close>): their state
  (the stored room orders, the outside world, the calls made so far with what came of them), the
  services they call as functions of the world, the durable actions they are made of, and the helpers
  that \<open>sendOperations.ts\<close>, \<open>operations.ts\<close> and \<open>pinTentativeOperations.ts\<close> repeat. Other actors may run
  any mutators before each access to the store. An execution of an action whose result is lost is
  repeated; a process that stops in the middle of one is an interrupted call. Logging is left out.
\<close>

subsection \<open>State and services\<close>

datatype room_delivery =
    SendRoomMessage conversation_ref outbound_message
  | PinRoomMessage message_ref
  | EditRoomMessage message_ref outbound_message
  | RespondTo string outbound_message

record room_receipt =
  rr_delivery_key :: string
  rr_message :: "message_ref option"

text \<open>What a delivery came to; an answer in time that does not decode is a \<open>BotTransportFailed\<close> too.\<close>

datatype delivery_answer = Answered room_receipt | Refused bot_error | AnswerInterrupted

datatype room_call =
    RoomAuthorized bool
  | RoomRead "room_order_row option"
  | RoomMutation room_mutation bool
  | RoomDeliver string room_delivery delivery_answer

record 'w room_flow =
  rf_db :: room_order_db
  rf_world :: 'w
  rf_calls :: "room_call list"

type_synonym ('a, 'w) room_step = "('a, 'w room_flow) flow_step"

text \<open>
  \<open>rs_others\<close> are the mutators other actors run before an access, \<open>rs_lost\<close> the number of executions of an
  action that are lost, \<open>rs_swap\<close> the order in which two concurrent actions run, \<open>rs_hours\<close> the milliseconds
  that \<open>Duration.hours\<close> adds to a date.
\<close>

record 'w room_services =
  rs_config :: auth_config
  rs_answers :: "'w \<Rightarrow> auth_answers lookup \<times> 'w"
  rs_others :: "'w \<Rightarrow> (int \<times> int \<times> room_mutation) list \<times> 'w"
  rs_read :: "'w \<Rightarrow> unit lookup \<times> 'w"
  rs_write :: "'w \<Rightarrow> ((int \<times> int) \<times> persist_fault) \<times> 'w"
  rs_clock :: "'w \<Rightarrow> int \<times> 'w"
  rs_sheet_id :: "string \<Rightarrow> 'w \<Rightarrow> string option option lookup \<times> 'w"
  rs_event_start :: "string \<Rightarrow> 'w \<Rightarrow> js_number lookup \<times> 'w"
  rs_hours :: "int \<Rightarrow> int"
  rs_deliver :: "string \<Rightarrow> room_delivery \<Rightarrow> 'w \<Rightarrow> delivery_answer \<times> 'w"
  rs_lost :: "'w \<Rightarrow> nat \<times> 'w"
  rs_swap :: "'w \<Rightarrow> bool \<times> 'w"

definition log_room :: "room_call \<Rightarrow> 'w room_flow \<Rightarrow> 'w room_flow" where
  "log_room c s = s\<lparr>rf_calls := rf_calls s @ [c]\<rparr>"

definition ask_world :: "('w \<Rightarrow> 'a \<times> 'w) \<Rightarrow> ('a, 'w) room_step" where
  "ask_world f s = (case f (rf_world s) of (a, w) \<Rightarrow> (Inr a, s\<lparr>rf_world := w\<rparr>))"

definition look_world :: "('w \<Rightarrow> 'a lookup \<times> 'w) \<Rightarrow> ('a, 'w) room_step" where
  "look_world f = txn_bind (ask_world f) (\<lambda>r. case r of
     Found a \<Rightarrow> txn_return a | LookupFailed \<Rightarrow> txn_fail Undeclared | LookupInterrupted \<Rightarrow> txn_fail Interrupted)"

definition others_act :: "'w room_services \<Rightarrow> (unit, 'w) room_step" where
  "others_act S = txn_bind (ask_world (rs_others S))
     (\<lambda>evs s. (Inr (), s\<lparr>rf_db := run_room_mutations evs (rf_db s)\<rparr>))"

definition get_room_order :: "'w room_services \<Rightarrow> message_key \<Rightarrow> (room_order_row option, 'w) room_step" where
  "get_room_order S k = txn_bind (others_act S) (\<lambda>_. txn_bind (look_world (rs_read S)) (\<lambda>_ s.
     (let r = find_active_message_room_order k (rf_db s) in (Inr r, log_room (RoomRead r) s))))"

definition get_entries :: "'w room_services \<Rightarrow> message_key \<Rightarrow> int \<Rightarrow> (room_order_entry list, 'w) room_step" where
  "get_entries S k rank = txn_bind (others_act S) (\<lambda>_. txn_bind (look_world (rs_read S)) (\<lambda>_ s.
     (Inr (map rer_entry (get_message_room_order_entry k rank (rf_db s))), s)))"

definition get_range :: "'w room_services \<Rightarrow> message_key \<Rightarrow> (room_order_entry list, 'w) room_step" where
  "get_range S k = txn_bind (others_act S) (\<lambda>_. txn_bind (look_world (rs_read S)) (\<lambda>_ s.
     (Inr (map rer_entry (get_message_room_order_range k (rf_db s))), s)))"

text \<open>A mutation commits unless it is lost before, or rejected.\<close>

definition send_mutation :: "room_mutation \<Rightarrow> (int \<times> int) \<times> persist_fault \<Rightarrow> (unit, 'w) room_step" where
  "send_mutation m x s =
     (case x of ((now, stamp), fault) \<Rightarrow>
        (if fault \<in> {LostBeforeCommit, InterruptedBeforeCommit}
         then (Inl (if fault = LostBeforeCommit then Undeclared else Interrupted), log_room (RoomMutation m False) s)
         else case with_transaction (room_mutator now stamp m) (rf_db s) of
           (Inl e, db) \<Rightarrow> (Inl Undeclared, log_room (RoomMutation m False) (s\<lparr>rf_db := db\<rparr>))
         | (Inr u, db) \<Rightarrow>
             (if fault = PersistArrives then Inr () else Inl (if fault = LostAfterCommit then Undeclared else Interrupted),
              log_room (RoomMutation m True) (s\<lparr>rf_db := db\<rparr>))))"

definition mutate_room :: "'w room_services \<Rightarrow> room_mutation \<Rightarrow> (unit, 'w) room_step" where
  "mutate_room S m = txn_bind (others_act S) (\<lambda>_. txn_bind (ask_world (rs_write S)) (send_mutation m))"

definition decoded_answer :: "room_delivery \<Rightarrow> delivery_answer \<Rightarrow> delivery_answer" where
  "decoded_answer d a =
     (case (d, a) of
        (RespondTo _ _, _) \<Rightarrow> a
      | (_, Answered r) \<Rightarrow> if rr_message r = None then Refused BotTransportFailed else a
      | _ \<Rightarrow> a)"

definition deliver_room ::
    "'w room_services \<Rightarrow> string \<Rightarrow> room_delivery \<Rightarrow> (bot_error + room_receipt, 'w) room_step" where
  "deliver_room S key d = txn_bind (ask_world (rs_deliver S key d)) (\<lambda>a s.
     (let a = decoded_answer d a in
      (case a of Answered r \<Rightarrow> Inr (Inr r) | Refused e \<Rightarrow> Inr (Inl e) | AnswerInterrupted \<Rightarrow> Inl Interrupted,
       log_room (RoomDeliver key d a) s)))"

definition deliver_or_fail ::
    "'w room_services \<Rightarrow> string \<Rightarrow> room_delivery \<Rightarrow> (bot_error \<Rightarrow> flow_error) \<Rightarrow> (room_receipt, 'w) room_step" where
  "deliver_or_fail S key d f = txn_bind (deliver_room S key d)
     (\<lambda>r. case r of Inl e \<Rightarrow> txn_fail (f e) | Inr x \<Rightarrow> txn_return x)"

subsection \<open>Executions and their actions\<close>

record execution =
  ex_invocation_id :: string
  ex_input :: json
  ex_principal :: effective_principal

text \<open>\<open>decodeWorkflowContractInputOrDie\<close>; excess properties are ignored.\<close>

definition decode_or_die :: "'w room_services \<Rightarrow> contract \<Rightarrow> execution \<Rightarrow> (unit, 'w) room_step" where
  "decode_or_die S c x =
     (if decodes (cf_date_ok (rs_config S)) False (ct_input c) (ex_input x) then txn_return () else txn_fail Died)"

definition input_field :: "execution \<Rightarrow> string \<Rightarrow> string" where
  "input_field x name = (case string_field_from_input (ex_input x) name of None \<Rightarrow> [] | Some s \<Rightarrow> s)"

definition definition_version :: string where "definition_version = ''1''"

text \<open>The makers of delivery keys and claim ids of \<open>keys.ts\<close>, which differ in the contract.\<close>

definition workflow_key :: "contract \<Rightarrow> execution \<Rightarrow> string \<Rightarrow> string" where
  "workflow_key c x kind =
     ct_identity c @ '':'' @ definition_version @ '':'' @ ex_invocation_id x @ '':'' @ kind"

fun repeat_step :: "nat \<Rightarrow> ('a, 'w) room_step \<Rightarrow> ('a, 'w) room_step" where
  "repeat_step 0 m = m"
| "repeat_step (Suc n) m = (\<lambda>s. repeat_step n m (snd (m s)))"

definition run_action :: "'w room_services \<Rightarrow> ('a, 'w) room_step \<Rightarrow> ('a, 'w) room_step" where
  "run_action S m = txn_bind (ask_world (rs_lost S)) (\<lambda>n. repeat_step n m)"

text \<open>Two concurrent actions with their exits; the second one's come first when they are swapped.\<close>

definition run_both ::
    "'w room_services \<Rightarrow> ('a, 'w) room_step \<Rightarrow> ('b, 'w) room_step \<Rightarrow> ((flow_error + 'a) \<times> (flow_error + 'b), 'w) room_step" where
  "run_both S m n = txn_bind (ask_world (rs_swap S)) (\<lambda>swapped.
     if swapped then txn_bind (txn_exit n) (\<lambda>y. txn_bind (txn_exit m) (\<lambda>x. txn_return (x, y)))
     else txn_bind (txn_exit m) (\<lambda>x. txn_bind (txn_exit n) (\<lambda>y. txn_return (x, y))))"

text \<open>The authorization of a workflow, with the room orders as they are stored.\<close>

definition answers_now :: "auth_answers \<Rightarrow> room_order_db \<Rightarrow> auth_answers" where
  "answers_now A db = A\<lparr>an_room_order := \<lambda>k.
     case an_room_order A k of Inl e \<Rightarrow> Inl e | Inr _ \<Rightarrow> Inr (find_active_message_room_order k db)\<rparr>"

definition interactive_authorization_revoked :: "contract \<Rightarrow> flow_error" where
  "interactive_authorization_revoked c = Declared (AuthorizationRevoked (po_policy (ct_policy c)))"

definition authorize_room ::
    "'w room_services \<Rightarrow> contract \<Rightarrow> (auth_answers \<Rightarrow> 'c authorized) \<Rightarrow> ('c, 'w) room_step" where
  "authorize_room S c f = preserve_declared_failure
     (txn_bind (others_act S) (\<lambda>_. txn_bind (look_world (rs_answers S)) (\<lambda>A s.
        case f (answers_now A (rf_db s)) of
          Inr ctx \<Rightarrow> (Inr ctx, log_room (RoomAuthorized True) s)
        | Inl NotAuthorized \<Rightarrow> (Inl (interactive_authorization_revoked c), log_room (RoomAuthorized False) s)
        | Inl _ \<Rightarrow> (Inl Undeclared, log_room (RoomAuthorized False) s))))"

subsection \<open>Helpers of the operations\<close>

definition canonical_view_matches :: "'z navigate_context_scheme \<Rightarrow> room_order_row \<Rightarrow> bool" where
  "canonical_view_matches ctx r \<longleftrightarrow>
     ro_key r = nv_key ctx \<and> ro_workspace_id r = Some (nv_workspace_id ctx) \<and>
     ro_conversation_id r = Some (nv_conversation_id ctx) \<and> ro_hour r = nv_hour ctx \<and> ro_rank r = nv_rank ctx \<and>
     ro_tentative r = nv_tentative ctx \<and> ro_monitor r = nv_monitor ctx \<and>
     ro_previous_fills r = nv_previous_fills ctx \<and> ro_fills r = nv_fills ctx \<and> au_deleted_at (ro_audit r) = None"

definition context_from_row :: "send_context \<Rightarrow> room_order_row \<Rightarrow> send_context" where
  "context_from_row ctx r = ctx\<lparr>sx_send_claim_id := ro_send_claim_id r, sx_sent_message_id := ro_sent_message_id r,
     sx_sent_conversation_id := ro_sent_conversation_id r, sx_update_claim_id := ro_update_claim_id r,
     sx_pin_claim_id := ro_pin_claim_id r, sx_pinned_at := ro_pinned_at r\<rparr>"

definition fail_unless :: "bool \<Rightarrow> flow_error \<Rightarrow> (unit, 'w) room_step" where
  "fail_unless b e = (if b then txn_return () else txn_fail e)"

text \<open>A mutation that failed without being interrupted is taken as done when the store shows it.\<close>

definition reconcile_mutation ::
    "(unit, 'w) room_step \<Rightarrow> (room_order_row, 'w) room_step \<Rightarrow> (room_order_row \<Rightarrow> bool) \<Rightarrow> (unit, 'w) room_step" where
  "reconcile_mutation m reload done = txn_catch_cause m
     (\<lambda>e. txn_bind reload (\<lambda>current. if done current then txn_return () else txn_fail e))"

definition load_event_start :: "'w room_services \<Rightarrow> string \<Rightarrow> string \<Rightarrow> (int, 'w) room_step" where
  "load_event_start S operation w = txn_bind (look_world (rs_sheet_id S w)) (\<lambda>workspace.
     case workspace of
       Some (Some sheet) \<Rightarrow>
         txn_bind (txn_catch (look_world (rs_event_start S sheet)) (\<lambda>_. txn_fail (Declared
           (ExternalOperationRejected operation ''ProviderRejected''
             ''The room-order provider rejected the event configuration read'')))) (\<lambda>start.
         case (case start of JsFinite t \<Rightarrow> date_time t | _ \<Rightarrow> None) of
           None \<Rightarrow> txn_fail (Declared (ExternalOperationRejected operation ''InvalidProviderResponse''
             ''The room-order provider returned an invalid event start time''))
         | Some t \<Rightarrow> txn_return t)
     | _ \<Rightarrow> txn_fail Undeclared)"

text \<open>\<open>hourWindowFor\<close> and the content of the room order at that hour.\<close>

definition hour_window_for :: "'w room_services \<Rightarrow> int \<Rightarrow> int \<Rightarrow> int \<times> int" where
  "hour_window_for S start hour = (start + rs_hours S (hour - 1), start + rs_hours S hour)"

definition row_content :: "'w room_services \<Rightarrow> int \<Rightarrow> room_order_row \<Rightarrow> room_order_entry list \<Rightarrow> text_part list" where
  "row_content S event_start r es =
     (case hour_window_for S event_start (ro_hour r) of (start, stop) \<Rightarrow>
        build_room_order_content (ro_hour r) start stop (ro_monitor r)
          (map fill_participant_from_name (ro_previous_fills r)) (map fill_participant_from_name (ro_fills r)) es)"

definition row_client :: "'z navigate_context_scheme \<Rightarrow> client_ref" where
  "row_client ctx = client_of_key (nv_key ctx)"

definition context_conversation :: "'z navigate_context_scheme \<Rightarrow> conversation_ref" where
  "context_conversation ctx = conversation_ref_from (row_client ctx) (nv_workspace_id ctx) (nv_conversation_id ctx)"

definition context_message :: "'z navigate_context_scheme \<Rightarrow> message_ref" where
  "context_message ctx = message_ref_from (row_client ctx) (nv_workspace_id ctx) (nv_conversation_id ctx)
     (mk_message_id (nv_key ctx))"

text \<open>\<open>deliveryFailure\<close>: a resource that is gone rejects the delivery as well.\<close>

definition delivery_failure ::
    "contract \<Rightarrow> string \<Rightarrow> string \<Rightarrow> string \<Rightarrow> bool \<Rightarrow> string option \<Rightarrow> bot_error \<Rightarrow> flow_error" where
  "delivery_failure c operation res rejected_message recovery_required committed e =
     (case map_delivery_failure (po_policy (ct_policy c)) operation res recovery_required rejected_message committed e of
        Declared (ResourceNotFound _ _) \<Rightarrow>
          Declared (DeliveryRejected operation rejected_message committed recovery_required)
      | mapped \<Rightarrow> mapped)"

definition text_message :: "string \<Rightarrow> outbound_message" where
  "text_message s = content_message (PlainText (js_text s))"

definition ephemeral_text :: "string \<Rightarrow> outbound_message" where
  "ephemeral_text s = (text_message s)\<lparr>om_visibility := Some EphemeralMessage\<rparr>"

subsection \<open>Failures of several actions\<close>

text \<open>\<open>failureFrom\<close>, the failure with which several failed exits end, and a cause with a later one.\<close>

fun declared_of :: "flow_error \<Rightarrow> declared_failure option" where
  "declared_of (Declared f) = Some f"
| "declared_of _ = None"

definition is_authorization_revoked :: "declared_failure \<Rightarrow> bool" where
  "is_authorization_revoked f = (case f of AuthorizationRevoked _ \<Rightarrow> True | _ \<Rightarrow> False)"

definition is_delivery_rejected :: "declared_failure \<Rightarrow> bool" where
  "is_delivery_rejected f = (case f of DeliveryRejected _ _ _ _ \<Rightarrow> True | _ \<Rightarrow> False)"

definition combine_failures :: "flow_error list \<Rightarrow> flow_error" where
  "combine_failures es =
     (let fs = List.map_filter declared_of es in
      case List.find is_authorization_revoked fs of
        Some f \<Rightarrow> Declared f
      | None \<Rightarrow> (case List.find is_delivery_rejected fs of
          Some f \<Rightarrow> Declared f
        | None \<Rightarrow> (case fs of f # _ \<Rightarrow> Declared f | [] \<Rightarrow> (case es of e # _ \<Rightarrow> e | [] \<Rightarrow> Died))))"

definition combine_causes :: "flow_error \<Rightarrow> flow_error \<Rightarrow> flow_error" where
  "combine_causes e e' = (if declared_of e = None \<and> declared_of e' \<noteq> None then e' else e)"

definition failed_exit :: "flow_error + 'a \<Rightarrow> flow_error list" where
  "failed_exit x = (case x of Inl e \<Rightarrow> [e] | Inr _ \<Rightarrow> [])"

definition exit_value :: "flow_error + 'a \<Rightarrow> 'a option" where
  "exit_value x = (case x of Inl _ \<Rightarrow> None | Inr a \<Rightarrow> Some a)"

definition compensate_and_fail :: "flow_error \<Rightarrow> (unit, 'w) room_step \<Rightarrow> ('a, 'w) room_step" where
  "compensate_and_fail e release =
     txn_bind (txn_catch_cause release (\<lambda>e'. txn_fail (combine_causes e e'))) (\<lambda>_. txn_fail e)"

text \<open>What a workflow returns.\<close>

record 'st room_result =
  rm_message_id :: string
  rm_conversation_id :: string
  rm_status :: 'st
  rm_detail :: "string option"
  rm_receipts :: "room_receipt list"

end
