(* ===== verification/RoomOrderNavigate.thy ===== *)
theory RoomOrderNavigate
  imports RoomOrderFlow
begin

text \<open>
  The workflow that shows the previous or the next room order of a message (\<open>roomOrders/operations.ts\<close>,
  \<open>definition.ts\<close> with its schemas in \<open>schema.ts\<close>): it claims the stored message, loads the view of the
  neighbouring rank, moves the rank, shows it, and gives the claim back once it is shown.
\<close>

subsection \<open>Values of the actions\<close>

record navigation_claim =
  nc_context :: navigate_context
  nc_claim_id :: string
  nc_claimed :: bool
  nc_detail :: "string option"

datatype direction = PreviousRank | NextRank

record navigation_view =
  vw_context :: navigate_context
  vw_claim_id :: string
  vw_direction :: direction
  vw_target_rank :: int
  vw_range :: rank_range
  vw_ready :: bool
  vw_detail :: "string option"
  vw_message :: outbound_message

datatype navigation_status = NavigationUpdated | NavigationDenied

record navigation_committed =
  nd_context :: navigate_context
  nd_claim_id :: string
  nd_target_rank :: int
  nd_status :: navigation_status
  nd_detail :: "string option"
  nd_message :: outbound_message

abbreviation navigate_revoked :: flow_error where
  "navigate_revoked \<equiv> interactive_authorization_revoked room_orders_navigate"

definition make_navigation_claim_id :: "execution \<Rightarrow> string" where
  "make_navigation_claim_id x = workflow_key room_orders_navigate x ''claim-navigation''"

definition make_navigation_delivery_key :: "execution \<Rightarrow> string \<Rightarrow> string" where
  "make_navigation_delivery_key x kind = workflow_key room_orders_navigate x kind"

definition direction_of :: "execution \<Rightarrow> direction" where
  "direction_of x = (if input_field x ''direction'' = ''previous'' then PreviousRank else NextRank)"

subsection \<open>Operations\<close>

definition claim_owned_by :: "room_order_row \<Rightarrow> string \<Rightarrow> bool" where
  "claim_owned_by r claim \<longleftrightarrow> ro_update_claim_id r = Some claim"

definition context_matches_row :: "'z navigate_context_scheme \<Rightarrow> room_order_row \<Rightarrow> bool" where
  "context_matches_row ctx r \<longleftrightarrow> ro_key r = nv_key ctx \<and> ro_workspace_id r = Some (nv_workspace_id ctx) \<and>
     ro_conversation_id r = Some (nv_conversation_id ctx)"

definition navigation_busy_detail :: "room_order_row \<Rightarrow> string option \<Rightarrow> string" where
  "navigation_busy_detail r caller =
     (if ro_send_claim_id r \<noteq> None then ''room order is already being sent.''
      else if ro_update_claim_id r \<noteq> None \<and> ro_update_claim_id r \<noteq> caller
      then ''tentative room order is already being updated.''
      else if ro_pinned_at r \<noteq> None then ''tentative room order is already pinned.''
      else if ro_pin_claim_id r \<noteq> None then ''tentative room order is already being pinned.''
      else ''room order is temporarily unavailable.'')"

definition navigation_load_current :: "'w room_services \<Rightarrow> navigate_context \<Rightarrow> (room_order_row, 'w) room_step" where
  "navigation_load_current S ctx = txn_bind (get_room_order S (nv_key ctx)) (\<lambda>r. case r of
     None \<Rightarrow> txn_fail Undeclared | Some row \<Rightarrow> txn_return row)"

definition navigation_op_claim ::
    "'w room_services \<Rightarrow> navigate_context \<Rightarrow> string \<Rightarrow> (navigation_claim, 'w) room_step" where
  "navigation_op_claim S ctx claim =
     txn_bind (reconcile_mutation (mutate_room S (ClaimTentativeUpdate (nv_key ctx) claim))
       (navigation_load_current S ctx) (\<lambda>current. claim_owned_by current claim)) (\<lambda>_.
     txn_bind (navigation_load_current S ctx) (\<lambda>current.
     txn_bind (fail_unless (context_matches_row ctx current) navigate_revoked) (\<lambda>_.
     txn_return (if claim_owned_by current claim
       then \<lparr>nc_context = ctx, nc_claim_id = claim, nc_claimed = True, nc_detail = None\<rparr>
       else \<lparr>nc_context = ctx, nc_claim_id = claim, nc_claimed = False,
         nc_detail = Some (navigation_busy_detail current None)\<rparr>))))"

definition denied_view ::
    "navigation_claim \<Rightarrow> direction \<Rightarrow> int \<Rightarrow> rank_range \<Rightarrow> string \<Rightarrow> navigation_view" where
  "denied_view claimed d target rg detail = \<lparr>vw_context = nc_context claimed, vw_claim_id = nc_claim_id claimed,
     vw_direction = d, vw_target_rank = target, vw_range = rg, vw_ready = False, vw_detail = Some detail,
     vw_message = ephemeral_text detail\<rparr>"

definition navigation_target :: "direction \<Rightarrow> int \<Rightarrow> int" where
  "navigation_target d rank = rank + (if d = PreviousRank then -1 else 1)"

definition range_of_ranks :: "int list \<Rightarrow> int \<Rightarrow> rank_range" where
  "range_of_ranks ranks rank =
     (case ranks of
        [] \<Rightarrow> \<lparr>rg_min_rank = rank, rg_max_rank = rank\<rparr>
      | r # rs \<Rightarrow> \<lparr>rg_min_rank = fold min rs r, rg_max_rank = fold max rs r\<rparr>)"

definition navigation_message :: "bool \<Rightarrow> text_part list \<Rightarrow> rank_range \<Rightarrow> int \<Rightarrow> outbound_message" where
  "navigation_message tentative content rg target =
     (if tentative
      then (content_message (PartsText (tentative_room_order_content content)))
        \<lparr>om_components := Some [tentative_room_order_action_row rg target]\<rparr>
      else (content_message (PartsText content))\<lparr>om_components := Some [room_order_action_row rg target False]\<rparr>)"

definition navigation_op_load_view ::
    "'w room_services \<Rightarrow> navigation_claim \<Rightarrow> direction \<Rightarrow> (navigation_view, 'w) room_step" where
  "navigation_op_load_view S claimed d =
     (let ctx = nc_context claimed; rank = nv_rank ctx in
      txn_bind (navigation_load_current S ctx) (\<lambda>current.
      txn_bind (fail_unless (context_matches_row ctx current \<and> claim_owned_by current (nc_claim_id claimed))
        navigate_revoked) (\<lambda>_.
      if ro_rank current \<noteq> rank
      then txn_return (denied_view claimed d rank \<lparr>rg_min_rank = rank, rg_max_rank = rank\<rparr>
        ''room order could not be updated.'')
      else txn_bind (get_range S (nv_key ctx)) (\<lambda>range_entries.
      let target = navigation_target d (ro_rank current); ranks = map re_rank range_entries;
          rg = range_of_ranks ranks (ro_rank current) in
      if ranks = [] \<or> target < rg_min_rank rg \<or> rg_max_rank rg < target \<or> target \<notin> set ranks
      then txn_return (denied_view claimed d target rg ''room order is already at the requested boundary.'')
      else txn_bind (get_entries S (nv_key ctx) target) (\<lambda>es.
      txn_bind (load_event_start S ''roomOrders.navigate.loadNavigationView'' (nv_workspace_id ctx)) (\<lambda>start.
      txn_return \<lparr>vw_context = ctx, vw_claim_id = nc_claim_id claimed, vw_direction = d, vw_target_rank = target,
        vw_range = rg, vw_ready = True, vw_detail = None,
        vw_message = navigation_message (ro_tentative current) (row_content S start current es) rg target\<rparr>))))))"

definition denied_committed :: "navigation_view \<Rightarrow> string option \<Rightarrow> outbound_message \<Rightarrow> navigation_committed" where
  "denied_committed view detail msg = \<lparr>nd_context = vw_context view, nd_claim_id = vw_claim_id view,
     nd_target_rank = nv_rank (vw_context view), nd_status = NavigationDenied, nd_detail = detail, nd_message = msg\<rparr>"

definition rank_mutation :: "direction \<Rightarrow> message_key \<Rightarrow> int \<Rightarrow> string \<Rightarrow> room_mutation" where
  "rank_mutation d k expected claim =
     (if d = PreviousRank then DecrementRank k (Some expected) (Some claim) else IncrementRank k (Some expected) (Some claim))"

definition navigation_op_commit :: "'w room_services \<Rightarrow> navigation_view \<Rightarrow> (navigation_committed, 'w) room_step" where
  "navigation_op_commit S view =
     (let ctx = vw_context view; claim = vw_claim_id view; target = vw_target_rank view in
      if \<not> vw_ready view then txn_return (denied_committed view (vw_detail view) (vw_message view))
      else if target < rg_min_rank (vw_range view) \<or> rg_max_rank (vw_range view) < target then txn_fail Undeclared
      else txn_bind (reconcile_mutation (mutate_room S (rank_mutation (vw_direction view) (nv_key ctx) (nv_rank ctx) claim))
          (navigation_load_current S ctx) (\<lambda>current. claim_owned_by current claim \<and> ro_rank current = target)) (\<lambda>_.
        txn_bind (navigation_load_current S ctx) (\<lambda>current.
        txn_bind (fail_unless (context_matches_row ctx current) navigate_revoked) (\<lambda>_.
        if \<not> claim_owned_by current claim \<or> ro_rank current \<noteq> target
        then if claim_owned_by current claim \<and> ro_rank current = nv_rank ctx
          then (let detail = navigation_busy_detail current (Some claim) in
            txn_return (denied_committed view (Some detail) (ephemeral_text detail)))
          else txn_fail Undeclared
        else txn_return \<lparr>nd_context = ctx, nd_claim_id = claim, nd_target_rank = target,
          nd_status = NavigationUpdated, nd_detail = None, nd_message = vw_message view\<rparr>))))"

definition navigation_delivery_failure ::
    "navigation_committed \<Rightarrow> string \<Rightarrow> string \<Rightarrow> string \<Rightarrow> bot_error \<Rightarrow> flow_error" where
  "navigation_delivery_failure committed operation res rejected_message =
     delivery_failure room_orders_navigate operation res rejected_message (nd_status committed = NavigationUpdated)
       (if nd_status committed = NavigationUpdated then Some (mk_message_id (nv_key (nd_context committed))) else None)"

definition navigation_response :: "navigation_committed \<Rightarrow> outbound_message" where
  "navigation_response committed =
     (if nd_status committed = NavigationDenied then nd_message committed
      else if nv_tentative (nd_context committed) then ephemeral_text ''updated tentative room order.''
      else nd_message committed)"

definition navigation_op_respond ::
    "'w room_services \<Rightarrow> navigation_committed \<Rightarrow> string \<Rightarrow> string \<Rightarrow> (room_receipt, 'w) room_step" where
  "navigation_op_respond S committed reference key =
     deliver_or_fail S key (RespondTo reference (navigation_response committed))
       (navigation_delivery_failure committed ''roomOrders.navigate.respond'' ''response''
         ''The room-order response was rejected'')"

definition navigation_op_edit :: "'w room_services \<Rightarrow> navigation_committed \<Rightarrow> string \<Rightarrow> (room_receipt, 'w) room_step" where
  "navigation_op_edit S committed key =
     deliver_or_fail S key (EditRoomMessage (context_message (nd_context committed)) (nd_message committed))
       (navigation_delivery_failure committed ''roomOrders.navigate.editRoomOrderMessage'' ''room-order message''
         ''The room-order message update was rejected'')"

text \<open>A release that cannot be verified is only logged.\<close>

definition navigation_op_release :: "'w room_services \<Rightarrow> navigation_committed \<Rightarrow> (unit, 'w) room_step" where
  "navigation_op_release S committed =
     txn_bind (mutate_room S (ReleaseTentativeUpdate (nv_key (nd_context committed)) (nd_claim_id committed))) (\<lambda>_.
     txn_catch (txn_bind (navigation_load_current S (nd_context committed)) (\<lambda>current.
       fail_unless (context_matches_row (nd_context committed) current \<and>
         \<not> claim_owned_by current (nd_claim_id committed)) Undeclared)) (\<lambda>_. txn_return ()))"

subsection \<open>Actions\<close>

definition authorize_navigate :: "'w room_services \<Rightarrow> execution \<Rightarrow> (navigate_context, 'w) room_step" where
  "authorize_navigate S x = authorize_room S room_orders_navigate
     (\<lambda>A. authorize_room_orders_navigate (rs_config S) A (ex_principal x) (ex_input x))"

definition invariant_context :: "navigate_context \<Rightarrow> navigate_context" where
  "invariant_context ctx = ctx\<lparr>nv_rank := 0\<rparr>"

definition navigate_reauthorize ::
    "'w room_services \<Rightarrow> execution \<Rightarrow> navigate_context \<Rightarrow> int option \<Rightarrow> (navigate_context, 'w) room_step" where
  "navigate_reauthorize S x expected expected_rank = txn_bind (authorize_navigate S x) (\<lambda>current.
     if invariant_context current = invariant_context expected \<and>
        (case expected_rank of None \<Rightarrow> True | Some r \<Rightarrow> nv_rank current = r)
     then txn_return current else txn_fail navigate_revoked)"

definition committed_rank :: "navigation_committed \<Rightarrow> int option" where
  "committed_rank committed = (if nd_status committed = NavigationUpdated then Some (nd_target_rank committed) else None)"

definition claim_navigation_action :: "'w room_services \<Rightarrow> execution \<Rightarrow> (navigation_claim, 'w) room_step" where
  "claim_navigation_action S x = txn_bind (authorize_navigate S x) (\<lambda>ctx.
     preserve_declared_failure (navigation_op_claim S ctx (make_navigation_claim_id x)))"

definition load_navigation_view_action ::
    "'w room_services \<Rightarrow> execution \<Rightarrow> navigation_claim \<Rightarrow> (navigation_view, 'w) room_step" where
  "load_navigation_view_action S x claim = txn_bind (navigate_reauthorize S x (nc_context claim) None) (\<lambda>_.
     txn_bind (decode_or_die S room_orders_navigate x) (\<lambda>_.
     preserve_declared_failure (navigation_op_load_view S claim (direction_of x))))"

definition commit_navigation_action ::
    "'w room_services \<Rightarrow> execution \<Rightarrow> navigation_view \<Rightarrow> (navigation_committed, 'w) room_step" where
  "commit_navigation_action S x view = txn_bind (navigate_reauthorize S x (vw_context view) None) (\<lambda>_.
     preserve_declared_failure (navigation_op_commit S view))"

definition navigation_respond_action ::
    "'w room_services \<Rightarrow> execution \<Rightarrow> navigation_committed \<Rightarrow> (room_receipt, 'w) room_step" where
  "navigation_respond_action S x committed =
     txn_bind (navigate_reauthorize S x (nd_context committed) (committed_rank committed)) (\<lambda>_.
     txn_bind (decode_or_die S room_orders_navigate x) (\<lambda>_.
     preserve_declared_failure (navigation_op_respond S committed (input_field x ''responseReference'')
       (make_navigation_delivery_key x ''respond''))))"

definition edit_room_order_message_action ::
    "'w room_services \<Rightarrow> execution \<Rightarrow> navigation_committed \<Rightarrow> (room_receipt, 'w) room_step" where
  "edit_room_order_message_action S x committed =
     txn_bind (navigate_reauthorize S x (nd_context committed) (committed_rank committed)) (\<lambda>_.
     preserve_declared_failure (navigation_op_edit S committed
       (make_navigation_delivery_key x ''edit-room-order-message'')))"

definition release_navigation_claim_action ::
    "'w room_services \<Rightarrow> execution \<Rightarrow> navigation_committed \<Rightarrow> bool \<Rightarrow> (unit, 'w) room_step" where
  "release_navigation_claim_action S x committed canonical_projection_confirmed =
     (if \<not> canonical_projection_confirmed then txn_fail Died
      else txn_bind (navigate_reauthorize S x (nd_context committed) (committed_rank committed)) (\<lambda>_.
        preserve_declared_failure (navigation_op_release S committed)))"

subsection \<open>The workflow\<close>

definition denied_navigation :: "navigation_claim \<Rightarrow> navigation_committed" where
  "denied_navigation claim = \<lparr>nd_context = nc_context claim, nd_claim_id = nc_claim_id claim,
     nd_target_rank = nv_rank (nc_context claim), nd_status = NavigationDenied, nd_detail = nc_detail claim,
     nd_message = ephemeral_text (case nc_detail claim of Some d \<Rightarrow> d | None \<Rightarrow> ''room order is temporarily unavailable.'')\<rparr>"

definition navigation_result ::
    "navigation_committed \<Rightarrow> room_receipt list \<Rightarrow> navigation_status room_result" where
  "navigation_result committed receipts = \<lparr>rm_message_id = mk_message_id (nv_key (nd_context committed)),
     rm_conversation_id = nv_conversation_id (nd_context committed), rm_status = nd_status committed,
     rm_detail = nd_detail committed, rm_receipts = receipts\<rparr>"

definition canonical_projection_confirmed ::
    "navigation_committed \<Rightarrow> flow_error + room_receipt \<Rightarrow> (flow_error + room_receipt) option \<Rightarrow> bool" where
  "canonical_projection_confirmed committed responded edited \<longleftrightarrow>
     (if nd_status committed = NavigationDenied then True
      else if nv_tentative (nd_context committed) then Option.bind edited exit_value \<noteq> None
      else exit_value responded \<noteq> None)"

definition finish_navigation ::
    "'w room_services \<Rightarrow> execution \<Rightarrow> navigation_committed \<Rightarrow> (navigation_status room_result, 'w) room_step" where
  "finish_navigation S x committed =
     txn_bind (txn_exit (run_action S (navigation_respond_action S x committed))) (\<lambda>responded.
     txn_bind (if nv_tentative (nd_context committed) \<and> nd_status committed = NavigationUpdated
       then txn_bind (txn_exit (run_action S (edit_room_order_message_action S x committed))) (\<lambda>e. txn_return (Some e))
       else txn_return None) (\<lambda>edited.
     txn_bind (if canonical_projection_confirmed committed responded edited
       then run_action S (release_navigation_claim_action S x committed True) else txn_return ()) (\<lambda>_.
     let exits = responded # (case edited of None \<Rightarrow> [] | Some e \<Rightarrow> [e]);
         failed = concat (map failed_exit exits) in
     if failed \<noteq> [] then txn_fail (combine_failures failed)
     else txn_return (navigation_result committed (List.map_filter exit_value exits)))))"

definition navigate_workflow ::
    "'w room_services \<Rightarrow> execution \<Rightarrow> (navigation_status room_result, 'w) room_step" where
  "navigate_workflow S x = txn_bind (decode_or_die S room_orders_navigate x) (\<lambda>_.
     txn_bind (run_action S (claim_navigation_action S x)) (\<lambda>claim.
     if \<not> nc_claimed claim
     then (let committed = denied_navigation claim in
       txn_bind (run_action S (navigation_respond_action S x committed)) (\<lambda>receipt.
       txn_return (navigation_result committed [receipt])))
     else txn_bind (run_action S (load_navigation_view_action S x claim)) (\<lambda>view.
       txn_bind (run_action S (commit_navigation_action S x view)) (finish_navigation S x))))"

end
