(* ===== verification/RoomOrderSend.thy ===== *)
theory RoomOrderSend
  imports RoomOrderFlow
begin

text \<open>
  The workflow that publishes a room order (\<open>roomOrders/sendOperations.ts\<close>, \<open>sendDefinition.ts\<close> with its
  schemas in \<open>sendSchema.ts\<close>): it claims the stored message, loads its view, sends the message, then
  records and pins what was sent, and responds.
\<close>

subsection \<open>Values of the actions\<close>

datatype send_claim_status = SendClaimed | SendAlreadySent | SendDenied

record send_claim =
  sc_context :: send_context
  sc_claim_id :: string
  sc_status :: send_claim_status
  sc_detail :: "string option"

record send_view =
  sw_context :: send_context
  sw_claim_id :: string
  sw_message :: outbound_message

datatype commit_source = SourceSent | SourceAlreadySent

record send_commit =
  cm_context :: send_context
  cm_claim_id :: string
  cm_source :: commit_source
  cm_sent_message :: message_ref
  cm_send_receipt :: "room_receipt option"

datatype record_status = Tracked | NotRequired | RecoveryRequired | Inconsistent

datatype pin_outcome = PinConfirmed room_receipt | PinRejected

datatype send_status = SendPinned | SendPartial | SendDeniedStatus

record send_response =
  sr_context :: send_context
  sr_commit :: "send_commit option"
  sr_result_message_id :: string
  sr_result_conversation_id :: string
  sr_status :: send_status
  sr_detail :: string
  sr_message :: outbound_message

abbreviation send_revoked :: flow_error where
  "send_revoked \<equiv> interactive_authorization_revoked room_orders_send"

definition make_send_claim_id :: "execution \<Rightarrow> string" where
  "make_send_claim_id x = workflow_key room_orders_send x ''claim-send''"

definition make_send_delivery_key :: "execution \<Rightarrow> string \<Rightarrow> string" where
  "make_send_delivery_key x kind = workflow_key room_orders_send x kind"

subsection \<open>Operations\<close>

definition send_load_current :: "'w room_services \<Rightarrow> send_context \<Rightarrow> (room_order_row, 'w) room_step" where
  "send_load_current S ctx = txn_bind (get_room_order S (nv_key ctx)) (\<lambda>r. case r of
     None \<Rightarrow> txn_fail Undeclared | Some row \<Rightarrow> txn_return row)"

definition send_require_canonical :: "'w room_services \<Rightarrow> send_context \<Rightarrow> (room_order_row, 'w) room_step" where
  "send_require_canonical S ctx = txn_bind (send_load_current S ctx) (\<lambda>r.
     if canonical_view_matches ctx r then txn_return r else txn_fail send_revoked)"

definition send_busy_detail :: "room_order_row \<Rightarrow> string" where
  "send_busy_detail r =
     (if ro_send_claim_id r \<noteq> None then ''room order is already being sent.''
      else if ro_update_claim_id r \<noteq> None then ''tentative room order is already being updated.''
      else if ro_pinned_at r \<noteq> None then ''tentative room order is already pinned.''
      else if ro_pin_claim_id r \<noteq> None then ''tentative room order is already being pinned.''
      else ''room order is temporarily unavailable.'')"

definition send_claim_of ::
    "send_context \<Rightarrow> room_order_row \<Rightarrow> string \<Rightarrow> send_claim_status \<Rightarrow> string option \<Rightarrow> send_claim" where
  "send_claim_of ctx r claim status detail = \<lparr>sc_context = context_from_row ctx r, sc_claim_id = claim,
     sc_status = status, sc_detail = detail\<rparr>"

definition is_sent :: "room_order_row \<Rightarrow> bool" where
  "is_sent r \<longleftrightarrow> ro_sent_message_id r \<noteq> None \<and> ro_sent_conversation_id r \<noteq> None"

definition send_op_claim :: "'w room_services \<Rightarrow> send_context \<Rightarrow> string \<Rightarrow> (send_claim, 'w) room_step" where
  "send_op_claim S ctx claim = txn_bind (send_require_canonical S ctx) (\<lambda>initial.
     if ro_tentative initial
     then txn_return (send_claim_of ctx initial claim SendDenied (Some ''cannot send a tentative room order.''))
     else if is_sent initial then txn_return (send_claim_of ctx initial claim SendAlreadySent None)
     else if ro_pinned_at initial \<noteq> None
     then txn_return (send_claim_of ctx initial claim SendDenied (Some ''tentative room order is already pinned.''))
     else if ro_send_claim_id initial = Some claim
     then txn_return (send_claim_of ctx initial claim SendClaimed None)
     else txn_bind (reconcile_mutation (mutate_room S (ClaimSend (nv_key ctx) claim))
         (send_require_canonical S ctx) (\<lambda>current. ro_send_claim_id current = Some claim)) (\<lambda>_.
       txn_bind (send_require_canonical S ctx) (\<lambda>current.
       if is_sent current then txn_return (send_claim_of ctx current claim SendAlreadySent None)
       else if ro_send_claim_id current = Some claim
       then txn_return (send_claim_of ctx current claim SendClaimed None)
       else txn_return (send_claim_of ctx current claim SendDenied (Some (send_busy_detail current))))))"

definition send_op_load_view :: "'w room_services \<Rightarrow> send_claim \<Rightarrow> (send_view, 'w) room_step" where
  "send_op_load_view S claimed = txn_bind (send_require_canonical S (sc_context claimed)) (\<lambda>current.
     txn_bind (fail_unless (ro_send_claim_id current = Some (sc_claim_id claimed)) send_revoked) (\<lambda>_.
     txn_bind (get_entries S (nv_key (sc_context claimed)) (ro_rank current)) (\<lambda>es.
     txn_bind (load_event_start S ''roomOrders.send.loadSendView'' (nv_workspace_id (sc_context claimed))) (\<lambda>start.
     txn_return \<lparr>sw_context = context_from_row (sc_context claimed) current, sw_claim_id = sc_claim_id claimed,
       sw_message = published_room_order_message (row_content S start current es)\<rparr>))))"

definition send_op_send :: "'w room_services \<Rightarrow> send_view \<Rightarrow> string \<Rightarrow> (send_commit, 'w) room_step" where
  "send_op_send S view key = txn_bind (send_require_canonical S (sw_context view)) (\<lambda>current.
     txn_bind (fail_unless (ro_send_claim_id current = Some (sw_claim_id view)) send_revoked) (\<lambda>_.
     txn_bind (deliver_or_fail S key (SendRoomMessage (context_conversation (sw_context view)) (sw_message view))
         (delivery_failure room_orders_send ''roomOrders.send.sendRoomOrderMessage'' ''room-order conversation''
           ''The room-order message delivery was rejected'' False None)) (\<lambda>receipt.
     case rr_message receipt of
       None \<Rightarrow> txn_fail Undeclared
     | Some m \<Rightarrow> txn_return \<lparr>cm_context = sw_context view, cm_claim_id = sw_claim_id view,
         cm_source = SourceSent, cm_sent_message = m, cm_send_receipt = Some receipt\<rparr>)))"

definition sent_binding_matches :: "room_order_row \<Rightarrow> send_commit \<Rightarrow> bool" where
  "sent_binding_matches r commit \<longleftrightarrow>
     ro_sent_message_id r = Some (mr_message_id (cm_sent_message commit)) \<and>
     ro_sent_conversation_id r = Some (mr_conversation_id (cm_sent_message commit))"

definition send_tracking :: "send_commit \<Rightarrow> room_order_row \<Rightarrow> record_status \<times> string option" where
  "send_tracking commit r =
     (if sent_binding_matches r commit \<and> ro_send_claim_id r = None then (Tracked, None)
      else if ro_send_claim_id r = Some (cm_claim_id commit)
      then (RecoveryRequired,
        Some ''sent room order, but tracking could not be confirmed; the claim was preserved.'')
      else (Inconsistent, Some ''sent room order, but failed to track it.''))"

definition reload_unless_revoked :: "(room_order_row, 'w) room_step \<Rightarrow> (room_order_row option, 'w) room_step" where
  "reload_unless_revoked m =
     txn_catch (txn_bind m (\<lambda>r. txn_return (Some r))) (\<lambda>e.
       if (case e of Declared f \<Rightarrow> is_authorization_revoked f | _ \<Rightarrow> False) then txn_fail e else txn_return None)"

definition send_op_record ::
    "'w room_services \<Rightarrow> send_commit \<Rightarrow> (record_status \<times> string option, 'w) room_step" where
  "send_op_record S commit =
     (if cm_source commit = SourceAlreadySent then txn_return (NotRequired, None)
      else txn_bind (send_require_canonical S (cm_context commit)) (\<lambda>prior.
        if sent_binding_matches prior commit \<and> ro_send_claim_id prior = None then txn_return (Tracked, None)
        else if ro_send_claim_id prior \<noteq> Some (cm_claim_id commit) then txn_return (send_tracking commit prior)
        else txn_bind (ask_world (rs_clock S)) (\<lambda>sent_at.
          txn_bind (txn_exit (mutate_room S (CompleteSend (nv_key (cm_context commit)) (cm_claim_id commit)
              (mr_message_id (cm_sent_message commit)) (mr_conversation_id (cm_sent_message commit)) sent_at))) (\<lambda>_.
          txn_bind (reload_unless_revoked (send_require_canonical S (cm_context commit))) (\<lambda>current.
          case current of
            None \<Rightarrow> txn_return (RecoveryRequired,
              Some ''sent room order, but tracking could not be confirmed; the claim was preserved.'')
          | Some r \<Rightarrow> txn_return (send_tracking commit r))))))"

text \<open>\<open>rejectPin\<close>: which answers to a pin are a rejection.\<close>

definition pin_answer ::
    "contract \<Rightarrow> bot_error + room_receipt \<Rightarrow> (pin_outcome, 'w) room_step" where
  "pin_answer c r =
     (case r of
        Inr receipt \<Rightarrow> txn_return (PinConfirmed receipt)
      | Inl e \<Rightarrow>
          if e \<in> {BotUnauthenticated, BotAdmissionDenied} then txn_fail (interactive_authorization_revoked c)
          else if e \<in> {BotResourceNotFound, BotResponseExpired, BotRequestRejected} then txn_return PinRejected
          else txn_fail Undeclared)"

definition send_op_pin :: "'w room_services \<Rightarrow> send_commit \<Rightarrow> string \<Rightarrow> (pin_outcome, 'w) room_step" where
  "send_op_pin S commit key = txn_bind (send_require_canonical S (cm_context commit)) (\<lambda>current.
     txn_bind (fail_unless (ro_send_claim_id current = Some (cm_claim_id commit) \<or> sent_binding_matches current commit)
         send_revoked) (\<lambda>_.
     txn_bind (deliver_room S key (PinRoomMessage (cm_sent_message commit))) (pin_answer room_orders_send)))"

definition send_op_respond ::
    "'w room_services \<Rightarrow> send_response \<Rightarrow> string \<Rightarrow> string \<Rightarrow> (room_receipt, 'w) room_step" where
  "send_op_respond S response reference key =
     deliver_or_fail S key (RespondTo reference (sr_message response))
       (delivery_failure room_orders_send ''roomOrders.send.respond'' ''response''
         ''The room-order response was rejected'' (sr_commit response \<noteq> None)
         (map_option (\<lambda>c. mr_message_id (cm_sent_message c)) (sr_commit response)))"

definition send_op_release :: "'w room_services \<Rightarrow> send_claim \<Rightarrow> (unit, 'w) room_step" where
  "send_op_release S claim = txn_bind (send_load_current S (sc_context claim)) (\<lambda>current.
     txn_bind (if ro_send_claim_id current \<noteq> Some (sc_claim_id claim) then txn_return ()
       else mutate_room S (ReleaseSend (nv_key (sc_context claim)) (sc_claim_id claim))) (\<lambda>_.
     txn_bind (send_load_current S (sc_context claim)) (\<lambda>after.
     fail_unless (ro_send_claim_id after \<noteq> Some (sc_claim_id claim)) Undeclared)))"

subsection \<open>Actions\<close>

definition authorize_send :: "'w room_services \<Rightarrow> execution \<Rightarrow> (send_context, 'w) room_step" where
  "authorize_send S x = authorize_room S room_orders_send
     (\<lambda>A. authorize_room_orders_send (rs_config S) A (ex_principal x) (ex_input x))"

definition send_reauthorize :: "'w room_services \<Rightarrow> execution \<Rightarrow> send_context \<Rightarrow> (send_context, 'w) room_step" where
  "send_reauthorize S x expected = txn_bind (authorize_send S x) (\<lambda>current.
     if navigate_context.truncate current = navigate_context.truncate expected then txn_return current
     else txn_fail send_revoked)"

definition claim_send_action :: "'w room_services \<Rightarrow> execution \<Rightarrow> (send_claim, 'w) room_step" where
  "claim_send_action S x = txn_bind (authorize_send S x) (\<lambda>ctx.
     preserve_declared_failure (send_op_claim S ctx (make_send_claim_id x)))"

definition load_send_view_action :: "'w room_services \<Rightarrow> execution \<Rightarrow> send_claim \<Rightarrow> (send_view, 'w) room_step" where
  "load_send_view_action S x claim = txn_bind (send_reauthorize S x (sc_context claim)) (\<lambda>_.
     preserve_declared_failure (send_op_load_view S claim))"

definition send_room_order_message_action ::
    "'w room_services \<Rightarrow> execution \<Rightarrow> send_view \<Rightarrow> (send_commit, 'w) room_step" where
  "send_room_order_message_action S x view = txn_bind (send_reauthorize S x (sw_context view)) (\<lambda>_.
     preserve_declared_failure (send_op_send S view (make_send_delivery_key x ''send-room-order-message'')))"

definition record_room_order_send_action ::
    "'w room_services \<Rightarrow> execution \<Rightarrow> send_commit \<Rightarrow> (record_status \<times> string option, 'w) room_step" where
  "record_room_order_send_action S x commit = txn_bind (send_reauthorize S x (cm_context commit)) (\<lambda>_.
     preserve_declared_failure (send_op_record S commit))"

definition pin_sent_room_order_action ::
    "'w room_services \<Rightarrow> execution \<Rightarrow> send_commit \<Rightarrow> (pin_outcome, 'w) room_step" where
  "pin_sent_room_order_action S x commit = txn_bind (send_reauthorize S x (cm_context commit)) (\<lambda>current.
     txn_bind (fail_unless (\<not> (cm_source commit = SourceAlreadySent \<and>
         (sx_sent_message_id current \<noteq> Some (mr_message_id (cm_sent_message commit)) \<or>
          sx_sent_conversation_id current \<noteq> Some (mr_conversation_id (cm_sent_message commit))))) send_revoked) (\<lambda>_.
     preserve_declared_failure (send_op_pin S commit (make_send_delivery_key x ''pin-sent-room-order''))))"

definition send_respond_action ::
    "'w room_services \<Rightarrow> execution \<Rightarrow> send_response \<Rightarrow> (room_receipt, 'w) room_step" where
  "send_respond_action S x response = txn_bind (send_reauthorize S x (sr_context response)) (\<lambda>_.
     txn_bind (decode_or_die S room_orders_send x) (\<lambda>_.
     preserve_declared_failure (send_op_respond S response (input_field x ''responseReference'')
       (make_send_delivery_key x ''respond''))))"

definition release_send_claim_action :: "'w room_services \<Rightarrow> send_claim \<Rightarrow> (unit, 'w) room_step" where
  "release_send_claim_action S claim = preserve_declared_failure (send_op_release S claim)"

subsection \<open>The workflow\<close>

definition send_response_from_denied :: "send_claim \<Rightarrow> send_response" where
  "send_response_from_denied claim =
     (let detail = (case sc_detail claim of Some d \<Rightarrow> d | None \<Rightarrow> ''room order is temporarily unavailable.'') in
      \<lparr>sr_context = sc_context claim, sr_commit = None,
       sr_result_message_id = mk_message_id (nv_key (sc_context claim)),
       sr_result_conversation_id = nv_conversation_id (sc_context claim),
       sr_status = SendDeniedStatus, sr_detail = detail, sr_message = text_message detail\<rparr>)"

definition committed_status ::
    "send_commit \<Rightarrow> (flow_error + record_status \<times> string option) option \<Rightarrow> flow_error + pin_outcome \<Rightarrow> send_status \<times> string" where
  "committed_status commit record_exit pinned =
     (let status = (case pinned of Inr (PinConfirmed _) \<Rightarrow> SendPinned | _ \<Rightarrow> SendPartial) in
      if cm_source commit = SourceAlreadySent
      then (status, if status = SendPinned then ''room order was already sent and is now pinned.''
        else ''room order was already sent, but pinning still failed.'')
      else case Option.bind record_exit exit_value of
        None \<Rightarrow> (SendPartial, ''sent room order, but tracking could not be confirmed; the claim was preserved.'')
      | Some (tracking, detail) \<Rightarrow>
          if tracking \<in> {RecoveryRequired, Inconsistent}
          then (SendPartial, case detail of Some d \<Rightarrow> d | None \<Rightarrow> ''sent room order, but failed to track it.'')
          else (status, case pinned of
              Inr (PinConfirmed _) \<Rightarrow> room_order_send_acknowledgement True
            | Inr PinRejected \<Rightarrow> room_order_send_acknowledgement False
            | Inl _ \<Rightarrow> ''sent room order, but pinning could not be confirmed.''))"

definition send_response_from_commit ::
    "send_commit \<Rightarrow> (flow_error + record_status \<times> string option) option \<Rightarrow> flow_error + pin_outcome \<Rightarrow> send_response" where
  "send_response_from_commit commit record_exit pinned =
     (case committed_status commit record_exit pinned of (status, detail) \<Rightarrow>
        \<lparr>sr_context = cm_context commit, sr_commit = Some commit,
         sr_result_message_id = mr_message_id (cm_sent_message commit),
         sr_result_conversation_id = mr_conversation_id (cm_sent_message commit),
         sr_status = status, sr_detail = detail, sr_message = text_message detail\<rparr>)"

definition already_sent_commit :: "send_claim \<Rightarrow> (send_commit, 'w) room_step" where
  "already_sent_commit claim =
     (case (sx_sent_message_id (sc_context claim), sx_sent_conversation_id (sc_context claim)) of
        (Some m, Some c) \<Rightarrow> txn_return \<lparr>cm_context = sc_context claim, cm_claim_id = sc_claim_id claim,
          cm_source = SourceAlreadySent,
          cm_sent_message = message_ref_from (row_client (sc_context claim)) (nv_workspace_id (sc_context claim)) c m,
          cm_send_receipt = None\<rparr>
      | _ \<Rightarrow> txn_fail Died)"

definition send_result :: "send_response \<Rightarrow> room_receipt list \<Rightarrow> send_status room_result" where
  "send_result response receipts = \<lparr>rm_message_id = sr_result_message_id response,
     rm_conversation_id = sr_result_conversation_id response, rm_status = sr_status response,
     rm_detail = Some (sr_detail response), rm_receipts = receipts\<rparr>"

text \<open>Whether the failure of the send action makes the workflow give its claim back.\<close>

definition releases_claim :: "flow_error \<Rightarrow> bool" where
  "releases_claim e =
     (case e of
        Declared (AuthorizationRevoked _) \<Rightarrow> True
      | Declared (DeliveryRejected _ _ _ recovery_required) \<Rightarrow> \<not> recovery_required
      | _ \<Rightarrow> False)"

definition commit_send ::
    "'w room_services \<Rightarrow> execution \<Rightarrow> send_claim \<Rightarrow> (send_commit, 'w) room_step" where
  "commit_send S x claim =
     (if sc_status claim = SendAlreadySent then already_sent_commit claim
      else txn_bind (txn_catch_cause (run_action S (load_send_view_action S x claim))
          (\<lambda>e. compensate_and_fail e (run_action S (release_send_claim_action S claim)))) (\<lambda>view.
        txn_bind (txn_exit (run_action S (send_room_order_message_action S x view))) (\<lambda>sent.
        case sent of
          Inr commit \<Rightarrow> txn_return commit
        | Inl e \<Rightarrow>
            if releases_claim e then compensate_and_fail e (run_action S (release_send_claim_action S claim))
            else txn_fail e)))"

definition finish_send ::
    "'w room_services \<Rightarrow> execution \<Rightarrow> send_commit \<Rightarrow> (send_status room_result, 'w) room_step" where
  "finish_send S x commit = txn_bind
     (if cm_source commit = SourceSent
      then txn_bind (run_both S (run_action S (record_room_order_send_action S x commit))
             (run_action S (pin_sent_room_order_action S x commit))) (\<lambda>(r, p). txn_return (Some r, p))
      else txn_bind (txn_exit (run_action S (pin_sent_room_order_action S x commit))) (\<lambda>p. txn_return (None, p)))
     (\<lambda>(record_exit, pinned).
       let response = send_response_from_commit commit record_exit pinned in
       txn_bind (txn_exit (run_action S (send_respond_action S x response))) (\<lambda>responded.
       let failed = (case record_exit of None \<Rightarrow> [] | Some r \<Rightarrow> failed_exit r) @ failed_exit pinned @ failed_exit responded in
       if failed \<noteq> [] then txn_fail (combine_failures failed)
       else txn_return (send_result response
         ((case cm_send_receipt commit of None \<Rightarrow> [] | Some r \<Rightarrow> [r]) @
          (case pinned of Inr (PinConfirmed r) \<Rightarrow> [r] | _ \<Rightarrow> []) @
          (case responded of Inr r \<Rightarrow> [r] | _ \<Rightarrow> [])))))"

definition send_workflow :: "'w room_services \<Rightarrow> execution \<Rightarrow> (send_status room_result, 'w) room_step" where
  "send_workflow S x = txn_bind (decode_or_die S room_orders_send x) (\<lambda>_.
     txn_bind (run_action S (claim_send_action S x)) (\<lambda>claim.
     if sc_status claim = SendDenied
     then (let response = send_response_from_denied claim in
       txn_bind (run_action S (send_respond_action S x response)) (\<lambda>receipt.
       txn_return (send_result response [receipt])))
     else txn_bind (commit_send S x claim) (finish_send S x)))"

end
