(* ===== verification/RoomOrderLogic.thy ===== *)
theory RoomOrderLogic
  imports RoomOrderFlow
begin

text \<open>
  What the steps of the room-order workflows keep: triples whose condition for failures also sees the
  failure, and invariants of the call log that other actors and the outside world do not change.
\<close>

subsection \<open>Triples that see the failure\<close>

definition etriple ::
    "('s \<Rightarrow> bool) \<Rightarrow> ('a, 's) flow_step \<Rightarrow> ('a \<Rightarrow> 's \<Rightarrow> bool) \<Rightarrow> (flow_error \<Rightarrow> 's \<Rightarrow> bool) \<Rightarrow> bool" where
  "etriple P m Q E \<longleftrightarrow> (\<forall>s. P s \<longrightarrow> (case m s of (Inl e, t) \<Rightarrow> E e t | (Inr a, t) \<Rightarrow> Q a t))"

lemma etripleI:
  "(\<And>s e t. P s \<Longrightarrow> m s = (Inl e, t) \<Longrightarrow> E e t) \<Longrightarrow> (\<And>s a t. P s \<Longrightarrow> m s = (Inr a, t) \<Longrightarrow> Q a t) \<Longrightarrow> etriple P m Q E"
  by (auto simp: etriple_def split: prod.splits sum.splits)

lemma etripleD:
  assumes "etriple P m Q E" and "P s"
  shows "m s = (Inl e, t) \<Longrightarrow> E e t" and "m s = (Inr a, t) \<Longrightarrow> Q a t"
  using assms by (auto simp: etriple_def dest: spec [of _ s])

lemma etriple_of_triple: "triple P m Q E \<Longrightarrow> etriple P m Q (\<lambda>_. E)"
  by (simp add: etriple_def triple_def)

lemma triple_of_etriple: "etriple P m Q (\<lambda>_. E) \<Longrightarrow> triple P m Q E"
  by (simp add: etriple_def triple_def)

lemma etriple_pre: "etriple P' m Q E \<Longrightarrow> (\<And>s. P s \<Longrightarrow> P' s) \<Longrightarrow> etriple P m Q E"
  by (simp add: etriple_def)

lemma etriple_post:
  assumes "etriple P m Q' E'" and "\<And>a s. Q' a s \<Longrightarrow> Q a s" and "\<And>e s. E' e s \<Longrightarrow> E e s"
  shows "etriple P m Q E"
  by (rule etripleI) (use assms(2,3) etripleD [OF assms(1)] in blast)+

lemma etriple_bind:
  "etriple P m Q E \<Longrightarrow> (\<And>a. etriple (Q a) (f a) R E) \<Longrightarrow> etriple P (txn_bind m f) R E"
  unfolding etriple_def txn_bind_def by (fastforce split: prod.splits sum.splits)

lemma etriple_return: "(\<And>s. P s \<Longrightarrow> Q a s) \<Longrightarrow> etriple P (txn_return a) Q E"
  by (simp add: etriple_def txn_return_def)

lemma etriple_fail: "(\<And>s. P s \<Longrightarrow> E e s) \<Longrightarrow> etriple P (txn_fail e) Q E"
  by (simp add: etriple_def txn_fail_def)

lemma etriple_if: "(b \<Longrightarrow> etriple P m Q E) \<Longrightarrow> (\<not> b \<Longrightarrow> etriple P m' Q E) \<Longrightarrow> etriple P (if b then m else m') Q E"
  by simp

lemma etriple_exit:
  assumes "etriple P m Q E"
  shows "etriple P (txn_exit m) (\<lambda>r s. case r of Inl e \<Rightarrow> E e s | Inr a \<Rightarrow> Q a s) E"
  by (rule etripleI) (use etripleD [OF assms] in \<open>auto simp: txn_exit_def split: prod.splits sum.splits flow_error.splits\<close>)

lemma etriple_catch_cause:
  assumes "etriple P m Q F" and "\<And>e. etriple (F e) (h e) Q E" and "\<And>s. F Interrupted s \<Longrightarrow> E Interrupted s"
  shows "etriple P (txn_catch_cause m h) Q E"
proof (rule etripleI)
  show "E e t" if "P s" "txn_catch_cause m h s = (Inl e, t)" for s e t
    using that etripleD(1) [OF assms(1) that(1)] assms(3) etripleD(1) [OF assms(2)]
    by (auto simp: txn_catch_cause_def split: prod.splits sum.splits if_splits)
  show "Q a t" if "P s" "txn_catch_cause m h s = (Inr a, t)" for s a t
    using that etripleD [OF assms(1) that(1)] etripleD(2) [OF assms(2)]
    by (auto simp: txn_catch_cause_def split: prod.splits sum.splits if_splits)
qed

lemma etriple_preserve:
  assumes "etriple P m Q F" and "\<And>f s. F (Declared f) s \<Longrightarrow> E (Declared f) s"
    and "\<And>s. F Undeclared s \<Longrightarrow> E Died s" and "\<And>e s. e \<in> {Died, Interrupted} \<Longrightarrow> F e s \<Longrightarrow> E e s"
  shows "etriple P (preserve_declared_failure m) Q E"
proof (rule etripleI)
  show "E e t" if "P s" "preserve_declared_failure m s = (Inl e, t)" for s e t
  proof (cases "m s")
    case (Pair r u)
    show ?thesis
    proof (cases r)
      case (Inl e')
      have "F e' u" using etripleD(1) [OF assms(1) that(1)] Pair Inl by simp
      then show ?thesis
        using that(2) Pair Inl assms(2-4)
        by (cases e') (auto simp: preserve_declared_failure_def map_error_def txn_catch_def txn_fail_def)
    next
      case (Inr a)
      then show ?thesis using that(2) Pair
        by (simp add: preserve_declared_failure_def map_error_def txn_catch_def)
    qed
  qed
  show "Q a t" if "P s" "preserve_declared_failure m s = (Inr a, t)" for s a t
    using that etripleD(2) [OF assms(1) that(1)]
    by (auto simp: preserve_declared_failure_def map_error_def txn_catch_def txn_fail_def
        split: prod.splits sum.splits if_splits)
qed

lemma triple_conj:
  "triple P m Q E \<Longrightarrow> triple P' m Q' E' \<Longrightarrow>
     triple (\<lambda>s. P s \<and> P' s) m (\<lambda>a s. Q a s \<and> Q' a s) (\<lambda>s. E s \<and> E' s)"
  by (fastforce simp: triple_def split: prod.splits sum.splits)

lemma etriple_conj:
  "etriple P m Q E \<Longrightarrow> etriple P' m Q' E' \<Longrightarrow>
     etriple (\<lambda>s. P s \<and> P' s) m (\<lambda>a s. Q a s \<and> Q' a s) (\<lambda>e s. E e s \<and> E' e s)"
  by (fastforce simp: etriple_def split: prod.splits sum.splits)

subsection \<open>Call logs\<close>

lemma room_flow_log [simp]:
  "rf_db (log_room c s) = rf_db s" "rf_world (log_room c s) = rf_world s" "rf_calls (log_room c s) = rf_calls s @ [c]"
  by (simp_all add: log_room_def)

text \<open>Every call of a log fits the calls before it.\<close>

definition each_call :: "(room_call list \<Rightarrow> room_call \<Rightarrow> bool) \<Rightarrow> room_call list \<Rightarrow> bool" where
  "each_call P calls \<longleftrightarrow> (\<forall>i<length calls. P (take i calls) (calls ! i))"

lemma each_call_Nil [simp]: "each_call P []"
  by (simp add: each_call_def)

lemma each_call_snoc [simp]: "each_call P (calls @ [c]) \<longleftrightarrow> each_call P calls \<and> P calls c"
  by (auto simp: each_call_def nth_append less_Suc_eq)

lemma each_callD: "each_call P (pre @ c # rest) \<Longrightarrow> P pre c"
  unfolding each_call_def by (drule spec [of _ "length pre"]) simp

subsection \<open>Invariants of the log\<close>

text \<open>
  An invariant that neither the outside world nor other actors change, and that keeps under the calls in
  \<open>harmless\<close>: a step whose calls are harmless keeps it.
\<close>

locale room_invariant =
  fixes I :: "'w room_flow \<Rightarrow> bool" and harmless :: "room_call \<Rightarrow> bool"
  assumes keeps_world: "I s \<Longrightarrow> I (s\<lparr>rf_world := w\<rparr>)"
    and keeps_db: "I s \<Longrightarrow> I (s\<lparr>rf_db := db\<rparr>)"
    and keeps_call: "I s \<Longrightarrow> harmless c \<Longrightarrow> I (log_room c s)"
    and harmless_read: "harmless (RoomRead r)"
    and harmless_authorized: "harmless (RoomAuthorized b)"
begin

lemma keeps_ask: "triple I (ask_world f) (\<lambda>_. I) I"
  by (rule tripleI) (auto simp: ask_world_def keeps_world split: prod.splits)

lemma keeps_look: "triple I (look_world f) (\<lambda>_. I) I"
  unfolding look_world_def
  by (rule keeps_bind [OF keeps_ask]) (auto intro: triple_return triple_fail split: lookup.splits)

lemma keeps_others: "triple I (others_act S) (\<lambda>_. I) I"
  unfolding others_act_def by (rule keeps_bind [OF keeps_ask], rule tripleI) (auto simp: keeps_db)

lemma keeps_get: "triple I (get_room_order S k) (\<lambda>_. I) I"
  unfolding get_room_order_def
  by (intro keeps_bind keeps_others keeps_look, rule tripleI)
    (auto simp: Let_def intro!: keeps_call harmless_read)

text \<open>A read is the last call.\<close>

lemma get_reads: "triple I (get_room_order S k)
    (\<lambda>r s. I s \<and> (\<exists>before. rf_calls s = before @ [RoomRead r]) \<and> r = find_active_message_room_order k (rf_db s)) I"
  unfolding get_room_order_def
  by (rule triple_bind [OF keeps_others], rule triple_bind [OF keeps_look], rule tripleI)
    (auto simp: Let_def find_active_message_room_order_def intro!: keeps_call harmless_read)

lemma keeps_entries: "triple I (get_entries S k rank) (\<lambda>_. I) I"
  unfolding get_entries_def by (intro keeps_bind keeps_others keeps_look, rule tripleI) auto

lemma keeps_range: "triple I (get_range S k) (\<lambda>_. I) I"
  unfolding get_range_def by (intro keeps_bind keeps_others keeps_look, rule tripleI) auto

lemma keeps_send_mutation:
  assumes "\<And>b. harmless (RoomMutation m b)"
  shows "triple I (send_mutation m x) (\<lambda>_. I) I"
proof -
  obtain now stamp fault where x: "x = ((now, stamp), fault)" by (cases x) auto
  show ?thesis
    by (rule tripleI)
      (use assms in \<open>auto simp: send_mutation_def x split: prod.splits sum.splits if_splits
        intro!: keeps_call keeps_db\<close>)
qed

lemma keeps_mutate: "(\<And>b. harmless (RoomMutation m b)) \<Longrightarrow> triple I (mutate_room S m) (\<lambda>_. I) I"
  unfolding mutate_room_def by (intro keeps_bind keeps_others keeps_ask keeps_send_mutation)

lemma keeps_deliver: "(\<And>a. harmless (RoomDeliver key d a)) \<Longrightarrow> triple I (deliver_room S key d) (\<lambda>_. I) I"
  unfolding deliver_room_def
  by (rule keeps_bind [OF keeps_ask], rule tripleI)
    (auto simp: Let_def intro!: keeps_call split: delivery_answer.splits)

lemma keeps_deliver_or_fail:
  "(\<And>a. harmless (RoomDeliver key d a)) \<Longrightarrow> triple I (deliver_or_fail S key d f) (\<lambda>_. I) I"
  unfolding deliver_or_fail_def
  by (rule keeps_bind [OF keeps_deliver]) (auto intro: triple_return triple_fail split: sum.splits)

lemma keeps_authorize: "triple I (authorize_room S c f) (\<lambda>_. I) I"
  unfolding authorize_room_def
  by (intro triple_preserve keeps_bind keeps_others keeps_look, rule tripleI)
    (auto split: sum.splits authorization_error.splits intro!: keeps_call harmless_authorized)

lemma keeps_option: "triple I m (\<lambda>_. I) I \<Longrightarrow> (\<And>a. triple I (f a) (\<lambda>_. I) I) \<Longrightarrow>
    triple I (case x of None \<Rightarrow> m | Some a \<Rightarrow> f a) (\<lambda>_. I) I"
  by (cases x) simp_all

lemma keeps_sum: "(\<And>a. triple I (f a) (\<lambda>_. I) I) \<Longrightarrow> (\<And>b. triple I (g b) (\<lambda>_. I) I) \<Longrightarrow>
    triple I (case x of Inl a \<Rightarrow> f a | Inr b \<Rightarrow> g b) (\<lambda>_. I) I"
  by (cases x) simp_all

lemma keeps_fail: "triple I (txn_fail e) (\<lambda>_. I) I"
  by (rule triple_fail)

lemma keeps_event_start: "triple I (load_event_start S operation w) (\<lambda>_. I) I"
  unfolding load_event_start_def
  by (rule keeps_bind [OF keeps_look], rule keeps_option [OF keeps_fail], rule keeps_option [OF keeps_fail],
      rule keeps_bind [OF keeps_catch [OF keeps_look keeps_fail]], rule keeps_option [OF keeps_fail keeps_return])

lemma keeps_reconcile:
  "triple I m (\<lambda>_. I) I \<Longrightarrow> triple I reload (\<lambda>_. I) I \<Longrightarrow> triple I (reconcile_mutation m reload p) (\<lambda>_. I) I"
  unfolding reconcile_mutation_def
  by (rule triple_catch_cause, assumption, rule keeps_bind, assumption, rule triple_if)
    (rule keeps_return keeps_fail | assumption)+

lemma repeat_keeps:
  assumes m: "triple I m Q I" and Q: "\<And>a s. Q a s \<Longrightarrow> I s"
  shows "triple I (repeat_step n m) Q I"
proof (induction n)
  case (Suc n)
  have m': "triple I m (\<lambda>_. I) I" by (rule triple_post [OF m]) (use Q in auto)
  show ?case
  proof (rule tripleI)
    fix s t e a assume s: "I s"
    note t = tripleD [OF Suc.IH triple_always [OF m' s]]
    show "I t" if "repeat_step (Suc n) m s = (Inl e, t)" using t(1) that by simp
    show "Q a t" if "repeat_step (Suc n) m s = (Inr a, t)" using t(2) that by simp
  qed
qed (use m in simp)

lemma run_action_keeps: "triple I m Q I \<Longrightarrow> (\<And>a s. Q a s \<Longrightarrow> I s) \<Longrightarrow> triple I (run_action S m) Q I"
  unfolding run_action_def by (rule triple_bind [OF keeps_ask repeat_keeps])

lemma keeps_run_action: "triple I m (\<lambda>_. I) I \<Longrightarrow> triple I (run_action S m) (\<lambda>_. I) I"
  by (rule run_action_keeps)

lemma keeps_exit: "triple I m (\<lambda>_. I) I \<Longrightarrow> triple I (txn_exit m) (\<lambda>_. I) I"
  by (rule tripleI) (auto simp: txn_exit_def triple_def split: prod.splits sum.splits flow_error.splits)

lemma keeps_both:
  "triple I m (\<lambda>_. I) I \<Longrightarrow> triple I n (\<lambda>_. I) I \<Longrightarrow> triple I (run_both S m n) (\<lambda>_. I) I"
  unfolding run_both_def by (intro keeps_bind keeps_ask triple_if keeps_exit keeps_return)

lemma keeps_catch_cause:
  "triple I m (\<lambda>_. I) I \<Longrightarrow> (\<And>e. triple I (h e) (\<lambda>_. I) I) \<Longrightarrow> triple I (txn_catch_cause m h) (\<lambda>_. I) I"
  by (rule triple_catch_cause)

lemma keeps_compensate: "triple I m (\<lambda>_. I) I \<Longrightarrow> triple I (compensate_and_fail e m) (\<lambda>_. I) I"
  unfolding compensate_and_fail_def by (intro keeps_bind keeps_catch_cause keeps_fail)

lemma keeps_preserve: "triple I m (\<lambda>_. I) I \<Longrightarrow> triple I (preserve_declared_failure m) (\<lambda>_. I) I"
  by (rule triple_preserve)

lemma keeps_unless: "triple I (fail_unless b e) (\<lambda>_. I) I"
  unfolding fail_unless_def by (intro triple_if keeps_return keeps_fail)

lemma keeps_decode: "triple I (decode_or_die S c x) (\<lambda>_. I) I"
  unfolding decode_or_die_def by (intro triple_if keeps_return keeps_fail)

lemmas room_keeps = keeps_bind keeps_catch keeps_return keeps_fail triple_if keeps_option keeps_sum keeps_ask keeps_look
  keeps_get keeps_entries keeps_range keeps_event_start keeps_authorize keeps_reconcile keeps_run_action
  keeps_exit keeps_both keeps_catch_cause keeps_compensate keeps_preserve keeps_unless keeps_decode

end

lemma triple_fail_unless: "(\<And>s. P s \<Longrightarrow> b \<Longrightarrow> Q () s) \<Longrightarrow> (\<And>s. P s \<Longrightarrow> \<not> b \<Longrightarrow> E s) \<Longrightarrow> triple P (fail_unless b e) Q E"
  by (auto simp: triple_def fail_unless_def txn_return_def txn_fail_def)

lemma etriple_fail_unless:
  "(\<And>s. P s \<Longrightarrow> b \<Longrightarrow> Q () s) \<Longrightarrow> (\<And>s. P s \<Longrightarrow> \<not> b \<Longrightarrow> E e s) \<Longrightarrow> etriple P (fail_unless b e) Q E"
  by (auto simp: etriple_def fail_unless_def txn_return_def txn_fail_def)

subsection \<open>Values of steps\<close>

text \<open>Whatever the state, a value that the step ends with has a property.\<close>

definition yields :: "('a, 's) flow_step \<Rightarrow> ('a \<Rightarrow> bool) \<Rightarrow> bool" where
  "yields m V \<longleftrightarrow> (\<forall>s a t. m s = (Inr a, t) \<longrightarrow> V a)"

lemma yieldsD: "yields m V \<Longrightarrow> m s = (Inr a, t) \<Longrightarrow> V a"
  by (auto simp: yields_def)

lemma yields_any [simp]: "yields m (\<lambda>_. True)"
  by (simp add: yields_def)

lemma yields_mono: "yields m V \<Longrightarrow> (\<And>a. V a \<Longrightarrow> W a) \<Longrightarrow> yields m W"
  by (auto simp: yields_def)

lemma yields_return: "V a \<Longrightarrow> yields (txn_return a) V"
  by (simp add: yields_def txn_return_def)

lemma yields_fail: "yields (txn_fail e) V"
  by (simp add: yields_def txn_fail_def)

lemma yields_bind: "yields m V \<Longrightarrow> (\<And>a. V a \<Longrightarrow> yields (f a) W) \<Longrightarrow> yields (txn_bind m f) W"
  by (fastforce simp: yields_def txn_bind_ok)

lemma yields_then: "(\<And>a. yields (f a) W) \<Longrightarrow> yields (txn_bind m f) W"
  by (rule yields_bind [OF yields_any])

lemma yields_if: "(b \<Longrightarrow> yields m V) \<Longrightarrow> (\<not> b \<Longrightarrow> yields m' V) \<Longrightarrow> yields (if b then m else m') V"
  by simp

lemma yields_option: "(x = None \<Longrightarrow> yields m V) \<Longrightarrow> (\<And>a. x = Some a \<Longrightarrow> yields (f a) V) \<Longrightarrow>
    yields (case x of None \<Rightarrow> m | Some a \<Rightarrow> f a) V"
  by (cases x) simp_all

lemma yields_preserve: "yields m V \<Longrightarrow> yields (preserve_declared_failure m) V"
  by (auto simp: yields_def preserve_declared_failure_def map_error_def txn_catch_def txn_fail_def
      split: prod.splits sum.splits if_splits)

lemma yields_catch_cause: "yields m V \<Longrightarrow> (\<And>e. yields (h e) V) \<Longrightarrow> yields (txn_catch_cause m h) V"
  by (auto simp: yields_def txn_catch_cause_def split: prod.splits sum.splits if_splits)

lemma yields_repeat: "yields m V \<Longrightarrow> yields (repeat_step n m) V"
  by (induction n) (auto simp: yields_def)

lemma yields_run_action: "yields m V \<Longrightarrow> yields (run_action S m) V"
  unfolding run_action_def by (rule yields_then, rule yields_repeat)

lemma yields_exit: "yields m V \<Longrightarrow> yields (txn_exit m) (\<lambda>r. case r of Inl _ \<Rightarrow> True | Inr a \<Rightarrow> V a)"
  by (auto simp: yields_def txn_exit_def split: prod.splits sum.splits flow_error.splits)

lemma yields_compensate: "yields (compensate_and_fail e m) V"
  unfolding compensate_and_fail_def by (rule yields_then, rule yields_fail)

lemma triple_bind_value:
  assumes "triple P m Q E" and "yields m V" and "\<And>a. V a \<Longrightarrow> triple (Q a) (f a) R E"
  shows "triple P (txn_bind m f) R E"
proof (rule triple_bind)
  show "triple P m (\<lambda>a s. Q a s \<and> V a) E"
    by (rule tripleI) (use tripleD [OF assms(1)] yieldsD [OF assms(2)] in blast)+
  show "triple (\<lambda>s. Q a s \<and> V a) (f a) R E" for a
    by (rule triple_const) (rule assms(3))
qed

lemma etriple_bind_value:
  assumes "etriple P m Q E" and "yields m V" and "\<And>a. V a \<Longrightarrow> etriple (Q a) (f a) R E"
  shows "etriple P (txn_bind m f) R E"
proof (rule etriple_bind)
  show "etriple P m (\<lambda>a s. Q a s \<and> V a) E"
    by (rule etripleI) (use etripleD [OF assms(1)] yieldsD [OF assms(2)] in blast)+
  show "etriple (\<lambda>s. Q a s \<and> V a) (f a) R E" for a
    using assms(3) by (auto simp: etriple_def)
qed

text \<open>What a delivery adds to the log.\<close>

lemma etriple_deliver:
  assumes "\<And>s w r. P s \<Longrightarrow> Q (Inr r) (log_room (RoomDeliver key d (Answered r)) (s\<lparr>rf_world := w\<rparr>))"
    and "\<And>s w e. P s \<Longrightarrow> Q (Inl e) (log_room (RoomDeliver key d (Refused e)) (s\<lparr>rf_world := w\<rparr>))"
    and "\<And>s w. P s \<Longrightarrow> E Interrupted (log_room (RoomDeliver key d AnswerInterrupted) (s\<lparr>rf_world := w\<rparr>))"
  shows "etriple P (deliver_room S key d) Q E"
  by (rule etripleI)
    (use assms in \<open>auto simp: deliver_room_def ask_world_def txn_bind_def Let_def split: prod.splits delivery_answer.splits\<close>)

lemma etriple_deliver_or_fail:
  assumes "\<And>s w r. P s \<Longrightarrow> Q r (log_room (RoomDeliver key d (Answered r)) (s\<lparr>rf_world := w\<rparr>))"
    and "\<And>s w e. P s \<Longrightarrow> E (f e) (log_room (RoomDeliver key d (Refused e)) (s\<lparr>rf_world := w\<rparr>))"
    and "\<And>s w. P s \<Longrightarrow> E Interrupted (log_room (RoomDeliver key d AnswerInterrupted) (s\<lparr>rf_world := w\<rparr>))"
  shows "etriple P (deliver_or_fail S key d f) Q E"
  unfolding deliver_or_fail_def
proof (rule etriple_bind)
  show "etriple P (deliver_room S key d) (\<lambda>r s. case r of Inl e \<Rightarrow> E (f e) s | Inr x \<Rightarrow> Q x s) E"
    by (rule etriple_deliver) (use assms in auto)
  show "etriple (\<lambda>s. case r of Inl e \<Rightarrow> E (f e) s | Inr x \<Rightarrow> Q x s)
      (case r of Inl e \<Rightarrow> txn_fail (f e) | Inr x \<Rightarrow> txn_return x) Q E" for r
    by (cases r) (auto intro: etriple_return etriple_fail)
qed

lemma run_action_once:
  assumes "\<And>w. fst (rs_lost S w) = 0"
  shows "run_action S m s = m (s\<lparr>rf_world := snd (rs_lost S (rf_world s))\<rparr>)"
  using assms [of "rf_world s"] by (auto simp: run_action_def ask_world_def txn_bind_def split: prod.splits)

end
