(* ===== verification/RoomOrderSendGuarantees.thy ===== *)
theory RoomOrderSendGuarantees
  imports RoomOrderSend RoomOrderLogic AuthorizationGuarantees
begin

text \<open>
  What holds of the workflow that publishes a room order, whatever its services answer and other actors
  do meanwhile: which calls it makes, what it sends and records, when it gives its claim back, what a
  result that says it is pinned rests on.
\<close>

subsection \<open>The calls of the workflow\<close>

definition order_key :: "'w room_services \<Rightarrow> execution \<Rightarrow> message_key" where
  "order_key S x = discord_key (rs_config S) (input_field x ''messageId'')"

fun own_send_mutation :: "message_key \<Rightarrow> string \<Rightarrow> room_mutation \<Rightarrow> bool" where
  "own_send_mutation k c (ClaimSend k' c') \<longleftrightarrow> k' = k \<and> c' = c"
| "own_send_mutation k c (CompleteSend k' c' _ _ _) \<longleftrightarrow> k' = k \<and> c' = c"
| "own_send_mutation k c (ReleaseSend k' c') \<longleftrightarrow> k' = k \<and> c' = c"
| "own_send_mutation k c _ \<longleftrightarrow> False"

fun own_send_delivery :: "execution \<Rightarrow> string \<Rightarrow> room_delivery \<Rightarrow> bool" where
  "own_send_delivery x key (SendRoomMessage _ _) \<longleftrightarrow> key = make_send_delivery_key x ''send-room-order-message''"
| "own_send_delivery x key (PinRoomMessage _) \<longleftrightarrow> key = make_send_delivery_key x ''pin-sent-room-order''"
| "own_send_delivery x key (RespondTo reference _) \<longleftrightarrow>
     key = make_send_delivery_key x ''respond'' \<and> reference = input_field x ''responseReference''"
| "own_send_delivery x key (EditRoomMessage _ _) \<longleftrightarrow> False"

fun own_send_call :: "'w room_services \<Rightarrow> execution \<Rightarrow> room_call \<Rightarrow> bool" where
  "own_send_call S x (RoomMutation m _) \<longleftrightarrow> own_send_mutation (order_key S x) (make_send_claim_id x) m"
| "own_send_call S x (RoomDeliver key d _) \<longleftrightarrow> own_send_delivery x key d"
| "own_send_call S x _ \<longleftrightarrow> True"

subsection \<open>The values of its actions\<close>

definition own_context :: "'w room_services \<Rightarrow> execution \<Rightarrow> 'z navigate_context_scheme \<Rightarrow> bool" where
  "own_context S x ctx \<longleftrightarrow> nv_key ctx = order_key S x"

definition own_claim :: "'w room_services \<Rightarrow> execution \<Rightarrow> send_claim \<Rightarrow> bool" where
  "own_claim S x c \<longleftrightarrow> own_context S x (sc_context c) \<and> sc_claim_id c = make_send_claim_id x"

definition own_view :: "'w room_services \<Rightarrow> execution \<Rightarrow> send_view \<Rightarrow> bool" where
  "own_view S x v \<longleftrightarrow> own_context S x (sw_context v) \<and> sw_claim_id v = make_send_claim_id x \<and>
     (\<exists>start es r. sw_message v = published_room_order_message (row_content S start r es) \<and>
        canonical_view_matches (sw_context v) r)"

definition own_commit :: "'w room_services \<Rightarrow> execution \<Rightarrow> send_commit \<Rightarrow> bool" where
  "own_commit S x c \<longleftrightarrow> own_context S x (cm_context c) \<and> cm_claim_id c = make_send_claim_id x"

lemmas own_defs = own_context_def own_claim_def own_view_def own_commit_def

lemma own_context_from_row [simp]: "own_context S x (context_from_row ctx r) = own_context S x ctx"
  by (simp add: own_context_def context_from_row_def)

lemma canonical_from_row [simp]: "canonical_view_matches (context_from_row ctx r') r = canonical_view_matches ctx r"
  by (simp add: canonical_view_matches_def context_from_row_def)

lemma canonical_content:
  "canonical_view_matches ctx r \<Longrightarrow> canonical_view_matches ctx r' \<Longrightarrow> row_content S start r es = row_content S start r' es"
  by (simp add: canonical_view_matches_def row_content_def)

lemma authorize_send_context:
  assumes "authorize_room_orders_send C A p inp = Inr ctx"
  shows "\<exists>m. string_field_from_input inp ''messageId'' = Some m \<and> nv_key ctx = discord_key C m"
  using assms
  by (fastforce simp: authorize_room_orders_send_def authorize_room_order_send_shape_def authorize_room_order_def
      special_policies policy_input_def field_or_def user_with_message_Some authorized_simps send_context_of_def split_beta)

lemma authorize_room_yields:
  assumes "\<And>A ctx. f A = Inr ctx \<Longrightarrow> V ctx"
  shows "yields (authorize_room S c f) V"
  unfolding authorize_room_def
  by (intro yields_preserve yields_then)
    (auto simp: yields_def intro: assms split: sum.splits authorization_error.splits)

lemma authorize_send_own: "yields (authorize_send S x) (own_context S x)"
  unfolding authorize_send_def
  by (rule authorize_room_yields) (auto simp: own_context_def order_key_def input_field_def dest!: authorize_send_context)

lemma reauthorize_own: "yields (send_reauthorize S x expected) (own_context S x)"
  unfolding send_reauthorize_def
  by (rule yields_bind [OF authorize_send_own]) (intro yields_if yields_return yields_fail)

lemma send_require_canonical_yields: "yields (send_require_canonical S ctx) (canonical_view_matches ctx)"
  unfolding send_require_canonical_def by (intro yields_then yields_if yields_return yields_fail)

lemma send_claim_of_own: "own_context S x ctx \<Longrightarrow> own_claim S x (send_claim_of ctx r (make_send_claim_id x) st d)"
  by (simp add: own_claim_def send_claim_of_def)

lemma claim_action_own: "yields (claim_send_action S x) (own_claim S x)"
  unfolding claim_send_action_def send_op_claim_def
  by (rule yields_bind [OF authorize_send_own])
    (intro yields_preserve yields_then yields_if yields_return send_claim_of_own)

lemma load_action_own: "own_claim S x c \<Longrightarrow> yields (load_send_view_action S x c) (own_view S x)"
  unfolding load_send_view_action_def send_op_load_view_def
  by (intro yields_preserve yields_then yields_bind [OF send_require_canonical_yields] yields_return)
    (auto simp: own_claim_def own_view_def)

lemma send_action_own: "own_view S x v \<Longrightarrow> yields (send_room_order_message_action S x v) (own_commit S x)"
  unfolding send_room_order_message_action_def send_op_send_def
  by (intro yields_preserve yields_then yields_option yields_return yields_fail) (simp add: own_view_def own_commit_def)

lemma already_sent_own: "own_claim S x c \<Longrightarrow> yields (already_sent_commit c) (own_commit S x)"
  by (auto simp: already_sent_commit_def own_claim_def own_commit_def yields_return yields_fail split: option.splits)

lemma commit_send_own: "own_claim S x c \<Longrightarrow> yields (commit_send S x c) (own_commit S x)"
  unfolding commit_send_def
proof (intro yields_if already_sent_own)
  assume c: "own_claim S x c"
  let ?load = "txn_catch_cause (run_action S (load_send_view_action S x c))
    (\<lambda>e. compensate_and_fail e (run_action S (release_send_claim_action S c)))"
  have load: "yields ?load (own_view S x)"
    by (intro yields_catch_cause yields_run_action load_action_own [OF c] yields_compensate)
  show "yields (txn_bind ?load (\<lambda>view. txn_bind (txn_exit (run_action S (send_room_order_message_action S x view)))
      (\<lambda>sent. case sent of Inr commit \<Rightarrow> txn_return commit
        | Inl e \<Rightarrow> if releases_claim e then compensate_and_fail e (run_action S (release_send_claim_action S c))
            else txn_fail e))) (own_commit S x)"
    by (rule yields_bind [OF load], rule yields_bind [OF yields_exit [OF yields_run_action [OF send_action_own]]])
      (auto split: sum.splits intro: yields_return yields_fail yields_compensate)
qed

subsection \<open>Which calls it makes\<close>

context room_invariant
begin

lemma keeps_load_current: "triple I (send_load_current S ctx) (\<lambda>_. I) I"
  unfolding send_load_current_def by (intro room_keeps)

lemma keeps_require: "triple I (send_require_canonical S ctx) (\<lambda>_. I) I"
  unfolding send_require_canonical_def by (intro room_keeps keeps_load_current)

lemma keeps_authorize_send: "triple I (authorize_send S x) (\<lambda>_. I) I"
  unfolding authorize_send_def by (intro room_keeps)

lemma keeps_reauthorize: "triple I (send_reauthorize S x ctx) (\<lambda>_. I) I"
  unfolding send_reauthorize_def by (intro room_keeps keeps_authorize_send)

lemma keeps_claim:
  assumes "\<And>b. harmless (RoomMutation (ClaimSend (order_key S x) (make_send_claim_id x)) b)"
  shows "triple I (claim_send_action S x) (\<lambda>_. I) I"
  unfolding claim_send_action_def
proof (rule triple_bind_value [OF keeps_authorize_send authorize_send_own])
  show "triple I (preserve_declared_failure (send_op_claim S ctx (make_send_claim_id x))) (\<lambda>_. I) I"
    if "own_context S x ctx" for ctx
    unfolding send_op_claim_def using that
    by (intro room_keeps keeps_require keeps_mutate) (simp add: own_context_def assms)
qed

lemma keeps_load: "triple I (load_send_view_action S x c) (\<lambda>_. I) I"
  unfolding load_send_view_action_def send_op_load_view_def
  by (intro room_keeps keeps_reauthorize keeps_require)

lemma keeps_send:
  assumes "\<And>conv m a. harmless (RoomDeliver (make_send_delivery_key x ''send-room-order-message'') (SendRoomMessage conv m) a)"
  shows "triple I (send_room_order_message_action S x v) (\<lambda>_. I) I"
  unfolding send_room_order_message_action_def send_op_send_def
  by (intro room_keeps keeps_reauthorize keeps_require keeps_deliver_or_fail assms)

lemma keeps_reload: "triple I (reload_unless_revoked (send_require_canonical S ctx)) (\<lambda>_. I) I"
  unfolding reload_unless_revoked_def by (intro room_keeps keeps_require)

lemma keeps_record:
  assumes "own_commit S x c"
    and "\<And>t b. cm_source c \<noteq> SourceAlreadySent \<Longrightarrow>
      harmless (RoomMutation (CompleteSend (order_key S x) (make_send_claim_id x)
        (mr_message_id (cm_sent_message c)) (mr_conversation_id (cm_sent_message c)) t) b)"
  shows "triple I (record_room_order_send_action S x c) (\<lambda>_. I) I"
  unfolding record_room_order_send_action_def send_op_record_def
  by (intro room_keeps keeps_reauthorize keeps_require keeps_reload keeps_mutate)
    (use assms in \<open>simp add: own_commit_def own_context_def\<close>)

lemma keeps_pin_answer: "triple I (pin_answer c r) (\<lambda>_. I) I"
  unfolding pin_answer_def by (cases r) (simp_all add: room_keeps)

lemma keeps_pin:
  assumes "\<And>m a. harmless (RoomDeliver (make_send_delivery_key x ''pin-sent-room-order'') (PinRoomMessage m) a)"
  shows "triple I (pin_sent_room_order_action S x c) (\<lambda>_. I) I"
  unfolding pin_sent_room_order_action_def send_op_pin_def
  by (intro room_keeps keeps_reauthorize keeps_require keeps_deliver keeps_pin_answer assms)

lemma keeps_respond:
  assumes "\<And>m a. harmless (RoomDeliver (make_send_delivery_key x ''respond'')
    (RespondTo (input_field x ''responseReference'') m) a)"
  shows "triple I (send_respond_action S x r) (\<lambda>_. I) I"
  unfolding send_respond_action_def send_op_respond_def
  by (intro room_keeps keeps_reauthorize keeps_deliver_or_fail assms)

lemma keeps_release:
  assumes "own_claim S x c" and "\<And>b. harmless (RoomMutation (ReleaseSend (order_key S x) (make_send_claim_id x)) b)"
  shows "triple I (release_send_claim_action S c) (\<lambda>_. I) I"
  unfolding release_send_claim_action_def send_op_release_def
  by (intro room_keeps keeps_load_current keeps_mutate) (use assms in \<open>simp add: own_claim_def own_context_def\<close>)

lemma keeps_already_sent: "triple I (already_sent_commit c) (\<lambda>_. I) I"
  unfolding already_sent_commit_def by (auto intro: room_keeps split: option.split prod.split)

lemma keeps_finish:
  assumes "triple I (record_room_order_send_action S x c) (\<lambda>_. I) I"
    and "triple I (pin_sent_room_order_action S x c) (\<lambda>_. I) I" and "\<And>r. triple I (send_respond_action S x r) (\<lambda>_. I) I"
  shows "triple I (finish_send S x c) (\<lambda>_. I) I"
  unfolding finish_send_def Let_def split_beta by (intro room_keeps assms)

text \<open>The workflow up to its commit, whose value may come with a fact about the state.\<close>

lemma keeps_commit:
  assumes c: "own_claim S x c" and Q: "\<And>a s. Q a s \<Longrightarrow> I s"
    and already: "\<And>a s. cm_source a = SourceAlreadySent \<Longrightarrow> I s \<Longrightarrow> Q a s"
    and send: "\<And>v. own_view S x v \<Longrightarrow> triple I (send_room_order_message_action S x v) Q I"
    and release: "triple I (release_send_claim_action S c) (\<lambda>_. I) I"
  shows "triple I (commit_send S x c) Q I"
  unfolding commit_send_def
proof (rule triple_if)
  show "triple I (already_sent_commit c) Q I"
    by (auto simp: already_sent_commit_def intro!: triple_return triple_fail already split: option.split prod.split)
  let ?load = "txn_catch_cause (run_action S (load_send_view_action S x c))
    (\<lambda>e. compensate_and_fail e (run_action S (release_send_claim_action S c)))"
  have release': "triple I (compensate_and_fail e (run_action S (release_send_claim_action S c))) Q I" for e
    unfolding compensate_and_fail_def
    by (rule triple_bind [OF keeps_catch_cause [OF keeps_run_action [OF release] keeps_fail] triple_fail])
  have load: "triple I ?load (\<lambda>_. I) I"
    by (rule keeps_catch_cause [OF keeps_run_action [OF keeps_load] keeps_compensate [OF keeps_run_action [OF release]]])
  have loads: "yields ?load (own_view S x)"
    by (intro yields_catch_cause yields_run_action load_action_own [OF c] yields_compensate)
  show "triple I (txn_bind ?load (\<lambda>view. txn_bind (txn_exit (run_action S (send_room_order_message_action S x view)))
      (\<lambda>sent. case sent of Inr commit \<Rightarrow> txn_return commit
        | Inl e \<Rightarrow> if releases_claim e then compensate_and_fail e (run_action S (release_send_claim_action S c))
            else txn_fail e))) Q I"
  proof (rule triple_bind_value [OF load loads], rule triple_bind [OF triple_exit [OF run_action_keeps [OF send Q]]])
    fix v r
    show "triple (\<lambda>s. case r of Inl _ \<Rightarrow> I s | Inr a \<Rightarrow> Q a s)
       (case r of Inr commit \<Rightarrow> txn_return commit
        | Inl e \<Rightarrow> if releases_claim e then compensate_and_fail e (run_action S (release_send_claim_action S c))
            else txn_fail e) Q I"
      by (cases r) (auto intro: triple_return triple_fail release')
  qed
qed

lemma keeps_workflow:
  assumes Q: "\<And>a s. Q a s \<Longrightarrow> I s" and claim: "triple I (claim_send_action S x) (\<lambda>_. I) I"
    and commit: "\<And>c. own_claim S x c \<Longrightarrow> triple I (commit_send S x c) Q I"
    and finish: "\<And>c. own_commit S x c \<Longrightarrow> triple (Q c) (finish_send S x c) (\<lambda>_. I) I"
    and respond: "\<And>r. triple I (send_respond_action S x r) (\<lambda>_. I) I"
  shows "triple I (send_workflow S x) (\<lambda>_. I) I"
  unfolding send_workflow_def Let_def
proof (rule keeps_bind [OF keeps_decode], rule triple_bind_value [OF keeps_run_action [OF claim] yields_run_action [OF claim_action_own]])
  fix c assume c: "own_claim S x c"
  show "triple I (if sc_status c = SendDenied
      then txn_bind (run_action S (send_respond_action S x (send_response_from_denied c)))
        (\<lambda>receipt. txn_return (send_result (send_response_from_denied c) [receipt]))
      else txn_bind (commit_send S x c) (finish_send S x)) (\<lambda>_. I) I"
  proof (rule triple_if)
    show "triple I (txn_bind (run_action S (send_respond_action S x (send_response_from_denied c)))
        (\<lambda>receipt. txn_return (send_result (send_response_from_denied c) [receipt]))) (\<lambda>_. I) I"
      by (intro room_keeps respond)
    show "triple I (txn_bind (commit_send S x c) (finish_send S x)) (\<lambda>_. I) I"
      by (rule triple_bind_value [OF commit [OF c] commit_send_own [OF c] finish])
  qed
qed

lemma keeps_own_workflow:
  assumes own: "\<And>c. own_send_call S x c \<Longrightarrow> harmless c"
  shows "triple I (send_workflow S x) (\<lambda>_. I) I"
proof (rule keeps_workflow)
  show "triple I (claim_send_action S x) (\<lambda>_. I) I" by (rule keeps_claim, rule own) simp
  show "triple I (send_respond_action S x r) (\<lambda>_. I) I" for r by (rule keeps_respond, rule own) simp
  show "triple I (commit_send S x c) (\<lambda>_. I) I" if c: "own_claim S x c" for c
    by (rule keeps_commit [OF c]) (auto intro!: keeps_send keeps_release [OF c] own)
  show "triple I (finish_send S x c) (\<lambda>_. I) I" if c: "own_commit S x c" for c
    by (intro keeps_finish keeps_record [OF c] keeps_pin keeps_respond; rule own; simp)
qed

end

text \<open>The calls of the workflow itself are such an invariant, and so is any call that was made.\<close>

interpretation send_calls: room_invariant "\<lambda>s :: 'w room_flow. list_all (own_send_call S x) (rf_calls s)" "own_send_call S x"
  for S :: "'w room_services" and x
  by unfold_locales simp_all

text \<open>The workflow acts on its own message only: whatever the services answer and other actors do,
  every mutation it sends is a claim, completion or release of the message its input names with the
  claim id of its invocation, and every delivery carries the key of its invocation for its kind, so
  that repeating it is recognized; it responds to the reference of its input and edits nothing.\<close>

theorem send_calls_are_its_own:
  assumes "rf_calls s = []" and "send_workflow S x s = (r, t)"
  shows "list_all (own_send_call S x) (rf_calls t)"
proof -
  have "list_all (own_send_call S x) (rf_calls (snd (send_workflow S x s)))"
    by (rule triple_always [OF send_calls.keeps_own_workflow]) (simp_all add: assms(1))
  then show ?thesis using assms(2) by simp
qed

subsection \<open>What is sent and recorded\<close>

text \<open>What must have happened before a call: a message is sent right after its row was read with the claim
  of the workflow, to the conversation of the row, and shows the row; it is pinned right after its row
  was read with that claim or as sent; what is recorded as sent is what a delivery returned.\<close>

fun send_fits :: "'w room_services \<Rightarrow> execution \<Rightarrow> room_call list \<Rightarrow> room_call \<Rightarrow> bool" where
  "send_fits S x pre (RoomDeliver key (SendRoomMessage conv msg) a) \<longleftrightarrow>
     (\<exists>before r start es. pre = before @ [RoomRead (Some r)] \<and> ro_key r = order_key S x \<and>
        ro_send_claim_id r = Some (make_send_claim_id x) \<and>
        ro_workspace_id r = Some (wr_workspace_id (cv_workspace conv)) \<and>
        ro_conversation_id r = Some (cv_conversation_id conv) \<and>
        msg = published_room_order_message (row_content S start r es))"
| "send_fits S x pre (RoomDeliver key (PinRoomMessage m) a) \<longleftrightarrow>
     (\<exists>before r. pre = before @ [RoomRead (Some r)] \<and> ro_key r = order_key S x \<and>
        (ro_send_claim_id r = Some (make_send_claim_id x) \<or>
         ro_sent_message_id r = Some (mr_message_id m) \<and> ro_sent_conversation_id r = Some (mr_conversation_id m)))"
| "send_fits S x pre (RoomMutation (CompleteSend k c m v t) b) \<longleftrightarrow>
     (\<exists>key conv msg receipt ref. RoomDeliver key (SendRoomMessage conv msg) (Answered receipt) \<in> set pre \<and>
        rr_message receipt = Some ref \<and> m = mr_message_id ref \<and> v = mr_conversation_id ref)"
| "send_fits S x pre c \<longleftrightarrow> True"

interpretation send_fit: room_invariant "\<lambda>s :: 'w room_flow. each_call (send_fits S x) (rf_calls s)"
    "\<lambda>c. \<forall>pre. send_fits S x pre c" for S :: "'w room_services" and x
  by unfold_locales simp_all

text \<open>The evidence of a commit: the delivery that returned its message.\<close>

definition send_evidence :: "send_commit \<Rightarrow> room_call list \<Rightarrow> bool" where
  "send_evidence c calls \<longleftrightarrow> (cm_source c = SourceSent \<longrightarrow>
     (\<exists>key conv msg receipt. RoomDeliver key (SendRoomMessage conv msg) (Answered receipt) \<in> set calls \<and>
        rr_message receipt = Some (cm_sent_message c)))"

lemma send_evidenceI:
  "RoomDeliver key (SendRoomMessage conv msg) (Answered receipt) \<in> set calls \<Longrightarrow>
     rr_message receipt = Some (cm_sent_message c) \<Longrightarrow> send_evidence c calls"
  unfolding send_evidence_def by blast

lemma send_evidence_already: "cm_source c = SourceAlreadySent \<Longrightarrow> send_evidence c calls"
  by (simp add: send_evidence_def)

lemma send_evidence_snoc: "send_evidence c calls \<Longrightarrow> send_evidence c (calls @ [d])"
  by (auto simp: send_evidence_def)

lemma evidence_records:
  assumes "send_evidence c pre" and "cm_source c \<noteq> SourceAlreadySent"
  shows "send_fits S x pre (RoomMutation (CompleteSend k i (mr_message_id (cm_sent_message c))
    (mr_conversation_id (cm_sent_message c)) t) b)"
proof -
  have "cm_source c = SourceSent" using assms(2) by (cases "cm_source c") simp_all
  then obtain key conv msg receipt
    where "RoomDeliver key (SendRoomMessage conv msg) (Answered receipt) \<in> set pre"
      "rr_message receipt = Some (cm_sent_message c)"
    using assms(1) by (auto simp: send_evidence_def)
  then show ?thesis by (simp only: send_fits.simps) blast
qed

interpretation send_fit_evidence: room_invariant
    "\<lambda>s :: 'w room_flow. each_call (send_fits S x) (rf_calls s) \<and> send_evidence c (rf_calls s)"
    "\<lambda>d. \<forall>pre. send_evidence c pre \<longrightarrow> send_fits S x pre d" for S :: "'w room_services" and x and c
  by unfold_locales (simp_all add: send_evidence_snoc)

interpretation evidence_kept: room_invariant "\<lambda>s :: 'w room_flow. send_evidence c (rf_calls s)" "\<lambda>_. True" for c
  by unfold_locales (simp_all add: send_evidence_snoc)

context room_invariant
begin

lemma require_reads: "triple I (send_require_canonical S ctx)
    (\<lambda>r s. I s \<and> (\<exists>before. rf_calls s = before @ [RoomRead (Some r)]) \<and> canonical_view_matches ctx r) I"
proof -
  have load: "triple I (send_load_current S ctx) (\<lambda>r s. I s \<and> (\<exists>before. rf_calls s = before @ [RoomRead (Some r)])) I"
    unfolding send_load_current_def
    by (rule triple_bind [OF get_reads]) (auto intro: triple_return triple_fail split: option.split)
  show ?thesis
    unfolding send_require_canonical_def
    by (rule triple_bind [OF load]) (auto intro: triple_return triple_fail)
qed

end

lemma send_action_fits:
  fixes S :: "'w room_services"
  assumes v: "own_view S x v"
  shows "triple (\<lambda>s. each_call (send_fits S x) (rf_calls s)) (send_room_order_message_action S x v)
    (\<lambda>c s. each_call (send_fits S x) (rf_calls s) \<and> send_evidence c (rf_calls s))
    (\<lambda>s. each_call (send_fits S x) (rf_calls s))"
  unfolding send_room_order_message_action_def send_op_send_def
proof (rule triple_bind [OF send_fit.keeps_reauthorize], rule triple_preserve, rule triple_bind [OF send_fit.require_reads])
  fix r
  let ?I = "\<lambda>s :: 'w room_flow. each_call (send_fits S x) (rf_calls s)"
  let ?read = "\<lambda>s :: 'w room_flow. ?I s \<and> (\<exists>before. rf_calls s = before @ [RoomRead (Some r)]) \<and>
    canonical_view_matches (sw_context v) r"
  let ?key = "make_send_delivery_key x ''send-room-order-message''"
  let ?d = "SendRoomMessage (context_conversation (sw_context v)) (sw_message v)"
  have fits: "send_fits S x (rf_calls s) (RoomDeliver ?key ?d a)"
    if "?read s" and claimed: "ro_send_claim_id r = Some (sw_claim_id v)" for s a
  proof -
    obtain start es r' where "sw_message v = published_room_order_message (row_content S start r' es)"
      "canonical_view_matches (sw_context v) r'"
      using v by (auto simp: own_view_def)
    then have "sw_message v = published_room_order_message (row_content S start r es)"
      using that canonical_content by metis
    then show ?thesis
      using that v
      by (auto simp: own_view_def own_context_def canonical_view_matches_def context_conversation_def
          conversation_ref_from_def workspace_ref_from_def)
  qed
  show "triple ?read (txn_bind (fail_unless (ro_send_claim_id r = Some (sw_claim_id v)) send_revoked) (\<lambda>_.
      txn_bind (deliver_or_fail S ?key ?d (delivery_failure room_orders_send ''roomOrders.send.sendRoomOrderMessage''
          ''room-order conversation'' ''The room-order message delivery was rejected'' False None)) (\<lambda>receipt.
      case rr_message receipt of
        None \<Rightarrow> txn_fail Undeclared
      | Some m \<Rightarrow> txn_return \<lparr>cm_context = sw_context v, cm_claim_id = sw_claim_id v, cm_source = SourceSent,
          cm_sent_message = m, cm_send_receipt = Some receipt\<rparr>)))
      (\<lambda>c s. ?I s \<and> send_evidence c (rf_calls s)) ?I"
  proof (rule triple_bind)
    show "triple ?read (fail_unless (ro_send_claim_id r = Some (sw_claim_id v)) send_revoked)
        (\<lambda>_ s. ?read s \<and> ro_send_claim_id r = Some (sw_claim_id v)) ?I"
      by (rule triple_fail_unless) auto
    show "triple (\<lambda>s. ?read s \<and> ro_send_claim_id r = Some (sw_claim_id v))
       (txn_bind (deliver_or_fail S ?key ?d (delivery_failure room_orders_send ''roomOrders.send.sendRoomOrderMessage''
          ''room-order conversation'' ''The room-order message delivery was rejected'' False None)) (\<lambda>receipt.
      case rr_message receipt of
        None \<Rightarrow> txn_fail Undeclared
      | Some m \<Rightarrow> txn_return \<lparr>cm_context = sw_context v, cm_claim_id = sw_claim_id v, cm_source = SourceSent,
          cm_sent_message = m, cm_send_receipt = Some receipt\<rparr>))
      (\<lambda>c s. ?I s \<and> send_evidence c (rf_calls s)) ?I"
    proof (rule triple_bind)
      show "triple (\<lambda>s. ?read s \<and> ro_send_claim_id r = Some (sw_claim_id v))
          (deliver_or_fail S ?key ?d (delivery_failure room_orders_send ''roomOrders.send.sendRoomOrderMessage''
            ''room-order conversation'' ''The room-order message delivery was rejected'' False None))
          (\<lambda>receipt s. ?I s \<and> RoomDeliver ?key ?d (Answered receipt) \<in> set (rf_calls s)) ?I"
        by (rule triple_of_etriple, rule etriple_deliver_or_fail) (use fits in \<open>auto simp del: send_fits.simps\<close>)
      show "triple (\<lambda>s. ?I s \<and> RoomDeliver ?key ?d (Answered receipt) \<in> set (rf_calls s))
        (case rr_message receipt of
          None \<Rightarrow> txn_fail Undeclared
        | Some m \<Rightarrow> txn_return \<lparr>cm_context = sw_context v, cm_claim_id = sw_claim_id v, cm_source = SourceSent,
            cm_sent_message = m, cm_send_receipt = Some receipt\<rparr>)
        (\<lambda>c s. ?I s \<and> send_evidence c (rf_calls s)) ?I" for receipt
      proof (cases "rr_message receipt")
        case None
        then show ?thesis by (auto intro: triple_fail)
      next
        case (Some m)
        then show ?thesis by (auto intro!: triple_return elim: send_evidenceI)
      qed
    qed
  qed
qed

lemma pin_action_fits:
  fixes S :: "'w room_services"
  assumes c: "own_commit S x c"
  shows "triple (\<lambda>s. each_call (send_fits S x) (rf_calls s)) (pin_sent_room_order_action S x c)
    (\<lambda>_ s. each_call (send_fits S x) (rf_calls s)) (\<lambda>s. each_call (send_fits S x) (rf_calls s))"
  unfolding pin_sent_room_order_action_def send_op_pin_def
proof (rule triple_bind [OF send_fit.keeps_reauthorize], rule triple_bind [OF send_fit.keeps_unless],
    rule triple_preserve, rule triple_bind [OF send_fit.require_reads])
  fix r
  let ?I = "\<lambda>s :: 'w room_flow. each_call (send_fits S x) (rf_calls s)"
  let ?read = "\<lambda>s :: 'w room_flow. ?I s \<and> (\<exists>before. rf_calls s = before @ [RoomRead (Some r)]) \<and>
    canonical_view_matches (cm_context c) r"
  let ?mine = "ro_send_claim_id r = Some (cm_claim_id c) \<or> sent_binding_matches r c"
  show "triple ?read (txn_bind (fail_unless ?mine send_revoked) (\<lambda>_.
      txn_bind (deliver_room S (make_send_delivery_key x ''pin-sent-room-order'') (PinRoomMessage (cm_sent_message c)))
        (pin_answer room_orders_send))) (\<lambda>_. ?I) ?I"
  proof (rule triple_bind)
    show "triple ?read (fail_unless ?mine send_revoked) (\<lambda>_ s. ?read s \<and> ?mine) ?I"
      by (rule triple_fail_unless) auto
    show "triple (\<lambda>s. ?read s \<and> ?mine)
       (txn_bind (deliver_room S (make_send_delivery_key x ''pin-sent-room-order'') (PinRoomMessage (cm_sent_message c)))
        (pin_answer room_orders_send)) (\<lambda>_. ?I) ?I"
    proof (rule triple_bind)
      show "triple (\<lambda>s. ?read s \<and> ?mine)
          (deliver_room S (make_send_delivery_key x ''pin-sent-room-order'') (PinRoomMessage (cm_sent_message c)))
          (\<lambda>_. ?I) ?I"
        by (rule triple_of_etriple, rule etriple_deliver)
          (use c in \<open>auto simp: own_commit_def own_context_def canonical_view_matches_def sent_binding_matches_def\<close>)
      show "triple ?I (pin_answer room_orders_send a) (\<lambda>_. ?I) ?I" for a
        by (rule send_fit.keeps_pin_answer)
    qed
  qed
qed

text \<open>C16: What the workflow publishes is the room order as it is stored while it holds the claim: each
  sending of a message directly follows a reading of the row that showed the claim of this invocation,
  goes to the conversation of that row and shows its hour, monitor and fills; each pinning directly
  follows a reading that showed the claim or the message as sent; and a message is only recorded as
  sent when a delivery had returned that very message.\<close>

theorem published_under_its_claim:
  fixes S :: "'w room_services"
  assumes "rf_calls s = []" and "send_workflow S x s = (r, t)" and "rf_calls t = pre @ c # rest"
  shows "send_fits S x pre c"
proof -
  let ?I = "\<lambda>s :: 'w room_flow. each_call (send_fits S x) (rf_calls s)"
  have "triple ?I (send_workflow S x) (\<lambda>_. ?I) ?I"
  proof (rule send_fit.keeps_workflow [where Q = "\<lambda>c s. ?I s \<and> send_evidence c (rf_calls s)"])
    show "triple ?I (claim_send_action S x) (\<lambda>_. ?I) ?I" by (rule send_fit.keeps_claim) simp
    show "triple ?I (send_respond_action S x a) (\<lambda>_. ?I) ?I" for a by (rule send_fit.keeps_respond) simp
    show "triple ?I (commit_send S x c) (\<lambda>c s. ?I s \<and> send_evidence c (rf_calls s)) ?I" if c: "own_claim S x c" for c
    proof (rule send_fit.keeps_commit [OF c])
      show "triple ?I (release_send_claim_action S c) (\<lambda>_. ?I) ?I" by (rule send_fit.keeps_release [OF c]) simp
    qed (auto simp: send_evidence_already intro: send_action_fits)
    show "triple (\<lambda>s. ?I s \<and> send_evidence c (rf_calls s)) (finish_send S x c) (\<lambda>_. ?I) ?I" if c: "own_commit S x c" for c
    proof -
      let ?J = "\<lambda>s :: 'w room_flow. ?I s \<and> send_evidence c (rf_calls s)"
      have pin: "triple ?J (pin_sent_room_order_action S x c) (\<lambda>_. ?J) ?J"
        by (rule triple_conj [OF pin_action_fits [OF c] evidence_kept.keeps_pin]) simp
      have rec: "triple ?J (record_room_order_send_action S x c) (\<lambda>_. ?J) ?J"
        by (rule send_fit_evidence.keeps_record [OF c]) (blast intro: evidence_records)
      have respond: "triple ?J (send_respond_action S x a) (\<lambda>_. ?J) ?J" for a
        by (rule send_fit_evidence.keeps_respond) simp
      show ?thesis
        by (rule triple_post [OF send_fit_evidence.keeps_finish [OF rec pin respond]]) simp_all
    qed
  qed simp
  from triple_always [OF this] have "?I (snd (send_workflow S x s))" using assms(1) by simp
  then show ?thesis using assms(2,3) by (auto dest: each_callD)
qed

end
