(* ===== verification/RoomOrderSendOutcome.thy ===== *)
theory RoomOrderSendOutcome
  imports RoomOrderSendGuarantees
begin

text \<open>
  How the workflow that publishes a room order ends: when it gives its claim back, and what a result
  rests on.
\<close>

subsection \<open>Giving the claim back\<close>

text \<open>Answers after which the bot has certainly sent nothing.\<close>

definition certainly_refused :: "delivery_answer \<Rightarrow> bool" where
  "certainly_refused a \<longleftrightarrow> a \<in> Refused ` {BotUnauthenticated, BotAdmissionDenied, BotResourceNotFound,
     BotResponseExpired, BotRequestRejected}"

fun sends_message :: "room_call \<Rightarrow> bool" where
  "sends_message (RoomDeliver key (SendRoomMessage conv msg) a) = True"
| "sends_message _ = False"

fun send_refused :: "room_call \<Rightarrow> bool" where
  "send_refused (RoomDeliver key d a) = certainly_refused a"
| "send_refused _ = False"

fun releases_send :: "room_call \<Rightarrow> bool" where
  "releases_send (RoomMutation (ReleaseSend k c) b) = True"
| "releases_send _ = False"

definition released_safely :: "room_call list \<Rightarrow> bool" where
  "released_safely calls \<longleftrightarrow>
     list_all (\<lambda>c. \<not> releases_send c) calls \<or> list_all (\<lambda>c. sends_message c \<longrightarrow> send_refused c) calls"

abbreviation unsent :: "'w room_flow \<Rightarrow> bool" where
  "unsent s \<equiv> list_all (\<lambda>c. \<not> sends_message c \<and> \<not> releases_send c) (rf_calls s)"

abbreviation refused :: "'w room_flow \<Rightarrow> bool" where
  "refused s \<equiv> list_all (\<lambda>c. sends_message c \<longrightarrow> send_refused c) (rf_calls s)"

abbreviation unreleased :: "'w room_flow \<Rightarrow> bool" where
  "unreleased s \<equiv> list_all (\<lambda>c. \<not> releases_send c) (rf_calls s)"

interpretation unsent: room_invariant unsent "\<lambda>c. \<not> sends_message c \<and> \<not> releases_send c"
  by unfold_locales simp_all

interpretation refused: room_invariant refused "\<lambda>c. sends_message c \<longrightarrow> send_refused c"
  by unfold_locales simp_all

interpretation unreleased: room_invariant unreleased "\<lambda>c. \<not> releases_send c"
  by unfold_locales simp_all

lemma unsent_refused: "unsent s \<Longrightarrow> refused s"
  by (auto simp: list_all_iff)

lemma unsent_unreleased: "unsent s \<Longrightarrow> unreleased s"
  by (auto simp: list_all_iff)

lemma released_safelyI: "refused s \<or> unreleased s \<Longrightarrow> released_safely (rf_calls s)"
  by (auto simp: released_safely_def)

lemma releasing_refusal:
  "releases_claim (delivery_failure c operation res rejected False committed e) \<Longrightarrow> certainly_refused (Refused e)"
  by (cases e)
    (simp_all add: certainly_refused_def delivery_failure_def map_delivery_failure_def map_bot_known_request_failure_def
      map_bot_admission_or_resource_failure_def map_bot_authorization_failure_def releases_claim_def)

definition sends_or_refused :: "flow_error \<Rightarrow> 'w room_flow \<Rightarrow> bool" where
  "sends_or_refused e s \<longleftrightarrow> unreleased s \<and> (releases_claim e \<longrightarrow> refused s)"

lemma unsent_sends_or_refused: "unsent s \<Longrightarrow> sends_or_refused e s"
  by (simp add: sends_or_refused_def unsent_refused unsent_unreleased)

lemma send_action_refusal:
  fixes S :: "'w room_services"
  shows "etriple unsent (send_room_order_message_action S x v) (\<lambda>_. unreleased) sends_or_refused"
  unfolding send_room_order_message_action_def
proof (rule etriple_bind)
  show "etriple unsent (send_reauthorize S x (sw_context v)) (\<lambda>_. unsent) sends_or_refused"
    by (rule etriple_post [OF etriple_of_triple [OF unsent.keeps_reauthorize]]) (auto intro: unsent_sends_or_refused)
  show "etriple unsent (preserve_declared_failure (send_op_send S v (make_send_delivery_key x ''send-room-order-message'')))
      (\<lambda>_. unreleased) sends_or_refused" for a
  proof (rule etriple_preserve)
    let ?f = "delivery_failure room_orders_send ''roomOrders.send.sendRoomOrderMessage'' ''room-order conversation''
      ''The room-order message delivery was rejected'' False None"
    let ?d = "SendRoomMessage (context_conversation (sw_context v)) (sw_message v)"
    show "etriple unsent (send_op_send S v (make_send_delivery_key x ''send-room-order-message''))
        (\<lambda>_. unreleased) sends_or_refused"
      unfolding send_op_send_def
    proof (rule etriple_bind)
      show "etriple unsent (send_require_canonical S (sw_context v)) (\<lambda>_. unsent) sends_or_refused"
        by (rule etriple_post [OF etriple_of_triple [OF unsent.keeps_require]]) (auto intro: unsent_sends_or_refused)
      show "etriple unsent (txn_bind (fail_unless (ro_send_claim_id r = Some (sw_claim_id v)) send_revoked) (\<lambda>_.
          txn_bind (deliver_or_fail S (make_send_delivery_key x ''send-room-order-message'') ?d ?f) (\<lambda>receipt.
          case rr_message receipt of None \<Rightarrow> txn_fail Undeclared
          | Some m \<Rightarrow> txn_return \<lparr>cm_context = sw_context v, cm_claim_id = sw_claim_id v,
              cm_source = SourceSent, cm_sent_message = m, cm_send_receipt = Some receipt\<rparr>)))
          (\<lambda>_. unreleased) sends_or_refused" for r
      proof (rule etriple_bind)
        show "etriple unsent (fail_unless (ro_send_claim_id r = Some (sw_claim_id v)) send_revoked) (\<lambda>_. unsent) sends_or_refused"
          by (rule etriple_fail_unless) (auto intro: unsent_sends_or_refused)
        show "etriple unsent (txn_bind (deliver_or_fail S (make_send_delivery_key x ''send-room-order-message'') ?d ?f)
            (\<lambda>receipt. case rr_message receipt of None \<Rightarrow> txn_fail Undeclared
            | Some m \<Rightarrow> txn_return \<lparr>cm_context = sw_context v, cm_claim_id = sw_claim_id v,
                cm_source = SourceSent, cm_sent_message = m, cm_send_receipt = Some receipt\<rparr>))
          (\<lambda>_. unreleased) sends_or_refused"
        proof (rule etriple_bind)
          show "etriple unsent (deliver_or_fail S (make_send_delivery_key x ''send-room-order-message'') ?d ?f)
              (\<lambda>_. unreleased) sends_or_refused"
            by (rule etriple_deliver_or_fail)
              (auto simp: sends_or_refused_def releases_claim_def [of Interrupted] list_all_iff dest: releasing_refusal)
          show "etriple unreleased (case rr_message receipt of None \<Rightarrow> txn_fail Undeclared
            | Some m \<Rightarrow> txn_return \<lparr>cm_context = sw_context v, cm_claim_id = sw_claim_id v,
                cm_source = SourceSent, cm_sent_message = m, cm_send_receipt = Some receipt\<rparr>)
            (\<lambda>_. unreleased) sends_or_refused" for receipt
            by (cases "rr_message receipt")
              (auto intro!: etriple_return etriple_fail simp: sends_or_refused_def releases_claim_def)
        qed
      qed
    qed
  qed (auto simp: sends_or_refused_def releases_claim_def)
qed

lemma once_etriple:
  assumes "\<And>w. fst (rs_lost S w) = 0" and "etriple P m Q E" and "\<And>s w. P s \<Longrightarrow> P (s\<lparr>rf_world := w\<rparr>)"
  shows "etriple P (run_action S m) Q E"
  using assms(2,3) by (simp add: etriple_def run_action_once [OF assms(1)])

lemma triple_compensate:
  "triple P release (\<lambda>_. P) P \<Longrightarrow> (\<And>s. P s \<Longrightarrow> E s) \<Longrightarrow> triple P (compensate_and_fail e release) Q E"
  unfolding compensate_and_fail_def
  by (rule triple_bind [where Q = "\<lambda>_. P"], rule triple_catch_cause [where F = P])
    (auto intro: triple_fail)

definition send_ends_safely :: "'w room_flow \<Rightarrow> bool" where
  "send_ends_safely s \<longleftrightarrow> released_safely (rf_calls s)"

lemma ends_safelyI: "refused s \<or> unreleased s \<Longrightarrow> send_ends_safely s"
  unfolding send_ends_safely_def by (rule released_safelyI)

lemma unsent_ends_safely: "unsent s \<Longrightarrow> send_ends_safely s"
  by (rule ends_safelyI, rule disjI2, rule unsent_unreleased)

lemma commit_releases_safely:
  fixes S :: "'w room_services"
  assumes once: "\<And>w. fst (rs_lost S w) = 0" and c: "own_claim S x c"
  shows "triple unsent (commit_send S x c) (\<lambda>_. unreleased) send_ends_safely"
  unfolding commit_send_def
proof (rule triple_if)
  let ?release = "run_action S (release_send_claim_action S c)"
  have release: "triple refused ?release (\<lambda>_. refused) refused"
    by (rule refused.keeps_run_action, rule refused.keeps_release [OF c]) simp
  have compensate: "triple refused (compensate_and_fail e ?release) Q send_ends_safely"
    for e and Q :: "'b \<Rightarrow> 'w room_flow \<Rightarrow> bool"
    by (rule triple_compensate [OF release]) (simp add: ends_safelyI)
  show "triple unsent (already_sent_commit c) (\<lambda>_. unreleased) send_ends_safely"
    by (rule triple_post [OF unsent.keeps_already_sent]) (auto intro: unsent_unreleased unsent_ends_safely)
  show "triple unsent (txn_bind (txn_catch_cause (run_action S (load_send_view_action S x c))
        (\<lambda>e. compensate_and_fail e ?release)) (\<lambda>view.
      txn_bind (txn_exit (run_action S (send_room_order_message_action S x view))) (\<lambda>sent. case sent of
          Inr commit \<Rightarrow> txn_return commit
        | Inl e \<Rightarrow> if releases_claim e then compensate_and_fail e ?release else txn_fail e)))
      (\<lambda>_. unreleased) send_ends_safely"
  proof (rule triple_bind)
    show "triple unsent (txn_catch_cause (run_action S (load_send_view_action S x c))
        (\<lambda>e. compensate_and_fail e ?release)) (\<lambda>_. unsent) send_ends_safely"
      by (rule triple_catch_cause [OF unsent.keeps_run_action [OF unsent.keeps_load] triple_pre [OF compensate]])
        (auto intro: unsent_refused unsent_ends_safely)
    show "triple unsent (txn_bind (txn_exit (run_action S (send_room_order_message_action S x v))) (\<lambda>sent. case sent of
          Inr commit \<Rightarrow> txn_return commit
        | Inl e \<Rightarrow> if releases_claim e then compensate_and_fail e ?release else txn_fail e))
      (\<lambda>_. unreleased) send_ends_safely" for v
    proof (rule triple_bind)
      have "etriple unsent (run_action S (send_room_order_message_action S x v)) (\<lambda>_. unreleased) sends_or_refused"
        by (rule once_etriple [OF once send_action_refusal]) simp
      from etriple_exit [OF this]
      show "triple unsent (txn_exit (run_action S (send_room_order_message_action S x v)))
          (\<lambda>r s. case r of Inl e \<Rightarrow> sends_or_refused e s | Inr a \<Rightarrow> unreleased s) send_ends_safely"
        by (rule triple_of_etriple [OF etriple_post]) (auto simp: sends_or_refused_def intro: ends_safelyI)
      show "triple (\<lambda>s. case r of Inl e \<Rightarrow> sends_or_refused e s | Inr a \<Rightarrow> unreleased s)
          (case r of Inr commit \<Rightarrow> txn_return commit
           | Inl e \<Rightarrow> if releases_claim e then compensate_and_fail e ?release else txn_fail e)
          (\<lambda>_. unreleased) send_ends_safely" for r
        by (cases r) (auto simp: sends_or_refused_def
            intro!: triple_return triple_fail triple_pre [OF compensate] ends_safelyI)
    qed
  qed
qed

lemma workflow_releases_safely:
  fixes S :: "'w room_services"
  assumes once: "\<And>w. fst (rs_lost S w) = 0"
  shows "triple unsent (send_workflow S x) (\<lambda>_. send_ends_safely) send_ends_safely"
  unfolding send_workflow_def Let_def
proof (rule triple_bind)
  show "triple unsent (decode_or_die S room_orders_send x) (\<lambda>_. unsent) send_ends_safely"
    by (rule triple_post [OF unsent.keeps_decode]) (auto intro: unsent_ends_safely)
  have claim: "triple unsent (run_action S (claim_send_action S x)) (\<lambda>_. unsent) send_ends_safely"
    by (rule triple_post [OF unsent.keeps_run_action [OF unsent.keeps_claim]]) (auto intro: unsent_ends_safely)
  show "triple unsent (txn_bind (run_action S (claim_send_action S x)) (\<lambda>claim.
      if sc_status claim = SendDenied
      then txn_bind (run_action S (send_respond_action S x (send_response_from_denied claim)))
        (\<lambda>receipt. txn_return (send_result (send_response_from_denied claim) [receipt]))
      else txn_bind (commit_send S x claim) (finish_send S x))) (\<lambda>_. send_ends_safely) send_ends_safely" for u
  proof (rule triple_bind_value [OF claim yields_run_action [OF claim_action_own]], rule triple_if)
    fix c assume c: "own_claim S x c"
    have respond: "triple unreleased (send_respond_action S x r) (\<lambda>_. unreleased) unreleased" for r
      by (rule unreleased.keeps_respond) simp
    have "triple unreleased (txn_bind (run_action S (send_respond_action S x (send_response_from_denied c)))
        (\<lambda>receipt. txn_return (send_result (send_response_from_denied c) [receipt]))) (\<lambda>_. unreleased) unreleased"
      by (intro unreleased.room_keeps respond)
    then show "triple unsent (txn_bind (run_action S (send_respond_action S x (send_response_from_denied c)))
        (\<lambda>receipt. txn_return (send_result (send_response_from_denied c) [receipt])))
        (\<lambda>_. send_ends_safely) send_ends_safely"
      by (rule triple_pre [OF triple_post]) (auto intro: ends_safelyI unsent_unreleased)
    show "triple unsent (txn_bind (commit_send S x c) (finish_send S x)) (\<lambda>_. send_ends_safely) send_ends_safely"
    proof (rule triple_bind_value [OF commit_releases_safely [OF once c] commit_send_own [OF c]])
      show "triple unreleased (finish_send S x a) (\<lambda>_. send_ends_safely) send_ends_safely" if a: "own_commit S x a" for a
        by (rule triple_post [OF unreleased.keeps_finish [OF unreleased.keeps_record [OF a] unreleased.keeps_pin respond]])
          (auto intro: ends_safelyI)
    qed
  qed
qed

text \<open>C17: The workflow gives its claim back only when nothing was sent: if no execution of an action is
  lost and the workflow releases its claim at all, then every sending of the message it made was
  answered by a refusal of the bot. After a sending that was answered, or whose answer is in doubt, it
  keeps the claim, so that no other invocation sends the room order again before the claim is stale.\<close>

theorem released_claim_sent_nothing:
  assumes "\<And>w. fst (rs_lost S w) = 0" and "rf_calls s = []" and "send_workflow S x s = (r, t)"
    and "RoomMutation (ReleaseSend k c) b \<in> set (rf_calls t)"
    and "RoomDeliver key (SendRoomMessage conv msg) a \<in> set (rf_calls t)"
  shows "certainly_refused a"
proof -
  have "send_ends_safely (snd (send_workflow S x s))"
    by (rule triple_always [OF workflow_releases_safely [OF assms(1)]]) (simp_all add: assms(2))
  then have "released_safely (rf_calls t)" by (simp add: assms(3) send_ends_safely_def)
  then show ?thesis using assms(4,5) by (fastforce simp: released_safely_def list_all_iff)
qed

subsection \<open>What a pinned result rests on\<close>

definition read_as_sent :: "message_key \<Rightarrow> message_ref \<Rightarrow> room_call list \<Rightarrow> bool" where
  "read_as_sent k m calls \<longleftrightarrow> (\<exists>r. RoomRead (Some r) \<in> set calls \<and> ro_key r = k \<and>
     ro_sent_message_id r = Some (mr_message_id m) \<and> ro_sent_conversation_id r = Some (mr_conversation_id m))"

definition answered_pin :: "message_ref \<Rightarrow> room_call list \<Rightarrow> bool" where
  "answered_pin m calls \<longleftrightarrow> (\<exists>key receipt. RoomDeliver key (PinRoomMessage m) (Answered receipt) \<in> set calls)"

lemma read_as_sent_grows: "read_as_sent k m calls \<Longrightarrow> read_as_sent k m (calls @ [c])"
  unfolding read_as_sent_def by auto

lemma answered_pin_grows: "answered_pin m calls \<Longrightarrow> answered_pin m (calls @ [c])"
  by (metis answered_pin_def Un_iff set_append)

interpretation any_calls: room_invariant "\<lambda>s :: 'w room_flow. True" "\<lambda>_. True"
  by unfold_locales simp_all

interpretation sent_read: room_invariant "\<lambda>s :: 'w room_flow. q \<longrightarrow> read_as_sent k m (rf_calls s)" "\<lambda>_. True" for k m q
  by unfold_locales (auto simp: read_as_sent_def)

interpretation pin_made: room_invariant "\<lambda>s :: 'w room_flow. q \<longrightarrow> answered_pin m (rf_calls s)" "\<lambda>_. True" for m q
  by unfold_locales (auto simp: answered_pin_def)

lemma triple_both:
  assumes m: "triple (\<lambda>_. True) m A (\<lambda>_. True)" and n: "triple (\<lambda>_. True) n B (\<lambda>_. True)"
    and A: "\<And>a. triple (A a) n (\<lambda>_. A a) (A a)" and B: "\<And>b. triple (B b) m (\<lambda>_. B b) (B b)"
  shows "triple (\<lambda>_. True) (run_both S m n)
    (\<lambda>(x, y) s. (\<forall>a. x = Inr a \<longrightarrow> A a s) \<and> (\<forall>b. y = Inr b \<longrightarrow> B b s)) (\<lambda>_. True)"
proof -
  have exit_m: "triple (\<lambda>_. True) (txn_exit m) (\<lambda>x s. \<forall>a. x = Inr a \<longrightarrow> A a s) (\<lambda>_. True)"
    by (rule triple_post [OF triple_exit [OF m]]) auto
  have exit_n: "triple (\<lambda>_. True) (txn_exit n) (\<lambda>y s. \<forall>b. y = Inr b \<longrightarrow> B b s) (\<lambda>_. True)"
    by (rule triple_post [OF triple_exit [OF n]]) auto
  have keep_m: "triple (\<lambda>s. \<forall>b. y = Inr b \<longrightarrow> B b s) (txn_exit m)
      (\<lambda>x s. (\<forall>a. x = Inr a \<longrightarrow> A a s) \<and> (\<forall>b. y = Inr b \<longrightarrow> B b s)) (\<lambda>_. True)" for y
  proof (cases y)
    case (Inr b)
    show ?thesis
      by (rule triple_post [OF triple_pre [OF triple_conj [OF exit_m triple_exit [OF B [of b]]]]])
        (auto simp: Inr split: sum.splits)
  qed (use triple_post [OF triple_pre [OF exit_m]] in simp)
  have keep_n: "triple (\<lambda>s. \<forall>a. x = Inr a \<longrightarrow> A a s) (txn_exit n)
      (\<lambda>y s. (\<forall>a. x = Inr a \<longrightarrow> A a s) \<and> (\<forall>b. y = Inr b \<longrightarrow> B b s)) (\<lambda>_. True)" for x
  proof (cases x)
    case (Inr a)
    show ?thesis
      by (rule triple_post [OF triple_pre [OF triple_conj [OF exit_n triple_exit [OF A [of a]]]]])
        (auto simp: Inr split: sum.splits)
  qed (use triple_post [OF triple_pre [OF exit_n]] in simp)
  show ?thesis
    unfolding run_both_def
    by (rule triple_bind [OF any_calls.keeps_ask], rule triple_if)
      (rule triple_bind [OF exit_n], rule triple_bind [OF keep_m], rule triple_return, simp,
        rule triple_bind [OF exit_m], rule triple_bind [OF keep_n], rule triple_return, simp)
qed

lemma read_sent_by_binding:
  assumes "\<exists>before. rf_calls s = before @ [RoomRead (Some r)]" and "canonical_view_matches (cm_context c) r"
    and "own_commit S x c" and "sent_binding_matches r c"
  shows "read_as_sent (order_key S x) (cm_sent_message c) (rf_calls s)"
  using assms by (auto simp: read_as_sent_def own_commit_def own_context_def canonical_view_matches_def sent_binding_matches_def)

lemma tracked_binding: "fst (send_tracking c r) = Tracked \<Longrightarrow> sent_binding_matches r c"
  by (auto simp: send_tracking_def split: if_splits)

lemma record_tracks:
  fixes S :: "'w room_services"
  assumes c: "own_commit S x c"
  shows "triple (\<lambda>_. True) (record_room_order_send_action S x c)
    (\<lambda>d s. fst d = Tracked \<longrightarrow> read_as_sent (order_key S x) (cm_sent_message c) (rf_calls s)) (\<lambda>_. True)"
  unfolding record_room_order_send_action_def send_op_record_def
proof (rule triple_bind [OF any_calls.keeps_reauthorize], rule triple_preserve, rule triple_if)
  show "triple (\<lambda>_. True) (txn_return (NotRequired, None))
      (\<lambda>d s. fst d = Tracked \<longrightarrow> read_as_sent (order_key S x) (cm_sent_message c) (rf_calls s)) (\<lambda>_. True)"
    by (rule triple_return) simp
  let ?Q = "\<lambda>d (s :: 'w room_flow). fst d = Tracked \<longrightarrow> read_as_sent (order_key S x) (cm_sent_message c) (rf_calls s)"
  let ?read = "\<lambda>r (s :: 'w room_flow). True \<and> (\<exists>before. rf_calls s = before @ [RoomRead (Some r)]) \<and>
    canonical_view_matches (cm_context c) r"
  let ?lost = "(RecoveryRequired,
    Some ''sent room order, but tracking could not be confirmed; the claim was preserved.'')"
  have tracking: "triple (?read r) (txn_return (send_tracking c r)) ?Q (\<lambda>_. True)" for r
    by (rule triple_return) (use tracked_binding read_sent_by_binding [OF _ _ c] in blast)
  have reload: "triple (\<lambda>_. True) (reload_unless_revoked (send_require_canonical S (cm_context c)))
      (\<lambda>r s. case r of None \<Rightarrow> True | Some r \<Rightarrow> ?read r s) (\<lambda>_. True)"
    unfolding reload_unless_revoked_def
    by (rule triple_catch [where F = "\<lambda>_. True"], rule triple_bind [OF any_calls.require_reads])
      (auto intro!: triple_return triple_fail triple_if)
  have after: "triple (\<lambda>s. case r of None \<Rightarrow> True | Some r \<Rightarrow> ?read r s)
      (case r of None \<Rightarrow> txn_return ?lost | Some r \<Rightarrow> txn_return (send_tracking c r)) ?Q (\<lambda>_. True)" for r
    using tracking by (cases r) (auto intro: triple_return)
  have complete: "triple (\<lambda>_. True) (txn_bind (ask_world (rs_clock S)) (\<lambda>sent_at.
        txn_bind (txn_exit (mutate_room S (CompleteSend (nv_key (cm_context c)) (cm_claim_id c)
          (mr_message_id (cm_sent_message c)) (mr_conversation_id (cm_sent_message c)) sent_at))) (\<lambda>_.
        txn_bind (reload_unless_revoked (send_require_canonical S (cm_context c))) (\<lambda>r.
        case r of None \<Rightarrow> txn_return ?lost | Some r \<Rightarrow> txn_return (send_tracking c r))))) ?Q (\<lambda>_. True)"
    by (rule triple_bind [OF any_calls.keeps_ask], rule triple_bind [OF any_calls.keeps_exit [OF any_calls.keeps_mutate]],
        simp, rule triple_bind [OF reload], rule after)
  show "triple (\<lambda>_. True) (txn_bind (send_require_canonical S (cm_context c)) (\<lambda>before.
      if sent_binding_matches before c \<and> ro_send_claim_id before = None then txn_return (Tracked, None)
      else if ro_send_claim_id before \<noteq> Some (cm_claim_id c) then txn_return (send_tracking c before)
      else txn_bind (ask_world (rs_clock S)) (\<lambda>sent_at.
        txn_bind (txn_exit (mutate_room S (CompleteSend (nv_key (cm_context c)) (cm_claim_id c)
          (mr_message_id (cm_sent_message c)) (mr_conversation_id (cm_sent_message c)) sent_at))) (\<lambda>_.
        txn_bind (reload_unless_revoked (send_require_canonical S (cm_context c))) (\<lambda>r.
        case r of None \<Rightarrow> txn_return ?lost | Some r \<Rightarrow> txn_return (send_tracking c r)))))) ?Q (\<lambda>_. True)"
  proof (rule triple_bind [OF any_calls.require_reads], intro triple_if)
    show "triple (?read r) (txn_return (Tracked, None)) ?Q (\<lambda>_. True)"
      if "sent_binding_matches r c \<and> ro_send_claim_id r = None" for r
      by (rule triple_return) (use that read_sent_by_binding [OF _ _ c] in blast)
  qed (rule tracking, rule triple_pre [OF complete], simp)
qed

lemma pin_confirms:
  fixes S :: "'w room_services"
  shows "triple (\<lambda>_. True) (pin_sent_room_order_action S x c)
    (\<lambda>p s. (\<exists>receipt. p = PinConfirmed receipt) \<longrightarrow> answered_pin (cm_sent_message c) (rf_calls s)) (\<lambda>_. True)"
  unfolding pin_sent_room_order_action_def send_op_pin_def
proof (rule triple_bind [OF any_calls.keeps_reauthorize], rule triple_bind [OF any_calls.keeps_unless], rule triple_preserve,
    rule triple_bind [OF any_calls.keeps_require], rule triple_bind [OF any_calls.keeps_unless], rule triple_bind)
  let ?key = "make_send_delivery_key x ''pin-sent-room-order''"
  show "triple (\<lambda>_. True) (deliver_room S ?key (PinRoomMessage (cm_sent_message c)))
      (\<lambda>r s. (\<exists>receipt. r = Inr receipt) \<longrightarrow> answered_pin (cm_sent_message c) (rf_calls s)) (\<lambda>_. True)"
    by (rule triple_of_etriple, rule etriple_deliver) (auto simp: answered_pin_def)
  show "triple (\<lambda>s. (\<exists>receipt. r = Inr receipt) \<longrightarrow> answered_pin (cm_sent_message c) (rf_calls s))
      (pin_answer room_orders_send r)
      (\<lambda>p s. (\<exists>receipt. p = PinConfirmed receipt) \<longrightarrow> answered_pin (cm_sent_message c) (rf_calls s)) (\<lambda>_. True)" for r
    by (cases r) (auto simp: pin_answer_def intro!: triple_return triple_fail)
qed

lemma not_required_only_before:
  "yields (record_room_order_send_action S x c) (\<lambda>d. fst d = NotRequired \<longrightarrow> cm_source c = SourceAlreadySent)"
  unfolding record_room_order_send_action_def send_op_record_def
  by (intro yields_preserve yields_then yields_if yields_option yields_return) (auto simp: send_tracking_def)

lemma pinned_status:
  assumes "committed_status c rec pin = (SendPinned, d)"
  shows "(\<exists>receipt. pin = Inr (PinConfirmed receipt)) \<and>
    (cm_source c = SourceSent \<longrightarrow> (\<exists>st e. rec = Some (Inr (st, e)) \<and> st \<in> {Tracked, NotRequired}))"
proof -
  have pin: "\<exists>receipt. pin = Inr (PinConfirmed receipt)"
  proof (rule ccontr)
    assume "\<nexists>receipt. pin = Inr (PinConfirmed receipt)"
    then have "(case pin of Inr (PinConfirmed _) \<Rightarrow> SendPinned | _ \<Rightarrow> SendPartial) = SendPartial"
      by (auto split: sum.splits pin_outcome.splits)
    then show False
      using assms by (auto simp: committed_status_def Let_def split: if_splits option.splits prod.splits)
  qed
  have "\<exists>st e. rec = Some (Inr (st, e)) \<and> st \<in> {Tracked, NotRequired}" if "cm_source c = SourceSent"
  proof (cases "Option.bind rec exit_value")
    case None
    then show ?thesis using assms that by (auto simp: committed_status_def)
  next
    case (Some d)
    then obtain st e where "rec = Some (Inr (st, e))" "d = (st, e)"
      by (cases d; cases rec) (auto simp: exit_value_def split: sum.splits)
    then show ?thesis using assms that
      by (cases st) (auto simp: committed_status_def exit_value_def)
  qed
  then show ?thesis using pin by blast
qed

lemma finish_pins:
  fixes S :: "'w room_services"
  assumes c: "own_commit S x c"
  shows "triple (\<lambda>s. cm_source c = SourceAlreadySent \<longrightarrow> read_as_sent (order_key S x) (cm_sent_message c) (rf_calls s))
    (finish_send S x c)
    (\<lambda>result s. rm_status result = SendPinned \<longrightarrow>
       rm_message_id result = mr_message_id (cm_sent_message c) \<and>
       rm_conversation_id result = mr_conversation_id (cm_sent_message c) \<and>
       answered_pin (cm_sent_message c) (rf_calls s) \<and>
       read_as_sent (order_key S x) (cm_sent_message c) (rf_calls s)) (\<lambda>_. True)"
proof -
  let ?tracked = "\<lambda>d (s :: 'w room_flow). (fst d = Tracked \<longrightarrow> read_as_sent (order_key S x) (cm_sent_message c) (rf_calls s)) \<and>
    (fst d = NotRequired \<longrightarrow> cm_source c = SourceAlreadySent)"
  let ?pinned = "\<lambda>p (s :: 'w room_flow). (\<exists>receipt. p = PinConfirmed receipt) \<longrightarrow> answered_pin (cm_sent_message c) (rf_calls s)"
  let ?pre = "\<lambda>s :: 'w room_flow. cm_source c = SourceAlreadySent \<longrightarrow> read_as_sent (order_key S x) (cm_sent_message c) (rf_calls s)"
  let ?mid = "\<lambda>(x :: (flow_error + record_status \<times> string option) option \<times> (flow_error + pin_outcome)) (s :: 'w room_flow).
    ?pre s \<and> (\<forall>d. fst x = Some (Inr d) \<longrightarrow> ?tracked d s) \<and> (\<forall>p. snd x = Inr p \<longrightarrow> ?pinned p s)"
  let ?tracking = "run_action S (record_room_order_send_action S x c)"
  let ?pin = "run_action S (pin_sent_room_order_action S x c)"
  have pin: "triple (\<lambda>_. True) ?pin ?pinned (\<lambda>_. True)"
    by (rule any_calls.run_action_keeps [OF pin_confirms]) simp
  have rec: "triple (\<lambda>_. True) ?tracking ?tracked (\<lambda>_. True)"
  proof (rule any_calls.run_action_keeps)
    show "triple (\<lambda>_. True) (record_room_order_send_action S x c) ?tracked (\<lambda>_. True)"
      by (rule tripleI) (use tripleD [OF record_tracks [OF c]] yieldsD [OF not_required_only_before] in blast)+
  qed simp
  have keep_rec: "triple (?tracked d) ?pin (\<lambda>_. ?tracked d) (?tracked d)" for d
  proof (cases "fst d = NotRequired \<longrightarrow> cm_source c = SourceAlreadySent")
    case True
    have "triple (\<lambda>s :: 'w room_flow. fst d = Tracked \<longrightarrow> read_as_sent (order_key S x) (cm_sent_message c) (rf_calls s)) ?pin
        (\<lambda>_ s. fst d = Tracked \<longrightarrow> read_as_sent (order_key S x) (cm_sent_message c) (rf_calls s))
        (\<lambda>s. fst d = Tracked \<longrightarrow> read_as_sent (order_key S x) (cm_sent_message c) (rf_calls s))"
      by (rule sent_read.keeps_run_action [OF sent_read.keeps_pin]) simp
    then show ?thesis by (rule triple_pre [OF triple_post]) (use True in auto)
  qed (simp add: triple_def)
  have keep_pin: "triple (?pinned p) ?tracking (\<lambda>_. ?pinned p) (?pinned p)" for p
    by (rule pin_made.keeps_run_action [OF pin_made.keeps_record [OF c]]) simp
  have mid: "triple ?pre (if cm_source c = SourceSent
      then txn_bind (run_both S ?tracking ?pin) (\<lambda>(r, p). txn_return (Some r, p))
      else txn_bind (txn_exit ?pin) (\<lambda>p. txn_return (None, p))) ?mid (\<lambda>_. True)"
  proof (rule triple_if)
    assume sent: "cm_source c = SourceSent"
    show "triple ?pre (txn_bind (run_both S ?tracking ?pin) (\<lambda>(r, p). txn_return (Some r, p))) ?mid (\<lambda>_. True)"
      by (rule triple_pre [OF triple_bind [OF triple_both [OF rec pin keep_rec keep_pin]]])
        (auto intro!: triple_return simp: sent)
  next
    have "triple (\<lambda>s. ?pre s \<and> True) ?pin (\<lambda>p s. ?pre s \<and> ?pinned p s) (\<lambda>s. ?pre s \<and> True)"
      by (rule triple_conj [OF sent_read.keeps_run_action [OF sent_read.keeps_pin] pin]) simp
    then have exit_pin: "triple ?pre (txn_exit ?pin) (\<lambda>p s. ?pre s \<and> (\<forall>a. p = Inr a \<longrightarrow> ?pinned a s)) (\<lambda>_. True)"
      by (rule triple_post [OF triple_pre [OF triple_exit]]) (auto split: sum.splits)
    show "triple ?pre (txn_bind (txn_exit ?pin) (\<lambda>p. txn_return (None, p))) ?mid (\<lambda>_. True)"
      by (rule triple_bind [OF exit_pin], rule triple_return) auto
  qed
  have mid_grows: "room_invariant (?mid z) (\<lambda>_. True)" for z
    by unfold_locales (auto dest: read_as_sent_grows answered_pin_grows)
  have keep_mid: "triple (?mid z) (txn_exit (run_action S (send_respond_action S x r))) (\<lambda>_. ?mid z) (\<lambda>_. True)" for z r
    by (rule triple_post [OF room_invariant.keeps_exit [OF mid_grows room_invariant.keeps_run_action [OF mid_grows
        room_invariant.keeps_respond [OF mid_grows]]]]) simp_all
  show ?thesis
    unfolding finish_send_def
  proof (rule triple_bind [OF mid])
    fix z :: "(flow_error + record_status \<times> string option) option \<times> (flow_error + pin_outcome)"
    obtain rec pin where z: "z = (rec, pin)" by (cases z)
    let ?response = "send_response_from_commit c rec pin"
    have response: "sr_result_message_id ?response = mr_message_id (cm_sent_message c)"
      "sr_result_conversation_id ?response = mr_conversation_id (cm_sent_message c)"
      "sr_status ?response = fst (committed_status c rec pin)"
      by (simp_all add: send_response_from_commit_def split_beta)
    show "triple (?mid z) (case z of (record_exit, pinned) \<Rightarrow>
       let response = send_response_from_commit c record_exit pinned in
       txn_bind (txn_exit (run_action S (send_respond_action S x response))) (\<lambda>responded.
       let failed = (case record_exit of None \<Rightarrow> [] | Some r \<Rightarrow> failed_exit r) @ failed_exit pinned @ failed_exit responded in
       if failed \<noteq> [] then txn_fail (combine_failures failed)
       else txn_return (send_result response
         ((case cm_send_receipt c of None \<Rightarrow> [] | Some r \<Rightarrow> [r]) @
          (case pinned of Inr (PinConfirmed r) \<Rightarrow> [r] | _ \<Rightarrow> []) @
          (case responded of Inr r \<Rightarrow> [r] | _ \<Rightarrow> [])))))
      (\<lambda>result s. rm_status result = SendPinned \<longrightarrow>
       rm_message_id result = mr_message_id (cm_sent_message c) \<and>
       rm_conversation_id result = mr_conversation_id (cm_sent_message c) \<and>
       answered_pin (cm_sent_message c) (rf_calls s) \<and>
       read_as_sent (order_key S x) (cm_sent_message c) (rf_calls s)) (\<lambda>_. True)"
      unfolding z prod.case Let_def
    proof (rule triple_bind [OF keep_mid], rule triple_if [OF triple_fail triple_return], simp)
      fix s r
      assume s: "?mid (rec, pin) s"
      show "rm_status (send_result ?response r) = SendPinned \<longrightarrow>
        rm_message_id (send_result ?response r) = mr_message_id (cm_sent_message c) \<and>
        rm_conversation_id (send_result ?response r) = mr_conversation_id (cm_sent_message c) \<and>
        answered_pin (cm_sent_message c) (rf_calls s) \<and> read_as_sent (order_key S x) (cm_sent_message c) (rf_calls s)"
        (is "_ \<longrightarrow> ?confirmed")
      proof
        assume "rm_status (send_result ?response r) = SendPinned"
        then have "committed_status c rec pin = (SendPinned, snd (committed_status c rec pin))"
          using response(3) by (simp add: send_result_def prod_eq_iff)
        from pinned_status [OF this] show ?confirmed
          using s response(1,2) by (cases "cm_source c") (auto simp: send_result_def)
      qed
    qed
  qed
qed

definition claim_read :: "'w room_services \<Rightarrow> execution \<Rightarrow> send_claim \<Rightarrow> room_call list \<Rightarrow> bool" where
  "claim_read S x c calls \<longleftrightarrow> (\<forall>m. sx_sent_message_id (sc_context c) = Some (mr_message_id m) \<and>
     sx_sent_conversation_id (sc_context c) = Some (mr_conversation_id m) \<longrightarrow> read_as_sent (order_key S x) m calls)"

lemma claim_reads:
  fixes S :: "'w room_services"
  shows "triple (\<lambda>_. True) (claim_send_action S x) (\<lambda>c s. claim_read S x c (rf_calls s)) (\<lambda>_. True)"
  unfolding claim_send_action_def
proof (rule triple_bind_value [OF any_calls.keeps_authorize_send authorize_send_own], rule triple_preserve)
  fix ctx :: send_context assume ctx: "own_context S x ctx"
  let ?Q = "\<lambda>c (s :: 'w room_flow). claim_read S x c (rf_calls s)"
  let ?read = "\<lambda>r (s :: 'w room_flow). True \<and> (\<exists>before. rf_calls s = before @ [RoomRead (Some r)]) \<and> canonical_view_matches ctx r"
  have claim: "triple (?read r) (txn_return (send_claim_of ctx r i st d)) ?Q (\<lambda>_. True)" for r i st d
    by (rule triple_return) (use ctx in \<open>auto simp: claim_read_def send_claim_of_def context_from_row_def read_as_sent_def
        own_context_def canonical_view_matches_def\<close>)
  show "triple (\<lambda>_. True) (send_op_claim S ctx (make_send_claim_id x)) ?Q (\<lambda>_. True)"
    unfolding send_op_claim_def
  proof (rule triple_bind [OF any_calls.require_reads], intro triple_if claim)
    fix r
    let ?claim = "reconcile_mutation (mutate_room S (ClaimSend (nv_key ctx) (make_send_claim_id x)))
      (send_require_canonical S ctx) (\<lambda>current. ro_send_claim_id current = Some (make_send_claim_id x))"
    have reconcile: "triple (\<lambda>_. True) ?claim (\<lambda>_ _. True) (\<lambda>_. True)"
      by (rule any_calls.keeps_reconcile [OF any_calls.keeps_mutate any_calls.keeps_require]) simp
    show "triple (?read r) (txn_bind ?claim (\<lambda>_. txn_bind (send_require_canonical S ctx) (\<lambda>current.
        if is_sent current then txn_return (send_claim_of ctx current (make_send_claim_id x) SendAlreadySent None)
        else if ro_send_claim_id current = Some (make_send_claim_id x)
        then txn_return (send_claim_of ctx current (make_send_claim_id x) SendClaimed None)
        else txn_return (send_claim_of ctx current (make_send_claim_id x) SendDenied (Some (send_busy_detail current))))))
      ?Q (\<lambda>_. True)"
      by (rule triple_pre [OF triple_bind [OF reconcile]], rule triple_bind [OF any_calls.require_reads])
        (intro triple_if claim, simp)
  qed
qed

lemma sent_source: "yields (send_room_order_message_action S x v) (\<lambda>c. cm_source c = SourceSent)"
  unfolding send_room_order_message_action_def send_op_send_def
  by (intro yields_preserve yields_then yields_option yields_return yields_fail) simp

lemma commit_reads:
  fixes S :: "'w room_services"
  shows "triple (\<lambda>s. claim_read S x c (rf_calls s)) (commit_send S x c)
    (\<lambda>d s. cm_source d = SourceAlreadySent \<longrightarrow> read_as_sent (order_key S x) (cm_sent_message d) (rf_calls s)) (\<lambda>_. True)"
proof (cases "sc_status c = SendAlreadySent")
  case True
  show ?thesis
    unfolding commit_send_def if_P [OF True] already_sent_commit_def
    by (auto intro!: triple_return triple_fail simp: claim_read_def message_ref_from_def split: option.splits)
next
  case False
  have "yields (commit_send S x c) (\<lambda>d. cm_source d = SourceSent)"
    unfolding commit_send_def if_not_P [OF False]
    by (rule yields_then, rule yields_bind [OF yields_exit [OF yields_run_action [OF sent_source]]])
      (auto split: sum.splits intro: yields_return yields_fail yields_compensate)
  then show ?thesis by (intro tripleI) (auto dest: yieldsD)
qed

text \<open>C18: A result that says the room order is pinned is true: the bot confirmed the pinning of the very
  message the result names, and the workflow read the row of the room order with that message
  recorded as sent, whether it sent the message itself or an earlier invocation had.\<close>

theorem pinned_result_is_confirmed:
  assumes "rf_calls s = []" and "send_workflow S x s = (Inr result, t)" and "rm_status result = SendPinned"
  shows "\<exists>m. rm_message_id result = mr_message_id m \<and> rm_conversation_id result = mr_conversation_id m \<and>
    answered_pin m (rf_calls t) \<and> read_as_sent (order_key S x) m (rf_calls t)"
proof -
  let ?Q = "\<lambda>result (s :: 'a room_flow). rm_status result = SendPinned \<longrightarrow>
    (\<exists>m. rm_message_id result = mr_message_id m \<and> rm_conversation_id result = mr_conversation_id m \<and>
      answered_pin m (rf_calls s) \<and> read_as_sent (order_key S x) m (rf_calls s))"
  have claim: "triple (\<lambda>_. True) (run_action S (claim_send_action S x)) (\<lambda>c s. claim_read S x c (rf_calls s)) (\<lambda>_. True)"
    by (rule any_calls.run_action_keeps [OF claim_reads]) simp
  have "triple (\<lambda>_. True) (send_workflow S x) ?Q (\<lambda>_. True)"
    unfolding send_workflow_def Let_def
  proof (rule triple_bind [OF any_calls.keeps_decode], rule triple_bind_value [OF claim yields_run_action [OF claim_action_own]],
      rule triple_if)
    fix c
    have "yields (txn_bind (run_action S (send_respond_action S x (send_response_from_denied c)))
        (\<lambda>receipt. txn_return (send_result (send_response_from_denied c) [receipt]))) (\<lambda>result. rm_status result \<noteq> SendPinned)"
      by (rule yields_then, rule yields_return) (simp add: send_result_def send_response_from_denied_def Let_def)
    then show "triple (\<lambda>s. claim_read S x c (rf_calls s))
        (txn_bind (run_action S (send_respond_action S x (send_response_from_denied c)))
          (\<lambda>receipt. txn_return (send_result (send_response_from_denied c) [receipt]))) ?Q (\<lambda>_. True)"
      by (intro tripleI) (auto dest: yieldsD)
    assume c: "own_claim S x c"
    show "triple (\<lambda>s. claim_read S x c (rf_calls s)) (txn_bind (commit_send S x c) (finish_send S x)) ?Q (\<lambda>_. True)"
      by (rule triple_bind_value [OF commit_reads commit_send_own [OF c]], rule triple_post [OF finish_pins]) blast+
  qed
  from tripleD(2) [OF this _ assms(2)] show ?thesis using assms(3) by simp
qed

end
