(* ===== verification/RoomOrderNavigateGuarantees.thy ===== *)
theory RoomOrderNavigateGuarantees
  imports RoomOrderNavigate RoomOrderSendOutcome
begin

text \<open>
  What holds of the workflow that moves a room order to a neighbouring rank, whatever its services answer
  and other actors do: its claim is given back only when what users see is the stored rank again, and a
  result that says it moved rests on a read row and an answered delivery.
\<close>

subsection \<open>The values of its actions\<close>

definition own_navigation_claim :: "'w room_services \<Rightarrow> execution \<Rightarrow> navigation_claim \<Rightarrow> bool" where
  "own_navigation_claim S x c \<longleftrightarrow> own_context S x (nc_context c) \<and> nc_claim_id c = make_navigation_claim_id x"

text \<open>A message that shows a room order of the given rank, with buttons for its place among the ranks.\<close>

definition shows_rank :: "'w room_services \<Rightarrow> int \<Rightarrow> outbound_message \<Rightarrow> bool" where
  "shows_rank S target m \<longleftrightarrow>
     (\<exists>tentative start r es rg. m = navigation_message tentative (row_content S start r es) rg target)"

lemma shows_rankI: "shows_rank S target (navigation_message tentative (row_content S start r es) rg target)"
  unfolding shows_rank_def by blast

definition own_navigation_view :: "'w room_services \<Rightarrow> execution \<Rightarrow> navigation_view \<Rightarrow> bool" where
  "own_navigation_view S x v \<longleftrightarrow> own_context S x (vw_context v) \<and> vw_claim_id v = make_navigation_claim_id x \<and>
     (vw_ready v \<longrightarrow> shows_rank S (vw_target_rank v) (vw_message v) \<and> vw_direction v = direction_of x \<and>
        vw_target_rank v = navigation_target (direction_of x) (nv_rank (vw_context v)))"

definition own_committed :: "'w room_services \<Rightarrow> execution \<Rightarrow> navigation_committed \<Rightarrow> bool" where
  "own_committed S x c \<longleftrightarrow> own_context S x (nd_context c) \<and> nd_claim_id c = make_navigation_claim_id x \<and>
     (nd_status c = NavigationUpdated \<longrightarrow> shows_rank S (nd_target_rank c) (nd_message c) \<and>
        nd_target_rank c = navigation_target (direction_of x) (nv_rank (nd_context c)))"

lemma authorize_navigate_context:
  assumes "authorize_room_orders_navigate C A p inp = Inr ctx"
  shows "\<exists>m. string_field_from_input inp ''messageId'' = Some m \<and> nv_key ctx = discord_key C m"
  using assms
  by (fastforce simp: authorize_room_orders_navigate_def authorize_room_order_def
      special_policies policy_input_def field_or_def user_with_message_Some authorized_simps navigate_context_of_def split_beta)

lemma authorize_navigate_own: "yields (authorize_navigate S x) (own_context S x)"
  unfolding authorize_navigate_def
  by (rule authorize_room_yields) (auto simp: own_context_def order_key_def input_field_def dest!: authorize_navigate_context)

lemma claim_navigation_own: "yields (claim_navigation_action S x) (own_navigation_claim S x)"
  unfolding claim_navigation_action_def navigation_op_claim_def
  by (rule yields_bind [OF authorize_navigate_own], intro yields_preserve yields_then yields_return)
    (simp add: own_navigation_claim_def)

lemma load_navigation_own:
  "own_navigation_claim S x c \<Longrightarrow> yields (load_navigation_view_action S x c) (own_navigation_view S x)"
  unfolding load_navigation_view_action_def navigation_op_load_view_def Let_def
  by (intro yields_preserve yields_then yields_if yields_return)
    (auto simp: own_navigation_claim_def own_navigation_view_def denied_view_def intro: shows_rankI)

lemma commit_navigation_own:
  "own_navigation_view S x v \<Longrightarrow> yields (commit_navigation_action S x v) (own_committed S x)"
  unfolding commit_navigation_action_def navigation_op_commit_def Let_def
  by (intro yields_preserve yields_then yields_if yields_return yields_fail)
    (auto simp: own_navigation_view_def own_committed_def denied_committed_def)

lemma denied_navigation_own: "own_navigation_claim S x c \<Longrightarrow> own_committed S x (denied_navigation c)"
  by (simp add: own_navigation_claim_def own_committed_def denied_navigation_def)

lemma shows_rank_public: "shows_rank S target m \<Longrightarrow> om_visibility m = None"
  by (auto simp: shows_rank_def navigation_message_def content_message_def)

subsection \<open>Which calls it makes\<close>

fun own_navigation_mutation :: "message_key \<Rightarrow> string \<Rightarrow> room_mutation \<Rightarrow> bool" where
  "own_navigation_mutation k c (ClaimTentativeUpdate k' c') \<longleftrightarrow> k' = k \<and> c' = c"
| "own_navigation_mutation k c (ReleaseTentativeUpdate k' c') \<longleftrightarrow> k' = k \<and> c' = c"
| "own_navigation_mutation k c (DecrementRank k' e c') \<longleftrightarrow> k' = k \<and> e \<noteq> None \<and> c' = Some c"
| "own_navigation_mutation k c (IncrementRank k' e c') \<longleftrightarrow> k' = k \<and> e \<noteq> None \<and> c' = Some c"
| "own_navigation_mutation k c _ \<longleftrightarrow> False"

fun own_navigation_delivery :: "execution \<Rightarrow> string \<Rightarrow> room_delivery \<Rightarrow> bool" where
  "own_navigation_delivery x key (RespondTo reference _) \<longleftrightarrow>
     key = make_navigation_delivery_key x ''respond'' \<and> reference = input_field x ''responseReference''"
| "own_navigation_delivery x key (EditRoomMessage _ _) \<longleftrightarrow> key = make_navigation_delivery_key x ''edit-room-order-message''"
| "own_navigation_delivery x key _ \<longleftrightarrow> False"

fun own_navigation_call :: "'w room_services \<Rightarrow> execution \<Rightarrow> room_call \<Rightarrow> bool" where
  "own_navigation_call S x (RoomMutation m _) \<longleftrightarrow> own_navigation_mutation (order_key S x) (make_navigation_claim_id x) m"
| "own_navigation_call S x (RoomDeliver key d _) \<longleftrightarrow> own_navigation_delivery x key d"
| "own_navigation_call S x _ \<longleftrightarrow> True"

context room_invariant
begin

lemma load_current_reads: "triple I (navigation_load_current S ctx)
    (\<lambda>r s. I s \<and> (\<exists>before. rf_calls s = before @ [RoomRead (Some r)]) \<and>
       find_active_message_room_order (nv_key ctx) (rf_db s) = Some r) I"
  unfolding navigation_load_current_def
  by (rule triple_bind [OF get_reads]) (auto intro: triple_return triple_fail split: option.split)

lemma keeps_navigation_current: "triple I (navigation_load_current S ctx) (\<lambda>_. I) I"
  by (rule triple_post [OF load_current_reads]) auto

lemma keeps_navigate_reauthorize: "triple I (navigate_reauthorize S x ctx r) (\<lambda>_. I) I"
  unfolding navigate_reauthorize_def authorize_navigate_def by (intro room_keeps)

lemma keeps_claim_navigation:
  assumes "\<And>b. harmless (RoomMutation (ClaimTentativeUpdate (order_key S x) (make_navigation_claim_id x)) b)"
  shows "triple I (claim_navigation_action S x) (\<lambda>_. I) I"
  unfolding claim_navigation_action_def authorize_navigate_def
proof (rule triple_bind_value [OF keeps_authorize authorize_navigate_own [unfolded authorize_navigate_def]])
  show "triple I (preserve_declared_failure (navigation_op_claim S ctx (make_navigation_claim_id x))) (\<lambda>_. I) I"
    if "own_context S x ctx" for ctx
    unfolding navigation_op_claim_def using that
    by (intro room_keeps keeps_navigation_current keeps_mutate) (simp add: own_context_def assms)
qed

lemma keeps_load_navigation: "triple I (load_navigation_view_action S x c) (\<lambda>_. I) I"
  unfolding load_navigation_view_action_def navigation_op_load_view_def Let_def
  by (intro room_keeps keeps_navigate_reauthorize keeps_navigation_current)

lemma keeps_commit_navigation:
  assumes "\<And>b. vw_ready v \<Longrightarrow>
    harmless (RoomMutation (rank_mutation (vw_direction v) (nv_key (vw_context v)) (nv_rank (vw_context v)) (vw_claim_id v)) b)"
  shows "triple I (commit_navigation_action S x v) (\<lambda>_. I) I"
  unfolding commit_navigation_action_def navigation_op_commit_def Let_def
  by (intro room_keeps keeps_navigate_reauthorize keeps_navigation_current keeps_mutate assms) simp

lemma keeps_respond_navigation:
  assumes "\<And>a. harmless (RoomDeliver (make_navigation_delivery_key x ''respond'')
    (RespondTo (input_field x ''responseReference'') (navigation_response c)) a)"
  shows "triple I (navigation_respond_action S x c) (\<lambda>_. I) I"
  unfolding navigation_respond_action_def navigation_op_respond_def
  by (intro room_keeps keeps_navigate_reauthorize keeps_deliver_or_fail assms)

lemma keeps_edit_navigation:
  assumes "\<And>a. harmless (RoomDeliver (make_navigation_delivery_key x ''edit-room-order-message'')
    (EditRoomMessage (context_message (nd_context c)) (nd_message c)) a)"
  shows "triple I (edit_room_order_message_action S x c) (\<lambda>_. I) I"
  unfolding edit_room_order_message_action_def navigation_op_edit_def
  by (intro room_keeps keeps_navigate_reauthorize keeps_deliver_or_fail assms)

lemma keeps_release_navigation:
  assumes "\<And>b. harmless (RoomMutation (ReleaseTentativeUpdate (nv_key (nd_context c)) (nd_claim_id c)) b)"
  shows "triple I (release_navigation_claim_action S x c q) (\<lambda>_. I) I"
  unfolding release_navigation_claim_action_def navigation_op_release_def
  by (intro room_keeps keeps_navigate_reauthorize keeps_navigation_current keeps_mutate assms)

lemma keeps_finish_navigation:
  assumes "triple I (navigation_respond_action S x c) (\<lambda>_. I) I" and "triple I (edit_room_order_message_action S x c) (\<lambda>_. I) I"
    and "triple I (release_navigation_claim_action S x c True) (\<lambda>_. I) I"
  shows "triple I (finish_navigation S x c) (\<lambda>_. I) I"
  unfolding finish_navigation_def Let_def by (intro room_keeps assms)

text \<open>The workflow, with a fact that its commit ends with.\<close>

lemma keeps_navigate_workflow:
  assumes claim: "triple I (claim_navigation_action S x) (\<lambda>_. I) I" and E: "\<And>s. I s \<Longrightarrow> E s"
    and commit: "\<And>v. own_navigation_view S x v \<Longrightarrow> triple I (run_action S (commit_navigation_action S x v)) Q E"
    and finish: "\<And>c. own_committed S x c \<Longrightarrow> triple (Q c) (finish_navigation S x c) R E"
    and denied: "\<And>c. own_committed S x c \<Longrightarrow> nd_status c = NavigationDenied \<Longrightarrow>
      triple I (txn_bind (run_action S (navigation_respond_action S x c)) (\<lambda>a. txn_return (navigation_result c [a]))) R E"
  shows "triple I (navigate_workflow S x) R E"
  unfolding navigate_workflow_def Let_def
proof (rule triple_bind [where Q = "\<lambda>_. I"])
  show "triple I (decode_or_die S room_orders_navigate x) (\<lambda>_. I) E" by (rule triple_post [OF keeps_decode]) (auto intro: E)
  have claim': "triple I (run_action S (claim_navigation_action S x)) (\<lambda>_. I) E"
    by (rule triple_post [OF keeps_run_action [OF claim]]) (auto intro: E)
  have load: "triple I (run_action S (load_navigation_view_action S x c)) (\<lambda>_. I) E" for c
    by (rule triple_post [OF keeps_run_action [OF keeps_load_navigation]]) (auto intro: E)
  show "triple I (txn_bind (run_action S (claim_navigation_action S x)) (\<lambda>claim. if \<not> nc_claimed claim
      then txn_bind (run_action S (navigation_respond_action S x (denied_navigation claim)))
        (\<lambda>receipt. txn_return (navigation_result (denied_navigation claim) [receipt]))
      else txn_bind (run_action S (load_navigation_view_action S x claim)) (\<lambda>view.
        txn_bind (run_action S (commit_navigation_action S x view)) (finish_navigation S x)))) R E"
  proof (rule triple_bind_value [OF claim' yields_run_action [OF claim_navigation_own]], rule triple_if)
    fix c assume c: "own_navigation_claim S x c"
    show "triple I (txn_bind (run_action S (navigation_respond_action S x (denied_navigation c)))
        (\<lambda>receipt. txn_return (navigation_result (denied_navigation c) [receipt]))) R E"
      by (rule denied [OF denied_navigation_own [OF c]]) (simp add: denied_navigation_def)
    show "triple I (txn_bind (run_action S (load_navigation_view_action S x c)) (\<lambda>view.
        txn_bind (run_action S (commit_navigation_action S x view)) (finish_navigation S x))) R E"
      by (rule triple_bind_value [OF load yields_run_action [OF load_navigation_own [OF c]]],
          rule triple_bind_value [OF commit yields_run_action [OF commit_navigation_own]]) (auto intro: finish)
  qed
qed

end

interpretation navigation_calls: room_invariant "\<lambda>s :: 'w room_flow. list_all (own_navigation_call S x) (rf_calls s)"
    "own_navigation_call S x" for S :: "'w room_services" and x
  by unfold_locales simp_all

text \<open>The navigation acts on its own message only: every mutation it sends claims, releases or moves by
  one from an expected rank, under the claim of its invocation, the message its input names, and every
  delivery carries the key of its invocation for its kind; it sends and pins nothing.\<close>

theorem navigation_calls_are_its_own:
  fixes S :: "'w room_services"
  assumes "rf_calls s = []" and "navigate_workflow S x s = (r, t)"
  shows "list_all (own_navigation_call S x) (rf_calls t)"
proof -
  let ?I = "\<lambda>s :: 'w room_flow. list_all (own_navigation_call S x) (rf_calls s)"
  have respond: "triple ?I (navigation_respond_action S x c) (\<lambda>_. ?I) ?I" for c
    by (rule navigation_calls.keeps_respond_navigation) simp
  have "triple ?I (navigate_workflow S x) (\<lambda>_. ?I) ?I"
  proof (rule navigation_calls.keeps_navigate_workflow)
    show "triple ?I (claim_navigation_action S x) (\<lambda>_. ?I) ?I" by (rule navigation_calls.keeps_claim_navigation) simp
    show "triple ?I (run_action S (commit_navigation_action S x v)) (\<lambda>_. ?I) ?I" if "own_navigation_view S x v" for v
      by (rule navigation_calls.keeps_run_action, rule navigation_calls.keeps_commit_navigation)
        (use that in \<open>simp add: rank_mutation_def own_navigation_view_def own_context_def\<close>)
    show "triple ?I (finish_navigation S x c) (\<lambda>_. ?I) ?I" if "own_committed S x c" for c
      by (intro navigation_calls.keeps_finish_navigation respond navigation_calls.keeps_edit_navigation
          navigation_calls.keeps_release_navigation) (use that in \<open>simp_all add: own_committed_def own_context_def\<close>)
    show "triple ?I (txn_bind (run_action S (navigation_respond_action S x c)) (\<lambda>a. txn_return (navigation_result c [a])))
        (\<lambda>_. ?I) ?I" for c
      by (intro navigation_calls.room_keeps respond)
  qed
  from triple_always [OF this, of s] show ?thesis using assms by simp
qed

subsection \<open>Giving the claim back\<close>

text \<open>
  The rank from which the message was moved while what users see is not known to follow: a move opens it,
  reading the row at that rank again or an answered delivery that shows a room order closes it.
\<close>

fun rank_moved :: "room_mutation \<Rightarrow> int option" where
  "rank_moved (DecrementRank _ e _) = e"
| "rank_moved (IncrementRank _ e _) = e"
| "rank_moved _ = None"

fun shows_room_order :: "room_delivery \<Rightarrow> bool" where
  "shows_room_order (EditRoomMessage _ _) = True"
| "shows_room_order (RespondTo _ m) = (om_visibility m \<noteq> Some EphemeralMessage)"
| "shows_room_order _ = False"

fun unshown_step :: "int option \<Rightarrow> room_call \<Rightarrow> int option" where
  "unshown_step d (RoomMutation m _) = (case rank_moved m of Some e \<Rightarrow> Some e | None \<Rightarrow> d)"
| "unshown_step d (RoomRead (Some r)) = (if d = Some (ro_rank r) then None else d)"
| "unshown_step d (RoomDeliver _ x (Answered _)) = (if shows_room_order x then None else d)"
| "unshown_step d _ = d"

definition unshown_move :: "room_call list \<Rightarrow> int option" where
  "unshown_move calls = foldl unshown_step None calls"

fun release_fits :: "room_call list \<Rightarrow> room_call \<Rightarrow> bool" where
  "release_fits pre (RoomMutation (ReleaseTentativeUpdate _ _) _) \<longleftrightarrow> unshown_move pre = None"
| "release_fits pre _ \<longleftrightarrow> True"

fun is_release :: "room_call \<Rightarrow> bool" where
  "is_release (RoomMutation (ReleaseTentativeUpdate _ _) _) \<longleftrightarrow> True"
| "is_release _ \<longleftrightarrow> False"

fun moves_rank :: "room_call \<Rightarrow> int option" where
  "moves_rank (RoomMutation m _) = rank_moved m"
| "moves_rank _ = None"

lemma unshown_move_simps [simp]: "unshown_move [] = None" "unshown_move (calls @ [c]) = unshown_step (unshown_move calls) c"
  by (simp_all add: unshown_move_def)

lemma release_fits_other: "\<not> is_release c \<Longrightarrow> release_fits pre c"
  by (cases "(pre, c)" rule: release_fits.cases) auto

lemma release_fits_shown: "unshown_move pre = None \<Longrightarrow> release_fits pre c"
  by (cases "(pre, c)" rule: release_fits.cases) auto

lemma unshown_step_cases: "unshown_step d c = None \<or> unshown_step d c = d \<or> unshown_step d c = moves_rank c"
  by (cases "(d, c)" rule: unshown_step.cases) (auto split: option.split)

lemma unshown_step_None: "moves_rank c = None \<Longrightarrow> unshown_step None c = None"
  using unshown_step_cases [of None c] by auto

abbreviation releases_fit :: "'w room_flow \<Rightarrow> bool" where
  "releases_fit s \<equiv> each_call release_fits (rf_calls s)"

abbreviation all_shown :: "'w room_flow \<Rightarrow> bool" where
  "all_shown s \<equiv> releases_fit s \<and> unshown_move (rf_calls s) = None"

abbreviation unshown_at :: "int \<Rightarrow> 'w room_flow \<Rightarrow> bool" where
  "unshown_at e s \<equiv> releases_fit s \<and> unshown_move (rf_calls s) \<in> {None, Some e}"

interpretation releases_fit: room_invariant releases_fit "\<lambda>c. \<not> is_release c"
  by unfold_locales (auto intro: release_fits_other)

interpretation all_shown: room_invariant all_shown "\<lambda>c. moves_rank c = None"
  by unfold_locales (auto simp: unshown_step_None intro: release_fits_shown)

interpretation unshown_at: room_invariant "unshown_at e" "\<lambda>c. \<not> is_release c \<and> moves_rank c \<in> {None, Some e}" for e
proof (unfold_locales, goal_cases)
  case (3 s c)
  then show ?case using unshown_step_cases [of "unshown_move (rf_calls s)" c] by (auto intro: release_fits_other)
qed simp_all

text \<open>A read of the row at the rank it was moved from closes the move.\<close>

lemma current_closes:
  "triple (unshown_at (nv_rank ctx)) (navigation_load_current S ctx)
     (\<lambda>r s. unshown_at (nv_rank ctx) s \<and> (ro_rank r = nv_rank ctx \<longrightarrow> unshown_move (rf_calls s) = None))
     (unshown_at (nv_rank ctx))"
proof (rule triple_post [OF unshown_at.load_current_reads])
  fix r and s :: "'a room_flow"
  assume *: "unshown_at (nv_rank ctx) s \<and> (\<exists>before. rf_calls s = before @ [RoomRead (Some r)]) \<and>
    find_active_message_room_order (nv_key ctx) (rf_db s) = Some r"
  then obtain pre where pre: "rf_calls s = pre @ [RoomRead (Some r)]" by blast
  have "unshown_move (rf_calls s) = None" if "ro_rank r = nv_rank ctx"
    using * that unfolding pre by (auto split: if_splits)
  then show "unshown_at (nv_rank ctx) s \<and> (ro_rank r = nv_rank ctx \<longrightarrow> unshown_move (rf_calls s) = None)"
    using * by blast
qed

lemma commit_denies_shown:
  fixes S :: "'w room_services"
  assumes v: "own_navigation_view S x v"
  shows "triple all_shown (run_action S (commit_navigation_action S x v))
    (\<lambda>c s. releases_fit s \<and> (nd_status c = NavigationDenied \<longrightarrow> all_shown s)) releases_fit"
proof (cases "vw_ready v")
  case False
  show ?thesis
    by (rule triple_post [OF all_shown.keeps_run_action [OF all_shown.keeps_commit_navigation]]) (use False in auto)
next
  case True
  let ?ctx = "vw_context v"
  let ?J = "unshown_at (nv_rank ?ctx) :: 'w room_flow \<Rightarrow> bool"
  let ?Q = "\<lambda>c (s :: 'w room_flow). ?J s \<and> (nd_status c = NavigationDenied \<longrightarrow> unshown_move (rf_calls s) = None)"
  have mutate: "triple ?J (mutate_room S (rank_mutation (vw_direction v) (nv_key ?ctx) (nv_rank ?ctx) (vw_claim_id v)))
      (\<lambda>_. ?J) ?J"
    by (rule unshown_at.keeps_mutate) (simp add: rank_mutation_def)
  let ?outcome = "\<lambda>current. if \<not> claim_owned_by current (vw_claim_id v) \<or> ro_rank current \<noteq> vw_target_rank v
    then if claim_owned_by current (vw_claim_id v) \<and> ro_rank current = nv_rank ?ctx
      then txn_return (denied_committed v (Some (navigation_busy_detail current (Some (vw_claim_id v))))
        (ephemeral_text (navigation_busy_detail current (Some (vw_claim_id v)))))
      else txn_fail Undeclared
    else txn_return \<lparr>nd_context = ?ctx, nd_claim_id = vw_claim_id v, nd_target_rank = vw_target_rank v,
      nd_status = NavigationUpdated, nd_detail = None, nd_message = vw_message v\<rparr>"
  have ends: "triple (\<lambda>s. ?J s \<and> (ro_rank r = nv_rank ?ctx \<longrightarrow> unshown_move (rf_calls s) = None))
      (txn_bind (fail_unless (context_matches_row ?ctx r) navigate_revoked) (\<lambda>_. ?outcome r)) ?Q ?J" for r
    by (rule triple_bind [OF triple_fail_unless [where Q = "\<lambda>_ s. ?J s \<and> (ro_rank r = nv_rank ?ctx \<longrightarrow>
        unshown_move (rf_calls s) = None)"]]) (auto simp: denied_committed_def intro!: triple_if triple_return triple_fail)
  have commit: "triple ?J (commit_navigation_action S x v) ?Q ?J"
    unfolding commit_navigation_action_def navigation_op_commit_def Let_def
  proof (rule triple_bind [OF unshown_at.keeps_navigate_reauthorize], rule triple_preserve, rule triple_if, simp add: True,
      rule triple_if, rule triple_fail, assumption)
    show "triple ?J (txn_bind (reconcile_mutation
        (mutate_room S (rank_mutation (vw_direction v) (nv_key ?ctx) (nv_rank ?ctx) (vw_claim_id v)))
        (navigation_load_current S ?ctx)
        (\<lambda>current. claim_owned_by current (vw_claim_id v) \<and> ro_rank current = vw_target_rank v)) (\<lambda>_.
      txn_bind (navigation_load_current S ?ctx) (\<lambda>current.
      txn_bind (fail_unless (context_matches_row ?ctx current) navigate_revoked) (\<lambda>_. ?outcome current)))) ?Q ?J"
      by (rule triple_bind [OF unshown_at.keeps_reconcile [OF mutate unshown_at.keeps_navigation_current]],
          rule triple_bind [OF current_closes ends])
  qed
  show ?thesis
    by (rule triple_pre [OF triple_post [OF unshown_at.run_action_keeps [OF commit]]]) auto
qed

lemma respond_shows:
  fixes S :: "'w room_services"
  assumes c: "own_committed S x c"
  shows "triple releases_fit (navigation_respond_action S x c)
    (\<lambda>_ s. releases_fit s \<and> (nd_status c = NavigationUpdated \<longrightarrow> \<not> nv_tentative (nd_context c) \<longrightarrow>
      unshown_move (rf_calls s) = None)) releases_fit"
  unfolding navigation_respond_action_def navigation_op_respond_def
proof -
  have shown: "shows_room_order (RespondTo reference (navigation_response c))"
    if "nd_status c = NavigationUpdated" "\<not> nv_tentative (nd_context c)" for reference
    using c that by (auto simp: own_committed_def navigation_response_def dest: shows_rank_public)
  show "triple releases_fit (txn_bind (navigate_reauthorize S x (nd_context c) (committed_rank c)) (\<lambda>_.
      txn_bind (decode_or_die S room_orders_navigate x) (\<lambda>_. preserve_declared_failure (deliver_or_fail S
        (make_navigation_delivery_key x ''respond'') (RespondTo (input_field x ''responseReference'') (navigation_response c))
        (navigation_delivery_failure c ''roomOrders.navigate.respond'' ''response'' ''The room-order response was rejected'')))))
    (\<lambda>_ s. releases_fit s \<and> (nd_status c = NavigationUpdated \<longrightarrow> \<not> nv_tentative (nd_context c) \<longrightarrow>
      unshown_move (rf_calls s) = None)) releases_fit"
    by (rule triple_bind [OF releases_fit.keeps_navigate_reauthorize], rule triple_bind [OF releases_fit.keeps_decode],
        rule triple_preserve, rule triple_of_etriple, rule etriple_deliver_or_fail) (use shown in simp_all)
qed

lemma edit_shows:
  fixes S :: "'w room_services"
  shows "triple releases_fit (edit_room_order_message_action S x c)
    (\<lambda>_. all_shown) releases_fit"
  unfolding edit_room_order_message_action_def navigation_op_edit_def
  by (rule triple_bind [OF releases_fit.keeps_navigate_reauthorize], rule triple_preserve, rule triple_of_etriple,
      rule etriple_deliver_or_fail) simp_all

lemma finish_navigation_fits:
  fixes S :: "'w room_services"
  assumes c: "own_committed S x c"
  shows "triple (\<lambda>s. releases_fit s \<and> (nd_status c = NavigationDenied \<longrightarrow> all_shown s)) (finish_navigation S x c)
    (\<lambda>_. releases_fit) releases_fit"
proof (cases "nd_status c")
  case NavigationDenied
  have "triple all_shown (finish_navigation S x c) (\<lambda>_. all_shown) all_shown"
    by (intro all_shown.keeps_finish_navigation all_shown.keeps_respond_navigation all_shown.keeps_edit_navigation
        all_shown.keeps_release_navigation) simp_all
  from triple_post [OF triple_pre [OF this]] show ?thesis by (auto simp: NavigationDenied)
next
  case NavigationUpdated
  let ?R = "\<lambda>responded (s :: 'w room_flow). releases_fit s \<and> (exit_value responded \<noteq> None \<longrightarrow>
    \<not> nv_tentative (nd_context c) \<longrightarrow> unshown_move (rf_calls s) = None)"
  let ?E = "\<lambda>responded edited (s :: 'w room_flow). releases_fit s \<and>
    (canonical_projection_confirmed c responded edited \<longrightarrow> unshown_move (rf_calls s) = None)"
  have respond: "triple releases_fit (txn_exit (run_action S (navigation_respond_action S x c))) ?R releases_fit"
    by (rule triple_post [OF triple_exit [OF releases_fit.run_action_keeps [OF respond_shows [OF c]]]])
      (auto simp: NavigationUpdated exit_value_def split: sum.splits)
  have edit: "triple releases_fit (txn_exit (run_action S (edit_room_order_message_action S x c)))
      (\<lambda>e s. releases_fit s \<and> (exit_value e \<noteq> None \<longrightarrow> unshown_move (rf_calls s) = None)) releases_fit"
    by (rule triple_post [OF triple_exit [OF releases_fit.run_action_keeps [OF edit_shows]]])
      (auto simp: exit_value_def split: sum.splits)
  have edited: "triple (?R responded) (if nv_tentative (nd_context c) \<and> nd_status c = NavigationUpdated
       then txn_bind (txn_exit (run_action S (edit_room_order_message_action S x c))) (\<lambda>e. txn_return (Some e))
       else txn_return None) (?E responded) releases_fit" for responded
    by (rule triple_if, rule triple_bind [OF triple_pre [OF edit]])
      (auto simp: canonical_projection_confirmed_def NavigationUpdated intro!: triple_return)
  have release: "triple (?E responded e) (if canonical_projection_confirmed c responded e
       then run_action S (release_navigation_claim_action S x c True) else txn_return ()) (\<lambda>_. releases_fit) releases_fit"
    for responded e
    by (rule triple_if, rule triple_post [OF triple_pre [OF all_shown.keeps_run_action
          [OF all_shown.keeps_release_navigation]]]) (auto intro: triple_return)
  have "triple releases_fit (finish_navigation S x c) (\<lambda>_. releases_fit) releases_fit"
    unfolding finish_navigation_def Let_def
    by (rule triple_bind [OF respond], rule triple_bind [OF edited], rule triple_bind [OF release])
      (auto intro: triple_return triple_fail)
  then show ?thesis by (rule triple_pre) (simp add: NavigationUpdated)
qed


subsection \<open>What a result that says it moved rests on\<close>

text \<open>The rank was moved by one in the given direction, and the row was read at the new rank under the claim.\<close>

definition moved_to_next :: "message_key \<Rightarrow> string \<Rightarrow> direction \<Rightarrow> int \<Rightarrow> room_call list \<Rightarrow> bool" where
  "moved_to_next k c d e calls \<longleftrightarrow> (\<exists>b. RoomMutation (rank_mutation d k e c) b \<in> set calls) \<and>
     (\<exists>r. RoomRead (Some r) \<in> set calls \<and> ro_key r = k \<and> ro_update_claim_id r = Some c \<and> ro_rank r = navigation_target d e)"

definition answered_showing :: "'w room_services \<Rightarrow> int \<Rightarrow> room_call list \<Rightarrow> bool" where
  "answered_showing S rank calls \<longleftrightarrow> (\<exists>key d receipt m. RoomDeliver key d (Answered receipt) \<in> set calls \<and>
     ((\<exists>ref. d = EditRoomMessage ref m) \<or> (\<exists>ref. d = RespondTo ref m)) \<and> shows_rank S rank m)"

interpretation moved_to_next: room_invariant "\<lambda>s :: 'w room_flow. q \<longrightarrow> moved_to_next k c d e (rf_calls s)" "\<lambda>_. True"
  for k c d e q by unfold_locales (auto simp: moved_to_next_def)

interpretation answered_showing: room_invariant "\<lambda>s :: 'w room_flow. q \<longrightarrow> answered_showing S rank (rf_calls s)" "\<lambda>_. True"
  for S :: "'w room_services" and rank q by unfold_locales (fastforce simp: answered_showing_def)+

interpretation mutated: room_invariant "\<lambda>s :: 'w room_flow. \<exists>b. RoomMutation m b \<in> set (rf_calls s)" "\<lambda>_. True" for m
  by unfold_locales auto

lemma mutate_calls:
  "triple (\<lambda>_. True) (mutate_room S m) (\<lambda>_ s. \<exists>b. RoomMutation m b \<in> set (rf_calls s))
     (\<lambda>s. \<exists>b. RoomMutation m b \<in> set (rf_calls s))"
  by (rule tripleI)
    (auto simp: mutate_room_def others_act_def ask_world_def send_mutation_def txn_bind_def
      split: prod.splits sum.splits if_splits)

lemma commit_moves:
  fixes S :: "'w room_services"
  assumes v: "own_navigation_view S x v"
  shows "triple (\<lambda>_. True) (commit_navigation_action S x v)
    (\<lambda>c s. nd_status c = NavigationUpdated \<longrightarrow>
       moved_to_next (order_key S x) (make_navigation_claim_id x) (direction_of x) (nv_rank (nd_context c)) (rf_calls s))
    (\<lambda>_. True)"
proof (cases "vw_ready v")
  case False
  show ?thesis
    unfolding commit_navigation_action_def navigation_op_commit_def Let_def
    by (rule triple_bind [OF any_calls.keeps_navigate_reauthorize], rule triple_preserve)
      (auto simp: False denied_committed_def intro: triple_return)
next
  case True
  let ?ctx = "vw_context v" and ?k = "order_key S x" and ?c = "make_navigation_claim_id x" and ?d = "direction_of x"
  let ?m = "rank_mutation ?d (nv_key ?ctx) (nv_rank ?ctx) ?c"
  let ?done = "\<lambda>s :: 'w room_flow. \<exists>b. RoomMutation ?m b \<in> set (rf_calls s)"
  have own: "vw_claim_id v = ?c" "nv_key ?ctx = ?k" "vw_direction v = ?d" "vw_target_rank v = navigation_target ?d (nv_rank ?ctx)"
    using v True by (simp_all add: own_navigation_view_def own_context_def)
  have mutate: "triple (\<lambda>_. True) (reconcile_mutation (mutate_room S ?m) (navigation_load_current S ?ctx) p) (\<lambda>_. ?done) (\<lambda>_. True)"
    for p
    unfolding reconcile_mutation_def
    by (rule triple_catch_cause [OF mutate_calls], rule triple_post [OF keeps_bind [OF mutated.keeps_navigation_current]])
      (auto intro: mutated.room_keeps)
  let ?Q = "\<lambda>c (s :: 'w room_flow). nd_status c = NavigationUpdated \<longrightarrow>
    moved_to_next ?k ?c ?d (nv_rank (nd_context c)) (rf_calls s)"
  let ?outcome = "\<lambda>current. if \<not> claim_owned_by current ?c \<or> ro_rank current \<noteq> navigation_target ?d (nv_rank ?ctx)
    then if claim_owned_by current ?c \<and> ro_rank current = nv_rank ?ctx
      then txn_return (denied_committed v (Some (navigation_busy_detail current (Some ?c)))
        (ephemeral_text (navigation_busy_detail current (Some ?c))))
      else txn_fail Undeclared
    else txn_return \<lparr>nd_context = ?ctx, nd_claim_id = ?c, nd_target_rank = navigation_target ?d (nv_rank ?ctx),
      nd_status = NavigationUpdated, nd_detail = None, nd_message = vw_message v\<rparr>"
  have ends: "triple (\<lambda>s. ?done s \<and> (\<exists>before. rf_calls s = before @ [RoomRead (Some r)]) \<and>
        find_active_message_room_order (nv_key ?ctx) (rf_db s) = Some r)
      (txn_bind (fail_unless (context_matches_row ?ctx r) navigate_revoked) (\<lambda>_. ?outcome r)) ?Q (\<lambda>_. True)" for r
  proof (rule triple_bind)
    show "triple (\<lambda>s. ?done s \<and> (\<exists>before. rf_calls s = before @ [RoomRead (Some r)]) \<and>
        find_active_message_room_order (nv_key ?ctx) (rf_db s) = Some r) (fail_unless (context_matches_row ?ctx r) navigate_revoked)
      (\<lambda>_ s. ?done s \<and> RoomRead (Some r) \<in> set (rf_calls s) \<and> ro_key r = ?k) (\<lambda>_. True)"
      by (rule triple_fail_unless) (use own(2) in \<open>auto simp: context_matches_row_def\<close>)
    show "triple (\<lambda>s. ?done s \<and> RoomRead (Some r) \<in> set (rf_calls s) \<and> ro_key r = ?k) (?outcome r) ?Q (\<lambda>_. True)"
      by (auto simp: own(2) denied_committed_def moved_to_next_def claim_owned_by_def intro!: triple_return triple_fail)
  qed
  show ?thesis
    unfolding commit_navigation_action_def navigation_op_commit_def Let_def
  proof (rule triple_bind [OF any_calls.keeps_navigate_reauthorize], rule triple_preserve, rule triple_if, simp add: True,
      rule triple_if, rule triple_fail, assumption)
    show "triple (\<lambda>_. True) (txn_bind (reconcile_mutation
        (mutate_room S (rank_mutation (vw_direction v) (nv_key ?ctx) (nv_rank ?ctx) (vw_claim_id v)))
        (navigation_load_current S ?ctx)
        (\<lambda>current. claim_owned_by current (vw_claim_id v) \<and> ro_rank current = vw_target_rank v)) (\<lambda>_.
      txn_bind (navigation_load_current S ?ctx) (\<lambda>current.
      txn_bind (fail_unless (context_matches_row ?ctx current) navigate_revoked) (\<lambda>_.
      if \<not> claim_owned_by current (vw_claim_id v) \<or> ro_rank current \<noteq> vw_target_rank v
      then if claim_owned_by current (vw_claim_id v) \<and> ro_rank current = nv_rank ?ctx
        then txn_return (denied_committed v (Some (navigation_busy_detail current (Some (vw_claim_id v))))
          (ephemeral_text (navigation_busy_detail current (Some (vw_claim_id v)))))
        else txn_fail Undeclared
      else txn_return \<lparr>nd_context = ?ctx, nd_claim_id = vw_claim_id v, nd_target_rank = vw_target_rank v,
        nd_status = NavigationUpdated, nd_detail = None, nd_message = vw_message v\<rparr>)))) ?Q (\<lambda>_. True)"
      unfolding own(1,3,4)
      by (rule triple_bind [OF mutate], rule triple_bind [OF triple_post [OF mutated.load_current_reads]],
          assumption, simp, rule ends)
  qed
qed

lemma answered_showingI:
  "RoomDeliver key d (Answered receipt) \<in> set calls \<Longrightarrow> d = EditRoomMessage ref m \<or> d = RespondTo reference m \<Longrightarrow>
     shows_rank S rank m \<Longrightarrow> answered_showing S rank calls"
  unfolding answered_showing_def by blast

lemma respond_answers:
  fixes S :: "'w room_services"
  assumes c: "own_committed S x c"
  shows "triple (\<lambda>_. True) (navigation_respond_action S x c)
    (\<lambda>_ s. nd_status c = NavigationUpdated \<and> \<not> nv_tentative (nd_context c) \<longrightarrow>
      answered_showing S (nd_target_rank c) (rf_calls s)) (\<lambda>_. True)"
  unfolding navigation_respond_action_def navigation_op_respond_def
proof (rule triple_bind [OF any_calls.keeps_navigate_reauthorize], rule triple_bind [OF any_calls.keeps_decode],
    rule triple_preserve, rule triple_of_etriple, rule etriple_deliver_or_fail)
qed (use c in \<open>auto simp: own_committed_def navigation_response_def intro!: answered_showingI\<close>)

lemma edit_answers:
  fixes S :: "'w room_services"
  assumes c: "own_committed S x c"
  shows "triple (\<lambda>_. True) (edit_room_order_message_action S x c)
    (\<lambda>_ s. nd_status c = NavigationUpdated \<longrightarrow> answered_showing S (nd_target_rank c) (rf_calls s)) (\<lambda>_. True)"
  unfolding edit_room_order_message_action_def navigation_op_edit_def
  by (rule triple_bind [OF any_calls.keeps_navigate_reauthorize], rule triple_preserve, rule triple_of_etriple,
      rule etriple_deliver_or_fail) (use c in \<open>auto simp: own_committed_def intro!: answered_showingI\<close>)

lemma finish_answers:
  fixes S :: "'w room_services"
  assumes c: "own_committed S x c"
  shows "triple (\<lambda>_. True) (finish_navigation S x c)
    (\<lambda>result s. rm_status result = nd_status c \<and>
       (nd_status c = NavigationUpdated \<longrightarrow> answered_showing S (nd_target_rank c) (rf_calls s))) (\<lambda>_. True)"
proof -
  let ?shown = "\<lambda>s :: 'w room_flow. answered_showing S (nd_target_rank c) (rf_calls s)"
  let ?R = "\<lambda>responded (s :: 'w room_flow). exit_value responded \<noteq> None \<and> nd_status c = NavigationUpdated \<and>
    \<not> nv_tentative (nd_context c) \<longrightarrow> ?shown s"
  let ?E = "\<lambda>responded edited (s :: 'w room_flow). exit_value responded \<noteq> None \<and>
    (nv_tentative (nd_context c) \<longrightarrow> Option.bind edited exit_value \<noteq> None) \<and> nd_status c = NavigationUpdated \<longrightarrow> ?shown s"
  have respond: "triple (\<lambda>_. True) (txn_exit (run_action S (navigation_respond_action S x c))) ?R (\<lambda>_. True)"
    by (rule triple_post [OF triple_exit [OF any_calls.run_action_keeps [OF respond_answers [OF c]]]])
      (auto simp: exit_value_def split: sum.splits)
  have edit: "triple (\<lambda>_. True) (txn_exit (run_action S (edit_room_order_message_action S x c)))
      (\<lambda>e s. exit_value e \<noteq> None \<and> nd_status c = NavigationUpdated \<longrightarrow> ?shown s) (\<lambda>_. True)"
    by (rule triple_post [OF triple_exit [OF any_calls.run_action_keeps [OF edit_answers [OF c]]]])
      (auto simp: exit_value_def split: sum.splits)
  have edited: "triple (?R responded) (if nv_tentative (nd_context c) \<and> nd_status c = NavigationUpdated
       then txn_bind (txn_exit (run_action S (edit_room_order_message_action S x c))) (\<lambda>e. txn_return (Some e))
       else txn_return None)
     (\<lambda>e s. ?E responded e s \<and> (nv_tentative (nd_context c) \<and> nd_status c = NavigationUpdated \<longrightarrow> e \<noteq> None)) (\<lambda>_. True)"
    for responded
    by (rule triple_if, rule triple_bind [OF triple_pre [OF edit]]) (auto intro!: triple_return)
  have release: "triple (?E responded e) (if canonical_projection_confirmed c responded e
       then run_action S (release_navigation_claim_action S x c True) else txn_return ()) (\<lambda>_. ?E responded e) (\<lambda>_. True)"
    for responded e
    by (rule triple_if, rule triple_post [OF answered_showing.keeps_run_action
          [OF answered_showing.keeps_release_navigation]]) (auto intro: triple_return)
  show ?thesis
    unfolding finish_navigation_def Let_def
  proof (rule triple_bind [OF respond], rule triple_bind [OF edited], rule triple_bind)
    fix responded and e :: "(flow_error + room_receipt) option"
    let ?have = "nv_tentative (nd_context c) \<and> nd_status c = NavigationUpdated \<longrightarrow> e \<noteq> None"
    show "triple (\<lambda>s. ?E responded e s \<and> ?have) (if canonical_projection_confirmed c responded e
       then run_action S (release_navigation_claim_action S x c True) else txn_return ())
      (\<lambda>_ s. ?E responded e s \<and> ?have) (\<lambda>_. True)"
      by (rule triple_const, rule triple_post [OF release]) simp_all
    let ?failed = "concat (map failed_exit (responded # (case e of None \<Rightarrow> [] | Some e \<Rightarrow> [e])))"
    have "exit_value responded \<noteq> None \<and> (nv_tentative (nd_context c) \<and> nd_status c = NavigationUpdated \<longrightarrow>
        Option.bind e exit_value \<noteq> None)" if "?failed = []" "?have"
      using that by (auto simp: failed_exit_def exit_value_def split: sum.splits option.splits)
    then show "triple (\<lambda>s. ?E responded e s \<and> ?have) (if ?failed \<noteq> [] then txn_fail (combine_failures ?failed)
        else txn_return (navigation_result c (List.map_filter exit_value (responded # (case e of None \<Rightarrow> [] | Some e \<Rightarrow> [e])))))
      (\<lambda>result s. rm_status result = nd_status c \<and> (nd_status c = NavigationUpdated \<longrightarrow> ?shown s)) (\<lambda>_. True)"
      by (intro triple_if triple_fail triple_return) (auto simp: navigation_result_def)
  qed
qed


end
