(* ===== verification/RoomOrderNavigateSamples.thy ===== *)
theory RoomOrderNavigateSamples
  imports RoomOrderNavigateGuarantees RoomOrderSendSamples
begin

text \<open>The navigation run on the concrete services of \<open>RoomOrderSendSamples\<close>, for a room order with two ranks.\<close>

definition sample_navigation :: execution where
  "sample_navigation = (sample_room_execution ''i'')
     \<lparr>ex_input := JObj [(''workspaceId'', JStr ''other''), (''responseReference'', JStr ''r''),
       (''messageId'', JStr ''m''), (''messageConversationId'', JStr ''c''), (''direction'', JStr ''next'')]\<rparr>"

definition sample_entry :: "int \<Rightarrow> room_order_entry_row" where
  "sample_entry rank = \<lparr>rer_key = discord_key sample_auth_config ''m'', rer_entry = \<lparr>re_rank = rank, re_position = 0,
     re_hour = 20, re_team = ''t'', re_tags = [], re_effect_value = 0\<rparr>, rer_audit = sample_audit\<rparr>"

definition sample_navigation_start :: "sample_world room_flow" where
  "sample_navigation_start = sample_room_start\<lparr>rf_db := \<lparr>room_orders = [sample_room_order],
     room_order_entries = [sample_entry 0, sample_entry 1]\<rparr>\<rparr>"

definition sample_navigate :: "(flow_error + navigation_status room_result) \<times> sample_world room_flow" where
  "sample_navigate = navigate_workflow (sample_room_services all_delivered False) sample_navigation sample_navigation_start"

lemma sample_navigate_evaluated:
  "case sample_navigate of (r, t) \<Rightarrow>
     (case r of Inl _ \<Rightarrow> False | Inr result \<Rightarrow> rm_status result = NavigationUpdated) \<and>
     11 < length (rf_calls t) \<and>
     rf_calls t ! 11 = RoomMutation (ReleaseTentativeUpdate (discord_key sample_auth_config ''m'')
       ''roomOrders.navigate:1:i:claim-navigation'') True"
  by code_simp

lemma sample_navigate_run:
  "rf_calls sample_navigation_start = []"
  "navigate_workflow (sample_room_services all_delivered False) sample_navigation sample_navigation_start =
     (fst sample_navigate, snd sample_navigate)"
  by (simp_all add: sample_navigate_def sample_navigation_start_def)

lemma sample_navigate_calls:
  "11 < length (rf_calls (snd sample_navigate))"
  "rf_calls (snd sample_navigate) ! 11 = RoomMutation (ReleaseTentativeUpdate (discord_key sample_auth_config ''m'')
     ''roomOrders.navigate:1:i:claim-navigation'') True"
  using sample_navigate_evaluated unfolding case_prod_beta by blast+

theorem navigation_calls_are_its_own_witness:
  "list_all (own_navigation_call (sample_room_services all_delivered False) sample_navigation) (rf_calls (snd sample_navigate)) \<and>
   is_release (rf_calls (snd sample_navigate) ! 11)"
  using navigation_calls_are_its_own [OF sample_navigate_run] by (simp add: sample_navigate_calls(2))



end
