(* ===== verification/RoomOrderPin.thy ===== *)
theory RoomOrderPin
  imports RoomOrderSend
begin

text \<open>
  The workflow that pins a tentative room order (\<open>roomOrders/pinTentativeOperations.ts\<close>,
  \<open>pinTentativeDefinition.ts\<close> with its schemas in \<open>pinTentativeSchema.ts\<close>): it claims the stored message,
  pins it, then records the pin and removes the controls of the message; a pin the bot rejects is cleaned
  up and its claim given back.
\<close>

subsection \<open>Values of the actions\<close>

datatype tentative_claim_status = TentativeClaimed | TentativeAlreadyPinned | TentativeDenied

record tentative_claim =
  tc_context :: send_context
  tc_claim_id :: string
  tc_status :: tentative_claim_status
  tc_detail :: "string option"

record tentative_view =
  tv_context :: send_context
  tv_claim_id :: string
  tv_message :: outbound_message

record tentative_attempt =
  ta_view :: tentative_view
  ta_pinned :: bool
  ta_pinned_at :: "int option"
  ta_receipt :: "room_receipt option"

datatype tentative_source = SourcePinned | SourceAlreadyPinned

record tentative_commit =
  tm_view :: tentative_view
  tm_source :: tentative_source
  tm_pinned_at :: int
  tm_receipt :: "room_receipt option"

record tentative_finalization =
  tf_view :: tentative_view
  tf_committed :: bool
  tf_reference :: "string option"

datatype tentative_status = TentativePinned | TentativePartial | TentativeFailed | TentativeDeniedStatus

record tentative_response =
  tr_context :: send_context
  tr_commit :: "tentative_commit option"
  tr_message_id :: string
  tr_conversation_id :: string
  tr_status :: tentative_status
  tr_detail :: string
  tr_message :: outbound_message

abbreviation pin_revoked :: flow_error where
  "pin_revoked \<equiv> interactive_authorization_revoked room_orders_pin_tentative"

definition make_tentative_pin_claim_id :: "execution \<Rightarrow> string" where
  "make_tentative_pin_claim_id x = workflow_key room_orders_pin_tentative x ''claim-tentative-pin''"

definition make_tentative_pin_delivery_key :: "execution \<Rightarrow> string \<Rightarrow> string" where
  "make_tentative_pin_delivery_key x kind = workflow_key room_orders_pin_tentative x kind"

subsection \<open>Operations\<close>

definition tentative_require_canonical :: "'w room_services \<Rightarrow> send_context \<Rightarrow> (room_order_row, 'w) room_step" where
  "tentative_require_canonical S ctx = txn_bind (get_room_order S (nv_key ctx)) (\<lambda>r. case r of
     None \<Rightarrow> txn_fail pin_revoked
   | Some row \<Rightarrow> if canonical_view_matches ctx row then txn_return row else txn_fail pin_revoked)"

definition tentative_busy_detail :: "room_order_row \<Rightarrow> string \<Rightarrow> string" where
  "tentative_busy_detail r claim =
     (if ro_send_claim_id r \<noteq> None then ''room order is already being sent.''
      else if ro_update_claim_id r \<noteq> None then ''tentative room order is already being updated.''
      else if ro_pin_claim_id r \<noteq> None \<and> ro_pin_claim_id r \<noteq> Some claim
      then ''tentative room order is already being pinned.''
      else ''room order is temporarily unavailable.'')"

definition tentative_claim_of ::
    "send_context \<Rightarrow> room_order_row \<Rightarrow> string \<Rightarrow> tentative_claim_status \<Rightarrow> string option \<Rightarrow> tentative_claim" where
  "tentative_claim_of ctx r claim status detail = \<lparr>tc_context = context_from_row ctx r, tc_claim_id = claim,
     tc_status = status, tc_detail = detail\<rparr>"

definition tentative_op_claim :: "'w room_services \<Rightarrow> send_context \<Rightarrow> string \<Rightarrow> (tentative_claim, 'w) room_step" where
  "tentative_op_claim S ctx claim = txn_bind (tentative_require_canonical S ctx) (\<lambda>initial.
     if \<not> ro_tentative initial
     then txn_return (tentative_claim_of ctx initial claim TentativeDenied
       (Some ''cannot pin a non-tentative room order.''))
     else if ro_pinned_at initial \<noteq> None
     then txn_return (tentative_claim_of ctx initial claim TentativeAlreadyPinned None)
     else if ro_pin_claim_id initial = Some claim
     then txn_return (tentative_claim_of ctx initial claim TentativeClaimed None)
     else txn_bind (reconcile_mutation (mutate_room S (ClaimTentativePin (nv_key ctx) claim))
         (tentative_require_canonical S ctx) (\<lambda>current. ro_pin_claim_id current = Some claim)) (\<lambda>_.
       txn_bind (tentative_require_canonical S ctx) (\<lambda>current.
       if ro_pinned_at current \<noteq> None
       then txn_return (tentative_claim_of ctx current claim TentativeAlreadyPinned None)
       else if ro_pin_claim_id current = Some claim
       then txn_return (tentative_claim_of ctx current claim TentativeClaimed None)
       else txn_return (tentative_claim_of ctx current claim TentativeDenied
         (Some (tentative_busy_detail current claim))))))"

definition tentative_op_load_view :: "'w room_services \<Rightarrow> tentative_claim \<Rightarrow> (tentative_view, 'w) room_step" where
  "tentative_op_load_view S claimed = txn_bind (tentative_require_canonical S (tc_context claimed)) (\<lambda>current.
     txn_bind (fail_unless (\<not> (tc_status claimed = TentativeClaimed \<and> ro_pin_claim_id current \<noteq> Some (tc_claim_id claimed) \<or>
       tc_status claimed = TentativeAlreadyPinned \<and> ro_pinned_at current = None)) pin_revoked) (\<lambda>_.
     txn_bind (get_entries S (nv_key (tc_context claimed)) (ro_rank current)) (\<lambda>es.
     txn_bind (load_event_start S ''roomOrders.pinTentative.loadTentativePinView''
       (nv_workspace_id (tc_context claimed))) (\<lambda>start.
     txn_return \<lparr>tv_context = context_from_row (tc_context claimed) current, tv_claim_id = tc_claim_id claimed,
       tv_message = published_room_order_message (row_content S start current es)\<rparr>))))"

definition tentative_op_pin :: "'w room_services \<Rightarrow> tentative_view \<Rightarrow> string \<Rightarrow> (tentative_attempt, 'w) room_step" where
  "tentative_op_pin S view key = txn_bind (tentative_require_canonical S (tv_context view)) (\<lambda>current.
     txn_bind (fail_unless (ro_pin_claim_id current = Some (tv_claim_id view) \<and> ro_pinned_at current = None)
       pin_revoked) (\<lambda>_.
     txn_bind (deliver_room S key (PinRoomMessage (context_message (tv_context view)))) (\<lambda>r.
     txn_bind (pin_answer room_orders_pin_tentative r) (\<lambda>answer.
     case answer of
       PinConfirmed receipt \<Rightarrow> txn_bind (ask_world (rs_clock S)) (\<lambda>pinned_at.
         txn_return \<lparr>ta_view = view, ta_pinned = True, ta_pinned_at = Some pinned_at, ta_receipt = Some receipt\<rparr>)
     | PinRejected \<Rightarrow> txn_return \<lparr>ta_view = view, ta_pinned = False, ta_pinned_at = None, ta_receipt = None\<rparr>))))"

definition tentative_tracking :: "tentative_commit \<Rightarrow> room_order_row \<Rightarrow> record_status \<times> string option" where
  "tentative_tracking commit r =
     (if ro_pinned_at r = Some (tm_pinned_at commit) \<and> ro_pin_claim_id r = None
      then (if tm_source commit = SourceAlreadyPinned then NotRequired else Tracked, None)
      else if ro_pin_claim_id r = Some (tv_claim_id (tm_view commit))
      then (RecoveryRequired, Some ''pinned tentative room order, but tracking could not be confirmed.'')
      else (Inconsistent, Some ''pinned tentative room order, but failed to track it.''))"

definition tentative_op_record ::
    "'w room_services \<Rightarrow> tentative_commit \<Rightarrow> (record_status \<times> string option, 'w) room_step" where
  "tentative_op_record S commit =
     (let ctx = tv_context (tm_view commit); claim = tv_claim_id (tm_view commit) in
      txn_bind (tentative_require_canonical S ctx) (\<lambda>prior.
      let existing = tentative_tracking commit prior in
      if fst existing \<in> {Tracked, NotRequired} \<or> ro_pin_claim_id prior \<noteq> Some claim then txn_return existing
      else txn_bind (txn_exit (mutate_room S (CompleteTentativePin (nv_key ctx) claim (tm_pinned_at commit)))) (\<lambda>_.
        txn_bind (reload_unless_revoked (tentative_require_canonical S ctx)) (\<lambda>current.
        case current of
          None \<Rightarrow> txn_return (RecoveryRequired,
            Some ''pinned tentative room order, but tracking could not be confirmed.'')
        | Some r \<Rightarrow> txn_return (tentative_tracking commit r)))))"

definition tentative_op_finalize ::
    "'w room_services \<Rightarrow> tentative_finalization \<Rightarrow> string \<Rightarrow> (room_receipt, 'w) room_step" where
  "tentative_op_finalize S f key =
     (let ctx = tv_context (tf_view f); claim = tv_claim_id (tf_view f) in
      txn_bind (tentative_require_canonical S ctx) (\<lambda>current.
      txn_bind (fail_unless (if tf_committed f then ro_pinned_at current \<noteq> None \<or> ro_pin_claim_id current = Some claim
        else ro_pinned_at current = None \<and> ro_pin_claim_id current = Some claim) pin_revoked) (\<lambda>_.
      deliver_or_fail S key (EditRoomMessage (context_message ctx) (tv_message (tf_view f)))
        (delivery_failure room_orders_pin_tentative ''roomOrders.pinTentative.finalizeTentativeRoomOrder''
          ''room-order message'' ''The tentative room-order cleanup was rejected'' (tf_committed f)
          (if tf_committed f then tf_reference f else None)))))"

definition tentative_op_respond ::
    "'w room_services \<Rightarrow> tentative_response \<Rightarrow> string \<Rightarrow> string \<Rightarrow> (room_receipt, 'w) room_step" where
  "tentative_op_respond S response reference key =
     deliver_or_fail S key (RespondTo reference (tr_message response))
       (delivery_failure room_orders_pin_tentative ''roomOrders.pinTentative.respond'' ''response''
         ''The tentative room-order response was rejected'' (tr_commit response \<noteq> None)
         (map_option (\<lambda>c. mk_message_id (nv_key (tv_context (tm_view c)))) (tr_commit response)))"

definition tentative_op_release :: "'w room_services \<Rightarrow> tentative_claim \<Rightarrow> (unit, 'w) room_step" where
  "tentative_op_release S claim = txn_bind (send_load_current S (tc_context claim)) (\<lambda>prior.
     if ro_pinned_at prior \<noteq> None then txn_fail Undeclared
     else if ro_pin_claim_id prior \<noteq> Some (tc_claim_id claim) then txn_return ()
     else txn_bind (mutate_room S (ReleaseTentativePin (nv_key (tc_context claim)) (tc_claim_id claim))) (\<lambda>_.
       txn_bind (send_load_current S (tc_context claim)) (\<lambda>current.
       fail_unless (ro_pinned_at current = None \<and> ro_pin_claim_id current \<noteq> Some (tc_claim_id claim)) Undeclared)))"

subsection \<open>Actions\<close>

definition authorize_pin :: "'w room_services \<Rightarrow> execution \<Rightarrow> (send_context, 'w) room_step" where
  "authorize_pin S x = authorize_room S room_orders_pin_tentative
     (\<lambda>A. authorize_room_orders_pin_tentative (rs_config S) A (ex_principal x) (ex_input x))"

definition pin_reauthorize :: "'w room_services \<Rightarrow> execution \<Rightarrow> send_context \<Rightarrow> (send_context, 'w) room_step" where
  "pin_reauthorize S x expected = txn_bind (authorize_pin S x) (\<lambda>current.
     if navigate_context.truncate current = navigate_context.truncate expected then txn_return current
     else txn_fail pin_revoked)"

definition claim_tentative_pin_action :: "'w room_services \<Rightarrow> execution \<Rightarrow> (tentative_claim, 'w) room_step" where
  "claim_tentative_pin_action S x = txn_bind (authorize_pin S x) (\<lambda>ctx.
     preserve_declared_failure (tentative_op_claim S ctx (make_tentative_pin_claim_id x)))"

definition load_tentative_pin_view_action ::
    "'w room_services \<Rightarrow> execution \<Rightarrow> tentative_claim \<Rightarrow> (tentative_view, 'w) room_step" where
  "load_tentative_pin_view_action S x claim = txn_bind (pin_reauthorize S x (tc_context claim)) (\<lambda>_.
     preserve_declared_failure (tentative_op_load_view S claim))"

definition pin_tentative_room_order_action ::
    "'w room_services \<Rightarrow> execution \<Rightarrow> tentative_view \<Rightarrow> (tentative_attempt, 'w) room_step" where
  "pin_tentative_room_order_action S x view = txn_bind (pin_reauthorize S x (tv_context view)) (\<lambda>_.
     preserve_declared_failure (tentative_op_pin S view (make_tentative_pin_delivery_key x ''pin-tentative-room-order'')))"

definition record_tentative_pin_action ::
    "'w room_services \<Rightarrow> execution \<Rightarrow> tentative_commit \<Rightarrow> (record_status \<times> string option, 'w) room_step" where
  "record_tentative_pin_action S x commit = txn_bind (pin_reauthorize S x (tv_context (tm_view commit))) (\<lambda>_.
     preserve_declared_failure (tentative_op_record S commit))"

definition finalize_tentative_room_order_action ::
    "'w room_services \<Rightarrow> execution \<Rightarrow> tentative_finalization \<Rightarrow> (room_receipt, 'w) room_step" where
  "finalize_tentative_room_order_action S x f = txn_bind (pin_reauthorize S x (tv_context (tf_view f))) (\<lambda>_.
     preserve_declared_failure (tentative_op_finalize S f
       (make_tentative_pin_delivery_key x ''finalize-tentative-room-order'')))"

definition tentative_respond_action ::
    "'w room_services \<Rightarrow> execution \<Rightarrow> tentative_response \<Rightarrow> (room_receipt, 'w) room_step" where
  "tentative_respond_action S x response = txn_bind (pin_reauthorize S x (tr_context response)) (\<lambda>_.
     txn_bind (decode_or_die S room_orders_pin_tentative x) (\<lambda>_.
     preserve_declared_failure (tentative_op_respond S response (input_field x ''responseReference'')
       (make_tentative_pin_delivery_key x ''respond''))))"

definition release_tentative_pin_claim_action :: "'w room_services \<Rightarrow> tentative_claim \<Rightarrow> (unit, 'w) room_step" where
  "release_tentative_pin_claim_action S claim = preserve_declared_failure (tentative_op_release S claim)"

subsection \<open>The workflow\<close>

definition tentative_response_of ::
    "tentative_view \<Rightarrow> tentative_commit option \<Rightarrow> tentative_status \<Rightarrow> string \<Rightarrow> tentative_response" where
  "tentative_response_of view commit status detail = \<lparr>tr_context = tv_context view, tr_commit = commit,
     tr_message_id = mk_message_id (nv_key (tv_context view)), tr_conversation_id = nv_conversation_id (tv_context view),
     tr_status = status, tr_detail = detail, tr_message = text_message detail\<rparr>"

definition tentative_response_from_denied :: "tentative_claim \<Rightarrow> tentative_response" where
  "tentative_response_from_denied claim =
     (let detail = (case tc_detail claim of Some d \<Rightarrow> d | None \<Rightarrow> ''room order is temporarily unavailable.'') in
      \<lparr>tr_context = tc_context claim, tr_commit = None, tr_message_id = mk_message_id (nv_key (tc_context claim)),
       tr_conversation_id = nv_conversation_id (tc_context claim), tr_status = TentativeDeniedStatus,
       tr_detail = detail, tr_message = text_message detail\<rparr>)"

definition commit_from_already_pinned :: "tentative_view \<Rightarrow> (tentative_commit, 'w) room_step" where
  "commit_from_already_pinned view =
     (case sx_pinned_at (tv_context view) of
        None \<Rightarrow> txn_fail Died
      | Some t \<Rightarrow> txn_return \<lparr>tm_view = view, tm_source = SourceAlreadyPinned, tm_pinned_at = t, tm_receipt = None\<rparr>)"

definition commit_from_attempt :: "tentative_attempt \<Rightarrow> (tentative_commit, 'w) room_step" where
  "commit_from_attempt attempt =
     (case (ta_pinned attempt, ta_pinned_at attempt, ta_receipt attempt) of
        (True, Some t, Some receipt) \<Rightarrow> txn_return \<lparr>tm_view = ta_view attempt, tm_source = SourcePinned,
          tm_pinned_at = t, tm_receipt = Some receipt\<rparr>
      | _ \<Rightarrow> txn_fail Died)"

definition response_from_rejected :: "tentative_view \<Rightarrow> flow_error + room_receipt \<Rightarrow> tentative_response" where
  "response_from_rejected view cleaned =
     (if exit_value cleaned \<noteq> None
      then tentative_response_of view None TentativeFailed
        ''tentative room-order pin was rejected; message controls were removed.''
      else tentative_response_of view None TentativePartial
        ''tentative room-order pin could not be confirmed; cleanup failed and its claim was preserved.'')"

definition tentative_response_from_commit ::
    "tentative_commit \<Rightarrow> flow_error + record_status \<times> string option \<Rightarrow> flow_error + room_receipt \<Rightarrow> tentative_response" where
  "tentative_response_from_commit commit tracked_exit cleaned =
     (let confirmed = (case exit_value tracked_exit of None \<Rightarrow> False | Some (status, _) \<Rightarrow> status \<in> {Tracked, NotRequired});
          cleaned_up = (exit_value cleaned \<noteq> None);
          detail =
            (if \<not> confirmed
             then (case Option.bind (exit_value tracked_exit) snd of
                 Some d \<Rightarrow> d | None \<Rightarrow> ''pinned tentative room order, but tracking could not be confirmed.'')
             else if tm_source commit = SourceAlreadyPinned
             then (if cleaned_up then ''tentative room order is already pinned.''
               else ''tentative room order is pinned, but its message still needs cleanup.'')
             else tentative_room_order_pin_acknowledgement cleaned_up)
      in tentative_response_of (tm_view commit) (Some commit)
           (if confirmed \<and> cleaned_up then TentativePinned else TentativePartial) detail)"

definition tentative_result :: "tentative_response \<Rightarrow> room_receipt list \<Rightarrow> tentative_status room_result" where
  "tentative_result response receipts = \<lparr>rm_message_id = tr_message_id response,
     rm_conversation_id = tr_conversation_id response, rm_status = tr_status response,
     rm_detail = Some (tr_detail response), rm_receipts = receipts\<rparr>"

text \<open>A rejected pin: the controls are removed, and only then the claim is given back.\<close>

definition handle_rejected_pin ::
    "'w room_services \<Rightarrow> execution \<Rightarrow> tentative_claim \<Rightarrow> tentative_view \<Rightarrow> (tentative_status room_result, 'w) room_step" where
  "handle_rejected_pin S x claim view =
     txn_bind (txn_exit (run_action S (finalize_tentative_room_order_action S x
       \<lparr>tf_view = view, tf_committed = False, tf_reference = None\<rparr>))) (\<lambda>cleaned.
     let response = response_from_rejected view cleaned in
     txn_bind (txn_exit (run_action S (tentative_respond_action S x response))) (\<lambda>responded.
     txn_bind (if exit_value cleaned \<noteq> None then txn_exit (run_action S (release_tentative_pin_claim_action S claim))
       else txn_return (Inr ())) (\<lambda>released.
     let failed = failed_exit cleaned @ failed_exit responded @ failed_exit released in
     if failed \<noteq> [] then txn_fail (combine_failures failed)
     else txn_return (tentative_result response (List.map_filter exit_value [cleaned, responded])))))"

definition finish_pin ::
    "'w room_services \<Rightarrow> execution \<Rightarrow> tentative_commit \<Rightarrow> (tentative_status room_result, 'w) room_step" where
  "finish_pin S x commit =
     txn_bind (run_both S (run_action S (record_tentative_pin_action S x commit))
       (run_action S (finalize_tentative_room_order_action S x \<lparr>tf_view = tm_view commit, tf_committed = True,
         tf_reference = Some (mk_message_id (nv_key (tv_context (tm_view commit))))\<rparr>))) (\<lambda>(tracked_exit, cleaned).
     let response = tentative_response_from_commit commit tracked_exit cleaned in
     txn_bind (txn_exit (run_action S (tentative_respond_action S x response))) (\<lambda>responded.
     let failed = failed_exit tracked_exit @ failed_exit cleaned @ failed_exit responded in
     if failed \<noteq> [] then txn_fail (combine_failures failed)
     else txn_return (tentative_result response
       ((case tm_receipt commit of None \<Rightarrow> [] | Some r \<Rightarrow> [r]) @ List.map_filter exit_value [cleaned, responded]))))"

definition load_tentative_view ::
    "'w room_services \<Rightarrow> execution \<Rightarrow> tentative_claim \<Rightarrow> (tentative_view, 'w) room_step" where
  "load_tentative_view S x claim =
     (let load = run_action S (load_tentative_pin_view_action S x claim) in
      if tc_status claim = TentativeClaimed
      then txn_catch_cause load
        (\<lambda>e. compensate_and_fail e (run_action S (release_tentative_pin_claim_action S claim)))
      else load)"

definition pin_tentative_workflow ::
    "'w room_services \<Rightarrow> execution \<Rightarrow> (tentative_status room_result, 'w) room_step" where
  "pin_tentative_workflow S x = txn_bind (decode_or_die S room_orders_pin_tentative x) (\<lambda>_.
     txn_bind (run_action S (claim_tentative_pin_action S x)) (\<lambda>claim.
     if tc_status claim = TentativeDenied
     then (let response = tentative_response_from_denied claim in
       txn_bind (run_action S (tentative_respond_action S x response)) (\<lambda>receipt.
       txn_return (tentative_result response [receipt])))
     else txn_bind (load_tentative_view S x claim) (\<lambda>view.
       if tc_status claim = TentativeAlreadyPinned
       then txn_bind (commit_from_already_pinned view) (finish_pin S x)
       else txn_bind (run_action S (pin_tentative_room_order_action S x view)) (\<lambda>attempt.
         if \<not> ta_pinned attempt then handle_rejected_pin S x claim view
         else txn_bind (commit_from_attempt attempt) (finish_pin S x)))))"

end
