(* ===== verification/RoomOrderPinGuarantees.thy ===== *)
theory RoomOrderPinGuarantees
  imports RoomOrderPin RoomOrderSendOutcome
begin

text \<open>
  What holds of the workflow that pins a tentative room order, whatever its services answer and other
  actors do: when it gives its claim back, and what a result that says it is pinned rests on.
\<close>

subsection \<open>The values of its actions\<close>

definition own_tentative_claim :: "'w room_services \<Rightarrow> execution \<Rightarrow> tentative_claim \<Rightarrow> bool" where
  "own_tentative_claim S x c \<longleftrightarrow> own_context S x (tc_context c) \<and> tc_claim_id c = make_tentative_pin_claim_id x"

definition own_tentative_view :: "'w room_services \<Rightarrow> execution \<Rightarrow> tentative_view \<Rightarrow> bool" where
  "own_tentative_view S x v \<longleftrightarrow> own_context S x (tv_context v) \<and> tv_claim_id v = make_tentative_pin_claim_id x"

definition own_tentative_commit :: "'w room_services \<Rightarrow> execution \<Rightarrow> tentative_commit \<Rightarrow> bool" where
  "own_tentative_commit S x c \<longleftrightarrow> own_tentative_view S x (tm_view c)"

lemma authorize_pin_context:
  assumes "authorize_room_orders_pin_tentative C A p inp = Inr ctx"
  shows "\<exists>m. string_field_from_input inp ''messageId'' = Some m \<and> nv_key ctx = discord_key C m"
  using assms
  by (fastforce simp: authorize_room_orders_pin_tentative_def authorize_room_order_send_shape_def authorize_room_order_def
      special_policies policy_input_def field_or_def user_with_message_Some authorized_simps send_context_of_def split_beta)

lemma authorize_pin_own: "yields (authorize_pin S x) (own_context S x)"
  unfolding authorize_pin_def
  by (rule authorize_room_yields) (auto simp: own_context_def order_key_def input_field_def dest!: authorize_pin_context)

lemma tentative_claim_of_own:
  "own_context S x ctx \<Longrightarrow> own_tentative_claim S x (tentative_claim_of ctx r (make_tentative_pin_claim_id x) st d)"
  by (simp add: own_tentative_claim_def tentative_claim_of_def)

lemma claim_tentative_own: "yields (claim_tentative_pin_action S x) (own_tentative_claim S x)"
  unfolding claim_tentative_pin_action_def tentative_op_claim_def
  by (rule yields_bind [OF authorize_pin_own])
    (intro yields_preserve yields_then yields_if yields_return tentative_claim_of_own)

lemma load_tentative_own:
  assumes c: "own_tentative_claim S x c"
  shows "yields (load_tentative_view S x c) (own_tentative_view S x)"
proof -
  have "yields (load_tentative_pin_view_action S x c) (own_tentative_view S x)"
    unfolding load_tentative_pin_view_action_def tentative_op_load_view_def
    by (intro yields_preserve yields_then yields_return)
      (use c in \<open>simp add: own_tentative_claim_def own_tentative_view_def\<close>)
  then show ?thesis
    unfolding load_tentative_view_def Let_def
    by (intro yields_if yields_catch_cause yields_run_action yields_compensate)
qed

lemma pin_attempt_view: "yields (pin_tentative_room_order_action S x v) (\<lambda>a. ta_view a = v)"
  unfolding pin_tentative_room_order_action_def tentative_op_pin_def
  by (intro yields_preserve yields_then) (auto split: pin_outcome.split intro!: yields_then yields_return)

lemma commit_from_attempt_own: "own_tentative_view S x (ta_view a) \<Longrightarrow> yields (commit_from_attempt a) (own_tentative_commit S x)"
  by (auto simp: commit_from_attempt_def own_tentative_commit_def intro: yields_return yields_fail split: option.split bool.split)

lemma commit_from_already_own: "own_tentative_view S x v \<Longrightarrow> yields (commit_from_already_pinned v) (own_tentative_commit S x)"
  by (auto simp: commit_from_already_pinned_def own_tentative_commit_def intro: yields_return yields_fail split: option.split)

subsection \<open>Which calls it makes\<close>

fun own_pin_mutation :: "message_key \<Rightarrow> string \<Rightarrow> room_mutation \<Rightarrow> bool" where
  "own_pin_mutation k c (ClaimTentativePin k' c') \<longleftrightarrow> k' = k \<and> c' = c"
| "own_pin_mutation k c (CompleteTentativePin k' c' _) \<longleftrightarrow> k' = k \<and> c' = c"
| "own_pin_mutation k c (ReleaseTentativePin k' c') \<longleftrightarrow> k' = k \<and> c' = c"
| "own_pin_mutation k c _ \<longleftrightarrow> False"

fun own_pin_delivery :: "'w room_services \<Rightarrow> execution \<Rightarrow> string \<Rightarrow> room_delivery \<Rightarrow> bool" where
  "own_pin_delivery S x key (PinRoomMessage m) \<longleftrightarrow>
     key = make_tentative_pin_delivery_key x ''pin-tentative-room-order'' \<and> mr_message_id m = mk_message_id (order_key S x)"
| "own_pin_delivery S x key (EditRoomMessage m _) \<longleftrightarrow>
     key = make_tentative_pin_delivery_key x ''finalize-tentative-room-order'' \<and> mr_message_id m = mk_message_id (order_key S x)"
| "own_pin_delivery S x key (RespondTo reference _) \<longleftrightarrow>
     key = make_tentative_pin_delivery_key x ''respond'' \<and> reference = input_field x ''responseReference''"
| "own_pin_delivery S x key (SendRoomMessage _ _) \<longleftrightarrow> False"

fun own_pin_call :: "'w room_services \<Rightarrow> execution \<Rightarrow> room_call \<Rightarrow> bool" where
  "own_pin_call S x (RoomMutation m _) \<longleftrightarrow> own_pin_mutation (order_key S x) (make_tentative_pin_claim_id x) m"
| "own_pin_call S x (RoomDeliver key d _) \<longleftrightarrow> own_pin_delivery S x key d"
| "own_pin_call S x _ \<longleftrightarrow> True"

context room_invariant
begin

lemma tentative_require_reads: "triple I (tentative_require_canonical S ctx)
    (\<lambda>r s. I s \<and> (\<exists>before. rf_calls s = before @ [RoomRead (Some r)]) \<and> canonical_view_matches ctx r) I"
  unfolding tentative_require_canonical_def
  by (rule triple_bind [OF get_reads]) (auto intro: triple_return triple_fail split: option.split)

lemma keeps_tentative_require: "triple I (tentative_require_canonical S ctx) (\<lambda>_. I) I"
  by (rule triple_post [OF tentative_require_reads]) auto

lemma keeps_pin_reauthorize: "triple I (pin_reauthorize S x ctx) (\<lambda>_. I) I"
  unfolding pin_reauthorize_def authorize_pin_def by (intro room_keeps)

lemma keeps_claim_tentative:
  assumes "\<And>b. harmless (RoomMutation (ClaimTentativePin (order_key S x) (make_tentative_pin_claim_id x)) b)"
  shows "triple I (claim_tentative_pin_action S x) (\<lambda>_. I) I"
  unfolding claim_tentative_pin_action_def authorize_pin_def
proof (rule triple_bind_value [OF keeps_authorize authorize_pin_own [unfolded authorize_pin_def]])
  show "triple I (preserve_declared_failure (tentative_op_claim S ctx (make_tentative_pin_claim_id x))) (\<lambda>_. I) I"
    if "own_context S x ctx" for ctx
    unfolding tentative_op_claim_def using that
    by (intro room_keeps keeps_tentative_require keeps_mutate) (simp add: own_context_def assms)
qed

lemma keeps_release_tentative:
  assumes "\<And>b. harmless (RoomMutation (ReleaseTentativePin (nv_key (tc_context c)) (tc_claim_id c)) b)"
  shows "triple I (release_tentative_pin_claim_action S c) (\<lambda>_. I) I"
  unfolding release_tentative_pin_claim_action_def tentative_op_release_def
  by (intro room_keeps keeps_load_current keeps_mutate assms)

lemma keeps_load_tentative:
  assumes "triple I (release_tentative_pin_claim_action S c) (\<lambda>_. I) I"
  shows "triple I (load_tentative_view S x c) (\<lambda>_. I) I"
  unfolding load_tentative_view_def Let_def load_tentative_pin_view_action_def tentative_op_load_view_def
  by (intro room_keeps keeps_pin_reauthorize keeps_tentative_require assms)

lemma keeps_pin_attempt:
  assumes "\<And>a. harmless (RoomDeliver (make_tentative_pin_delivery_key x ''pin-tentative-room-order'')
    (PinRoomMessage (context_message (tv_context v))) a)"
  shows "triple I (pin_tentative_room_order_action S x v) (\<lambda>_. I) I"
proof -
  have "triple I (case answer of
       PinConfirmed receipt \<Rightarrow> txn_bind (ask_world (rs_clock S)) (\<lambda>pinned_at.
         txn_return \<lparr>ta_view = v, ta_pinned = True, ta_pinned_at = Some pinned_at, ta_receipt = Some receipt\<rparr>)
     | PinRejected \<Rightarrow> txn_return \<lparr>ta_view = v, ta_pinned = False, ta_pinned_at = None, ta_receipt = None\<rparr>) (\<lambda>_. I) I"
    for answer by (cases answer) (simp_all add: keeps_return keeps_bind [OF keeps_ask keeps_return])
  then show ?thesis
    unfolding pin_tentative_room_order_action_def tentative_op_pin_def
    by (intro room_keeps keeps_pin_reauthorize keeps_tentative_require keeps_deliver keeps_pin_answer assms)
qed

lemma keeps_record_tentative:
  assumes "\<And>b. harmless (RoomMutation (CompleteTentativePin (nv_key (tv_context (tm_view c))) (tv_claim_id (tm_view c))
    (tm_pinned_at c)) b)"
  shows "triple I (record_tentative_pin_action S x c) (\<lambda>_. I) I"
  unfolding record_tentative_pin_action_def tentative_op_record_def Let_def reload_unless_revoked_def
  by (intro room_keeps keeps_pin_reauthorize keeps_tentative_require keeps_mutate assms)

lemma keeps_finalize_tentative:
  assumes "\<And>a. harmless (RoomDeliver (make_tentative_pin_delivery_key x ''finalize-tentative-room-order'')
    (EditRoomMessage (context_message (tv_context (tf_view f))) (tv_message (tf_view f))) a)"
  shows "triple I (finalize_tentative_room_order_action S x f) (\<lambda>_. I) I"
  unfolding finalize_tentative_room_order_action_def tentative_op_finalize_def Let_def
  by (intro room_keeps keeps_pin_reauthorize keeps_tentative_require keeps_deliver_or_fail assms)

lemma keeps_respond_tentative:
  assumes "\<And>a. harmless (RoomDeliver (make_tentative_pin_delivery_key x ''respond'')
    (RespondTo (input_field x ''responseReference'') (tr_message r)) a)"
  shows "triple I (tentative_respond_action S x r) (\<lambda>_. I) I"
  unfolding tentative_respond_action_def tentative_op_respond_def
  by (intro room_keeps keeps_pin_reauthorize keeps_deliver_or_fail assms)

lemma keeps_finish_pin:
  assumes "triple I (record_tentative_pin_action S x c) (\<lambda>_. I) I"
    and "\<And>f. tf_view f = tm_view c \<Longrightarrow> triple I (finalize_tentative_room_order_action S x f) (\<lambda>_. I) I"
    and "\<And>r. triple I (tentative_respond_action S x r) (\<lambda>_. I) I"
  shows "triple I (finish_pin S x c) (\<lambda>_. I) I"
  unfolding finish_pin_def Let_def split_beta
  by (intro room_keeps assms) simp

lemma keeps_commits: "triple I (commit_from_attempt a) (\<lambda>_. I) I" "triple I (commit_from_already_pinned v) (\<lambda>_. I) I"
  by (auto simp: commit_from_attempt_def commit_from_already_pinned_def intro: triple_return triple_fail split: option.split bool.split)

text \<open>The workflow, with what its pin attempt and its commit end with.\<close>

lemma keeps_pin_workflow:
  assumes claim: "triple I (claim_tentative_pin_action S x) (\<lambda>_. I) I" and E: "\<And>s. I s \<Longrightarrow> E s" and Q: "\<And>a s. Q a s \<Longrightarrow> E s"
    and release: "\<And>c. own_tentative_claim S x c \<Longrightarrow> triple I (release_tentative_pin_claim_action S c) (\<lambda>_. I) I"
    and denied: "\<And>c. triple I (txn_bind (run_action S (tentative_respond_action S x (tentative_response_from_denied c)))
      (\<lambda>receipt. txn_return (tentative_result (tentative_response_from_denied c) [receipt]))) R E"
    and pin: "\<And>v. own_tentative_view S x v \<Longrightarrow> triple I (run_action S (pin_tentative_room_order_action S x v)) Q E"
    and rejected: "\<And>c v a. own_tentative_claim S x c \<Longrightarrow> own_tentative_view S x v \<Longrightarrow> \<not> ta_pinned a \<Longrightarrow>
      triple (Q a) (handle_rejected_pin S x c v) R E"
    and already: "\<And>c s. tm_source c = SourceAlreadyPinned \<Longrightarrow> I s \<Longrightarrow> F c s"
    and attempted: "\<And>c a s. ta_pinned a \<Longrightarrow> tm_view c = ta_view a \<Longrightarrow> Q a s \<Longrightarrow> F c s"
    and finish: "\<And>c. own_tentative_commit S x c \<Longrightarrow> triple (F c) (finish_pin S x c) R E"
  shows "triple I (pin_tentative_workflow S x) R E"
  unfolding pin_tentative_workflow_def Let_def
proof (rule triple_bind [where Q = "\<lambda>_. I"])
  show "triple I (decode_or_die S room_orders_pin_tentative x) (\<lambda>_. I) E" by (rule triple_post [OF keeps_decode]) (auto intro: E)
  have claim': "triple I (run_action S (claim_tentative_pin_action S x)) (\<lambda>_. I) E"
    by (rule triple_post [OF keeps_run_action [OF claim]]) (auto intro: E)
  show "triple I (txn_bind (run_action S (claim_tentative_pin_action S x)) (\<lambda>claim.
      if tc_status claim = TentativeDenied
      then txn_bind (run_action S (tentative_respond_action S x (tentative_response_from_denied claim)))
        (\<lambda>receipt. txn_return (tentative_result (tentative_response_from_denied claim) [receipt]))
      else txn_bind (load_tentative_view S x claim) (\<lambda>view.
        if tc_status claim = TentativeAlreadyPinned
        then txn_bind (commit_from_already_pinned view) (finish_pin S x)
        else txn_bind (run_action S (pin_tentative_room_order_action S x view)) (\<lambda>attempt.
          if \<not> ta_pinned attempt then handle_rejected_pin S x claim view
          else txn_bind (commit_from_attempt attempt) (finish_pin S x))))) R E"
  proof (rule triple_bind_value [OF claim' yields_run_action [OF claim_tentative_own]], rule triple_if, rule denied)
    fix c :: tentative_claim assume c: "own_tentative_claim S x c"
    have load: "triple I (load_tentative_view S x c) (\<lambda>_. I) E"
      by (rule triple_post [OF keeps_load_tentative [OF release [OF c]]]) (auto intro: E)
    show "triple I (txn_bind (load_tentative_view S x c) (\<lambda>view.
        if tc_status c = TentativeAlreadyPinned then txn_bind (commit_from_already_pinned view) (finish_pin S x)
        else txn_bind (run_action S (pin_tentative_room_order_action S x view)) (\<lambda>attempt.
          if \<not> ta_pinned attempt then handle_rejected_pin S x c view
          else txn_bind (commit_from_attempt attempt) (finish_pin S x)))) R E"
    proof (rule triple_bind_value [OF load load_tentative_own [OF c]], rule triple_if)
      fix v :: tentative_view assume v: "own_tentative_view S x v"
      have "triple I (commit_from_already_pinned v) F E"
        by (auto simp: commit_from_already_pinned_def intro!: triple_return triple_fail already E split: option.split)
      then show "triple I (txn_bind (commit_from_already_pinned v) (finish_pin S x)) R E"
        by (rule triple_bind_value [OF _ commit_from_already_own [OF v] finish])
      show "triple I (txn_bind (run_action S (pin_tentative_room_order_action S x v)) (\<lambda>attempt.
          if \<not> ta_pinned attempt then handle_rejected_pin S x c v
          else txn_bind (commit_from_attempt attempt) (finish_pin S x))) R E"
      proof (rule triple_bind_value [OF pin [OF v] yields_run_action [OF pin_attempt_view]], rule triple_if, rule rejected [OF c v], assumption)
        fix a :: tentative_attempt assume a: "ta_view a = v"
        have "triple (Q a) (commit_from_attempt a) F E"
          by (auto simp: commit_from_attempt_def intro!: triple_return triple_fail attempted Q split: option.split bool.split)
        then show "triple (Q a) (txn_bind (commit_from_attempt a) (finish_pin S x)) R E"
          by (rule triple_bind_value [OF _ commit_from_attempt_own finish]) (simp only: a, rule v)
      qed
    qed
  qed
qed

end

interpretation pin_calls: room_invariant "\<lambda>s :: 'w room_flow. list_all (own_pin_call S x) (rf_calls s)"
    "own_pin_call S x" for S :: "'w room_services" and x
  by unfold_locales simp_all

text \<open>The pinning workflow acts on its own message only: every mutation it sends claims, completes or
  releases the pin of the message its input names under the claim of its invocation; it pins and edits
  that message and responds to the reference of its input, each with the key of its invocation.\<close>

theorem pin_calls_are_its_own:
  fixes S :: "'w room_services"
  assumes "rf_calls s = []" and "pin_tentative_workflow S x s = (r, t)"
  shows "list_all (own_pin_call S x) (rf_calls t)"
proof -
  let ?I = "\<lambda>s :: 'w room_flow. list_all (own_pin_call S x) (rf_calls s)"
  note own = own_tentative_claim_def own_tentative_view_def own_tentative_commit_def own_context_def
    context_message_def message_ref_from_def
  have respond: "triple ?I (tentative_respond_action S x r) (\<lambda>_. ?I) ?I" for r
    by (rule pin_calls.keeps_respond_tentative) simp
  have release: "triple ?I (release_tentative_pin_claim_action S c) (\<lambda>_. ?I) ?I" if "own_tentative_claim S x c" for c
    by (rule pin_calls.keeps_release_tentative) (use that in \<open>simp add: own\<close>)
  have finalize: "triple ?I (finalize_tentative_room_order_action S x f) (\<lambda>_. ?I) ?I" if "own_tentative_view S x (tf_view f)" for f
    by (rule pin_calls.keeps_finalize_tentative) (use that in \<open>simp add: own\<close>)
  have "triple ?I (pin_tentative_workflow S x) (\<lambda>_. ?I) ?I"
  proof (rule pin_calls.keeps_pin_workflow [where Q = "\<lambda>_. ?I" and F = "\<lambda>_. ?I"])
    show "triple ?I (claim_tentative_pin_action S x) (\<lambda>_. ?I) ?I" by (rule pin_calls.keeps_claim_tentative) simp
    show "triple ?I (run_action S (pin_tentative_room_order_action S x v)) (\<lambda>_. ?I) ?I" if "own_tentative_view S x v" for v
      by (rule pin_calls.keeps_run_action, rule pin_calls.keeps_pin_attempt) (use that in \<open>simp add: own\<close>)
    show "triple ?I (handle_rejected_pin S x c v) (\<lambda>_. ?I) ?I" if "own_tentative_claim S x c" "own_tentative_view S x v" for c v
      unfolding handle_rejected_pin_def Let_def
      by (intro pin_calls.room_keeps finalize respond release) (use that in simp_all)
    show "triple ?I (finish_pin S x c) (\<lambda>_. ?I) ?I" if "own_tentative_commit S x c" for c
      by (intro pin_calls.keeps_finish_pin pin_calls.keeps_record_tentative finalize respond) (use that in \<open>simp_all add: own\<close>)
  qed (simp_all add: release pin_calls.room_keeps respond)
  from triple_always [OF this, of s] show ?thesis using assms by simp
qed

subsection \<open>Giving the claim back\<close>

text \<open>
  How far a pin has come: not tried, in doubt or done, refused by the bot, or refused and the controls of
  the message removed since.
\<close>

datatype pin_progress = NotTried | PinnedOrInDoubt | PinRefused | PinCleaned

fun pin_step :: "pin_progress \<Rightarrow> room_call \<Rightarrow> pin_progress" where
  "pin_step p (RoomDeliver _ (PinRoomMessage _) a) = (if certainly_refused a then PinRefused else PinnedOrInDoubt)"
| "pin_step p (RoomDeliver _ (EditRoomMessage _ _) (Answered _)) = (if p = PinRefused then PinCleaned else p)"
| "pin_step p _ = p"

definition pin_progress :: "room_call list \<Rightarrow> pin_progress" where
  "pin_progress calls = foldl pin_step NotTried calls"

fun pin_release_fits :: "room_call list \<Rightarrow> room_call \<Rightarrow> bool" where
  "pin_release_fits pre (RoomMutation (ReleaseTentativePin _ _) _) \<longleftrightarrow> pin_progress pre \<in> {NotTried, PinCleaned}"
| "pin_release_fits pre _ \<longleftrightarrow> True"

fun releases_pin :: "room_call \<Rightarrow> bool" where
  "releases_pin (RoomMutation (ReleaseTentativePin _ _) _) \<longleftrightarrow> True"
| "releases_pin _ \<longleftrightarrow> False"

fun changes_progress :: "room_call \<Rightarrow> bool" where
  "changes_progress (RoomDeliver _ (PinRoomMessage _) _) \<longleftrightarrow> True"
| "changes_progress (RoomDeliver _ (EditRoomMessage _ _) _) \<longleftrightarrow> True"
| "changes_progress _ \<longleftrightarrow> False"

lemma pin_progress_simps [simp]: "pin_progress [] = NotTried" "pin_progress (calls @ [c]) = pin_step (pin_progress calls) c"
  by (simp_all add: pin_progress_def)

lemma pin_release_fits_other: "\<not> releases_pin c \<Longrightarrow> pin_release_fits pre c"
  by (cases "(pre, c)" rule: pin_release_fits.cases) auto

lemma pin_release_fits_now: "pin_progress pre \<in> {NotTried, PinCleaned} \<Longrightarrow> pin_release_fits pre c"
  by (cases "(pre, c)" rule: pin_release_fits.cases) auto

lemma pin_step_unchanged: "\<not> changes_progress c \<Longrightarrow> pin_step p c = p"
  by (cases "(p, c)" rule: pin_step.cases) auto

abbreviation pin_releases_fit :: "'w room_flow \<Rightarrow> bool" where
  "pin_releases_fit s \<equiv> each_call pin_release_fits (rf_calls s)"

abbreviation pin_at :: "pin_progress \<Rightarrow> 'w room_flow \<Rightarrow> bool" where
  "pin_at p s \<equiv> pin_releases_fit s \<and> pin_progress (rf_calls s) = p"

interpretation pin_releases_fit: room_invariant pin_releases_fit "\<lambda>c. \<not> releases_pin c"
  by unfold_locales (auto intro: pin_release_fits_other)

interpretation pin_at: room_invariant "pin_at p"
    "\<lambda>c. \<not> changes_progress c \<and> (releases_pin c \<longrightarrow> p \<in> {NotTried, PinCleaned})" for p
  by unfold_locales (use pin_release_fits_other pin_release_fits_now in \<open>auto simp: pin_step_unchanged\<close>)

lemma releases_unless:
  assumes "triple (pin_at p) m (\<lambda>_. pin_at p) (pin_at p)"
  shows "triple (pin_at p) m (\<lambda>_. pin_at p) pin_releases_fit"
  by (rule triple_post [OF assms]) auto

lemma pin_attempt_progress:
  fixes S :: "'w room_services"
  shows "triple pin_releases_fit (pin_tentative_room_order_action S x v)
    (\<lambda>a s. if ta_pinned a then pin_releases_fit s else pin_at PinRefused s) pin_releases_fit"
  unfolding pin_tentative_room_order_action_def tentative_op_pin_def
proof (rule triple_bind [OF pin_releases_fit.keeps_pin_reauthorize], rule triple_preserve,
    rule triple_bind [OF pin_releases_fit.keeps_tentative_require], rule triple_bind [OF pin_releases_fit.keeps_unless])
  let ?key = "make_tentative_pin_delivery_key x ''pin-tentative-room-order''"
  let ?Q = "\<lambda>a (s :: 'w room_flow). if ta_pinned a then pin_releases_fit s else pin_at PinRefused s"
  let ?refused = "\<lambda>a (s :: 'w room_flow). pin_releases_fit s \<and> (\<forall>e. a = Inl e \<longrightarrow> certainly_refused (Refused e) \<longrightarrow>
    pin_progress (rf_calls s) = PinRefused)"
  have deliver: "triple pin_releases_fit (deliver_room S ?key (PinRoomMessage (context_message (tv_context v)))) ?refused pin_releases_fit"
    by (rule triple_of_etriple, rule etriple_deliver) auto
  have answer: "triple (?refused a) (pin_answer room_orders_pin_tentative a)
      (\<lambda>out s. pin_releases_fit s \<and> (out = PinRejected \<longrightarrow> pin_at PinRefused s)) pin_releases_fit" for a
    by (cases a) (auto simp: pin_answer_def certainly_refused_def intro!: triple_return triple_fail)
  have clocked: "triple (\<lambda>s. pin_releases_fit s \<and> (out = PinRejected \<longrightarrow> pin_at PinRefused s)) (case out of
       PinConfirmed receipt \<Rightarrow> txn_bind (ask_world (rs_clock S)) (\<lambda>pinned_at.
         txn_return \<lparr>ta_view = v, ta_pinned = True, ta_pinned_at = Some pinned_at, ta_receipt = Some receipt\<rparr>)
     | PinRejected \<Rightarrow> txn_return \<lparr>ta_view = v, ta_pinned = False, ta_pinned_at = None, ta_receipt = None\<rparr>)
     ?Q pin_releases_fit" for out
  proof (cases out)
    case (PinConfirmed receipt)
    show ?thesis
      unfolding PinConfirmed pin_outcome.case
      by (rule triple_pre [OF triple_bind [OF pin_releases_fit.keeps_ask triple_return]]) auto
  qed (auto intro: triple_return)
  show "triple pin_releases_fit (txn_bind (deliver_room S ?key (PinRoomMessage (context_message (tv_context v)))) (\<lambda>r.
     txn_bind (pin_answer room_orders_pin_tentative r) (\<lambda>answer.
     case answer of
       PinConfirmed receipt \<Rightarrow> txn_bind (ask_world (rs_clock S)) (\<lambda>pinned_at.
         txn_return \<lparr>ta_view = v, ta_pinned = True, ta_pinned_at = Some pinned_at, ta_receipt = Some receipt\<rparr>)
     | PinRejected \<Rightarrow> txn_return \<lparr>ta_view = v, ta_pinned = False, ta_pinned_at = None, ta_receipt = None\<rparr>)))
     ?Q pin_releases_fit"
    by (rule triple_bind [OF deliver], rule triple_bind [OF answer clocked])
qed

abbreviation pin_refusing :: "'w room_flow \<Rightarrow> bool" where
  "pin_refusing s \<equiv> pin_releases_fit s \<and> pin_progress (rf_calls s) \<in> {PinRefused, PinCleaned}"

interpretation pin_refusing: room_invariant pin_refusing "\<lambda>c. \<not> changes_progress c \<and> \<not> releases_pin c"
  by unfold_locales (use pin_release_fits_other in \<open>auto simp: pin_step_unchanged\<close>)

lemma finalize_cleans:
  fixes S :: "'w room_services"
  shows "triple pin_refusing (finalize_tentative_room_order_action S x f) (\<lambda>_. pin_at PinCleaned) pin_refusing"
  unfolding finalize_tentative_room_order_action_def tentative_op_finalize_def Let_def
  by (rule triple_bind [OF pin_refusing.keeps_pin_reauthorize], rule triple_preserve,
      rule triple_bind [OF pin_refusing.keeps_tentative_require], rule triple_bind [OF pin_refusing.keeps_unless],
      rule triple_of_etriple, rule etriple_deliver_or_fail) auto

lemma rejected_pin_releases:
  fixes S :: "'w room_services"
  assumes c: "own_tentative_claim S x c"
  shows "triple (pin_at PinRefused) (handle_rejected_pin S x c v) (\<lambda>_. pin_releases_fit) pin_releases_fit"
  unfolding handle_rejected_pin_def Let_def
proof (rule triple_bind)
  let ?finalize = "run_action S (finalize_tentative_room_order_action S x \<lparr>tf_view = v, tf_committed = False, tf_reference = None\<rparr>)"
  let ?C = "\<lambda>cleaned (s :: 'w room_flow). pin_releases_fit s \<and> (exit_value cleaned \<noteq> None \<longrightarrow> pin_at PinCleaned s)"
  show "triple (pin_at PinRefused) (txn_exit ?finalize) ?C pin_releases_fit"
    by (rule triple_post [OF triple_pre [OF triple_exit [OF pin_refusing.run_action_keeps [OF finalize_cleans]]]])
      (auto simp: exit_value_def split: sum.splits)
  fix cleaned :: "flow_error + room_receipt"
  let ?response = "response_from_rejected v cleaned"
  have respond: "triple (?C cleaned) (txn_exit (run_action S (tentative_respond_action S x ?response))) (\<lambda>_. ?C cleaned) pin_releases_fit"
  proof (cases "exit_value cleaned")
    case None
    show ?thesis
      by (rule triple_post [OF triple_pre [OF pin_releases_fit.keeps_exit [OF pin_releases_fit.keeps_run_action
            [OF pin_releases_fit.keeps_respond_tentative]]]]) (auto simp: None)
  next
    case (Some r)
    show ?thesis
      by (rule triple_post [OF triple_pre [OF pin_at.keeps_exit [OF pin_at.keeps_run_action
            [OF pin_at.keeps_respond_tentative [where p = PinCleaned]]]]]) (auto simp: Some)
  qed
  have release: "triple (?C cleaned) (if exit_value cleaned \<noteq> None
      then txn_exit (run_action S (release_tentative_pin_claim_action S c)) else txn_return (Inr ())) (\<lambda>_. pin_releases_fit) pin_releases_fit"
  proof (rule triple_if)
    assume some: "exit_value cleaned \<noteq> None"
    show "triple (?C cleaned) (txn_exit (run_action S (release_tentative_pin_claim_action S c))) (\<lambda>_. pin_releases_fit) pin_releases_fit"
      by (rule triple_post [OF triple_pre [OF pin_at.keeps_exit [OF pin_at.keeps_run_action
            [OF pin_at.keeps_release_tentative [where p = PinCleaned]]]]]) (use some in auto)
  qed (auto intro: triple_return)
  show "triple (?C cleaned) (txn_bind (txn_exit (run_action S (tentative_respond_action S x ?response))) (\<lambda>responded.
      txn_bind (if exit_value cleaned \<noteq> None
        then txn_exit (run_action S (release_tentative_pin_claim_action S c)) else txn_return (Inr ())) (\<lambda>released.
      if failed_exit cleaned @ failed_exit responded @ failed_exit released \<noteq> []
      then txn_fail (combine_failures (failed_exit cleaned @ failed_exit responded @ failed_exit released))
      else txn_return (tentative_result ?response (List.map_filter exit_value [cleaned, responded])))))
    (\<lambda>_. pin_releases_fit) pin_releases_fit"
    by (rule triple_bind [OF respond], rule triple_bind [OF release]) (auto intro: triple_return triple_fail)
qed


subsection \<open>What a result that says it is pinned rests on\<close>

definition read_pinned :: "message_key \<Rightarrow> room_call list \<Rightarrow> bool" where
  "read_pinned k calls \<longleftrightarrow>
     (\<exists>r. RoomRead (Some r) \<in> set calls \<and> ro_key r = k \<and> ro_pinned_at r \<noteq> None \<and> ro_pin_claim_id r = None)"

definition answered_edit :: "message_ref \<Rightarrow> room_call list \<Rightarrow> bool" where
  "answered_edit m calls \<longleftrightarrow> (\<exists>key msg receipt. RoomDeliver key (EditRoomMessage m msg) (Answered receipt) \<in> set calls)"

fun pins_message :: "room_call \<Rightarrow> bool" where
  "pins_message (RoomDeliver _ (PinRoomMessage _) _) \<longleftrightarrow> True"
| "pins_message _ \<longleftrightarrow> False"

abbreviation no_pins :: "'w room_flow \<Rightarrow> bool" where
  "no_pins s \<equiv> list_all (\<lambda>c. \<not> pins_message c) (rf_calls s)"

lemma read_pinned_grows: "read_pinned k calls \<Longrightarrow> read_pinned k (calls @ [c])"
  unfolding read_pinned_def by auto

lemma answered_edit_grows: "answered_edit m calls \<Longrightarrow> answered_edit m (calls @ [c])"
  unfolding answered_edit_def by auto

interpretation no_pins: room_invariant no_pins "\<lambda>c. \<not> pins_message c"
  by unfold_locales simp_all

interpretation pinned_or_none: room_invariant
    "\<lambda>s. no_pins s \<or> answered_pin m (rf_calls s)" "\<lambda>c. \<not> pins_message c" for m
  by unfold_locales (auto dest: answered_pin_grows)

interpretation read_pinned: room_invariant "\<lambda>s :: 'w room_flow. q \<longrightarrow> read_pinned k (rf_calls s)" "\<lambda>_. True" for k q
  by unfold_locales (auto dest: read_pinned_grows)

interpretation answered_edit: room_invariant "\<lambda>s :: 'w room_flow. answered_edit m (rf_calls s)" "\<lambda>_. True" for m
  by unfold_locales (auto dest: answered_edit_grows)

lemma record_reads_pinned:
  fixes S :: "'w room_services"
  assumes c: "own_tentative_commit S x c"
  shows "triple (\<lambda>_. True) (record_tentative_pin_action S x c)
    (\<lambda>d s. fst d \<in> {Tracked, NotRequired} \<longrightarrow> read_pinned (order_key S x) (rf_calls s)) (\<lambda>_. True)"
proof -
  let ?ctx = "tv_context (tm_view c)"
  let ?Q = "\<lambda>d (s :: 'w room_flow). fst d \<in> {Tracked, NotRequired} \<longrightarrow> read_pinned (order_key S x) (rf_calls s)"
  let ?read = "\<lambda>r (s :: 'w room_flow). True \<and> (\<exists>before. rf_calls s = before @ [RoomRead (Some r)]) \<and> canonical_view_matches ?ctx r"
  have tracked: "?Q (tentative_tracking c r) s" if "?read r s" for r s
  proof -
    have "ro_key r = order_key S x"
      using c that by (simp add: own_tentative_commit_def own_tentative_view_def own_context_def canonical_view_matches_def)
    then show ?thesis
      using that by (auto simp: tentative_tracking_def read_pinned_def split: if_splits)
  qed
  have reload: "triple (\<lambda>_. True) (reload_unless_revoked (tentative_require_canonical S ?ctx))
      (\<lambda>r s. case r of None \<Rightarrow> True | Some r \<Rightarrow> ?read r s) (\<lambda>_. True)"
    unfolding reload_unless_revoked_def
    by (rule triple_catch [where F = "\<lambda>_. True"], rule triple_bind [OF any_calls.tentative_require_reads])
      (auto intro!: triple_return triple_fail triple_if)
  have after: "triple (\<lambda>s. case r of None \<Rightarrow> True | Some r \<Rightarrow> ?read r s) (case r of
      None \<Rightarrow> txn_return (RecoveryRequired, Some ''pinned tentative room order, but tracking could not be confirmed.'')
    | Some r \<Rightarrow> txn_return (tentative_tracking c r)) ?Q (\<lambda>_. True)" for r
    using tracked by (cases r) (auto intro: triple_return)
  show ?thesis
    unfolding record_tentative_pin_action_def tentative_op_record_def Let_def
    by (rule triple_bind [OF any_calls.keeps_pin_reauthorize], rule triple_preserve,
        rule triple_bind [OF any_calls.tentative_require_reads], rule triple_if, rule triple_return, erule tracked,
        rule triple_pre [OF triple_bind [OF any_calls.keeps_exit [OF any_calls.keeps_mutate]]], simp,
        rule triple_bind [OF reload after], simp)
qed

lemma finalize_answers:
  fixes S :: "'w room_services"
  shows "triple (\<lambda>_. True) (finalize_tentative_room_order_action S x f)
    (\<lambda>_ s. answered_edit (context_message (tv_context (tf_view f))) (rf_calls s)) (\<lambda>_. True)"
  unfolding finalize_tentative_room_order_action_def tentative_op_finalize_def Let_def
  by (rule triple_bind [OF any_calls.keeps_pin_reauthorize], rule triple_preserve,
      rule triple_bind [OF any_calls.keeps_tentative_require], rule triple_bind [OF any_calls.keeps_unless],
      rule triple_of_etriple, rule etriple_deliver_or_fail) (auto simp: answered_edit_def)

lemma finish_pin_confirmed:
  fixes S :: "'w room_services"
  assumes c: "own_tentative_commit S x c"
  shows "triple (\<lambda>_. True) (finish_pin S x c)
    (\<lambda>result s. rm_status result = TentativePinned \<longrightarrow> rm_message_id result = mk_message_id (nv_key (tv_context (tm_view c))) \<and>
       read_pinned (order_key S x) (rf_calls s) \<and> answered_edit (context_message (tv_context (tm_view c))) (rf_calls s))
    (\<lambda>_. True)"
proof -
  let ?tracking = "run_action S (record_tentative_pin_action S x c)"
  let ?finalize = "run_action S (finalize_tentative_room_order_action S x \<lparr>tf_view = tm_view c, tf_committed = True,
    tf_reference = Some (mk_message_id (nv_key (tv_context (tm_view c))))\<rparr>)"
  let ?tracked = "\<lambda>d (s :: 'w room_flow). fst d \<in> {Tracked, NotRequired} \<longrightarrow> read_pinned (order_key S x) (rf_calls s)"
  let ?edited = "\<lambda>s :: 'w room_flow. answered_edit (context_message (tv_context (tm_view c))) (rf_calls s)"
  let ?mid = "\<lambda>(p, q) (s :: 'w room_flow). (\<forall>d. p = Inr d \<longrightarrow> ?tracked d s) \<and> (\<forall>r. q = Inr r \<longrightarrow> ?edited s)"
  have tracking: "triple (\<lambda>_. True) ?tracking ?tracked (\<lambda>_. True)"
    by (rule any_calls.run_action_keeps [OF record_reads_pinned [OF c]]) simp
  have finalize: "triple (\<lambda>_. True) ?finalize (\<lambda>_. ?edited) (\<lambda>_. True)"
    using finalize_answers [of S x "\<lparr>tf_view = tm_view c, tf_committed = True,
      tf_reference = Some (mk_message_id (nv_key (tv_context (tm_view c))))\<rparr>"]
    by (intro any_calls.run_action_keeps) simp_all
  have keep_tracked: "triple (?tracked d) ?finalize (\<lambda>_. ?tracked d) (?tracked d)" for d
    by (rule read_pinned.keeps_run_action [OF read_pinned.keeps_finalize_tentative]) simp
  have keep_edited: "triple ?edited ?tracking (\<lambda>_. ?edited) ?edited"
    by (rule answered_edit.keeps_run_action [OF answered_edit.keeps_record_tentative]) simp
  have both: "triple (\<lambda>_. True) (run_both S ?tracking ?finalize) ?mid (\<lambda>_. True)"
    by (rule triple_both [OF tracking finalize keep_tracked keep_edited])
  have mid_grows: "room_invariant (?mid z) (\<lambda>_. True)" for z
    by (cases z, unfold_locales) (auto dest: read_pinned_grows answered_edit_grows)
  have keep_mid: "triple (?mid z) (txn_exit (run_action S (tentative_respond_action S x r))) (\<lambda>_. ?mid z) (\<lambda>_. True)" for z r
    by (rule triple_post [OF room_invariant.keeps_exit [OF mid_grows room_invariant.keeps_run_action [OF mid_grows
        room_invariant.keeps_respond_tentative [OF mid_grows]]]]) simp_all
  show ?thesis
    unfolding finish_pin_def Let_def
  proof (rule triple_bind [OF both])
    fix z :: "(flow_error + record_status \<times> string option) \<times> (flow_error + room_receipt)"
    obtain p q where z: "z = (p, q)" by (cases z)
    let ?response = "tentative_response_from_commit c p q"
    have status: "tr_status ?response = TentativePinned \<longrightarrow>
        (\<exists>d r. p = Inr d \<and> fst d \<in> {Tracked, NotRequired} \<and> q = Inr r)"
      by (cases p; cases q) (auto simp: tentative_response_from_commit_def tentative_response_of_def exit_value_def Let_def)
    have id: "tr_message_id ?response = mk_message_id (nv_key (tv_context (tm_view c)))"
      by (simp add: tentative_response_from_commit_def tentative_response_of_def Let_def)
    show "triple (?mid z) (case z of (tracked_exit, cleaned) \<Rightarrow>
       txn_bind (txn_exit (run_action S (tentative_respond_action S x (tentative_response_from_commit c tracked_exit cleaned))))
        (\<lambda>responded. if failed_exit tracked_exit @ failed_exit cleaned @ failed_exit responded \<noteq> []
          then txn_fail (combine_failures (failed_exit tracked_exit @ failed_exit cleaned @ failed_exit responded))
          else txn_return (tentative_result (tentative_response_from_commit c tracked_exit cleaned)
            ((case tm_receipt c of None \<Rightarrow> [] | Some r \<Rightarrow> [r]) @ List.map_filter exit_value [cleaned, responded]))))
      (\<lambda>result s. rm_status result = TentativePinned \<longrightarrow> rm_message_id result = mk_message_id (nv_key (tv_context (tm_view c))) \<and>
         read_pinned (order_key S x) (rf_calls s) \<and> ?edited s) (\<lambda>_. True)"
      unfolding z prod.case
      by (rule triple_bind [OF keep_mid [of "(p, q)", unfolded prod.case]], rule triple_if [OF triple_fail triple_return], simp)
        (use status id in \<open>auto simp: tentative_result_def\<close>)
  qed
qed

lemma pin_confirmed:
  fixes S :: "'w room_services"
  shows "triple (\<lambda>_. True) (pin_tentative_room_order_action S x v)
    (\<lambda>a s. ta_pinned a \<longrightarrow> answered_pin (context_message (tv_context (ta_view a))) (rf_calls s)) (\<lambda>_. True)"
  unfolding pin_tentative_room_order_action_def tentative_op_pin_def
proof (rule triple_bind [OF any_calls.keeps_pin_reauthorize], rule triple_preserve,
    rule triple_bind [OF any_calls.keeps_tentative_require], rule triple_bind [OF any_calls.keeps_unless], rule triple_bind)
  let ?m = "context_message (tv_context v)"
  let ?A = "\<lambda>b (s :: 'w room_flow). b \<longrightarrow> answered_pin ?m (rf_calls s)"
  show "triple (\<lambda>_. True) (deliver_room S (make_tentative_pin_delivery_key x ''pin-tentative-room-order'') (PinRoomMessage ?m))
      (\<lambda>a. ?A (\<exists>r. a = Inr r)) (\<lambda>_. True)"
    by (rule triple_of_etriple, rule etriple_deliver) (auto simp: answered_pin_def)
  have answer: "triple (?A (\<exists>r. a = Inr r)) (pin_answer room_orders_pin_tentative a) (\<lambda>out. ?A (out \<noteq> PinRejected)) (\<lambda>_. True)" for a
    by (cases a) (auto simp: pin_answer_def intro!: triple_return triple_fail)
  have clocked: "triple (?A (out \<noteq> PinRejected)) (case out of
       PinConfirmed receipt \<Rightarrow> txn_bind (ask_world (rs_clock S)) (\<lambda>pinned_at.
         txn_return \<lparr>ta_view = v, ta_pinned = True, ta_pinned_at = Some pinned_at, ta_receipt = Some receipt\<rparr>)
     | PinRejected \<Rightarrow> txn_return \<lparr>ta_view = v, ta_pinned = False, ta_pinned_at = None, ta_receipt = None\<rparr>)
     (\<lambda>a s. ta_pinned a \<longrightarrow> answered_pin (context_message (tv_context (ta_view a))) (rf_calls s)) (\<lambda>_. True)" for out
  proof (cases out)
    case (PinConfirmed receipt)
    show ?thesis
      unfolding PinConfirmed pin_outcome.case
      by (rule triple_post [OF triple_bind [OF pin_made.keeps_ask triple_return]]) auto
  qed (auto intro: triple_return)
  show "triple (?A (\<exists>r. a = Inr r)) (txn_bind (pin_answer room_orders_pin_tentative a) (\<lambda>answer. case answer of
       PinConfirmed receipt \<Rightarrow> txn_bind (ask_world (rs_clock S)) (\<lambda>pinned_at.
         txn_return \<lparr>ta_view = v, ta_pinned = True, ta_pinned_at = Some pinned_at, ta_receipt = Some receipt\<rparr>)
     | PinRejected \<Rightarrow> txn_return \<lparr>ta_view = v, ta_pinned = False, ta_pinned_at = None, ta_receipt = None\<rparr>))
     (\<lambda>a s. ta_pinned a \<longrightarrow> answered_pin (context_message (tv_context (ta_view a))) (rf_calls s)) (\<lambda>_. True)" for a
    by (rule triple_bind [OF answer clocked])
qed

lemma rejected_not_pinned: "yields (handle_rejected_pin S x c v) (\<lambda>result. rm_status result \<noteq> TentativePinned)"
  unfolding handle_rejected_pin_def Let_def
  by (intro yields_then yields_if yields_fail yields_return)
    (auto simp: tentative_result_def response_from_rejected_def tentative_response_of_def)


end
