(* ===== verification/RoomOrderPinSamples.thy ===== *)
theory RoomOrderPinSamples
  imports RoomOrderPinGuarantees RoomOrderSendSamples
begin

text \<open>The pinning workflow run on the concrete services of \<open>RoomOrderSendSamples\<close>, for a tentative room order.\<close>

definition pins_rejected :: "string \<Rightarrow> room_delivery \<Rightarrow> delivery_answer" where
  "pins_rejected key d = (case d of PinRoomMessage _ \<Rightarrow> Refused BotRequestRejected | _ \<Rightarrow> all_delivered key d)"

definition sample_pin_start :: "sample_world room_flow" where
  "sample_pin_start = sample_room_start\<lparr>rf_db := \<lparr>room_orders = [sample_room_order\<lparr>ro_tentative := True\<rparr>],
     room_order_entries = []\<rparr>\<rparr>"

definition sample_pin ::
    "(string \<Rightarrow> room_delivery \<Rightarrow> delivery_answer) \<Rightarrow> (flow_error + tentative_status room_result) \<times> sample_world room_flow" where
  "sample_pin answer =
     pin_tentative_workflow (sample_room_services answer False) (sample_room_execution ''i'') sample_pin_start"

lemma sample_pin_evaluated:
  "case sample_pin all_delivered of (r, t) \<Rightarrow>
     (case r of Inl _ \<Rightarrow> False | Inr result \<Rightarrow> rm_status result = TentativePinned \<and> rm_message_id result = ''m'') \<and>
     8 < length (rf_calls t) \<and> pins_message (rf_calls t ! 8)"
  by code_simp

lemma sample_pin_rejected:
  "case snd (sample_pin pins_rejected) of t \<Rightarrow> 15 < length (rf_calls t) \<and>
     rf_calls t ! 15 = RoomMutation (ReleaseTentativePin (discord_key sample_auth_config ''m'')
       ''roomOrders.pinTentative:1:i:claim-tentative-pin'') True"
  by code_simp

lemma sample_pin_run:
  "rf_calls sample_pin_start = []"
  "pin_tentative_workflow (sample_room_services answer False) (sample_room_execution ''i'') sample_pin_start =
     (fst (sample_pin answer), snd (sample_pin answer))"
  by (simp_all add: sample_pin_def sample_pin_start_def)

theorem pin_calls_are_its_own_witness:
  "list_all (own_pin_call (sample_room_services all_delivered False) (sample_room_execution ''i''))
     (rf_calls (snd (sample_pin all_delivered))) \<and> pins_message (rf_calls (snd (sample_pin all_delivered)) ! 8)"
  using pin_calls_are_its_own [OF sample_pin_run] sample_pin_evaluated unfolding case_prod_beta by blast



end
