(* ===== verification/Spec2Isabelle.thy ===== *)
theory Spec2Isabelle
  imports WorkflowRuntime DeliveryGuarantees DeliveryScan ResponseReferences RolloutGuarantees
    RoomOrderGuarantees MessageCheckin RoomOrderCalculation SubmissionSamples UserConfig AuthorizationGuarantees
    RoomOrderNavigateSamples RoomOrderPinSamples
begin

text \<open>
  A model of the stateful core of the repository, and the properties that make it correct. The
  program is a set of services around a Discord bot: mutations of shared tables are made through
  Zero, long work is run by durable workflows, the bot delivers messages exactly once, gates decide
  which implementation of an operation runs. All file names below are relative to \<open>src/packages\<close>.

  The parts, in the order the theories build on each other.

  \<^item> \<open>Prelude\<close>: results as sums, transactions that roll back on an error, SQL tables as lists of rows
    (\<open>lookup_by\<close>, \<open>update_where\<close>, \<open>unique_by\<close>), decimal text, white space, the numbers and dates of
    JavaScript. \<open>Json\<close>: JSON values, their equality in PostgreSQL's \<open>jsonb\<close>, their text.
  \<^item> The durable workflow engine of \<open>effect-zero-workflow\<close>. \<open>WorkflowStore\<close> (\<open>src/models.ts\<close>,
    \<open>src/store.ts\<close>) has the rows of runs and commands and every operation of the store, one
    definition each, named as in the code; a record \<open>workflow_db\<close> is the database. \<open>WorkflowLifecycle\<close>
    defines the histories (\<open>store_steps\<close>) and the invariant of the tables; \<open>WorkflowGuarantees\<close> shows
    well-formedness, exclusive leases, single settlement, idempotent enqueue, final terminal runs.
    \<open>WorkflowContracts\<close> (\<open>src/contract.ts\<close>, \<open>src/contract-server.ts\<close>) has contract registration,
    canonical input and invocation reuse over the interface \<open>invocation_store\<close>. \<open>WorkflowZero\<close>
    (\<open>src/zero/transaction.ts\<close>, \<open>src/zero/schemas.ts\<close>) enqueues inside a Zero mutation on server and
    client and provides that interface. \<open>WorkflowDispatch\<close> (\<open>src/dispatcher.ts\<close>) delivers claimed
    commands over the interface \<open>command_store\<close>, which the store of the model implements.
    \<open>WorkflowRuntime\<close> (\<open>src/runtime.ts\<close>, \<open>src/event.ts\<close>) executes commands against an engine and
    reconciles runs with it.
  \<^item> The delivery ledger of the bot, \<open>sheet-bot/src/services/botCapabilityStore.ts\<close>. \<open>DeliveryLedger\<close> has
    the stored records, the atomic storage operations with faults before and after the effect, and
    the attempts and operators as step functions between storage operations (\<open>attempt_step\<close>,
    \<open>reconciler_step\<close>); \<open>DeliveryGuarantees\<close> lets any number of them interleave, be interrupted and
    fail, over the interfaces \<open>atomic_storage\<close> and \<open>reservation_storage\<close>. \<open>DeliveryScan\<close> has the index
    backfill and the metric scan, \<open>ResponseReferences\<close> the encrypted references to responses.
  \<^item> The rollout gates of \<open>sheet-workflows/src/services/rolloutGate.ts\<close> and \<open>rolloutGateDecision.ts\<close>.
    \<open>RolloutGate\<close> has evaluation, change, audit log and retention cleanup, with a transaction split at
    its write so that others may run between; \<open>RolloutGuarantees\<close> its properties.
  \<^item> The messages of \<open>sheet-zero-api\<close>. \<open>MessageRoomOrder\<close> (\<open>src/api/messageRoomOrder.ts\<close>,
    \<open>src/claimHelpers.ts\<close>, \<open>src/tableAccess.ts\<close>) has the mutators of room orders and the claims workers
    take on them, with the claim state machine they refine; \<open>RoomOrderGuarantees\<close> what that gives.
    \<open>MessageCheckin\<close> (\<open>src/api/messageCheckin.ts\<close>) has the check-ins of members.
    \<open>WorkspaceConfig\<close> (\<open>src/api/workspaceConfig.ts\<close>) has the settings of a workspace, its roles, flags and
    channels and the claims on announcements, \<open>WorkspaceGuarantees\<close> their properties; \<open>UserConfig\<close>
    (\<open>src/api/userConfig.ts\<close>, \<open>src/api/messageSlot.ts\<close>) the preferences of users and the slot messages.
  \<^item> Who may do what. \<open>Principals\<close> (\<open>sheet-auth/src/identity.ts\<close>, \<open>oauth.ts\<close>) has users and services,
    \<open>MessageRefs\<close> the keys of stored messages, \<open>ContractSchemas\<close> and \<open>ContractCatalog\<close>
    (\<open>sheet-workflow-contracts/src\<close>) the input schemas, as data that \<open>decodes\<close> interprets, and the
    contracts with their policies. \<open>Authorization\<close> (\<open>sheet-workflows/src/workflows/readOnly/authorization.ts\<close>)
    decides every contract of the catalog; \<open>AuthorizationGuarantees\<close> shows that it admits exactly
    whom the declared policy entitles.
  \<^item> The calculation of rooms. \<open>CalculationRange\<close> and \<open>RoomSearch\<close>
    (\<open>sheet-workflows/src/workflows/shared/calculationRange.ts\<close>, \<open>calculations/calculation.ts\<close> beside it,
    \<open>sheet-ingress-api/src/schemas/sheet\<close>) calculate a projection for a sheet; \<open>RoomFrontier\<close> shows that
    the rooms found are the Pareto frontier. \<open>RoomOrderCalculation\<close> has the two other calculators
    (\<open>roomOrders/createCalculation.ts\<close>, \<open>sheet-apis/src/services/calc.ts\<close>) and compares the three.
  \<^item> Team submissions: a message that names teams becomes rows of a sheet, which its author confirms or
    rejects. \<open>SubmissionTypes\<close> and \<open>SheetRanges\<close> (\<open>sheet-ingress-api/src/schemas/teamSubmission\<close>) have the
    data and the cell ranges, over \<open>Regex\<close>, the backtracking search of JavaScript's regular expressions.
    \<open>MessageTeamSubmission\<close> (\<open>sheet-zero-api/src/api/messageTeamSubmission.ts\<close>, over the primary-key writes
    of \<open>ZeroTables\<close>) stores submissions with a version. The rest is
    \<open>sheet-workflows/src/workflows/teamSubmissions\<close>: \<open>SubmissionText\<close> parses messages and
    \<open>SubmissionEntries\<close> matches, keys and renders entries (\<open>pure.ts\<close>), \<open>SubmissionProvider\<close> reads and writes
    the sheet (\<open>provider.ts\<close>), \<open>SubmissionFlow\<close>, \<open>SubmissionProcess\<close> and \<open>SubmissionDecide\<close> are the two handlers
    of \<open>operations.ts\<close>. \<open>SubmissionLogic\<close> is a logic of triples for them, with a condition for failures;
    \<open>SubmissionWriteAhead\<close>, \<open>SubmissionEdits\<close> and \<open>SubmissionGuarantees\<close> use it to show the order of the
    calls, what an edit and what a decision make of the stored row; \<open>SubmissionKeys\<close> treats the keys and
    the confirmation; \<open>SubmissionSamples\<close> runs the handlers on concrete services.
  \<^item> The workflows of room-order messages (\<open>sheet-workflows/src/workflows/roomOrders\<close>), which tie the parts
    above together: they are authorized for a stored message, take a claim on it, calculate its view,
    let the bot deliver, and store what came of it. \<open>WorkflowFailures\<close>
    (\<open>sheet-workflows/src/workflows/shared/interactive.ts\<close>) has steps that fail with a declared failure, an
    error, a defect or an interruption, and what the bot's errors become; \<open>TxnLogic\<close> the triples for them.
    \<open>MessageText\<close> (\<open>sheet-bot-api/src/message.ts\<close>, \<open>sheet-message-content/src\<close>) has the messages. \<open>RoomOrderFlow\<close>
    is what the workflows share: a state with the tables, the outside world and the list of calls made,
    and durable actions that may be executed again when their result is lost. \<open>RoomOrderSend\<close>
    (\<open>sendOperations.ts\<close>, \<open>sendDefinition.ts\<close>) publishes, \<open>RoomOrderNavigate\<close> (\<open>operations.ts\<close>, \<open>definition.ts\<close>)
    moves to a neighbouring rank, \<open>RoomOrderPin\<close> (\<open>pinTentativeOperations.ts\<close>, \<open>pinTentativeDefinition.ts\<close>)
    pins. \<open>RoomOrderLogic\<close> has invariants of the calls as a locale that every workflow instantiates;
    \<open>RoomOrderSendGuarantees\<close>, \<open>RoomOrderSendOutcome\<close>, \<open>RoomOrderNavigateGuarantees\<close> and \<open>RoomOrderPinGuarantees\<close>
    show which calls are made, when a claim is given back and what a result rests on, and the theories
    \<open>RoomOrderSendSamples\<close>, \<open>RoomOrderNavigateSamples\<close> and \<open>RoomOrderPinSamples\<close> run them on concrete services.

  How state and effects correspond. A table is the list of its rows in insertion order; a statement
  with a \<open>WHERE\<close> is \<open>update_where\<close> or \<open>lookup_by\<close> on its key; a transaction that fails leaves the
  database unchanged. Clocks are arguments: every operation gets the instants it reads, in
  microseconds for the database and milliseconds for JavaScript, and no property assumes them
  monotone unless its statement says so. Concurrency is interleaving at the points where the code
  awaits storage: a history is a list of steps or events, and the properties quantify over all.
  Errors, refusals and faults are values of a sum or of the phase of an attempt.

  Bounds. The backfill and the cleanup are loops: the first is a function of the list of answers the
  storage gives, at most one page per cursor; the second runs the number of batches the code allows.
  JavaScript numbers that may be fractional are rationals with the three non-finite values beside
  them; floating point rounding is not modelled. Texts are lists of characters below code point 256,
  except for the messages and cells of submissions and the messages of the bot, which are lists of
  UTF-16 code units; numbers in messages are written out below \<open>1e21\<close>. A batch read has three attempts; a search of a regular
  expression needs no fuel.

  Parameters. The workflow engine, the number formatting of \<open>JSON.stringify\<close>, hash functions, the cipher,
  identifiers made at random and row locks held by others are arguments of the definitions; where a
  property needs something of them (an injective hash, a cipher that decrypts what it encrypted) it
  is a hypothesis of its statement, and a witness shows it can hold. The services a submission calls
  (the Google client, the bot, the configuration, the network to the store) are functions of a state of
  the outside world that may answer, fail, time out or lose a call before or after its effect; the
  Unicode tables of JavaScript are a record of functions.

  Not modelled. The web client, the terminal clients, HTTP routes, RPC and cluster wiring, layers and
  configuration, logging, metrics exporters, tracing and the timeouts of calls (a timeout is one of the
  faults a call can have) only pass values on and are left out; so are schema construction and
  migrations, whose effect (keys, checks, uniqueness) is in the operations that rely on it. Parts with
  logic of their own that this development does not reach: the creation of room orders, the workflows
  of check-ins, slots, schedules, teams, announcements, screenshots, members, preferences and the
  configuration of workspaces, the older dispatch service and the automatic check-in, the parsing of
  teams and schedules from Google sheets in \<open>sheet-apis\<close>, the commands of the bot and its Discord
  utilities, the ingress server, the sign-in client of \<open>sheet-auth\<close>, the Zero and SQL toolkits
  (\<open>effect-zero\<close>, \<open>typhoon-zero\<close>, \<open>effect-sql-kit\<close>, \<open>effect-sql-schema\<close>), the adapters of language models and
  the review tool. Of the workflows that are modelled, the durable engine under them is a parameter:
  an action is executed at least once and its last execution gives its result.
\<close>

end
